(* ===== verification/Prelude.thy ===== *)
theory Prelude
  imports Complex_Main "HOL-Library.Log_Nat" "HOL-Library.Multiset" "HOL-Library.Word"
begin

text \<open>
  Shared notions of the development: the errors a JavaScript operation can throw, the result
  type of an operation that can throw, sequencing of such operations, the collections of
  simplification rules that the component theories extend, and generic lemmas on lists.
\<close>

section \<open>Collections of rules\<close>

named_theorems js_eval \<open>equations that evaluate the JavaScript primitives on concrete values\<close>
named_theorems js_res \<open>equations of the result type\<close>

section \<open>Results: a value or a thrown exception\<close>

text \<open>
  A JavaScript expression either yields a value or throws. \<open>Inl\<close> carries the exception and
  \<open>Inr\<close> the value.
\<close>

datatype js_error =
    TypeError
  | RangeError
  | SyntaxError string
  | Thrown string

type_synonym 'a res = "js_error + 'a"

abbreviation ok :: "'a \<Rightarrow> 'a res" where
  "ok \<equiv> Inr"

abbreviation throws :: "js_error \<Rightarrow> 'a res" where
  "throws \<equiv> Inl"

definition bind_res :: "'a res \<Rightarrow> ('a \<Rightarrow> 'b res) \<Rightarrow> 'b res" where
  "bind_res m f = (case m of Inl e \<Rightarrow> Inl e | Inr x \<Rightarrow> f x)"

lemma bind_res_simps [simp, js_res]:
  "bind_res (Inl e) f = Inl e"
  "bind_res (Inr x) f = f x"
  by (simp_all add: bind_res_def)

lemma bind_res_cong [fundef_cong]:
  "m = m' \<Longrightarrow> (\<And>x. m' = Inr x \<Longrightarrow> f x = f' x) \<Longrightarrow> bind_res m f = bind_res m' f'"
  by (auto simp: bind_res_def split: sum.splits)

lemma bind_res_Inr_iff [js_res]:
  "bind_res m f = Inr y \<longleftrightarrow> (\<exists>x. m = Inr x \<and> f x = Inr y)"
  by (auto simp: bind_res_def split: sum.splits)

lemma bind_res_Inl_iff [js_res]:
  "bind_res m f = Inl e \<longleftrightarrow> m = Inl e \<or> (\<exists>x. m = Inr x \<and> f x = Inl e)"
  by (auto simp: bind_res_def split: sum.splits)

lemma bind_res_assoc: "bind_res (bind_res m f) g = bind_res m (\<lambda>x. bind_res (f x) g)"
  by (simp add: bind_res_def split: sum.splits)

text \<open>A loop over a list that stops at the first exception (\<open>forEach\<close>, \<open>map\<close>).\<close>

fun map_res :: "('a \<Rightarrow> 'b res) \<Rightarrow> 'a list \<Rightarrow> 'b list res" where
  "map_res f [] = Inr []"
| "map_res f (x # xs) = bind_res (f x) (\<lambda>y. bind_res (map_res f xs) (\<lambda>ys. Inr (y # ys)))"

fun fold_res :: "('s \<Rightarrow> 'a \<Rightarrow> 's res) \<Rightarrow> 's \<Rightarrow> 'a list \<Rightarrow> 's res" where
  "fold_res f s [] = Inr s"
| "fold_res f s (x # xs) = bind_res (f s x) (\<lambda>s'. fold_res f s' xs)"

lemma map_res_cong [fundef_cong]:
  "xs = ys \<Longrightarrow> (\<And>x. x \<in> set ys \<Longrightarrow> f x = g x) \<Longrightarrow> map_res f xs = map_res g ys"
  by (induction xs arbitrary: ys) auto

lemma map_res_ok:
  "(\<And>x. x \<in> set xs \<Longrightarrow> f x = Inr (g x)) \<Longrightarrow> map_res f xs = Inr (map g xs)"
  by (induction xs) auto

lemma map_res_Inr_iff:
  "map_res f xs = Inr ys \<longleftrightarrow> list_all2 (\<lambda>x y. f x = Inr y) xs ys"
  by (induction xs arbitrary: ys) (auto simp: bind_res_Inr_iff list_all2_Cons1)

lemma map_res_length: "map_res f xs = Inr ys \<Longrightarrow> length ys = length xs"
  by (auto simp: map_res_Inr_iff dest: list_all2_lengthD)

lemma fold_res_append:
  "fold_res f s (xs @ ys) = bind_res (fold_res f s xs) (\<lambda>s'. fold_res f s' ys)"
  by (induction xs arbitrary: s) (auto simp: bind_res_assoc)

lemma fold_res_invariant:
  assumes "fold_res f s xs = Inr t" and "P s"
    and "\<And>s x s'. P s \<Longrightarrow> x \<in> set xs \<Longrightarrow> f s x = Inr s' \<Longrightarrow> P s'"
  shows "P t"
  using assms
proof (induction xs arbitrary: s)
  case Nil
  then show ?case by simp
next
  case (Cons x xs)
  from Cons.prems(1) obtain s' where s': "f s x = Inr s'" and rest: "fold_res f s' xs = Inr t"
    by (auto simp: bind_res_Inr_iff)
  have "P s'" using Cons.prems(3) [OF Cons.prems(2) _ s'] by simp
  then show ?case
  proof (rule Cons.IH [OF rest])
    fix s x s'
    assume "P s" "x \<in> set xs" "f s x = Inr s'"
    then show "P s'" using Cons.prems(3) [of s x s'] by simp
  qed
qed

section \<open>Lists\<close>

text \<open>Reading a JavaScript array at an index: \<open>None\<close> is \<open>undefined\<close>.\<close>

definition list_at :: "'a list \<Rightarrow> nat \<Rightarrow> 'a option" where
  "list_at xs i = (if i < length xs then Some (xs ! i) else None)"

lemma list_at_simps [simp]:
  "list_at [] i = None"
  "list_at (x # xs) 0 = Some x"
  "list_at (x # xs) (Suc i) = list_at xs i"
  by (simp_all add: list_at_def)

lemma list_at_Some_iff: "list_at xs i = Some x \<longleftrightarrow> i < length xs \<and> xs ! i = x"
  by (auto simp: list_at_def)

lemma list_at_None_iff [simp]: "list_at xs i = None \<longleftrightarrow> length xs \<le> i"
  by (auto simp: list_at_def)

lemma list_at_in_set: "list_at xs i = Some x \<Longrightarrow> x \<in> set xs"
  by (auto simp: list_at_Some_iff)

text \<open>Writing a JavaScript array at an index; a write past the end fills the gap.\<close>

definition list_put :: "'a \<Rightarrow> 'a list \<Rightarrow> nat \<Rightarrow> 'a \<Rightarrow> 'a list" where
  "list_put hole xs i x =
     (if i < length xs then xs[i := x] else xs @ replicate (i - length xs) hole @ [x])"

lemma list_put_at: "list_at (list_put h xs i x) i = Some x"
  by (auto simp: list_put_def list_at_def nth_append)

lemma list_put_at_other: "j < length xs \<Longrightarrow> j \<noteq> i \<Longrightarrow> list_at (list_put h xs i x) j = list_at xs j"
  by (auto simp: list_put_def list_at_def nth_append)

lemma list_put_end: "list_put h xs (length xs) x = xs @ [x]"
  by (simp add: list_put_def)

lemma length_list_put: "length (list_put h xs i x) = max (length xs) (Suc i)"
  by (auto simp: list_put_def)

lemma filter_id_iff_all: "filter P xs = xs \<longleftrightarrow> (\<forall>x \<in> set xs. P x)"
  by (auto simp: filter_id_conv)

lemma distinct_remove1_set: "distinct xs \<Longrightarrow> set (remove1 x xs) = set xs - {x}"
  by (rule set_remove1_eq)

end
