(* ===== verification/JS_Number.thy ===== *)
theory JS_Number
  imports Prelude
begin

text \<open>
  JavaScript numbers: IEEE 754 double-precision values. A finite value is held as the rational
  it denotes, and every arithmetic operation is the exact operation followed by rounding to
  the nearest double, ties to even, with overflow to an infinity. The lemmas show that the
  rounding is exact on the integers up to \<open>2 ^ 53\<close> and monotone.
\<close>

section \<open>Values\<close>

datatype jsnum = NaN | PInf | NInf | NZero | Fin rat

abbreviation num_of_int :: "int \<Rightarrow> jsnum" where
  "num_of_int n \<equiv> Fin (of_int n)"

definition is_finite :: "jsnum \<Rightarrow> bool" where
  "is_finite x = (case x of NZero \<Rightarrow> True | Fin _ \<Rightarrow> True | _ \<Rightarrow> False)"

text \<open>The rational a finite number denotes (0 for the others) and its sign bit.\<close>

definition rat_of :: "jsnum \<Rightarrow> rat" where
  "rat_of x = (case x of Fin q \<Rightarrow> q | _ \<Rightarrow> 0)"

definition sign_bit :: "jsnum \<Rightarrow> bool" where
  "sign_bit x = (case x of NInf \<Rightarrow> True | NZero \<Rightarrow> True | Fin q \<Rightarrow> q < 0 | _ \<Rightarrow> False)"

lemma num_proj_simps [simp, js_eval]:
  "rat_of (Fin q) = q" "rat_of NZero = 0" "rat_of NaN = 0" "rat_of PInf = 0" "rat_of NInf = 0"
  "is_finite (Fin q)" "is_finite NZero" "\<not> is_finite NaN" "\<not> is_finite PInf" "\<not> is_finite NInf"
  "sign_bit (Fin q) \<longleftrightarrow> q < 0" "sign_bit NZero" "\<not> sign_bit NaN" "\<not> sign_bit PInf" "sign_bit NInf"
  by (simp_all add: rat_of_def is_finite_def sign_bit_def)

section \<open>Rounding\<close>

text \<open>Round a rational to an integer, ties to even.\<close>

definition rne :: "rat \<Rightarrow> int" where
  "rne x = (let f = \<lfloor>x\<rfloor>; d = x - of_int f in
     if d < 1 / 2 then f else if 1 / 2 < d then f + 1 else if even f then f else f + 1)"

text \<open>The exponent of the binade of a positive rational: the greatest \<open>e\<close> with \<open>2 ^ e \<le> q\<close>.\<close>

definition ilog2 :: "rat \<Rightarrow> int" where
  "ilog2 q = (if 1 \<le> q then bitlen \<lfloor>q\<rfloor> - 1 else - bitlen (\<lceil>1 / q\<rceil> - 1))"

text \<open>
  The weight of the last place of a double of that size: 53 significant bits, and no less than
  the smallest subnormal.
\<close>

definition ulp :: "rat \<Rightarrow> rat" where
  "ulp q = 2 powi (max (ilog2 \<bar>q\<bar> - 52) (- 1074))"

definition rounded :: "rat \<Rightarrow> rat" where
  "rounded q = (if q = 0 then 0 else of_int (rne (q / ulp q)) * ulp q)"

text \<open>
  The double nearest to a rational. A result of zero keeps the sign of what was rounded;
  \<open>neg\<close> is the sign of an exact zero.
\<close>

definition overflow :: rat where
  "overflow = 2 ^ 1024"

definition to_double :: "bool \<Rightarrow> rat \<Rightarrow> jsnum" where
  "to_double neg q = (let r = rounded q in
     if overflow \<le> r then PInf else if r \<le> - overflow then NInf
     else if r = 0 then (if q < 0 \<or> q = 0 \<and> neg then NZero else Fin 0) else Fin r)"

subsection \<open>Rounding to an integer\<close>

lemma rne_of_int [simp]: "rne (of_int n) = n"
  by (simp add: rne_def)

lemma rne_numeral [simp]: "rne (numeral k) = numeral k" "rne (- numeral k) = - numeral k"
  "rne 0 = 0" "rne 1 = 1"
  using rne_of_int [of "numeral k"] rne_of_int [of "- numeral k"] rne_of_int [of 0] rne_of_int [of 1]
  by simp_all

lemma rne_floor_bounds: "\<lfloor>x\<rfloor> \<le> rne x" "rne x \<le> \<lfloor>x\<rfloor> + 1"
  by (auto simp: rne_def Let_def)

lemma rne_mono: "x \<le> y \<Longrightarrow> rne x \<le> rne y"
proof -
  assume le: "x \<le> y"
  show ?thesis
  proof (cases "\<lfloor>x\<rfloor> = \<lfloor>y\<rfloor>")
    case True
    with le show ?thesis by (auto simp: rne_def Let_def)
  next
    case False
    with le have "\<lfloor>x\<rfloor> + 1 \<le> \<lfloor>y\<rfloor>" using floor_mono [OF le] by simp
    with rne_floor_bounds [of x] rne_floor_bounds [of y] show ?thesis by linarith
  qed
qed

lemma rne_error: "\<bar>x - of_int (rne x)\<bar> \<le> 1 / 2"
proof -
  define f where "f = \<lfloor>x\<rfloor>"
  have "of_int f \<le> x" "x < of_int f + 1"
    using floor_correct [of x] by (simp_all add: f_def)
  then show ?thesis
    by (auto simp: rne_def Let_def f_def [symmetric])
qed

subsection \<open>The binade of a rational\<close>

lemma pow2_less_iff: "(2::rat) powi a < 2 powi b \<longleftrightarrow> a < b"
  by (metis linorder_neqE_linordered_idom not_less_iff_gr_or_eq one_less_numeral_iff
      power_int_strict_increasing semiring_norm(76))

lemma pow2_of_int: "0 \<le> k \<Longrightarrow> (2::rat) powi k = of_int (2 ^ nat k)"
  by (simp add: power_int_def)

lemma pow2_le_iff: "(2::rat) powi a \<le> 2 powi b \<longleftrightarrow> a \<le> b"
  by (simp add: pow2_less_iff flip: not_less)

lemma pow2_eq_iff: "(2::rat) powi a = 2 powi b \<longleftrightarrow> a = b"
  by (simp add: pow2_le_iff order_eq_iff)

lemma ilog2_bounds:
  assumes "0 < q"
  shows "2 powi ilog2 q \<le> q" and "q < 2 powi (ilog2 q + 1)"
proof -
  have "2 powi ilog2 q \<le> q \<and> q < 2 powi (ilog2 q + 1)"
  proof (cases "1 \<le> q")
    case True
    define n where "n = \<lfloor>q\<rfloor>"
    have n: "0 < n" using True by (simp add: n_def)
    have b: "2 ^ nat (bitlen n - 1) \<le> n" "n < 2 ^ nat (bitlen n)"
      using bitlen_bounds [OF n] by auto
    have pos: "1 \<le> bitlen n"
      using n by (metis bitlen_nonneg bitlen_eq_zero_iff linorder_not_le zless_imp_add1_zle
          add.left_neutral order_antisym_conv)
    have "of_int (2 ^ nat (bitlen n - 1)) \<le> q"
      using b(1) by (simp only: le_floor_iff [symmetric] n_def)
    moreover have "q < of_int (2 ^ nat (bitlen n))"
      using b(2) by (simp only: floor_less_iff [symmetric] n_def)
    ultimately show ?thesis
      using True pos by (simp add: ilog2_def n_def [symmetric] power_int_def)
  next
    case False
    define n where "n = \<lceil>1 / q\<rceil> - 1"
    have inv: "1 < 1 / q" using False assms by simp
    then have n: "0 < n" by (simp add: n_def) 
    have b: "2 ^ nat (bitlen n - 1) \<le> n" "n < 2 ^ nat (bitlen n)"
      using bitlen_bounds [OF n] by auto
    have pos: "1 \<le> bitlen n"
      using n by (metis bitlen_nonneg bitlen_eq_zero_iff linorder_not_le zless_imp_add1_zle
          add.left_neutral order_antisym_conv)
    have "\<lceil>1 / q\<rceil> \<le> 2 ^ nat (bitlen n)" using b(2) n_def by linarith
    then have up: "1 / q \<le> 2 ^ nat (bitlen n)"
      by (metis ceiling_le_iff of_int_numeral of_int_power)
    have "2 ^ nat (bitlen n - 1) < \<lceil>1 / q\<rceil>" using b(1) n_def by linarith
    then have lo: "2 ^ nat (bitlen n - 1) < 1 / q"
      by (metis less_ceiling_iff of_int_numeral of_int_power)
    have e: "ilog2 q = - bitlen n" using False by (simp add: ilog2_def n_def)
    have e0: "(2::rat) powi (- bitlen n) = 1 / 2 ^ nat (bitlen n)"
      using pos by (simp add: power_int_def power_one_over inverse_eq_divide)
    have e1: "(2::rat) powi (- bitlen n + 1) = 1 / 2 ^ nat (bitlen n - 1)"
      using pos by (auto simp: power_int_def power_one_over inverse_eq_divide)
    have "1 / 2 ^ nat (bitlen n) \<le> q" and "q < 1 / 2 ^ nat (bitlen n - 1)"
      using up lo assms by (simp_all add: field_simps)
    then show ?thesis by (simp only: e e0 e1 simp_thms)
  qed
  then show "2 powi ilog2 q \<le> q" and "q < 2 powi (ilog2 q + 1)" by auto
qed


lemma ilog2_unique:
  assumes "2 powi e \<le> q" and "q < 2 powi (e + 1)"
  shows "ilog2 q = e"
proof -
  have "0 < q" using assms(1) by (rule less_le_trans [rotated]) simp
  from ilog2_bounds [OF this] have a: "2 powi ilog2 q \<le> q" "q < 2 powi (ilog2 q + 1)" by auto
  have "(2::rat) powi ilog2 q < 2 powi (e + 1)" using a(1) assms(2) by (rule le_less_trans)
  then have "ilog2 q < e + 1" by (simp add: pow2_less_iff)
  moreover have "(2::rat) powi e < 2 powi (ilog2 q + 1)" using assms(1) a(2) by (rule le_less_trans)
  then have "e < ilog2 q + 1" by (simp add: pow2_less_iff)
  ultimately show ?thesis by simp
qed

lemma ilog2_mono: "0 < q \<Longrightarrow> q \<le> r \<Longrightarrow> ilog2 q \<le> ilog2 r"
proof -
  assume q: "0 < q" and le: "q \<le> r"
  then have "0 < r" by simp
  have "(2::rat) powi ilog2 q < 2 powi (ilog2 r + 1)"
    using ilog2_bounds [OF q] ilog2_bounds [OF \<open>0 < r\<close>] le by linarith
  then show ?thesis by (simp add: pow2_less_iff)
qed

subsection \<open>Rounding to a double\<close>

lemma ulp_pos [simp]: "0 < ulp q"
  by (simp add: ulp_def)

lemma ulp_nonzero [simp]: "ulp q \<noteq> 0"
  by (metis less_irrefl ulp_pos)

lemma ulp_minus [simp]: "ulp (- q) = ulp q"
  by (simp add: ulp_def)

lemma ulp_mono: "0 < q \<Longrightarrow> q \<le> r \<Longrightarrow> ulp q \<le> ulp r"
  using ilog2_mono [of q r] by (auto simp: ulp_def intro!: power_int_increasing)

text \<open>A rational with an integral significand of at most 53 bits is rounded to itself.\<close>

lemma rounded_exact:
  assumes "\<bar>m\<bar> \<le> 2 ^ 53" and "- 1074 \<le> e"
  shows "rounded (of_int m * 2 powi e) = of_int m * 2 powi e"
proof (cases "m = 0")
  case True
  then show ?thesis by (simp add: rounded_def)
next
  case False
  define q :: rat where "q = of_int m * 2 powi e"
  have abs_q: "\<bar>q\<bar> = of_int \<bar>m\<bar> * 2 powi e" by (simp add: q_def abs_mult)
  have q0: "q \<noteq> 0" "0 < \<bar>q\<bar>" using False by (simp_all add: q_def)
  define u where "u = max (ilog2 \<bar>q\<bar> - 52) (- 1074)"
  have ulp: "ulp q = 2 powi u" by (simp add: ulp_def u_def)
  show ?thesis
  proof (cases "u \<le> e")
    case True
    have "q / ulp q = of_int m * 2 powi (e - u)"
      unfolding ulp by (simp add: q_def power_int_diff)
    also have "\<dots> = of_int (m * 2 ^ nat (e - u))"
      using True by (simp add: power_int_def)
    finally have "rne (q / ulp q) = m * 2 ^ nat (e - u)" by (metis rne_of_int)
    then have "rounded q = of_int (m * 2 ^ nat (e - u)) * ulp q"
      using q0 by (simp add: rounded_def)
    also have "\<dots> = of_int (m * 2 ^ nat (e - u)) * 2 powi u" by (simp add: ulp)
    also have "\<dots> = of_int m * (2 powi (e - u) * 2 powi u)"
      using True by (simp add: power_int_def [of _ "e - u"])
    also have "\<dots> = q" by (simp add: q_def power_int_add [symmetric])
    finally show ?thesis by (simp add: q_def)
  next
    case False
    then have u: "u = ilog2 \<bar>q\<bar> - 52" and lt: "e + 53 \<le> ilog2 \<bar>q\<bar>"
      using assms(2) by (auto simp: u_def)
    have "\<bar>q\<bar> \<le> of_int (2 ^ 53) * 2 powi e"
      unfolding abs_q using assms(1) by (intro mult_right_mono) (simp_all only: of_int_le_iff, simp)
    also have "\<dots> = 2 powi (e + 53)" by (simp add: power_int_add)
    finally have le: "\<bar>q\<bar> \<le> 2 powi (e + 53)" .
    have "(2::rat) powi (e + 53) \<le> 2 powi ilog2 \<bar>q\<bar>" using lt by (intro power_int_increasing) auto
    with le ilog2_bounds(1) [OF q0(2)] have eq: "\<bar>q\<bar> = 2 powi (e + 53)" 
      and eq2: "(2::rat) powi ilog2 \<bar>q\<bar> = 2 powi (e + 53)" by linarith+
    from eq2 have il: "ilog2 \<bar>q\<bar> = e + 53" by (simp add: pow2_eq_iff)
    have ue: "u = e + 1" using u il by simp
    have "q / ulp q = of_int (sgn m * 2 ^ 52)"
    proof -
      have "q = of_int (sgn m) * \<bar>q\<bar>" 
        using False by (cases "0 < m") (auto simp: q_def abs_mult sgn_if)
      then have q': "q = of_int (sgn m) * 2 powi (e + 53)" by (simp only: eq)
      have "q / ulp q = of_int (sgn m) * (2 powi (e + 53) / 2 powi (e + 1))"
        unfolding ulp ue by (subst q') simp
      also have "(2::rat) powi (e + 53) / 2 powi (e + 1) = 2 powi 52"
        by (simp add: power_int_diff [symmetric])
      finally show ?thesis by simp
    qed
    then have r: "of_int (rne (q / ulp q)) = q / ulp q" by (metis rne_of_int)
    have "rounded q = q" using q0 ulp_pos [of q] by (simp add: rounded_def r)
    then show ?thesis by (simp add: q_def)
  qed
qed

lemma rounded_of_int [simp]: "\<bar>n\<bar> \<le> 2 ^ 53 \<Longrightarrow> rounded (of_int n) = of_int n"
  using rounded_exact [of n 0] by simp

lemma rounded_0 [simp]: "rounded 0 = 0"
  by (simp add: rounded_def)

text \<open>Rounding is monotone: within a binade because rounding to an integer is, across binades
  because a power of two lies between.\<close>

lemma rounded_le_pow2:
  assumes "0 < q" and "q \<le> 2 powi e" and "- 1074 \<le> e"
  shows "rounded q \<le> 2 powi e"
proof -
  define u where "u = max (ilog2 \<bar>q\<bar> - 52) (- 1074)"
  have ulp: "ulp q = 2 powi u" by (simp add: ulp_def u_def)
  have "(2::rat) powi ilog2 q \<le> 2 powi e" using ilog2_bounds(1) [OF assms(1)] assms(2) by linarith
  then have "ilog2 q \<le> e" by (simp add: pow2_le_iff)
  then have ue: "u \<le> e" using assms by (simp add: u_def)
  have "q / ulp q \<le> 2 powi e / 2 powi u" using assms(2) by (simp add: ulp divide_right_mono)
  also have "\<dots> = of_int (2 ^ nat (e - u))"
    using ue by (simp add: power_int_diff [symmetric] pow2_of_int del: of_int_power)
  finally have "rne (q / ulp q) \<le> 2 ^ nat (e - u)" using rne_mono rne_of_int by metis
  then have "of_int (rne (q / ulp q)) \<le> (of_int (2 ^ nat (e - u)) :: rat)"
    by (simp only: of_int_le_iff)
  then have "rounded q \<le> of_int (2 ^ nat (e - u)) * 2 powi u"
    using assms(1) by (simp add: rounded_def ulp mult_right_mono)
  also have "\<dots> = 2 powi e"
    using ue pow2_of_int [of "e - u"] power_int_add [of "2::rat" "e - u" u] by simp
  finally show ?thesis .
qed

lemma rne_minus: "rne (- x) = - rne x"
proof (cases "x = of_int \<lfloor>x\<rfloor>")
  case True
  then show ?thesis by (metis of_int_minus rne_of_int)
next
  case False
  have fl: "\<lfloor>- x\<rfloor> = - \<lfloor>x\<rfloor> - 1"
    using False by (simp add: floor_minus ceiling_altdef)
  show ?thesis
    unfolding rne_def Let_def fl by auto
qed

lemma rounded_minus [simp]: "rounded (- q) = - rounded q"
proof -
  have "rne (- q / ulp q) = - rne (q / ulp q)"
    by (simp only: minus_divide_left [symmetric] rne_minus)
  then show ?thesis by (simp add: rounded_def)
qed

lemma rne_nonneg: "0 \<le> x \<Longrightarrow> 0 \<le> rne x"
  using rne_mono [of 0 x] by simp

lemma rounded_nonneg: "0 \<le> q \<Longrightarrow> 0 \<le> rounded q"
  by (simp add: rounded_def rne_nonneg less_imp_le [OF ulp_pos])

lemma rounded_nonpos: "q \<le> 0 \<Longrightarrow> rounded q \<le> 0"
  using rounded_nonneg [of "- q"] by simp

lemma pow2_le_rounded:
  assumes "0 < q" and "- 1022 \<le> ilog2 q"
  shows "2 powi ilog2 q \<le> rounded q"
proof -
  have ulp: "ulp q = 2 powi (ilog2 q - 52)" using assms by (simp add: ulp_def)
  have "of_int (2 ^ 52) = 2 powi ilog2 q / ulp q"
    by (simp add: ulp power_int_diff)
  also have "\<dots> \<le> q / ulp q"
    using ilog2_bounds(1) [OF assms(1)] by (simp add: divide_right_mono less_imp_le [OF ulp_pos])
  finally have "2 ^ 52 \<le> rne (q / ulp q)" using rne_mono rne_of_int by metis
  then have "of_int (2 ^ 52) \<le> (of_int (rne (q / ulp q)) :: rat)"
    by (simp only: of_int_le_iff)
  then have "of_int (2 ^ 52) * ulp q \<le> rounded q"
    using assms(1) by (simp add: rounded_def mult_right_mono less_imp_le [OF ulp_pos])
  then show ?thesis by (simp add: ulp power_int_diff)
qed

lemma rounded_mono_pos:
  assumes q: "0 < q" and le: "q \<le> r"
  shows "rounded q \<le> rounded r"
proof -
  have r: "0 < r" using q le by simp
  have il: "ilog2 q \<le> ilog2 r" by (rule ilog2_mono [OF q le])
  show ?thesis
  proof (cases "ulp q = ulp r")
    case True
    have "rne (q / ulp r) \<le> rne (r / ulp r)"
      using le by (intro rne_mono divide_right_mono) (simp_all add: less_imp_le [OF ulp_pos])
    then have "of_int (rne (q / ulp r)) \<le> (of_int (rne (r / ulp r)) :: rat)"
      by (simp only: of_int_le_iff)
    then show ?thesis
      using q r True by (simp add: rounded_def mult_right_mono less_imp_le [OF ulp_pos])
  next
    case False
    then have "max (ilog2 q - 52) (- 1074) \<noteq> max (ilog2 r - 52) (- 1074)"
      using q r by (auto simp: ulp_def)
    then have lt: "ilog2 q < ilog2 r" and big: "- 1022 \<le> ilog2 r" using il by auto
    have "q \<le> 2 powi (ilog2 q + 1)" using ilog2_bounds(2) [OF q] by simp
    also have "\<dots> \<le> 2 powi ilog2 r" using lt by (simp add: pow2_le_iff)
    finally have "rounded q \<le> 2 powi ilog2 r"
      using big by (intro rounded_le_pow2 [OF q]) auto
    also have "\<dots> \<le> rounded r" by (rule pow2_le_rounded [OF r big])
    finally show ?thesis .
  qed
qed

lemma rounded_mono: "q \<le> r \<Longrightarrow> rounded q \<le> rounded r"
proof -
  assume le: "q \<le> r"
  consider "0 < q" | "q \<le> 0" "0 \<le> r" | "r < 0" by linarith
  then show ?thesis
  proof cases
    case 1
    then show ?thesis using le by (rule rounded_mono_pos)
  next
    case 2
    then show ?thesis using rounded_nonneg rounded_nonpos by fastforce
  next
    case 3
    then have "rounded (- r) \<le> rounded (- q)" using le by (intro rounded_mono_pos) auto
    then show ?thesis by simp
  qed
qed

text \<open>What rounding returns is a double: rounding it again changes nothing.\<close>

lemma rounded_idem [simp]: "rounded (rounded q) = rounded q"
proof (cases "q = 0")
  case False
  define u where "u = max (ilog2 \<bar>q\<bar> - 52) (- 1074)"
  have ulp: "ulp q = 2 powi u" by (simp add: ulp_def u_def)
  have "\<bar>q\<bar> < 2 powi (ilog2 \<bar>q\<bar> + 1)" using False by (intro ilog2_bounds) simp
  also have "\<dots> \<le> 2 powi (u + 53)" by (simp add: pow2_le_iff u_def)
  also have "\<dots> = of_int (2 ^ 53) * ulp q" by (simp add: ulp power_int_add)
  finally have "\<bar>q / ulp q\<bar> \<le> of_int (2 ^ 53)"
    using ulp_pos [of q] by (simp add: abs_divide divide_le_eq)
  then have "q / ulp q \<le> of_int (2 ^ 53)" and "of_int (- (2 ^ 53)) \<le> q / ulp q"
    by (auto simp only: abs_le_iff of_int_minus minus_le_iff)
  then have "rne (q / ulp q) \<le> 2 ^ 53" and "- (2 ^ 53) \<le> rne (q / ulp q)"
    using rne_mono rne_of_int by metis+
  then have "\<bar>rne (q / ulp q)\<bar> \<le> 2 ^ 53" by simp
  then have "rounded (of_int (rne (q / ulp q)) * 2 powi u) = of_int (rne (q / ulp q)) * 2 powi u"
    by (intro rounded_exact) (auto simp: u_def)
  then show ?thesis using False by (simp add: rounded_def ulp [symmetric])
qed simp


section \<open>Arithmetic\<close>

lemma overflow_pos [simp]: "0 < overflow" "\<not> overflow \<le> 0"
  by (simp_all add: overflow_def)

lemma to_double_of_int [simp, js_eval]:
  "\<bar>n\<bar> \<le> 2 ^ 53 \<Longrightarrow> to_double False (of_int n) = Fin (of_int n)"
proof -
  assume n: "\<bar>n\<bar> \<le> 2 ^ 53"
  have "\<bar>of_int n :: rat\<bar> \<le> of_int (2 ^ 53)" using n by (simp only: of_int_abs [symmetric] of_int_le_iff)
  also have "\<dots> < overflow" by (simp add: overflow_def)
  finally have "\<bar>of_int n :: rat\<bar> < overflow" .
  then show ?thesis using n by (auto simp: to_double_def Let_def abs_less_iff)
qed

text \<open>Rounding of an exact value to a double, when the value is one.\<close>

lemma to_double_exact:
  assumes "rounded q = q" and "\<bar>q\<bar> < overflow" and "q \<noteq> 0"
  shows "to_double s q = Fin q"
  using assms by (auto simp: to_double_def Let_def abs_less_iff)

lemma to_double_0 [simp, js_eval]: "to_double False 0 = Fin 0" "to_double True 0 = NZero"
  by (simp_all add: to_double_def)

definition js_neg :: "jsnum \<Rightarrow> jsnum" where
  "js_neg x = (case x of NaN \<Rightarrow> NaN | PInf \<Rightarrow> NInf | NInf \<Rightarrow> PInf | NZero \<Rightarrow> Fin 0
     | Fin q \<Rightarrow> if q = 0 then NZero else Fin (- q))"

definition js_add :: "jsnum \<Rightarrow> jsnum \<Rightarrow> jsnum" where
  "js_add x y =
     (if x = NaN \<or> y = NaN then NaN
      else if x = PInf then (if y = NInf then NaN else PInf)
      else if x = NInf then (if y = PInf then NaN else NInf)
      else if y = PInf \<or> y = NInf then y
      else to_double (x = NZero \<and> y = NZero) (rat_of x + rat_of y))"

definition js_sub :: "jsnum \<Rightarrow> jsnum \<Rightarrow> jsnum" where
  "js_sub x y = js_add x (js_neg y)"

definition signed_inf :: "bool \<Rightarrow> jsnum" where
  "signed_inf neg = (if neg then NInf else PInf)"

definition js_mul :: "jsnum \<Rightarrow> jsnum \<Rightarrow> jsnum" where
  "js_mul x y = (let neg = (sign_bit x \<noteq> sign_bit y) in
     if x = NaN \<or> y = NaN then NaN
     else if \<not> is_finite x then (if is_finite y \<and> rat_of y = 0 then NaN else signed_inf neg)
     else if \<not> is_finite y then (if rat_of x = 0 then NaN else signed_inf neg)
     else to_double neg (rat_of x * rat_of y))"

definition js_div :: "jsnum \<Rightarrow> jsnum \<Rightarrow> jsnum" where
  "js_div x y = (let neg = (sign_bit x \<noteq> sign_bit y) in
     if x = NaN \<or> y = NaN then NaN
     else if \<not> is_finite x then (if is_finite y then signed_inf neg else NaN)
     else if \<not> is_finite y then (if neg then NZero else Fin 0)
     else if rat_of y = 0 then (if rat_of x = 0 then NaN else signed_inf neg)
     else to_double neg (rat_of x / rat_of y))"

section \<open>Comparison\<close>

text \<open>\<open>==\<close> and \<open><\<close> on numbers: \<open>NaN\<close> is neither equal nor comparable, the two zeros are equal.\<close>

definition num_eq :: "jsnum \<Rightarrow> jsnum \<Rightarrow> bool" where
  "num_eq x y = (x \<noteq> NaN \<and> y \<noteq> NaN \<and>
     (if is_finite x \<and> is_finite y then rat_of x = rat_of y else x = y))"

definition num_lt :: "jsnum \<Rightarrow> jsnum \<Rightarrow> bool" where
  "num_lt x y = (x \<noteq> NaN \<and> y \<noteq> NaN \<and>
     (if is_finite x \<and> is_finite y then rat_of x < rat_of y
      else x \<noteq> y \<and> (x = NInf \<or> y = PInf)))"

definition num_le :: "jsnum \<Rightarrow> jsnum \<Rightarrow> bool" where
  "num_le x y = (num_lt x y \<or> num_eq x y)"

lemmas num_cmp_defs = num_eq_def num_lt_def num_le_def

lemma num_eq_sym: "num_eq x y \<longleftrightarrow> num_eq y x"
  by (auto simp: num_eq_def)

lemma num_lt_irrefl [simp]: "\<not> num_lt x x"
  by (auto simp: num_lt_def)

lemma num_lt_trans: "num_lt x y \<Longrightarrow> num_lt y z \<Longrightarrow> num_lt x z"
  by (cases x; cases y; cases z) (auto simp: num_lt_def)

lemma num_le_trans: "num_le x y \<Longrightarrow> num_le y z \<Longrightarrow> num_le x z"
  by (cases x; cases y; cases z) (auto simp: num_cmp_defs)

lemma num_trichotomy: "x \<noteq> NaN \<Longrightarrow> y \<noteq> NaN \<Longrightarrow> num_lt x y \<or> num_eq x y \<or> num_lt y x"
  by (cases x; cases y) (auto simp: num_cmp_defs)

lemma num_cmp_Fin [simp]:
  "num_eq (Fin p) (Fin q) \<longleftrightarrow> p = q" "num_lt (Fin p) (Fin q) \<longleftrightarrow> p < q"
  "num_le (Fin p) (Fin q) \<longleftrightarrow> p \<le> q"
  by (auto simp: num_cmp_defs)

lemma num_le_PInf: "x \<noteq> NaN \<Longrightarrow> num_le x PInf"
  by (cases x) (auto simp: num_cmp_defs)

lemma num_le_NInf: "x \<noteq> NaN \<Longrightarrow> num_le NInf x"
  by (cases x) (auto simp: num_cmp_defs)

lemma to_double_not_NaN [simp]: "to_double s q \<noteq> NaN"
  by (auto simp: to_double_def Let_def)

lemma num_le_finite: "is_finite x \<Longrightarrow> is_finite y \<Longrightarrow> num_le x y \<longleftrightarrow> rat_of x \<le> rat_of y"
  by (cases x; cases y) (auto simp: num_cmp_defs)

lemma to_double_PInf: "overflow \<le> rounded q \<Longrightarrow> to_double s q = PInf"
  by (simp add: to_double_def)

lemma to_double_NInf: "rounded q \<le> - overflow \<Longrightarrow> to_double s q = NInf"
  using overflow_pos(1) by (auto simp: to_double_def Let_def simp del: overflow_pos)

lemma to_double_finite:
  assumes "\<bar>rounded q\<bar> < overflow"
  shows "is_finite (to_double s q)" and "rat_of (to_double s q) = rounded q"
  using assms by (auto simp: to_double_def Let_def abs_less_iff)

lemma to_double_cases:
  obtains "overflow \<le> rounded q" | "rounded q \<le> - overflow" | "\<bar>rounded q\<bar> < overflow"
  by (meson abs_less_iff minus_less_iff not_le)

lemma to_double_mono:
  assumes "q \<le> r"
  shows "num_le (to_double s q) (to_double t r)"
proof (cases q rule: to_double_cases)
  case 1
  then have "overflow \<le> rounded r" using rounded_mono [OF assms] by simp
  then show ?thesis by (simp add: to_double_PInf num_le_PInf)
next
  case 2
  then show ?thesis by (simp add: to_double_NInf num_le_NInf)
next
  case 3
  then have "- overflow < rounded r" using rounded_mono [OF assms] by (simp add: abs_less_iff)
  then show ?thesis
    using 3 rounded_mono [OF assms]
    by (cases r rule: to_double_cases)
      (simp_all add: to_double_PInf num_le_PInf num_le_finite to_double_finite)
qed

section \<open>Well-formed numbers\<close>

text \<open>A finite number of the model is a double when rounding leaves it unchanged.\<close>

definition is_double :: "jsnum \<Rightarrow> bool" where
  "is_double x = (case x of Fin q \<Rightarrow> rounded q = q \<and> \<bar>q\<bar> < overflow | _ \<Rightarrow> True)"

lemma is_double_simps [simp]:
  "is_double NaN" "is_double PInf" "is_double NInf" "is_double NZero"
  "is_double (Fin q) \<longleftrightarrow> rounded q = q \<and> \<bar>q\<bar> < overflow"
  by (simp_all add: is_double_def)

lemma is_double_to_double [simp]: "is_double (to_double s q)"
  by (auto simp: to_double_def Let_def abs_less_iff)

lemma is_double_neg: "is_double x \<Longrightarrow> is_double (js_neg x)"
  by (auto simp: js_neg_def split: jsnum.splits)

lemma is_double_add [simp]: "is_double (js_add x y)"
  by (auto simp: js_add_def)

lemma is_double_sub [simp]: "is_double (js_sub x y)"
  by (simp add: js_sub_def)

lemma is_double_mul [simp]: "is_double (js_mul x y)"
  by (auto simp: js_mul_def Let_def signed_inf_def)

lemma is_double_div [simp]: "is_double (js_div x y)"
  by (auto simp: js_div_def Let_def signed_inf_def)

lemma is_double_of_int: "\<bar>n\<bar> \<le> 2 ^ 53 \<Longrightarrow> is_double (num_of_int n)"
  by (metis is_double_to_double to_double_of_int)

text \<open>Scaling by a positive constant is monotone.\<close>

lemma js_div_mono:
  assumes "num_le x y" and "0 < q"
  shows "num_le (js_div x (Fin q)) (js_div y (Fin q))"
proof -
  have fin: "js_div z (Fin q) = to_double (sign_bit z) (rat_of z / q)" if "is_finite z" for z
    using that assms(2) by (cases z) (auto simp: js_div_def Let_def)
  have inf: "js_div PInf (Fin q) = PInf" "js_div NInf (Fin q) = NInf"
    using assms(2) by (auto simp: js_div_def signed_inf_def)
  have dbl: "js_div z (Fin q) \<noteq> NaN" if "z \<noteq> NaN" for z
    using that assms(2) by (auto simp: js_div_def Let_def signed_inf_def)
  consider "is_finite x" "is_finite y" "rat_of x \<le> rat_of y" | "x = NInf" "y \<noteq> NaN"
    | "y = PInf" "x \<noteq> NaN"
    using assms(1) by (cases x; cases y) (auto simp: num_cmp_defs)
  then show ?thesis
  proof cases
    case 1
    then show ?thesis
      using assms(2) by (simp add: fin to_double_mono divide_right_mono)
  next
    case 2
    then show ?thesis using dbl by (simp add: inf num_le_NInf)
  next
    case 3
    then show ?thesis using dbl by (simp add: inf num_le_PInf)
  qed
qed

end
