(* ===== verification/JS_String.thy ===== *)
theory JS_String
  imports JS_Number "HOL-Library.Sublist"
begin

text \<open>
  JavaScript strings and the conversions between strings and numbers. A string is a list of
  code units; the model's characters are the code units below 256, which hold every text the
  program itself produces. Case mapping covers ASCII and the Latin-1 letters whose counterpart
  is in Latin-1. The lemmas give the round trips the program relies on: splitting what was
  joined, and reading back a printed integer.
\<close>

section \<open>Characters\<close>

definition code :: "char \<Rightarrow> nat" where
  "code c = of_char c"

definition is_ws :: "char \<Rightarrow> bool" where
  "is_ws c = (9 \<le> code c \<and> code c \<le> 13 \<or> code c = 32 \<or> code c = 160)"

definition is_digit :: "char \<Rightarrow> bool" where
  "is_digit c = (48 \<le> code c \<and> code c \<le> 57)"

text \<open>The value of a digit in bases up to 36.\<close>

definition digit_val :: "char \<Rightarrow> nat option" where
  "digit_val c =
     (if 48 \<le> code c \<and> code c \<le> 57 then Some (code c - 48)
      else if 97 \<le> code c \<and> code c \<le> 122 then Some (code c - 87)
      else if 65 \<le> code c \<and> code c \<le> 90 then Some (code c - 55) else None)"

definition digit_char :: "nat \<Rightarrow> char" where
  "digit_char d = (if d < 10 then char_of (48 + d) else char_of (87 + d))"

definition upper_char :: "char \<Rightarrow> char" where
  "upper_char c =
     (if 97 \<le> code c \<and> code c \<le> 122 \<or> 224 \<le> code c \<and> code c \<le> 254 \<and> code c \<noteq> 247
      then char_of (code c - 32) else c)"

definition lower_char :: "char \<Rightarrow> char" where
  "lower_char c =
     (if 65 \<le> code c \<and> code c \<le> 90 \<or> 192 \<le> code c \<and> code c \<le> 222 \<and> code c \<noteq> 215
      then char_of (code c + 32) else c)"

lemma code_char_of [simp]: "n < 256 \<Longrightarrow> code (char_of n) = n"
  by (simp add: code_def)

lemma code_inject [simp]: "code c = code d \<longleftrightarrow> c = d"
  by (simp add: code_def)

lemma code_less_256: "code c < 256"
  by (simp add: code_def)

lemma digit_char_code: "d < 36 \<Longrightarrow> code (digit_char d) = (if d < 10 then 48 + d else 87 + d)"
  by (simp add: digit_char_def)

lemma digit_val_char [simp]: "d < 36 \<Longrightarrow> digit_val (digit_char d) = Some d"
  by (simp add: digit_val_def digit_char_code)

lemma is_digit_digit_char [simp]: "d < 10 \<Longrightarrow> is_digit (digit_char d)"
  by (simp add: is_digit_def digit_char_code)

lemma is_digit_not_ws: "is_digit c \<Longrightarrow> \<not> is_ws c"
  by (auto simp: is_digit_def is_ws_def)

section \<open>Strings\<close>

definition upper_case :: "string \<Rightarrow> string" where
  "upper_case = map upper_char"

definition lower_case :: "string \<Rightarrow> string" where
  "lower_case = map lower_char"

definition trim_left :: "string \<Rightarrow> string" where
  "trim_left s = dropWhile is_ws s"

definition trim :: "string \<Rightarrow> string" where
  "trim s = rev (dropWhile is_ws (rev (dropWhile is_ws s)))"

text \<open>\<open>indexOf\<close>: the first position at which the pattern stands; \<open>None\<close> is \<open>-1\<close>.\<close>

fun index_of :: "string \<Rightarrow> string \<Rightarrow> nat option" where
  "index_of [] p = (if p = [] then Some 0 else None)"
| "index_of (c # s) p =
     (if prefix p (c # s) then Some 0 else map_option Suc (index_of s p))"

text \<open>\<open>replace\<close> with a string pattern: only the first occurrence.\<close>

definition replace_first :: "string \<Rightarrow> string \<Rightarrow> string \<Rightarrow> string" where
  "replace_first s p r =
     (case index_of s p of None \<Rightarrow> s | Some i \<Rightarrow> take i s @ r @ drop (i + length p) s)"

text \<open>\<open>substr\<close> with a non-negative start.\<close>

definition substr :: "string \<Rightarrow> nat \<Rightarrow> nat \<Rightarrow> string" where
  "substr s start len = take len (drop start s)"

text \<open>\<open>split\<close> at a one-character separator.\<close>

fun split_char :: "char \<Rightarrow> string \<Rightarrow> string list" where
  "split_char sep [] = [[]]"
| "split_char sep (c # s) =
     (if c = sep then [] # split_char sep s
      else (case split_char sep s of [] \<Rightarrow> [[c]] | w # ws \<Rightarrow> (c # w) # ws))"

text \<open>\<open>join\<close> with a separator.\<close>

fun join :: "string \<Rightarrow> string list \<Rightarrow> string" where
  "join sep [] = []"
| "join sep [w] = w"
| "join sep (w # v # ws) = w @ sep @ join sep (v # ws)"

text \<open>The order of strings: code unit by code unit.\<close>

fun str_less :: "string \<Rightarrow> string \<Rightarrow> bool" where
  "str_less s [] = False"
| "str_less [] (d # t) = True"
| "str_less (c # s) (d # t) = (code c < code d \<or> c = d \<and> str_less s t)"

lemma index_of_Some_0 [simp]: "index_of s p = Some 0 \<longleftrightarrow> prefix p s"
  by (cases s) (auto simp: prefix_def)

lemma index_of_Some_iff:
  "(\<exists>i. index_of s p = Some i) \<longleftrightarrow> (\<exists>u v. s = u @ p @ v)"
proof (induction s)
  case Nil
  then show ?case by auto
next
  case (Cons c s)
  show ?case
  proof (cases "prefix p (c # s)")
    case True
    then show ?thesis by (auto simp: prefix_def intro: exI [of _ "[]"])
  next
    case False
    have "(\<exists>u v. c # s = u @ p @ v) \<longleftrightarrow> (\<exists>u v. s = u @ p @ v)"
      using False by (auto simp: prefix_def Cons_eq_append_conv)
    with False Cons.IH show ?thesis by simp
  qed
qed

lemma index_of_Some_split:
  "index_of s p = Some i \<Longrightarrow> i + length p \<le> length s \<and> s = take i s @ p @ drop (i + length p) s"
proof (induction s arbitrary: i)
  case Nil
  then show ?case by (simp split: if_splits)
next
  case (Cons c s)
  show ?case
  proof (cases "prefix p (c # s)")
    case True
    then have i: "i = 0" using Cons.prems by simp
    from True obtain zs where zs: "c # s = p @ zs" by (auto simp: prefix_def)
    then have "length p \<le> length (c # s)" by (metis le_add1 length_append)
    then show ?thesis using zs i by simp
  next
    case False
    then obtain j where "index_of s p = Some j" "i = Suc j" using Cons.prems by auto
    then show ?thesis using Cons.IH [of j] by simp
  qed
qed

lemma split_char_nonempty [simp]: "split_char sep s \<noteq> []"
  by (induction s) (auto split: list.splits)

lemma split_char_no_sep: "sep \<notin> set s \<Longrightarrow> split_char sep s = [s]"
  by (induction s) auto

lemma split_char_append:
  "sep \<notin> set w \<Longrightarrow> split_char sep (w @ sep # s) = w # split_char sep s"
  by (induction w) auto

text \<open>Splitting what was joined gives the parts back, when no part holds the separator.\<close>

lemma split_char_join:
  "ws \<noteq> [] \<Longrightarrow> (\<And>w. w \<in> set ws \<Longrightarrow> sep \<notin> set w) \<Longrightarrow> split_char sep (join [sep] ws) = ws"
proof (induction ws rule: induct_list012)
  case (3 w v ws)
  then show ?case by (simp add: split_char_append)
qed (auto simp: split_char_no_sep)

lemma join_split_char: "join [sep] (split_char sep s) = s"
proof (induction s)
  case (Cons c s)
  show ?case
  proof (cases "split_char sep s")
    case Nil
    then show ?thesis by simp
  next
    case (Cons w ws)
    with Cons.IH show ?thesis by (cases ws) auto
  qed
qed simp

lemma split_char_parts: "w \<in> set (split_char sep s) \<Longrightarrow> sep \<notin> set w"
  by (induction s arbitrary: w) (auto split: list.splits if_splits)

lemma set_join_subset: "set (join sep ws) \<subseteq> set sep \<union> (\<Union>w \<in> set ws. set w)"
  by (induction ws rule: induct_list012) auto

lemma dropWhile_ws_id: "(\<And>c. c \<in> set s \<Longrightarrow> \<not> is_ws c) \<Longrightarrow> dropWhile is_ws s = s"
  by (cases s) auto

lemma trim_id: "(\<And>c. c \<in> set s \<Longrightarrow> \<not> is_ws c) \<Longrightarrow> trim s = s"
  using dropWhile_ws_id [of s] dropWhile_ws_id [of "rev s"] by (simp add: trim_def)

lemma trim_empty_iff: "trim s = [] \<longleftrightarrow> (\<forall>c \<in> set s. is_ws c)"
proof -
  have "trim s = [] \<longleftrightarrow> (\<forall>c \<in> set (dropWhile is_ws s). is_ws c)"
    by (simp add: trim_def dropWhile_eq_Nil_conv)
  also have "\<dots> \<longleftrightarrow> dropWhile is_ws s = []"
    using hd_dropWhile [of is_ws s] hd_in_set [of "dropWhile is_ws s"] by (metis empty_iff list.set(1))
  finally show ?thesis by (simp only: dropWhile_eq_Nil_conv)
qed

lemma str_less_irrefl [simp]: "\<not> str_less s s"
  by (induction s) auto

lemma str_less_trans: "str_less s t \<Longrightarrow> str_less t u \<Longrightarrow> str_less s u"
proof (induction s t arbitrary: u rule: str_less.induct)
  case (2 d t)
  then show ?case by (cases u) auto
next
  case (3 c s d t)
  then show ?case by (cases u) auto
qed simp

lemma str_less_total: "s = t \<or> str_less s t \<or> str_less t s"
proof (induction s t rule: str_less.induct)
  case (1 s)
  then show ?case by (cases s) auto
next
  case (3 c s d t)
  have "code c < code d \<or> c = d \<or> code d < code c"
    using code_inject [of c d] by linarith
  with 3 show ?case by auto
qed simp

section \<open>Printing numbers\<close>

text \<open>The digits of a natural number in a base from 2 to 36 (\<open>toString(radix)\<close> of an integer).\<close>

fun nat_digits :: "nat \<Rightarrow> nat \<Rightarrow> string" where
  "nat_digits b n =
     (if b < 2 \<or> n < b then [digit_char n] else nat_digits b (n div b) @ [digit_char (n mod b)])"

declare nat_digits.simps [simp del]

definition int_to_string :: "nat \<Rightarrow> int \<Rightarrow> string" where
  "int_to_string b n =
     (if n < 0 then CHR ''-'' # nat_digits b (nat (- n)) else nat_digits b (nat n))"

text \<open>
  The number of digits before the decimal point of a positive rational (at most 0 for a
  fraction): the \<open>n\<close> with \<open>10 ^ (n - 1) \<le> q < 10 ^ n\<close>.
\<close>

definition point_pos :: "rat \<Rightarrow> int" where
  "point_pos q =
     (if 1 \<le> q then int (length (nat_digits 10 (nat \<lfloor>q\<rfloor>)))
      else (let m = nat (\<lceil>1 / q\<rceil> - 1) in if m = 0 then 1 else - int (length (nat_digits 10 m)) + 1))"

text \<open>
  The shortest decimal significand that reads back as the number: the least digit count \<open>k\<close> for
  which one of the two \<open>k\<close>-digit neighbours of \<open>q\<close> rounds to \<open>q\<close>, the nearer one if both do.
\<close>

definition digits_at :: "rat \<Rightarrow> int \<Rightarrow> nat \<Rightarrow> int option" where
  "digits_at q n k = (let x = q * 10 powi (int k - n); lo = \<lfloor>x\<rfloor>; hi = lo + 1;
       reads = (\<lambda>s. rounded (of_int s * 10 powi (n - int k)) = q) in
     if reads lo \<and> (\<not> reads hi \<or> x - of_int lo \<le> of_int hi - x) then Some lo
     else if reads hi then Some hi else None)"

fun shortest_from :: "rat \<Rightarrow> int \<Rightarrow> nat \<Rightarrow> nat \<Rightarrow> int \<times> nat" where
  "shortest_from q n k 0 = (\<lfloor>q * 10 powi (int k - n)\<rfloor>, k)"
| "shortest_from q n k (Suc tries) =
     (case digits_at q n k of Some s \<Rightarrow> (s, k) | None \<Rightarrow> shortest_from q n (Suc k) tries)"

text \<open>The layout of a significand of \<open>k\<close> digits with the point after \<open>n\<close> of them.\<close>

definition layout_digits :: "string \<Rightarrow> int \<Rightarrow> string" where
  "layout_digits ds n = (let k = int (length ds) in
     if k \<le> n \<and> n \<le> 21 then ds @ replicate (nat (n - k)) (CHR ''0'')
     else if 0 < n \<and> n \<le> 21 then take (nat n) ds @ ''.'' @ drop (nat n) ds
     else if - 6 < n \<and> n \<le> 0 then ''0.'' @ replicate (nat (- n)) (CHR ''0'') @ ds
     else take 1 ds @ (if 1 < k then ''.'' @ drop 1 ds else '''') @ ''e'' @
       (if 0 < n then ''+'' else ''-'') @ nat_digits 10 (nat \<bar>n - 1\<bar>))"

text \<open>
  \<open>String(x)\<close>. An integer of at most 53 bits prints as its decimal digits, which is what the
  shortest-significand rule gives for it. Where the nearer neighbour is \<open>10 ^ k\<close>, its last
  digit moves into the exponent.
\<close>

definition num_to_string :: "jsnum \<Rightarrow> string" where
  "num_to_string x = (case x of
     NaN \<Rightarrow> ''NaN'' | PInf \<Rightarrow> ''Infinity'' | NInf \<Rightarrow> ''-Infinity'' | NZero \<Rightarrow> ''0''
   | Fin q \<Rightarrow>
       if of_int \<lfloor>q\<rfloor> = q \<and> \<bar>\<lfloor>q\<rfloor>\<bar> \<le> 2 ^ 53 then int_to_string 10 \<lfloor>q\<rfloor>
       else (let a = \<bar>q\<bar>; n = point_pos a; (s, k) = shortest_from a n 1 17;
             ds = nat_digits 10 (nat s);
             str = layout_digits (take k ds) (n + int (length ds) - int k) in
         if q < 0 then CHR ''-'' # str else str))"

section \<open>Reading numbers\<close>

definition digits_value :: "nat \<Rightarrow> string \<Rightarrow> nat" where
  "digits_value b s = foldl (\<lambda>v c. v * b + (case digit_val c of Some d \<Rightarrow> d | None \<Rightarrow> 0)) 0 s"

definition is_digit_in :: "nat \<Rightarrow> char \<Rightarrow> bool" where
  "is_digit_in b c = (case digit_val c of Some d \<Rightarrow> d < b | None \<Rightarrow> False)"

text \<open>An optional sign: is it a minus, and what follows.\<close>

definition scan_sign :: "string \<Rightarrow> bool \<times> string" where
  "scan_sign s = (case s of [] \<Rightarrow> (False, s)
     | c # t \<Rightarrow> if c = CHR ''-'' then (True, t) else if c = CHR ''+'' then (False, t) else (False, s))"

definition has_hex_prefix :: "string \<Rightarrow> bool" where
  "has_hex_prefix s = (take 2 s = ''0x'' \<or> take 2 s = ''0X'')"

text \<open>\<open>parseInt(s, radix)\<close>; radix 0 stands for a missing one.\<close>

definition parse_int :: "nat \<Rightarrow> string \<Rightarrow> jsnum" where
  "parse_int radix s = (let (neg, t) = scan_sign (trim_left s);
       hex = ((radix = 0 \<or> radix = 16) \<and> has_hex_prefix t);
       b = (if hex then 16 else if radix = 0 then 10 else radix);
       ds = takeWhile (is_digit_in b) (if hex then drop 2 t else t) in
     if ds = [] then NaN
     else to_double neg ((if neg then - 1 else 1) * of_nat (digits_value b ds)))"

text \<open>
  The longest prefix that is an unsigned decimal literal, its value and what follows:
  digits, a point and digits, an exponent.
\<close>

definition scan_exponent :: "string \<Rightarrow> int \<times> string" where
  "scan_exponent s = (case s of [] \<Rightarrow> (0, s)
     | c # t \<Rightarrow>
         if c = CHR ''e'' \<or> c = CHR ''E'' then
           (let (neg, u) = scan_sign t; ds = takeWhile is_digit u in
            if ds = [] then (0, s)
            else ((if neg then - 1 else 1) * int (digits_value 10 ds), dropWhile is_digit u))
         else (0, s))"

definition scan_decimal :: "string \<Rightarrow> (rat \<times> string) option" where
  "scan_decimal s = (let ip = takeWhile is_digit s; r1 = dropWhile is_digit s;
       dot = (case r1 of [] \<Rightarrow> False | c # _ \<Rightarrow> c = CHR ''.'');
       fp = (if dot then takeWhile is_digit (tl r1) else []);
       r2 = (if dot then dropWhile is_digit (tl r1) else r1) in
     if ip = [] \<and> fp = [] then None
     else (let (e, r3) = scan_exponent r2 in
       Some (of_nat (digits_value 10 (ip @ fp)) * 10 powi (e - int (length fp)), r3)))"

text \<open>\<open>Number(s)\<close>.\<close>

definition to_number :: "string \<Rightarrow> jsnum" where
  "to_number s = (let t = trim s in
     if t = [] then Fin 0
     else if has_hex_prefix t then
       (if drop 2 t \<noteq> [] \<and> list_all (is_digit_in 16) (drop 2 t)
        then to_double False (of_nat (digits_value 16 (drop 2 t))) else NaN)
     else (let (neg, u) = scan_sign t in
       if u = ''Infinity'' then signed_inf neg
       else (case scan_decimal u of
           Some (q, []) \<Rightarrow> to_double neg (if neg then - q else q)
         | _ \<Rightarrow> NaN)))"

text \<open>\<open>parseFloat(s)\<close>.\<close>

definition parse_float :: "string \<Rightarrow> jsnum" where
  "parse_float s = (let (neg, u) = scan_sign (trim_left s) in
     if take 8 u = ''Infinity'' then signed_inf neg
     else (case scan_decimal u of
         Some (q, _) \<Rightarrow> to_double neg (if neg then - q else q)
       | None \<Rightarrow> NaN))"

section \<open>Reading back what was printed\<close>

lemma nat_digits_nonempty [simp]: "nat_digits b n \<noteq> []"
  by (subst nat_digits.simps) simp

lemma nat_digits_chars:
  "2 \<le> b \<Longrightarrow> b \<le> 36 \<Longrightarrow> c \<in> set (nat_digits b n) \<Longrightarrow> \<exists>d < b. c = digit_char d"
proof (induction b n rule: nat_digits.induct)
  case (1 b n)
  show ?case
  proof (cases "n < b")
    case True
    with "1.prems" show ?thesis by (auto simp: nat_digits.simps [of b n])
  next
    case False
    have m: "n mod b < b" using "1.prems" by simp
    have "c \<in> set (nat_digits b (n div b)) \<or> c = digit_char (n mod b)"
      using False "1.prems" by (auto simp: nat_digits.simps [of b n])
    then show ?thesis
    proof
      assume "c \<in> set (nat_digits b (n div b))"
      then show ?thesis using False "1.prems" "1.IH" by auto
    next
      assume "c = digit_char (n mod b)"
      then show ?thesis using m by blast
    qed
  qed
qed

lemma nat_digits_is_digit_in:
  "2 \<le> b \<Longrightarrow> b \<le> 36 \<Longrightarrow> c \<in> set (nat_digits b n) \<Longrightarrow> is_digit_in b c"
  by (auto dest!: nat_digits_chars simp: is_digit_in_def)

lemma nat_digits_is_digit: "c \<in> set (nat_digits 10 n) \<Longrightarrow> is_digit c"
  using nat_digits_chars [of 10 c n] by auto

lemma digits_value_append:
  "digits_value b (s @ [c]) = digits_value b s * b + (case digit_val c of Some d \<Rightarrow> d | None \<Rightarrow> 0)"
  by (simp add: digits_value_def)

lemma digits_value_nat_digits: "2 \<le> b \<Longrightarrow> b \<le> 36 \<Longrightarrow> digits_value b (nat_digits b n) = n"
proof (induction b n rule: nat_digits.induct)
  case (1 b n)
  show ?case
  proof (cases "n < b")
    case True
    with "1.prems" show ?thesis by (simp add: nat_digits.simps [of b n] digits_value_def)
  next
    case False
    have "n mod b < b" using "1.prems" by simp
    then have "n mod b < 36" using "1.prems" by linarith
    with False "1.prems" "1.IH" show ?thesis
      by (simp add: nat_digits.simps [of b n] digits_value_append)
  qed
qed

lemma hd_nat_digits: "2 \<le> b \<Longrightarrow> b \<le> 36 \<Longrightarrow> 0 < n \<Longrightarrow> hd (nat_digits b n) \<noteq> CHR ''0''"
proof (induction b n rule: nat_digits.induct)
  case (1 b n)
  have zero: "CHR ''0'' = digit_char 0"
    using digit_char_code [of 0] by (intro iffD1 [OF code_inject]) (simp add: code_def)
  show ?case
  proof (cases "n < b")
    case True
    then show ?thesis
      using "1.prems" digit_val_char [of n] digit_val_char [of 0]
      by (auto simp: nat_digits.simps [of b n] zero simp del: digit_val_char)
  next
    case False
    then have "0 < n div b" using "1.prems" by (simp add: div_greater_zero_iff)
    with False "1.prems" "1.IH" show ?thesis by (simp add: nat_digits.simps [of b n])
  qed
qed

lemma nat_digits_plain: "c \<in> set (nat_digits 10 n) \<Longrightarrow> \<not> is_ws c \<and> c \<noteq> CHR ''-'' \<and> c \<noteq> CHR ''+''"
  by (drule nat_digits_is_digit) (auto simp: is_digit_not_ws is_digit_def code_def)

lemma nat_digits_scan:
  "dropWhile is_ws (nat_digits 10 n) = nat_digits 10 n"
  "scan_sign (nat_digits 10 n) = (False, nat_digits 10 n)"
  "\<not> has_hex_prefix (nat_digits 10 n)"
proof -
  show "dropWhile is_ws (nat_digits 10 n) = nat_digits 10 n"
    by (rule dropWhile_ws_id) (simp add: nat_digits_plain)
  show "scan_sign (nat_digits 10 n) = (False, nat_digits 10 n)"
    using nat_digits_plain [of _ n] by (auto simp: scan_sign_def split: list.splits)
  show "\<not> has_hex_prefix (nat_digits 10 n)"
  proof
    assume hex: "has_hex_prefix (nat_digits 10 n)"
    have "set (take 2 (nat_digits 10 n)) \<subseteq> set (nat_digits 10 n)" by (rule set_take_subset)
    with hex have "CHR ''x'' \<in> set (nat_digits 10 n) \<or> CHR ''X'' \<in> set (nat_digits 10 n)"
      by (auto simp: has_hex_prefix_def)
    then show False by (auto dest!: nat_digits_is_digit simp: is_digit_def code_def)
  qed
qed

text \<open>Reading a printed integer of at most 53 bits gives the integer back.\<close>

lemma parse_int_nat_digits:
  "n \<le> 2 ^ 53 \<Longrightarrow> parse_int 0 (nat_digits 10 n) = Fin (of_nat n)"
proof -
  assume n: "n \<le> 2 ^ 53"
  have tw: "takeWhile (is_digit_in 10) (nat_digits 10 n) = nat_digits 10 n"
    by (simp add: takeWhile_eq_all_conv nat_digits_is_digit_in)
  have dbl: "to_double False (of_nat n) = Fin (of_nat n)"
    using to_double_of_int [of "int n"] n by simp
  show ?thesis
    by (simp add: parse_int_def trim_left_def nat_digits_scan tw digits_value_nat_digits dbl)
qed

lemma int_to_string_nonneg: "0 \<le> n \<Longrightarrow> int_to_string 10 n = nat_digits 10 (nat n)"
  by (simp add: int_to_string_def)

lemma num_to_string_int:
  "\<bar>n\<bar> \<le> 2 ^ 53 \<Longrightarrow> num_to_string (num_of_int n) = int_to_string 10 n"
  by (simp add: num_to_string_def)

lemma parse_int_num_to_string:
  "0 \<le> n \<Longrightarrow> n \<le> 2 ^ 53 \<Longrightarrow> parse_int 0 (num_to_string (num_of_int n)) = num_of_int n"
  using parse_int_nat_digits [of "nat n"]
  by (simp add: num_to_string_int int_to_string_nonneg nat_le_iff)

lemma scan_decimal_nat_digits: "scan_decimal (nat_digits 10 n) = Some (of_nat n, [])"
proof -
  have "takeWhile is_digit (nat_digits 10 n) = nat_digits 10 n" "dropWhile is_digit (nat_digits 10 n) = []"
    using nat_digits_is_digit by (auto simp: takeWhile_eq_all_conv dropWhile_eq_Nil_conv)
  then show ?thesis
    by (simp only: scan_decimal_def) (simp add: scan_exponent_def digits_value_nat_digits)
qed

lemma not_infinity: "take 8 (nat_digits 10 n) \<noteq> ''Infinity''" "nat_digits 10 n \<noteq> ''Infinity''"
proof -
  have "CHR ''I'' \<notin> set (nat_digits 10 n)"
    by (auto dest!: nat_digits_is_digit simp: is_digit_def code_def)
  then show "take 8 (nat_digits 10 n) \<noteq> ''Infinity''" "nat_digits 10 n \<noteq> ''Infinity''"
    using set_take_subset [of 8 "nat_digits 10 n"] by auto
qed

lemma read_nat_digits:
  assumes "n \<le> 2 ^ 53"
  shows "parse_float (nat_digits 10 n) = Fin (of_nat n)" "to_number (nat_digits 10 n) = Fin (of_nat n)"
proof -
  have dbl: "to_double False (of_nat n) = Fin (of_nat n)"
    using to_double_of_int [of "int n"] assms by simp
  have "trim (nat_digits 10 n) = nat_digits 10 n" by (rule trim_id) (simp add: nat_digits_plain)
  then show "parse_float (nat_digits 10 n) = Fin (of_nat n)" "to_number (nat_digits 10 n) = Fin (of_nat n)"
    by (simp_all add: parse_float_def to_number_def trim_left_def nat_digits_scan scan_decimal_nat_digits
        not_infinity dbl)
qed

end
