(* ===== verification/JS_Value.thy ===== *)
theory JS_Value
  imports JS_String
begin

text \<open>
  JavaScript values as trees: the primitives, arrays, plain objects and functions. An object is
  the list of its own properties in the order the language enumerates them: array indices
  ascending, then the other keys in the order they were added. A function is known by its name.
  The interface of an object as a keyed store is the locale \<open>key_store\<close>, which the operations
  on property lists interpret.
\<close>

section \<open>Values\<close>

datatype jsval =
    Undefined
  | Null
  | Boolean bool
  | Num jsnum
  | Str string
  | Arr "jsval list"
  | Obj "(string \<times> jsval) list"
  | Func string

type_synonym props = "(string \<times> jsval) list"

abbreviation int_val :: "int \<Rightarrow> jsval" where
  "int_val n \<equiv> Num (num_of_int n)"

section \<open>Property lists\<close>

text \<open>An array index is the decimal numeral of a number below \<open>2 ^ 32 - 1\<close>.\<close>

definition is_array_index :: "string \<Rightarrow> bool" where
  "is_array_index k \<longleftrightarrow> k \<noteq> [] \<and> list_all is_digit k \<and> (k = ''0'' \<or> hd k \<noteq> CHR ''0'') \<and>
     digits_value 10 k < 2 ^ 32 - 1"

text \<open>A new key goes in front of \<open>k'\<close> when it is an index and \<open>k'\<close> is not a smaller one.\<close>

definition key_before :: "string \<Rightarrow> string \<Rightarrow> bool" where
  "key_before k k' \<longleftrightarrow> is_array_index k \<and>
     (\<not> is_array_index k' \<or> digits_value 10 k < digits_value 10 k')"

fun put_prop :: "string \<Rightarrow> 'v \<Rightarrow> (string \<times> 'v) list \<Rightarrow> (string \<times> 'v) list" where
  "put_prop k v [] = [(k, v)]"
| "put_prop k v ((k', v') # ps) =
     (if k = k' then (k, v) # ps
      else if key_before k k' then (k, v) # (k', v') # ps
      else (k', v') # put_prop k v ps)"

definition keys_of :: "(string \<times> 'v) list \<Rightarrow> string list" where
  "keys_of ps = map fst ps"

text \<open>The keys of an object are pairwise distinct and stand in enumeration order.\<close>

definition ordered_keys :: "string list \<Rightarrow> bool" where
  "ordered_keys ks \<longleftrightarrow> sorted_wrt (\<lambda>k k'. k \<noteq> k' \<and> \<not> key_before k' k) ks"

lemma key_before_irrefl [simp]: "\<not> key_before k k"
  by (simp add: key_before_def)

lemma key_before_trans: "key_before a b \<Longrightarrow> key_before b c \<Longrightarrow> key_before a c"
  by (auto simp: key_before_def)

text \<open>Two different indices have different values, so one goes before the other.\<close>

lemma digits_value_single: "digits_value b [c] = (case digit_val c of Some d \<Rightarrow> d | None \<Rightarrow> 0)"
  by (simp add: digits_value_def)

lemma is_digit_digit_val: "is_digit c \<Longrightarrow> digit_val c = Some (code c - 48) \<and> code c - 48 < 10"
  by (auto simp: is_digit_def digit_val_def)

lemma digit_char_of_digit: "is_digit c \<Longrightarrow> digit_char (code c - 48) = c"
proof -
  assume "is_digit c"
  then have c: "48 \<le> code c" "code c \<le> 57" by (simp_all add: is_digit_def)
  then have "code (digit_char (code c - 48)) = 48 + (code c - 48)" by (simp add: digit_char_code)
  also have "\<dots> = code c" using c by simp
  finally show ?thesis by (simp only: code_inject)
qed

lemma nat_digits_digits_value:
  "s \<noteq> [] \<Longrightarrow> list_all is_digit s \<Longrightarrow> s = ''0'' \<or> hd s \<noteq> CHR ''0'' \<Longrightarrow>
   nat_digits 10 (digits_value 10 s) = s"
proof (induction s rule: rev_induct)
  case (snoc c s)
  define d where "d = code c - 48"
  have d: "digit_val c = Some d" "d < 10" "digit_char d = c"
    using snoc.prems is_digit_digit_val digit_char_of_digit by (auto simp: d_def)
  show ?case
  proof (cases "s = []")
    case True
    then show ?thesis
      using d by (simp add: digits_value_single nat_digits.simps [of 10 d])
  next
    case False
    then have s: "nat_digits 10 (digits_value 10 s) = s" and hd: "hd s \<noteq> CHR ''0''"
      using snoc by (auto simp: append_eq_Cons_conv)
    have "0 < digits_value 10 s"
    proof (rule ccontr)
      assume "\<not> 0 < digits_value 10 s"
      then have "s = nat_digits 10 0" using s by simp
      moreover have "nat_digits 10 0 = [digit_char 0]" by (simp add: nat_digits.simps)
      moreover have "digit_char 0 = CHR ''0''"
        using digit_char_code [of 0] by (intro iffD1 [OF code_inject]) (simp add: code_def)
      ultimately show False using hd by simp
    qed
    then show ?thesis
      using d s by (simp add: digits_value_append nat_digits.simps [of 10 "digits_value 10 s * 10 + d"])
  qed
qed simp

lemma array_index_value_inject:
  "is_array_index k \<Longrightarrow> is_array_index k' \<Longrightarrow> digits_value 10 k = digits_value 10 k' \<Longrightarrow> k = k'"
  unfolding is_array_index_def by (metis nat_digits_digits_value)

lemma key_before_asym: "key_before a b \<Longrightarrow> \<not> key_before b a"
  by (auto simp: key_before_def)

lemma not_key_before_trans:
  "\<not> key_before b a \<Longrightarrow> key_before b c \<Longrightarrow> \<not> key_before c a"
  by (auto simp: key_before_def)

lemma set_keys_put_prop: "set (keys_of (put_prop k v ps)) = insert k (set (keys_of ps))"
  by (induction k v ps rule: put_prop.induct) (simp_all add: keys_of_def insert_commute)

lemma map_of_put_prop: "map_of (put_prop k v ps) = (map_of ps)(k \<mapsto> v)"
  by (induction k v ps rule: put_prop.induct) (auto simp: fun_eq_iff)

lemma ordered_keys_put_prop:
  "ordered_keys (keys_of ps) \<Longrightarrow> ordered_keys (keys_of (put_prop k v ps))"
proof (induction ps)
  case Nil
  then show ?case by (simp add: ordered_keys_def keys_of_def)
next
  case (Cons p ps)
  obtain k' v' where p: "p = (k', v')" by (cases p)
  have tail: "ordered_keys (keys_of ps)"
    and head: "\<And>x. x \<in> set (keys_of ps) \<Longrightarrow> k' \<noteq> x \<and> \<not> key_before x k'"
    using Cons.prems by (auto simp: ordered_keys_def keys_of_def p)
  consider "k = k'" | "k \<noteq> k'" "key_before k k'" | "k \<noteq> k'" "\<not> key_before k k'" by blast
  then show ?case
  proof cases
    case 1
    then show ?thesis using Cons.prems by (simp add: p keys_of_def)
  next
    case 2
    have "k \<noteq> x \<and> \<not> key_before x k" if "x \<in> set (keys_of ps)" for x
    proof -
      have "\<not> key_before x k'" using head that by blast
      then show ?thesis using 2(2) key_before_trans [of x k k'] by blast
    qed
    then show ?thesis
      using 2 Cons.prems key_before_asym [OF 2(2)]
      by (simp add: p keys_of_def ordered_keys_def)
  next
    case 3
    have "ordered_keys (keys_of (put_prop k v ps))" using Cons.IH tail by blast
    moreover have "k' \<noteq> x \<and> \<not> key_before x k'" if "x \<in> set (keys_of (put_prop k v ps))" for x
      using that head 3 by (auto simp: set_keys_put_prop)
    ultimately show ?thesis using 3 by (simp add: p keys_of_def ordered_keys_def)
  qed
qed

lemma ordered_keys_distinct: "ordered_keys ks \<Longrightarrow> distinct ks"
  by (induction ks) (auto simp: ordered_keys_def)

lemma ordered_keys_Nil [simp]: "ordered_keys []"
  by (simp add: ordered_keys_def)

section \<open>The interface of a keyed store\<close>

text \<open>
  What a client of an object relies on: reading after writing, the keys present, and an
  invariant that writing keeps.
\<close>

locale key_store =
  fixes emp :: "'s"
    and put :: "'k \<Rightarrow> 'v \<Rightarrow> 's \<Rightarrow> 's"
    and look :: "'s \<Rightarrow> 'k \<Rightarrow> 'v option"
    and keys :: "'s \<Rightarrow> 'k list"
    and inv :: "'s \<Rightarrow> bool"
  assumes look_emp: "look emp k = None"
    and look_put: "look (put k v s) = (look s)(k \<mapsto> v)"
    and keys_look: "k \<in> set (keys s) \<longleftrightarrow> look s k \<noteq> None"
    and inv_emp: "inv emp"
    and inv_put: "inv s \<Longrightarrow> inv (put k v s)"
    and inv_keys: "inv s \<Longrightarrow> distinct (keys s)"
begin

text \<open>Adding an element to the group stored under its key, for each element in turn.\<close>

definition group_step :: "('e \<Rightarrow> 'k) \<Rightarrow> ('e list \<Rightarrow> 'v) \<Rightarrow> ('v \<Rightarrow> 'e list) \<Rightarrow> 's \<Rightarrow> 'e \<Rightarrow> 's" where
  "group_step key con des s e =
     put (key e) (con ((case look s (key e) of None \<Rightarrow> [] | Some v \<Rightarrow> des v) @ [e])) s"

lemma group_look:
  assumes "\<And>es. des (con es) = es"
  shows "look (foldl (group_step key con des) emp es) k =
    (if \<exists>e \<in> set es. key e = k then Some (con (filter (\<lambda>e. key e = k) es)) else None)"
proof (induction es rule: rev_induct)
  case Nil
  then show ?case by (simp add: look_emp)
next
  case (snoc e es)
  have "look (foldl (group_step key con des) emp (es @ [e])) k =
    (if key e = k
     then Some (con ((case look (foldl (group_step key con des) emp es) k of
                        None \<Rightarrow> [] | Some v \<Rightarrow> des v) @ [e]))
     else look (foldl (group_step key con des) emp es) k)"
    by (simp add: group_step_def look_put)
  moreover have "filter (\<lambda>e. key e = k) es = []" if "\<not> (\<exists>e \<in> set es. key e = k)"
    using that by (simp add: filter_empty_conv)
  ultimately show ?case
    using assms by (auto simp: snoc.IH)
qed

lemma group_inv: "inv (foldl (group_step key con des) emp es)"
  by (induction es rule: rev_induct) (auto simp: inv_emp inv_put group_step_def)

lemma group_keys:
  assumes "\<And>es. des (con es) = es"
  shows "set (keys (foldl (group_step key con des) emp es)) = key ` set es"
    and "distinct (keys (foldl (group_step key con des) emp es))"
proof -
  show "set (keys (foldl (group_step key con des) emp es)) = key ` set es"
    using group_look [OF assms, where es = es and key = key]
    by (auto simp: keys_look set_eq_iff image_iff split: if_splits)
  show "distinct (keys (foldl (group_step key con des) emp es))"
    by (rule inv_keys) (rule group_inv)
qed

end

text \<open>Objects provide it.\<close>

interpretation obj_store: key_store "[]" put_prop map_of keys_of "\<lambda>ps. ordered_keys (keys_of ps)"
proof unfold_locales
  fix k :: string and v :: 'a and s :: "(string \<times> 'a) list"
  show "map_of [] k = (None :: 'a option)" by simp
  show "map_of (put_prop k v s) = (map_of s)(k \<mapsto> v)" by (rule map_of_put_prop)
  show "k \<in> set (keys_of s) \<longleftrightarrow> map_of s k \<noteq> None"
    by (metis (no_types) keys_of_def map_of_eq_None_iff list.set_map)
  show "ordered_keys (keys_of ([] :: (string \<times> 'a) list))" by (simp add: keys_of_def)
  show "ordered_keys (keys_of s) \<Longrightarrow> ordered_keys (keys_of (put_prop k v s))"
    by (rule ordered_keys_put_prop)
  show "ordered_keys (keys_of s) \<Longrightarrow> distinct (keys_of s)" by (rule ordered_keys_distinct)
qed

section \<open>Reading properties\<close>

definition get_own :: "props \<Rightarrow> string \<Rightarrow> jsval" where
  "get_own ps k = (case map_of ps k of None \<Rightarrow> Undefined | Some v \<Rightarrow> v)"

text \<open>\<open>v.k\<close>; reading a property of \<open>undefined\<close> or \<open>null\<close> throws.\<close>

definition get_prop :: "jsval \<Rightarrow> string \<Rightarrow> jsval res" where
  "get_prop v k = (case v of
     Undefined \<Rightarrow> Inl TypeError
   | Null \<Rightarrow> Inl TypeError
   | Obj ps \<Rightarrow> Inr (get_own ps k)
   | Arr vs \<Rightarrow>
       if k = ''length'' then Inr (Num (Fin (of_nat (length vs))))
       else if is_array_index k then
         Inr (case list_at vs (digits_value 10 k) of None \<Rightarrow> Undefined | Some x \<Rightarrow> x)
       else Inr Undefined
   | Str s \<Rightarrow>
       if k = ''length'' then Inr (Num (Fin (of_nat (length s)))) else Inr Undefined
   | _ \<Rightarrow> Inr Undefined)"

text \<open>Reading where an object or a missing value is expected: \<open>undefined\<close> on anything else.\<close>

definition get_or_undef :: "jsval \<Rightarrow> string \<Rightarrow> jsval" where
  "get_or_undef v k = (case v of Obj ps \<Rightarrow> get_own ps k | _ \<Rightarrow> Undefined)"

lemma get_prop_Obj [simp]: "get_prop (Obj ps) k = Inr (get_own ps k)"
  by (simp add: get_prop_def)

lemma get_own_put_prop: "get_own (put_prop k v ps) k' = (if k' = k then v else get_own ps k')"
  by (simp add: get_own_def map_of_put_prop)

lemma get_own_simps [simp]:
  "get_own [] k = Undefined"
  "get_own ((k', v) # ps) k = (if k = k' then v else get_own ps k)"
  by (simp_all add: get_own_def)

section \<open>Conversions\<close>

text \<open>\<open>ToString\<close>, \<open>ToNumber\<close>, \<open>ToBoolean\<close>.\<close>

fun to_str :: "jsval \<Rightarrow> string" where
  "to_str Undefined = ''undefined''"
| "to_str Null = ''null''"
| "to_str (Boolean b) = (if b then ''true'' else ''false'')"
| "to_str (Num x) = num_to_string x"
| "to_str (Str s) = s"
| "to_str (Arr vs) =
     join '','' (map (\<lambda>v. if v = Undefined \<or> v = Null then '''' else to_str v) vs)"
| "to_str (Obj ps) = ''[object Object]''"
| "to_str (Func f) = f"

definition to_num :: "jsval \<Rightarrow> jsnum" where
  "to_num v = (case v of
     Undefined \<Rightarrow> NaN | Null \<Rightarrow> Fin 0 | Boolean b \<Rightarrow> (if b then Fin 1 else Fin 0)
   | Num x \<Rightarrow> x | Str s \<Rightarrow> to_number s | _ \<Rightarrow> to_number (to_str v))"

definition truthy :: "jsval \<Rightarrow> bool" where
  "truthy v = (case v of
     Undefined \<Rightarrow> False | Null \<Rightarrow> False | Boolean b \<Rightarrow> b
   | Num x \<Rightarrow> x \<noteq> NaN \<and> x \<noteq> NZero \<and> x \<noteq> Fin 0 | Str s \<Rightarrow> s \<noteq> [] | _ \<Rightarrow> True)"

definition is_nullish :: "jsval \<Rightarrow> bool" where
  "is_nullish v \<longleftrightarrow> v = Undefined \<or> v = Null"

definition is_object :: "jsval \<Rightarrow> bool" where
  "is_object v = (case v of Arr _ \<Rightarrow> True | Obj _ \<Rightarrow> True | Func _ \<Rightarrow> True | _ \<Rightarrow> False)"

text \<open>
  \<open>==\<close>. Two objects are equal only when they are the same object; the trees carry no identity,
  and the program never compares two of them.
\<close>

definition loose_eq :: "jsval \<Rightarrow> jsval \<Rightarrow> bool" where
  "loose_eq v w =
     (if is_nullish v \<or> is_nullish w then is_nullish v \<and> is_nullish w
      else if is_object v \<and> is_object w then False
      else (case (v, w) of
          (Str s, Str t) \<Rightarrow> s = t
        | (Str s, _) \<Rightarrow> if is_object w then s = to_str w else num_eq (to_number s) (to_num w)
        | (_, Str t) \<Rightarrow> if is_object v then to_str v = t else num_eq (to_num v) (to_number t)
        | _ \<Rightarrow> num_eq (to_num v) (to_num w)))"

lemma loose_eq_Str [simp]: "loose_eq (Str s) (Str t) \<longleftrightarrow> s = t"
  by (simp add: loose_eq_def is_nullish_def is_object_def)

lemma loose_eq_Undefined [simp]:
  "loose_eq v Undefined \<longleftrightarrow> v = Undefined \<or> v = Null"
  "loose_eq Undefined v \<longleftrightarrow> v = Undefined \<or> v = Null"
  by (auto simp: loose_eq_def is_nullish_def)

section \<open>Well-formed values\<close>

text \<open>Every number is a double and every object has its keys distinct and in order.\<close>

fun wf_val :: "jsval \<Rightarrow> bool" where
  "wf_val (Num x) = is_double x"
| "wf_val (Arr vs) = list_all wf_val vs"
| "wf_val (Obj ps) = (ordered_keys (map fst ps) \<and> list_all (\<lambda>p. wf_val (snd p)) ps)"
| "wf_val _ = True"

end
