(* ===== verification/JQuery_Extend.thy ===== *)
theory JQuery_Extend
  imports JS_Value
begin

text \<open>
  \<open>$.extend(true, target, options)\<close> of jQuery 1.11.0, the deep merge every theme of the
  dashboard is built with, on values without sharing: each copied object or array is merged into
  a plain object or array of the target, or into a fresh one. The locale \<open>layering\<close> states what
  the themes rely on.
\<close>

section \<open>The merge\<close>

text \<open>The properties or elements of the target a copied value is merged into.\<close>

definition props_or_empty :: "jsval \<Rightarrow> props" where
  "props_or_empty v = (case v of Obj ps \<Rightarrow> ps | _ \<Rightarrow> [])"

definition elems_or_empty :: "jsval \<Rightarrow> jsval list" where
  "elems_or_empty v = (case v of Arr vs \<Rightarrow> vs | _ \<Rightarrow> [])"

text \<open>
  \<open>extend_value src copy\<close> is what is stored for a key whose value in the target is \<open>src\<close> and in
  the options \<open>copy\<close>; an \<open>undefined\<close> is not copied. An element past the end of the target array
  leaves holes before it.
\<close>

fun extend_value :: "jsval \<Rightarrow> jsval \<Rightarrow> jsval"
  and extend_props :: "props \<Rightarrow> props \<Rightarrow> props"
  and extend_elems :: "jsval list \<Rightarrow> jsval list \<Rightarrow> jsval list" where
  "extend_value src (Obj options) = Obj (extend_props (props_or_empty src) options)"
| "extend_value src (Arr options) = Arr (extend_elems (elems_or_empty src) options)"
| "extend_value src copy = copy"
| "extend_props target [] = target"
| "extend_props target ((name, copy) # options) =
     extend_props (if copy = Undefined then target
       else put_prop name (extend_value (get_own target name) copy) target) options"
| "extend_elems target [] = target"
| "extend_elems [] (copy # options) =
     (let rest = extend_elems [] options in
      if copy = Undefined then (if rest = [] then [] else Undefined # rest)
      else extend_value Undefined copy # rest)"
| "extend_elems (src # target) (copy # options) =
     (if copy = Undefined then src else extend_value src copy) # extend_elems target options"

text \<open>The call itself: options that are \<open>null\<close> or \<open>undefined\<close> are skipped.\<close>

definition extend_deep :: "props \<Rightarrow> jsval \<Rightarrow> props" where
  "extend_deep target options = (case options of Obj ps \<Rightarrow> extend_props target ps | _ \<Rightarrow> target)"

section \<open>Facts\<close>

lemma extend_props_append: "extend_props t (os @ os') = extend_props (extend_props t os) os'"
  by (induction os arbitrary: t) auto

lemma ordered_extend_props:
  "ordered_keys (keys_of t) \<Longrightarrow> ordered_keys (keys_of (extend_props t os))"
proof (induction os arbitrary: t)
  case (Cons p os)
  then show ?case by (cases p) (simp add: ordered_keys_put_prop)
qed simp

text \<open>The value of a key after the merge.\<close>

lemma extend_props_notin: "k \<notin> fst ` set os \<Longrightarrow> map_of (extend_props t os) k = map_of t k"
proof (induction os arbitrary: t)
  case (Cons p os)
  then show ?case by (cases p) (auto simp: map_of_put_prop)
qed simp

lemma map_of_extend_props:
  "distinct (map fst os) \<Longrightarrow> map_of (extend_props t os) k =
    (case map_of os k of None \<Rightarrow> map_of t k
     | Some copy \<Rightarrow> if copy = Undefined then map_of t k else Some (extend_value (get_own t k) copy))"
proof (induction os arbitrary: t)
  case (Cons p os)
  obtain name copy where p: "p = (name, copy)" by (cases p)
  define t' where "t' = (if copy = Undefined then t
       else put_prop name (extend_value (get_own t name) copy) t)"
  have unfold: "extend_props t (p # os) = extend_props t' os" by (simp add: p t'_def)
  have IH: "map_of (extend_props t' os) k =
    (case map_of os k of None \<Rightarrow> map_of t' k
     | Some copy \<Rightarrow> if copy = Undefined then map_of t' k else Some (extend_value (get_own t' k) copy))"
    using Cons by (simp add: p)
  show ?case
  proof (cases "k = name")
    case True
    then have "map_of os k = None" using Cons.prems by (simp add: p map_of_eq_None_iff)
    then show ?thesis using True IH unfolding unfold by (simp add: p t'_def map_of_put_prop)
  next
    case False
    then have "map_of t' k = map_of t k" and "get_own t' k = get_own t k"
      by (simp_all add: t'_def map_of_put_prop get_own_def)
    then show ?thesis using False IH unfolding unfold by (simp add: p split: option.splits)
  qed
qed simp

lemma get_own_extend_props:
  "distinct (map fst os) \<Longrightarrow> get_own (extend_props t os) k =
    (let copy = get_own os k in
     if copy = Undefined then get_own t k else extend_value (get_own t k) copy)"
  by (auto simp: get_own_def map_of_extend_props Let_def split: option.splits)

text \<open>Putting back the value that is there changes nothing.\<close>

lemma put_prop_same:
  "ordered_keys (keys_of ps) \<Longrightarrow> map_of ps k = Some v \<Longrightarrow> put_prop k v ps = ps"
proof (induction ps)
  case (Cons p ps)
  obtain k' v' where p: "p = (k', v')" by (cases p)
  show ?case
  proof (cases "k = k'")
    case False
    then have m: "map_of ps k = Some v" using Cons.prems by (simp add: p)
    then have "k \<in> set (keys_of ps)"
      by (metis keys_of_def domI dom_map_of_conv_image_fst list.set_map)
    then have "\<not> key_before k k'" using Cons.prems by (auto simp: ordered_keys_def keys_of_def p)
    moreover have "put_prop k v ps = ps"
      using Cons m by (auto simp: ordered_keys_def keys_of_def p)
    ultimately show ?thesis using False by (simp add: p)
  qed (use Cons.prems in \<open>simp add: p\<close>)
qed simp

text \<open>Options that the target already covers leave it as it is.\<close>

lemma extend_props_absorb:
  assumes "ordered_keys (keys_of t)"
    and "\<And>k copy. (k, copy) \<in> set os \<Longrightarrow> copy \<noteq> Undefined \<Longrightarrow>
      \<exists>v. map_of t k = Some v \<and> extend_value v copy = v"
  shows "extend_props t os = t"
  using assms
proof (induction os)
  case (Cons p os)
  obtain k copy where p: "p = (k, copy)" by (cases p)
  have IH: "extend_props t os = t" using Cons.prems by (intro Cons.IH) auto
  show ?case
  proof (cases "copy = Undefined")
    case False
    then obtain v where v: "map_of t k = Some v" "extend_value v copy = v"
      using Cons.prems(2) [of k copy] by (auto simp: p)
    then have "put_prop k (extend_value (get_own t k) copy) t = t"
      using Cons.prems(1) by (simp add: get_own_def put_prop_same)
    then show ?thesis using False IH by (simp add: p)
  qed (simp add: p IH)
qed simp

text \<open>
  Merging the same options twice is merging them once. The values must have their keys distinct
  and in order, in the target too.
\<close>

lemma wf_get_own: "wf_val (Obj ps) \<Longrightarrow> wf_val (get_own ps k)"
  by (auto simp: get_own_def list_all_iff dest!: map_of_SomeD split: option.splits)

lemma wf_put_prop: "wf_val (Obj ps) \<Longrightarrow> wf_val v \<Longrightarrow> wf_val (Obj (put_prop k v ps))"
proof -
  assume ps: "wf_val (Obj ps)" and v: "wf_val v"
  have "list_all (\<lambda>p. wf_val (snd p)) (put_prop k v qs)"
    if "list_all (\<lambda>p. wf_val (snd p)) qs" for qs
    using that v by (induction k v qs rule: put_prop.induct) auto
  then show ?thesis
    using ps ordered_keys_put_prop [of ps k v] by (simp add: keys_of_def)
qed

lemma wf_extend:
  "wf_val src \<Longrightarrow> wf_val copy \<Longrightarrow> wf_val (extend_value src copy)"
  "wf_val (Obj t) \<Longrightarrow> list_all (\<lambda>p. wf_val (snd p)) os \<Longrightarrow> wf_val (Obj (extend_props t os))"
  "list_all wf_val ts \<Longrightarrow> list_all wf_val vs \<Longrightarrow> list_all wf_val (extend_elems ts vs)"
proof (induction src copy and t os and ts vs rule: extend_value_extend_props_extend_elems.induct)
  case (1 src options)
  then show ?case by (cases src) (auto simp: props_or_empty_def)
next
  case (2 src options)
  then show ?case by (cases src) (auto simp: elems_or_empty_def)
next
  case (5 target name copy options)
  have "wf_val (Obj (if copy = Undefined then target
       else put_prop name (extend_value (get_own target name) copy) target))"
    using 5(1) 5(3,4) wf_get_own [OF 5(3)] by (simp add: wf_put_prop del: wf_val.simps)
  then show ?case using 5(2) 5(4) by simp
qed (auto simp: Let_def)

lemma extend_elems_idem:
  assumes "\<And>v s. v \<in> set vs \<Longrightarrow> wf_val s \<Longrightarrow> extend_value (extend_value s v) v = extend_value s v"
    and "list_all wf_val ts"
  shows "extend_elems (extend_elems ts vs) vs = extend_elems ts vs"
  using assms
proof (induction vs arbitrary: ts)
  case (Cons v vs)
  have idem: "extend_value (extend_value s v) v = extend_value s v" if "wf_val s" for s
    using Cons.prems(1) [of v s] that by simp
  have IH: "extend_elems (extend_elems us vs) vs = extend_elems us vs" if "list_all wf_val us" for us
    using that by (intro Cons.IH Cons.prems(1)) auto
  show ?case
  proof (cases ts)
    case Nil
    then show ?thesis using idem [of Undefined] IH [of "[]"] by (auto simp: Let_def)
  next
    case (Cons s us)
    then show ?thesis using idem [of s] IH [of us] Cons.prems(2) by simp
  qed
qed simp

lemma extend_value_idem:
  "wf_val src \<Longrightarrow> wf_val copy \<Longrightarrow> extend_value (extend_value src copy) copy = extend_value src copy"
proof (induction copy arbitrary: src)
  case (Arr vs)
  have "wf_val (Arr (elems_or_empty src))" using Arr.prems(1) by (cases src) (auto simp: elems_or_empty_def)
  then have "extend_elems (extend_elems (elems_or_empty src) vs) vs = extend_elems (elems_or_empty src) vs"
    using Arr by (intro extend_elems_idem) (auto simp: list_all_iff)
  then show ?case by (simp add: elems_or_empty_def)
next
  case (Obj os)
  define t where "t = props_or_empty src"
  have t: "wf_val (Obj t)" using Obj.prems(1) by (cases src) (auto simp: t_def props_or_empty_def)
  have d: "distinct (map fst os)" using Obj.prems(2) by (simp add: ordered_keys_distinct)
  have "extend_props (extend_props t os) os = extend_props t os"
  proof (rule extend_props_absorb)
    show "ordered_keys (keys_of (extend_props t os))"
      using t by (intro ordered_extend_props) (simp add: keys_of_def)
    fix k copy
    assume k: "(k, copy) \<in> set os" and ne: "copy \<noteq> Undefined"
    have "map_of os k = Some copy" using k d by (simp add: map_of_is_SomeI)
    then have m: "map_of (extend_props t os) k = Some (extend_value (get_own t k) copy)"
      using ne d by (simp add: map_of_extend_props)
    have "wf_val copy" using Obj.prems(2) k by (auto simp: list_all_iff)
    then have "extend_value (extend_value (get_own t k) copy) copy = extend_value (get_own t k) copy"
      using k t wf_get_own by (intro Obj.IH [of "(k, copy)"]) auto
    with m show "\<exists>v. map_of (extend_props t os) k = Some v \<and> extend_value v copy = v" by blast
  qed
  then show ?case by (simp add: t_def props_or_empty_def)
qed auto

lemma extend_props_idem:
  "wf_val (Obj t) \<Longrightarrow> wf_val (Obj os) \<Longrightarrow> extend_props (extend_props t os) os = extend_props t os"
  using extend_value_idem [of "Obj t" "Obj os"] by (simp add: props_or_empty_def)

section \<open>Layers\<close>

text \<open>
  What a stack of option layers relies on: laying the same options twice is laying them once, and
  a key the options leave out keeps its value.
\<close>

locale layering =
  fixes layer :: "'t \<Rightarrow> 'o \<Rightarrow> 't" and emp :: 't
    and look :: "'t \<Rightarrow> 'k \<Rightarrow> 'v" and mentions :: "'o \<Rightarrow> 'k \<Rightarrow> bool"
    and wf_t :: "'t \<Rightarrow> bool" and wf_o :: "'o \<Rightarrow> bool"
  assumes idem: "wf_t t \<Longrightarrow> wf_o o1 \<Longrightarrow> layer (layer t o1) o1 = layer t o1"
    and keeps: "wf_o o1 \<Longrightarrow> \<not> mentions o1 k \<Longrightarrow> look (layer t o1) k = look t k"
    and wf_emp: "wf_t emp"
    and wf_layer: "wf_t t \<Longrightarrow> wf_o o1 \<Longrightarrow> wf_t (layer t o1)"
begin

text \<open>A clone made in two passes is the clone made in one.\<close>

lemma clone_twice: "wf_o base \<Longrightarrow> layer (layer emp base) base = layer emp base"
  by (rule idem [OF wf_emp])

text \<open>A derived stack keeps every key of its base that it does not mention.\<close>

lemma derived_keeps:
  "wf_o base \<Longrightarrow> wf_o child \<Longrightarrow> \<not> mentions child k \<Longrightarrow>
   look (layer (layer (layer emp base) base) child) k = look (layer emp base) k"
  by (simp add: keeps clone_twice)

lemma derived_wf: "wf_o base \<Longrightarrow> wf_o child \<Longrightarrow> wf_t (layer (layer emp base) child)"
  by (intro wf_layer wf_emp)

end

interpretation options: layering extend_props "[]" get_own "\<lambda>os k. k \<in> fst ` set os"
    "\<lambda>t. wf_val (Obj t)" "\<lambda>os. wf_val (Obj os)"
proof unfold_locales
  fix t os :: props and k :: string
  show "wf_val (Obj t) \<Longrightarrow> wf_val (Obj os) \<Longrightarrow> extend_props (extend_props t os) os = extend_props t os"
    by (rule extend_props_idem)
  show "wf_val (Obj os) \<Longrightarrow> k \<notin> fst ` set os \<Longrightarrow> get_own (extend_props t os) k = get_own t k"
    by (simp add: get_own_def extend_props_notin)
  show "wf_val (Obj ([] :: props))" by simp
  show "wf_val (Obj t) \<Longrightarrow> wf_val (Obj os) \<Longrightarrow> wf_val (Obj (extend_props t os))"
    by (rule wf_extend) simp_all
qed

section \<open>Properties\<close>

text \<open>
  After the deep merge a key of the options that is not \<open>undefined\<close> holds the option merged
  into what the target had there, and every other key is as it was.
\<close>

theorem extend_lookup:
  assumes "distinct (map fst options)"
  shows "get_own (extend_deep target (Obj options)) k =
    (if get_own options k = Undefined then get_own target k
     else extend_value (get_own target k) (get_own options k))"
  using get_own_extend_props [OF assms] by (simp add: extend_deep_def Let_def)

theorem extend_lookup_witness:
  "get_own (extend_deep [(''a'', Obj [(''x'', Null)]), (''b'', Null)] (Obj [(''a'', Obj [(''y'', Boolean True)])])) ''a'' =
   Obj [(''x'', Null), (''y'', Boolean True)]"
  using extend_lookup [of "[(''a'', Obj [(''y'', Boolean True)])]"]
  by (simp add: props_or_empty_def key_before_def is_array_index_def is_digit_def code_def)

text \<open>
  Merging the same options a second time changes nothing, at any depth; the second
  \<open>$.extend(true, clone, this)\<close> of a theme's \<open>extend\<close> has no effect.
\<close>

theorem extend_twice:
  assumes "wf_val (Obj target)" and "wf_val (Obj options)"
  shows "extend_deep (extend_deep target (Obj options)) (Obj options) = extend_deep target (Obj options)"
  using extend_props_idem [OF assms] by (simp add: extend_deep_def)

theorem extend_twice_witness:
  "extend_deep (extend_deep [] (Obj [(''a'', Arr [Null])])) (Obj [(''a'', Arr [Null])]) = [(''a'', Arr [Null])]"
  using extend_twice [of "[]" "[(''a'', Arr [Null])]"]
  by (simp add: extend_deep_def ordered_keys_def elems_or_empty_def Let_def)

end
