(* ===== verification/JS_Math.thy ===== *)
theory JS_Math
  imports JS_Number
begin

text \<open>
  The functions of \<open>Math\<close> that the drawing modules use, \<open>x || 0\<close> on numbers, and the fact that
  arithmetic on whole numbers below 2 to the 53 is exact.
\<close>

section \<open>Functions\<close>

text \<open>\<open>Math.round\<close>: to the nearest whole number, halves upwards, keeping the sign of a zero.\<close>

definition math_round :: "jsnum \<Rightarrow> jsnum" where
  "math_round x = (case x of
     Fin q \<Rightarrow> if \<lfloor>q + 1 / 2\<rfloor> = 0 \<and> q < 0 then NZero else Fin (of_int \<lfloor>q + 1 / 2\<rfloor>)
   | _ \<Rightarrow> x)"

definition or_zero :: "jsnum \<Rightarrow> jsnum" where
  "or_zero x = (if x = NaN \<or> x = NZero then Fin 0 else x)"

text \<open>\<open>x || 1\<close>.\<close>

definition or_one :: "jsnum \<Rightarrow> jsnum" where
  "or_one x = (if x = NaN \<or> x = NZero \<or> x = Fin 0 then Fin 1 else x)"

section \<open>Whole numbers\<close>

lemma js_add_int [simp, js_eval]:
  "\<bar>a + b\<bar> \<le> 2 ^ 53 \<Longrightarrow> js_add (num_of_int a) (num_of_int b) = num_of_int (a + b)"
  using to_double_of_int [of "a + b"] by (simp add: js_add_def)

lemma js_sub_int [simp, js_eval]:
  "\<bar>a - b\<bar> \<le> 2 ^ 53 \<Longrightarrow> js_sub (num_of_int a) (num_of_int b) = num_of_int (a - b)"
  using to_double_of_int [of "a - b"] by (auto simp: js_sub_def js_add_def js_neg_def)

lemma math_round_int [simp, js_eval]: "math_round (num_of_int n) = num_of_int n"
proof -
  have "\<lfloor>of_int n + 1 / 2 :: rat\<rfloor> = n" by (simp add: floor_unique)
  then show ?thesis by (auto simp: math_round_def)
qed

lemma or_zero_int [simp, js_eval]: "or_zero (num_of_int n) = num_of_int n"
  by (simp add: or_zero_def)

lemma num_lt_int [simp, js_eval]: "num_lt (num_of_int a) (num_of_int b) \<longleftrightarrow> a < b"
  by (simp add: num_lt_def)

lemma num_lt_zero_int [simp, js_eval]: "num_lt (Fin 0) (num_of_int b) \<longleftrightarrow> 0 < b"
  using num_lt_int [of 0 b] by simp

section \<open>Finite results\<close>

text \<open>Numbers whose differences do not overflow.\<close>

definition moderate :: "jsnum \<Rightarrow> bool" where
  "moderate x \<longleftrightarrow> is_finite x \<and> \<bar>rat_of x\<bar> \<le> 2 ^ 1000"

lemma rounded_abs_le:
  assumes "\<bar>q\<bar> \<le> 2 ^ k"
  shows "\<bar>rounded q\<bar> \<le> 2 ^ k"
proof -
  have r: "rounded (2 ^ k) = 2 ^ k" using rounded_exact [of 1 "int k"] by simp
  have "rounded (- (2 ^ k)) \<le> rounded q" "rounded q \<le> rounded (2 ^ k)"
    using assms by (intro rounded_mono; simp add: abs_le_iff)+
  then show ?thesis using r by (simp add: abs_le_iff)
qed

lemma pow2_less_overflow: "k < 1024 \<Longrightarrow> (2::rat) ^ k < overflow"
  unfolding overflow_def by (rule power_strict_increasing) simp_all

lemma rat_of_neg: "is_finite y \<Longrightarrow> is_finite (js_neg y) \<and> rat_of (js_neg y) = - rat_of y"
  by (cases y) (auto simp: js_neg_def)

lemma js_add_rounded:
  assumes "is_finite x" "is_finite y" and "\<bar>rat_of x + rat_of y\<bar> \<le> 2 ^ k" "k < 1024"
  shows "is_finite (js_add x y) \<and> rat_of (js_add x y) = rounded (rat_of x + rat_of y)"
proof -
  have "\<bar>rounded (rat_of x + rat_of y)\<bar> < overflow"
    using rounded_abs_le [OF assms(3)] pow2_less_overflow [OF assms(4)] by linarith
  then show ?thesis
    using to_double_finite assms(1,2) by (cases x; cases y) (auto simp: js_add_def)
qed

lemma js_sub_rounded:
  assumes "is_finite x" "is_finite y" and "\<bar>rat_of x - rat_of y\<bar> \<le> 2 ^ k" "k < 1024"
  shows "is_finite (js_sub x y) \<and> rat_of (js_sub x y) = rounded (rat_of x - rat_of y)"
  using js_add_rounded [of x "js_neg y"] rat_of_neg [OF assms(2)] assms by (simp add: js_sub_def)

lemma moderate_sub:
  assumes "moderate x" "moderate y"
  shows "is_finite (js_sub x y) \<and> rat_of (js_sub x y) = rounded (rat_of x - rat_of y) \<and> \<bar>rat_of (js_sub x y)\<bar> \<le> 2 ^ 1001"
proof -
  have two: "(2::rat) ^ 1001 = 2 * 2 ^ 1000" using power_Suc [of "2::rat" 1000] by (simp only: eval_nat_numeral)
  have "\<bar>rat_of x\<bar> \<le> 2 ^ 1000" "\<bar>rat_of y\<bar> \<le> 2 ^ 1000" using assms by (simp_all only: moderate_def)
  then have d: "\<bar>rat_of x - rat_of y\<bar> \<le> 2 ^ 1001" unfolding two by linarith
  have f: "is_finite x" "is_finite y" using assms by (simp_all only: moderate_def)
  show ?thesis
    using js_sub_rounded [OF f d] rounded_abs_le [OF d] by simp
qed

lemma js_mul_rounded:
  assumes "is_finite x" "is_finite y" and "\<bar>rat_of x * rat_of y\<bar> \<le> 2 ^ k" "k < 1024"
  shows "is_finite (js_mul x y) \<and> rat_of (js_mul x y) = rounded (rat_of x * rat_of y)"
proof -
  have "\<bar>rounded (rat_of x * rat_of y)\<bar> < overflow"
    using rounded_abs_le [OF assms(3)] pow2_less_overflow [OF assms(4)] by linarith
  then show ?thesis
    using to_double_finite assms(1,2) by (cases x; cases y) (auto simp: js_mul_def Let_def)
qed

lemma js_div_rounded:
  assumes "is_finite x" "is_finite y" "rat_of y \<noteq> 0" and "\<bar>rat_of x / rat_of y\<bar> \<le> 2 ^ k" "k < 1024"
  shows "is_finite (js_div x y) \<and> rat_of (js_div x y) = rounded (rat_of x / rat_of y)"
proof -
  have "\<bar>rounded (rat_of x / rat_of y)\<bar> < overflow"
    using rounded_abs_le [OF assms(4)] pow2_less_overflow [OF assms(5)] by linarith
  then show ?thesis
    using to_double_finite assms(1-3) by (cases x; cases y) (auto simp: js_div_def Let_def)
qed

lemma rounded_between:
  assumes "rounded lo = lo" and "rounded hi = hi" and "lo \<le> q" and "q \<le> hi"
  shows "lo \<le> rounded q \<and> rounded q \<le> hi"
  using rounded_mono [OF assms(3)] rounded_mono [OF assms(4)] assms(1,2) by simp

lemma rounded_1 [simp]: "rounded 1 = 1"
  using rounded_of_int [of 1] by simp

lemma rounded_unit: "0 \<le> q \<Longrightarrow> q \<le> 1 \<Longrightarrow> 0 \<le> rounded q \<and> rounded q \<le> 1"
  by (rule rounded_between) simp_all

text \<open>A number between zero and one, and one less such a number.\<close>

definition unit_interval :: "jsnum \<Rightarrow> bool" where
  "unit_interval x \<longleftrightarrow> is_finite x \<and> 0 \<le> rat_of x \<and> rat_of x \<le> 1"

lemma one_minus_unit: "unit_interval x \<Longrightarrow> unit_interval (js_sub (Fin 1) x) \<and>
    rat_of (js_sub (Fin 1) x) = rounded (1 - rat_of x)"
  using js_sub_rounded [of "Fin 1" x 0] rounded_unit [of "1 - rat_of x"] by (auto simp: unit_interval_def)

text \<open>The share of a part in a whole, with the whole read as one when it is zero.\<close>

lemma share_unit:
  assumes "is_finite x" "is_finite y" "0 \<le> rat_of x" "rat_of x \<le> rat_of y"
  shows "unit_interval (js_div x (or_one y))"
proof (cases "rat_of y = 0")
  case True
  then have "or_one y = Fin 1" using assms(2) by (cases y) (auto simp: or_one_def)
  moreover have "x = Fin 0 \<or> x = NZero" using True assms by (cases x) auto
  ultimately show ?thesis by (auto simp: unit_interval_def js_div_def)
next
  case False
  then have o: "or_one y = y" using assms(2) by (cases y) (auto simp: or_one_def)
  have "0 \<le> rat_of x / rat_of y" "rat_of x / rat_of y \<le> 1" using assms False by (auto simp: divide_le_eq_1)
  then have "\<bar>rat_of x / rat_of y\<bar> \<le> 2 ^ 0" by (simp only: abs_of_nonneg power_0)
  then have "is_finite (js_div x y) \<and> rat_of (js_div x y) = rounded (rat_of x / rat_of y)"
    using assms(1,2) False by (intro js_div_rounded [of x y 0]) simp_all
  then show ?thesis
    using rounded_unit [OF \<open>0 \<le> rat_of x / rat_of y\<close> \<open>rat_of x / rat_of y \<le> 1\<close>]
    by (simp add: o unit_interval_def)
qed

lemma one_minus_bounded:
  assumes "is_finite x" "\<bar>rat_of x\<bar> \<le> 2 ^ k" "Suc k < 1024"
  shows "is_finite (js_sub (Fin 1) x) \<and> \<bar>rat_of (js_sub (Fin 1) x)\<bar> \<le> 2 ^ Suc k"
proof -
  have "(1::rat) \<le> 2 ^ k" by simp
  then have "\<bar>1 - rat_of x\<bar> \<le> 2 * 2 ^ k" using assms(2) by linarith
  then have d: "\<bar>rat_of (Fin 1) - rat_of x\<bar> \<le> 2 ^ Suc k" by simp
  then show ?thesis using js_sub_rounded [of "Fin 1" x "Suc k"] rounded_abs_le [OF d] assms by simp
qed

lemma unit_moderate: "unit_interval x \<Longrightarrow> moderate x"
proof -
  assume "unit_interval x"
  moreover have "(1::rat) \<le> 2 ^ 1000" by (rule one_le_power) simp
  ultimately show ?thesis unfolding unit_interval_def moderate_def by linarith
qed

lemma rat_of_to_double_0 [simp]: "rat_of (to_double s 0) = 0"
  by (cases s) simp_all

lemma to_double_numeral: "(numeral k :: int) \<le> 2 ^ 53 \<Longrightarrow> to_double False (numeral k) = Fin (numeral k)"
  using to_double_of_int [of "numeral k"] by simp

end
