(* ===== verification/Util_Alphanum.thy ===== *)
theory Util_Alphanum
  imports JS_Value
begin

text \<open>
  The natural-order comparison \<open>alphanum\<close> of util.js (a copy of lib/alphanum.js): a string is cut
  into runs of digits and points and runs of other characters, and two strings are compared run
  by run. The lemmas show what the cutting yields, that the comparison is antisymmetric, and
  that labels which differ in one number are ordered by that number.
\<close>

section \<open>Cutting a string into runs\<close>

definition numeric_char :: "char \<Rightarrow> bool" where
  "numeric_char c \<longleftrightarrow> code c = 46 \<or> 48 \<le> code c \<and> code c \<le> 57"

text \<open>
  The loop of \<open>chunkify\<close>: \<open>n\<close> is the class of the current run (\<open>None\<close> is the initial \<open>0\<close>, which
  differs from both), \<open>tz\<close> the runs so far. It stops at the end of the string, where the
  character code is \<open>NaN\<close>, and at a NUL.
\<close>

fun chunk_loop :: "bool option \<Rightarrow> string list \<Rightarrow> string \<Rightarrow> string list" where
  "chunk_loop n tz [] = tz"
| "chunk_loop n tz (j # t) =
     (if code j = 0 then tz
      else (let m = numeric_char j; tz' = (if n \<noteq> Some m then tz @ [[]] else tz) in
        chunk_loop (Some m) (butlast tz' @ [last tz' @ [j]]) t))"

definition chunkify :: "string \<Rightarrow> string list" where
  "chunkify t = chunk_loop None [] t"

section \<open>The comparison\<close>

text \<open>
  The loop of \<open>alphanum\<close>: \<open>d\<close> is the difference of the numbers of runs, returned when one of the
  strings is used up. An empty run would be falsy and stop the loop.
\<close>

definition cmp_chunk :: "string \<Rightarrow> string \<Rightarrow> jsnum" where
  "cmp_chunk a b = (let c = to_number a; d = to_number b in
     if num_eq c (to_number a) \<and> num_eq d (to_number b) then js_sub c d
     else if str_less b a then Fin 1 else Fin (- 1))"

fun cmp_loop :: "jsnum \<Rightarrow> string list \<Rightarrow> string list \<Rightarrow> jsnum" where
  "cmp_loop d (a # as) (b # bs) =
     (if a = [] \<or> b = [] then d
      else if a \<noteq> b then cmp_chunk a b
      else cmp_loop d as bs)"
| "cmp_loop d _ _ = d"

definition alphanum :: "jsval \<Rightarrow> jsval \<Rightarrow> jsnum" where
  "alphanum a b = (let aa = chunkify (to_str a); bb = chunkify (to_str b) in
     cmp_loop (num_of_int (int (length aa) - int (length bb))) aa bb)"

section \<open>What the cutting yields\<close>

lemma chunk_loop_append:
  "tz \<noteq> [] \<Longrightarrow> chunk_loop n (us @ tz) s = us @ chunk_loop n tz s"
  by (induction s arbitrary: n tz) (auto simp: Let_def butlast_append)

text \<open>A run of one class is taken whole, in front of the runs of the rest.\<close>

definition chars_of :: "bool \<Rightarrow> string \<Rightarrow> bool" where
  "chars_of m r \<longleftrightarrow> (\<forall>c \<in> set r. code c \<noteq> 0 \<and> numeric_char c = m)"

lemma chunk_loop_run:
  assumes "chars_of m r"
  shows "chunk_loop (Some m) [w] (r @ s) = chunk_loop (Some m) [w @ r] s"
  using assms by (induction r arbitrary: w) (simp_all add: Let_def chars_of_def)

lemma chunk_loop_start:
  assumes "r \<noteq> []" and "chars_of m r" and "n \<noteq> Some m"
  shows "chunk_loop n tz (r @ s) = tz @ chunk_loop (Some m) [r] s"
proof -
  obtain c r' where r: "r = c # r'" using assms(1) by (cases r) auto
  have "chunk_loop n tz (r @ s) = chunk_loop (Some m) (tz @ [[c]]) (r' @ s)"
    using assms by (simp add: r Let_def chars_of_def)
  also have "\<dots> = tz @ chunk_loop (Some m) [[c]] (r' @ s)" by (rule chunk_loop_append) simp
  also have "chunk_loop (Some m) [[c]] (r' @ s) = chunk_loop (Some m) [[c] @ r'] s"
    using assms(2) by (intro chunk_loop_run) (simp add: r chars_of_def)
  finally show ?thesis by (simp add: r)
qed

text \<open>The runs put together give the string back, up to its first NUL.\<close>

lemma concat_chunk_loop:
  "n = None \<or> tz \<noteq> [] \<Longrightarrow> concat (chunk_loop n tz s) = concat tz @ takeWhile (\<lambda>c. code c \<noteq> 0) s"
proof (induction s arbitrary: n tz)
  case (Cons j t)
  define tz' where "tz' = (if n \<noteq> Some (numeric_char j) then tz @ [[]] else tz)"
  have ne: "tz' \<noteq> []" using Cons.prems by (auto simp: tz'_def)
  have "concat (butlast tz' @ [last tz' @ [j]]) = concat tz' @ [j]"
    using ne by (metis append.assoc append_butlast_last_id concat.simps(1,2) concat_append append_Nil2)
  also have "concat tz' = concat tz" by (simp add: tz'_def)
  finally show ?case using Cons.IH [of "Some (numeric_char j)" "butlast tz' @ [last tz' @ [j]]"]
    by (simp add: Let_def tz'_def [symmetric])
qed simp

text \<open>Every run is non-empty and of one class, and neighbouring runs differ in class.\<close>

definition run_of :: "bool \<Rightarrow> string \<Rightarrow> bool" where
  "run_of m r \<longleftrightarrow> r \<noteq> [] \<and> (\<forall>c \<in> set r. numeric_char c = m)"

fun alternating :: "bool \<Rightarrow> string list \<Rightarrow> bool" where
  "alternating m [] = True"
| "alternating m (r # rs) = (run_of m r \<and> alternating (\<not> m) rs)"

lemma chunk_loop_alternating:
  "run_of m r \<Longrightarrow> alternating m (chunk_loop (Some m) [r] s)"
proof (induction s arbitrary: m r)
  case (Cons j t)
  show ?case
  proof (cases "code j = 0 \<or> numeric_char j = m")
    case True
    show ?thesis
    proof (cases "code j = 0")
      case True
      then show ?thesis using Cons.prems by simp
    next
      case False
      then have m: "numeric_char j = m" using True by simp
      have "alternating m (chunk_loop (Some m) [r @ [j]] t)"
        using Cons.prems m by (intro Cons.IH) (simp add: run_of_def)
      then show ?thesis using m False by (simp add: Let_def)
    qed
  next
    case False
    have "chunk_loop (Some (\<not> m)) ([r] @ [[j]]) t = [r] @ chunk_loop (Some (\<not> m)) [[j]] t"
      by (rule chunk_loop_append) simp
    moreover have "alternating (\<not> m) (chunk_loop (Some (\<not> m)) [[j]] t)"
      using False by (intro Cons.IH) (auto simp: run_of_def)
    moreover have "numeric_char j = (\<not> m)" using False by blast
    ultimately show ?thesis using False Cons.prems by (simp add: Let_def)
  qed
qed (simp add: run_of_def)

lemma chunkify_alternating: "\<exists>m. alternating m (chunkify s)"
proof (cases s)
  case (Cons j t)
  show ?thesis
  proof (cases "code j = 0")
    case False
    then show ?thesis
      using chunk_loop_alternating [of "numeric_char j" "[j]" t]
      by (auto simp: chunkify_def Cons Let_def run_of_def)
  qed (simp add: chunkify_def Cons)
qed (simp add: chunkify_def)

lemma alternating_nonempty: "alternating m rs \<Longrightarrow> r \<in> set rs \<Longrightarrow> r \<noteq> []"
  by (induction rs arbitrary: m) (auto simp: run_of_def)

lemma chunkify_nonempty: "r \<in> set (chunkify s) \<Longrightarrow> r \<noteq> []"
  using chunkify_alternating alternating_nonempty by blast

section \<open>Antisymmetry\<close>

text \<open>The sign of a comparison result, as \<open>sort\<close> reads it: \<open>NaN\<close> counts as zero.\<close>

definition cmp_pos :: "jsnum \<Rightarrow> bool" where
  "cmp_pos x = num_lt (Fin 0) x"

definition cmp_neg :: "jsnum \<Rightarrow> bool" where
  "cmp_neg x = num_lt x (Fin 0)"

lemma cmp_sign_simps [simp]:
  "cmp_pos (Fin q) \<longleftrightarrow> 0 < q" "cmp_neg (Fin q) \<longleftrightarrow> q < 0"
  "\<not> cmp_pos NaN" "\<not> cmp_neg NaN" "cmp_pos PInf" "\<not> cmp_neg PInf" "\<not> cmp_pos NInf" "cmp_neg NInf"
  "\<not> cmp_pos NZero" "\<not> cmp_neg NZero"
  by (simp_all add: cmp_pos_def cmp_neg_def num_lt_def)

lemma cmp_sign_finite:
  "is_finite x \<Longrightarrow> cmp_pos x \<longleftrightarrow> 0 < rat_of x" "is_finite x \<Longrightarrow> cmp_neg x \<longleftrightarrow> rat_of x < 0"
  by (cases x; simp)+

lemma cmp_sign_to_double:
  "cmp_pos (to_double s q) \<longleftrightarrow> 0 < rounded q" "cmp_neg (to_double s q) \<longleftrightarrow> rounded q < 0"
proof -
  have "(cmp_pos (to_double s q) \<longleftrightarrow> 0 < rounded q) \<and> (cmp_neg (to_double s q) \<longleftrightarrow> rounded q < 0)"
  proof (cases q rule: to_double_cases)
    case 1
    then have "0 < rounded q" using overflow_pos(1) by linarith
    with 1 show ?thesis by (simp add: to_double_PInf)
  next
    case 2
    then have "rounded q < 0" using overflow_pos(1) by linarith
    with 2 show ?thesis by (simp add: to_double_NInf)
  next
    case 3
    then show ?thesis by (simp add: cmp_sign_finite to_double_finite)
  qed
  then show "cmp_pos (to_double s q) \<longleftrightarrow> 0 < rounded q" "cmp_neg (to_double s q) \<longleftrightarrow> rounded q < 0"
    by auto
qed

lemma js_sub_finite:
  assumes "is_finite x" and "is_finite y"
  shows "\<exists>s. js_sub x y = to_double s (rat_of x - rat_of y)"
proof -
  have "is_finite (js_neg y) \<and> rat_of (js_neg y) = - rat_of y"
    using assms(2) by (cases y) (auto simp: js_neg_def)
  then have "js_sub x y = to_double (x = NZero \<and> js_neg y = NZero) (rat_of x - rat_of y)"
    using assms(1) by (cases x; cases "js_neg y") (auto simp: js_sub_def js_add_def)
  then show ?thesis by blast
qed

lemma js_sub_swap: "cmp_pos (js_sub x y) \<longleftrightarrow> cmp_neg (js_sub y x)"
proof (cases "is_finite x \<and> is_finite y")
  case True
  obtain s t where "js_sub x y = to_double s (rat_of x - rat_of y)"
    and "js_sub y x = to_double t (rat_of y - rat_of x)"
    using js_sub_finite True by meson
  then show ?thesis
    using rounded_minus [of "rat_of x - rat_of y"] by (simp add: cmp_sign_to_double)
next
  case False
  then show ?thesis by (cases x; cases y) (auto simp: js_sub_def js_add_def js_neg_def)
qed

lemma cmp_chunk_swap: "a \<noteq> b \<Longrightarrow> cmp_pos (cmp_chunk a b) \<longleftrightarrow> cmp_neg (cmp_chunk b a)"
  using str_less_total [of a b] str_less_trans [of a b a] 
  by (auto simp: cmp_chunk_def Let_def js_sub_swap)

lemma cmp_loop_swap:
  "cmp_pos (cmp_loop (num_of_int d) as bs) \<longleftrightarrow> cmp_neg (cmp_loop (num_of_int (- d)) bs as)"
  by (induction "num_of_int d" as bs rule: cmp_loop.induct) (auto simp: cmp_chunk_swap)

lemma alphanum_swap: "cmp_pos (alphanum a b) \<longleftrightarrow> cmp_neg (alphanum b a)"
  using cmp_loop_swap [of "int (length (chunkify (to_str a))) - int (length (chunkify (to_str b)))"]
  by (simp add: alphanum_def Let_def)

lemma cmp_loop_refl: "cmp_loop d as as = d"
  by (induction as) auto

lemma alphanum_refl: "alphanum a a = Fin 0"
  by (simp add: alphanum_def cmp_loop_refl)

section \<open>Labels that hold one number\<close>

text \<open>
  A label: text without digits, points or NULs around the decimal numeral of a number. The
  scenario parameters of the dashboard ("24 hrs", "Size 1000") have this form.
\<close>

definition plain_text :: "string \<Rightarrow> bool" where
  "plain_text s \<longleftrightarrow> (\<forall>c \<in> set s. code c \<noteq> 0 \<and> \<not> numeric_char c)"

definition label_text :: "string \<Rightarrow> string \<Rightarrow> nat \<Rightarrow> string" where
  "label_text p s n = p @ nat_digits 10 n @ s"

lemma digits_numeric: "chars_of True (nat_digits 10 n)"
  by (auto simp: chars_of_def is_digit_def numeric_char_def dest!: nat_digits_is_digit)

lemma plain_chars: "plain_text s \<Longrightarrow> chars_of False s"
  by (simp add: plain_text_def chars_of_def)

lemma chunkify_label:
  assumes "plain_text p" and "plain_text s"
  shows "chunkify (label_text p s n) =
    (if p = [] then [] else [p]) @ nat_digits 10 n # (if s = [] then [] else [s])"
proof -
  have digits: "chunk_loop m tz (nat_digits 10 n @ s) =
      tz @ chunk_loop (Some True) [nat_digits 10 n] s" if "m \<noteq> Some True" for m tz
    using digits_numeric that by (intro chunk_loop_start) simp_all
  have suffix: "chunk_loop (Some True) [nat_digits 10 n] s =
      nat_digits 10 n # (if s = [] then [] else [s])"
  proof (cases "s = []")
    case False
    have "chunk_loop (Some True) [nat_digits 10 n] (s @ []) =
        [nat_digits 10 n] @ chunk_loop (Some False) [s] []"
      using False plain_chars [OF assms(2)] by (intro chunk_loop_start) simp_all
    with False show ?thesis by simp
  qed simp
  show ?thesis
  proof (cases "p = []")
    case True
    then show ?thesis using digits [of None "[]"] suffix by (simp add: chunkify_def label_text_def)
  next
    case False
    have "chunk_loop None [] (p @ nat_digits 10 n @ s) =
        [] @ chunk_loop (Some False) [p] (nat_digits 10 n @ s)"
      using False plain_chars [OF assms(1)] by (intro chunk_loop_start) simp_all
    then show ?thesis using digits [of "Some False" "[p]"] suffix False
      by (simp add: chunkify_def label_text_def)
  qed
qed

text \<open>Reading the numeral of a number of at most 53 bits gives the number.\<close>

lemma dropWhile_digits: "dropWhile is_digit (nat_digits 10 n) = []"
  by (simp add: dropWhile_eq_Nil_conv nat_digits_is_digit)

lemma to_number_nat_digits: "n \<le> 2 ^ 53 \<Longrightarrow> to_number (nat_digits 10 n) = Fin (of_nat n)"
proof -
  assume n: "n \<le> 2 ^ 53"
  let ?ds = "nat_digits 10 n"
  have tr: "trim ?ds = ?ds" by (rule trim_id) (simp add: nat_digits_plain)
  have tw: "takeWhile is_digit ?ds = ?ds"
    by (simp add: takeWhile_eq_all_conv nat_digits_is_digit)
  have "?ds \<noteq> ''Infinity''"
  proof
    assume "?ds = ''Infinity''"
    then have "CHR ''I'' \<in> set ?ds" by simp
    then show False by (drule_tac nat_digits_is_digit) (simp add: is_digit_def code_def)
  qed
  moreover have "scan_decimal ?ds = Some (of_nat n, [])"
    by (simp add: scan_decimal_def tw dropWhile_digits scan_exponent_def digits_value_nat_digits)
  moreover have "to_double False (of_nat n) = Fin (of_nat n)"
    using to_double_of_int [of "int n"] n by simp
  ultimately show ?thesis by (simp add: to_number_def tr nat_digits_scan)
qed

lemma nat_digits_inject: "nat_digits 10 m = nat_digits 10 n \<Longrightarrow> m = n"
proof -
  assume "nat_digits 10 m = nat_digits 10 n"
  then have "digits_value 10 (nat_digits 10 m) = digits_value 10 (nat_digits 10 n)" by (rule arg_cong)
  then show ?thesis by (simp only: digits_value_nat_digits [of 10, simplified])
qed

lemma cmp_chunk_digits:
  assumes "m \<le> 2 ^ 53" and "n \<le> 2 ^ 53"
  shows "cmp_chunk (nat_digits 10 m) (nat_digits 10 n) = num_of_int (int m - int n)"
proof -
  have "js_sub (Fin (of_nat m)) (Fin (of_nat n)) = to_double False (of_int (int m - int n))"
    by (simp add: js_sub_def js_add_def js_neg_def)
  also have "\<dots> = Fin (of_int (int m - int n))"
    using assms by (intro to_double_of_int) simp
  finally show ?thesis using assms by (simp add: cmp_chunk_def Let_def to_number_nat_digits)
qed

lemma alphanum_labels:
  assumes "plain_text p" "plain_text s" "m \<le> 2 ^ 53" "n \<le> 2 ^ 53"
  shows "alphanum (Str (label_text p s m)) (Str (label_text p s n)) = num_of_int (int m - int n)"
proof -
  let ?as = "\<lambda>k. nat_digits 10 k # (if s = [] then [] else [s])"
  have "cmp_loop (Fin 0) (?as m) (?as n) = num_of_int (int m - int n)"
    using assms cmp_chunk_digits [of m n] nat_digits_inject [of m n] by (auto simp: cmp_loop_refl)
  then show ?thesis
    using assms by (simp add: alphanum_def chunkify_label)
qed

section \<open>Properties\<close>

text \<open>
  \<open>chunkify\<close> cuts a text without NULs into non-empty runs that alternate between numeric and
  other characters, and loses nothing: the runs put together are the text.
\<close>

theorem chunkify_runs:
  assumes "\<forall>c \<in> set t. code c \<noteq> 0"
  shows "concat (chunkify t) = t \<and> (\<exists>m. alternating m (chunkify t))"
proof -
  have "takeWhile (\<lambda>c. code c \<noteq> 0) t = t" using assms by (simp add: takeWhile_eq_all_conv)
  then have "concat (chunkify t) = t"
    using concat_chunk_loop [of None "[]" t] by (simp add: chunkify_def)
  then show ?thesis using chunkify_alternating by blast
qed

theorem chunkify_runs_witness:
  "concat (chunkify ''Size 12'') = ''Size 12'' \<and> chunkify ''Size 12'' = [''Size '', ''12'']"
  using chunkify_runs [of "''Size 12''"]
  by (auto simp: code_def chunkify_def Let_def numeric_char_def)

text \<open>
  The comparison of two values and of the same values the other way round have opposite
  signs, for any two values, and a value compares equal to itself.
\<close>

theorem alphanum_antisymmetric:
  "(cmp_pos (alphanum a b) \<longleftrightarrow> cmp_neg (alphanum b a)) \<and> alphanum a a = Fin 0"
  using alphanum_swap alphanum_refl by blast

text \<open>
  Natural order. Two labels with the same text around one number each compare as their
  numbers do, and the result is the exact difference of the numbers, for numbers a double holds.
\<close>

theorem alphanum_natural_order:
  assumes "plain_text p" "plain_text s" "m \<le> 2 ^ 53" "n \<le> 2 ^ 53"
  shows "alphanum (Str (label_text p s m)) (Str (label_text p s n)) = num_of_int (int m - int n)"
  by (rule alphanum_labels [OF assms])

theorem alphanum_natural_order_witness:
  "alphanum (Str (label_text ''Size '' '' MB'' 9)) (Str (label_text ''Size '' '' MB'' 10)) = Fin (- 1)"
  using alphanum_natural_order [of "''Size ''" "'' MB''" 9 10]
  by (simp add: plain_text_def numeric_char_def code_def)

end
