(* ===== verification/Util_Arrays.thy ===== *)
theory Util_Arrays
  imports Util_Alphanum
begin

text \<open>
  The methods util.js adds to \<open>Array.prototype\<close>: \<open>groupBy\<close>, \<open>sortBy\<close>, \<open>addIfAbsent\<close> and
  \<open>removeIfExists\<close>, with the built-in \<open>sort\<close> and \<open>indexOf\<close> they call. The locale
  \<open>comparison\<close> states what a comparator owes \<open>sort\<close>; the natural-order comparison meets it on
  labels that hold one number.
\<close>

section \<open>groupBy\<close>

text \<open>
  The keys every object inherits from \<open>Object.prototype\<close>: looking one of them up in the empty
  object does not give \<open>undefined\<close>, and what it gives has no \<open>push\<close>.
\<close>

definition object_proto_keys :: "string list" where
  "object_proto_keys =
     [''constructor'', ''hasOwnProperty'', ''isPrototypeOf'', ''propertyIsEnumerable'',
      ''toLocaleString'', ''toString'', ''valueOf'', ''__defineGetter__'', ''__defineSetter__'',
      ''__lookupGetter__'', ''__lookupSetter__'', ''__proto__'']"

type_synonym groups = "(string \<times> jsval list) list"

definition group_key :: "string \<Rightarrow> (jsval \<Rightarrow> jsval) option \<Rightarrow> jsval \<Rightarrow> string res" where
  "group_key property_name alias_function element =
     bind_res (get_prop element property_name)
       (\<lambda>v. Inr (to_str (case alias_function of None \<Rightarrow> v | Some f \<Rightarrow> f v)))"

definition group_push :: "string \<Rightarrow> (jsval \<Rightarrow> jsval) option \<Rightarrow> groups \<Rightarrow> jsval \<Rightarrow> groups res" where
  "group_push property_name alias_function groups element =
     bind_res (group_key property_name alias_function element) (\<lambda>key.
       case map_of groups key of
         Some elements \<Rightarrow> Inr (put_prop key (elements @ [element]) groups)
       | None \<Rightarrow>
           if key \<in> set object_proto_keys then Inl TypeError
           else Inr (put_prop key [element] groups))"

definition groupBy :: "string \<Rightarrow> (jsval \<Rightarrow> jsval) option \<Rightarrow> jsval list \<Rightarrow> groups res" where
  "groupBy property_name alias_function elements =
     fold_res (group_push property_name alias_function) [] elements"

text \<open>Rows whose key is readable and not an inherited one: what the program groups.\<close>

definition groupable :: "string \<Rightarrow> jsval list \<Rightarrow> bool" where
  "groupable property_name elements \<longleftrightarrow>
     list_all (\<lambda>e. case group_key property_name None e of
       Inl _ \<Rightarrow> False | Inr k \<Rightarrow> k \<notin> set object_proto_keys) elements"

text \<open>The key of a row, for a row that has one.\<close>

definition key_of :: "string \<Rightarrow> jsval \<Rightarrow> string" where
  "key_of property_name e = (case group_key property_name None e of Inl _ \<Rightarrow> '''' | Inr k \<Rightarrow> k)"

lemma groupable_append [simp]: "groupable p (xs @ ys) \<longleftrightarrow> groupable p xs \<and> groupable p ys"
  by (simp add: groupable_def)

lemma groupable_key:
  "groupable p es \<Longrightarrow> e \<in> set es \<Longrightarrow>
   group_key p None e = Inr (key_of p e) \<and> key_of p e \<notin> set object_proto_keys"
  by (auto simp: groupable_def list_all_iff key_of_def split: sum.splits)

lemma key_of_Obj [simp]: "key_of p (Obj ps) = to_str (get_own ps p)"
  by (simp add: key_of_def group_key_def)

text \<open>On groupable rows \<open>groupBy\<close> is the grouping loop of the keyed-store interface.\<close>

lemma groupBy_store:
  "groupable p es \<Longrightarrow> groupBy p None es = Inr (foldl (obj_store.group_step (key_of p) (\<lambda>x. x) (\<lambda>x. x)) [] es)"
proof (induction es rule: rev_induct)
  case Nil
  then show ?case by (simp add: groupBy_def)
next
  case (snoc e es)
  define g where "g = foldl (obj_store.group_step (key_of p) (\<lambda>x. x) (\<lambda>x. x)) [] es"
  have key: "group_key p None e = Inr (key_of p e)" "key_of p e \<notin> set object_proto_keys"
    using groupable_key [OF snoc.prems] by auto
  have "fold_res (group_push p None) [] es = Inr g"
    using snoc by (simp add: groupBy_def g_def)
  then have "groupBy p None (es @ [e]) = group_push p None g e"
    by (simp add: groupBy_def fold_res_append bind_res_def split: sum.split)
  also have "\<dots> = Inr (obj_store.group_step (key_of p) (\<lambda>x. x) (\<lambda>x. x) g e)"
    using key by (simp add: group_push_def obj_store.group_step_def split: option.splits)
  finally show ?case by (simp add: g_def)
qed

lemma groupBy_ok: "groupable p es \<Longrightarrow> \<exists>g. groupBy p None es = Inr g"
  by (simp add: groupBy_store)

lemma groupBy_map_of:
  "groupable p es \<Longrightarrow> groupBy p None es = Inr g \<Longrightarrow>
   map_of g k = (if k \<in> key_of p ` set es then Some (filter (\<lambda>e. key_of p e = k) es) else None)"
  using obj_store.group_look [of "\<lambda>x. x" "\<lambda>x. x" "key_of p" es k] by (auto simp: groupBy_store image_iff)

lemma groupBy_keys:
  assumes "groupable p es" and "groupBy p None es = Inr g"
  shows "set (map fst g) = key_of p ` set es" and "distinct (map fst g)"
  using obj_store.group_keys [of "\<lambda>x. x" "\<lambda>x. x" "key_of p" es] assms
  by (auto simp: groupBy_store keys_of_def)

section \<open>The built-in sort\<close>

text \<open>
  \<open>Array.prototype.sort\<close> with a comparator, as insertion from the right: an element moves left
  past every element that compares greater. \<open>acc\<close> is the sorted part, last element first. For a
  consistent comparator this is the stable order the language prescribes.
\<close>

fun sort_insert :: "('a \<Rightarrow> 'a \<Rightarrow> jsnum) \<Rightarrow> 'a \<Rightarrow> 'a list \<Rightarrow> 'a list" where
  "sort_insert cmp x [] = [x]"
| "sort_insert cmp x (t # ts) =
     (if cmp_pos (cmp t x) then t # sort_insert cmp x ts else x # t # ts)"

definition js_sort :: "('a \<Rightarrow> 'a \<Rightarrow> jsnum) \<Rightarrow> 'a list \<Rightarrow> 'a list" where
  "js_sort cmp xs = rev (foldl (\<lambda>acc x. sort_insert cmp x acc) [] xs)"

lemma mset_sort_insert: "mset (sort_insert cmp x ts) = add_mset x (mset ts)"
  by (induction ts) auto

lemma set_sort_insert: "set (sort_insert cmp x ts) = insert x (set ts)"
  by (induction ts) auto

lemma js_sort_snoc: "rev (js_sort cmp (xs @ [x])) = sort_insert cmp x (rev (js_sort cmp xs))"
  by (simp add: js_sort_def)

lemma mset_js_sort: "mset (js_sort cmp xs) = mset xs"
proof (induction xs rule: rev_induct)
  case (snoc x xs)
  have "mset (rev (js_sort cmp (xs @ [x]))) = add_mset x (mset (rev (js_sort cmp xs)))"
    by (simp only: js_sort_snoc mset_sort_insert)
  with snoc show ?case by simp
qed (simp add: js_sort_def)

lemma set_js_sort: "set (js_sort cmp xs) = set xs"
  using mset_js_sort [of cmp xs] by (metis set_mset_mset)

lemma length_js_sort: "length (js_sort cmp xs) = length xs"
  using mset_js_sort [of cmp xs] by (metis size_mset)

text \<open>What a comparator owes \<open>sort\<close> on the elements it is used on.\<close>

locale comparison =
  fixes cmp :: "'a \<Rightarrow> 'a \<Rightarrow> jsnum" and valid :: "'a \<Rightarrow> bool"
  assumes swap: "valid a \<Longrightarrow> valid b \<Longrightarrow> cmp_pos (cmp a b) \<longleftrightarrow> cmp_neg (cmp b a)"
    and trans: "valid a \<Longrightarrow> valid b \<Longrightarrow> valid c \<Longrightarrow>
      \<not> cmp_pos (cmp a b) \<Longrightarrow> \<not> cmp_pos (cmp b c) \<Longrightarrow> \<not> cmp_pos (cmp a c)"
begin

lemma not_both: "valid a \<Longrightarrow> valid b \<Longrightarrow> cmp_pos (cmp a b) \<Longrightarrow> \<not> cmp_pos (cmp b a)"
  using swap [of a b] swap [of b a] by (cases "cmp a b"; cases "cmp b a") auto

lemma sort_insert_sorted:
  assumes "list_all valid (x # ts)" and "sorted_wrt (\<lambda>b a. \<not> cmp_pos (cmp a b)) ts"
  shows "sorted_wrt (\<lambda>b a. \<not> cmp_pos (cmp a b)) (sort_insert cmp x ts)"
  using assms
proof (induction ts)
  case (Cons t ts)
  show ?case
  proof (cases "cmp_pos (cmp t x)")
    case True
    then have "\<not> cmp_pos (cmp x t)" using Cons.prems not_both by auto
    with True Cons show ?thesis by (auto simp: set_sort_insert)
  next
    case False
    have "\<not> cmp_pos (cmp y x)" if "y \<in> set ts" for y
      using False Cons.prems that trans [of y t x] by (auto simp: list_all_iff)
    with False Cons.prems show ?thesis by auto
  qed
qed simp

lemma js_sort_sorted:
  "list_all valid xs \<Longrightarrow> sorted_wrt (\<lambda>a b. \<not> cmp_pos (cmp a b)) (js_sort cmp xs)"
proof (induction xs rule: rev_induct)
  case (snoc x xs)
  then have "sorted_wrt (\<lambda>b a. \<not> cmp_pos (cmp a b)) (rev (js_sort cmp xs))"
    by (simp add: sorted_wrt_rev)
  moreover have "list_all valid (x # rev (js_sort cmp xs))"
    using snoc.prems by (simp add: list_all_iff set_js_sort)
  ultimately have "sorted_wrt (\<lambda>b a. \<not> cmp_pos (cmp a b)) (rev (js_sort cmp (xs @ [x])))"
    unfolding js_sort_snoc by (intro sort_insert_sorted)
  then show ?case by (simp add: sorted_wrt_rev)
qed (simp add: js_sort_def)

end

section \<open>sortBy\<close>

text \<open>
  The two keys of one call of the comparator. The weight names get a digit in front; the last
  test of the second key looks at \<open>other\<close>, the row, not at its property.
\<close>

definition one_sort_key :: "jsval \<Rightarrow> jsval" where
  "one_sort_key onep =
     (if loose_eq onep (Str ''Heavy'') then Str (''0'' @ to_str onep)
      else if loose_eq onep (Str ''Medium'') then Str (''1'' @ to_str onep)
      else if loose_eq onep (Str ''Light'') then Str (''2'' @ to_str onep)
      else onep)"

definition other_sort_key :: "jsval \<Rightarrow> jsval \<Rightarrow> jsval" where
  "other_sort_key other otherp =
     (if loose_eq otherp (Str ''Heavy'') then Str (''0'' @ to_str otherp)
      else if loose_eq otherp (Str ''Medium'') then Str (''1'' @ to_str otherp)
      else if loose_eq other (Str ''Light'') then Str (''2'' @ to_str otherp)
      else otherp)"

definition row_compare :: "string \<Rightarrow> jsval \<Rightarrow> jsval \<Rightarrow> jsnum" where
  "row_compare property_name one other =
     alphanum (one_sort_key (get_or_undef one property_name))
       (other_sort_key other (get_or_undef other property_name))"

definition sortBy :: "string \<Rightarrow> jsval list \<Rightarrow> jsval list" where
  "sortBy property_name rows = js_sort (row_compare property_name) rows"

text \<open>A row whose property is a label around one number.\<close>

definition labelled_row :: "string \<Rightarrow> string \<Rightarrow> string \<Rightarrow> jsval \<Rightarrow> bool" where
  "labelled_row p pre post row \<longleftrightarrow>
     (\<exists>ps n. row = Obj ps \<and> n \<le> 2 ^ 53 \<and> get_own ps p = Str (label_text pre post n))"

definition row_number :: "string \<Rightarrow> string \<Rightarrow> string \<Rightarrow> jsval \<Rightarrow> nat" where
  "row_number p pre post row = (case get_or_undef row p of
     Str s \<Rightarrow> digits_value 10 (takeWhile is_digit (drop (length pre) s)) | _ \<Rightarrow> 0)"

lemma label_not_weight:
  "label_text pre post n \<noteq> ''Heavy''" "label_text pre post n \<noteq> ''Medium''"
  "label_text pre post n \<noteq> ''Light''"
proof -
  have c: "hd (nat_digits 10 n) \<in> set (nat_digits 10 n)" (is "?c \<in> _") by simp
  have d: "is_digit ?c" "?c \<in> set (label_text pre post n)"
    using nat_digits_is_digit [OF c] c by (simp_all add: label_text_def)
  show "label_text pre post n \<noteq> ''Heavy''" "label_text pre post n \<noteq> ''Medium''"
    "label_text pre post n \<noteq> ''Light''"
    using d by (auto simp: is_digit_def code_def)
qed

lemma row_number_label:
  assumes "plain_text post" and "get_own ps p = Str (label_text pre post n)"
  shows "row_number p pre post (Obj ps) = n"
proof -
  have "takeWhile is_digit (nat_digits 10 n @ post) = nat_digits 10 n"
  proof (cases post)
    case (Cons c cs)
    then have "\<not> is_digit c" using assms(1) by (auto simp: plain_text_def numeric_char_def is_digit_def)
    then show ?thesis by (simp add: Cons takeWhile_append2 nat_digits_is_digit)
  qed (simp add: takeWhile_eq_all_conv nat_digits_is_digit)
  then show ?thesis
    using assms(2) by (simp add: row_number_def get_or_undef_def label_text_def digits_value_nat_digits)
qed

lemma row_compare_labels:
  assumes "plain_text pre" "plain_text post" "labelled_row p pre post a" "labelled_row p pre post b"
  shows "row_compare p a b = num_of_int (int (row_number p pre post a) - int (row_number p pre post b))"
proof -
  obtain ps m where a: "a = Obj ps" "m \<le> 2 ^ 53" "get_own ps p = Str (label_text pre post m)"
    using assms(3) by (auto simp: labelled_row_def)
  obtain qs n where b: "b = Obj qs" "n \<le> 2 ^ 53" "get_own qs p = Str (label_text pre post n)"
    using assms(4) by (auto simp: labelled_row_def)
  have "\<not> loose_eq (Obj qs) (Str ''Light'')"
    by (simp add: loose_eq_def is_nullish_def is_object_def)
  then have "row_compare p a b = alphanum (Str (label_text pre post m)) (Str (label_text pre post n))"
    by (simp add: row_compare_def one_sort_key_def other_sort_key_def get_or_undef_def a b label_not_weight)
  also have "\<dots> = num_of_int (int m - int n)"
    using assms a b by (intro alphanum_labels)
  finally show ?thesis
    using assms a b by (simp add: row_number_label)
qed

text \<open>On such rows the comparator is consistent, so \<open>sort\<close> orders them by their number.\<close>

interpretation label_rows: comparison "row_compare p"
    "\<lambda>row. plain_text pre \<and> plain_text post \<and> labelled_row p pre post row"
  for p pre post
proof -
  have sign: "cmp_pos (num_of_int k) \<longleftrightarrow> 0 < k" "cmp_neg (num_of_int k) \<longleftrightarrow> k < 0" for k
    by simp_all
  show "comparison (row_compare p)
      (\<lambda>row. plain_text pre \<and> plain_text post \<and> labelled_row p pre post row)"
    by unfold_locales (auto simp only: row_compare_labels sign)
qed

section \<open>addIfAbsent and removeIfExists\<close>

text \<open>\<open>indexOf\<close> with the language's strict equality on the elements as \<open>eq\<close>.\<close>

fun array_index_of :: "('a \<Rightarrow> 'a \<Rightarrow> bool) \<Rightarrow> 'a list \<Rightarrow> 'a \<Rightarrow> nat option" where
  "array_index_of eq [] x = None"
| "array_index_of eq (y # ys) x = (if eq y x then Some 0 else map_option Suc (array_index_of eq ys x))"

definition splice_out :: "nat \<Rightarrow> 'a list \<Rightarrow> 'a list" where
  "splice_out i xs = take i xs @ drop (Suc i) xs"

definition addIfAbsent :: "('a \<Rightarrow> 'a \<Rightarrow> bool) \<Rightarrow> 'a \<Rightarrow> 'a list \<Rightarrow> 'a list \<times> bool" where
  "addIfAbsent eq element xs =
     (case array_index_of eq xs element of None \<Rightarrow> (xs @ [element], True) | Some _ \<Rightarrow> (xs, False))"

definition removeIfExists :: "('a \<Rightarrow> 'a \<Rightarrow> bool) \<Rightarrow> 'a \<Rightarrow> 'a list \<Rightarrow> 'a list \<times> bool" where
  "removeIfExists eq element xs =
     (case array_index_of eq xs element of
        Some index \<Rightarrow> (splice_out index xs, True) | None \<Rightarrow> (xs, False))"

lemma array_index_of_None: "array_index_of eq xs x = None \<longleftrightarrow> (\<forall>y \<in> set xs. \<not> eq y x)"
  by (induction xs) auto

lemma array_index_of_eq_Some:
  "array_index_of (=) xs x = Some i \<Longrightarrow> splice_out i xs = remove1 x xs \<and> x \<in> set xs"
  by (induction xs arbitrary: i) (auto simp: splice_out_def split: if_splits)

lemma array_index_of_cong:
  "(\<And>y. y \<in> set xs \<Longrightarrow> eq y x = eq' y x) \<Longrightarrow> array_index_of eq xs x = array_index_of eq' xs x"
  by (induction xs) auto

section \<open>Grouping loses and repeats nothing\<close>

lemma put_prop_update_mset:
  "ordered_keys (keys_of ps) \<Longrightarrow> map_of ps k = Some v \<Longrightarrow>
   mset (concat (map snd (put_prop k (v @ [e]) ps))) = add_mset e (mset (concat (map snd ps)))"
proof (induction ps)
  case (Cons p ps)
  obtain k' v' where p: "p = (k', v')" by (cases p)
  show ?case
  proof (cases "k = k'")
    case True
    then show ?thesis using Cons.prems by (simp add: p)
  next
    case False
    then have m: "map_of ps k = Some v" using Cons.prems by (simp add: p)
    then have "k \<in> set (keys_of ps)"
      by (metis keys_of_def domI dom_map_of_conv_image_fst list.set_map)
    then have "\<not> key_before k k'" and "ordered_keys (keys_of ps)"
      using Cons.prems by (auto simp: ordered_keys_def keys_of_def p)
    then show ?thesis using False m Cons.IH by (simp add: p)
  qed
qed simp

lemma put_prop_new_mset:
  "map_of ps k = None \<Longrightarrow>
   mset (concat (map snd (put_prop k [e] ps))) = add_mset e (mset (concat (map snd ps)))"
  by (induction ps) (auto split: if_splits)

lemma groupBy_mset:
  assumes "groupBy p f es = Inr g"
  shows "mset (concat (map snd g)) = mset es \<and> ordered_keys (keys_of g)"
  using assms
proof (induction es arbitrary: g rule: rev_induct)
  case Nil
  then show ?case by (simp add: groupBy_def keys_of_def)
next
  case (snoc e es)
  from snoc.prems obtain g0 where g0: "groupBy p f es = Inr g0" and push: "group_push p f g0 e = Inr g"
    by (auto simp: groupBy_def fold_res_append bind_res_Inr_iff)
  have IH: "mset (concat (map snd g0)) = mset es" "ordered_keys (keys_of g0)"
    using snoc.IH [OF g0] by auto
  then obtain key where key: "group_key p f e = Inr key"
    using push by (auto simp: group_push_def bind_res_Inr_iff)
  show ?case
  proof (cases "map_of g0 key")
    case None
    then have "g = put_prop key [e] g0"
      using push key by (auto simp: group_push_def split: if_splits)
    then show ?thesis using IH None by (simp add: put_prop_new_mset ordered_keys_put_prop)
  next
    case (Some xs)
    then have "g = put_prop key (xs @ [e]) g0" using push key by (simp add: group_push_def)
    then show ?thesis using IH Some by (simp add: put_prop_update_mset ordered_keys_put_prop)
  qed
qed

lemma groupBy_group: "groupBy p None es = Inr g \<Longrightarrow> (k, ms) \<in> set g \<Longrightarrow> set ms \<subseteq> set es"
proof -
  assume "groupBy p None es = Inr g" and mem: "(k, ms) \<in> set g"
  then have "set (concat (map snd g)) = set es" using groupBy_mset by (metis set_mset_mset)
  then show ?thesis using mem by fastforce
qed

section \<open>Properties\<close>

text \<open>
  C8: whenever \<open>groupBy\<close> returns, the groups are a partition of the array: taken together they
  hold each element as often as the array does, under pairwise different keys.
\<close>

theorem groupBy_partition:
  assumes "groupBy p alias es = Inr g"
  shows "mset (concat (map snd g)) = mset es \<and> distinct (map fst g)"
  using groupBy_mset [OF assms] ordered_keys_distinct by (auto simp: keys_of_def)

theorem groupBy_partition_witness:
  "groupBy ''k'' None [Obj [(''k'', Str ''b'')], Obj [(''k'', Str ''a'')], Obj [(''k'', Str ''b'')]] =
     Inr [(''b'', [Obj [(''k'', Str ''b'')], Obj [(''k'', Str ''b'')]]), (''a'', [Obj [(''k'', Str ''a'')]])] \<and>
   distinct [''b'', ''a'']"
proof -
  have g: "groupBy ''k'' None [Obj [(''k'', Str ''b'')], Obj [(''k'', Str ''a'')], Obj [(''k'', Str ''b'')]] =
     Inr [(''b'', [Obj [(''k'', Str ''b'')], Obj [(''k'', Str ''b'')]]), (''a'', [Obj [(''k'', Str ''a'')]])]"
    by (simp add: groupBy_def group_push_def group_key_def object_proto_keys_def key_before_def
        is_array_index_def is_digit_def code_def)
  then show ?thesis using groupBy_partition [OF g] by simp
qed

text \<open>
  The group under a key is the elements with that key, in the order they stand in the array,
  for elements whose keys are not inherited ones; and \<open>groupBy\<close> then returns.
\<close>

theorem groupBy_groups:
  assumes "groupable p es"
  shows "\<exists>g. groupBy p None es = Inr g \<and> (\<forall>k. map_of g k =
    (if k \<in> key_of p ` set es then Some (filter (\<lambda>e. key_of p e = k) es) else None))"
  using groupBy_ok [OF assms] groupBy_map_of [OF assms] by blast

theorem groupBy_groups_witness:
  "\<exists>g. groupBy ''k'' None [Obj [(''k'', Str ''b'')], Obj [(''k'', Num (Fin 1))]] = Inr g \<and>
     map_of g ''1'' = Some [Obj [(''k'', Num (Fin 1))]]"
proof -
  have one: "num_to_string (Fin 1) = ''1''"
    using num_to_string_int [of 1]
    by (simp add: int_to_string_def nat_digits.simps digit_char_def char_of_def bit_0)
  have "groupable ''k'' [Obj [(''k'', Str ''b'')], Obj [(''k'', Num (Fin 1))]]"
    by (simp add: groupable_def group_key_def object_proto_keys_def one)
  then obtain g where "groupBy ''k'' None [Obj [(''k'', Str ''b'')], Obj [(''k'', Num (Fin 1))]] = Inr g"
    and "map_of g ''1'' = Some (filter (\<lambda>e. key_of ''k'' e = ''1'')
      [Obj [(''k'', Str ''b'')], Obj [(''k'', Num (Fin 1))]])"
    using groupBy_groups by (fastforce simp: one)
  then show ?thesis by (simp add: one)
qed

text \<open>
  An element whose key is one that every object inherits, such as \<open>constructor\<close>, makes
  \<open>groupBy\<close> throw a \<open>TypeError\<close> where the elements before it do not have that key.
\<close>

theorem groupBy_inherited_key:
  assumes "groupable p es" and "group_key p None e = Inr k" and "k \<in> set object_proto_keys"
  shows "groupBy p None (es @ e # rest) = Inl TypeError"
proof -
  obtain g where g: "groupBy p None es = Inr g" using groupBy_ok [OF assms(1)] by blast
  have "k \<notin> key_of p ` set es" using assms(1,3) groupable_key by fastforce
  then have "map_of g k = None" using groupBy_map_of [OF assms(1) g, of k] by simp
  then show ?thesis
    using g assms(2,3) by (simp add: groupBy_def fold_res_append group_push_def)
qed

theorem groupBy_inherited_key_witness:
  "groupBy ''k'' None ([Obj [(''k'', Str ''b'')]] @ Obj [(''k'', Str ''constructor'')] # []) = Inl TypeError"
  by (rule groupBy_inherited_key [where k = "''constructor''"])
    (simp_all add: groupable_def group_key_def object_proto_keys_def)

text \<open>
  \<open>sortBy\<close> on rows whose property is a label around one number puts them in the order of their
  numbers and neither loses nor repeats a row.
\<close>

theorem sortBy_labels:
  assumes "plain_text pre" "plain_text post" "list_all (labelled_row p pre post) rows"
  shows "mset (sortBy p rows) = mset rows \<and>
    sorted (map (row_number p pre post) (sortBy p rows))"
proof -
  have "sorted_wrt (\<lambda>a b. \<not> cmp_pos (row_compare p a b)) (sortBy p rows)"
    unfolding sortBy_def using assms by (intro label_rows.js_sort_sorted [where pre = pre and post = post]) (simp add: list_all_iff)
  moreover have "labelled_row p pre post r" if "r \<in> set (sortBy p rows)" for r
    using that assms(3) by (simp add: sortBy_def set_js_sort list_all_iff)
  ultimately have "sorted_wrt (\<lambda>a b. row_number p pre post a \<le> row_number p pre post b) (sortBy p rows)"
    using assms(1,2) row_compare_labels
    by (elim sorted_wrt_mono_rel [rotated]) (simp add: not_less)
  then show ?thesis by (simp add: sortBy_def mset_js_sort sorted_wrt_map)
qed

theorem sortBy_labels_witness:
  "sorted (map (row_number ''t'' [] '' hrs'')
     (sortBy ''t'' [Obj [(''t'', Str ''10 hrs'')], Obj [(''t'', Str ''9 hrs'')]]))"
proof -
  have l: "''10 hrs'' = label_text [] '' hrs'' 10" "''9 hrs'' = label_text [] '' hrs'' 9"
    by (simp_all add: label_text_def nat_digits.simps digit_char_def char_of_def bit_0)
  have "plain_text []" "plain_text '' hrs''"
    by (simp_all add: plain_text_def numeric_char_def code_def)
  moreover have "list_all (labelled_row ''t'' [] '' hrs'')
      [Obj [(''t'', Str ''10 hrs'')], Obj [(''t'', Str ''9 hrs'')]]"
    unfolding l by (auto simp: labelled_row_def intro: exI [of _ 10] exI [of _ 9])
  ultimately show ?thesis using sortBy_labels by blast
qed

text \<open>
  \<open>addIfAbsent\<close> and \<open>removeIfExists\<close> keep an array free of repetitions; after them the element
  is in the array, or gone from it, every other element is as before, and the result says whether
  the array has changed.
\<close>

theorem add_remove_distinct:
  assumes "distinct xs"
  shows "(case addIfAbsent (=) x xs of (ys, changed) \<Rightarrow>
      distinct ys \<and> set ys = insert x (set xs) \<and> (changed \<longleftrightarrow> ys \<noteq> xs)) \<and>
    (case removeIfExists (=) x xs of (ys, changed) \<Rightarrow>
      distinct ys \<and> set ys = set xs - {x} \<and> (changed \<longleftrightarrow> ys \<noteq> xs))"
proof (cases "array_index_of (=) xs x")
  case None
  then have "x \<notin> set xs" by (auto simp: array_index_of_None)
  then show ?thesis using assms None by (simp add: addIfAbsent_def removeIfExists_def)
next
  case (Some i)
  then have s: "splice_out i xs = remove1 x xs" "x \<in> set xs"
    using array_index_of_eq_Some by fastforce+
  then have "remove1 x xs \<noteq> xs" using assms by (metis distinct_remove1_set Diff_iff singletonI)
  then show ?thesis
    using assms Some s by (auto simp: addIfAbsent_def removeIfExists_def distinct_remove1_set)
qed

theorem add_remove_distinct_witness:
  "fst (addIfAbsent (=) (7::nat) [3, 5]) = [3, 5, 7] \<and> distinct (fst (removeIfExists (=) 3 [3, 5 :: nat]))"
  using add_remove_distinct [of "[3, 5 :: nat]" 3] by (simp add: addIfAbsent_def case_prod_beta)

end
