(* ===== verification/Util_Text.thy ===== *)
theory Util_Text
  imports JS_Math Util_Arrays
begin

text \<open>
  The methods util.js adds to \<open>String.prototype\<close> (\<open>hashCode\<close>, \<open>startsWith\<close>, \<open>contains\<close>,
  \<open>toTitleCase\<close>) and its colour arithmetic \<open>color.increaseBrightness\<close>.
\<close>

section \<open>hashCode\<close>

text \<open>
  One turn of the loop. \<open>hash << 5\<close> is a 32-bit shift; the subtraction and the addition are on
  doubles, exact at these sizes; \<open>hash & hash\<close> wraps the sum to 32 bits.
\<close>

type_synonym int32 = "32 word"

definition hash_step :: "int32 \<Rightarrow> char \<Rightarrow> int32" where
  "hash_step hash ch =
     (let wide = (sint (push_bit 5 hash) - sint hash) + int (code ch);
          hash' = (word_of_int wide :: int32) in and hash' hash')"

definition hashCode :: "string \<Rightarrow> int" where
  "hashCode s = (if length s = 0 then 0 else sint (foldl hash_step 0 s))"

lemma hash_step_eq: "hash_step h c = 31 * h + of_nat (code c)"
proof -
  have "push_bit 5 h = 32 * h" by (simp add: push_bit_eq_mult mult.commute)
  then show ?thesis by (simp add: hash_step_def Let_def)
qed

lemma foldl_hash_step:
  "foldl hash_step h s =
   31 ^ length s * h + (\<Sum>i < length s. 31 ^ (length s - 1 - i) * of_nat (code (s ! i)))"
proof (induction s arbitrary: h)
  case (Cons c s)
  have "(\<Sum>i < length (c # s). 31 ^ (length (c # s) - 1 - i) * of_nat (code ((c # s) ! i))) =
      31 ^ length s * of_nat (code c) +
      (\<Sum>i < length s. 31 ^ (length s - 1 - i) * of_nat (code (s ! i)) :: int32)"
    by (simp add: sum.lessThan_Suc_shift del: sum.lessThan_Suc)
  moreover have "foldl hash_step h (c # s) = 31 ^ length s * (31 * h + of_nat (code c)) +
      (\<Sum>i < length s. 31 ^ (length s - 1 - i) * of_nat (code (s ! i)))"
    by (simp only: foldl.simps Cons.IH hash_step_eq)
  ultimately show ?case by (simp only: length_Cons power_Suc) (simp add: algebra_simps)
qed simp

section \<open>startsWith, contains, toTitleCase\<close>

definition startsWith :: "string \<Rightarrow> string \<Rightarrow> bool" where
  "startsWith s str = (index_of s str = Some 0)"

text \<open>\<open>contains\<close> also logs the pattern and the position it was found at.\<close>

definition contains :: "string \<Rightarrow> string \<Rightarrow> string \<times> bool" where
  "contains s str = (let number = (case index_of s str of None \<Rightarrow> - 1 | Some i \<Rightarrow> int i) in
     (str @ '' '' @ int_to_string 10 number, number \<noteq> - 1))"

lemma startsWith_iff: "startsWith s str \<longleftrightarrow> (\<exists>t. s = str @ t)"
  by (simp add: startsWith_def prefix_def)

lemma contains_iff: "snd (contains s str) \<longleftrightarrow> (\<exists>u v. s = u @ str @ v)"
  using index_of_Some_iff [of s str] by (auto simp: contains_def Let_def split: option.splits)

text \<open>\<open>replace(/\w\S*/g, \<dots>)\<close>: from each word character, the run up to the next white space.\<close>

definition is_word :: "char \<Rightarrow> bool" where
  "is_word c \<longleftrightarrow> is_digit c \<or> 65 \<le> code c \<and> code c \<le> 90 \<or> 97 \<le> code c \<and> code c \<le> 122 \<or> code c = 95"

definition title_word :: "string \<Rightarrow> string" where
  "title_word txt = upper_case (take 1 txt) @ lower_case (drop 1 txt)"

function toTitleCase :: "string \<Rightarrow> string" where
  "toTitleCase [] = []"
| "toTitleCase (c # s) =
     (if is_word c then
        title_word (c # takeWhile (\<lambda>d. \<not> is_ws d) s) @ toTitleCase (dropWhile (\<lambda>d. \<not> is_ws d) s)
      else c # toTitleCase s)"
  by pat_completeness auto
termination
  by (relation "measure length") (auto simp: le_imp_less_Suc length_dropWhile_le)

lemma length_toTitleCase: "length (toTitleCase s) = length s"
proof (induction s rule: toTitleCase.induct)
  case (2 c s)
  have "length (takeWhile (\<lambda>d. \<not> is_ws d) s) + length (dropWhile (\<lambda>d. \<not> is_ws d) s) = length s"
    by (metis length_append takeWhile_dropWhile_id)
  with 2 show ?case by (simp add: title_word_def upper_case_def lower_case_def)
qed simp

section \<open>increaseBrightness\<close>

text \<open>\<open>hex.replace(/^\s*#|\s*$/g, '')\<close>: a leading hash with the white space before it, and the
  white space at the end.\<close>

definition strip_hash :: "string \<Rightarrow> string" where
  "strip_hash hex = (let t = dropWhile is_ws hex;
       body = (if take 1 t = ''#'' then drop 1 t else hex) in
     rev (dropWhile is_ws (rev body)))"

text \<open>\<open>hex.replace(/(.)/g, '$1$1')\<close>: every character but a line terminator is doubled.\<close>

definition double_chars :: "string \<Rightarrow> string" where
  "double_chars hex = concat (map (\<lambda>c. if code c = 10 \<or> code c = 13 then [c] else [c, c]) hex)"

text \<open>\<open>ToInt32\<close>: truncate, and wrap to 32 bits, signed.\<close>

definition to_int32 :: "jsnum \<Rightarrow> int" where
  "to_int32 x =
     (if is_finite x
      then sint (word_of_int (if rat_of x < 0 then \<lceil>rat_of x\<rceil> else \<lfloor>rat_of x\<rfloor>) :: int32)
      else 0)"

text \<open>\<open>((0 | (1 << 8) + r + (256 - r) * percent / 100).toString(16)).substr(1)\<close>.\<close>

definition brighten_value :: "jsnum \<Rightarrow> jsnum \<Rightarrow> int" where
  "brighten_value r percent =
     to_int32 (js_add (js_add (Fin 256) r)
       (js_div (js_mul (js_sub (Fin 256) r) percent) (Fin 100)))"

definition brighten_channel :: "jsnum \<Rightarrow> jsnum \<Rightarrow> string" where
  "brighten_channel r percent = drop 1 (int_to_string 16 (brighten_value r percent))"

definition increaseBrightness :: "string \<Rightarrow> jsnum \<Rightarrow> string" where
  "increaseBrightness hex percent =
     (let hex1 = strip_hash hex;
          hex2 = (if length hex1 = 3 then double_chars hex1 else hex1);
          r = parse_int 16 (substr hex2 0 2);
          g = parse_int 16 (substr hex2 2 2);
          b = parse_int 16 (substr hex2 4 2) in
     ''#'' @ brighten_channel r percent @ brighten_channel g percent @ brighten_channel b percent)"

subsection \<open>The value of a channel\<close>

lemma to_int32_small: "0 \<le> q \<Longrightarrow> q < 2 ^ 31 \<Longrightarrow> to_int32 (Fin q) = \<lfloor>q\<rfloor>"
proof -
  assume q: "0 \<le> q" "q < 2 ^ 31"
  then have "0 \<le> \<lfloor>q\<rfloor>" "\<lfloor>q\<rfloor> < 2 ^ 31" by (simp_all add: floor_less_iff)
  with q show ?thesis
    by (simp add: to_int32_def sint_sbintrunc' signed_take_bit_int_eq_self)
qed

lemma to_double_between:
  assumes "rounded lo = lo" "rounded hi = hi" "lo \<le> q" "q \<le> hi" "0 \<le> lo" "hi < overflow"
  obtains r where "to_double False q = Fin r" and "lo \<le> r" and "r \<le> hi"
proof -
  have r: "lo \<le> rounded q \<and> rounded q \<le> hi" using assms(1-4) by (rule rounded_between)
  have "\<not> overflow \<le> rounded q" "\<not> rounded q \<le> - overflow"
    using r assms(5,6) overflow_pos(1) by linarith+
  then have "to_double False q = Fin (rounded q)"
    using assms(3,5) by (simp add: to_double_def Let_def)
  then show thesis using r that by blast
qed

lemma js_div_nonneg: "0 \<le> x \<Longrightarrow> 0 < y \<Longrightarrow> js_div (Fin x) (Fin y) = to_double False (x / y)"
  by (simp add: js_div_def Let_def)

lemma js_mul_nonneg: "0 \<le> x \<Longrightarrow> 0 \<le> y \<Longrightarrow> js_mul (Fin x) (Fin y) = to_double False (x * y)"
  by (simp add: js_mul_def Let_def)

lemma overflow_gt_int: "n \<le> 2 ^ 53 \<Longrightarrow> of_int n < overflow"
proof -
  assume "n \<le> 2 ^ 53"
  then have "(of_int n :: rat) \<le> of_int (2 ^ 53)" by (simp only: of_int_le_iff)
  also have "\<dots> < overflow" by (simp add: overflow_def)
  finally show ?thesis .
qed

text \<open>The scaled distance to 256 stays below it by more than the rounding can add.\<close>

lemma brighten_sum:
  assumes c: "0 \<le> c" "c \<le> 255" and p: "0 \<le> p" "p \<le> 99"
  obtains v where "js_add (js_add (Fin 256) (num_of_int c))
      (js_div (js_mul (js_sub (Fin 256) (num_of_int c)) (Fin p)) (Fin 100)) = Fin v"
    and "of_int (256 + c) \<le> v" and "v < 512"
proof -
  define k where "k = 256 - c"
  have k: "1 \<le> k" "k \<le> 256" using c by (simp_all add: k_def)
  have sub: "js_sub (Fin 256) (num_of_int c) = num_of_int k"
  proof (cases "c = 0")
    case True
    then show ?thesis using to_double_of_int [of 256] by (simp add: js_sub_def js_add_def js_neg_def k_def)
  next
    case False
    then show ?thesis
      using c to_double_of_int [of k] by (simp add: js_sub_def js_add_def js_neg_def k_def)
  qed
  have "of_int k * p \<le> of_int k * 99"
    using p k by (intro mult_left_mono) simp_all
  then have up: "of_int k * p \<le> of_int (k * 99)" by simp
  have lo: "0 \<le> of_int k * p" using p k by simp
  have rnd: "rounded (of_int (k * 99)) = of_int (k * 99)" using k by (intro rounded_of_int) simp
  have ov: "of_int (k * 99) < overflow" using k by (intro overflow_gt_int) simp
  obtain x where x: "to_double False (of_int k * p) = Fin x" "0 \<le> x" "x \<le> of_int (k * 99)"
    by (rule to_double_between [OF rounded_0 rnd lo up order_refl ov])
  have mul: "js_mul (num_of_int k) (Fin p) = Fin x"
    using p k x(1) by (simp add: js_mul_nonneg)
  define top :: rat where "top = of_int (k * 128 - 1) * 2 powi (- 7)"
  have top: "top = of_int k - 1 / 128" by (simp add: top_def power_int_def field_simps)
  have rtop: "rounded top = top"
    unfolding top_def using k by (intro rounded_exact) auto
  have xtop: "x / 100 \<le> top"
  proof -
    have "x / 100 \<le> of_int k * 99 / 100" using x(3) by simp
    also have "\<dots> \<le> top" using k by (simp add: top field_simps)
    finally show ?thesis .
  qed
  have ovtop: "top < overflow"
    using overflow_gt_int [of k] k by (simp add: top)
  have x0: "0 \<le> x / 100" using x(2) by simp
  obtain y where y: "to_double False (x / 100) = Fin y" "0 \<le> y" "y \<le> top"
    by (rule to_double_between [OF rounded_0 rtop x0 xtop order_refl ovtop])
  have div: "js_div (Fin x) (Fin 100) = Fin y"
    using x(2) y(1) by (simp add: js_div_nonneg)
  have sum: "js_add (Fin 256) (num_of_int c) = num_of_int (256 + c)"
    using c to_double_of_int [of "256 + c"] by (simp add: js_add_def)
  define lim :: rat where "lim = of_int (512 * 128 - 1) * 2 powi (- 7)"
  have lim: "lim = 512 - 1 / 128" by (simp add: lim_def power_int_def field_simps)
  have rlim: "rounded lim = lim" unfolding lim_def by (intro rounded_exact) auto
  have ylim: "of_int (256 + c) + y \<le> lim"
    using y(3) by (simp add: top lim k_def)
  have ovlim: "lim < overflow" using overflow_gt_int [of 512] by (simp add: lim)
  have rlo: "rounded (of_int (256 + c)) = of_int (256 + c)" using c by (intro rounded_of_int) simp
  have y0: "of_int (256 + c) \<le> of_int (256 + c) + y" using y(2) by simp
  have c0: "0 \<le> (of_int (256 + c) :: rat)" using c by simp
  obtain v where v: "to_double False (of_int (256 + c) + y) = Fin v"
      "of_int (256 + c) \<le> v" "v \<le> lim"
    by (rule to_double_between [OF rlo rlim y0 ylim c0 ovlim])
  have "js_add (num_of_int (256 + c)) (Fin y) = Fin v"
    using v(1) by (simp add: js_add_def)
  then show thesis
    using that [of v] v(2,3) by (simp add: sub mul div sum lim)
qed

lemma brighten_value_bounds:
  assumes "0 \<le> c" "c \<le> 255" "0 \<le> p" "p \<le> 99"
  shows "256 + c \<le> brighten_value (num_of_int c) (Fin p)"
    and "brighten_value (num_of_int c) (Fin p) \<le> 511"
proof -
  obtain v where v: "js_add (js_add (Fin 256) (num_of_int c))
      (js_div (js_mul (js_sub (Fin 256) (num_of_int c)) (Fin p)) (Fin 100)) = Fin v"
    "of_int (256 + c) \<le> v" "v < 512"
    using brighten_sum [OF assms] .
  have "0 \<le> v" using assms v(2) by (meson of_int_0_le_iff order_trans add_nonneg_nonneg zero_le_numeral)
  then have "brighten_value (num_of_int c) (Fin p) = \<lfloor>v\<rfloor>"
    using v by (simp add: brighten_value_def to_int32_small)
  moreover have "256 + c \<le> \<lfloor>v\<rfloor>" using v(2) by (simp only: le_floor_iff)
  moreover have "\<lfloor>v\<rfloor> < 512" using v(3) by (simp add: floor_less_iff)
  ultimately show "256 + c \<le> brighten_value (num_of_int c) (Fin p)"
    and "brighten_value (num_of_int c) (Fin p) \<le> 511" by simp_all
qed

text \<open>At a hundred percent every channel becomes 512, whatever it was.\<close>

lemma brighten_value_100:
  assumes "0 \<le> c" "c \<le> 255"
  shows "brighten_value (num_of_int c) (Fin 100) = 512"
proof -
  have dbl: "to_double False (of_int n) = Fin (of_int n)" if "\<bar>n\<bar> \<le> 2 ^ 53" for n
    using that by (rule to_double_of_int)
  have 1: "js_add (Fin 256) (num_of_int c) = num_of_int (256 + c)"
    using assms dbl [of "256 + c"] by (simp add: js_add_def)
  have 2: "js_sub (Fin 256) (num_of_int c) = num_of_int (256 - c)"
    using assms dbl [of "256 - c"] by (cases "c = 0") (simp_all add: js_sub_def js_neg_def js_add_def)
  have 3: "js_mul (num_of_int (256 - c)) (Fin 100) = num_of_int ((256 - c) * 100)"
    using assms dbl [of "(256 - c) * 100"] by (simp add: js_mul_def)
  have 4: "js_div (num_of_int ((256 - c) * 100)) (Fin 100) = num_of_int (256 - c)"
  proof -
    have "(0::rat) \<le> of_int ((256 - c) * 100)" using assms by (simp only: of_int_0_le_iff) simp
    then have "js_div (num_of_int ((256 - c) * 100)) (Fin 100) =
        to_double False (of_int ((256 - c) * 100) / 100)" by (simp only: js_div_nonneg zero_less_numeral)
    also have "of_int ((256 - c) * 100) / (100::rat) = of_int (256 - c)" by simp
    finally show ?thesis using assms dbl [of "256 - c"] by simp
  qed
  have 5: "js_add (num_of_int (256 + c)) (num_of_int (256 - c)) = Fin 512"
    using dbl [of 512] by (simp add: js_add_def)
  show ?thesis
    by (simp only: brighten_value_def 1 2 3 4 5) (simp add: to_int32_small)
qed

subsection \<open>Whole colours\<close>

definition hex2 :: "nat \<Rightarrow> string" where
  "hex2 n = [digit_char (n div 16), digit_char (n mod 16)]"

definition hex_colour :: "nat \<Rightarrow> nat \<Rightarrow> nat \<Rightarrow> string" where
  "hex_colour r g b = ''#'' @ hex2 r @ hex2 g @ hex2 b"

lemma nat_digits_16:
  assumes "x < 16" "y < 16"
  shows "nat_digits 16 (256 + (x * 16 + y)) = [digit_char 1, digit_char x, digit_char y]"
proof -
  have v: "256 + (x * 16 + y) = (16 + x) * 16 + y" by simp
  have 1: "(256 + (x * 16 + y)) div 16 = 16 + x" "(256 + (x * 16 + y)) mod 16 = y"
    using assms(2) unfolding v by (simp_all only: div_mult_self3 mod_mult_self3) simp_all
  have 2: "(16 + x) div 16 = 1" "(16 + x) mod 16 = x"
    using assms by auto
  have 3: "nat_digits 16 1 = [digit_char 1]" by (simp add: nat_digits.simps)
  have 4: "nat_digits 16 (16 + x) = [digit_char 1, digit_char x]"
    by (subst nat_digits.simps) (simp only: 2 3, simp)
  show ?thesis
    by (subst nat_digits.simps) (simp only: 1 4, simp)
qed

lemma hex2_of_value:
  assumes "256 \<le> v" "v \<le> 511"
  shows "drop 1 (nat_digits 16 v) = hex2 (v - 256)"
proof -
  define w where "w = v - 256"
  have v: "v = 256 + (w div 16 * 16 + w mod 16)" and lt: "w div 16 < 16"
    using assms unfolding w_def by auto
  show ?thesis
    by (subst v, subst nat_digits_16) (use lt in \<open>simp_all add: hex2_def w_def\<close>)
qed

lemma brighten_channel_spec:
  assumes "c \<le> 255" "0 \<le> p" "p \<le> 99"
  obtains c' where "brighten_channel (Fin (of_nat c)) (Fin p) = hex2 c'" "c \<le> c'" "c' \<le> 255"
proof -
  define v where "v = brighten_value (num_of_int (int c)) (Fin p)"
  have v: "256 + int c \<le> v" "v \<le> 511"
    using brighten_value_bounds [of "int c" p] assms by (simp_all add: v_def)
  have "brighten_channel (Fin (of_nat c)) (Fin p) = hex2 (nat v - 256)"
    using v hex2_of_value [of "nat v"]
    by (simp add: brighten_channel_def int_to_string_def v_def del: drop_Suc_Cons)
  moreover have "c \<le> nat v - 256" "nat v - 256 \<le> 255" using v by auto
  ultimately show thesis using that by blast
qed

lemma hex_digit_chars:
  assumes "d < 16"
  shows "\<not> is_ws (digit_char d)" "digit_char d \<noteq> CHR ''#''" "digit_char d \<noteq> CHR ''x''"
    "digit_char d \<noteq> CHR ''X''" "digit_char d \<noteq> CHR ''-''" "digit_char d \<noteq> CHR ''+''"
    "is_digit_in 16 (digit_char d)"
proof -
  have c: "code (digit_char d) = (if d < 10 then 48 + d else 87 + d)"
    using assms by (simp add: digit_char_code)
  have ne: "digit_char d \<noteq> x" if "code x \<notin> {48..57} \<union> {97..102}" for x
    using that c assms by (auto split: if_splits)
  show "digit_char d \<noteq> CHR ''#''" "digit_char d \<noteq> CHR ''x''" "digit_char d \<noteq> CHR ''X''"
    "digit_char d \<noteq> CHR ''-''" "digit_char d \<noteq> CHR ''+''"
    by (rule ne; simp add: code_def)+
  show "\<not> is_ws (digit_char d)" using c assms by (auto simp: is_ws_def split: if_splits)
  show "is_digit_in 16 (digit_char d)" using assms by (simp add: is_digit_in_def)
qed

lemma parse_int_hex2: "n \<le> 255 \<Longrightarrow> parse_int 16 (hex2 n) = Fin (of_nat n)"
proof -
  assume n: "n \<le> 255"
  define a b where "a = n div 16" and "b = n mod 16"
  have ab: "a < 16" "b < 16" "a * 16 + b = n" using n by (auto simp: a_def b_def)
  have dbl: "to_double False (of_nat n) = Fin (of_nat n)"
    using to_double_of_int [of "int n"] n by simp
  have val: "digits_value 16 [digit_char a, digit_char b] = n"
    using ab by (simp add: digits_value_def)
  show ?thesis
    using ab hex_digit_chars [OF ab(1)] hex_digit_chars [OF ab(2)]
    by (simp add: parse_int_def hex2_def a_def [symmetric] b_def [symmetric] trim_left_def
        scan_sign_def has_hex_prefix_def val dbl)
qed

lemma strip_hash_colour:
  assumes "r \<le> 255" "g \<le> 255" "b \<le> 255"
  shows "strip_hash (hex_colour r g b) = hex2 r @ hex2 g @ hex2 b"
proof -
  have "\<not> is_ws (CHR ''#'')" by (simp add: is_ws_def code_def)
  moreover have "\<not> is_ws (digit_char (b mod 16))" by (simp add: hex_digit_chars)
  ultimately show ?thesis
    by (simp add: strip_hash_def hex_colour_def hex2_def)
qed

lemma increaseBrightness_colour:
  assumes "r \<le> 255" "g \<le> 255" "b \<le> 255"
  shows "increaseBrightness (hex_colour r g b) percent =
    ''#'' @ brighten_channel (Fin (of_nat r)) percent @ brighten_channel (Fin (of_nat g)) percent @
    brighten_channel (Fin (of_nat b)) percent"
proof -
  have sub: "substr (hex2 r @ hex2 g @ hex2 b) 0 2 = hex2 r"
    "substr (hex2 r @ hex2 g @ hex2 b) 2 2 = hex2 g"
    "substr (hex2 r @ hex2 g @ hex2 b) 4 2 = hex2 b"
    and len: "length (hex2 r @ hex2 g @ hex2 b) = 6"
    by (simp_all add: substr_def hex2_def)
  have six: "((6::nat) = 3) = False" by simp
  show ?thesis
    unfolding increaseBrightness_def Let_def strip_hash_colour [OF assms] len
    using assms by (simp only: six if_False sub parse_int_hex2)
qed

section \<open>Properties\<close>

text \<open>
  \<open>hashCode\<close> is the polynomial hash with base 31 in 32-bit arithmetic, whatever the length of
  the text, and its value is a signed 32-bit number.
\<close>

theorem hashCode_polynomial:
  "(word_of_int (hashCode s) :: int32) = (\<Sum>i < length s. 31 ^ (length s - 1 - i) * of_nat (code (s ! i))) \<and>
   - (2 ^ 31) \<le> hashCode s \<and> hashCode s < 2 ^ 31"
proof -
  have "foldl hash_step 0 s = (\<Sum>i < length s. 31 ^ (length s - 1 - i) * of_nat (code (s ! i)))"
    using foldl_hash_step [of 0 s] by simp
  moreover have "- (2 ^ 31) \<le> sint w \<and> sint w < 2 ^ 31" for w :: int32
    using sint_ge [of w] sint_lt [of w] by simp
  ultimately show ?thesis by (cases s) (simp_all add: hashCode_def)
qed

text \<open>
  Up to 99 percent, \<open>increaseBrightness\<close> of a six-digit colour is a six-digit colour, and no
  channel of it is darker than before.
\<close>

theorem increaseBrightness_lighter:
  assumes "r \<le> 255" "g \<le> 255" "b \<le> 255" "0 \<le> p" "p \<le> 99"
  shows "\<exists>r' g' b'. increaseBrightness (hex_colour r g b) (Fin p) = hex_colour r' g' b' \<and>
    r \<le> r' \<and> r' \<le> 255 \<and> g \<le> g' \<and> g' \<le> 255 \<and> b \<le> b' \<and> b' \<le> 255"
proof -
  obtain r' where "brighten_channel (Fin (of_nat r)) (Fin p) = hex2 r'" "r \<le> r'" "r' \<le> 255"
    using brighten_channel_spec [OF assms(1,4,5)] by blast
  moreover obtain g' where "brighten_channel (Fin (of_nat g)) (Fin p) = hex2 g'" "g \<le> g'" "g' \<le> 255"
    using brighten_channel_spec [OF assms(2,4,5)] by blast
  moreover obtain b' where "brighten_channel (Fin (of_nat b)) (Fin p) = hex2 b'" "b \<le> b'" "b' \<le> 255"
    using brighten_channel_spec [OF assms(3,4,5)] by blast
  ultimately show ?thesis
    using increaseBrightness_colour [OF assms(1-3)] by (auto simp: hex_colour_def)
qed

theorem increaseBrightness_lighter_witness:
  "\<exists>r' g' b'. increaseBrightness (hex_colour 51 102 204) (Fin 50) = hex_colour r' g' b' \<and>
    51 \<le> r' \<and> r' \<le> 255 \<and> 102 \<le> g' \<and> g' \<le> 255 \<and> 204 \<le> b' \<and> b' \<le> 255"
  using increaseBrightness_lighter [of 51 102 204 50] by simp

text \<open>
  At 100 percent \<open>increaseBrightness\<close> turns every colour black: each channel reaches 512,
  whose numeral loses its leading 2.
\<close>

theorem increaseBrightness_full:
  assumes "r \<le> 255" "g \<le> 255" "b \<le> 255"
  shows "increaseBrightness (hex_colour r g b) (Fin 100) = ''#000000''"
proof -
  have n: "nat_digits 16 512 = ''200''"
    by (simp add: nat_digits.simps digit_char_def char_of_def bit_0)
  have c: "brighten_channel (Fin (of_nat c)) (Fin 100) = ''00''" if "c \<le> 255" for c
    using brighten_value_100 [of "int c"] that by (simp add: brighten_channel_def int_to_string_def n)
  show ?thesis by (simp add: increaseBrightness_colour assms c)
qed

theorem increaseBrightness_full_witness:
  "increaseBrightness (hex_colour 255 255 255) (Fin 100) = ''#000000''"
  by (rule increaseBrightness_full) simp_all

text \<open>
  \<open>startsWith\<close> and \<open>contains\<close> decide whether the text begins with the pattern, or has it
  anywhere, and \<open>toTitleCase\<close> keeps the length of the text.
\<close>

theorem text_methods:
  "(startsWith s str \<longleftrightarrow> (\<exists>t. s = str @ t)) \<and> (snd (contains s str) \<longleftrightarrow> (\<exists>u v. s = u @ str @ v)) \<and>
   length (toTitleCase s) = length s"
  using startsWith_iff contains_iff length_toTitleCase by blast

end
