(* ===== verification/Util_Convert.thy ===== *)
theory Util_Convert
  imports Util_Text
begin

text \<open>
  The unit conversions and printers of util.js (\<open>convert\<close>), its requests and paths, and its two
  geometric helpers. The JSON printer, the JSON reader, the HTTP request and the square root are
  the platform's: they are arguments of the definitions that use them.
\<close>

section \<open>Numbers\<close>

definition nanosecondToMillisecond :: "jsval \<Rightarrow> jsval" where
  "nanosecondToMillisecond nanoseconds = Num (js_div (to_num nanoseconds) (Fin 1000000))"

definition secondToHour :: "jsval \<Rightarrow> jsval" where
  "secondToHour seconds = Num (js_div (to_num seconds) (Fin 3600))"

definition byteToGigabyte :: "jsval \<Rightarrow> jsval" where
  "byteToGigabyte bytes = Num (js_div (to_num bytes) (Fin 1073741824))"

definition toPercent :: "jsval \<Rightarrow> jsval" where
  "toPercent number = Num (js_mul (to_num number) (Fin 100))"

section \<open>Durations and intervals\<close>

definition timeUnitToShortTimeUnit :: "string \<Rightarrow> string" where
  "timeUnitToShortTimeUnit time_unit =
     (if time_unit = ''NANOSECONDS'' then ''ns''
      else if time_unit = ''MICROSECONDS'' then ''micros''
      else if time_unit = ''MILLISECONDS'' then ''ms''
      else if time_unit = ''SECONDS'' then ''s''
      else if time_unit = ''MINUTES'' then ''mins''
      else if time_unit = ''HOURS'' then ''hrs''
      else if time_unit = ''DAYS'' then ''days''
      else time_unit)"

text \<open>A string method called on a value that is no string throws.\<close>

definition as_string :: "jsval \<Rightarrow> string res" where
  "as_string v = (case v of Str s \<Rightarrow> Inr s | _ \<Rightarrow> Inl TypeError)"

text \<open>The literal \<open>9223372036854775807\<close> is the double \<open>2 ^ 63\<close>.\<close>

definition long_max :: jsnum where
  "long_max = Fin 9223372036854775808"

definition durationToString :: "jsval \<Rightarrow> string res" where
  "durationToString duration =
     bind_res (get_prop duration ''timeUnit'') (\<lambda>unit.
     bind_res (as_string unit) (\<lambda>unit_text.
     bind_res (get_prop duration ''length'') (\<lambda>length.
       let time_unit = upper_case unit_text in
       if loose_eq length (Num long_max) then Inr ''Infinite''
       else if loose_eq length (int_val 0) then Inr ''None''
       else Inr (to_str length @ '' '' @ timeUnitToShortTimeUnit time_unit))))"

definition intervalsToString :: "(jsval \<Rightarrow> string) \<Rightarrow> jsval \<Rightarrow> string res" where
  "intervalsToString stringify intervals =
     bind_res (get_prop intervals ''name'') (\<lambda>name.
     if loose_eq name (Str ''OscillatingExponentialInterval'') then
       bind_res (bind_res (get_prop intervals ''minMean'') durationToString) (\<lambda>min.
       bind_res (bind_res (get_prop intervals ''maxMean'') durationToString) (\<lambda>max.
       bind_res (bind_res (get_prop intervals ''cycleLength'') durationToString) (\<lambda>cycle.
         Inr (''Oscillating Exponential(min: '' @ min @ '', max: '' @ max @ '', cycle: '' @ cycle @ '')''))))
     else if loose_eq name (Str ''FixedExponentialInterval'') then
       bind_res (bind_res (get_prop intervals ''mean'') durationToString) (\<lambda>mean.
         Inr (''Exponential(mean: '' @ mean @ '')''))
     else if loose_eq name (Str ''ConstantIntervalGenerator'') then
       bind_res (get_prop intervals ''constantInterval'') durationToString
     else Inr (stringify intervals))"

definition workloadToString :: "(jsval \<Rightarrow> string) \<Rightarrow> jsval \<Rightarrow> string res" where
  "workloadToString stringify workload =
     bind_res (bind_res (get_prop workload ''intervals'') (intervalsToString stringify)) (\<lambda>intervals.
       Inr (if intervals = ''Infinite'' then ''None'' else intervals))"

definition churnToString :: "(jsval \<Rightarrow> string) \<Rightarrow> jsval \<Rightarrow> string res" where
  "churnToString stringify churn =
     bind_res (bind_res (get_prop churn ''sessionLength'') (intervalsToString stringify)) (\<lambda>session.
     bind_res (bind_res (get_prop churn ''downtime'') (intervalsToString stringify)) (\<lambda>down.
       Inr (''session length: '' @ session @ '', down time: '' @ down)))"

section \<open>Maintenance\<close>

text \<open>\<open>/scenario_batch(4|5|6|7|8|9)_.*/\<close> found anywhere in the text.\<close>

definition batch_match :: "string \<Rightarrow> bool" where
  "batch_match s = list_ex (\<lambda>t. take 14 t = ''scenario_batch'' \<and>
     (case drop 14 t of d # u # _ \<Rightarrow> 52 \<le> code d \<and> code d \<le> 57 \<and> u = CHR ''_'' | _ \<Rightarrow> False))
     (suffixes s)"

text \<open>The name of the clusterer as the evolutionary branch prints it.\<close>

definition evolutionary_clusterer :: "jsval \<Rightarrow> jsval \<Rightarrow> string res" where
  "evolutionary_clusterer clusterer scenario =
     (if clusterer = Undefined then Inr ''None[small-space]''
      else if loose_eq clusterer (Str ''PFClustClusterer'') then
        bind_res (get_prop scenario ''name'') (\<lambda>name.
        bind_res (as_string name) (\<lambda>scenario_name.
          Inr (if batch_match scenario_name then to_str clusterer @ ''Optimised'' else to_str clusterer)))
      else Inr (to_str clusterer))"

definition cycle_duration :: "jsval \<Rightarrow> string res" where
  "cycle_duration maintenance =
     bind_res (get_prop maintenance ''evolutionCycleLengthUnit'') (\<lambda>unit.
     bind_res (get_prop maintenance ''evolutionCycleLength'') (\<lambda>length.
       durationToString (Obj [(''timeUnit'', unit), (''length'', length)])))"

definition maintenanceToString :: "(jsval \<Rightarrow> string) \<Rightarrow> jsval \<Rightarrow> jsval \<Rightarrow> string res" where
  "maintenanceToString stringify maintenance scenario =
     bind_res (get_prop maintenance ''name'') (\<lambda>name.
     if loose_eq name (Str ''Maintenance'') then
       bind_res (get_prop maintenance ''strategy'') (\<lambda>strategy.
         if is_nullish strategy then Inr ''None''
         else bind_res (get_prop strategy ''name'') (\<lambda>v. Inr (to_str v)))
     else if loose_eq name (Str ''EvolutionaryMaintenance'') then
       bind_res (get_prop maintenance ''populationSize'') (\<lambda>population.
       bind_res (get_prop maintenance ''eliteCount'') (\<lambda>elite.
       bind_res (get_prop maintenance ''mutationProbability'') (\<lambda>mutation.
       bind_res (cycle_duration maintenance) (\<lambda>trial.
       bind_res (get_prop maintenance ''clustererName'') (\<lambda>clusterer.
       bind_res (evolutionary_clusterer clusterer scenario) (\<lambda>clusterer_text.
         Inr (''Evolutionary(population size: '' @ to_str population @
           '', elite count: '' @ to_str elite @
           '', mutation prob.: '' @ to_str mutation @
           '', trial length: '' @ trial @
           '', clusterer: '' @ clusterer_text @ '')'')))))))
     else if loose_eq name (Str ''RandomMaintenance'') then
       bind_res (get_prop maintenance ''populationSize'') (\<lambda>population.
       bind_res (cycle_duration maintenance) (\<lambda>trial.
       bind_res (get_prop maintenance ''clustererName'') (\<lambda>clusterer.
         Inr (''RandomSearch(population size: '' @ to_str population @
           '', trial length: '' @ trial @
           '', clusterer: '' @ (if clusterer = Undefined then ''OLD'' else to_str clusterer) @ '')''))))
     else Inr (stringify maintenance))"

section \<open>Requests and paths\<close>

text \<open>A synchronous GET: the status and the body the server answers. Failures are logged.\<close>

type_synonym http = "string \<Rightarrow> int \<times> string"

definition read_url :: "http \<Rightarrow> string \<Rightarrow> string \<times> string list" where
  "read_url http url = (let (status, response_text) = http url in
     if status = 200 then (response_text, []) else ('''', [''failed to load '' @ url]))"

definition readAsJSON :: "http \<Rightarrow> (string \<Rightarrow> jsval res) \<Rightarrow> string \<Rightarrow> jsval res" where
  "readAsJSON http parse_json url = parse_json (fst (read_url http url))"

definition resultsPath :: string where
  "resultsPath = ''../../../../../results/''"

definition scenarioJSONPath :: "string \<Rightarrow> string" where
  "scenarioJSONPath scenario_name = resultsPath @ scenario_name @ ''/scenario.json''"

definition repetitionsJSONPath :: "string \<Rightarrow> string" where
  "repetitionsJSONPath scenario_name = resultsPath @ scenario_name @ ''/repetitions/repetitions.json''"

definition analysisPath :: "string \<Rightarrow> string \<Rightarrow> string" where
  "analysisPath scenario_name file_name = resultsPath @ scenario_name @ ''/analysis/'' @ file_name"

section \<open>Geometry\<close>

text \<open>
  What \<open>resizeElementHeight\<close> reads of the window: the inner height, and for the document body
  the height of its parent element and its own.
\<close>

record viewport =
  innerHeight :: jsnum
  bodyHeights :: "(jsnum \<times> jsnum) option"

definition resizeElementHeight :: "viewport \<Rightarrow> jsnum \<Rightarrow> string res" where
  "resizeElementHeight window offsetTop =
     (let style = (\<lambda>height. num_to_string (js_sub (js_sub height offsetTop) (Fin 50)) @ ''px'') in
      if truthy (Num (innerHeight window)) then Inr (style (innerHeight window))
      else (case bodyHeights window of
          None \<Rightarrow> Inl TypeError
        | Some (parent, own) \<Rightarrow>
            if truthy (Num parent) then Inr (style parent)
            else if truthy (Num own) then Inr (style own)
            else Inr (style (Fin 0))))"

definition euclideanDistance :: "(jsnum \<Rightarrow> jsnum) \<Rightarrow> jsnum list \<Rightarrow> jsnum list \<Rightarrow> jsnum res" where
  "euclideanDistance math_sqrt p1 p2 =
     (if length p1 \<noteq> length p2 then Inl (Thrown ''unequal pint lengths'')
      else Inr (math_sqrt (foldl (\<lambda>acc (a, b). let dp = js_sub a b in js_add acc (js_mul dp dp))
        (Fin 0) (zip p1 p2))))"

section \<open>Facts\<close>

text \<open>Squaring a difference does not depend on its direction.\<close>

lemma rat_of_to_double: "is_finite (to_double s q) \<Longrightarrow> rat_of (to_double s q) = rounded q"
  by (cases q rule: to_double_cases)
    (simp_all add: to_double_PInf to_double_NInf to_double_finite)

lemma js_mul_self:
  assumes "is_finite x"
  shows "js_mul x x = to_double False (rat_of x * rat_of x)"
  using assms by (cases x) (auto simp: js_mul_def)

lemma js_sub_square_swap: "js_mul (js_sub a b) (js_sub a b) = js_mul (js_sub b a) (js_sub b a)"
proof (cases "is_finite a \<and> is_finite b")
  case True
  obtain s t where ab: "js_sub a b = to_double s (rat_of a - rat_of b)"
    and ba: "js_sub b a = to_double t (rat_of b - rat_of a)"
    using js_sub_finite True by meson
  have neg: "rounded (rat_of b - rat_of a) = - rounded (rat_of a - rat_of b)"
    using rounded_minus [of "rat_of a - rat_of b"] by simp
  show ?thesis
  proof (cases "rat_of a - rat_of b" rule: to_double_cases)
    case 1
    then show ?thesis using neg
      by (simp add: ab ba to_double_PInf to_double_NInf js_mul_def signed_inf_def)
  next
    case 2
    then have "overflow \<le> rounded (rat_of b - rat_of a)" using neg by simp
    with 2 show ?thesis
      by (simp add: ab ba to_double_PInf to_double_NInf js_mul_def signed_inf_def)
  next
    case 3
    then have "\<bar>rounded (rat_of b - rat_of a)\<bar> < overflow" using neg by simp
    with 3 show ?thesis
      by (simp add: ab ba js_mul_self to_double_finite neg)
  qed
next
  case False
  then show ?thesis
    by (cases a; cases b) (auto simp: js_sub_def js_add_def js_neg_def js_mul_def signed_inf_def)
qed

lemma euclid_sum_swap:
  "length p1 = length p2 \<Longrightarrow>
   foldl (\<lambda>acc (a, b). let dp = js_sub a b in js_add acc (js_mul dp dp)) z (zip p1 p2) =
   foldl (\<lambda>acc (a, b). let dp = js_sub a b in js_add acc (js_mul dp dp)) z (zip p2 p1)"
proof (induction p1 p2 arbitrary: z rule: list_induct2)
  case (Cons x xs y ys)
  then show ?case by (simp add: Let_def js_sub_square_swap [of x y])
qed simp

text \<open>A duration whose unit is text always prints.\<close>

lemma durationToString_ok:
  "get_own d ''timeUnit'' = Str u \<Longrightarrow> \<exists>s. durationToString (Obj d) = Inr s"
  by (simp add: durationToString_def as_string_def Let_def)

lemma batch_match_append: "batch_match s \<Longrightarrow> batch_match (pre @ s)"
  by (induction pre) (auto simp: batch_match_def)

section \<open>Properties\<close>

text \<open>
  The unit conversions keep the order of the values they convert, for all numbers including
  infinities.
\<close>

theorem conversions_monotone:
  assumes "num_le x y"
  shows "num_le (to_num (nanosecondToMillisecond (Num x))) (to_num (nanosecondToMillisecond (Num y))) \<and>
    num_le (to_num (secondToHour (Num x))) (to_num (secondToHour (Num y))) \<and>
    num_le (to_num (byteToGigabyte (Num x))) (to_num (byteToGigabyte (Num y)))"
  using js_div_mono [OF assms]
  by (simp add: nanosecondToMillisecond_def secondToHour_def byteToGigabyte_def to_num_def)

theorem conversions_monotone_witness:
  "num_le (to_num (secondToHour (Num (Fin 3600)))) (to_num (secondToHour (Num PInf)))"
  using conversions_monotone [of "Fin 3600" PInf] by (simp add: num_le_PInf)

text \<open>
  A duration whose unit is text always prints: as \<open>Infinite\<close> for the length that stands for
  it, as \<open>None\<close> for 0, and else as its length and the short name of its unit.
\<close>

theorem durationToString_prints:
  assumes "get_own d ''timeUnit'' = Str u" and "get_own d ''length'' = Num n"
  shows "durationToString (Obj d) = Inr (if num_eq n long_max then ''Infinite''
    else if num_eq n (Fin 0) then ''None''
    else num_to_string n @ '' '' @ timeUnitToShortTimeUnit (upper_case u))"
proof -
  have "loose_eq (Num n) (Num k) = num_eq n k" for k
    by (simp add: loose_eq_def is_nullish_def is_object_def to_num_def)
  then show ?thesis by (simp add: durationToString_def as_string_def assms Let_def)
qed

theorem durationToString_prints_witness:
  "durationToString (Obj [(''timeUnit'', Str ''hours''), (''length'', Num (Fin 24))]) = Inr ''24 hrs''"
proof -
  have "num_to_string (Fin 24) = ''24''"
    using num_to_string_int [of 24]
    by (simp add: int_to_string_def nat_digits.simps digit_char_def char_of_def bit_0)
  moreover have "upper_case ''hours'' = ''HOURS''"
    by (simp add: upper_case_def upper_char_def code_def char_of_def bit_0)
  ultimately show ?thesis
    using durationToString_prints [of "[(''timeUnit'', Str ''hours''), (''length'', Num (Fin 24))]"
        "''hours''" "Fin 24"]
    by (simp add: long_max_def timeUnitToShortTimeUnit_def)
qed

text \<open>
  \<open>euclideanDistance\<close> throws exactly when the two points have different dimensions, and it does
  not matter which point comes first, in double arithmetic with its roundings.
\<close>

theorem euclideanDistance_symmetric:
  "((\<exists>d. euclideanDistance math_root p1 p2 = Inr d) \<longleftrightarrow> length p1 = length p2) \<and>
   euclideanDistance math_root p1 p2 = euclideanDistance math_root p2 p1"
  using euclid_sum_swap [of p1 p2 "Fin 0"] by (auto simp: euclideanDistance_def)

end
