(* ===== verification/Themes.thy ===== *)
theory Themes
  imports JQuery_Extend Util_Convert
begin

text \<open>
  The chart themes: theme.js (the defaults every chart shares and \<open>extend\<close>) and
  metric_themes.js (the customisation of each metric and the table of extended themes). Functions
  stored in a theme are known by their names and run by \<open>call_convert\<close>.
\<close>

section \<open>theme.js\<close>

definition theme :: props where
  "theme = [
    (''colours'', Arr [Str ''#3366cc'', Str ''#dc3912'', Str ''#ff9900'', Str ''#109618'', Str ''#990099'',
      Str ''#0099c6'', Str ''#dd4477'', Str ''#66aa00'', Str ''#b82e2e'', Str ''#316395'',
      Str ''#994499'', Str ''#22aa99'', Str ''#aaaa11'', Str ''#6633cc'', Str ''#e67300'',
      Str ''#8b0707'', Str ''#651067'', Str ''#329262'', Str ''#5574a6'', Str ''#3b3eac'',
      Str ''#b77322'', Str ''#16d620'', Str ''#b91383'', Str ''#f4359e'', Str ''#9c5935'',
      Str ''#a9c413'', Str ''#2a778d'', Str ''#668d1c'', Str ''#bea413'', Str ''#0c5922'',
      Str ''#743411'']),
    (''chart'', Obj [
      (''type'', Str ''line''),
      (''zoomType'', Str ''xy''),
      (''onePerMatch'', Boolean False),
      (''plotBorderWidth'', int_val 1),
      (''plotBorderColor'', Str ''black'')]),
    (''title'', Obj [(''text'', Null)]),
    (''exporting'', Obj [
      (''chartOptions'', Obj [
        (''title'', Obj [(''text'', Null)]),
        (''chart'', Obj [
          (''style'', Obj [
            (''fontSize'', Str ''10pt''),
            (''fontFamily'', Str ([CHR 0x22] @ ''Frutiger Light Condensed'' @ [CHR 0x22] @ '', sans-serif''))])])]),
      (''sourceWidth'', int_val 500),
      (''sourceHeight'', int_val 350)]),
    (''legend'', Obj [
      (''itemStyle'', Obj [
        (''color'', Str ''black''),
        (''fontWeight'', Str ''normal''),
        (''fontSize'', Str ''10pt'')]),
      (''align'', Str ''right''),
      (''verticalAlign'', Str ''top''),
      (''layout'', Str ''vertical''),
      (''backgroundColor'', Str ''white''),
      (''borderWidth'', int_val 1),
      (''floating'', Boolean True),
      (''draggable'', Boolean True),
      (''zIndex'', int_val 20),
      (''x'', int_val (- 20)),
      (''y'', int_val 20)]),
    (''plotOptions'', Obj [
      (''line'', Obj [(''marker'', Obj [(''enabled'', Boolean False)])]),
      (''arearange'', Obj [(''showInLegend'', Boolean False)]),
      (''series'', Obj [(''animation'', Boolean False), (''turboThreshold'', int_val 100)])]),
    (''tooltip'', Obj [
      (''headerFormat'', Str ''<b>{series.name}</b><br>''),
      (''pointFormat'', Str ''X: {point.x:.2f} , Y: {point.y:.2f}'')]),
    (''xAxis'', Obj [
      (''lineColor'', Str ''black''),
      (''tickWidth'', int_val 0),
      (''title'', Obj [
        (''text'', Str ''Time Through Experiment (Hours)''),
        (''style'', Obj [
          (''color'', Str ''black''),
          (''fontWeight'', Str ''normal''),
          (''fontSize'', Str ''10pt'')])]),
      (''labels'', Obj [
        (''style'', Obj [
          (''color'', Str ''black''),
          (''fontWeight'', Str ''normal''),
          (''fontSize'', Str ''10pt'')])]),
      (''min'', int_val 0)]),
    (''yAxis'', Obj [
      (''min'', int_val 0),
      (''title'', Obj [
        (''style'', Obj [
          (''color'', Str ''black''),
          (''fontWeight'', Str ''normal''),
          (''fontSize'', Str ''10pt'')])]),
      (''labels'', Obj [
        (''style'', Obj [
          (''color'', Str ''black''),
          (''fontWeight'', Str ''normal''),
          (''fontSize'', Str ''10pt'')])])]),
    (''series'', Arr []),
    (''credits'', Obj [(''enabled'', Boolean False)]),
    (''convert'', Obj [(''y'', Undefined), (''x'', Undefined)]),
    (''extend'', Func ''theme.extend'')]"

text \<open>
  \<open>extend\<close>: the theme it is called on is copied into a fresh object, merged into the copy once
  more, and the child merged into that.
\<close>

definition theme_extend :: "props \<Rightarrow> jsval \<Rightarrow> props" where
  "theme_extend this child =
     (let clone = extend_deep [] (Obj this);
          clone' = extend_deep clone (Obj this)
      in extend_deep clone' child)"

section \<open>metric_themes.js\<close>

definition customisations_1 :: props where
  "customisations_1 = [
    (''event_completion_rate'', Obj [
      (''title'', Str ''Event Completion Rate''),
      (''yAxis'', Obj [(''title'', Obj [(''text'', Str ''Number of Events Executed Per Second'')])])]),
    (''lookup_correctness_ratio'', Obj [
      (''title'', Str ''Percentage of Unsuccessful Lookups''),
      (''convert'', Obj [(''y'', Func ''lookup_correctness_ratio.convert.y'')]),
      (''yAxis'', Obj [
        (''title'', Obj [(''text'', Str ''Percentage of Unsuccessful Lookups'')]),
        (''min'', int_val 0),
        (''max'', int_val 100)])]),
    (''available_peer_counter'', Obj [
      (''title'', Str ''Network Size''),
      (''yAxis'', Obj [(''title'', Obj [(''text'', Str ''Number of Available Peers'')])])]),
    (''event_execution_duration_timer'', Obj [
      (''title'', Str ''Event Execution Duration Timer''),
      (''yAxis'', Obj [(''title'', Obj [(''text'', Str ''Mean Event Execution Completion Time (ms)'')])])]),
    (''event_execution_lag_sampler'', Obj [
      (''title'', Str ''Event Execution Lag''),
      (''yAxis'', Obj [(''title'', Obj [(''text'', Str ''Event Execution Lag (ms)'')])])]),
    (''event_executor_queue_size'', Obj [
      (''title'', Str ''Event Executor Queue Size''),
      (''yAxis'', Obj [(''title'', Obj [(''text'', Str ''Number of Events Queued by Executor'')])])]),
    (''event_scheduling_rate'', Obj [
      (''title'', Str ''Event Scheduling Rate''),
      (''yAxis'', Obj [(''title'', Obj [(''text'', Str ''Number of Events Scheduled for Execution'')])])]),
    (''join_failure_rate'', Obj [
      (''title'', Str ''Join Failure Rate''),
      (''yAxis'', Obj [(''title'', Obj [(''text'', Str ''Number of Failed Joins'')])])]),
    (''join_success_rate'', Obj [
      (''title'', Str ''Join Success Rate''),
      (''yAxis'', Obj [(''title'', Obj [(''text'', Str ''Number of Successful Joins'')])])]),
    (''lookup_correctness_delay_timer'', Obj [
      (''title'', Str ''Lookup Correctness Delay''),
      (''convert'', Obj [(''y'', Func ''util.convert.nanosecondToMillisecond'')]),
      (''yAxis'', Obj [(''title'', Obj [(''text'', Str ''Mean Correct Lookup Delay (ms)'')])])]),
    (''lookup_correctness_hop_count_sampler'', Obj [
      (''title'', Str ''Lookup Correctness Hop Count''),
      (''yAxis'', Obj [(''title'', Obj [(''text'', Str ''Mean Correct Lookup Hop Count'')])])]),
    (''lookup_correctness_rate'', Obj [
      (''title'', Str ''Lookup Correctness Rate''),
      (''chart'', Obj [(''type'', Str ''line'')]),
      (''yAxis'', Obj [(''title'', Obj [(''text'', Str ''Number of Correct Lookups Per Second'')])])])]"

definition customisations_2 :: props where
  "customisations_2 = [
    (''lookup_correctness_retry_count_sampler'', Obj [
      (''title'', Str ''Lookup Correctness Retry Count''),
      (''yAxis'', Obj [(''title'', Obj [(''text'', Str ''Mean Correct Lookup Retry Count'')])])]),
    (''lookup_execution_rate'', Obj [
      (''title'', Str ''Lookup Execution Rate''),
      (''yAxis'', Obj [(''title'', Obj [(''text'', Str ''Number of Lookups Executed Per Second'')])])]),
    (''lookup_failure_delay_timer'', Obj [
      (''title'', Str ''Lookup Failure Delay''),
      (''yAxis'', Obj [(''title'', Obj [(''text'', Str ''Mean Failed Lookup Delay (ms)'')])])]),
    (''lookup_failure_hop_count_sampler'', Obj [
      (''title'', Str ''Lookup Failure Hop Count''),
      (''yAxis'', Obj [(''title'', Obj [(''text'', Str ''Mean Failed Lookup Hop Count'')])])]),
    (''lookup_failure_rate'', Obj [
      (''title'', Str ''Lookup Failure Rate''),
      (''yAxis'', Obj [(''title'', Obj [(''text'', Str ''Number of Failed Lookups per Second'')])])]),
    (''lookup_failure_retry_count_sampler'', Obj [
      (''title'', Str ''Lookup Failure Retry Count''),
      (''yAxis'', Obj [(''title'', Obj [(''text'', Str ''Mean Failed Lookup Retry Count'')])])]),
    (''lookup_incorrectness_delay_timer'', Obj [
      (''title'', Str ''Lookup Incorrectness Delay Timer''),
      (''chart'', Obj [(''type'', Str ''line'')]),
      (''yAxis'', Obj [(''title'', Obj [(''text'', Str ''Mean Incorrect Lookup Delay (ms)'')])])]),
    (''lookup_incorrectness_hop_count_sampler'', Obj [
      (''title'', Str ''Lookup Incorrectness hop Count Sampler''),
      (''chart'', Obj [(''type'', Str ''line'')]),
      (''yAxis'', Obj [(''title'', Obj [(''text'', Str ''Mean Incorrect Lookup Hop Count'')])])]),
    (''lookup_incorrectness_rate'', Obj [
      (''title'', Str ''Lookup Incorrectness Rate''),
      (''chart'', Obj [(''type'', Str ''line'')]),
      (''yAxis'', Obj [(''title'', Obj [(''text'', Str ''Number of Incorrect Lookups Per Second'')])])]),
    (''lookup_incorrectness_retry_count_sampler'', Obj [
      (''title'', Str ''Lookup Incorrectness Retry Count Sampler''),
      (''chart'', Obj [(''type'', Str ''line'')]),
      (''yAxis'', Obj [(''title'', Obj [(''text'', Str ''Mean Incorrect Lookup Retry Count'')])])]),
    (''memory_usage_gauge'', Obj [
      (''title'', Str ''JVM Heap + Non-heap Memory Usage''),
      (''convert'', Obj [(''y'', Func ''util.convert.byteToGigabyte'')]),
      (''yAxis'', Obj [(''title'', Obj [(''text'', Str ''Heap and Non-heap Memory usage (GB)'')])])]),
    (''peer_arrival_rate'', Obj [
      (''title'', Str ''Peer Arrival Rate''),
      (''chart'', Obj [(''type'', Str ''line'')]),
      (''yAxis'', Obj [(''title'', Obj [(''text'', Str ''Number of Peers Arrived Per Second'')])])])]"

definition customisations_3 :: props where
  "customisations_3 = [
    (''peer_departure_rate'', Obj [
      (''title'', Str ''Peer Departure Rate''),
      (''chart'', Obj [(''type'', Str ''line'')]),
      (''yAxis'', Obj [(''title'', Obj [(''text'', Str ''Number of Peers Departed Per Second'')])])]),
    (''queue_size_gauge'', Obj [
      (''title'', Str ''Generated Events Queue Size''),
      (''chart'', Obj [(''type'', Str ''line'')]),
      (''yAxis'', Obj [(''title'', Obj [(''text'', Str ''Number of Generated Events'')])])]),
    (''reachable_state_size_per_alive_peer_gauge'', Obj [
      (''title'', Str ''State Size: Reachable per Alive Peer''),
      (''chart'', Obj [(''type'', Str ''line'')]),
      (''yAxis'', Obj [(''title'', Obj [(''text'', Str ''Number of Reachable State Per Alive Peer'')])])]),
    (''sent_bytes_rate'', Obj [
      (''title'', Str ''Sent Bytes Rate''),
      (''yAxis'', Obj [(''title'', Obj [(''text'', Str ''Bytes Sent Per Second'')])])]),
    (''sent_bytes_per_alive_peer_per_second_gauge'', Obj [
      (''title'', Str ''Sent Bytes Per Alive Peer Per Second''),
      (''yAxis'', Obj [(''title'', Obj [(''text'', Str ''Bytes Sent Per Alive Peer Per Second'')])])]),
    (''rpc_error_rate'', Obj [
      (''title'', Str ''RPC Error Rate Per Second''),
      (''yAxis'', Obj [(''title'', Obj [(''text'', Str ''RPC Error Rate Per Second'')])])]),
    (''reconfiguration_rate'', Obj [
      (''title'', Str ''Reconfiguration Rate Per Second''),
      (''yAxis'', Obj [(''title'', Obj [(''text'', Str ''Reconfiguration Rate Per Second'')])])]),
    (''system_load_average_gauge'', Obj [
      (''title'', Str ''JVM System Load Average Over One Minute''),
      (''yAxis'', Obj [(''title'', Obj [(''text'', Str ''Load Average Over One Minute'')])])]),
    (''thread_count_gauge'', Obj [
      (''title'', Str ''JVM Alive Thread Count''),
      (''chart'', Obj [(''type'', Str ''line'')]),
      (''yAxis'', Obj [(''title'', Obj [(''text'', Str ''Number of Alive Threads'')])])]),
    (''thread_cpu_usage_gauge'', Obj [
      (''title'', Str ''JVM Thread CPU Usage''),
      (''convert'', Obj [(''y'', Func ''util.convert.toPercent'')]),
      (''yAxis'', Obj [
        (''title'', Obj [(''text'', Str ''% of CPU Time Consumed By Threads'')]),
        (''min'', int_val 0),
        (''max'', int_val 100)])]),
    (''state_correctness_counter'', Obj [
      (''title'', Str ''Routing State Correctness''),
      (''convert'', Obj [(''y'', Func ''util.convert.toPercent'')]),
      (''yAxis'', Obj [
        (''title'', Obj [(''text'', Str ''% of Correct Routing Entries'')]),
        (''min'', int_val 0),
        (''max'', int_val 100)])])]"

definition customisations_4 :: props where
  "customisations_4 = [
    (''state_completeness_counter'', Obj [
      (''title'', Str ''Routing State Completeness''),
      (''convert'', Obj [(''y'', Func ''util.convert.toPercent'')]),
      (''yAxis'', Obj [
        (''title'', Obj [(''text'', Str ''% of Routing State Completeness'')]),
        (''min'', int_val 0),
        (''max'', int_val 100)])]),
    (''gc_cpu_usage_gauge'', Obj [
      (''title'', Str ''JVM GC CPU Usage''),
      (''convert'', Obj [(''y'', Func ''util.convert.toPercent'')]),
      (''yAxis'', Obj [
        (''title'', Obj [(''text'', Str ''% of CPU Time Consumed By GC'')]),
        (''min'', int_val 0)])]),
    (''unreachable_state_size_per_alive_peer_gauge'', Obj [
      (''title'', Str ''State Size: Unreachable per Alive Peer''),
      (''yAxis'', Obj [(''title'', Obj [(''text'', Str ''Number of Unreachable State Per Alive Peer'')])])]),
    (''evolutionary_maintenance_cluster_count_sampler'', Obj [
      (''title'', Str ''Evolutionary Maintenance: Number of Environment Clusters''),
      (''yAxis'', Obj [(''title'', Obj [(''text'', Str ''Number of Environment Clusters'')])])]),
    (''evolutionary_maintenance_cluster_size_sampler'', Obj [
      (''title'', Str ''Evolutionary Maintenance: Size of Environment Clusters''),
      (''yAxis'', Obj [(''title'', Obj [(''text'', Str ''Mean Size of Environment Clusters'')])])]),
    (''strategy_action_size_sampler'', Obj [
      (''title'', Str ''Evolutionary Maintenance: Strategy Action Size''),
      (''yAxis'', Obj [(''title'', Obj [(''text'', Str ''Mean Strategy Action Size'')])])]),
    (''strategy_uniformity_sampler'', Obj [
      (''title'', Str ''Evolutionary Maintenance: Strategy Uniformity''),
      (''yAxis'', Obj [
        (''title'', Obj [(''text'', Str ''Mean Number of identical strategies across peers'')])])]),
    (''generated_strategy_uniformity_sampler'', Obj [
      (''title'', Str ''Evolutionary Maintenance: Generated Strategy Uniformity''),
      (''yAxis'', Obj [
        (''title'', Obj [(''text'', Str ''Mean Number of identical generated strategies across peers'')])])]),
    (''evolutionary_maintenance_fitness_sampler'', Obj [
      (''title'', Str ''Evolutionary Maintenance: Fitness''),
      (''yAxis'', Obj [(''title'', Obj [(''text'', Str ''Fitness'')])])]),
    (''evolutionary_maintenance_normalized_fitness_sampler'', Obj [
      (''title'', Str ''Evolutionary Maintenance: Normalised Fitness''),
      (''yAxis'', Obj [(''title'', Obj [(''text'', Str ''Normalised Fitness'')])])]),
    (''evolutionary_maintenance_weighted_fitness_sampler'', Obj [
      (''title'', Str ''Evolutionary Maintenance: Weighted Fitness''),
      (''yAxis'', Obj [(''title'', Obj [(''text'', Str ''Weighted Fitness'')])])])]"

definition customisations :: props where
  "customisations = customisations_1 @ customisations_2 @ customisations_3 @ customisations_4"

text \<open>The loop over the keys of \<open>customisations\<close>.\<close>

definition extended_themes :: "props \<Rightarrow> props \<Rightarrow> props" where
  "extended_themes base custom =
     foldl (\<lambda>themes (key, c). put_prop key (Obj (theme_extend base c)) themes) [] custom"

definition metric_themes :: props where
  "metric_themes = extended_themes theme customisations"

text \<open>The functions the themes hold under \<open>convert.y\<close>.\<close>

definition lookup_correctness_percent :: "jsval \<Rightarrow> jsval" where
  "lookup_correctness_percent v = toPercent (Num (js_sub (Fin 1) (to_num v)))"

definition call_convert :: "string \<Rightarrow> jsval \<Rightarrow> jsval res" where
  "call_convert f v =
     (if f = ''util.convert.nanosecondToMillisecond'' then Inr (nanosecondToMillisecond v)
      else if f = ''util.convert.byteToGigabyte'' then Inr (byteToGigabyte v)
      else if f = ''util.convert.toPercent'' then Inr (toPercent v)
      else if f = ''lookup_correctness_ratio.convert.y'' then Inr (lookup_correctness_percent v)
      else Inl TypeError)"

section \<open>Facts\<close>

lemma rounded_numeral_simps:
  "(numeral k :: int) \<le> 2 ^ 53 \<Longrightarrow> rounded (numeral k) = numeral k"
  "(numeral k :: int) \<le> 2 ^ 53 \<Longrightarrow> (numeral k :: rat) < overflow"
  "rounded 1 = 1" "1 < overflow"
  using rounded_of_int [of "numeral k"] rounded_of_int [of 1] overflow_gt_int [of "numeral k"]
    overflow_gt_int [of 1] by simp_all

lemma not_index_head: "\<not> is_digit c \<Longrightarrow> \<not> is_array_index (c # s)"
  by (simp add: is_array_index_def)

lemma ordered_keys_names:
  "list_all (\<lambda>k. \<not> is_array_index k) ks \<Longrightarrow> ordered_keys ks \<longleftrightarrow> distinct ks"
  by (induction ks) (auto simp: ordered_keys_def list_all_iff key_before_def)

lemma put_prop_new_name:
  "\<not> is_array_index k \<Longrightarrow> k \<notin> fst ` set ps \<Longrightarrow> put_prop k v ps = ps @ [(k, v)]"
  by (induction k v ps rule: put_prop.induct) (auto simp: key_before_def)

lemmas wf_eval = ordered_keys_names is_array_index_def is_digit_def code_def rounded_numeral_simps

lemma wf_theme: "wf_val (Obj theme)"
  by (simp add: theme_def wf_eval)

lemma wf_customisations_1: "list_all (\<lambda>p. wf_val (snd p)) customisations_1"
  by (simp add: customisations_1_def wf_eval)

lemma wf_customisations_2: "list_all (\<lambda>p. wf_val (snd p)) customisations_2"
  by (simp add: customisations_2_def wf_eval)

lemma wf_customisations_3: "list_all (\<lambda>p. wf_val (snd p)) customisations_3"
  by (simp add: customisations_3_def wf_eval)

lemma wf_customisations_4: "list_all (\<lambda>p. wf_val (snd p)) customisations_4"
  by (simp add: customisations_4_def wf_eval)

lemma wf_customisations: "list_all (\<lambda>p. wf_val (snd p)) customisations"
  by (simp add: customisations_def wf_customisations_1 wf_customisations_2 wf_customisations_3
      wf_customisations_4)

text \<open>The metric names are pairwise distinct and none is an array index.\<close>

lemma metric_names:
  "list_all (\<lambda>p. \<not> is_array_index (fst p)) customisations" "distinct (map fst customisations)"
  by (simp_all add: customisations_def customisations_1_def customisations_2_def
      customisations_3_def customisations_4_def is_array_index_def is_digit_def code_def)

text \<open>
  What a customisation may set: a title, the chart type, the axis, and a conversion that
  \<open>call_convert\<close> knows.
\<close>

definition known_functions :: "string list" where
  "known_functions = [''util.convert.nanosecondToMillisecond'', ''util.convert.byteToGigabyte'',
     ''util.convert.toPercent'', ''lookup_correctness_ratio.convert.y'']"

definition convert_ok :: "jsval \<Rightarrow> bool" where
  "convert_ok v = (case v of Undefined \<Rightarrow> True
     | Obj [(k, Func f)] \<Rightarrow> k = ''y'' \<and> f \<in> set known_functions | _ \<Rightarrow> False)"

definition custom_ok :: "jsval \<Rightarrow> bool" where
  "custom_ok c = (case c of
     Obj ps \<Rightarrow> set (map fst ps) \<subseteq> {''title'', ''chart'', ''convert'', ''yAxis''} \<and>
       (\<exists>t. get_own ps ''title'' = Str t) \<and> convert_ok (get_own ps ''convert'')
   | _ \<Rightarrow> False)"

lemma customs_ok: "list_all (\<lambda>p. custom_ok (snd p)) customisations"
  by (simp add: customisations_def customisations_1_def customisations_2_def
      customisations_3_def customisations_4_def custom_ok_def convert_ok_def known_functions_def)

text \<open>The loop appends one entry per name.\<close>

lemma extended_themes_map:
  "list_all (\<lambda>p. \<not> is_array_index (fst p)) custom \<Longrightarrow> distinct (map fst custom) \<Longrightarrow>
   extended_themes base custom = map (\<lambda>(k, c). (k, Obj (theme_extend base c))) custom"
proof (induction custom rule: rev_induct)
  case Nil
  then show ?case by (simp add: extended_themes_def)
next
  case (snoc p custom)
  obtain k c where p: "p = (k, c)" by (cases p)
  have IH: "extended_themes base custom = map (\<lambda>(k, c). (k, Obj (theme_extend base c))) custom"
    using snoc by simp
  have "k \<notin> fst ` set (extended_themes base custom)"
    using snoc.prems(2) by (auto simp: IH p image_iff)
  moreover have "extended_themes base (custom @ [p]) =
      put_prop k (Obj (theme_extend base c)) (extended_themes base custom)"
    by (simp add: extended_themes_def p)
  ultimately show ?case
    using snoc.prems(1) by (simp add: put_prop_new_name IH p)
qed

lemma metric_themes_lookup:
  "get_own metric_themes m = (case map_of customisations m of
     None \<Rightarrow> Undefined | Some c \<Rightarrow> Obj (theme_extend theme c))"
proof -
  have "map_of (map (\<lambda>(k, c). (k, Obj (theme_extend theme c))) cs) m =
      map_option (\<lambda>c. Obj (theme_extend theme c)) (map_of cs m)" for cs
    by (induction cs) auto
  then show ?thesis
    by (simp add: get_own_def metric_themes_def extended_themes_map [OF metric_names] split: option.split)
qed

text \<open>A theme extended with a well-formed child is the clone of the theme with the child on top.\<close>

definition theme_clone :: props where
  "theme_clone = extend_props [] theme"

lemma theme_extend_Obj: "theme_extend theme (Obj c) = extend_props theme_clone c"
  using options.clone_twice [of theme] wf_theme
  by (simp add: theme_extend_def extend_deep_def theme_clone_def Let_def)

lemma theme_extend_nothing: "theme_extend theme Undefined = theme_clone"
  using options.clone_twice [of theme] wf_theme
  by (simp add: theme_extend_def extend_deep_def theme_clone_def Let_def)

lemma wf_theme_clone: "wf_val (Obj theme_clone)"
  unfolding theme_clone_def by (rule options.wf_layer [OF options.wf_emp wf_theme])

lemma get_own_theme_clone:
  "get_own theme_clone k = (let v = get_own theme k in
     if v = Undefined then Undefined else extend_value Undefined v)"
  using wf_theme unfolding theme_clone_def
  by (simp add: get_own_extend_props ordered_keys_distinct Let_def)

lemma extend_elems_texts: "extend_elems [] (map Str ws) = map Str ws"
  by (induction ws) (simp_all add: Let_def)

lemma theme_colours: "\<exists>ws. get_own theme ''colours'' = Arr (map Str ws)"
proof -
  have "list_all (\<lambda>v. \<exists>s. v = Str s) vs \<Longrightarrow> \<exists>ws. vs = map Str ws" for vs
    by (induction vs) (auto intro: exI [of _ "_ # _"] simp: Cons_eq_map_conv)
  moreover have "\<exists>vs. get_own theme ''colours'' = Arr vs \<and> list_all (\<lambda>v. \<exists>s. v = Str s) vs"
    by (simp add: theme_def)
  ultimately show ?thesis by blast
qed

lemma theme_clone_colours: "get_own theme_clone ''colours'' = get_own theme ''colours''"
  using theme_colours by (auto simp: get_own_theme_clone Let_def elems_or_empty_def extend_elems_texts)

lemma custom_member:
  assumes "map_of customisations m = Some c"
  obtains ps where "c = Obj ps" and "wf_val (Obj ps)" and "custom_ok (Obj ps)"
proof -
  have mem: "(m, c) \<in> set customisations" using assms by (rule map_of_SomeD)
  then have "custom_ok c" "wf_val c"
    using customs_ok wf_customisations by (auto simp: list_all_iff)
  then show thesis using that by (cases c) (auto simp: custom_ok_def)
qed

section \<open>Properties\<close>

text \<open>
  Every metric with a customisation has a theme of its own, which is well formed, holds the
  colours of the base theme, and agrees with a plain clone of the base theme on every key its
  customisation does not give.
\<close>

theorem metric_theme_inherits:
  assumes "map_of customisations m = Some c"
  shows "\<exists>t. get_own metric_themes m = Obj t \<and> wf_val (Obj t) \<and>
    get_own t ''colours'' = get_own theme ''colours'' \<and>
    (\<forall>k. get_or_undef c k = Undefined \<longrightarrow> get_own t k = get_own (theme_extend theme Undefined) k)"
proof -
  obtain ps where c: "c = Obj ps" and wf: "wf_val (Obj ps)" and ok: "custom_ok (Obj ps)"
    using assms by (rule custom_member)
  have d: "distinct (map fst ps)" using wf by (simp add: ordered_keys_distinct)
  have t: "theme_extend theme c = extend_props theme_clone ps" by (simp only: c theme_extend_Obj)
  have "wf_val (Obj (theme_extend theme c))"
    unfolding t by (rule options.wf_layer [OF wf_theme_clone wf])
  moreover have keep: "get_own (theme_extend theme c) k = get_own theme_clone k"
    if "get_own ps k = Undefined" for k
    using that unfolding t by (simp add: get_own_extend_props [OF d] Let_def)
  moreover have "get_own ps ''colours'' = Undefined"
  proof -
    have "''colours'' \<notin> set (map fst ps)" using ok by (auto simp: custom_ok_def)
    then have "map_of ps ''colours'' = None" by (simp add: map_of_eq_None_iff)
    then show ?thesis by (simp add: get_own_def)
  qed
  ultimately show ?thesis
    using assms theme_clone_colours
    by (simp add: metric_themes_lookup theme_extend_nothing c get_or_undef_def)
qed

theorem metric_theme_inherits_witness:
  "\<exists>t. get_own metric_themes ''event_completion_rate'' = Obj t \<and>
     get_own t ''colours'' = get_own theme ''colours''"
proof -
  have "map_of customisations ''event_completion_rate'' \<noteq> None"
    by (simp add: customisations_def customisations_1_def)
  then show ?thesis using metric_theme_inherits by blast
qed

end
