(* ===== verification/Scope.thy ===== *)
theory Scope
  imports Themes
begin

text \<open>
  scope.js: the state the dashboard shares between its modules, and \<open>renderer\<close>, which reads the
  results of the matching scenarios and draws the chart of the chosen data type. What the code
  takes from outside (the server's files, the CSV parser, the window) is a \<open>platform\<close>, an
  argument of the definitions; what it does to the page is a list of page operations.
\<close>

section \<open>State and environment\<close>

text \<open>
  \<open>csv_rows text typed\<close> is \<open>Papa.parse(text, {header: true, dynamicTyping: typed}).data\<close>, and
  \<open>chart_of options\<close> the chart object that the charting library makes from its options.
\<close>

record platform =
  server :: http
  csv_rows :: "string \<Rightarrow> bool \<Rightarrow> jsval list"
  window :: viewport
  chart_list_offset :: jsnum
  chart_of :: "props \<Rightarrow> jsval"

record scope =
  metrics :: "jsval list"
  scenarios :: "jsval list"
  metric :: jsval
  matches :: "jsval list"
  chart :: jsval
  data_type :: string

text \<open>Operations on the page, each one call of the page's library.\<close>

datatype dom_op =
    SetHash string
  | SetText string jsval
  | SetHtml string string
  | RemoveClass string string
  | AddClass string string
  | AddParentClass string string
  | CheckBox string
  | SetHeight string string
  | DrawChart props
  | LogLine string

definition read_csv :: "platform \<Rightarrow> bool \<Rightarrow> string \<Rightarrow> jsval list" where
  "read_csv pl typed url = csv_rows pl (fst (read_url (server pl) url)) typed"

text \<open>The module's initial state, with its two tables loaded.\<close>

definition initial_scope :: "platform \<Rightarrow> scope" where
  "initial_scope pl = \<lparr>metrics = read_csv pl False (resultsPath @ ''metrics.csv''),
     scenarios = read_csv pl False (resultsPath @ ''scenarios.csv''),
     metric = Obj [], matches = [], chart = Obj [], data_type = ''overtime''\<rparr>"

definition show_matches :: "jsval list \<Rightarrow> jsval \<Rightarrow> scope \<Rightarrow> scope" where
  "show_matches ms mt s = s\<lparr>matches := ms, metric := mt\<rparr>"

section \<open>Choosing and applying a theme\<close>

text \<open>
  \<open>metric_themes[this.metric.name]\<close>, or the default theme where that is \<open>undefined\<close>. A name that
  every object inherits finds the inherited function.
\<close>

definition chosen_theme :: "jsval \<Rightarrow> jsval res" where
  "chosen_theme mt = bind_res (get_prop mt ''name'') (\<lambda>name.
     let key = to_str name; found = get_own metric_themes key in
     if found \<noteq> Undefined then Inr found
     else if key \<in> set object_proto_keys then Inr (Func key)
     else Inr (Obj theme))"

text \<open>\<open>if (themm.convert != undefined && themm.convert.y != undefined) y = themm.convert.y(y)\<close>.\<close>

definition apply_convert :: "jsval \<Rightarrow> jsval \<Rightarrow> jsval res" where
  "apply_convert themm y = (let conv = get_or_undef themm ''convert'' in
     if is_nullish conv then Inr y
     else bind_res (get_prop conv ''y'') (\<lambda>f.
       if is_nullish f then Inr y
       else (case f of Func name \<Rightarrow> call_convert name y | _ \<Rightarrow> Inl TypeError)))"

text \<open>\<open>themm.extend(chart_config)\<close>.\<close>

definition call_extend :: "jsval \<Rightarrow> jsval \<Rightarrow> props res" where
  "call_extend themm child = (case themm of
     Obj ps \<Rightarrow> (if get_own ps ''extend'' = Func ''theme.extend'' then Inr (theme_extend ps child)
       else Inl TypeError)
   | _ \<Rightarrow> Inl TypeError)"

text \<open>\<open>y == 'NaN' ? 0 : y\<close>.\<close>

definition nan_to_zero :: "jsval \<Rightarrow> jsval" where
  "nan_to_zero y = (if loose_eq y (Str ''NaN'') then int_val 0 else y)"

definition palette :: "nat \<Rightarrow> jsval" where
  "palette index = (case get_own theme ''colours'' of
     Arr cs \<Rightarrow> (case list_at cs index of None \<Rightarrow> Undefined | Some c \<Rightarrow> c) | _ \<Rightarrow> Undefined)"

section \<open>The chart over time\<close>

text \<open>
  The columns of a metric's file depend on its type: four tests, one after the other, of which at
  most one holds. \<open>None\<close> leaves the value \<open>undefined\<close>.
\<close>

definition column_prefix :: "jsval \<Rightarrow> string option" where
  "column_prefix type =
     (if loose_eq type (Str ''Sampler'') \<or> loose_eq type (Str ''Timer'') then Some ''overall''
      else if loose_eq type (Str ''Rate'') then Some ''rate''
      else if loose_eq type (Str ''Counter'') then Some ''counter''
      else if loose_eq type (Str ''Gauge'') then Some ''value''
      else None)"

definition read_column :: "jsval \<Rightarrow> jsval \<Rightarrow> string \<Rightarrow> jsval res" where
  "read_column type record sfx = (case column_prefix type of
     None \<Rightarrow> Inr Undefined | Some pre \<Rightarrow> get_prop record (pre @ sfx))"

definition record_hour :: "jsval \<Rightarrow> jsval res" where
  "record_hour record = bind_res (get_prop record ''time'') (\<lambda>time.
     Inr (secondToHour (Num (js_mul (to_num time) (Fin 10)))))"

definition mean_point :: "jsval \<Rightarrow> jsval \<Rightarrow> jsval \<Rightarrow> jsval res" where
  "mean_point themm type record =
     bind_res (record_hour record) (\<lambda>x.
     bind_res (read_column type record ''_mean'') (\<lambda>y.
     bind_res (apply_convert themm (nan_to_zero y)) (\<lambda>y'.
       Inr (Arr [x, y']))))"

definition interval_point :: "jsval \<Rightarrow> jsval \<Rightarrow> jsval \<Rightarrow> jsval res" where
  "interval_point themm type record =
     bind_res (record_hour record) (\<lambda>x.
     bind_res (read_column type record ''_ci_lower'') (\<lambda>lower.
     bind_res (read_column type record ''_ci_upper'') (\<lambda>upper.
     bind_res (apply_convert themm lower) (\<lambda>lower'.
     bind_res (apply_convert themm upper) (\<lambda>upper'.
       Inr (Arr [x, lower', upper']))))))"

text \<open>The path of a result file of a match for the current metric.\<close>

definition result_path :: "jsval \<Rightarrow> jsval \<Rightarrow> string \<Rightarrow> string res" where
  "result_path mt match sfx =
     bind_res (get_prop match ''name'') (\<lambda>match_name.
     bind_res (get_prop mt ''name'') (\<lambda>metric_name.
       Inr (analysisPath (to_str match_name) (to_str metric_name @ sfx))))"

text \<open>The two series of one match: its means and the range around them.\<close>

definition overtime_series :: "platform \<Rightarrow> jsval \<Rightarrow> jsval \<Rightarrow> nat \<times> jsval \<Rightarrow> jsval list res" where
  "overtime_series pl mt themm = (\<lambda>(index, match).
     bind_res (result_path mt match ''_over_time.csv'') (\<lambda>path.
     bind_res (get_prop mt ''type'') (\<lambda>type.
     let data = read_csv pl True path in
     bind_res (map_res (mean_point themm type) data) (\<lambda>means.
     bind_res (map_res (interval_point themm type) data) (\<lambda>intervals.
     bind_res (get_prop match ''churn'') (\<lambda>churn.
     bind_res (get_prop match ''name'') (\<lambda>name.
       Inr [Obj [(''name'', churn), (''data'', Arr means), (''zIndex'', int_val 1),
              (''lineWidth'', int_val 1), (''color'', palette index)],
            Obj [(''name'', churn), (''type'', Str ''arearange''), (''data'', Arr intervals),
              (''fillOpacity'', Num (to_double False (3 / 10))), (''zIndex'', int_val 0),
              (''lineWidth'', int_val 0), (''linkedTo'', name), (''color'', palette index)]])))))))"

definition overtime_config :: "platform \<Rightarrow> jsval \<Rightarrow> jsval \<Rightarrow> jsval list \<Rightarrow> jsval res" where
  "overtime_config pl mt themm ms =
     bind_res (map_res (overtime_series pl mt themm) (List.enumerate 0 ms)) (\<lambda>series.
       Inr (Obj [(''series'', Arr (concat series))]))"

section \<open>The charts of overall values\<close>

definition group_by :: string where
  "group_by = ''churn''"

text \<open>The point and the interval of one match, from the first row of its file.\<close>

definition overall_point :: "platform \<Rightarrow> jsval \<Rightarrow> jsval \<Rightarrow> string \<Rightarrow> jsval \<Rightarrow> (jsval \<times> jsval) res" where
  "overall_point pl mt themm sfx match =
     bind_res (result_path mt match sfx) (\<lambda>path.
     let data = (case list_at (read_csv pl True path) 0 of None \<Rightarrow> Undefined | Some r \<Rightarrow> r) in
     bind_res (get_prop data ''mean'') (\<lambda>mean.
     bind_res (get_prop data ''ci_lower'') (\<lambda>lower.
     bind_res (get_prop data ''ci_upper'') (\<lambda>upper.
     bind_res (apply_convert themm (nan_to_zero mean)) (\<lambda>y.
     bind_res (apply_convert themm lower) (\<lambda>lower'.
     bind_res (apply_convert themm upper) (\<lambda>upper'.
     bind_res (bind_res (get_prop match group_by) as_string) (\<lambda>label.
       Inr (Obj [(''name'', Str (replace_first label '' hrs'' '''')), (''y'', y)],
            Arr [lower', upper'])))))))))"

text \<open>
  The two series of one group of matches: the points, and the error bars linked to them by id.
  \<open>title_suffix\<close>, \<open>id_suffix\<close> and \<open>shift\<close> tell the two passes of the training chart apart.
\<close>

definition group_series :: "platform \<Rightarrow> jsval \<Rightarrow> jsval \<Rightarrow> string \<Rightarrow> string \<Rightarrow> string \<Rightarrow> nat \<Rightarrow>
    nat \<times> string \<times> jsval list \<Rightarrow> jsval list res" where
  "group_series pl mt themm sfx title_suffix id_suffix shift = (\<lambda>(index, key, matches_by).
     bind_res (map_res (overall_point pl mt themm sfx) (sortBy group_by matches_by)) (\<lambda>ps.
       Inr [Obj [(''name'', Str (key @ title_suffix)), (''id'', Str (key @ id_suffix)),
              (''data'', Arr (map fst ps)), (''lineWidth'', int_val 1),
              (''color'', palette (index + shift)), (''dashStyle'', Str ''dot'')],
            Obj [(''type'', Str ''errorbar''), (''data'', Arr (map snd ps)),
              (''linkedTo'', Str (key @ id_suffix)), (''color'', palette (index + shift))]]))"

definition category_config :: "jsval list \<Rightarrow> jsval" where
  "category_config series = Obj
     [(''chart'', Obj [(''type'', Str ''scatter'')]),
      (''xAxis'', Obj [(''type'', Str ''category''),
         (''title'', Obj [(''text'', Str (toTitleCase (replace_first group_by ''_'' '' '') @
            (if group_by = ''training_duration'' then '' (Hours)'' else '''')))])]),
      (''series'', Arr series)]"

definition overall_suffix :: "string \<Rightarrow> string" where
  "overall_suffix dtype = ''_overall'' @ (if dtype = ''btraining'' then ''_before_training''
     else if dtype = ''atraining'' then ''_after_training'' else '''') @ ''.csv''"

definition overall_config :: "platform \<Rightarrow> jsval \<Rightarrow> jsval \<Rightarrow> string \<Rightarrow> jsval list \<Rightarrow> jsval res" where
  "overall_config pl mt themm dtype ms =
     (let sfx = overall_suffix dtype in bind_res (groupBy ''peer_configuration'' None ms) (\<lambda>by_peer_configuration.
     bind_res (map_res (group_series pl mt themm sfx '''' '''' 0)
         (List.enumerate 0 by_peer_configuration)) (\<lambda>series.
       Inr (category_config (concat series)))))"

text \<open>
  The chart before and after training: the groups are read twice. The first pass has sorted the
  arrays of the groups in place when the second sorts them again.
\<close>

definition training_config :: "platform \<Rightarrow> jsval \<Rightarrow> jsval \<Rightarrow> jsval list \<Rightarrow> jsval res" where
  "training_config pl mt themm ms =
     bind_res (groupBy ''peer_configuration'' None ms) (\<lambda>by_peer_configuration.
     bind_res (map_res (group_series pl mt themm ''_overall_before_training.csv''
         '' During Training'' '''' 0) (List.enumerate 0 by_peer_configuration)) (\<lambda>during.
     let sorted_groups = map (\<lambda>(key, matches_by). (key, sortBy group_by matches_by))
         by_peer_configuration in
     bind_res (map_res (group_series pl mt themm ''_overall_after_training.csv''
         '' After Training'' ''2'' 2) (List.enumerate 0 sorted_groups)) (\<lambda>after.
       Inr (category_config (concat during @ concat after)))))"

section \<open>The renderer\<close>

definition chart_config :: "platform \<Rightarrow> scope \<Rightarrow> jsval \<Rightarrow> jsval res" where
  "chart_config pl s themm =
     (if data_type s = ''overtime'' then overtime_config pl (metric s) themm (matches s)
      else if data_type s \<in> {''overall'', ''btraining'', ''atraining''} then
        overall_config pl (metric s) themm (data_type s) (matches s)
      else if data_type s = ''batraining'' then training_config pl (metric s) themm (matches s)
      else Inr Undefined)"

definition chart_options :: "platform \<Rightarrow> scope \<Rightarrow> props res" where
  "chart_options pl s =
     bind_res (chosen_theme (metric s)) (\<lambda>themm.
     bind_res (chart_config pl s themm) (\<lambda>config. call_extend themm config))"

text \<open>
  The page title is set only where the merged title has a text. An exception leaves the chart as
  it was.
\<close>

definition title_ops :: "props \<Rightarrow> dom_op list" where
  "title_ops merged = (let title = get_own merged ''title'' in
     if is_nullish title then []
     else (case get_prop title ''text'' of
         Inr text \<Rightarrow> if is_nullish text then [] else [SetText ''#main_title'' title]
       | Inl _ \<Rightarrow> []))"

definition renderer :: "platform \<Rightarrow> scope \<Rightarrow> scope \<times> dom_op list \<times> unit res" where
  "renderer pl s = (case chart_options pl s of
     Inl e \<Rightarrow> (s, [], Inl e)
   | Inr merged \<Rightarrow> (s\<lparr>chart := chart_of pl merged\<rparr>, title_ops merged @ [DrawChart merged], Inr ()))"

section \<open>Facts\<close>

text \<open>
  A theme the renderer can use: an object whose \<open>extend\<close> is the theme's method and whose
  \<open>convert.y\<close> is missing or one of the functions known.
\<close>

definition usable_theme :: "props \<Rightarrow> bool" where
  "usable_theme ps \<longleftrightarrow> get_own ps ''extend'' = Func ''theme.extend'' \<and>
     (case get_own ps ''convert'' of
        Obj cs \<Rightarrow> get_own cs ''y'' = Undefined \<or> (\<exists>f \<in> set known_functions. get_own cs ''y'' = Func f)
      | _ \<Rightarrow> False)"

lemma theme_converts: "get_own theme ''convert'' = Obj [(''y'', Undefined), (''x'', Undefined)]"
  and theme_extends: "get_own theme ''extend'' = Func ''theme.extend''"
  by (simp_all add: theme_def)

lemma usable_default: "usable_theme theme"
  by (simp add: usable_theme_def theme_converts theme_extends)

lemma theme_clone_converts: "get_own theme_clone ''convert'' = Obj []"
  by (simp add: get_own_theme_clone theme_converts props_or_empty_def)

lemma theme_clone_extends: "get_own theme_clone ''extend'' = Func ''theme.extend''"
  by (simp add: get_own_theme_clone theme_extends)

lemma convert_ok_cases:
  assumes "convert_ok v"
  shows "v = Undefined \<or> (\<exists>f \<in> set known_functions. v = Obj [(''y'', Func f)])"
proof (cases v)
  case (Obj ps)
  then obtain k w rest where ps: "ps = (k, w) # rest"
    using assms by (cases ps) (auto simp: convert_ok_def)
  then have "rest = []" using assms Obj by (cases rest) (auto simp: convert_ok_def split: jsval.splits)
  then show ?thesis using assms Obj ps by (cases w) (auto simp: convert_ok_def)
qed (use assms in \<open>auto simp: convert_ok_def\<close>)

lemma usable_custom:
  assumes "wf_val (Obj c)" and "custom_ok (Obj c)"
  shows "usable_theme (theme_extend theme (Obj c))"
proof -
  have d: "distinct (map fst c)" using assms(1) by (simp add: ordered_keys_distinct)
  have "''extend'' \<notin> fst ` set c" using assms(2) by (auto simp: custom_ok_def)
  then have ext: "get_own (theme_extend theme (Obj c)) ''extend'' = Func ''theme.extend''"
    by (simp add: theme_extend_Obj get_own_def extend_props_notin)
       (use theme_clone_extends in \<open>simp add: get_own_def\<close>)
  have conv: "get_own (theme_extend theme (Obj c)) ''convert'' =
      (let copy = get_own c ''convert'' in if copy = Undefined then Obj [] else extend_value (Obj []) copy)"
    by (simp only: theme_extend_Obj get_own_extend_props [OF d] theme_clone_converts)
  have "convert_ok (get_own c ''convert'')" using assms(2) by (simp add: custom_ok_def)
  then consider "get_own c ''convert'' = Undefined"
    | f where "get_own c ''convert'' = Obj [(''y'', Func f)]" "f \<in> set known_functions"
    using convert_ok_cases by blast
  then show ?thesis
    by cases (auto simp: usable_theme_def ext conv props_or_empty_def get_own_put_prop)
qed

lemma chosen_theme_usable:
  assumes "to_str (get_own mt ''name'') \<notin> set object_proto_keys"
  shows "\<exists>ps. chosen_theme (Obj mt) = Inr (Obj ps) \<and> usable_theme ps"
proof (cases "map_of customisations (to_str (get_own mt ''name''))")
  case None
  then show ?thesis
    using assms usable_default by (simp add: chosen_theme_def metric_themes_lookup Let_def)
next
  case (Some c)
  then obtain ps where "c = Obj ps" "wf_val (Obj ps)" "custom_ok (Obj ps)"
    by (rule custom_member)
  then show ?thesis
    using Some usable_custom [of ps] by (simp add: chosen_theme_def metric_themes_lookup Let_def del: wf_val.simps)
qed

lemma apply_convert_total:
  assumes "usable_theme ps"
  shows "\<exists>v. apply_convert (Obj ps) y = Inr v"
  using assms
  by (auto simp: usable_theme_def apply_convert_def get_or_undef_def is_nullish_def Let_def
      known_functions_def call_convert_def split: jsval.splits)

lemma call_extend_usable:
  "usable_theme ps \<Longrightarrow> call_extend (Obj ps) child = Inr (theme_extend ps child)"
  by (simp add: usable_theme_def call_extend_def)

lemma bind_res_total: "\<exists>x. m = Inr x \<Longrightarrow> (\<And>x. \<exists>y. f x = Inr y) \<Longrightarrow> \<exists>y. bind_res m f = Inr y"
  by auto

lemma map_res_total: "(\<And>x. x \<in> set xs \<Longrightarrow> \<exists>y. f x = Inr y) \<Longrightarrow> \<exists>ys. map_res f xs = Inr ys"
  by (induction xs) fastforce+

text \<open>Objects: what the CSV parser makes of the rows of a file with a header.\<close>

definition is_row :: "jsval \<Rightarrow> bool" where
  "is_row v = (case v of Obj _ \<Rightarrow> True | _ \<Rightarrow> False)"

lemma is_row_iff: "is_row v \<longleftrightarrow> (\<exists>ps. v = Obj ps)"
  by (auto simp: is_row_def split: jsval.splits)

lemma get_prop_row: "is_row v \<Longrightarrow> \<exists>x. get_prop v k = Inr x"
  by (auto simp: is_row_iff)

lemma read_column_row: "is_row v \<Longrightarrow> \<exists>x. read_column t v k = Inr x"
  by (simp add: read_column_def get_prop_row split: option.split)

lemma mean_point_total:
  "usable_theme ps \<Longrightarrow> is_row record \<Longrightarrow> \<exists>p. mean_point (Obj ps) type record = Inr p"
  unfolding mean_point_def record_hour_def
  by (intro bind_res_total get_prop_row read_column_row apply_convert_total) auto

lemma interval_point_total:
  "usable_theme ps \<Longrightarrow> is_row record \<Longrightarrow> \<exists>p. interval_point (Obj ps) type record = Inr p"
  unfolding interval_point_def record_hour_def
  by (intro bind_res_total get_prop_row read_column_row apply_convert_total) auto

lemma result_path_total: "is_row mt \<Longrightarrow> is_row m \<Longrightarrow> \<exists>p. result_path mt m sfx = Inr p"
  unfolding result_path_def by (intro bind_res_total get_prop_row) auto

text \<open>A server whose parsed files hold only rows.\<close>

definition serves_rows :: "platform \<Rightarrow> bool" where
  "serves_rows pl \<longleftrightarrow> (\<forall>text typed. \<forall>r \<in> set (csv_rows pl text typed). is_row r)"

lemma read_csv_row: "serves_rows pl \<Longrightarrow> r \<in> set (read_csv pl typed url) \<Longrightarrow> is_row r"
  by (auto simp: serves_rows_def read_csv_def)

lemma overtime_series_total:
  assumes "serves_rows pl" "usable_theme ps" "is_row mt" "is_row (snd im)"
  shows "\<exists>ss. overtime_series pl mt (Obj ps) im = Inr ss"
proof -
  obtain i m where im: "im = (i, m)" by (cases im)
  show ?thesis
    unfolding overtime_series_def im split_conv Let_def
    using assms read_csv_row
    by (intro bind_res_total result_path_total get_prop_row map_res_total mean_point_total
        interval_point_total) (auto simp: im)
qed

lemma enumerate_snd_in: "im \<in> set (List.enumerate n xs) \<Longrightarrow> snd im \<in> set xs"
proof -
  assume "im \<in> set (List.enumerate n xs)"
  then have "n \<le> fst im" "fst im < length xs + n" "xs ! (fst im - n) = snd im"
    using in_set_enumerate_eq [of im n xs] by auto
  then show ?thesis by (metis add.commute less_diff_conv2 nth_mem)
qed

lemma overtime_config_total:
  assumes "serves_rows pl" "usable_theme ps" "is_row mt" "\<forall>m \<in> set ms. is_row m"
  shows "\<exists>c. overtime_config pl mt (Obj ps) ms = Inr c"
proof -
  have "is_row (snd im)" if "im \<in> set (List.enumerate 0 ms)" for im
    using that assms(4) by (metis (no_types, lifting) enumerate_snd_in)
  then show ?thesis
    unfolding overtime_config_def
    by (intro bind_res_total map_res_total overtime_series_total assms) (assumption, blast)
qed

text \<open>
  Series that come in pairs, points and their error bars: the bars name the points' id and there
  are as many of them.
\<close>

definition data_of :: "jsval \<Rightarrow> jsval list" where
  "data_of series = elems_or_empty (get_or_undef series ''data'')"

fun linked_pairs :: "jsval list \<Rightarrow> bool" where
  "linked_pairs [] = True"
| "linked_pairs [s] = False"
| "linked_pairs (a # b # ss) =
     (get_or_undef b ''linkedTo'' = get_or_undef a ''id'' \<and>
      length (data_of b) = length (data_of a) \<and> linked_pairs ss)"

fun point_total :: "jsval list \<Rightarrow> nat" where
  "point_total (a # b # ss) = length (data_of a) + point_total ss"
| "point_total _ = 0"

lemma linked_pairs_append:
  "linked_pairs ss \<Longrightarrow> linked_pairs (ss @ ts) = linked_pairs ts \<and>
   point_total (ss @ ts) = point_total ss + point_total ts"
  by (induction ss rule: linked_pairs.induct) auto

lemma linked_pairs_concat:
  "(\<And>ss. ss \<in> set sss \<Longrightarrow> linked_pairs ss) \<Longrightarrow>
   linked_pairs (concat sss) \<and> point_total (concat sss) = sum_list (map point_total sss)"
  by (induction sss) (auto simp: linked_pairs_append)

lemma group_series_shape:
  "group_series pl mt themm sfx ts ids n (i, key, ms) = Inr ss \<Longrightarrow>
   linked_pairs ss \<and> point_total ss = length ms"
  by (auto simp: group_series_def bind_res_Inr_iff data_of_def elems_or_empty_def get_or_undef_def
      sortBy_def length_js_sort dest!: map_res_length)

text \<open>A chart over time: each line is followed by its band, in its colour and under its name.\<close>

fun line_and_band :: "nat \<Rightarrow> jsval list \<Rightarrow> bool" where
  "line_and_band index [] = True"
| "line_and_band index [s] = False"
| "line_and_band index (a # b # ss) \<longleftrightarrow>
     get_or_undef a ''color'' = palette index \<and> get_or_undef b ''color'' = palette index \<and>
     get_or_undef b ''type'' = Str ''arearange'' \<and> get_or_undef b ''name'' = get_or_undef a ''name'' \<and>
     length (data_of b) = length (data_of a) \<and> line_and_band (Suc index) ss"

lemma overtime_series_pair:
  "overtime_series pl mt themm (index, m) = Inr ss \<Longrightarrow> \<exists>a b. ss = [a, b] \<and> line_and_band index ss"
  by (auto simp: overtime_series_def Let_def bind_res_Inr_iff get_or_undef_def data_of_def elems_or_empty_def
      dest!: map_res_length)

lemma overtime_series_pairs:
  "map_res (overtime_series pl mt themm) (List.enumerate index ms) = Inr sss \<Longrightarrow>
   line_and_band index (concat sss) \<and> length (concat sss) = 2 * length ms"
proof (induction ms arbitrary: index sss)
  case (Cons m ms)
  then obtain ss tss where "overtime_series pl mt themm (index, m) = Inr ss"
      and rest: "map_res (overtime_series pl mt themm) (List.enumerate (Suc index) ms) = Inr tss" "sss = ss # tss"
    by (auto simp: bind_res_Inr_iff)
  then obtain a b where "ss = [a, b]" "line_and_band index ss" using overtime_series_pair by blast
  then show ?case using Cons.IH [OF rest(1)] rest(2) by simp
qed simp

lemma map_res_pick:
  "map_res f xs = Inr ys \<Longrightarrow> (\<And>x y. f x = Inr y \<Longrightarrow> P y \<and> q y = r x) \<Longrightarrow>
   (\<forall>y \<in> set ys. P y) \<and> map q ys = map r xs"
proof (induction xs arbitrary: ys)
  case (Cons x xs)
  then obtain y zs where "f x = Inr y" "map_res f xs = Inr zs" "ys = y # zs"
    by (auto simp: bind_res_Inr_iff)
  then show ?case using Cons.IH [of zs] Cons.prems(2) by auto
qed simp

lemma sum_enumerate: "map (\<lambda>p. h (snd p)) (List.enumerate n xs) = map h xs"
  by (induction xs arbitrary: n) auto

lemma grouped_series_shape:
  assumes "map_res (group_series pl mt themm sfx ts ids n) (List.enumerate 0 g) = Inr sss"
  shows "linked_pairs (concat sss) \<and> point_total (concat sss) = length (concat (map snd g))"
proof -
  have "(\<forall>ss \<in> set sss. linked_pairs ss) \<and>
      map point_total sss = map (\<lambda>p. length (snd (snd p))) (List.enumerate 0 g)"
    by (rule map_res_pick [OF assms]) (metis group_series_shape prod.collapse)
  then have "linked_pairs (concat sss)"
    and "point_total (concat sss) = sum_list (map (\<lambda>p. length (snd (snd p))) (List.enumerate 0 g))"
    using linked_pairs_concat [of sss] by auto
  then show ?thesis
    using sum_enumerate [of "\<lambda>p. length (snd p)" 0 g] by (simp add: length_concat comp_def)
qed

lemma groupBy_length: "groupBy p f es = Inr g \<Longrightarrow> length (concat (map snd g)) = length es"
  using groupBy_mset [of p f es g] by (metis size_mset)

lemma overall_config_shape:
  assumes "overall_config pl mt themm d ms = Inr c"
  shows "\<exists>ss. c = category_config ss \<and> linked_pairs ss \<and> point_total ss = length ms"
  using assms
  by (auto simp: overall_config_def Let_def bind_res_Inr_iff dest!: grouped_series_shape groupBy_length)

lemma training_config_shape:
  assumes "training_config pl mt themm ms = Inr c"
  shows "\<exists>ss. c = category_config ss \<and> linked_pairs ss \<and> point_total ss = 2 * length ms"
proof -
  obtain g during aft where g: "groupBy ''peer_configuration'' None ms = Inr g"
    and d: "map_res (group_series pl mt themm ''_overall_before_training.csv''
         '' During Training'' '''' 0) (List.enumerate 0 g) = Inr during"
    and a: "map_res (group_series pl mt themm ''_overall_after_training.csv'' '' After Training'' ''2'' 2)
        (List.enumerate 0 (map (\<lambda>(key, m). (key, sortBy group_by m)) g)) = Inr aft"
    and c: "c = category_config (concat during @ concat aft)"
    using assms by (auto simp: training_config_def Let_def bind_res_Inr_iff)
  have "length (concat (map snd (map (\<lambda>(key, m). (key, sortBy group_by m)) g))) = length ms"
    using groupBy_length [OF g]
    by (simp add: length_concat comp_def case_prod_beta sortBy_def length_js_sort)
  then show ?thesis
    using grouped_series_shape [OF d] grouped_series_shape [OF a] groupBy_length [OF g]
      linked_pairs_append [of "concat during" "concat aft"]
    by (intro exI [of _ "concat during @ concat aft"]) (simp add: c)
qed

text \<open>A match whose overall file has a first row, and whose churn level is text.\<close>

definition overall_served :: "platform \<Rightarrow> string \<Rightarrow> string \<Rightarrow> jsval \<Rightarrow> bool" where
  "overall_served pl metric_name sfx m = (case m of
     Obj ps \<Rightarrow> (\<exists>l. get_own ps ''churn'' = Str l) \<and>
       (\<exists>r rs. read_csv pl True (analysisPath (to_str (get_own ps ''name'')) (metric_name @ sfx)) =
          Obj r # rs)
   | _ \<Rightarrow> False)"

lemma overall_point_total:
  assumes "usable_theme ps" and "overall_served pl (to_str (get_own mt ''name'')) sfx m"
  shows "\<exists>p. overall_point pl (Obj mt) (Obj ps) sfx m = Inr p"
proof -
  obtain qs l r rs where m: "m = Obj qs" "get_own qs ''churn'' = Str l"
    and rows: "read_csv pl True (analysisPath (to_str (get_own qs ''name''))
      (to_str (get_own mt ''name'') @ sfx)) = Obj r # rs"
    using assms(2) by (auto simp: overall_served_def split: jsval.splits)
  have path: "result_path (Obj mt) m sfx = Inr (analysisPath (to_str (get_own qs ''name''))
      (to_str (get_own mt ''name'') @ sfx))"
    by (simp add: result_path_def m)
  have label: "bind_res (get_prop m group_by) as_string = Inr l"
    by (simp add: m group_by_def as_string_def)
  show ?thesis
    unfolding overall_point_def path bind_res_simps Let_def rows list_at_simps option.case
      get_prop_Obj label
    by (intro bind_res_total apply_convert_total assms) auto
qed

lemma group_series_total:
  assumes "usable_theme ps" and "\<forall>m \<in> set ms. overall_served pl (to_str (get_own mt ''name'')) sfx m"
  shows "\<exists>ss. group_series pl (Obj mt) (Obj ps) sfx ts ids n (i, key, ms) = Inr ss"
proof -
  have "\<exists>p. overall_point pl (Obj mt) (Obj ps) sfx m = Inr p" if "m \<in> set (sortBy group_by ms)" for m
    using that assms overall_point_total by (simp add: sortBy_def set_js_sort)
  then show ?thesis unfolding group_series_def split_conv by (intro bind_res_total map_res_total) auto
qed

lemma grouped_series_total:
  assumes "usable_theme ps"
    and "\<And>key es m. (key, es) \<in> set g \<Longrightarrow> m \<in> set es \<Longrightarrow>
      overall_served pl (to_str (get_own mt ''name'')) sfx m"
  shows "\<exists>sss. map_res (group_series pl (Obj mt) (Obj ps) sfx ts ids n) (List.enumerate 0 g) = Inr sss"
proof (rule map_res_total)
  fix p
  assume p: "p \<in> set (List.enumerate 0 g)"
  obtain i key es where pe: "p = (i, key, es)" by (cases p)
  then have "(key, es) \<in> set g" using enumerate_snd_in [OF p] by simp
  then show "\<exists>ss. group_series pl (Obj mt) (Obj ps) sfx ts ids n p = Inr ss"
    using assms unfolding pe by (intro group_series_total) auto
qed

lemma overall_config_total:
  assumes "usable_theme ps" and "groupable ''peer_configuration'' ms"
    and "\<forall>m \<in> set ms. overall_served pl (to_str (get_own mt ''name'')) (overall_suffix d) m"
  shows "\<exists>c. overall_config pl (Obj mt) (Obj ps) d ms = Inr c"
proof -
  obtain g where g: "groupBy ''peer_configuration'' None ms = Inr g"
    using groupBy_ok [OF assms(2)] by blast
  show ?thesis
    unfolding overall_config_def Let_def g bind_res_simps
    using assms(3) groupBy_group [OF g]
    by (intro bind_res_total grouped_series_total assms(1)) auto
qed

lemma training_config_total:
  assumes "usable_theme ps" and "groupable ''peer_configuration'' ms"
    and "\<forall>m \<in> set ms. overall_served pl (to_str (get_own mt ''name'')) (overall_suffix ''btraining'') m"
    and "\<forall>m \<in> set ms. overall_served pl (to_str (get_own mt ''name'')) (overall_suffix ''atraining'') m"
  shows "\<exists>c. training_config pl (Obj mt) (Obj ps) ms = Inr c"
proof -
  obtain g where g: "groupBy ''peer_configuration'' None ms = Inr g"
    using groupBy_ok [OF assms(2)] by blast
  have sfx: "''_overall_before_training.csv'' = overall_suffix ''btraining''"
    "''_overall_after_training.csv'' = overall_suffix ''atraining''"
    by (simp_all add: overall_suffix_def)
  have mem: "m \<in> set ms" if "(key, es) \<in> set (map (\<lambda>(key, m). (key, sortBy group_by m)) g)" "m \<in> set es"
    for key es m
    using that groupBy_group [OF g] by (fastforce simp: sortBy_def set_js_sort)
  show ?thesis
    unfolding training_config_def Let_def g bind_res_simps sfx
    using assms(3,4) groupBy_group [OF g] mem
    by (intro bind_res_total grouped_series_total assms(1)) (blast | simp)+
qed

text \<open>The renderer touches nothing but the chart, and nothing at all when it throws.\<close>

lemma renderer_frame:
  assumes "renderer pl s = (s', ops, r)"
  shows "s' = s\<lparr>chart := chart s'\<rparr>" and "r = Inl e \<Longrightarrow> s' = s \<and> ops = []"
  using assms by (auto simp: renderer_def split: sum.splits)

lemma renderer_ok:
  assumes "metric s = Obj mt" and "to_str (get_own mt ''name'') \<notin> set object_proto_keys"
    and "\<And>ps. usable_theme ps \<Longrightarrow> \<exists>c. chart_config pl s (Obj ps) = Inr c"
  shows "\<exists>s' ops. renderer pl s = (s', ops, Inr ())"
proof -
  obtain ps where ps: "chosen_theme (metric s) = Inr (Obj ps)" "usable_theme ps"
    using chosen_theme_usable [OF assms(2)] assms(1) by auto
  obtain c where "chart_config pl s (Obj ps) = Inr c" using assms(3) [OF ps(2)] by blast
  then have "chart_options pl s = Inr (theme_extend ps c)"
    by (simp add: chart_options_def ps call_extend_usable)
  then show ?thesis by (simp add: renderer_def)
qed

section \<open>A sample platform\<close>

text \<open>A server that answers each path with the path, and a parser that knows two tables.\<close>

definition sample_scenario :: "string \<Rightarrow> string \<Rightarrow> jsval" where
  "sample_scenario name churn_level = Obj [(''name'', Str name), (''churn'', Str churn_level),
     (''workload'', Str ''w''), (''peer_configuration'', Str ''p''), (''experiment_duration'', Str ''4''),
     (''training_duration'', Str ''2''), (''clustering_algorithm'', Str ''c''),
     (''feedback_enabled'', Str ''true'')]"

definition sample_platform :: platform where
  "sample_platform = \<lparr>server = (\<lambda>url. (200, url)),
     csv_rows = (\<lambda>text typed.
       if text = resultsPath @ ''metrics.csv'' then [Obj [(''name'', Str ''rate''), (''type'', Str ''Rate'')]]
       else if text = resultsPath @ ''scenarios.csv'' then
         [sample_scenario ''s1'' ''Heavy'', sample_scenario ''s2'' ''Light'']
       else [Obj [(''time'', Num (Fin 1)), (''mean'', Num (Fin 2))]]),
     window = \<lparr>innerHeight = Fin 600, bodyHeights = None\<rparr>, chart_list_offset = Fin 10,
     chart_of = Obj\<rparr>"

definition sample_scope :: "string \<Rightarrow> scope" where
  "sample_scope d = \<lparr>metrics = [], scenarios = [], metric = Obj [(''name'', Str ''rate''), (''type'', Str ''Rate'')],
     matches = [sample_scenario ''s1'' ''Heavy'', sample_scenario ''s2'' ''Light''], chart = Obj [],
     data_type = d\<rparr>"

lemma sample_serves_rows: "serves_rows sample_platform"
  by (simp add: serves_rows_def sample_platform_def is_row_def sample_scenario_def)

lemma sample_served:
  "overall_served sample_platform ''rate'' (overall_suffix d) (Obj [(''name'', Str ''s1''), (''churn'', Str c),
     (''workload'', Str ''w''), (''peer_configuration'', Str ''p''), (''experiment_duration'', Str ''4''),
     (''training_duration'', Str ''2''), (''clustering_algorithm'', Str ''c''),
     (''feedback_enabled'', Str ''true'')])"
  "overall_served sample_platform ''rate'' (overall_suffix d) (Obj [(''name'', Str ''s2''), (''churn'', Str c),
     (''workload'', Str ''w''), (''peer_configuration'', Str ''p''), (''experiment_duration'', Str ''4''),
     (''training_duration'', Str ''2''), (''clustering_algorithm'', Str ''c''),
     (''feedback_enabled'', Str ''true'')])"
  by (simp_all add: overall_served_def read_csv_def read_url_def sample_platform_def
      analysisPath_def resultsPath_def)

section \<open>Properties\<close>





text \<open>
  The chart before and after training can always be drawn when each match has a peer
  configuration that is no inherited key, a churn level that is text, and both result files with a
  first row; it shows every match exactly twice, and each series of points is followed by as many
  error bars linked to it by id.
\<close>

theorem training_renders:
  assumes "data_type s = ''batraining''" and "metric s = Obj mt"
    and "to_str (get_own mt ''name'') \<notin> set object_proto_keys"
    and "groupable ''peer_configuration'' (matches s)"
    and "\<forall>m \<in> set (matches s). overall_served pl (to_str (get_own mt ''name'')) (overall_suffix ''btraining'') m"
    and "\<forall>m \<in> set (matches s). overall_served pl (to_str (get_own mt ''name'')) (overall_suffix ''atraining'') m"
  shows "\<exists>themm ss ops options. chosen_theme (metric s) = Inr themm \<and>
    chart_config pl s themm = Inr (category_config ss) \<and> linked_pairs ss \<and>
    point_total ss = 2 * length (matches s) \<and>
    renderer pl s = (s\<lparr>chart := chart_of pl options\<rparr>, ops @ [DrawChart options], Inr ())"
proof -
  obtain ps where ps: "chosen_theme (metric s) = Inr (Obj ps)" "usable_theme ps"
    using chosen_theme_usable [OF assms(3)] assms(2) by auto
  have c: "chart_config pl s (Obj ps) = training_config pl (metric s) (Obj ps) (matches s)"
    using assms(1) by (simp add: chart_config_def)
  obtain c where cfg: "training_config pl (metric s) (Obj ps) (matches s) = Inr c"
    using training_config_total [OF ps(2) assms(4-6)] assms(2) by auto
  then obtain ss where ss: "c = category_config ss" "linked_pairs ss" "point_total ss = 2 * length (matches s)"
    using training_config_shape by blast
  have "chart_options pl s = Inr (theme_extend ps c)"
    by (simp add: chart_options_def ps c cfg call_extend_usable)
  then show ?thesis
    using ps c cfg ss by (intro exI) (auto simp: renderer_def)
qed

theorem training_renders_witness:
  "\<exists>s' ops. renderer sample_platform (sample_scope ''batraining'') = (s', ops, Inr ())"
  using training_renders [of "sample_scope ''batraining''" "[(''name'', Str ''rate''), (''type'', Str ''Rate'')]"
      sample_platform] sample_served
  by (auto simp: sample_scope_def object_proto_keys_def sample_scenario_def groupable_def group_key_def)

text \<open>
  The renderer changes nothing of the scope but its chart, and when it throws it changes
  nothing and does nothing to the page.
\<close>

theorem renderer_only_chart:
  assumes "renderer pl s = (s', ops, r)"
  shows "s' = s\<lparr>chart := chart s'\<rparr> \<and> ((\<exists>e. r = Inl e) \<longrightarrow> s' = s \<and> ops = [])"
  using renderer_frame [OF assms] by blast

theorem renderer_only_chart_witness:
  "\<exists>s' ops r. renderer sample_platform (sample_scope ''overall'') = (s', ops, r) \<and>
     data_type s' = ''overall''"
proof -
  obtain s' ops r where r: "renderer sample_platform (sample_scope ''overall'') = (s', ops, r)"
    by (cases "renderer sample_platform (sample_scope ''overall'')") auto
  have "data_type s' = data_type (sample_scope ''overall'')"
    by (subst conjunct1 [OF renderer_only_chart [OF r]]) simp
  then show ?thesis using r by (simp add: sample_scope_def)
qed

end
