(* ===== verification/Query.thy ===== *)
theory Query
  imports Scope
begin

text \<open>
  query.js: the selection the user has made, its encoding in the location hash, and the scenarios
  it matches. A selection holds, per property, the positions of the chosen values among the keys
  of the scenarios grouped by it. Every operation reads and writes the query and the shared
  scope; the page is a list of page operations. The locale \<open>field_codec\<close> is the interface of the
  encoding, met twice: by the numbers of a list and by the lists of a query.
\<close>

section \<open>Encoding of one list\<close>

definition encode_step :: "int \<Rightarrow> string \<Rightarrow> nat \<times> jsnum \<Rightarrow> string" where
  "encode_step last_index encoded = (\<lambda>(index, value).
     encoded @ num_to_string value @ (if int index \<noteq> last_index then ''-'' else ''''))"

definition encodeArray :: "jsnum list \<Rightarrow> string" where
  "encodeArray array =
     foldl (encode_step (int (length array) - 1)) '''' (List.enumerate 0 array)"

definition decode_step :: "jsnum list \<Rightarrow> string \<Rightarrow> jsnum list" where
  "decode_step decoded_array element =
     (if trim element \<noteq> '''' then decoded_array @ [parse_int 0 element] else decoded_array)"

definition decodeArray :: "string \<Rightarrow> jsnum list" where
  "decodeArray encoded_array = foldl decode_step [] (split_char (CHR ''-'') encoded_array)"

section \<open>The query\<close>

record query =
  metric :: jsnum
  churn :: "jsnum list"
  workload :: "jsnum list"
  peer_configuration :: "jsnum list"
  experiment_duration :: "jsnum list"
  training_duration :: "jsnum list"
  clustering_algorithm :: "jsnum list"
  feedback_enabled :: "jsnum list"

definition empty_query :: query where
  "empty_query = \<lparr>metric = Fin 0, churn = [], workload = [], peer_configuration = [],
     experiment_duration = [], training_duration = [], clustering_algorithm = [],
     feedback_enabled = []\<rparr>"

definition encode :: "query \<Rightarrow> string \<Rightarrow> string" where
  "encode q dtype = num_to_string (metric q) @ ''_'' @
     encodeArray (churn q) @ ''_'' @
     encodeArray (workload q) @ ''_'' @
     encodeArray (peer_configuration q) @ ''_'' @
     encodeArray (experiment_duration q) @ ''_'' @
     encodeArray (training_duration q) @ ''_'' @
     encodeArray (clustering_algorithm q) @ ''_'' @
     encodeArray (feedback_enabled q) @ ''_'' @
     dtype"

text \<open>
  The state \<open>decode\<close> works on: the query, the data type of the scope, and the lines it logs.
\<close>

type_synonym decode_state = "query \<times> string \<times> dom_op list"

definition decode_field :: "decode_state \<Rightarrow> nat \<times> string \<Rightarrow> decode_state" where
  "decode_field = (\<lambda>(q, dtype, ops) (index, value).
     if index = 0 then (q\<lparr>metric := parse_int 0 value\<rparr>, dtype, ops)
     else if index = 1 then (q\<lparr>churn := decodeArray value\<rparr>, dtype, ops)
     else if index = 2 then (q\<lparr>workload := decodeArray value\<rparr>, dtype, ops)
     else if index = 3 then (q\<lparr>peer_configuration := decodeArray value\<rparr>, dtype, ops)
     else if index = 4 then (q\<lparr>experiment_duration := decodeArray value\<rparr>, dtype, ops)
     else if index = 5 then (q\<lparr>training_duration := decodeArray value\<rparr>, dtype, ops)
     else if index = 6 then (q\<lparr>clustering_algorithm := decodeArray value\<rparr>, dtype, ops)
     else if index = 7 then (q\<lparr>feedback_enabled := decodeArray value\<rparr>, dtype, ops)
     else if index = 8 then (q, value, ops)
     else (q, dtype, ops @ [LogLine (''unknown encoded query format '' @ nat_digits 10 index @ '' '' @ value)]))"

text \<open>\<open>None\<close> is an \<open>undefined\<close> argument. A blank one leaves the data type alone.\<close>

definition decode :: "query \<Rightarrow> string \<Rightarrow> string option \<Rightarrow> decode_state" where
  "decode q dtype encoded = (case encoded of
     None \<Rightarrow> (empty_query, dtype, [])
   | Some e \<Rightarrow>
       if trim e = '''' then (empty_query, dtype, [])
       else foldl decode_field (q, dtype, []) (List.enumerate 0 (split_char (CHR ''_'') e)))"

section \<open>Matching scenarios\<close>

text \<open>\<open>keys[selection]\<close>: only a number that is a position finds a key.\<close>

definition position_of :: "jsnum \<Rightarrow> nat option" where
  "position_of x = (case x of
     Fin r \<Rightarrow> if 0 \<le> r \<and> of_int \<lfloor>r\<rfloor> = r then Some (nat \<lfloor>r\<rfloor>) else None
   | NZero \<Rightarrow> Some 0 | _ \<Rightarrow> None)"

definition key_at :: "string list \<Rightarrow> jsnum \<Rightarrow> jsval" where
  "key_at keys selection = (case position_of selection of
     None \<Rightarrow> Undefined
   | Some i \<Rightarrow> (case list_at keys i of None \<Rightarrow> Undefined | Some k \<Rightarrow> Str k))"

definition property_keys :: "string \<Rightarrow> jsval list \<Rightarrow> string list res" where
  "property_keys property_name rows =
     bind_res (groupBy property_name None rows) (\<lambda>g. Inr (keys_of g))"

text \<open>
  The rows under one selected churn level. Where the selection finds no key the group looked up
  is the one named \<open>undefined\<close>; where there is none, \<open>forEach\<close> is called on \<open>undefined\<close>.
\<close>

definition churn_rows :: "jsval list \<Rightarrow> string list \<Rightarrow> jsnum \<Rightarrow> jsval list res" where
  "churn_rows rows churn_keys selection =
     bind_res (groupBy ''churn'' None rows) (\<lambda>g.
       case map_of g (to_str (key_at churn_keys selection)) of
         None \<Rightarrow> Inl TypeError | Some elements \<Rightarrow> Inr elements)"

definition found :: "string \<Rightarrow> string list \<Rightarrow> jsnum list \<Rightarrow> jsval \<Rightarrow> bool" where
  "found property_name keys selections element =
     foldl (\<lambda>f selection. f \<or> loose_eq (get_or_undef element property_name) (key_at keys selection))
       False selections"

definition matches :: "query \<Rightarrow> jsval list \<Rightarrow> jsval list res" where
  "matches q rows =
     bind_res (property_keys ''churn'' rows) (\<lambda>churn_keys.
     bind_res (property_keys ''workload'' rows) (\<lambda>workload_keys.
     bind_res (property_keys ''peer_configuration'' rows) (\<lambda>peer_configuration_keys.
     bind_res (property_keys ''experiment_duration'' rows) (\<lambda>experiment_duration_keys.
     bind_res (property_keys ''training_duration'' rows) (\<lambda>training_duration_keys.
     bind_res (property_keys ''clustering_algorithm'' rows) (\<lambda>clustering_algorithm_keys.
     bind_res (property_keys ''feedback_enabled'' rows) (\<lambda>feedback_enabled_keys.
     bind_res (map_res (churn_rows rows churn_keys) (churn q)) (\<lambda>groups.
     let m0 = concat groups;
         m1 = filter (found ''workload'' workload_keys (workload q)) m0;
         m2 = filter (found ''peer_configuration'' peer_configuration_keys (peer_configuration q)) m1;
         m3 = filter (found ''experiment_duration'' experiment_duration_keys (experiment_duration q)) m2;
         m4 = filter (found ''training_duration'' training_duration_keys (training_duration q)) m3;
         m5 = filter (found ''clustering_algorithm'' clustering_algorithm_keys (clustering_algorithm q)) m4;
         m6 = filter (found ''feedback_enabled'' feedback_enabled_keys (feedback_enabled q)) m5
     in Inr m6))))))))"

section \<open>Update\<close>

text \<open>\<open>scope.metrics[this.metric]\<close>.\<close>

definition metric_at :: "jsval list \<Rightarrow> jsnum \<Rightarrow> jsval" where
  "metric_at ms n = (case position_of n of
     None \<Rightarrow> Undefined | Some i \<Rightarrow> (case list_at ms i of None \<Rightarrow> Undefined | Some v \<Rightarrow> v))"

definition check_ops :: "string \<Rightarrow> jsnum list \<Rightarrow> dom_op list" where
  "check_ops property_name selections =
     map (\<lambda>selection. CheckBox (''#'' @ property_name @ ''_'' @ num_to_string selection)) selections"

definition all_check_ops :: "query \<Rightarrow> dom_op list" where
  "all_check_ops q = check_ops ''churn'' (churn q) @ check_ops ''workload'' (workload q) @
     check_ops ''peer_configuration'' (peer_configuration q) @
     check_ops ''experiment_duration'' (experiment_duration q) @
     check_ops ''training_duration'' (training_duration q) @
     check_ops ''clustering_algorithm'' (clustering_algorithm q) @
     check_ops ''feedback_enabled'' (feedback_enabled q)"

text \<open>
  An exception stops the update; what it did before stays done. The page operations are those
  done, in order. \<open>show_result\<close> is the part from the call of \<open>matches\<close> on.
\<close>

definition show_result :: "platform \<Rightarrow> query \<Rightarrow> scope \<Rightarrow> scope \<times> dom_op list \<times> unit res" where
  "show_result pl q s = (case matches q (scenarios s) of
     Inl e \<Rightarrow> (s, [], Inl e)
   | Inr ms \<Rightarrow>
       (case renderer pl (show_matches ms (metric_at (scope.metrics s) (metric q)) s) of
          (s', ops, Inl e) \<Rightarrow> (s', ops, Inl e)
        | (s', ops, Inr _) \<Rightarrow>
            (case resizeElementHeight (window pl) (chart_list_offset pl) of
               Inl e \<Rightarrow> (s', ops, Inl e)
             | Inr h \<Rightarrow> (s', ops @ [SetHeight ''chart_list'' h], Inr ()))))"

definition update :: "platform \<Rightarrow> query \<Rightarrow> scope \<Rightarrow> scope \<times> dom_op list \<times> unit res" where
  "update pl q s =
     (let ops1 = [SetHash (encode q (data_type s))] in
      case get_prop (metric_at (scope.metrics s) (metric q)) ''name'' of
        Inl e \<Rightarrow> (s, ops1, Inl e)
      | Inr name \<Rightarrow>
          let ops2 = ops1 @ [SetText ''#main_title'' name,
                RemoveClass ''#chart_list .active'' ''active'',
                AddClass (''#metric_'' @ num_to_string (metric q)) ''active''] @ all_check_ops q;
              (s', ops, r) = show_result pl q s
          in (s', ops2 @ ops, r))"

definition set_data_type :: "string \<Rightarrow> scope \<Rightarrow> scope" where
  "set_data_type d s = s\<lparr>data_type := d\<rparr>"

text \<open>\<open>init\<close> decodes \<open>location.hash.slice(1)\<close>, marks the radio button and updates.\<close>

definition mark_data_type :: "string \<Rightarrow> dom_op list" where
  "mark_data_type dtype = [RemoveClass ''#data_type_chooser label'' ''active'',
     AddParentClass (''#data_type_chooser input:radio[value='' @ [CHR 0x27] @ dtype @
       [CHR 0x27] @ '']'') ''active'']"

definition init :: "platform \<Rightarrow> string \<Rightarrow> query \<Rightarrow> scope \<Rightarrow> query \<times> scope \<times> dom_op list \<times> unit res" where
  "init pl location_hash q s =
     (let (q', dtype, log_ops) = decode q (data_type s) (Some (drop 1 location_hash));
          s' = set_data_type dtype s;
          (s'', ops, r) = update pl q' s'
      in (q', s'', log_ops @ mark_data_type dtype @ ops, r))"

section \<open>The encoding as an interface\<close>

text \<open>
  A field of an encoded text: it reads back, and its text does not hold the separator of the
  fields.
\<close>

locale field_codec =
  fixes sep :: char
    and enc :: "'a \<Rightarrow> string" and dec :: "string \<Rightarrow> 'a" and valid :: "'a \<Rightarrow> bool"
  assumes dec_enc: "valid x \<Longrightarrow> dec (enc x) = x"
    and enc_plain: "valid x \<Longrightarrow> sep \<notin> set (enc x)"
begin

lemma split_fields:
  "xs \<noteq> [] \<Longrightarrow> list_all valid xs \<Longrightarrow> split_char sep (join [sep] (map enc xs)) = map enc xs"
  by (intro split_char_join) (auto simp: list_all_iff enc_plain)

lemma dec_fields:
  "xs \<noteq> [] \<Longrightarrow> list_all valid xs \<Longrightarrow> map dec (split_char sep (join [sep] (map enc xs))) = xs"
  by (simp add: split_fields list_all_iff dec_enc map_idI)

lemma enc_inject: "valid x \<Longrightarrow> valid y \<Longrightarrow> enc x = enc y \<Longrightarrow> x = y"
  by (metis dec_enc)

lemma split_before: "valid x \<Longrightarrow> split_char sep (enc x @ sep # rest) = enc x # split_char sep rest"
  by (simp add: split_char_append enc_plain)

end

text \<open>Positions: the numbers a selection holds.\<close>

definition is_position :: "jsnum \<Rightarrow> bool" where
  "is_position x = (case x of Fin q \<Rightarrow> 0 \<le> q \<and> q \<le> 2 ^ 53 \<and> of_int \<lfloor>q\<rfloor> = q | _ \<Rightarrow> False)"

definition is_selection :: "jsnum list \<Rightarrow> bool" where
  "is_selection xs = list_all is_position xs"

lemma is_position_num_of_int: "is_position x \<Longrightarrow> \<exists>n. 0 \<le> n \<and> n \<le> 2 ^ 53 \<and> x = num_of_int n"
proof -
  assume x: "is_position x"
  then obtain q where q: "x = Fin q" "0 \<le> q" "q \<le> 2 ^ 53" "of_int \<lfloor>q\<rfloor> = q"
    by (auto simp: is_position_def split: jsnum.splits)
  have "(of_int \<lfloor>q\<rfloor> :: rat) \<le> of_int (2 ^ 53)" using q(3,4) by simp
  then have "\<lfloor>q\<rfloor> \<le> 2 ^ 53" by (simp only: of_int_le_iff)
  then have "0 \<le> \<lfloor>q\<rfloor> \<and> \<lfloor>q\<rfloor> \<le> 2 ^ 53 \<and> x = num_of_int \<lfloor>q\<rfloor>"
    using q(1,2) q(4) [symmetric] by (simp add: \<open>\<lfloor>q\<rfloor> \<le> 2 ^ 53\<close>)
  then show ?thesis by blast
qed

lemma position_text:
  assumes "is_position x"
  shows "\<exists>n. num_to_string x = nat_digits 10 n"
proof -
  obtain n where "0 \<le> n" "n \<le> 2 ^ 53" "x = num_of_int n"
    using is_position_num_of_int [OF assms] by blast
  then show ?thesis by (auto simp: num_to_string_int int_to_string_nonneg)
qed

lemma position_char: "is_position x \<Longrightarrow> c \<in> set (num_to_string x) \<Longrightarrow> is_digit c"
  using position_text nat_digits_is_digit by metis

lemma not_digits: "\<not> is_digit (CHR ''-'')" "\<not> is_digit (CHR ''_'')"
  by (simp_all add: is_digit_def code_def)

interpretation position_codec: field_codec "CHR ''-''" num_to_string "parse_int 0" is_position
proof unfold_locales
  fix x
  assume x: "is_position x"
  show "parse_int 0 (num_to_string x) = x"
    using is_position_num_of_int [OF x] parse_int_num_to_string by blast
  show "CHR ''-'' \<notin> set (num_to_string x)"
    using position_char [OF x] not_digits by blast
qed

text \<open>The loop with its test for the last element is a join.\<close>

lemma encode_steps_join:
  "foldl (encode_step (int (k + length xs) - 1)) acc (List.enumerate k xs) =
   acc @ join ''-'' (map num_to_string xs)"
proof (induction xs arbitrary: k acc)
  case (Cons x xs)
  have IH: "foldl (encode_step (int (k + length (x # xs)) - 1)) a (List.enumerate (Suc k) xs) =
      a @ join ''-'' (map num_to_string xs)" for a
    using Cons.IH [of "Suc k" a] by simp
  show ?case
  proof (cases xs)
    case Nil
    then show ?thesis by (simp add: encode_step_def)
  next
    case (Cons y ys)
    have "foldl (encode_step (int (k + length (x # xs)) - 1)) acc (List.enumerate k (x # xs)) =
        (acc @ num_to_string x @ ''-'') @ join ''-'' (map num_to_string xs)"
      using Cons IH [of "acc @ num_to_string x @ ''-''"] by (simp add: encode_step_def)
    then show ?thesis using Cons by simp
  qed
qed simp

lemma encodeArray_join: "encodeArray xs = join ''-'' (map num_to_string xs)"
  using encode_steps_join [of 0 xs "''''"] by (simp add: encodeArray_def)

lemma decode_steps:
  "foldl decode_step acc ws = acc @ map (parse_int 0) (filter (\<lambda>w. trim w \<noteq> '''') ws)"
  by (induction ws arbitrary: acc) (auto simp: decode_step_def)

lemma decodeArray_map:
  "decodeArray s = map (parse_int 0) (filter (\<lambda>w. trim w \<noteq> '''') (split_char (CHR ''-'') s))"
  by (simp add: decodeArray_def decode_steps)

lemma position_not_blank: "is_position x \<Longrightarrow> trim (num_to_string x) \<noteq> ''''"
proof -
  assume x: "is_position x"
  obtain n where n: "num_to_string x = nat_digits 10 n" using position_text [OF x] by blast
  then have "hd (num_to_string x) \<in> set (num_to_string x)" by simp
  then have "\<not> is_ws (hd (num_to_string x))" "hd (num_to_string x) \<in> set (num_to_string x)"
    using position_char [OF x] is_digit_not_ws by blast+
  then show ?thesis using trim_empty_iff by metis
qed

lemma decodeArray_encodeArray: "is_selection xs \<Longrightarrow> decodeArray (encodeArray xs) = xs"
proof (cases "xs = []")
  case True
  then show ?thesis by (simp add: encodeArray_def decodeArray_def decode_step_def trim_def)
next
  case False
  assume xs: "is_selection xs"
  have "filter (\<lambda>w. trim w \<noteq> '''') (map num_to_string xs) = map num_to_string xs"
    using xs position_not_blank by (auto simp: is_selection_def list_all_iff filter_id_conv)
  then show ?thesis
    using xs False position_codec.split_fields position_codec.dec_enc
    by (auto simp: encodeArray_join decodeArray_map is_selection_def list_all_iff intro!: map_idI)
qed

lemma encodeArray_chars:
  "is_selection xs \<Longrightarrow> c \<in> set (encodeArray xs) \<Longrightarrow> is_digit c \<or> c = CHR ''-''"
  using set_join_subset [of "''-''" "map num_to_string xs"] position_char
  by (fastforce simp: encodeArray_join is_selection_def list_all_iff)

text \<open>The lists of a query are fields too, between underscores.\<close>

interpretation selection_codec: field_codec "CHR ''_''" encodeArray decodeArray is_selection
proof unfold_locales
  fix xs
  assume xs: "is_selection xs"
  show "decodeArray (encodeArray xs) = xs" using xs by (rule decodeArray_encodeArray)
  show "CHR ''_'' \<notin> set (encodeArray xs)"
    using encodeArray_chars [OF xs, of "CHR ''_''"] not_digits by auto
qed

text \<open>A query whose metric and selections are positions.\<close>

definition wf_query :: "query \<Rightarrow> bool" where
  "wf_query q \<longleftrightarrow> is_position (metric q) \<and> is_selection (churn q) \<and> is_selection (workload q) \<and>
     is_selection (peer_configuration q) \<and> is_selection (experiment_duration q) \<and>
     is_selection (training_duration q) \<and> is_selection (clustering_algorithm q) \<and>
     is_selection (feedback_enabled q)"

lemma encode_split:
  assumes "wf_query q" and "CHR ''_'' \<notin> set d"
  shows "split_char (CHR ''_'') (encode q d) =
    [num_to_string (metric q), encodeArray (churn q), encodeArray (workload q),
     encodeArray (peer_configuration q), encodeArray (experiment_duration q),
     encodeArray (training_duration q), encodeArray (clustering_algorithm q),
     encodeArray (feedback_enabled q), d]"
proof -
  have "CHR ''_'' \<notin> set (num_to_string (metric q))"
    using assms(1) position_char [of "metric q"] not_digits by (auto simp: wf_query_def)
  then show ?thesis
    using assms unfolding encode_def wf_query_def
    by (simp add: split_char_append selection_codec.split_before split_char_no_sep)
qed

lemma decode_encode:
  assumes "wf_query q" and "CHR ''_'' \<notin> set d"
  shows "decode p d0 (Some (encode q d)) = (q, d, [])"
proof -
  have "\<not> is_ws (CHR ''_'')" by (simp add: is_ws_def code_def)
  moreover have "CHR ''_'' \<in> set (encode q d)" by (simp add: encode_def)
  ultimately have nonblank: "trim (encode q d) \<noteq> ''''" using trim_empty_iff by metis
  have fields: "parse_int 0 (num_to_string (metric q)) = metric q"
    using assms(1) position_codec.dec_enc by (simp add: wf_query_def)
  show ?thesis
    using assms(1) fields
    by (simp add: decode_def nonblank encode_split [OF assms] decode_field_def
        wf_query_def selection_codec.dec_enc)
qed

section \<open>What matches computes\<close>

text \<open>A table of scenarios: every filtered property is text, and no inherited key.\<close>

definition filter_properties :: "string list" where
  "filter_properties = [''churn'', ''workload'', ''peer_configuration'', ''experiment_duration'',
     ''training_duration'', ''clustering_algorithm'', ''feedback_enabled'']"

definition table_row :: "jsval \<Rightarrow> bool" where
  "table_row e = (case e of
     Obj ps \<Rightarrow> list_all (\<lambda>p. case get_own ps p of
       Str s \<Rightarrow> s \<notin> set object_proto_keys | _ \<Rightarrow> False) filter_properties
   | _ \<Rightarrow> False)"

lemma table_row_value:
  assumes "table_row e" and "p \<in> set filter_properties"
  shows "get_or_undef e p = Str (key_of p e)" and "group_key p None e = Inr (key_of p e)"
    and "key_of p e \<notin> set object_proto_keys"
proof -
  obtain ps where e: "e = Obj ps" and all: "\<And>p. p \<in> set filter_properties \<Longrightarrow>
      (case get_own ps p of Str s \<Rightarrow> s \<notin> set object_proto_keys | _ \<Rightarrow> False)"
    using assms(1) by (cases e) (auto simp: table_row_def list_all_iff)
  obtain s where "get_own ps p = Str s" "s \<notin> set object_proto_keys"
    using all [OF assms(2)] by (cases "get_own ps p") auto
  then show "get_or_undef e p = Str (key_of p e)" "group_key p None e = Inr (key_of p e)"
    "key_of p e \<notin> set object_proto_keys"
    by (simp_all add: e get_or_undef_def group_key_def)
qed

lemma table_groupable:
  "list_all table_row rows \<Longrightarrow> p \<in> set filter_properties \<Longrightarrow> groupable p rows"
  using table_row_value(2,3) [of _ p] by (fastforce simp: groupable_def list_all_iff)

text \<open>The selections of a query, in the order the code filters by them.\<close>

definition selections :: "query \<Rightarrow> (string \<times> jsnum list) list" where
  "selections q = [(''churn'', churn q), (''workload'', workload q),
     (''peer_configuration'', peer_configuration q), (''experiment_duration'', experiment_duration q),
     (''training_duration'', training_duration q), (''clustering_algorithm'', clustering_algorithm q),
     (''feedback_enabled'', feedback_enabled q)]"

text \<open>The values of a property in enumeration order, and those a list of positions picks.\<close>

definition values_of :: "string \<Rightarrow> jsval list \<Rightarrow> string list" where
  "values_of p rows = (case property_keys p rows of Inr ks \<Rightarrow> ks | Inl _ \<Rightarrow> [])"

definition picked :: "jsval list \<Rightarrow> string \<times> jsnum list \<Rightarrow> jsval \<Rightarrow> bool" where
  "picked rows = (\<lambda>(p, sels) e. Str (key_of p e) \<in> set (map (key_at (values_of p rows)) sels))"

lemma property_keys_ok:
  "groupable p rows \<Longrightarrow> property_keys p rows = Inr (values_of p rows) \<and>
   set (values_of p rows) = key_of p ` set rows \<and> distinct (values_of p rows)"
proof -
  assume g: "groupable p rows"
  obtain gs where gs: "groupBy p None rows = Inr gs" using groupBy_ok [OF g] by blast
  then show ?thesis using groupBy_keys [OF g gs]
    by (simp add: property_keys_def values_of_def keys_of_def)
qed

lemma found_iff: "found p keys sels e \<longleftrightarrow> (\<exists>s \<in> set sels. loose_eq (get_or_undef e p) (key_at keys s))"
proof -
  have "foldl (\<lambda>f s. f \<or> Q s) b xs \<longleftrightarrow> b \<or> (\<exists>s \<in> set xs. Q s)" for Q b and xs :: "jsnum list"
    by (induction xs arbitrary: b) auto
  then show ?thesis by (simp add: found_def)
qed

lemma found_picked:
  assumes "table_row e" and "p \<in> set filter_properties"
  shows "found p (values_of p rows) sels e \<longleftrightarrow> picked rows (p, sels) e"
proof -
  have "loose_eq (Str (key_of p e)) (key_at (values_of p rows) s) \<longleftrightarrow>
      Str (key_of p e) = key_at (values_of p rows) s" for s
    by (auto simp: key_at_def split: option.splits)
  then show ?thesis
    using table_row_value [OF assms] by (auto simp: found_iff picked_def image_iff)
qed

text \<open>A selection is in range when each of its positions has a value.\<close>

definition in_range :: "string list \<Rightarrow> jsnum list \<Rightarrow> bool" where
  "in_range keys sels = list_all (\<lambda>s. case position_of s of None \<Rightarrow> False | Some i \<Rightarrow> i < length keys) sels"

lemma in_range_key:
  "in_range keys sels \<Longrightarrow> s \<in> set sels \<Longrightarrow> \<exists>i < length keys. position_of s = Some i \<and> key_at keys s = Str (keys ! i)"
  by (auto simp: in_range_def list_all_iff key_at_def list_at_def split: option.splits)

lemma churn_rows_ok:
  assumes "groupable ''churn'' rows" and "in_range (values_of ''churn'' rows) sels" and "s \<in> set sels"
  shows "churn_rows rows (values_of ''churn'' rows) s =
    Inr (filter (\<lambda>e. Str (key_of ''churn'' e) = key_at (values_of ''churn'' rows) s) rows)"
proof -
  let ?ks = "values_of ''churn'' rows"
  obtain i where i: "i < length ?ks" "key_at ?ks s = Str (?ks ! i)"
    using in_range_key [OF assms(2,3)] by blast
  obtain g where g: "groupBy ''churn'' None rows = Inr g" using groupBy_ok [OF assms(1)] by blast
  have "?ks ! i \<in> key_of ''churn'' ` set rows"
    using i property_keys_ok [OF assms(1)] nth_mem by blast
  then show ?thesis
    using groupBy_map_of [OF assms(1) g, of "?ks ! i"] by (simp add: churn_rows_def g i)
qed

lemma concat_filter_keys:
  "distinct ks \<Longrightarrow>
   mset (concat (map (\<lambda>k. filter (\<lambda>e. h e = k) es) ks)) = filter_mset (\<lambda>e. h e \<in> set ks) (mset es)"
proof (induction ks)
  case (Cons k ks)
  have "filter_mset (\<lambda>e. h e = k) M + filter_mset (\<lambda>e. h e \<in> set ks) M =
      filter_mset (\<lambda>e. h e \<in> set (k # ks)) M" for M
    using Cons.prems by (induction M) auto
  then show ?case using Cons by simp
qed simp

lemma key_at_distinct:
  assumes "distinct keys" and "distinct sels" and "is_selection sels" and "in_range keys sels"
  shows "distinct (map (key_at keys) sels)"
proof -
  have "s = t" if s: "s \<in> set sels" and t: "t \<in> set sels" and eq: "key_at keys s = key_at keys t" for s t
  proof -
    obtain i j where ij: "i < length keys" "j < length keys" "position_of s = Some i"
        "position_of t = Some j" "key_at keys s = Str (keys ! i)" "key_at keys t = Str (keys ! j)"
      using in_range_key [OF assms(4) s] in_range_key [OF assms(4) t] by blast
    then have "i = j" using eq assms(1) by (simp add: nth_eq_iff_index_eq)
    moreover obtain m n where "0 \<le> m" "s = num_of_int m" "0 \<le> n" "t = num_of_int n"
      using is_position_num_of_int [of s] is_position_num_of_int [of t] assms(3) s t
      by (auto simp: is_selection_def list_all_iff)
    ultimately show ?thesis
      using ij by (simp add: position_of_def)
  qed
  then show ?thesis using assms(2) by (simp add: distinct_map inj_on_def)
qed

lemma filter_found_picked:
  assumes "list_all table_row es" and "p \<in> set filter_properties"
  shows "filter (found p (values_of p rows) sels) es = filter (picked rows (p, sels)) es"
  using assms found_picked by (intro filter_cong) (auto simp: list_all_iff)

lemma filter_properties_mem:
  "''churn'' \<in> set filter_properties" "''workload'' \<in> set filter_properties"
  "''peer_configuration'' \<in> set filter_properties" "''experiment_duration'' \<in> set filter_properties"
  "''training_duration'' \<in> set filter_properties" "''clustering_algorithm'' \<in> set filter_properties"
  "''feedback_enabled'' \<in> set filter_properties"
  by (simp_all add: filter_properties_def)

text \<open>The rows the churn selections bring in, before the filters.\<close>

definition churn_hits :: "jsval list \<Rightarrow> jsnum list \<Rightarrow> jsval list" where
  "churn_hits rows sels = concat (map (\<lambda>k. filter (\<lambda>e. Str (key_of ''churn'' e) = k) rows)
     (map (key_at (values_of ''churn'' rows)) sels))"

lemma matches_filters:
  assumes rows: "list_all table_row rows" and range: "in_range (values_of ''churn'' rows) (churn q)"
  shows "matches q rows =
    Inr (filter (\<lambda>e. list_all (\<lambda>sel. picked rows sel e) (tl (selections q))) (churn_hits rows (churn q)))"
proof -
  have keys: "property_keys p rows = Inr (values_of p rows)" if "p \<in> set filter_properties" for p
    using property_keys_ok [OF table_groupable [OF rows that]] by blast
  have groups: "map_res (churn_rows rows (values_of ''churn'' rows)) (churn q) =
      Inr (map (\<lambda>s. filter (\<lambda>e. Str (key_of ''churn'' e) = key_at (values_of ''churn'' rows) s) rows) (churn q))"
    by (intro map_res_ok churn_rows_ok [OF _ range] table_groupable rows filter_properties_mem)
  have hits: "concat (map (\<lambda>s. filter (\<lambda>e. Str (key_of ''churn'' e) = key_at (values_of ''churn'' rows) s) rows) (churn q)) =
      churn_hits rows (churn q)"
    by (simp add: churn_hits_def comp_def)
  have t: "list_all table_row (churn_hits rows (churn q))"
    using rows by (auto simp: churn_hits_def list_all_iff)
  have t': "list_all table_row (filter P es)" if "list_all table_row es" for P es
    using that by (auto simp: list_all_iff)
  note step = filter_found_picked [OF _ filter_properties_mem(2)]
    filter_found_picked [OF _ filter_properties_mem(3)]
    filter_found_picked [OF _ filter_properties_mem(4)]
    filter_found_picked [OF _ filter_properties_mem(5)]
    filter_found_picked [OF _ filter_properties_mem(6)]
    filter_found_picked [OF _ filter_properties_mem(7)]
  have "matches q rows = Inr (filter (picked rows (''feedback_enabled'', feedback_enabled q))
      (filter (picked rows (''clustering_algorithm'', clustering_algorithm q))
      (filter (picked rows (''training_duration'', training_duration q))
      (filter (picked rows (''experiment_duration'', experiment_duration q))
      (filter (picked rows (''peer_configuration'', peer_configuration q))
      (filter (picked rows (''workload'', workload q)) (churn_hits rows (churn q))))))))"
    unfolding matches_def keys [OF filter_properties_mem(1)] keys [OF filter_properties_mem(2)]
      keys [OF filter_properties_mem(3)] keys [OF filter_properties_mem(4)]
      keys [OF filter_properties_mem(5)] keys [OF filter_properties_mem(6)]
      keys [OF filter_properties_mem(7)] bind_res_simps groups Let_def hits
    by (simp only: step t t')
  then show ?thesis
    by (simp only: selections_def list.sel filter_filter list.pred_inject conj_assoc simp_thms)
qed

lemma churn_hits_mset:
  assumes "list_all table_row rows" and "in_range (values_of ''churn'' rows) sels"
    and "distinct sels" and "is_selection sels"
  shows "mset (churn_hits rows sels) = filter_mset (picked rows (''churn'', sels)) (mset rows)"
proof -
  have "distinct (values_of ''churn'' rows)"
    using property_keys_ok table_groupable assms(1) filter_properties_mem(1) by blast
  then have "distinct (map (key_at (values_of ''churn'' rows)) sels)"
    using assms by (intro key_at_distinct)
  then show ?thesis
    unfolding churn_hits_def by (subst concat_filter_keys) (simp_all add: picked_def)
qed

text \<open>Each scenario that every filter picks is matched once, and no other.\<close>

lemma matches_mset:
  assumes "list_all table_row rows" and "in_range (values_of ''churn'' rows) (churn q)"
    and "distinct (churn q)" and "is_selection (churn q)" and "matches q rows = Inr ms"
  shows "mset ms = filter_mset (\<lambda>e. list_all (\<lambda>sel. picked rows sel e) (selections q)) (mset rows)"
proof -
  have "ms = filter (\<lambda>e. list_all (\<lambda>sel. picked rows sel e) (tl (selections q))) (churn_hits rows (churn q))"
    using matches_filters [OF assms(1,2)] assms(5) by simp
  then have "mset ms = filter_mset (\<lambda>e. list_all (\<lambda>sel. picked rows sel e) (tl (selections q)))
      (filter_mset (picked rows (''churn'', churn q)) (mset rows))"
    using churn_hits_mset [OF assms(1,2,3,4)] by simp
  also have "\<dots> = filter_mset (\<lambda>e. list_all (\<lambda>sel. picked rows sel e) (selections q)) (mset rows)"
    by (simp add: selections_def filter_filter_mset conj_ac)
  finally show ?thesis .
qed

lemma map_res_throws:
  "x \<in> set xs \<Longrightarrow> f x = Inl TypeError \<Longrightarrow> (\<And>y e. f y = Inl e \<Longrightarrow> e = TypeError) \<Longrightarrow>
   map_res f xs = Inl TypeError"
proof (induction xs)
  case (Cons a xs)
  show ?case
  proof (cases "f a")
    case (Inl e)
    then show ?thesis using Cons.prems(3) by simp
  next
    case (Inr b)
    then show ?thesis using Cons by auto
  qed
qed simp

lemma churn_rows_throws:
  assumes "groupable ''churn'' rows" and "''undefined'' \<notin> set (values_of ''churn'' rows)"
    and "\<not> in_range (values_of ''churn'' rows) [s]"
  shows "churn_rows rows (values_of ''churn'' rows) s = Inl TypeError"
proof -
  obtain g where g: "groupBy ''churn'' None rows = Inr g" using groupBy_ok [OF assms(1)] by blast
  have "key_at (values_of ''churn'' rows) s = Undefined"
    using assms(3) by (auto simp: in_range_def key_at_def list_at_def split: option.splits)
  moreover have "''undefined'' \<notin> key_of ''churn'' ` set rows"
    using assms(2) property_keys_ok [OF assms(1)] by blast
  ultimately show ?thesis
    using groupBy_map_of [OF assms(1) g, of "''undefined''"] by (simp add: churn_rows_def g)
qed

lemma churn_rows_TypeError: "groupable ''churn'' rows \<Longrightarrow> churn_rows rows ks s = Inl e \<Longrightarrow> e = TypeError"
  using groupBy_ok [of "''churn''" rows] by (auto simp: churn_rows_def split: option.splits)

lemma matches_throws:
  assumes rows: "list_all table_row rows" and undef: "''undefined'' \<notin> set (values_of ''churn'' rows)"
    and range: "\<not> in_range (values_of ''churn'' rows) (churn q)"
  shows "matches q rows = Inl TypeError"
proof -
  have keys: "property_keys p rows = Inr (values_of p rows)" if "p \<in> set filter_properties" for p
    using property_keys_ok [OF table_groupable [OF rows that]] by blast
  have g: "groupable ''churn'' rows" by (intro table_groupable rows filter_properties_mem)
  obtain s where "s \<in> set (churn q)" "\<not> in_range (values_of ''churn'' rows) [s]"
    using range by (auto simp: in_range_def list_all_iff)
  then have "map_res (churn_rows rows (values_of ''churn'' rows)) (churn q) = Inl TypeError"
    using churn_rows_throws [OF g undef] churn_rows_TypeError [OF g] by (intro map_res_throws)
  then show ?thesis by (simp add: matches_def keys filter_properties_mem)
qed

lemma show_result_ok:
  assumes "show_result pl q s = (s', ops, Inr ())"
  shows "matches q (scenarios s) = Inr (scope.matches s') \<and>
    scope.metric s' = metric_at (scope.metrics s) (metric q)"
proof (cases "matches q (scenarios s)")
  case (Inr ms)
  let ?s1 = "show_matches ms (metric_at (scope.metrics s) (metric q)) s"
  obtain s1 rops r1 where r: "renderer pl ?s1 = (s1, rops, r1)" by (cases "renderer pl ?s1") auto
  have "s' = s1"
    using assms Inr r
    by (cases r1; cases "resizeElementHeight (window pl) (chart_list_offset pl)")
      (simp_all add: show_result_def)
  moreover have "scope.matches s1 = ms \<and> scope.metric s1 = metric_at (scope.metrics s) (metric q)"
    using r by (auto simp: renderer_def show_matches_def split: sum.splits)
  ultimately show ?thesis using Inr by simp
qed (use assms in \<open>simp add: show_result_def\<close>)

section \<open>Properties\<close>

text \<open>
  C6: decoding what \<open>encode\<close> wrote gives back the query and the data type, whatever the query was
  before and with nothing logged, for queries whose metric and selections are positions and data
  types without an underscore.
\<close>

theorem decode_encode_roundtrip:
  assumes "wf_query q" and "CHR ''_'' \<notin> set d"
  shows "decode p d0 (Some (encode q d)) = (q, d, [])"
  by (rule decode_encode [OF assms])

definition sample_query :: query where
  "sample_query = \<lparr>metric = Fin 0, churn = [Fin 1, Fin 0], workload = [Fin 0], peer_configuration = [Fin 0],
     experiment_duration = [Fin 0], training_duration = [Fin 0], clustering_algorithm = [Fin 0],
     feedback_enabled = [Fin 0]\<rparr>"

theorem decode_encode_roundtrip_witness:
  "decode empty_query ''overtime'' (Some (encode sample_query ''overall'')) = (sample_query, ''overall'', [])"
  by (rule decode_encode_roundtrip)
    (simp_all add: wf_query_def sample_query_def is_selection_def is_position_def)

text \<open>
  C3: \<open>matches\<close> returns exactly the scenarios that every one of the seven filters picks, each as
  often as it stands in the table, when the table is text and the churn selections are distinct
  positions that have a value.
\<close>

theorem matches_picked:
  assumes "list_all table_row rows" and "in_range (values_of ''churn'' rows) (churn q)"
    and "distinct (churn q)" and "is_selection (churn q)"
  shows "\<exists>ms. matches q rows = Inr ms \<and>
    mset ms = filter_mset (\<lambda>e. list_all (\<lambda>sel. picked rows sel e) (selections q)) (mset rows)"
  using matches_filters [OF assms(1,2)] matches_mset [OF assms] by blast

definition sample_rows :: "jsval list" where
  "sample_rows = [sample_scenario ''s1'' ''Heavy'', sample_scenario ''s2'' ''Light'']"

lemma sample_table: "list_all table_row sample_rows"
  by (simp add: sample_rows_def sample_scenario_def table_row_def filter_properties_def object_proto_keys_def)

lemma sample_churn_values: "values_of ''churn'' sample_rows = [''Heavy'', ''Light'']"
  by (simp add: sample_rows_def sample_scenario_def values_of_def property_keys_def groupBy_def
      group_push_def group_key_def object_proto_keys_def keys_of_def key_before_def is_array_index_def
      is_digit_def code_def)

theorem matches_picked_witness:
  "\<exists>ms. matches sample_query sample_rows = Inr ms \<and>
     mset ms = filter_mset (\<lambda>e. list_all (\<lambda>sel. picked sample_rows sel e) (selections sample_query)) (mset sample_rows)"
  by (rule matches_picked [OF sample_table])
    (simp_all add: sample_churn_values sample_query_def in_range_def position_of_def is_selection_def
      is_position_def)

text \<open>
  A churn selection without a value makes \<open>matches\<close> throw a \<open>TypeError\<close>, when no scenario has
  the churn level \<open>undefined\<close>. The other six filters do not throw for such a selection.
\<close>

theorem matches_bad_churn:
  assumes "list_all table_row rows" and "''undefined'' \<notin> set (values_of ''churn'' rows)"
  shows "matches q rows = Inl TypeError \<longleftrightarrow> \<not> in_range (values_of ''churn'' rows) (churn q)"
  using matches_throws [OF assms] matches_filters [OF assms(1)] by auto

theorem matches_bad_churn_witness:
  "matches (sample_query\<lparr>churn := [Fin 2]\<rparr>) sample_rows = Inl TypeError"
  using matches_bad_churn [OF sample_table, of "sample_query\<lparr>churn := [Fin 2]\<rparr>"]
  by (simp add: sample_churn_values in_range_def position_of_def)

text \<open>
  \<open>update\<close> sets the location hash to the encoding of the query before anything else; when it
  returns, the scope holds the matches of the query and its metric.
\<close>

theorem update_publishes:
  assumes "update pl q s = (s', ops, r)"
  shows "hd ops = SetHash (encode q (data_type s)) \<and>
    (r = Inr () \<longrightarrow> matches q (scenarios s) = Inr (scope.matches s') \<and>
       scope.metric s' = metric_at (scope.metrics s) (metric q))"
proof (cases "get_prop (metric_at (scope.metrics s) (metric q)) ''name''")
  case (Inl e)
  then show ?thesis using assms by (auto simp: update_def Let_def)
next
  case (Inr name)
  obtain s1 ops1 r1 where "show_result pl q s = (s1, ops1, r1)" by (cases "show_result pl q s") auto
  then show ?thesis using assms Inr show_result_ok [of pl q s s1 ops1] by (auto simp: update_def Let_def)
qed

theorem update_publishes_witness:
  "\<exists>s' ops r. update sample_platform sample_query (initial_scope sample_platform) = (s', ops, r) \<and>
     hd ops = SetHash (encode sample_query ''overtime'')"
proof -
  obtain s' ops r where u: "update sample_platform sample_query (initial_scope sample_platform) = (s', ops, r)"
    by (cases "update sample_platform sample_query (initial_scope sample_platform)") auto
  then show ?thesis using update_publishes [OF u] by (simp add: initial_scope_def)
qed

end
