(* ===== verification/Action.thy ===== *)
theory Action
  imports Query
begin

text \<open>
  action.js: the handlers behind the page's links, check boxes and radio buttons; and the page as
  a state machine whose steps are those events and reloads. A world is the query and the scope of
  the modules with what of the page they share: the location hash and the boxes checked.
\<close>

section \<open>Handlers\<close>

type_synonym outcome = "query \<times> scope \<times> dom_op list \<times> unit res"

definition run_update :: "platform \<Rightarrow> query \<Rightarrow> scope \<Rightarrow> outcome" where
  "run_update pl q s = (let (s', ops, r) = update pl q s in (q, s', ops, r))"

definition metricClicked :: "platform \<Rightarrow> jsnum \<Rightarrow> query \<Rightarrow> scope \<Rightarrow> outcome" where
  "metricClicked pl index q s = run_update pl (q\<lparr>metric := index\<rparr>) s"

text \<open>\<open>query[property]\<close>, where it is one of the lists.\<close>

definition selection_of :: "string \<Rightarrow> query \<Rightarrow> jsnum list option" where
  "selection_of property q = map_of (selections q) property"

definition set_selection :: "string \<Rightarrow> jsnum list \<Rightarrow> query \<Rightarrow> query" where
  "set_selection property sel q =
     (if property = ''churn'' then q\<lparr>churn := sel\<rparr>
      else if property = ''workload'' then q\<lparr>workload := sel\<rparr>
      else if property = ''peer_configuration'' then q\<lparr>peer_configuration := sel\<rparr>
      else if property = ''experiment_duration'' then q\<lparr>experiment_duration := sel\<rparr>
      else if property = ''training_duration'' then q\<lparr>training_duration := sel\<rparr>
      else if property = ''clustering_algorithm'' then q\<lparr>clustering_algorithm := sel\<rparr>
      else if property = ''feedback_enabled'' then q\<lparr>feedback_enabled := sel\<rparr>
      else q)"

text \<open>
  The list is changed in place. On any other property of the query \<open>indexOf\<close> is missing, so the
  handler throws before it does anything.
\<close>

definition filterChecked :: "platform \<Rightarrow> bool \<Rightarrow> jsnum \<Rightarrow> string \<Rightarrow> query \<Rightarrow> scope \<Rightarrow> outcome" where
  "filterChecked pl is_checked index property q s = (case selection_of property q of
     None \<Rightarrow> (q, s, [], Inl TypeError)
   | Some selection \<Rightarrow>
       let selection' = (if \<not> is_checked then fst (removeIfExists num_eq index selection)
         else fst (addIfAbsent num_eq index selection))
       in run_update pl (set_selection property selection' q) s)"

definition dataTypeChanged :: "platform \<Rightarrow> string \<Rightarrow> query \<Rightarrow> scope \<Rightarrow> outcome" where
  "dataTypeChanged pl val q s = run_update pl q (set_data_type val s)"

section \<open>The page as a state machine\<close>

record world =
  the_query :: query
  the_scope :: scope
  location_hash :: string
  checked :: "string set"

definition run_op :: "world \<Rightarrow> dom_op \<Rightarrow> world" where
  "run_op w op = (case op of
     SetHash h \<Rightarrow> w\<lparr>location_hash := CHR ''#'' # h\<rparr>
   | CheckBox selector \<Rightarrow> w\<lparr>checked := insert selector (checked w)\<rparr>
   | _ \<Rightarrow> w)"

definition settle :: "world \<Rightarrow> outcome \<Rightarrow> world" where
  "settle w = (\<lambda>(q, s, ops, r). (foldl run_op w ops)\<lparr>the_query := q, the_scope := s\<rparr>)"

text \<open>Loading the page at a hash: every box is clear, and the query is the module's own.\<close>

definition page_load :: "platform \<Rightarrow> string \<Rightarrow> world" where
  "page_load pl h = settle \<lparr>the_query = empty_query, the_scope = initial_scope pl,
     location_hash = h, checked = {}\<rparr> (init pl h empty_query (initial_scope pl))"

definition box_id :: "string \<Rightarrow> jsnum \<Rightarrow> string" where
  "box_id property_name selection = ''#'' @ property_name @ ''_'' @ num_to_string selection"

text \<open>The browser turns the box over before it calls the handler.\<close>

definition toggle_box :: "string \<Rightarrow> world \<Rightarrow> world" where
  "toggle_box b w = w\<lparr>checked := (if b \<in> checked w then checked w - {b} else insert b (checked w))\<rparr>"

definition data_types :: "string list" where
  "data_types = [''overtime'', ''overall'', ''btraining'', ''atraining'', ''batraining'']"

text \<open>What the sidebar lists: the metrics, which are all rows.\<close>

definition listed :: "scope \<Rightarrow> jsnum \<Rightarrow> bool" where
  "listed s n \<longleftrightarrow> is_position n \<and> is_row (metric_at (scope.metrics s) n)"

text \<open>
  One event. The page offers only the metrics it lists, positions under the seven properties, and
  the five data types.
\<close>

inductive step :: "platform \<Rightarrow> world \<Rightarrow> world \<Rightarrow> bool" for pl where
  click: "listed (the_scope w) n \<Longrightarrow>
     step pl w (settle w (metricClicked pl n (the_query w) (the_scope w)))"
| check: "is_position n \<Longrightarrow> p \<in> set filter_properties \<Longrightarrow> w' = toggle_box (box_id p n) w \<Longrightarrow>
     step pl w (settle w' (filterChecked pl (box_id p n \<in> checked w') n p (the_query w) (the_scope w)))"
| choose: "d \<in> set data_types \<Longrightarrow>
     step pl w (settle w (dataTypeChanged pl d (the_query w) (the_scope w)))"
| reload: "step pl w (page_load pl (location_hash w))"

inductive reachable :: "platform \<Rightarrow> world \<Rightarrow> bool" for pl where
  start: "reachable pl (page_load pl '''')"
| after: "reachable pl w \<Longrightarrow> step pl w w' \<Longrightarrow> reachable pl w'"

inductive_cases stepE: "step pl w w'"

section \<open>Facts about update\<close>

text \<open>
  What the drawing part of an update leaves alone: the data type, the tables, the hash and the
  boxes.
\<close>

definition quiet :: "dom_op list \<Rightarrow> bool" where
  "quiet ops = list_all (\<lambda>op. case op of SetHash _ \<Rightarrow> False | CheckBox _ \<Rightarrow> False | _ \<Rightarrow> True) ops"

lemma quiet_simps [simp]:
  "quiet []" "quiet (a @ b) \<longleftrightarrow> quiet a \<and> quiet b"
  "quiet [SetHeight u v]" "quiet [DrawChart ps]" "quiet [SetText u w]"
  by (simp_all add: quiet_def)

lemma quiet_title: "quiet (title_ops ps)"
  by (simp add: title_ops_def Let_def split: sum.split)

lemma renderer_quiet: "renderer pl s = (s', ops, r) \<Longrightarrow> quiet ops"
  by (auto simp: renderer_def quiet_title split: sum.splits)

lemma renderer_scope:
  assumes "renderer pl s = (s', ops, r)"
  shows "data_type s' = data_type s \<and> scope.metrics s' = scope.metrics s \<and> scenarios s' = scenarios s"
  using assms by (auto simp: renderer_def split: sum.splits)

lemma show_result_frame:
  assumes "show_result pl q s = (s', ops, r)"
  shows "data_type s' = data_type s \<and> scope.metrics s' = scope.metrics s \<and>
    scenarios s' = scenarios s \<and> quiet ops"
proof (cases "matches q (scenarios s)")
  case (Inl e)
  then show ?thesis using assms by (simp add: show_result_def)
next
  case (Inr ms)
  obtain s1 rops r1 where r: "renderer pl (show_matches ms (metric_at (scope.metrics s) (metric q)) s) =
      (s1, rops, r1)"
    by (cases "renderer pl (show_matches ms (metric_at (scope.metrics s) (metric q)) s)") auto
  have "s' = s1" "quiet ops"
    using assms Inr r renderer_quiet [OF r]
    by (auto simp: show_result_def split: sum.splits)
  then show ?thesis using renderer_scope [OF r] by (simp add: show_matches_def)
qed

lemma update_cases:
  assumes "update pl q s = (s', ops, r)"
  obtains (no_metric) "ops = [SetHash (encode q (data_type s))]" "s' = s"
      "\<And>name. get_prop (metric_at (scope.metrics s) (metric q)) ''name'' \<noteq> Inr name"
    | (shown) name ops' where
      "ops = SetHash (encode q (data_type s)) # SetText ''#main_title'' name #
         RemoveClass ''#chart_list .active'' ''active'' #
         AddClass (''#metric_'' @ num_to_string (metric q)) ''active'' # all_check_ops q @ ops'"
      "show_result pl q s = (s', ops', r)"
proof (cases "get_prop (metric_at (scope.metrics s) (metric q)) ''name''")
  case (Inl e)
  then show thesis using assms by (intro no_metric) (auto simp: update_def Let_def)
next
  case (Inr name)
  obtain s1 ops1 r1 where "show_result pl q s = (s1, ops1, r1)" by (cases "show_result pl q s") auto
  then have "update pl q s = (s1, (SetHash (encode q (data_type s)) # SetText ''#main_title'' name #
         RemoveClass ''#chart_list .active'' ''active'' #
         AddClass (''#metric_'' @ num_to_string (metric q)) ''active'' # all_check_ops q) @ ops1, r1)"
    using Inr by (simp add: update_def Let_def)
  then show thesis using assms \<open>show_result pl q s = (s1, ops1, r1)\<close>
    by (intro shown [of name ops1]) auto
qed

lemma update_frame:
  assumes "update pl q s = (s', ops, r)"
  shows "data_type s' = data_type s" and "scope.metrics s' = scope.metrics s"
    and "scenarios s' = scenarios s"
  using assms by (cases rule: update_cases, auto dest: show_result_frame)+

lemma quiet_no_hash: "quiet ops \<Longrightarrow> SetHash h \<notin> set ops"
  by (auto simp: quiet_def list_all_iff)

lemma update_hash_first:
  assumes "update pl q s = (s', ops, r)"
  shows "\<exists>ops'. ops = SetHash (encode q (data_type s)) # ops' \<and> (\<forall>h. SetHash h \<notin> set ops')"
proof -
  have "SetHash h \<notin> set (all_check_ops q)" for h
    by (auto simp: all_check_ops_def check_ops_def)
  with assms show ?thesis
    by (cases rule: update_cases) (auto dest!: show_result_frame quiet_no_hash)
qed

text \<open>The boxes an operation list checks, and those of a query.\<close>

definition boxes :: "dom_op list \<Rightarrow> string set" where
  "boxes ops = {b. CheckBox b \<in> set ops}"

definition all_boxes :: "query \<Rightarrow> string set" where
  "all_boxes q = {box_id p n | p n. \<exists>sel. (p, sel) \<in> set (selections q) \<and> n \<in> set sel}"

lemma boxes_append [simp]: "boxes (a @ b) = boxes a \<union> boxes b"
  by (auto simp: boxes_def)

lemma boxes_Cons: "boxes (op # ops) = (case op of CheckBox b \<Rightarrow> {b} | _ \<Rightarrow> {}) \<union> boxes ops"
  by (auto simp: boxes_def split: dom_op.splits)

lemma boxes_Nil [simp]: "boxes [] = {}"
  by (simp add: boxes_def)

lemma boxes_check_ops: "boxes (check_ops p sel) = box_id p ` set sel"
  by (auto simp: boxes_def check_ops_def box_id_def)

lemma all_boxes_UN: "all_boxes q = (\<Union>(p, sel) \<in> set (selections q). box_id p ` set sel)"
  by (auto simp: all_boxes_def)

lemma boxes_all: "boxes (all_check_ops q) = all_boxes q"
  by (simp add: all_check_ops_def all_boxes_UN selections_def boxes_check_ops Un_assoc)

lemma quiet_boxes: "quiet ops \<Longrightarrow> boxes ops = {}"
  by (auto simp: quiet_def list_all_iff boxes_def)

lemma update_boxes:
  assumes "update pl q s = (s', ops, r)" and "listed s (metric q)"
  shows "boxes ops = all_boxes q"
  using assms(1)
proof (cases rule: update_cases)
  case no_metric
  then show ?thesis using assms(2) get_prop_row by (metis listed_def)
next
  case (shown name ops')
  then show ?thesis
    using show_result_frame [OF shown(2)] by (simp add: boxes_Cons boxes_all quiet_boxes)
qed

lemma run_ops_hash:
  "(\<forall>h. SetHash h \<notin> set ops) \<Longrightarrow> location_hash (foldl run_op w ops) = location_hash w"
proof (induction ops arbitrary: w)
  case (Cons op ops)
  have "(\<forall>h. SetHash h \<notin> set ops)" using Cons.prems by simp
  then have "location_hash (foldl run_op w (op # ops)) = location_hash (run_op w op)"
    using Cons.IH by simp
  also have "\<dots> = location_hash w"
    using Cons.prems by (cases op) (auto simp: run_op_def)
  finally show ?case .
qed simp

lemma run_ops_checked: "checked (foldl run_op w ops) = checked w \<union> boxes ops"
  by (induction ops arbitrary: w) (auto simp: run_op_def boxes_Cons split: dom_op.splits)

text \<open>Whatever becomes of the update, the hash is the encoding of what it was given.\<close>

lemma settle_update:
  assumes "w' = settle w (run_update pl q s)"
  shows "the_query w' = q" and "data_type (the_scope w') = data_type s"
    and "scope.metrics (the_scope w') = scope.metrics s"
    and "scenarios (the_scope w') = scenarios s"
    and "location_hash w' = CHR ''#'' # encode q (data_type s)"
    and "listed s (metric q) \<Longrightarrow> checked w' = checked w \<union> all_boxes q"
proof -
  obtain s' ops r where u: "update pl q s = (s', ops, r)" by (cases "update pl q s")
  have w': "w' = (foldl run_op w ops)\<lparr>the_query := q, the_scope := s'\<rparr>"
    by (simp add: assms run_update_def settle_def u)
  show "the_query w' = q" "data_type (the_scope w') = data_type s"
    "scope.metrics (the_scope w') = scope.metrics s" "scenarios (the_scope w') = scenarios s"
    using update_frame [OF u] by (simp_all add: w')
  obtain ops' where "ops = SetHash (encode q (data_type s)) # ops'" "\<forall>h. SetHash h \<notin> set ops'"
    using update_hash_first [OF u] by blast
  then show "location_hash w' = CHR ''#'' # encode q (data_type s)"
    by (simp add: w' run_ops_hash) (simp add: run_op_def)
  show "listed s (metric q) \<Longrightarrow> checked w' = checked w \<union> all_boxes q"
    using update_boxes [OF u] by (simp add: w' run_ops_checked)
qed

section \<open>Facts about selections\<close>

lemma num_eq_position: "is_position x \<Longrightarrow> is_position y \<Longrightarrow> num_eq x y \<longleftrightarrow> x = y"
  by (auto simp: is_position_def num_eq_def split: jsnum.splits)

lemma index_of_position:
  "is_selection xs \<Longrightarrow> is_position x \<Longrightarrow> array_index_of num_eq xs x = array_index_of (=) xs x"
  by (intro array_index_of_cong) (auto simp: is_selection_def list_all_iff num_eq_position)

lemma add_position:
  assumes "is_selection xs" "is_position x" "distinct xs"
  shows "is_selection (fst (addIfAbsent num_eq x xs))" "distinct (fst (addIfAbsent num_eq x xs))"
    "set (fst (addIfAbsent num_eq x xs)) = insert x (set xs)"
proof -
  have "fst (addIfAbsent num_eq x xs) = (if x \<in> set xs then xs else xs @ [x])"
    using array_index_of_None [of "(=)" xs x] assms
    by (auto simp: addIfAbsent_def index_of_position split: option.splits)
  then show "is_selection (fst (addIfAbsent num_eq x xs))" "distinct (fst (addIfAbsent num_eq x xs))"
    "set (fst (addIfAbsent num_eq x xs)) = insert x (set xs)"
    using assms by (auto simp: is_selection_def)
qed

lemma remove_position:
  assumes "is_selection xs" "is_position x" "distinct xs"
  shows "is_selection (fst (removeIfExists num_eq x xs))" "distinct (fst (removeIfExists num_eq x xs))"
    "set (fst (removeIfExists num_eq x xs)) = set xs - {x}"
proof -
  have "fst (removeIfExists num_eq x xs) = remove1 x xs"
    using array_index_of_None [of "(=)" xs x] array_index_of_eq_Some [of xs x] assms
    by (auto simp: removeIfExists_def index_of_position remove1_idem split: option.splits)
  then show "is_selection (fst (removeIfExists num_eq x xs))" "distinct (fst (removeIfExists num_eq x xs))"
    "set (fst (removeIfExists num_eq x xs)) = set xs - {x}"
    using assms notin_set_remove1 by (fastforce simp: is_selection_def list_all_iff)+
qed

lemma selections_set:
  "p \<in> set filter_properties \<Longrightarrow>
   (selections (set_selection p sel q) = map (\<lambda>(k, v). (k, if k = p then sel else v)) (selections q)) \<and>
   metric (set_selection p sel q) = metric q"
  by (auto simp: filter_properties_def set_selection_def selections_def)

lemma wf_query_iff: "wf_query q \<longleftrightarrow> is_position (metric q) \<and> (\<forall>(p, sel) \<in> set (selections q). is_selection sel)"
  by (auto simp: wf_query_def selections_def)

lemma selections_keys: "map fst (selections q) = filter_properties"
  by (simp add: selections_def filter_properties_def)

lemma selection_of_mem: "p \<in> set filter_properties \<Longrightarrow> \<exists>sel. selection_of p q = Some sel \<and> (p, sel) \<in> set (selections q)"
  by (auto simp: filter_properties_def selection_of_def selections_def)

section \<open>Facts about box ids\<close>

lemma rev_field: "c \<notin> set n \<Longrightarrow> takeWhile (\<lambda>x. x \<noteq> c) (rev (p @ c # n)) = rev n"
  by (simp add: takeWhile_append)

lemma box_id_inject:
  assumes "is_position m" and "is_position n" and "box_id p m = box_id p' n"
  shows "p = p' \<and> m = n"
proof -
  have u: "CHR ''_'' \<notin> set (num_to_string m)" "CHR ''_'' \<notin> set (num_to_string n)"
    using assms(1,2) position_char not_digits by blast+
  have eq: "p @ CHR ''_'' # num_to_string m = p' @ CHR ''_'' # num_to_string n"
    using assms(3) by (simp add: box_id_def)
  then have "rev (num_to_string m) = rev (num_to_string n)"
    using rev_field [OF u(1), of p] rev_field [OF u(2), of p'] by metis
  then have n: "num_to_string m = num_to_string n" by simp
  then have "p = p'" using eq by simp
  then show ?thesis using position_codec.enc_inject [OF assms(1,2) n] by simp
qed

lemma box_in_all:
  assumes "wf_query q" and "is_position n" and "selection_of p q = Some sel"
  shows "box_id p n \<in> all_boxes q \<longleftrightarrow> n \<in> set sel"
proof
  assume "box_id p n \<in> all_boxes q"
  then obtain p' m sel' where m: "box_id p n = box_id p' m" "(p', sel') \<in> set (selections q)" "m \<in> set sel'"
    by (auto simp: all_boxes_def)
  then have "is_position m" using assms(1) by (auto simp: wf_query_iff is_selection_def list_all_iff)
  then have "p = p'" "n = m" using box_id_inject [OF assms(2) _ m(1)] by auto
  moreover have "distinct (map fst (selections q))"
    by (simp add: selections_keys filter_properties_def)
  ultimately show "n \<in> set sel"
    using m assms(3) by (simp add: selection_of_def)
next
  assume "n \<in> set sel"
  then show "box_id p n \<in> all_boxes q"
    using assms(3) by (auto simp: all_boxes_def selection_of_def dest: map_of_SomeD)
qed

text \<open>The boxes after one selection has changed.\<close>

lemma all_boxes_set:
  assumes "wf_query q" and "p \<in> set filter_properties" and "is_selection sel'"
  shows "all_boxes (set_selection p sel' q) = {box_id p' n | p' n. is_position n \<and>
    (if p' = p then n \<in> set sel' else box_id p' n \<in> all_boxes q)}"
    (is "_ = ?R")
proof -
  have sels: "selections (set_selection p sel' q) = map (\<lambda>(k, v). (k, if k = p then sel' else v)) (selections q)"
    using selections_set [OF assms(2)] by blast
  have pos: "is_position n" if "(k, v) \<in> set (selections q)" "n \<in> set v" for k v n
    using assms(1) that by (auto simp: wf_query_iff is_selection_def list_all_iff)
  have pos': "is_position n" if "n \<in> set sel'" for n
    using assms(3) that by (auto simp: is_selection_def list_all_iff)
  obtain sel where sel: "(p, sel) \<in> set (selections q)" using selection_of_mem [OF assms(2)] by blast
  show ?thesis
  proof (intro set_eqI iffI)
    fix b
    assume "b \<in> all_boxes (set_selection p sel' q)"
    then obtain k v n where "b = box_id k n" "(k, v) \<in> set (selections q)"
        "n \<in> set (if k = p then sel' else v)"
      unfolding all_boxes_def sels by auto
    then show "b \<in> ?R"
      using pos pos' by (fastforce simp: all_boxes_def split: if_splits)
  next
    fix b
    assume "b \<in> ?R"
    then obtain k n where b: "b = box_id k n" "is_position n"
        "if k = p then n \<in> set sel' else box_id k n \<in> all_boxes q" by blast
    show "b \<in> all_boxes (set_selection p sel' q)"
    proof (cases "k = p")
      case True
      then show ?thesis using b sel unfolding all_boxes_def sels by force
    next
      case False
      then obtain k' m v where m: "box_id k n = box_id k' m" "(k', v) \<in> set (selections q)" "m \<in> set v"
        using b by (auto simp: all_boxes_def)
      then have "k = k'" "n = m" using box_id_inject [OF b(2) pos [OF m(2,3)] m(1)] by auto
      then show ?thesis using False b m unfolding all_boxes_def sels by force
    qed
  qed
qed

section \<open>The invariant of the page\<close>

definition good :: "platform \<Rightarrow> world \<Rightarrow> bool" where
  "good pl w \<longleftrightarrow> wf_query (the_query w) \<and>
     (\<forall>(p, sel) \<in> set (selections (the_query w)). distinct sel) \<and>
     data_type (the_scope w) \<in> set data_types \<and>
     scope.metrics (the_scope w) = scope.metrics (initial_scope pl) \<and>
     scenarios (the_scope w) = scenarios (initial_scope pl) \<and>
     listed (the_scope w) (metric (the_query w)) \<and>
     location_hash w = CHR ''#'' # encode (the_query w) (data_type (the_scope w)) \<and>
     checked w = all_boxes (the_query w)"

lemma data_type_plain: "d \<in> set data_types \<Longrightarrow> CHR ''_'' \<notin> set d"
  by (auto simp: data_types_def)

lemma settle_ops: "settle w (q, s, ops1 @ ops2, r) = settle (foldl run_op w ops1) (q, s, ops2, r)"
  by (simp add: settle_def)

lemma mark_boxes: "boxes (mark_data_type d) = {}"
  by (simp add: boxes_def mark_data_type_def)

lemma page_load_update:
  assumes "decode empty_query (data_type (initial_scope pl)) (Some (drop 1 h)) = (q, d, [])"
  shows "\<exists>w. page_load pl h = settle w (run_update pl q (set_data_type d (initial_scope pl))) \<and> checked w = {}"
proof -
  obtain s' ops r where u: "update pl q (set_data_type d (initial_scope pl)) = (s', ops, r)"
    by (cases "update pl q (set_data_type d (initial_scope pl))") auto
  let ?w = "\<lparr>the_query = empty_query, the_scope = initial_scope pl, location_hash = h, checked = {}\<rparr>"
  have "init pl h empty_query (initial_scope pl) = (q, s', mark_data_type d @ ops, r)"
    using assms by (simp add: init_def u)
  then have "page_load pl h = settle (foldl run_op ?w (mark_data_type d))
      (run_update pl q (set_data_type d (initial_scope pl)))"
    by (simp add: page_load_def settle_ops run_update_def u)
  moreover have "checked (foldl run_op ?w (mark_data_type d)) = {}"
    by (simp add: run_ops_checked mark_boxes)
  ultimately show ?thesis by blast
qed

lemma listed_metrics: "scope.metrics s = scope.metrics s' \<Longrightarrow> listed s n = listed s' n"
  by (simp add: listed_def)

lemma good_settle:
  assumes "w' = settle w (run_update pl q s)"
    and "wf_query q" "\<forall>(p, sel) \<in> set (selections q). distinct sel" "data_type s \<in> set data_types"
    and "scope.metrics s = scope.metrics (initial_scope pl)" "scenarios s = scenarios (initial_scope pl)"
    and "listed s (metric q)" and "checked w \<subseteq> all_boxes q"
  shows "good pl w'"
  using assms(2-) settle_update [OF assms(1)] listed_metrics [of "the_scope w'" s]
  unfolding good_def by auto

lemma initial_scope_frame:
  "scope.metrics (set_data_type d s) = scope.metrics s" "scenarios (set_data_type d s) = scenarios s"
  "data_type (set_data_type d s) = d" "listed (set_data_type d s) n = listed s n"
  "data_type (initial_scope pl) = ''overtime''"
  by (simp_all add: set_data_type_def listed_def initial_scope_def)

lemma good_start:
  assumes "listed (initial_scope pl) (Fin 0)"
  shows "good pl (page_load pl '''')"
proof -
  have "decode empty_query (data_type (initial_scope pl)) (Some (drop 1 '''')) =
      (empty_query, ''overtime'', [])"
    by (simp add: decode_def trim_def initial_scope_frame)
  then obtain w where w: "page_load pl '''' =
      settle w (run_update pl empty_query (set_data_type ''overtime'' (initial_scope pl)))" "checked w = {}"
    using page_load_update by blast
  show ?thesis
    by (rule good_settle [OF w(1)])
      (use assms w(2) in \<open>auto simp: initial_scope_frame data_types_def empty_query_def
        wf_query_def is_position_def is_selection_def selections_def\<close>)
qed

lemma good_reload:
  assumes "good pl w"
  shows "good pl (page_load pl (location_hash w))"
    and "the_query (page_load pl (location_hash w)) = the_query w"
    and "data_type (the_scope (page_load pl (location_hash w))) = data_type (the_scope w)"
proof -
  let ?q = "the_query w" and ?d = "data_type (the_scope w)"
  have "decode empty_query (data_type (initial_scope pl)) (Some (drop 1 (location_hash w))) = (?q, ?d, [])"
    using assms by (simp add: good_def decode_encode data_type_plain)
  then obtain w0 where w0: "page_load pl (location_hash w) =
      settle w0 (run_update pl ?q (set_data_type ?d (initial_scope pl)))" "checked w0 = {}"
    using page_load_update by blast
  have "listed (initial_scope pl) (metric ?q)"
    using assms listed_metrics [of "the_scope w" "initial_scope pl"] by (simp add: good_def)
  then show "good pl (page_load pl (location_hash w))"
    using assms w0(2) by (intro good_settle [OF w0(1)]) (auto simp: good_def initial_scope_frame)
  show "the_query (page_load pl (location_hash w)) = ?q"
    "data_type (the_scope (page_load pl (location_hash w))) = ?d"
    using settle_update [OF w0(1)] by (simp_all add: initial_scope_frame)
qed

lemma good_check:
  assumes "good pl w" and n: "is_position n" and p: "p \<in> set filter_properties"
    and w': "w' = toggle_box (box_id p n) w"
  shows "good pl (settle w' (filterChecked pl (box_id p n \<in> checked w') n p (the_query w) (the_scope w)))"
proof -
  define q s where "q = the_query w" and "s = the_scope w"
  have q: "wf_query q" and d: "\<forall>(p, sel) \<in> set (selections q). distinct sel"
    and c: "checked w = all_boxes q"
    using assms(1) by (auto simp: good_def q_def)
  obtain sel where sel: "selection_of p q = Some sel" "(p, sel) \<in> set (selections q)"
    using selection_of_mem [OF p] by blast
  define sel' where "sel' = (if box_id p n \<notin> checked w' then fst (removeIfExists num_eq n sel)
      else fst (addIfAbsent num_eq n sel))"
  have s: "is_selection sel" "distinct sel" using q d sel(2) by (auto simp: wf_query_iff)
  have box: "box_id p n \<in> checked w' \<longleftrightarrow> n \<notin> set sel"
    using box_in_all [OF q n sel(1)] by (simp add: w' toggle_box_def c)
  have s': "is_selection sel'" "distinct sel'"
    and set': "set sel' = (if n \<in> set sel then set sel - {n} else insert n (set sel))"
    using add_position [OF s(1) n s(2)] remove_position [OF s(1) n s(2)] by (auto simp: sel'_def box)
  have handler: "filterChecked pl (box_id p n \<in> checked w') n p q s =
      run_update pl (set_selection p sel' q) s"
    by (simp add: filterChecked_def sel(1) sel'_def)
  have sels: "selections (set_selection p sel' q) = map (\<lambda>(k, v). (k, if k = p then sel' else v)) (selections q)"
    and m: "metric (set_selection p sel' q) = metric q"
    using selections_set [OF p] by auto
  have "checked w' \<subseteq> all_boxes (set_selection p sel' q)"
  proof
    fix b
    assume b: "b \<in> checked w'"
    show "b \<in> all_boxes (set_selection p sel' q)"
    proof (cases "b = box_id p n")
      case True
      then show ?thesis using b box n set' unfolding all_boxes_set [OF q p s'(1)] by auto
    next
      case False
      then have "b \<in> all_boxes q" using b by (simp add: w' toggle_box_def c split: if_splits)
      then obtain k v x where x: "b = box_id k x" "(k, v) \<in> set (selections q)" "x \<in> set v"
        by (auto simp: all_boxes_def)
      then have "is_position x" using q by (auto simp: wf_query_iff is_selection_def list_all_iff)
      moreover have "x \<in> set sel'" if "k = p"
      proof -
        have "x \<in> set sel" using box_in_all [OF q \<open>is_position x\<close> sel(1)] \<open>b \<in> all_boxes q\<close> x(1) that by simp
        then show ?thesis using False x(1) that set' by auto
      qed
      ultimately show ?thesis
        using x \<open>b \<in> all_boxes q\<close> unfolding all_boxes_set [OF q p s'(1)]
        by (intro CollectI exI [of _ k] exI [of _ x]) auto
    qed
  qed
  moreover have "wf_query (set_selection p sel' q)"
    "\<forall>(k, v) \<in> set (selections (set_selection p sel' q)). distinct v"
    using q d s' by (auto simp: wf_query_iff sels m)
  moreover have "data_type s \<in> set data_types" "scope.metrics s = scope.metrics (initial_scope pl)"
    "scenarios s = scenarios (initial_scope pl)" "listed s (metric (set_selection p sel' q))"
    using assms(1) by (simp_all add: good_def s_def m) (simp add: q_def)
  ultimately show ?thesis
    unfolding q_def [symmetric] s_def [symmetric] handler by (intro good_settle [OF refl])
qed

lemma good_step: "good pl w \<Longrightarrow> step pl w w' \<Longrightarrow> good pl w'"
proof (erule stepE)
  fix n
  assume g: "good pl w" and n: "listed (the_scope w) n"
    and w': "w' = settle w (metricClicked pl n (the_query w) (the_scope w))"
  have same: "selections (the_query w\<lparr>metric := n\<rparr>) = selections (the_query w)"
    by (simp add: selections_def)
  then have "all_boxes (the_query w\<lparr>metric := n\<rparr>) = all_boxes (the_query w)"
    by (simp add: all_boxes_def)
  then show "good pl w'"
    using g n unfolding w' metricClicked_def
    by (intro good_settle [OF refl]) (auto simp: good_def wf_query_iff same listed_def)
next
  fix d
  assume g: "good pl w" and d: "d \<in> set data_types"
    and w': "w' = settle w (dataTypeChanged pl d (the_query w) (the_scope w))"
  then show "good pl w'"
    unfolding w' dataTypeChanged_def
    by (intro good_settle [OF refl]) (auto simp: good_def initial_scope_frame)
qed (use good_check good_reload in blast)+

lemma reachable_good:
  "reachable pl w \<Longrightarrow> listed (initial_scope pl) (Fin 0) \<Longrightarrow> good pl w"
  by (induction rule: reachable.induct) (auto intro: good_start good_step)

section \<open>Properties\<close>

text \<open>
  C5: in every state the page can reach, whatever has been thrown on the way, the location hash is
  the encoding of the query and the data type, the selections are distinct positions, and the
  metric is one the sidebar lists; given that the table of metrics has a first row.
\<close>

theorem reachable_hash:
  assumes "reachable pl w" and "listed (initial_scope pl) (Fin 0)"
  shows "location_hash w = CHR ''#'' # encode (the_query w) (data_type (the_scope w)) \<and>
    (\<forall>(p, sel) \<in> set (selections (the_query w)). is_selection sel \<and> distinct sel) \<and>
    listed (the_scope w) (metric (the_query w))"
  using reachable_good [OF assms] by (auto simp: good_def wf_query_iff)

lemma sample_listed: "listed (initial_scope sample_platform) (Fin 0)"
  by (simp add: listed_def is_position_def initial_scope_def metric_at_def position_of_def read_csv_def
      read_url_def sample_platform_def is_row_def resultsPath_def)

theorem reachable_hash_witness:
  "location_hash (page_load sample_platform '''') = CHR ''#'' # encode
     (the_query (page_load sample_platform '''')) (data_type (the_scope (page_load sample_platform '''')))"
  using reachable_hash [OF reachable.start sample_listed] by blast

text \<open>
  C1: from every state the page can reach, loading the page afresh at its location hash brings
  back the query and the data type.
\<close>

theorem reload_restores:
  assumes "reachable pl w" and "listed (initial_scope pl) (Fin 0)"
  shows "the_query (page_load pl (location_hash w)) = the_query w \<and>
    data_type (the_scope (page_load pl (location_hash w))) = data_type (the_scope w)"
  using good_reload [OF reachable_good [OF assms]] by blast

theorem reload_restores_witness:
  "the_query (page_load sample_platform (location_hash (page_load sample_platform ''''))) =
   the_query (page_load sample_platform '''')"
  using reload_restores [OF reachable.start sample_listed] by blast

text \<open>
  C2: in every state the page can reach, the box of a value is checked exactly when the value is
  selected: the browser's toggling of the box, the handler's change of the list and the checking
  done by \<open>update\<close> and by a reload keep the two in step.
\<close>

theorem boxes_show_selections:
  assumes "reachable pl w" and "listed (initial_scope pl) (Fin 0)"
    and "is_position n" and "selection_of p (the_query w) = Some sel"
  shows "box_id p n \<in> checked w \<longleftrightarrow> n \<in> set sel"
  using reachable_good [OF assms(1,2)] box_in_all [OF _ assms(3,4)] by (simp add: good_def)

theorem boxes_show_selections_witness:
  "\<exists>sel. selection_of ''churn'' (the_query (page_load sample_platform '''')) = Some sel \<and>
     (box_id ''churn'' (Fin 0) \<in> checked (page_load sample_platform '''') \<longleftrightarrow> Fin 0 \<in> set sel)"
proof -
  obtain sel where "selection_of ''churn'' (the_query (page_load sample_platform '''')) = Some sel"
    by (simp add: selection_of_def selections_def)
  then show ?thesis
    using boxes_show_selections [OF reachable.start sample_listed, of "Fin 0" "''churn''" sel]
    by (simp add: is_position_def)
qed

text \<open>
  A click on the box of a value selects it when it was not selected and deselects it when it
  was, and leaves the other values of the property, the other properties, the metric and the data
  type as they were.
\<close>

theorem click_toggles:
  assumes "reachable pl w" and "listed (initial_scope pl) (Fin 0)"
    and "is_position n" and "p \<in> set filter_properties" and "selection_of p (the_query w) = Some sel"
    and "w' = toggle_box (box_id p n) w"
    and "filterChecked pl (box_id p n \<in> checked w') n p (the_query w) (the_scope w) = (q', s', ops, r)"
  shows "\<exists>sel'. selection_of p q' = Some sel' \<and>
    set sel' = (if n \<in> set sel then set sel - {n} else insert n (set sel)) \<and>
    (\<forall>p'. p' \<noteq> p \<longrightarrow> selection_of p' q' = selection_of p' (the_query w)) \<and>
    metric q' = metric (the_query w) \<and> data_type s' = data_type (the_scope w)"
proof -
  have g: "good pl w" by (rule reachable_good [OF assms(1,2)])
  have s: "is_selection sel" "distinct sel"
    using g map_of_SomeD [OF assms(5) [unfolded selection_of_def]] by (auto simp: good_def wf_query_iff)
  have box: "box_id p n \<in> checked w' \<longleftrightarrow> n \<notin> set sel"
    using box_in_all [OF _ assms(3,5)] g by (simp add: assms(6) toggle_box_def good_def)
  define sel' where "sel' = (if box_id p n \<notin> checked w' then fst (removeIfExists num_eq n sel)
      else fst (addIfAbsent num_eq n sel))"
  have set': "set sel' = (if n \<in> set sel then set sel - {n} else insert n (set sel))"
    using add_position [OF s(1) assms(3) s(2)] remove_position [OF s(1) assms(3) s(2)]
    by (auto simp: sel'_def box)
  have "run_update pl (set_selection p sel' (the_query w)) (the_scope w) = (q', s', ops, r)"
    using assms(5,7) by (simp add: filterChecked_def sel'_def)
  then have q': "q' = set_selection p sel' (the_query w)"
    and u: "update pl q' (the_scope w) = (s', ops, r)"
    by (auto simp: run_update_def Let_def split: prod.splits)
  have sels: "selections q' = map (\<lambda>(k, v). (k, if k = p then sel' else v)) (selections (the_query w))"
    and m: "metric q' = metric (the_query w)"
    using selections_set [OF assms(4)] by (auto simp: q')
  have look: "map_of (map (\<lambda>(k, v). (k, if k = p then x else v)) xs) k =
      (if k = p then map_option (\<lambda>_. x) (map_of xs k) else map_of xs k)" for x k and xs :: "(string \<times> jsnum list) list"
    by (induction xs) auto
  show ?thesis
    using assms(5) set' m update_frame(1) [OF u] by (auto simp: selection_of_def sels look)
qed

theorem click_toggles_witness:
  "\<exists>b q' s' ops r sel'. filterChecked sample_platform b (Fin 0) ''churn''
       (the_query (page_load sample_platform '''')) (the_scope (page_load sample_platform '''')) = (q', s', ops, r) \<and>
     selection_of ''churn'' q' = Some sel' \<and> metric q' = metric (the_query (page_load sample_platform ''''))"
proof -
  let ?w = "page_load sample_platform ''''"
  let ?b = "box_id ''churn'' (Fin 0) \<in> checked (toggle_box (box_id ''churn'' (Fin 0)) ?w)"
  obtain sel where sel: "selection_of ''churn'' (the_query ?w) = Some sel"
    by (simp add: selection_of_def selections_def)
  have n: "is_position (Fin 0)" and p: "''churn'' \<in> set filter_properties"
    by (simp_all add: is_position_def filter_properties_def)
  obtain q' s' ops r where f: "filterChecked sample_platform ?b (Fin 0) ''churn'' (the_query ?w) (the_scope ?w) =
      (q', s', ops, r)"
    by (cases "filterChecked sample_platform ?b (Fin 0) ''churn'' (the_query ?w) (the_scope ?w)") auto
  obtain sel' where "selection_of ''churn'' q' = Some sel'" "metric q' = metric (the_query ?w)"
    using click_toggles [OF reachable.start sample_listed n p sel refl f] by blast
  then show ?thesis by (intro exI conjI) (rule f)
qed

text \<open>
  \<open>filterChecked\<close> for a property that is not one of the seven lists throws a \<open>TypeError\<close>
  before it changes anything.
\<close>

theorem unknown_property:
  assumes "p \<notin> set filter_properties"
  shows "filterChecked pl c n p q s = (q, s, [], Inl TypeError)"
proof -
  have "selection_of p q = None"
    using assms by (simp add: selection_of_def map_of_eq_None_iff flip: selections_keys [of q])
  then show ?thesis by (simp add: filterChecked_def)
qed

theorem unknown_property_witness:
  "filterChecked sample_platform True (Fin 0) ''metric'' sample_query (sample_scope ''overall'') =
     (sample_query, sample_scope ''overall'', [], Inl TypeError)"
  by (rule unknown_property) (simp add: filter_properties_def)

end
