(* ===== verification/Main_Page.thy ===== *)
theory Main_Page
  imports Action
begin

text \<open>
  main.js: the module loader's configuration, the start of the page, and its reaction to the
  window being resized. The template engine is an argument.
\<close>

section \<open>Loading\<close>

definition require_config :: props where
  "require_config = [
    (''config'', Obj [(''waitSeconds'', int_val 30)]),
    (''baseUrl'', Str ''scripts''),
    (''paths'', Obj [
      (''jquery'', Str ''lib/jquery-1.11.0''),
      (''mark'', Str ''lib/markup-1.5.18''),
      (''json'', Str ''lib/json''),
      (''bootstrap'', Str ''lib/bootstrap-3.1.1''),
      (''highcharts'', Str ''lib/highcharts-4.0.1/highcharts''),
      (''highcharts_more'', Str ''lib/highcharts-4.0.1/highcharts-more''),
      (''highcharts_exporting'', Str ''lib/highcharts-4.0.1/modules/exporting''),
      (''highcharts_3d'', Str ''lib/highcharts-4.0.1/highcharts-3d''),
      (''highcharts_csv'', Str ''lib/highcharts-4.0.1/modules/export-csv''),
      (''highcharts_draggable_legend'', Str ''lib/highcharts-4.0.1/modules/draggable-legend-box''),
      (''papa'', Str ''lib/papaparse.min''),
      (''jstat'', Str ''lib/jstat.min'')]),
    (''shim'', Obj [
      (''bootstrap'', Obj [(''deps'', Arr [Str ''jquery''])]),
      (''papa'', Obj [(''deps'', Arr [Str ''jquery''])]),
      (''highcharts'', Obj [(''deps'', Arr [Str ''jquery''])]),
      (''highcharts_more'', Obj [(''deps'', Arr [Str ''jquery'', Str ''highcharts''])]),
      (''highcharts_exporting'', Obj [(''deps'', Arr [Str ''jquery'', Str ''highcharts''])]),
      (''highcharts_3d'', Obj [(''deps'', Arr [Str ''jquery'', Str ''highcharts''])]),
      (''highcharts_csv'', Obj [(''deps'', Arr [Str ''jquery'', Str ''highcharts''])]),
      (''highcharts_draggable_legend'', Obj [(''deps'', Arr [Str ''jquery'', Str ''highcharts''])])])]"

definition required_modules :: "string list" where
  "required_modules = [''jquery'', ''scope'', ''util'', ''query'', ''action'', ''mark'', ''bootstrap'',
     ''highcharts'', ''highcharts_more'', ''highcharts_exporting'', ''highcharts_3d'', ''highcharts_csv'',
     ''highcharts_draggable_legend'']"

section \<open>The start of the page\<close>

text \<open>
  \<open>mark_up template context\<close> is \<open>Mark.up(template, context)\<close>. The box labels of a property are
  the keys of the scenarios grouped by it. An exception stops the start where it is.
\<close>

type_synonym templates = "string \<Rightarrow> props \<Rightarrow> string"

definition read_text :: "platform \<Rightarrow> string \<Rightarrow> string" where
  "read_text pl url = fst (read_url (server pl) url)"

definition sidebar :: "templates \<Rightarrow> platform \<Rightarrow> scope \<Rightarrow> dom_op" where
  "sidebar mark_up pl s = SetHtml ''#chart_list''
     (mark_up (read_text pl ''templates/sidebar.html'') [(''metrics'', Arr (scope.metrics s))])"

definition filter_boxes :: "templates \<Rightarrow> platform \<Rightarrow> scope \<Rightarrow> string \<Rightarrow> dom_op res" where
  "filter_boxes mark_up pl s property_name =
     bind_res (property_keys property_name (scenarios s)) (\<lambda>keys.
       Inr (SetHtml (''#'' @ property_name @ ''_filters'')
         (mark_up (read_text pl ''templates/filter.html'')
           [(''labels'', Arr (map Str keys)), (''property_name'', Str property_name)])))"

fun all_filter_boxes :: "templates \<Rightarrow> platform \<Rightarrow> scope \<Rightarrow> string list \<Rightarrow> dom_op list \<times> unit res" where
  "all_filter_boxes mark_up pl s [] = ([], Inr ())"
| "all_filter_boxes mark_up pl s (p # ps) = (case filter_boxes mark_up pl s p of
     Inl e \<Rightarrow> ([], Inl e)
   | Inr op \<Rightarrow> (let (ops, r) = all_filter_boxes mark_up pl s ps in (op # ops, r)))"

definition start_page :: "templates \<Rightarrow> platform \<Rightarrow> string \<Rightarrow> query \<Rightarrow> scope \<Rightarrow> outcome" where
  "start_page mark_up pl hash_text q s =
     (case all_filter_boxes mark_up pl s
        [''churn'', ''workload'', ''peer_configuration'', ''experiment_duration'', ''training_duration'',
         ''clustering_algorithm'', ''feedback_enabled''] of
        (ops, Inl e) \<Rightarrow> (q, s, sidebar mark_up pl s # ops, Inl e)
      | (ops, Inr _) \<Rightarrow>
          (let (q', s', init_ops, r) = init pl hash_text q s
           in (q', s', sidebar mark_up pl s # ops @ init_ops, r)))"

section \<open>Resizing the window\<close>

text \<open>
  Every \<open>resize\<close> event runs the bound handler, which binds one more handler; the handlers bound by
  earlier events run in the same event, each clearing the timer kept in \<open>window.resizeEvt\<close> and
  setting a new one. A handler bound during an event does not run in it.
\<close>

record resize_state =
  inner_handlers :: nat
  pending :: "nat list"
  resizeEvt :: "nat option"
  next_timer :: nat
  resized :: nat

definition resize_start :: resize_state where
  "resize_start = \<lparr>inner_handlers = 0, pending = [], resizeEvt = None, next_timer = 0, resized = 0\<rparr>"

definition inner_resize :: "resize_state \<Rightarrow> resize_state" where
  "inner_resize st = (let live = (case resizeEvt st of None \<Rightarrow> pending st | Some t \<Rightarrow> removeAll t (pending st));
       t = next_timer st in
     st\<lparr>pending := live @ [t], resizeEvt := Some t, next_timer := Suc t\<rparr>)"

datatype window_event = Resized | TimerFired nat

definition window_step :: "resize_state \<Rightarrow> window_event \<Rightarrow> resize_state" where
  "window_step st ev = (case ev of
     Resized \<Rightarrow> (let st' = (inner_resize ^^ inner_handlers st) st in
       st'\<lparr>inner_handlers := Suc (inner_handlers st)\<rparr>)
   | TimerFired t \<Rightarrow>
       if t \<in> set (pending st) then st\<lparr>pending := removeAll t (pending st), resized := Suc (resized st)\<rparr>
       else st)"

section \<open>Facts\<close>

definition resize_inv :: "resize_state \<Rightarrow> bool" where
  "resize_inv st \<longleftrightarrow> pending st = [] \<or> (\<exists>t. pending st = [t] \<and> resizeEvt st = Some t)"

lemma inner_resize_inv: "resize_inv st \<Longrightarrow> resize_inv (inner_resize st)"
  by (auto simp: resize_inv_def inner_resize_def Let_def split: option.split)

lemma inner_resize_pending:
  assumes "resize_inv st"
  shows "pending (inner_resize st) = [next_timer st] \<and> inner_handlers (inner_resize st) = inner_handlers st \<and>
    resized (inner_resize st) = resized st"
  using assms by (auto simp: resize_inv_def inner_resize_def Let_def split: option.splits)

lemma inner_resizes:
  "resize_inv st \<Longrightarrow> resize_inv ((inner_resize ^^ n) st) \<and>
   inner_handlers ((inner_resize ^^ n) st) = inner_handlers st \<and>
   (0 < n \<longrightarrow> length (pending ((inner_resize ^^ n) st)) = 1)"
  by (induction n) (auto simp: inner_resize_inv inner_resize_pending)

lemma window_step_inv: "resize_inv st \<Longrightarrow> resize_inv (window_step st ev)"
proof (cases ev)
  case Resized
  assume "resize_inv st"
  then have "resize_inv ((inner_resize ^^ inner_handlers st) st)" using inner_resizes by blast
  then show ?thesis by (simp add: Resized window_step_def Let_def resize_inv_def)
next
  case (TimerFired t)
  assume "resize_inv st"
  then show ?thesis by (auto simp: TimerFired window_step_def resize_inv_def)
qed

lemma window_steps_inv: "resize_inv st \<Longrightarrow> resize_inv (foldl window_step st evs)"
  by (induction evs arbitrary: st) (auto simp: window_step_inv)

lemma window_steps_handlers:
  "resize_inv st \<Longrightarrow> inner_handlers (foldl window_step st evs) =
   inner_handlers st + length (filter (\<lambda>ev. ev = Resized) evs)"
proof (induction evs arbitrary: st)
  case (Cons ev evs)
  have "inner_handlers (window_step st ev) = inner_handlers st + (if ev = Resized then 1 else 0)"
    using inner_resizes [OF Cons.prems] by (cases ev) (simp_all add: window_step_def Let_def)
  then show ?case using Cons.IH [OF window_step_inv [OF Cons.prems]] by simp
qed simp

lemma resize_start_inv: "resize_inv resize_start"
  by (simp add: resize_inv_def resize_start_def)

lemma all_filter_boxes_ok:
  "(\<And>p. p \<in> set ps \<Longrightarrow> groupable p (scenarios s)) \<Longrightarrow>
   \<exists>ops. all_filter_boxes mark_up pl s ps = (ops, Inr ()) \<and>
     ops = map (\<lambda>p. SetHtml (''#'' @ p @ ''_filters'') (mark_up (read_text pl ''templates/filter.html'')
       [(''labels'', Arr (map Str (values_of p (scenarios s)))), (''property_name'', Str p)])) ps"
proof (induction ps)
  case (Cons p ps)
  have "property_keys p (scenarios s) = Inr (values_of p (scenarios s))"
    using property_keys_ok Cons.prems by simp
  then show ?case using Cons by (auto simp: filter_boxes_def)
qed simp

section \<open>Properties\<close>

text \<open>
  For a table of scenarios that is text, the page starts by filling the sidebar and then the
  seven lists of boxes, each with the values of its property in the order their positions refer
  to, and then runs \<open>init\<close> with the same state.
\<close>

theorem start_page_fills:
  assumes "list_all table_row (scenarios s)"
  shows "\<exists>init_ops q' s' r. init pl h q s = (q', s', init_ops, r) \<and>
    start_page mark_up pl h q s = (q', s', sidebar mark_up pl s #
      map (\<lambda>p. SetHtml (''#'' @ p @ ''_filters'') (mark_up (read_text pl ''templates/filter.html'')
        [(''labels'', Arr (map Str (values_of p (scenarios s)))), (''property_name'', Str p)]))
        filter_properties @ init_ops, r)"
proof -
  obtain q' s' init_ops r where i: "init pl h q s = (q', s', init_ops, r)"
    by (cases "init pl h q s") auto
  have g: "groupable p (scenarios s)" if "p \<in> set filter_properties" for p
    using table_groupable [OF assms that] .
  show ?thesis
    using all_filter_boxes_ok [of filter_properties s mark_up pl, OF g] i
    unfolding start_page_def filter_properties_def [symmetric] by auto
qed

theorem start_page_fills_witness:
  "\<exists>ops q' s' r. start_page (\<lambda>t c. t) sample_platform '''' empty_query
     ((sample_scope ''overall'')\<lparr>scenarios := sample_rows\<rparr>) = (q', s', ops, r) \<and> 8 \<le> length ops"
  using start_page_fills [of "(sample_scope ''overall'')\<lparr>scenarios := sample_rows\<rparr>" sample_platform
      "''''" empty_query "\<lambda>t c. t"] sample_table
  by (auto simp: filter_properties_def)

text \<open>
  After any sequence of resize events and timers at most one timer is pending, so however fast
  the events come the element is resized once per pause; and the page has bound as many inner
  handlers as there have been resize events.
\<close>

theorem resize_one_timer:
  "length (pending (foldl window_step resize_start evs)) \<le> 1 \<and>
   inner_handlers (foldl window_step resize_start evs) = length (filter (\<lambda>ev. ev = Resized) evs)"
  using window_steps_inv [OF resize_start_inv, of evs] window_steps_handlers [OF resize_start_inv, of evs]
  by (auto simp: resize_inv_def resize_start_def)

end
