(* ===== verification/Lib_Themes.thy ===== *)
theory Lib_Themes
  imports Themes
begin

text \<open>
  The chart themes shipped with Highcharts under lib/highcharts-4.0.1/themes, and
  \<open>Highcharts.setOptions\<close>, which each theme file ends with: the merge of the theme into the
  default options. The merge is another layering of options; unlike jQuery's it replaces arrays.
\<close>

section \<open>The merge\<close>

text \<open>
  \<open>merge_value key src value\<close> is what the merge stores under a key: a plain object is merged into
  the object that is there, or into a fresh one; anything else is stored as it is, and so is
  the element a chart is rendered to, and a node of the page. The trees cannot hold an array with
  named properties, which merging an object into an array would give.
\<close>

definition is_node :: "props \<Rightarrow> bool" where
  "is_node ps = (case get_own ps ''nodeType'' of Num _ \<Rightarrow> True | _ \<Rightarrow> False)"

fun merge_value :: "string \<Rightarrow> jsval \<Rightarrow> jsval \<Rightarrow> jsval"
  and merge_props :: "props \<Rightarrow> props \<Rightarrow> props" where
  "merge_value key src (Obj options) =
     (if key = ''renderTo'' \<or> is_node options then Obj options
      else Obj (merge_props (props_or_empty src) options))"
| "merge_value key src value = value"
| "merge_props copy [] = copy"
| "merge_props copy ((key, value) # options) =
     merge_props (put_prop key (merge_value key (get_own copy key) value) copy) options"

text \<open>\<open>merge\<close> of two and of many: a new object that all are merged into.\<close>

definition merge2 :: "props \<Rightarrow> props \<Rightarrow> props" where
  "merge2 a b = merge_props (merge_props [] a) b"

definition merge_all :: "props list \<Rightarrow> props" where
  "merge_all = foldl merge_props []"

text \<open>\<open>extend\<close>, which keeps what it copies as it is.\<close>

definition extend_with :: "props \<Rightarrow> props \<Rightarrow> props" where
  "extend_with = foldl (\<lambda>os (k, v). put_prop k v os)"

text \<open>\<open>setOptions\<close>: the new default options.\<close>

definition setOptions :: "props \<Rightarrow> props \<Rightarrow> props" where
  "setOptions default_options options = merge_props default_options options"

section \<open>Facts about the merge\<close>

lemma merge_props_notin: "k \<notin> fst ` set os \<Longrightarrow> map_of (merge_props t os) k = map_of t k"
proof (induction os arbitrary: t)
  case (Cons p os)
  then show ?case by (cases p) (auto simp: map_of_put_prop)
qed simp

lemma map_of_merge_props:
  "distinct (map fst os) \<Longrightarrow> map_of (merge_props t os) k =
    (case map_of os k of None \<Rightarrow> map_of t k | Some v \<Rightarrow> Some (merge_value k (get_own t k) v))"
proof (induction os arbitrary: t)
  case (Cons p os)
  obtain name v where p: "p = (name, v)" by (cases p)
  let ?t = "put_prop name (merge_value name (get_own t name) v) t"
  have IH: "map_of (merge_props ?t os) k =
      (case map_of os k of None \<Rightarrow> map_of ?t k | Some v \<Rightarrow> Some (merge_value k (get_own ?t k) v))"
    using Cons by (simp add: p)
  show ?case
  proof (cases "k = name")
    case True
    then have "map_of os k = None" using Cons.prems by (simp add: p map_of_eq_None_iff)
    then show ?thesis using True IH by (simp add: p map_of_put_prop)
  next
    case False
    then show ?thesis using IH by (simp add: p map_of_put_prop get_own_put_prop split: option.splits)
  qed
qed simp

lemma get_own_merge_props:
  "distinct (map fst os) \<Longrightarrow> get_own (merge_props t os) k =
    (case map_of os k of None \<Rightarrow> get_own t k | Some v \<Rightarrow> merge_value k (get_own t k) v)"
  by (auto simp: get_own_def map_of_merge_props split: option.splits)

lemma ordered_merge_props:
  "ordered_keys (keys_of t) \<Longrightarrow> ordered_keys (keys_of (merge_props t os))"
proof (induction os arbitrary: t)
  case (Cons p os)
  then show ?case by (cases p) (simp add: ordered_keys_put_prop)
qed simp

lemma wf_merge:
  "wf_val src \<Longrightarrow> wf_val v \<Longrightarrow> wf_val (merge_value k src v)"
  "wf_val (Obj t) \<Longrightarrow> list_all (\<lambda>p. wf_val (snd p)) os \<Longrightarrow> wf_val (Obj (merge_props t os))"
proof (induction k src v and t os rule: merge_value_merge_props.induct)
  case (1 key src options)
  then show ?case by (cases src) (auto simp: props_or_empty_def)
next
  case (4 copy key v options)
  have "wf_val (Obj (put_prop key (merge_value key (get_own copy key) v) copy))"
    using 4(1) 4(3,4) wf_get_own [OF 4(3)] by (simp add: wf_put_prop del: wf_val.simps)
  then show ?case using 4(2) 4(4) by simp
qed auto

lemma merge_props_absorb:
  assumes "ordered_keys (keys_of t)"
    and "\<And>k v. (k, v) \<in> set os \<Longrightarrow> \<exists>w. map_of t k = Some w \<and> merge_value k w v = w"
  shows "merge_props t os = t"
  using assms
proof (induction os)
  case (Cons p os)
  obtain k v where p: "p = (k, v)" by (cases p)
  obtain w where w: "map_of t k = Some w" "merge_value k w v = w"
    using Cons.prems(2) [of k v] by (auto simp: p)
  then have "put_prop k (merge_value k (get_own t k) v) t = t"
    using Cons.prems(1) by (simp add: get_own_def put_prop_same)
  moreover have "merge_props t os = t" using Cons.prems by (intro Cons.IH) auto
  ultimately show ?case by (simp add: p)
qed simp

lemma merge_value_idem:
  "wf_val src \<Longrightarrow> wf_val v \<Longrightarrow> merge_value k (merge_value k src v) v = merge_value k src v"
proof (induction v arbitrary: src k)
  case (Obj os)
  define t where "t = props_or_empty src"
  have t: "wf_val (Obj t)" using Obj.prems(1) by (cases src) (auto simp: t_def props_or_empty_def)
  have d: "distinct (map fst os)" using Obj.prems(2) by (simp add: ordered_keys_distinct)
  have "merge_props (merge_props t os) os = merge_props t os"
  proof (rule merge_props_absorb)
    show "ordered_keys (keys_of (merge_props t os))"
      using t by (intro ordered_merge_props) (simp add: keys_of_def)
    fix k v
    assume k: "(k, v) \<in> set os"
    have "map_of os k = Some v" using k d by (simp add: map_of_is_SomeI)
    then have m: "map_of (merge_props t os) k = Some (merge_value k (get_own t k) v)"
      using d by (simp add: map_of_merge_props)
    have "wf_val v" using Obj.prems(2) k by (auto simp: list_all_iff)
    then have "merge_value k (merge_value k (get_own t k) v) v = merge_value k (get_own t k) v"
      using k t wf_get_own by (intro Obj.IH [of "(k, v)"]) auto
    with m show "\<exists>w. map_of (merge_props t os) k = Some w \<and> merge_value k w v = w" by blast
  qed
  then show ?case by (simp add: t_def props_or_empty_def)
qed auto

text \<open>The merge is a layering of options.\<close>

interpretation chart_options: layering merge_props "[]" get_own "\<lambda>os k. k \<in> fst ` set os"
    "\<lambda>t. wf_val (Obj t)" "\<lambda>os. wf_val (Obj os)"
proof unfold_locales
  fix t os :: props and k :: string
  show "merge_props (merge_props t os) os = merge_props t os" if "wf_val (Obj t)" "wf_val (Obj os)"
  proof (rule merge_props_absorb)
    show "ordered_keys (keys_of (merge_props t os))"
      using that(1) by (intro ordered_merge_props) (simp add: keys_of_def)
    fix k v
    assume k: "(k, v) \<in> set os"
    have d: "distinct (map fst os)" using that(2) by (simp add: ordered_keys_distinct)
    then have "map_of (merge_props t os) k = Some (merge_value k (get_own t k) v)"
      using k by (simp add: map_of_merge_props map_of_is_SomeI)
    moreover have "wf_val v" using that(2) k by (auto simp: list_all_iff)
    then have "merge_value k (merge_value k (get_own t k) v) v = merge_value k (get_own t k) v"
      using that(1) wf_get_own by (intro merge_value_idem)
    ultimately show "\<exists>w. map_of (merge_props t os) k = Some w \<and> merge_value k w v = w" by blast
  qed
  show "wf_val (Obj os) \<Longrightarrow> k \<notin> fst ` set os \<Longrightarrow> get_own (merge_props t os) k = get_own t k"
    by (simp add: get_own_def merge_props_notin)
  show "wf_val (Obj ([] :: props))" by simp
  show "wf_val (Obj t) \<Longrightarrow> wf_val (Obj os) \<Longrightarrow> wf_val (Obj (merge_props t os))"
    by (rule wf_merge) simp_all
qed

section \<open>The themes\<close>

definition gray_options_1 :: props where
  "gray_options_1 = [
    (''colors'', Arr [Str ''#DDDF0D'', Str ''#7798BF'', Str ''#55BF3B'', Str ''#DF5353'', Str ''#aaeeee'',
      Str ''#ff0066'', Str ''#eeaaee'', Str ''#55BF3B'', Str ''#DF5353'', Str ''#7798BF'',
      Str ''#aaeeee'']),
    (''chart'', Obj [
      (''backgroundColor'', Obj [
        (''linearGradient'', Obj [
          (''x1'', int_val 0),
          (''y1'', int_val 0),
          (''x2'', int_val 0),
          (''y2'', int_val 1)]),
        (''stops'', Arr [Arr [int_val 0, Str ''rgb(96, 96, 96)''], Arr [int_val 1, Str ''rgb(16, 16, 16)'']])]),
      (''borderWidth'', int_val 0),
      (''borderRadius'', int_val 0),
      (''plotBackgroundColor'', Null),
      (''plotShadow'', Boolean False),
      (''plotBorderWidth'', int_val 0)]),
    (''title'', Obj [
      (''style'', Obj [
        (''color'', Str ''#FFF''),
        (''font'', Str ''16px Lucida Grande, Lucida Sans Unicode, Verdana, Arial, Helvetica, sans-serif'')])]),
    (''subtitle'', Obj [
      (''style'', Obj [
        (''color'', Str ''#DDD''),
        (''font'', Str ''12px Lucida Grande, Lucida Sans Unicode, Verdana, Arial, Helvetica, sans-serif'')])]),
    (''xAxis'', Obj [
      (''gridLineWidth'', int_val 0),
      (''lineColor'', Str ''#999''),
      (''tickColor'', Str ''#999''),
      (''labels'', Obj [(''style'', Obj [(''color'', Str ''#999''), (''fontWeight'', Str ''bold'')])]),
      (''title'', Obj [
        (''style'', Obj [
          (''color'', Str ''#AAA''),
          (''font'', Str ''bold 12px Lucida Grande, Lucida Sans Unicode, Verdana, Arial, Helvetica, sans-serif'')])])]),
    (''yAxis'', Obj [
      (''alternateGridColor'', Null),
      (''minorTickInterval'', Null),
      (''gridLineColor'', Str ''rgba(255, 255, 255, .1)''),
      (''minorGridLineColor'', Str ''rgba(255,255,255,0.07)''),
      (''lineWidth'', int_val 0),
      (''tickWidth'', int_val 0),
      (''labels'', Obj [(''style'', Obj [(''color'', Str ''#999''), (''fontWeight'', Str ''bold'')])]),
      (''title'', Obj [
        (''style'', Obj [
          (''color'', Str ''#AAA''),
          (''font'', Str ''bold 12px Lucida Grande, Lucida Sans Unicode, Verdana, Arial, Helvetica, sans-serif'')])])]),
    (''legend'', Obj [
      (''itemStyle'', Obj [(''color'', Str ''#CCC'')]),
      (''itemHoverStyle'', Obj [(''color'', Str ''#FFF'')]),
      (''itemHiddenStyle'', Obj [(''color'', Str ''#333'')])]),
    (''labels'', Obj [(''style'', Obj [(''color'', Str ''#CCC'')])]),
    (''tooltip'', Obj [
      (''backgroundColor'', Obj [
        (''linearGradient'', Obj [
          (''x1'', int_val 0),
          (''y1'', int_val 0),
          (''x2'', int_val 0),
          (''y2'', int_val 1)]),
        (''stops'', Arr [Arr [int_val 0, Str ''rgba(96, 96, 96, .8)''],
          Arr [int_val 1, Str ''rgba(16, 16, 16, .8)'']])]),
      (''borderWidth'', int_val 0),
      (''style'', Obj [(''color'', Str ''#FFF'')])]),
    (''plotOptions'', Obj [
      (''series'', Obj [(''nullColor'', Str ''#444444'')]),
      (''line'', Obj [
        (''dataLabels'', Obj [(''color'', Str ''#CCC'')]),
        (''marker'', Obj [(''lineColor'', Str ''#333'')])]),
      (''spline'', Obj [(''marker'', Obj [(''lineColor'', Str ''#333'')])]),
      (''scatter'', Obj [(''marker'', Obj [(''lineColor'', Str ''#333'')])]),
      (''candlestick'', Obj [(''lineColor'', Str ''white'')])]),
    (''toolbar'', Obj [(''itemStyle'', Obj [(''color'', Str ''#CCC'')])]),
    (''navigation'', Obj [
      (''buttonOptions'', Obj [
        (''symbolStroke'', Str ''#DDDDDD''),
        (''hoverSymbolStroke'', Str ''#FFFFFF''),
        (''theme'', Obj [
          (''fill'', Obj [
            (''linearGradient'', Obj [
              (''x1'', int_val 0),
              (''y1'', int_val 0),
              (''x2'', int_val 0),
              (''y2'', int_val 1)]),
            (''stops'', Arr [Arr [Num (to_double False (2 / 5)), Str ''#606060''],
              Arr [Num (to_double False (3 / 5)), Str ''#333333'']])]),
          (''stroke'', Str ''#000000'')])])])]"

definition gray_options_2 :: props where
  "gray_options_2 = [
    (''rangeSelector'', Obj [
      (''buttonTheme'', Obj [
        (''fill'', Obj [
          (''linearGradient'', Obj [
            (''x1'', int_val 0),
            (''y1'', int_val 0),
            (''x2'', int_val 0),
            (''y2'', int_val 1)]),
          (''stops'', Arr [Arr [Num (to_double False (2 / 5)), Str ''#888''],
            Arr [Num (to_double False (3 / 5)), Str ''#555'']])]),
        (''stroke'', Str ''#000000''),
        (''style'', Obj [(''color'', Str ''#CCC''), (''fontWeight'', Str ''bold'')]),
        (''states'', Obj [
          (''hover'', Obj [
            (''fill'', Obj [
              (''linearGradient'', Obj [
                (''x1'', int_val 0),
                (''y1'', int_val 0),
                (''x2'', int_val 0),
                (''y2'', int_val 1)]),
              (''stops'', Arr [Arr [Num (to_double False (2 / 5)), Str ''#BBB''],
                Arr [Num (to_double False (3 / 5)), Str ''#888'']])]),
            (''stroke'', Str ''#000000''),
            (''style'', Obj [(''color'', Str ''white'')])]),
          (''select'', Obj [
            (''fill'', Obj [
              (''linearGradient'', Obj [
                (''x1'', int_val 0),
                (''y1'', int_val 0),
                (''x2'', int_val 0),
                (''y2'', int_val 1)]),
              (''stops'', Arr [Arr [Num (to_double False (1 / 10)), Str ''#000''],
                Arr [Num (to_double False (3 / 10)), Str ''#333'']])]),
            (''stroke'', Str ''#000000''),
            (''style'', Obj [(''color'', Str ''yellow'')])])])]),
      (''inputStyle'', Obj [(''backgroundColor'', Str ''#333''), (''color'', Str ''silver'')]),
      (''labelStyle'', Obj [(''color'', Str ''silver'')])]),
    (''navigator'', Obj [
      (''handles'', Obj [(''backgroundColor'', Str ''#666''), (''borderColor'', Str ''#AAA'')]),
      (''outlineColor'', Str ''#CCC''),
      (''maskFill'', Str ''rgba(16, 16, 16, 0.5)''),
      (''series'', Obj [(''color'', Str ''#7798BF''), (''lineColor'', Str ''#A6C7ED'')])]),
    (''scrollbar'', Obj [
      (''barBackgroundColor'', Obj [
        (''linearGradient'', Obj [
          (''x1'', int_val 0),
          (''y1'', int_val 0),
          (''x2'', int_val 0),
          (''y2'', int_val 1)]),
        (''stops'', Arr [Arr [Num (to_double False (2 / 5)), Str ''#888''],
          Arr [Num (to_double False (3 / 5)), Str ''#555'']])]),
      (''barBorderColor'', Str ''#CCC''),
      (''buttonArrowColor'', Str ''#CCC''),
      (''buttonBackgroundColor'', Obj [
        (''linearGradient'', Obj [
          (''x1'', int_val 0),
          (''y1'', int_val 0),
          (''x2'', int_val 0),
          (''y2'', int_val 1)]),
        (''stops'', Arr [Arr [Num (to_double False (2 / 5)), Str ''#888''],
          Arr [Num (to_double False (3 / 5)), Str ''#555'']])]),
      (''buttonBorderColor'', Str ''#CCC''),
      (''rifleColor'', Str ''#FFF''),
      (''trackBackgroundColor'', Obj [
        (''linearGradient'', Obj [
          (''x1'', int_val 0),
          (''y1'', int_val 0),
          (''x2'', int_val 0),
          (''y2'', int_val 1)]),
        (''stops'', Arr [Arr [int_val 0, Str ''#000''], Arr [int_val 1, Str ''#333'']])]),
      (''trackBorderColor'', Str ''#666'')]),
    (''legendBackgroundColor'', Str ''rgba(48, 48, 48, 0.8)''),
    (''background2'', Str ''rgb(70, 70, 70)''),
    (''dataLabelsColor'', Str ''#444''),
    (''textColor'', Str ''#E0E0E0''),
    (''maskColor'', Str ''rgba(255,255,255,0.3)'')]"

definition gray_theme :: props where
  "gray_theme = gray_options_1 @ gray_options_2"

definition dark_blue_options_1 :: props where
  "dark_blue_options_1 = [
    (''colors'', Arr [Str ''#DDDF0D'', Str ''#55BF3B'', Str ''#DF5353'', Str ''#7798BF'', Str ''#aaeeee'',
      Str ''#ff0066'', Str ''#eeaaee'', Str ''#55BF3B'', Str ''#DF5353'', Str ''#7798BF'',
      Str ''#aaeeee'']),
    (''chart'', Obj [
      (''backgroundColor'', Obj [
        (''linearGradient'', Obj [
          (''x1'', int_val 0),
          (''y1'', int_val 0),
          (''x2'', int_val 1),
          (''y2'', int_val 1)]),
        (''stops'', Arr [Arr [int_val 0, Str ''rgb(48, 48, 96)''], Arr [int_val 1, Str ''rgb(0, 0, 0)'']])]),
      (''borderColor'', Str ''#000000''),
      (''borderWidth'', int_val 2),
      (''className'', Str ''dark-container''),
      (''plotBackgroundColor'', Str ''rgba(255, 255, 255, .1)''),
      (''plotBorderColor'', Str ''#CCCCCC''),
      (''plotBorderWidth'', int_val 1)]),
    (''title'', Obj [
      (''style'', Obj [
        (''color'', Str ''#C0C0C0''),
        (''font'', Str (''bold 16px '' @ [CHR 0x22] @ ''Trebuchet MS'' @ [CHR 0x22] @ '', Verdana, sans-serif''))])]),
    (''subtitle'', Obj [
      (''style'', Obj [
        (''color'', Str ''#666666''),
        (''font'', Str (''bold 12px '' @ [CHR 0x22] @ ''Trebuchet MS'' @ [CHR 0x22] @ '', Verdana, sans-serif''))])]),
    (''xAxis'', Obj [
      (''gridLineColor'', Str ''#333333''),
      (''gridLineWidth'', int_val 1),
      (''labels'', Obj [(''style'', Obj [(''color'', Str ''#A0A0A0'')])]),
      (''lineColor'', Str ''#A0A0A0''),
      (''tickColor'', Str ''#A0A0A0''),
      (''title'', Obj [
        (''style'', Obj [
          (''color'', Str ''#CCC''),
          (''fontWeight'', Str ''bold''),
          (''fontSize'', Str ''12px''),
          (''fontFamily'', Str ''Trebuchet MS, Verdana, sans-serif'')])])]),
    (''yAxis'', Obj [
      (''gridLineColor'', Str ''#333333''),
      (''labels'', Obj [(''style'', Obj [(''color'', Str ''#A0A0A0'')])]),
      (''lineColor'', Str ''#A0A0A0''),
      (''minorTickInterval'', Null),
      (''tickColor'', Str ''#A0A0A0''),
      (''tickWidth'', int_val 1),
      (''title'', Obj [
        (''style'', Obj [
          (''color'', Str ''#CCC''),
          (''fontWeight'', Str ''bold''),
          (''fontSize'', Str ''12px''),
          (''fontFamily'', Str ''Trebuchet MS, Verdana, sans-serif'')])])]),
    (''tooltip'', Obj [
      (''backgroundColor'', Str ''rgba(0, 0, 0, 0.75)''),
      (''style'', Obj [(''color'', Str ''#F0F0F0'')])]),
    (''toolbar'', Obj [(''itemStyle'', Obj [(''color'', Str ''silver'')])]),
    (''plotOptions'', Obj [
      (''line'', Obj [
        (''dataLabels'', Obj [(''color'', Str ''#CCC'')]),
        (''marker'', Obj [(''lineColor'', Str ''#333'')])]),
      (''spline'', Obj [(''marker'', Obj [(''lineColor'', Str ''#333'')])]),
      (''scatter'', Obj [(''marker'', Obj [(''lineColor'', Str ''#333'')])]),
      (''candlestick'', Obj [(''lineColor'', Str ''white'')])]),
    (''legend'', Obj [
      (''itemStyle'', Obj [
        (''font'', Str ''9pt Trebuchet MS, Verdana, sans-serif''),
        (''color'', Str ''#A0A0A0'')]),
      (''itemHoverStyle'', Obj [(''color'', Str ''#FFF'')]),
      (''itemHiddenStyle'', Obj [(''color'', Str ''#444'')])]),
    (''credits'', Obj [(''style'', Obj [(''color'', Str ''#666'')])]),
    (''labels'', Obj [(''style'', Obj [(''color'', Str ''#CCC'')])]),
    (''navigation'', Obj [
      (''buttonOptions'', Obj [
        (''symbolStroke'', Str ''#DDDDDD''),
        (''hoverSymbolStroke'', Str ''#FFFFFF''),
        (''theme'', Obj [
          (''fill'', Obj [
            (''linearGradient'', Obj [
              (''x1'', int_val 0),
              (''y1'', int_val 0),
              (''x2'', int_val 0),
              (''y2'', int_val 1)]),
            (''stops'', Arr [Arr [Num (to_double False (2 / 5)), Str ''#606060''],
              Arr [Num (to_double False (3 / 5)), Str ''#333333'']])]),
          (''stroke'', Str ''#000000'')])])])]"

definition dark_blue_options_2 :: props where
  "dark_blue_options_2 = [
    (''rangeSelector'', Obj [
      (''buttonTheme'', Obj [
        (''fill'', Obj [
          (''linearGradient'', Obj [
            (''x1'', int_val 0),
            (''y1'', int_val 0),
            (''x2'', int_val 0),
            (''y2'', int_val 1)]),
          (''stops'', Arr [Arr [Num (to_double False (2 / 5)), Str ''#888''],
            Arr [Num (to_double False (3 / 5)), Str ''#555'']])]),
        (''stroke'', Str ''#000000''),
        (''style'', Obj [(''color'', Str ''#CCC''), (''fontWeight'', Str ''bold'')]),
        (''states'', Obj [
          (''hover'', Obj [
            (''fill'', Obj [
              (''linearGradient'', Obj [
                (''x1'', int_val 0),
                (''y1'', int_val 0),
                (''x2'', int_val 0),
                (''y2'', int_val 1)]),
              (''stops'', Arr [Arr [Num (to_double False (2 / 5)), Str ''#BBB''],
                Arr [Num (to_double False (3 / 5)), Str ''#888'']])]),
            (''stroke'', Str ''#000000''),
            (''style'', Obj [(''color'', Str ''white'')])]),
          (''select'', Obj [
            (''fill'', Obj [
              (''linearGradient'', Obj [
                (''x1'', int_val 0),
                (''y1'', int_val 0),
                (''x2'', int_val 0),
                (''y2'', int_val 1)]),
              (''stops'', Arr [Arr [Num (to_double False (1 / 10)), Str ''#000''],
                Arr [Num (to_double False (3 / 10)), Str ''#333'']])]),
            (''stroke'', Str ''#000000''),
            (''style'', Obj [(''color'', Str ''yellow'')])])])]),
      (''inputStyle'', Obj [(''backgroundColor'', Str ''#333''), (''color'', Str ''silver'')]),
      (''labelStyle'', Obj [(''color'', Str ''silver'')])]),
    (''navigator'', Obj [
      (''handles'', Obj [(''backgroundColor'', Str ''#666''), (''borderColor'', Str ''#AAA'')]),
      (''outlineColor'', Str ''#CCC''),
      (''maskFill'', Str ''rgba(16, 16, 16, 0.5)''),
      (''series'', Obj [(''color'', Str ''#7798BF''), (''lineColor'', Str ''#A6C7ED'')])]),
    (''scrollbar'', Obj [
      (''barBackgroundColor'', Obj [
        (''linearGradient'', Obj [
          (''x1'', int_val 0),
          (''y1'', int_val 0),
          (''x2'', int_val 0),
          (''y2'', int_val 1)]),
        (''stops'', Arr [Arr [Num (to_double False (2 / 5)), Str ''#888''],
          Arr [Num (to_double False (3 / 5)), Str ''#555'']])]),
      (''barBorderColor'', Str ''#CCC''),
      (''buttonArrowColor'', Str ''#CCC''),
      (''buttonBackgroundColor'', Obj [
        (''linearGradient'', Obj [
          (''x1'', int_val 0),
          (''y1'', int_val 0),
          (''x2'', int_val 0),
          (''y2'', int_val 1)]),
        (''stops'', Arr [Arr [Num (to_double False (2 / 5)), Str ''#888''],
          Arr [Num (to_double False (3 / 5)), Str ''#555'']])]),
      (''buttonBorderColor'', Str ''#CCC''),
      (''rifleColor'', Str ''#FFF''),
      (''trackBackgroundColor'', Obj [
        (''linearGradient'', Obj [
          (''x1'', int_val 0),
          (''y1'', int_val 0),
          (''x2'', int_val 0),
          (''y2'', int_val 1)]),
        (''stops'', Arr [Arr [int_val 0, Str ''#000''], Arr [int_val 1, Str ''#333'']])]),
      (''trackBorderColor'', Str ''#666'')]),
    (''legendBackgroundColor'', Str ''rgba(0, 0, 0, 0.5)''),
    (''background2'', Str ''rgb(35, 35, 70)''),
    (''dataLabelsColor'', Str ''#444''),
    (''textColor'', Str ''#C0C0C0''),
    (''maskColor'', Str ''rgba(255,255,255,0.3)'')]"

definition dark_blue_theme :: props where
  "dark_blue_theme = dark_blue_options_1 @ dark_blue_options_2"

definition dark_green_options_1 :: props where
  "dark_green_options_1 = [
    (''colors'', Arr [Str ''#DDDF0D'', Str ''#55BF3B'', Str ''#DF5353'', Str ''#7798BF'', Str ''#aaeeee'',
      Str ''#ff0066'', Str ''#eeaaee'', Str ''#55BF3B'', Str ''#DF5353'', Str ''#7798BF'',
      Str ''#aaeeee'']),
    (''chart'', Obj [
      (''backgroundColor'', Obj [
        (''linearGradient'', Arr [int_val 0, int_val 0, int_val 250, int_val 500]),
        (''stops'', Arr [Arr [int_val 0, Str ''rgb(48, 96, 48)''], Arr [int_val 1, Str ''rgb(0, 0, 0)'']])]),
      (''borderColor'', Str ''#000000''),
      (''borderWidth'', int_val 2),
      (''className'', Str ''dark-container''),
      (''plotBackgroundColor'', Str ''rgba(255, 255, 255, .1)''),
      (''plotBorderColor'', Str ''#CCCCCC''),
      (''plotBorderWidth'', int_val 1)]),
    (''title'', Obj [
      (''style'', Obj [
        (''color'', Str ''#C0C0C0''),
        (''font'', Str (''bold 16px '' @ [CHR 0x22] @ ''Trebuchet MS'' @ [CHR 0x22] @ '', Verdana, sans-serif''))])]),
    (''subtitle'', Obj [
      (''style'', Obj [
        (''color'', Str ''#666666''),
        (''font'', Str (''bold 12px '' @ [CHR 0x22] @ ''Trebuchet MS'' @ [CHR 0x22] @ '', Verdana, sans-serif''))])]),
    (''xAxis'', Obj [
      (''gridLineColor'', Str ''#333333''),
      (''gridLineWidth'', int_val 1),
      (''labels'', Obj [(''style'', Obj [(''color'', Str ''#A0A0A0'')])]),
      (''lineColor'', Str ''#A0A0A0''),
      (''tickColor'', Str ''#A0A0A0''),
      (''title'', Obj [
        (''style'', Obj [
          (''color'', Str ''#CCC''),
          (''fontWeight'', Str ''bold''),
          (''fontSize'', Str ''12px''),
          (''fontFamily'', Str ''Trebuchet MS, Verdana, sans-serif'')])])]),
    (''yAxis'', Obj [
      (''gridLineColor'', Str ''#333333''),
      (''labels'', Obj [(''style'', Obj [(''color'', Str ''#A0A0A0'')])]),
      (''lineColor'', Str ''#A0A0A0''),
      (''minorTickInterval'', Null),
      (''tickColor'', Str ''#A0A0A0''),
      (''tickWidth'', int_val 1),
      (''title'', Obj [
        (''style'', Obj [
          (''color'', Str ''#CCC''),
          (''fontWeight'', Str ''bold''),
          (''fontSize'', Str ''12px''),
          (''fontFamily'', Str ''Trebuchet MS, Verdana, sans-serif'')])])]),
    (''tooltip'', Obj [
      (''backgroundColor'', Str ''rgba(0, 0, 0, 0.75)''),
      (''style'', Obj [(''color'', Str ''#F0F0F0'')])]),
    (''toolbar'', Obj [(''itemStyle'', Obj [(''color'', Str ''silver'')])]),
    (''plotOptions'', Obj [
      (''line'', Obj [
        (''dataLabels'', Obj [(''color'', Str ''#CCC'')]),
        (''marker'', Obj [(''lineColor'', Str ''#333'')])]),
      (''spline'', Obj [(''marker'', Obj [(''lineColor'', Str ''#333'')])]),
      (''scatter'', Obj [(''marker'', Obj [(''lineColor'', Str ''#333'')])]),
      (''candlestick'', Obj [(''lineColor'', Str ''white'')])]),
    (''legend'', Obj [
      (''itemStyle'', Obj [
        (''font'', Str ''9pt Trebuchet MS, Verdana, sans-serif''),
        (''color'', Str ''#A0A0A0'')]),
      (''itemHoverStyle'', Obj [(''color'', Str ''#FFF'')]),
      (''itemHiddenStyle'', Obj [(''color'', Str ''#444'')])]),
    (''credits'', Obj [(''style'', Obj [(''color'', Str ''#666'')])]),
    (''labels'', Obj [(''style'', Obj [(''color'', Str ''#CCC'')])]),
    (''navigation'', Obj [
      (''buttonOptions'', Obj [
        (''symbolStroke'', Str ''#DDDDDD''),
        (''hoverSymbolStroke'', Str ''#FFFFFF''),
        (''theme'', Obj [
          (''fill'', Obj [
            (''linearGradient'', Obj [
              (''x1'', int_val 0),
              (''y1'', int_val 0),
              (''x2'', int_val 0),
              (''y2'', int_val 1)]),
            (''stops'', Arr [Arr [Num (to_double False (2 / 5)), Str ''#606060''],
              Arr [Num (to_double False (3 / 5)), Str ''#333333'']])]),
          (''stroke'', Str ''#000000'')])])])]"

definition dark_green_options_2 :: props where
  "dark_green_options_2 = [
    (''rangeSelector'', Obj [
      (''buttonTheme'', Obj [
        (''fill'', Obj [
          (''linearGradient'', Obj [
            (''x1'', int_val 0),
            (''y1'', int_val 0),
            (''x2'', int_val 0),
            (''y2'', int_val 1)]),
          (''stops'', Arr [Arr [Num (to_double False (2 / 5)), Str ''#888''],
            Arr [Num (to_double False (3 / 5)), Str ''#555'']])]),
        (''stroke'', Str ''#000000''),
        (''style'', Obj [(''color'', Str ''#CCC''), (''fontWeight'', Str ''bold'')]),
        (''states'', Obj [
          (''hover'', Obj [
            (''fill'', Obj [
              (''linearGradient'', Obj [
                (''x1'', int_val 0),
                (''y1'', int_val 0),
                (''x2'', int_val 0),
                (''y2'', int_val 1)]),
              (''stops'', Arr [Arr [Num (to_double False (2 / 5)), Str ''#BBB''],
                Arr [Num (to_double False (3 / 5)), Str ''#888'']])]),
            (''stroke'', Str ''#000000''),
            (''style'', Obj [(''color'', Str ''white'')])]),
          (''select'', Obj [
            (''fill'', Obj [
              (''linearGradient'', Obj [
                (''x1'', int_val 0),
                (''y1'', int_val 0),
                (''x2'', int_val 0),
                (''y2'', int_val 1)]),
              (''stops'', Arr [Arr [Num (to_double False (1 / 10)), Str ''#000''],
                Arr [Num (to_double False (3 / 10)), Str ''#333'']])]),
            (''stroke'', Str ''#000000''),
            (''style'', Obj [(''color'', Str ''yellow'')])])])]),
      (''inputStyle'', Obj [(''backgroundColor'', Str ''#333''), (''color'', Str ''silver'')]),
      (''labelStyle'', Obj [(''color'', Str ''silver'')])]),
    (''navigator'', Obj [
      (''handles'', Obj [(''backgroundColor'', Str ''#666''), (''borderColor'', Str ''#AAA'')]),
      (''outlineColor'', Str ''#CCC''),
      (''maskFill'', Str ''rgba(16, 16, 16, 0.5)''),
      (''series'', Obj [(''color'', Str ''#7798BF''), (''lineColor'', Str ''#A6C7ED'')])]),
    (''scrollbar'', Obj [
      (''barBackgroundColor'', Obj [
        (''linearGradient'', Obj [
          (''x1'', int_val 0),
          (''y1'', int_val 0),
          (''x2'', int_val 0),
          (''y2'', int_val 1)]),
        (''stops'', Arr [Arr [Num (to_double False (2 / 5)), Str ''#888''],
          Arr [Num (to_double False (3 / 5)), Str ''#555'']])]),
      (''barBorderColor'', Str ''#CCC''),
      (''buttonArrowColor'', Str ''#CCC''),
      (''buttonBackgroundColor'', Obj [
        (''linearGradient'', Obj [
          (''x1'', int_val 0),
          (''y1'', int_val 0),
          (''x2'', int_val 0),
          (''y2'', int_val 1)]),
        (''stops'', Arr [Arr [Num (to_double False (2 / 5)), Str ''#888''],
          Arr [Num (to_double False (3 / 5)), Str ''#555'']])]),
      (''buttonBorderColor'', Str ''#CCC''),
      (''rifleColor'', Str ''#FFF''),
      (''trackBackgroundColor'', Obj [
        (''linearGradient'', Obj [
          (''x1'', int_val 0),
          (''y1'', int_val 0),
          (''x2'', int_val 0),
          (''y2'', int_val 1)]),
        (''stops'', Arr [Arr [int_val 0, Str ''#000''], Arr [int_val 1, Str ''#333'']])]),
      (''trackBorderColor'', Str ''#666'')]),
    (''legendBackgroundColor'', Str ''rgba(0, 0, 0, 0.5)''),
    (''background2'', Str ''rgb(35, 35, 70)''),
    (''dataLabelsColor'', Str ''#444''),
    (''textColor'', Str ''#C0C0C0''),
    (''maskColor'', Str ''rgba(255,255,255,0.3)'')]"

definition dark_green_theme :: props where
  "dark_green_theme = dark_green_options_1 @ dark_green_options_2"

definition dark_unica_options_1 :: props where
  "dark_unica_options_1 = [
    (''colors'', Arr [Str ''#2b908f'', Str ''#90ee7e'', Str ''#f45b5b'', Str ''#7798BF'', Str ''#aaeeee'',
      Str ''#ff0066'', Str ''#eeaaee'', Str ''#55BF3B'', Str ''#DF5353'', Str ''#7798BF'',
      Str ''#aaeeee'']),
    (''chart'', Obj [
      (''backgroundColor'', Obj [
        (''linearGradient'', Obj [
          (''x1'', int_val 0),
          (''y1'', int_val 0),
          (''x2'', int_val 1),
          (''y2'', int_val 1)]),
        (''stops'', Arr [Arr [int_val 0, Str ''#2a2a2b''], Arr [int_val 1, Str ''#3e3e40'']])]),
      (''style'', Obj [
        (''fontFamily'', Str ([CHR 0x27] @ ''Unica One'' @ [CHR 0x27] @ '', sans-serif''))]),
      (''plotBorderColor'', Str ''#606063'')]),
    (''title'', Obj [
      (''style'', Obj [
        (''color'', Str ''#E0E0E3''),
        (''textTransform'', Str ''uppercase''),
        (''fontSize'', Str ''20px'')])]),
    (''subtitle'', Obj [
      (''style'', Obj [(''color'', Str ''#E0E0E3''), (''textTransform'', Str ''uppercase'')])]),
    (''xAxis'', Obj [
      (''gridLineColor'', Str ''#707073''),
      (''labels'', Obj [(''style'', Obj [(''color'', Str ''#E0E0E3'')])]),
      (''lineColor'', Str ''#707073''),
      (''minorGridLineColor'', Str ''#505053''),
      (''tickColor'', Str ''#707073''),
      (''title'', Obj [(''style'', Obj [(''color'', Str ''#A0A0A3'')])])]),
    (''yAxis'', Obj [
      (''gridLineColor'', Str ''#707073''),
      (''labels'', Obj [(''style'', Obj [(''color'', Str ''#E0E0E3'')])]),
      (''lineColor'', Str ''#707073''),
      (''minorGridLineColor'', Str ''#505053''),
      (''tickColor'', Str ''#707073''),
      (''tickWidth'', int_val 1),
      (''title'', Obj [(''style'', Obj [(''color'', Str ''#A0A0A3'')])])]),
    (''tooltip'', Obj [
      (''backgroundColor'', Str ''rgba(0, 0, 0, 0.85)''),
      (''style'', Obj [(''color'', Str ''#F0F0F0'')])]),
    (''plotOptions'', Obj [
      (''series'', Obj [
        (''dataLabels'', Obj [(''color'', Str ''#B0B0B3'')]),
        (''marker'', Obj [(''lineColor'', Str ''#333'')])]),
      (''boxplot'', Obj [(''fillColor'', Str ''#505053'')]),
      (''candlestick'', Obj [(''lineColor'', Str ''white'')]),
      (''errorbar'', Obj [(''color'', Str ''white'')])]),
    (''legend'', Obj [
      (''itemStyle'', Obj [(''color'', Str ''#E0E0E3'')]),
      (''itemHoverStyle'', Obj [(''color'', Str ''#FFF'')]),
      (''itemHiddenStyle'', Obj [(''color'', Str ''#606063'')])]),
    (''credits'', Obj [(''style'', Obj [(''color'', Str ''#666'')])]),
    (''labels'', Obj [(''style'', Obj [(''color'', Str ''#707073'')])]),
    (''drilldown'', Obj [
      (''activeAxisLabelStyle'', Obj [(''color'', Str ''#F0F0F3'')]),
      (''activeDataLabelStyle'', Obj [(''color'', Str ''#F0F0F3'')])]),
    (''navigation'', Obj [
      (''buttonOptions'', Obj [
        (''symbolStroke'', Str ''#DDDDDD''),
        (''theme'', Obj [(''fill'', Str ''#505053'')])])])]"

definition dark_unica_options_2 :: props where
  "dark_unica_options_2 = [
    (''rangeSelector'', Obj [
      (''buttonTheme'', Obj [
        (''fill'', Str ''#505053''),
        (''stroke'', Str ''#000000''),
        (''style'', Obj [(''color'', Str ''#CCC'')]),
        (''states'', Obj [
          (''hover'', Obj [
            (''fill'', Str ''#707073''),
            (''stroke'', Str ''#000000''),
            (''style'', Obj [(''color'', Str ''white'')])]),
          (''select'', Obj [
            (''fill'', Str ''#000003''),
            (''stroke'', Str ''#000000''),
            (''style'', Obj [(''color'', Str ''white'')])])])]),
      (''inputBoxBorderColor'', Str ''#505053''),
      (''inputStyle'', Obj [(''backgroundColor'', Str ''#333''), (''color'', Str ''silver'')]),
      (''labelStyle'', Obj [(''color'', Str ''silver'')])]),
    (''navigator'', Obj [
      (''handles'', Obj [(''backgroundColor'', Str ''#666''), (''borderColor'', Str ''#AAA'')]),
      (''outlineColor'', Str ''#CCC''),
      (''maskFill'', Str ''rgba(255,255,255,0.1)''),
      (''series'', Obj [(''color'', Str ''#7798BF''), (''lineColor'', Str ''#A6C7ED'')]),
      (''xAxis'', Obj [(''gridLineColor'', Str ''#505053'')])]),
    (''scrollbar'', Obj [
      (''barBackgroundColor'', Str ''#808083''),
      (''barBorderColor'', Str ''#808083''),
      (''buttonArrowColor'', Str ''#CCC''),
      (''buttonBackgroundColor'', Str ''#606063''),
      (''buttonBorderColor'', Str ''#606063''),
      (''rifleColor'', Str ''#FFF''),
      (''trackBackgroundColor'', Str ''#404043''),
      (''trackBorderColor'', Str ''#404043'')]),
    (''legendBackgroundColor'', Str ''rgba(0, 0, 0, 0.5)''),
    (''background2'', Str ''#505053''),
    (''dataLabelsColor'', Str ''#B0B0B3''),
    (''textColor'', Str ''#C0C0C0''),
    (''contrastTextColor'', Str ''#F0F0F3''),
    (''maskColor'', Str ''rgba(255,255,255,0.3)'')]"

definition dark_unica_theme :: props where
  "dark_unica_theme = dark_unica_options_1 @ dark_unica_options_2"

definition grid_theme :: props where
  "grid_theme = [
    (''colors'', Arr [Str ''#058DC7'', Str ''#50B432'', Str ''#ED561B'', Str ''#DDDF00'', Str ''#24CBE5'',
      Str ''#64E572'', Str ''#FF9655'', Str ''#FFF263'', Str ''#6AF9C4'']),
    (''chart'', Obj [
      (''backgroundColor'', Obj [
        (''linearGradient'', Obj [
          (''x1'', int_val 0),
          (''y1'', int_val 0),
          (''x2'', int_val 1),
          (''y2'', int_val 1)]),
        (''stops'', Arr [Arr [int_val 0, Str ''rgb(255, 255, 255)''],
          Arr [int_val 1, Str ''rgb(240, 240, 255)'']])]),
      (''borderWidth'', int_val 2),
      (''plotBackgroundColor'', Str ''rgba(255, 255, 255, .9)''),
      (''plotShadow'', Boolean True),
      (''plotBorderWidth'', int_val 1)]),
    (''title'', Obj [
      (''style'', Obj [
        (''color'', Str ''#000''),
        (''font'', Str (''bold 16px '' @ [CHR 0x22] @ ''Trebuchet MS'' @ [CHR 0x22] @ '', Verdana, sans-serif''))])]),
    (''subtitle'', Obj [
      (''style'', Obj [
        (''color'', Str ''#666666''),
        (''font'', Str (''bold 12px '' @ [CHR 0x22] @ ''Trebuchet MS'' @ [CHR 0x22] @ '', Verdana, sans-serif''))])]),
    (''xAxis'', Obj [
      (''gridLineWidth'', int_val 1),
      (''lineColor'', Str ''#000''),
      (''tickColor'', Str ''#000''),
      (''labels'', Obj [
        (''style'', Obj [
          (''color'', Str ''#000''),
          (''font'', Str ''11px Trebuchet MS, Verdana, sans-serif'')])]),
      (''title'', Obj [
        (''style'', Obj [
          (''color'', Str ''#333''),
          (''fontWeight'', Str ''bold''),
          (''fontSize'', Str ''12px''),
          (''fontFamily'', Str ''Trebuchet MS, Verdana, sans-serif'')])])]),
    (''yAxis'', Obj [
      (''minorTickInterval'', Str ''auto''),
      (''lineColor'', Str ''#000''),
      (''lineWidth'', int_val 1),
      (''tickWidth'', int_val 1),
      (''tickColor'', Str ''#000''),
      (''labels'', Obj [
        (''style'', Obj [
          (''color'', Str ''#000''),
          (''font'', Str ''11px Trebuchet MS, Verdana, sans-serif'')])]),
      (''title'', Obj [
        (''style'', Obj [
          (''color'', Str ''#333''),
          (''fontWeight'', Str ''bold''),
          (''fontSize'', Str ''12px''),
          (''fontFamily'', Str ''Trebuchet MS, Verdana, sans-serif'')])])]),
    (''legend'', Obj [
      (''itemStyle'', Obj [
        (''font'', Str ''9pt Trebuchet MS, Verdana, sans-serif''),
        (''color'', Str ''black'')]),
      (''itemHoverStyle'', Obj [(''color'', Str ''#039'')]),
      (''itemHiddenStyle'', Obj [(''color'', Str ''gray'')])]),
    (''labels'', Obj [(''style'', Obj [(''color'', Str ''#99b'')])]),
    (''navigation'', Obj [(''buttonOptions'', Obj [(''theme'', Obj [(''stroke'', Str ''#CCCCCC'')])])])]"

definition grid_light_theme :: props where
  "grid_light_theme = [
    (''colors'', Arr [Str ''#7cb5ec'', Str ''#f7a35c'', Str ''#90ee7e'', Str ''#7798BF'', Str ''#aaeeee'',
      Str ''#ff0066'', Str ''#eeaaee'', Str ''#55BF3B'', Str ''#DF5353'', Str ''#7798BF'',
      Str ''#aaeeee'']),
    (''chart'', Obj [
      (''backgroundColor'', Null),
      (''style'', Obj [(''fontFamily'', Str ''Dosis, sans-serif'')])]),
    (''title'', Obj [
      (''style'', Obj [
        (''fontSize'', Str ''16px''),
        (''fontWeight'', Str ''bold''),
        (''textTransform'', Str ''uppercase'')])]),
    (''tooltip'', Obj [
      (''borderWidth'', int_val 0),
      (''backgroundColor'', Str ''rgba(219,219,216,0.8)''),
      (''shadow'', Boolean False)]),
    (''legend'', Obj [(''itemStyle'', Obj [(''fontWeight'', Str ''bold''), (''fontSize'', Str ''13px'')])]),
    (''xAxis'', Obj [
      (''gridLineWidth'', int_val 1),
      (''labels'', Obj [(''style'', Obj [(''fontSize'', Str ''12px'')])])]),
    (''yAxis'', Obj [
      (''minorTickInterval'', Str ''auto''),
      (''title'', Obj [(''style'', Obj [(''textTransform'', Str ''uppercase'')])]),
      (''labels'', Obj [(''style'', Obj [(''fontSize'', Str ''12px'')])])]),
    (''plotOptions'', Obj [(''candlestick'', Obj [(''lineColor'', Str ''#404048'')])]),
    (''background2'', Str ''#F0F0EA'')]"

definition sand_signika_theme :: props where
  "sand_signika_theme = [
    (''colors'', Arr [Str ''#f45b5b'', Str ''#8085e9'', Str ''#8d4654'', Str ''#7798BF'', Str ''#aaeeee'',
      Str ''#ff0066'', Str ''#eeaaee'', Str ''#55BF3B'', Str ''#DF5353'', Str ''#7798BF'',
      Str ''#aaeeee'']),
    (''chart'', Obj [
      (''backgroundColor'', Null),
      (''style'', Obj [(''fontFamily'', Str ''Signika, serif'')])]),
    (''title'', Obj [
      (''style'', Obj [
        (''color'', Str ''black''),
        (''fontSize'', Str ''16px''),
        (''fontWeight'', Str ''bold'')])]),
    (''subtitle'', Obj [(''style'', Obj [(''color'', Str ''black'')])]),
    (''tooltip'', Obj [(''borderWidth'', int_val 0)]),
    (''legend'', Obj [(''itemStyle'', Obj [(''fontWeight'', Str ''bold''), (''fontSize'', Str ''13px'')])]),
    (''xAxis'', Obj [(''labels'', Obj [(''style'', Obj [(''color'', Str ''#6e6e70'')])])]),
    (''yAxis'', Obj [(''labels'', Obj [(''style'', Obj [(''color'', Str ''#6e6e70'')])])]),
    (''plotOptions'', Obj [
      (''series'', Obj [(''shadow'', Boolean True)]),
      (''candlestick'', Obj [(''lineColor'', Str ''#404048'')])]),
    (''navigator'', Obj [(''xAxis'', Obj [(''gridLineColor'', Str ''#D0D0D8'')])]),
    (''rangeSelector'', Obj [
      (''buttonTheme'', Obj [
        (''fill'', Str ''white''),
        (''stroke'', Str ''#C0C0C8''),
        (''stroke-width'', int_val 1),
        (''states'', Obj [(''select'', Obj [(''fill'', Str ''#D0D0D8'')])])])]),
    (''scrollbar'', Obj [(''trackBorderColor'', Str ''#C0C0C8'')]),
    (''background2'', Str ''#E0E0E8'')]"

definition skies_theme :: props where
  "skies_theme = [
    (''colors'', Arr [Str ''#514F78'', Str ''#42A07B'', Str ''#9B5E4A'', Str ''#72727F'', Str ''#1F949A'',
      Str ''#82914E'', Str ''#86777F'', Str ''#42A07B'']),
    (''chart'', Obj [
      (''className'', Str ''skies''),
      (''borderWidth'', int_val 0),
      (''plotShadow'', Boolean True),
      (''plotBackgroundImage'', Str ''http://www.highcharts.com/demo/gfx/skies.jpg''),
      (''plotBackgroundColor'', Obj [
        (''linearGradient'', Arr [int_val 0, int_val 0, int_val 250, int_val 500]),
        (''stops'', Arr [Arr [int_val 0, Str ''rgba(255, 255, 255, 1)''],
          Arr [int_val 1, Str ''rgba(255, 255, 255, 0)'']])]),
      (''plotBorderWidth'', int_val 1)]),
    (''title'', Obj [
      (''style'', Obj [
        (''color'', Str ''#3E576F''),
        (''font'', Str ''16px Lucida Grande, Lucida Sans Unicode, Verdana, Arial, Helvetica, sans-serif'')])]),
    (''subtitle'', Obj [
      (''style'', Obj [
        (''color'', Str ''#6D869F''),
        (''font'', Str ''12px Lucida Grande, Lucida Sans Unicode, Verdana, Arial, Helvetica, sans-serif'')])]),
    (''xAxis'', Obj [
      (''gridLineWidth'', int_val 0),
      (''lineColor'', Str ''#C0D0E0''),
      (''tickColor'', Str ''#C0D0E0''),
      (''labels'', Obj [(''style'', Obj [(''color'', Str ''#666''), (''fontWeight'', Str ''bold'')])]),
      (''title'', Obj [
        (''style'', Obj [
          (''color'', Str ''#666''),
          (''font'', Str ''12px Lucida Grande, Lucida Sans Unicode, Verdana, Arial, Helvetica, sans-serif'')])])]),
    (''yAxis'', Obj [
      (''alternateGridColor'', Str ''rgba(255, 255, 255, .5)''),
      (''lineColor'', Str ''#C0D0E0''),
      (''tickColor'', Str ''#C0D0E0''),
      (''tickWidth'', int_val 1),
      (''labels'', Obj [(''style'', Obj [(''color'', Str ''#666''), (''fontWeight'', Str ''bold'')])]),
      (''title'', Obj [
        (''style'', Obj [
          (''color'', Str ''#666''),
          (''font'', Str ''12px Lucida Grande, Lucida Sans Unicode, Verdana, Arial, Helvetica, sans-serif'')])])]),
    (''legend'', Obj [
      (''itemStyle'', Obj [
        (''font'', Str ''9pt Trebuchet MS, Verdana, sans-serif''),
        (''color'', Str ''#3E576F'')]),
      (''itemHoverStyle'', Obj [(''color'', Str ''black'')]),
      (''itemHiddenStyle'', Obj [(''color'', Str ''silver'')])]),
    (''labels'', Obj [(''style'', Obj [(''color'', Str ''#3E576F'')])])]"

text \<open>What three of the files do before they set the theme.\<close>

datatype theme_effect =
    CreateLink string
  | ContainerBackground string

definition dark_unica_effects :: "theme_effect list" where
  "dark_unica_effects = [CreateLink ''http://fonts.googleapis.com/css?family=Unica+One'']"

definition grid_light_effects :: "theme_effect list" where
  "grid_light_effects = [CreateLink ''http://fonts.googleapis.com/css?family=Dosis:400,600'']"

definition sand_signika_effects :: "theme_effect list" where
  "sand_signika_effects = [CreateLink ''http://fonts.googleapis.com/css?family=Signika:400,700'',
     ContainerBackground ''url(http://www.highcharts.com/samples/graphics/sand.png)'']"

definition lib_themes :: "(string \<times> props) list" where
  "lib_themes = [(''gray'', gray_theme), (''dark-blue'', dark_blue_theme),
     (''dark-green'', dark_green_theme), (''dark-unica'', dark_unica_theme), (''grid'', grid_theme),
     (''grid-light'', grid_light_theme), (''sand-signika'', sand_signika_theme), (''skies'', skies_theme)]"

section \<open>Facts about the themes\<close>

lemma wf_gray: "wf_val (Obj gray_theme)"
  by (simp add: gray_theme_def gray_options_1_def gray_options_2_def wf_eval)

lemma wf_dark_blue: "wf_val (Obj dark_blue_theme)"
  by (simp add: dark_blue_theme_def dark_blue_options_1_def dark_blue_options_2_def wf_eval)

lemma wf_dark_green: "wf_val (Obj dark_green_theme)"
  by (simp add: dark_green_theme_def dark_green_options_1_def dark_green_options_2_def wf_eval)

lemma wf_dark_unica: "wf_val (Obj dark_unica_theme)"
  by (simp add: dark_unica_theme_def dark_unica_options_1_def dark_unica_options_2_def wf_eval)

lemma wf_grid: "wf_val (Obj grid_theme)"
  by (simp add: grid_theme_def wf_eval)

lemma wf_grid_light: "wf_val (Obj grid_light_theme)"
  by (simp add: grid_light_theme_def wf_eval)

lemma wf_sand_signika: "wf_val (Obj sand_signika_theme)"
  by (simp add: sand_signika_theme_def wf_eval)

lemma wf_skies: "wf_val (Obj skies_theme)"
  by (simp add: skies_theme_def wf_eval)

lemma wf_lib_themes: "(n, t) \<in> set lib_themes \<Longrightarrow> wf_val (Obj t)"
  unfolding lib_themes_def
  using wf_gray wf_dark_blue wf_dark_green wf_dark_unica wf_grid wf_grid_light wf_sand_signika wf_skies
  by auto

lemma lib_theme_colors: "(n, t) \<in> set lib_themes \<Longrightarrow> \<exists>cs. get_own t ''colors'' = Arr cs"
  by (auto simp: lib_themes_def gray_theme_def gray_options_1_def dark_blue_theme_def
      dark_blue_options_1_def dark_green_theme_def dark_green_options_1_def dark_unica_theme_def
      dark_unica_options_1_def grid_theme_def grid_light_theme_def sand_signika_theme_def skies_theme_def)

section \<open>Properties\<close>

text \<open>
  Setting one of the shipped themes makes its colours the default colours, keeps every default
  option the theme does not name, keeps the options well formed, and setting it again changes
  nothing.
\<close>

theorem theme_applied:
  assumes "(n, t) \<in> set lib_themes" and "wf_val (Obj d)"
  shows "get_own (setOptions d t) ''colors'' = get_own t ''colors'' \<and>
    (\<forall>k. k \<notin> fst ` set t \<longrightarrow> get_own (setOptions d t) k = get_own d k) \<and>
    wf_val (Obj (setOptions d t)) \<and> setOptions (setOptions d t) t = setOptions d t"
proof -
  have wf: "wf_val (Obj t)" by (rule wf_lib_themes [OF assms(1)])
  obtain cs where cs: "get_own t ''colors'' = Arr cs" using lib_theme_colors [OF assms(1)] by blast
  then have m: "map_of t ''colors'' = Some (Arr cs)"
    by (cases "map_of t ''colors''") (auto simp: get_own_def)
  have "distinct (map fst t)" using wf by (simp add: ordered_keys_distinct)
  then have "get_own (setOptions d t) ''colors'' = Arr cs"
    by (simp add: setOptions_def get_own_merge_props m)
  then show ?thesis
    using cs chart_options.keeps [OF wf] chart_options.wf_layer [OF assms(2) wf]
      chart_options.idem [OF assms(2) wf]
    by (simp add: setOptions_def del: wf_val.simps)
qed

theorem theme_applied_witness:
  "get_own (setOptions [(''lang'', Obj [])] skies_theme) ''colors'' = get_own skies_theme ''colors''"
proof -
  have "(''skies'', skies_theme) \<in> set lib_themes" by (simp add: lib_themes_def)
  then show ?thesis
    using theme_applied [of "''skies''" skies_theme "[(''lang'', Obj [])]"]
    by (simp add: ordered_keys_def)
qed

end
