(* ===== verification/Lib_Alphanum.thy ===== *)
theory Lib_Alphanum
  imports Util_Arrays
begin

text \<open>
  lib/alphanum.js: natural-order sorting as an array method that cuts every element once, and as
  two comparison functions for the built-in \<open>sort\<close>. The main result is that the method and the
  functions order alike.
\<close>

section \<open>The comparison functions\<close>

definition alphanum_fn :: "string \<Rightarrow> string \<Rightarrow> jsnum" where
  "alphanum_fn a b = (let aa = chunkify a; bb = chunkify b in
     cmp_loop (num_of_int (int (length aa) - int (length bb))) aa bb)"

definition alphanumCase :: "string \<Rightarrow> string \<Rightarrow> jsnum" where
  "alphanumCase a b = (let aa = chunkify (lower_case a); bb = chunkify (lower_case b) in
     cmp_loop (num_of_int (int (length aa) - int (length bb))) aa bb)"

section \<open>The array method\<close>

text \<open>
  While the method runs an element is the array of its runs, or still the text it was: the loop
  that cuts the elements stops at the first empty one.
\<close>

datatype cell = Chunks "string list" | Raw string

fun cut_cells :: "string list \<Rightarrow> cell list" where
  "cut_cells [] = []"
| "cut_cells (t # ts) = (if t = [] then map Raw (t # ts) else Chunks (chunkify t) # cut_cells ts)"

text \<open>Indexing an array of runs, or a text, whose items are its characters.\<close>

definition items :: "cell \<Rightarrow> string list" where
  "items c = (case c of Chunks cs \<Rightarrow> cs | Raw s \<Rightarrow> map (\<lambda>ch. [ch]) s)"

fun cell_loop :: "bool \<Rightarrow> jsnum \<Rightarrow> string list \<Rightarrow> string list \<Rightarrow> jsnum" where
  "cell_loop ci d (a # as) (b # bs) =
     (if a = [] \<or> b = [] then d
      else (let aa = (if ci then lower_case a else a); bb = (if ci then lower_case b else b) in
        if aa \<noteq> bb then cmp_chunk aa bb else cell_loop ci d as bs))"
| "cell_loop ci d _ _ = d"

definition cell_compare :: "bool \<Rightarrow> cell \<Rightarrow> cell \<Rightarrow> jsnum" where
  "cell_compare ci a b =
     cell_loop ci (num_of_int (int (length (items a)) - int (length (items b)))) (items a) (items b)"

text \<open>A text has no \<open>join\<close>.\<close>

definition join_cell :: "cell \<Rightarrow> string res" where
  "join_cell c = (case c of Chunks cs \<Rightarrow> Inr (concat cs) | Raw _ \<Rightarrow> Inl TypeError)"

definition alphanumSort :: "bool \<Rightarrow> string list \<Rightarrow> string list res" where
  "alphanumSort caseInsensitive xs = map_res join_cell (js_sort (cell_compare caseInsensitive) (cut_cells xs))"

section \<open>Facts\<close>

lemma lower_char_numeric: "numeric_char (lower_char c) = numeric_char c"
  by (auto simp: numeric_char_def lower_char_def code_less_256)

lemma lower_char_nul: "code (lower_char c) = 0 \<longleftrightarrow> code c = 0"
  by (auto simp: lower_char_def)

lemma chunk_loop_lower:
  "n = None \<or> tz \<noteq> [] \<Longrightarrow>
   chunk_loop n (map lower_case tz) (lower_case t) = map lower_case (chunk_loop n tz t)"
proof (induction t arbitrary: n tz)
  case (Cons j t)
  show ?case
  proof (cases "code j = 0")
    case False
    define tz' where "tz' = (if n \<noteq> Some (numeric_char j) then tz @ [[]] else tz)"
    have ne: "tz' \<noteq> []" using Cons.prems by (auto simp: tz'_def)
    have "map lower_case (butlast tz' @ [last tz' @ [j]]) =
        butlast (map lower_case tz') @ [last (map lower_case tz') @ [lower_char j]]"
      using ne by (simp add: map_butlast last_map lower_case_def)
    moreover have "map lower_case tz' = (if n \<noteq> Some (numeric_char j) then map lower_case tz @ [[]] else map lower_case tz)"
      by (simp add: tz'_def lower_case_def)
    moreover have "chunk_loop n (map lower_case tz) (lower_case (j # t)) =
        chunk_loop (Some (numeric_char j)) (butlast (map lower_case tz') @ [last (map lower_case tz') @ [lower_char j]]) (lower_case t)"
      using False calculation(2) by (simp add: lower_case_def lower_char_numeric lower_char_nul Let_def)
    moreover have "chunk_loop n tz (j # t) = chunk_loop (Some (numeric_char j)) (butlast tz' @ [last tz' @ [j]]) t"
      using False by (simp add: Let_def tz'_def)
    ultimately show ?thesis
      using Cons.IH [of "Some (numeric_char j)" "butlast tz' @ [last tz' @ [j]]"] by simp
  qed (simp add: lower_case_def lower_char_nul)
qed (simp add: lower_case_def)

lemma chunkify_lower: "chunkify (lower_case t) = map lower_case (chunkify t)"
  using chunk_loop_lower [of None "[]" t] by (simp add: chunkify_def)

lemma cell_loop_cmp:
  "cell_loop ci d as bs = (if ci then cmp_loop d (map lower_case as) (map lower_case bs) else cmp_loop d as bs)"
  by (induction ci d as bs rule: cell_loop.induct) (auto simp: lower_case_def)

text \<open>On two cut elements the array method compares as the function does on the texts.\<close>

definition compare_fn :: "bool \<Rightarrow> string \<Rightarrow> string \<Rightarrow> jsnum" where
  "compare_fn ci = (if ci then alphanumCase else alphanum_fn)"

lemma cell_compare_chunks:
  "cell_compare ci (Chunks (chunkify a)) (Chunks (chunkify b)) = compare_fn ci a b"
  by (cases ci) (simp_all add: cell_compare_def items_def compare_fn_def alphanum_fn_def alphanumCase_def
      Let_def cell_loop_cmp chunkify_lower)

lemma cut_cells_map: "[] \<notin> set xs \<Longrightarrow> cut_cells xs = map (\<lambda>t. Chunks (chunkify t)) xs"
  by (induction xs) auto

lemma cut_cells_raw: "[] \<in> set xs \<Longrightarrow> Raw [] \<in> set (cut_cells xs)"
  by (induction xs) auto

lemma sort_insert_map:
  "sort_insert cmp (f x) (map f ts) = map f (sort_insert (\<lambda>a b. cmp (f a) (f b)) x ts)"
  by (induction ts) auto

lemma js_sort_map: "js_sort cmp (map f xs) = map f (js_sort (\<lambda>a b. cmp (f a) (f b)) xs)"
proof -
  have "foldl (\<lambda>acc x. sort_insert cmp x acc) (map f acc) (map f xs) =
      map f (foldl (\<lambda>acc x. sort_insert (\<lambda>a b. cmp (f a) (f b)) x acc) acc xs)" for acc
    by (induction xs arbitrary: acc) (simp_all add: sort_insert_map)
  from this [of "[]"] show ?thesis by (simp add: js_sort_def rev_map)
qed

lemma map_res_total_iff: "(\<exists>ys. map_res f xs = Inr ys) \<longleftrightarrow> (\<forall>x \<in> set xs. \<exists>y. f x = Inr y)"
  by (induction xs) (auto simp: bind_res_Inr_iff)

lemma alphanumSort_ok:
  assumes "[] \<notin> set xs" and "\<forall>t \<in> set xs. \<forall>c \<in> set t. code c \<noteq> 0"
  shows "alphanumSort ci xs = Inr (js_sort (compare_fn ci) xs)"
proof -
  have "js_sort (cell_compare ci) (cut_cells xs) = map (\<lambda>t. Chunks (chunkify t)) (js_sort (compare_fn ci) xs)"
    by (simp add: cut_cells_map [OF assms(1)] js_sort_map cell_compare_chunks)
  moreover have "map_res join_cell (map (\<lambda>t. Chunks (chunkify t)) ts) = Inr ts"
    if "\<forall>t \<in> set ts. \<forall>c \<in> set t. code c \<noteq> 0" for ts
  proof -
    have "concat (chunkify t) = t" if "\<forall>c \<in> set t. code c \<noteq> 0" for t
      using that concat_chunk_loop [of None "[]" t] by (simp add: chunkify_def takeWhile_eq_all_conv)
    then show ?thesis using that by (induction ts) (simp_all add: join_cell_def)
  qed
  ultimately show ?thesis using assms(2) by (simp add: alphanumSort_def set_js_sort)
qed

section \<open>Properties\<close>

text \<open>
  C18: on texts that are not empty and have no NUL the array method returns what the built-in
  \<open>sort\<close> gives with the comparison function, with case or without.
\<close>

theorem alphanumSort_sorts:
  assumes "[] \<notin> set xs" and "\<forall>t \<in> set xs. \<forall>c \<in> set t. code c \<noteq> 0"
  shows "alphanumSort ci xs = Inr (js_sort (if ci then alphanumCase else alphanum_fn) xs)"
  using alphanumSort_ok [OF assms] by (simp add: compare_fn_def)

theorem alphanumSort_sorts_witness:
  "\<exists>ys. alphanumSort True [''b10'', ''B9''] = Inr ys \<and> mset ys = {# ''b10'', ''B9'' #}"
proof -
  have "alphanumSort True [''b10'', ''B9''] = Inr (js_sort alphanumCase [''b10'', ''B9''])"
    using alphanumSort_sorts [of "[''b10'', ''B9'']" True] by (auto simp: code_def)
  then show ?thesis by (simp add: mset_js_sort)
qed

text \<open>
  The array method throws exactly when the array has an empty text: the loop that cuts the
  elements stops there, and what is left uncut cannot be joined again.
\<close>

theorem alphanumSort_throws:
  "alphanumSort ci xs = Inl TypeError \<longleftrightarrow> [] \<in> set xs"
proof -
  have t: "map_res join_cell cs = Inl e \<Longrightarrow> e = TypeError" for cs e
    by (induction cs) (auto simp: join_cell_def bind_res_Inl_iff split: cell.splits)
  have "(\<exists>ys. map_res join_cell cs = Inr ys) \<longleftrightarrow> (\<forall>c \<in> set cs. \<exists>ts. c = Chunks ts)" for cs
    by (subst map_res_total_iff) (auto simp: join_cell_def split: cell.splits, metis cell.exhaust)
  then have "(\<exists>ys. alphanumSort ci xs = Inr ys) \<longleftrightarrow> (\<forall>c \<in> set (cut_cells xs). \<exists>ts. c = Chunks ts)"
    by (simp add: alphanumSort_def set_js_sort)
  also have "\<dots> \<longleftrightarrow> [] \<notin> set xs"
    using cut_cells_raw [of xs] cut_cells_map [of xs] by fastforce
  finally show ?thesis using t by (cases "alphanumSort ci xs") (auto simp: alphanumSort_def)
qed

end
