(* ===== verification/Lib_Data_Tables.thy ===== *)
theory Lib_Data_Tables
  imports Util_Convert
begin

text \<open>
  The data module of Highcharts (modules/data.src.js), first part: the columns of cells made from
  rows, from CSV text, from the rows of a table, and from the cells of a spreadsheet.
\<close>

section \<open>Columns\<close>

text \<open>
  A column is an array of cells that also carries marks: whether it has numbers or dates, whether
  texts stand among them, whether its dates are unsorted, and its name.
\<close>

record column =
  cells :: "jsval list"
  isDatetime :: bool
  isNumeric :: bool
  mixed :: bool
  unsorted :: bool
  col_name :: jsval

definition plain_column :: "jsval list \<Rightarrow> column" where
  "plain_column vs = \<lparr>cells = vs, isDatetime = False, isNumeric = False, mixed = False,
     unsorted = False, col_name = Undefined\<rparr>"

definition cell_at :: "jsval list \<Rightarrow> nat \<Rightarrow> jsval" where
  "cell_at col row = (case list_at col row of None \<Rightarrow> Undefined | Some v \<Rightarrow> v)"

text \<open>\<open>if (!columns[c]) columns[c] = []; columns[c][r] = v\<close>; a column left out is \<open>undefined\<close>.\<close>

definition put_cell :: "jsval list list \<Rightarrow> nat \<Rightarrow> nat \<Rightarrow> jsval \<Rightarrow> jsval list list" where
  "put_cell columns c r v =
     list_put [] columns c (list_put Undefined (case list_at columns c of None \<Rightarrow> [] | Some vs \<Rightarrow> vs) r v)"

section \<open>Options\<close>

text \<open>
  The options that delimit the table. A missing number is \<open>None\<close>; zero is falsy, so an end of zero
  is no bound.
\<close>

record range_options =
  startRow :: "nat option"
  endRow :: "nat option"
  startColumn :: "nat option"
  endColumn :: "nat option"

definition start_of :: "nat option \<Rightarrow> nat" where
  "start_of v = (case v of None \<Rightarrow> 0 | Some n \<Rightarrow> n)"

definition within_end :: "nat option \<Rightarrow> nat \<Rightarrow> bool" where
  "within_end v i = (case v of None \<Rightarrow> True | Some n \<Rightarrow> n = 0 \<or> i \<le> n)"

definition in_rows :: "range_options \<Rightarrow> nat \<Rightarrow> bool" where
  "in_rows opts rowNo \<longleftrightarrow> start_of (startRow opts) \<le> rowNo \<and> within_end (endRow opts) rowNo"

definition in_columns :: "range_options \<Rightarrow> nat \<Rightarrow> bool" where
  "in_columns opts colNo \<longleftrightarrow> start_of (startColumn opts) \<le> colNo \<and> within_end (endColumn opts) colNo"

definition whole_table :: range_options where
  "whole_table = \<lparr>startRow = None, endRow = None, startColumn = None, endColumn = None\<rparr>"

section \<open>Rows to columns\<close>

definition put_row_cell :: "nat \<Rightarrow> jsval list list \<Rightarrow> nat \<times> jsval \<Rightarrow> jsval list list" where
  "put_row_cell row columns = (\<lambda>(col, v). put_cell columns col row v)"

definition put_row :: "jsval list list \<Rightarrow> nat \<times> jsval list \<Rightarrow> jsval list list" where
  "put_row columns = (\<lambda>(row, vs). foldl (put_row_cell row) columns (List.enumerate 0 vs))"

definition rowsToColumns :: "jsval list list \<Rightarrow> jsval list list" where
  "rowsToColumns rows = foldl put_row [] (List.enumerate 0 rows)"

section \<open>CSV\<close>

text \<open>\<open>replace(/\r\n/g, "\n").replace(/\r/g, "\n")\<close>.\<close>

fun unix_lines :: "string \<Rightarrow> string" where
  "unix_lines [] = []"
| "unix_lines (c # s) =
     (if code c = 13 then
        (case s of [] \<Rightarrow> [CHR 0x0A]
         | d # t \<Rightarrow> if code d = 10 then CHR 0x0A # unix_lines t else CHR 0x0A # unix_lines s)
      else c # unix_lines s)"

text \<open>\<open>split\<close> at a separator of any length.\<close>

function split_str :: "string \<Rightarrow> string \<Rightarrow> string list" where
  "split_str sep s =
     (if sep = [] then map (\<lambda>c. [c]) s
      else (case index_of s sep of
          None \<Rightarrow> [s]
        | Some i \<Rightarrow> take i s # split_str sep (drop (i + length sep) s)))"
  by pat_completeness auto

termination
proof (relation "measure (\<lambda>(sep, s). length s)")
  fix sep s :: string and i :: nat
  assume "sep \<noteq> []" and "index_of s sep = Some i"
  then show "((sep, drop (i + length sep) s), sep, s) \<in> measure (\<lambda>(sep, s). length s)"
    using index_of_Some_split [of s sep i] by (cases sep) (auto simp: diff_less)
qed simp

declare split_str.simps [simp del]

text \<open>One line: comments and blank lines do not count as rows.\<close>

type_synonym csv_state = "jsval list list \<times> nat"

definition put_item :: "range_options \<Rightarrow> nat \<Rightarrow> jsval list list \<Rightarrow> nat \<times> string \<Rightarrow> jsval list list" where
  "put_item opts activeRowNo columns = (\<lambda>(colNo, item).
     if in_columns opts colNo then
       put_cell columns (colNo - start_of (startColumn opts)) activeRowNo (Str item)
     else columns)"

definition csv_line :: "range_options \<Rightarrow> string \<Rightarrow> csv_state \<Rightarrow> nat \<times> string \<Rightarrow> csv_state" where
  "csv_line opts itemDelimiter = (\<lambda>(columns, activeRowNo) (rowNo, line).
     let trimmed = trim line; isComment = (index_of trimmed ''#'' = Some 0); isBlank = (trimmed = '''') in
     if in_rows opts rowNo \<and> \<not> isComment \<and> \<not> isBlank then
       (foldl (put_item opts activeRowNo) columns (List.enumerate 0 (split_str itemDelimiter line)),
        activeRowNo + 1)
     else (columns, activeRowNo))"

text \<open>The delimiters: an empty one is falsy.\<close>

definition or_default :: "string \<Rightarrow> string \<Rightarrow> string" where
  "or_default s d = (if s = [] then d else s)"

definition item_delimiter :: "string \<Rightarrow> string \<Rightarrow> string" where
  "item_delimiter itemDelimiter csv =
     or_default itemDelimiter (if index_of csv [CHR 0x09] \<noteq> None then [CHR 0x09] else '','')"

definition parseCSV :: "range_options \<Rightarrow> string \<Rightarrow> string \<Rightarrow> string \<Rightarrow> jsval list list \<Rightarrow> jsval list list" where
  "parseCSV opts lineDelimiter itemDelimiter csv columns =
     (let lines = split_str (or_default lineDelimiter [CHR 0x0A]) (unix_lines csv) in
      fst (foldl (csv_line opts (item_delimiter itemDelimiter csv)) (columns, 0) (List.enumerate 0 lines)))"

section \<open>HTML tables and spreadsheets\<close>

text \<open>The children of a table row: their tag names and their markup.\<close>

type_synonym table_row_html = "(string \<times> string) list"

definition put_child :: "range_options \<Rightarrow> nat \<Rightarrow> jsval list list \<Rightarrow> nat \<times> string \<times> string \<Rightarrow> jsval list list" where
  "put_child opts rowNo columns = (\<lambda>(colNo, tag, html).
     if (tag = ''TD'' \<or> tag = ''TH'') \<and> in_columns opts colNo then
       put_cell columns (colNo - start_of (startColumn opts)) (rowNo - start_of (startRow opts)) (Str html)
     else columns)"

definition put_table_row :: "range_options \<Rightarrow> jsval list list \<Rightarrow> nat \<times> table_row_html \<Rightarrow> jsval list list" where
  "put_table_row opts columns = (\<lambda>(rowNo, tr).
     if in_rows opts rowNo then foldl (put_child opts rowNo) columns (List.enumerate 0 tr) else columns)"

definition parseTable :: "range_options \<Rightarrow> table_row_html list \<Rightarrow> jsval list list \<Rightarrow> jsval list list" where
  "parseTable opts trs columns = foldl (put_table_row opts) columns (List.enumerate 0 trs)"

text \<open>A spreadsheet cell: its row and column, counted from one, and its text.\<close>

type_synonym sheet_cell = "nat \<times> nat \<times> string"

definition sheet_size :: "sheet_cell list \<Rightarrow> nat \<times> nat" where
  "sheet_size entries = foldl (\<lambda>(colCount, rowCount) (row, col, _). (max colCount col, max rowCount row))
     (0, 0) entries"

text \<open>
  \<open>Math.min(rowCount, endRow - startRow)\<close>: without an end that is the number of rows; a negative
  length throws.
\<close>

definition column_length :: "range_options \<Rightarrow> nat \<Rightarrow> nat res" where
  "column_length opts rowCount = (case endRow opts of
     None \<Rightarrow> Inr rowCount
   | Some e \<Rightarrow> if e = 0 then Inr rowCount
       else if e < start_of (startRow opts) then Inl RangeError
       else Inr (min rowCount (e - start_of (startRow opts))))"

definition fresh_columns :: "range_options \<Rightarrow> nat \<Rightarrow> nat \<Rightarrow> jsval list list \<Rightarrow> jsval list list res" where
  "fresh_columns opts colCount rowCount columns =
     fold_res (\<lambda>cs i. if in_columns opts i then
         bind_res (column_length opts rowCount) (\<lambda>n.
           Inr (list_put [] cs (i - start_of (startColumn opts)) (replicate n Undefined)))
       else Inr cs) columns [0..<colCount]"

definition put_sheet_cell :: "range_options \<Rightarrow> jsval list list \<Rightarrow> sheet_cell \<Rightarrow> jsval list list" where
  "put_sheet_cell opts columns = (\<lambda>(row, col, content). let gr = row - 1; gc = col - 1 in
     if in_columns opts gc \<and> in_rows opts gr then
       put_cell columns (gc - start_of (startColumn opts)) (gr - start_of (startRow opts)) (Str content)
     else columns)"

definition parseGoogleSpreadsheet :: "range_options \<Rightarrow> sheet_cell list \<Rightarrow> jsval list list \<Rightarrow> jsval list list res" where
  "parseGoogleSpreadsheet opts entries columns =
     (let (colCount, rowCount) = sheet_size entries in
      bind_res (fresh_columns opts colCount rowCount columns) (\<lambda>cs.
        Inr (foldl (put_sheet_cell opts) cs entries)))"

section \<open>Facts: filling a table row by row\<close>

lemma put_cell_append:
  "put_cell (left @ c # cols) (length left) (length c) v = left @ (c @ [v]) # cols"
  by (simp add: put_cell_def list_at_def list_put_end) (simp add: list_put_def)

lemma put_cell_fresh: "put_cell left (length left) 0 v = left @ [[v]]"
proof -
  have "list_at left (length left) = None" by simp
  then show ?thesis by (simp add: put_cell_def list_put_end list_put_def del: list_at_None_iff)
qed

lemma put_row_next:
  "length cols = length vs \<Longrightarrow> \<forall>c \<in> set cols. length c = k \<Longrightarrow>
   foldl (put_row_cell k) (left @ cols) (List.enumerate (length left) vs) =
   left @ map2 (\<lambda>c v. c @ [v]) cols vs"
proof (induction vs arbitrary: left cols)
  case (Cons v vs)
  then obtain c cs where c: "cols = c # cs" by (cases cols) auto
  have "put_cell (left @ cols) (length left) k v = (left @ [c @ [v]]) @ cs"
    using put_cell_append [of "left" c cs v] Cons.prems(2) c by simp
  then show ?case
    using Cons.IH [of cs "left @ [c @ [v]]"] Cons.prems by (simp add: put_row_cell_def c)
qed simp

lemma put_row_first:
  "foldl (put_row_cell 0) left (List.enumerate (length left) vs) = left @ map (\<lambda>v. [v]) vs"
proof (induction vs arbitrary: "left")
  case (Cons v vs)
  show ?case
    using Cons.IH [of "left @ [[v]]"] by (simp add: put_row_cell_def put_cell_fresh)
qed simp

text \<open>A rectangular table: every row has as many cells.\<close>

definition rectangular :: "nat \<Rightarrow> 'a list list \<Rightarrow> bool" where
  "rectangular n rows = list_all (\<lambda>r. length r = n) rows"

definition column_of :: "nat \<Rightarrow> 'a list list \<Rightarrow> 'a list" where
  "column_of c rows = map (\<lambda>r. r ! c) rows"

definition columns_of :: "nat \<Rightarrow> 'a list list \<Rightarrow> 'a list list" where
  "columns_of n rows = map (\<lambda>c. column_of c rows) [0..<n]"

lemma columns_of_snoc:
  "length r = n \<Longrightarrow> columns_of n (rows @ [r]) = map2 (\<lambda>c v. c @ [v]) (columns_of n rows) r"
  by (intro nth_equalityI) (simp_all add: columns_of_def column_of_def)

lemma columns_of_single: "length r = n \<Longrightarrow> columns_of n [r] = map (\<lambda>v. [v]) r"
  by (intro nth_equalityI) (simp_all add: columns_of_def column_of_def)

lemma put_rows:
  "rectangular n rows \<Longrightarrow> rows \<noteq> [] \<Longrightarrow> foldl put_row [] (List.enumerate 0 rows) = columns_of n rows"
proof (induction rows rule: rev_induct)
  case (snoc r rows)
  have r: "length r = n" and rect: "rectangular n rows"
    using snoc.prems by (simp_all add: rectangular_def)
  have e: "List.enumerate 0 (rows @ [r]) = List.enumerate 0 rows @ [(length rows, r)]"
    by (simp add: enumerate_append_eq)
  show ?case
  proof (cases "rows = []")
    case True
    then show ?thesis
      using put_row_first [of "[]" r] r by (simp add: put_row_def columns_of_single)
  next
    case False
    have "put_row (columns_of n rows) (length rows, r) = columns_of n (rows @ [r])"
      using put_row_next [of "columns_of n rows" r "length rows" "[]"] r
      by (simp add: put_row_def columns_of_snoc) (simp add: columns_of_def column_of_def)
    then show ?thesis using snoc.IH [OF rect False] by (simp add: e)
  qed
qed simp

lemma rowsToColumns_rect: "rectangular n rows \<Longrightarrow> rows \<noteq> [] \<Longrightarrow> rowsToColumns rows = columns_of n rows"
  using put_rows by (simp add: rowsToColumns_def)

lemma columns_of_twice:
  assumes "rectangular n rows"
  shows "columns_of (length rows) (columns_of n rows) = rows"
proof (rule nth_equalityI)
  show "length (columns_of (length rows) (columns_of n rows)) = length rows"
    by (simp add: columns_of_def)
  fix i
  assume "i < length (columns_of (length rows) (columns_of n rows))"
  then have i: "i < length rows" by (simp add: columns_of_def)
  then have "length (rows ! i) = n" using assms by (simp add: rectangular_def list_all_length)
  then show "columns_of (length rows) (columns_of n rows) ! i = rows ! i"
    using i by (intro nth_equalityI) (simp_all add: columns_of_def column_of_def)
qed

lemma rectangular_columns_of: "rectangular (length rows) (columns_of n rows)"
  by (simp add: rectangular_def columns_of_def column_of_def list_all_iff)

section \<open>Facts: CSV\<close>

lemma split_str_single: "split_str [c] s = split_char c s"
proof (induction s)
  case Nil
  then show ?case by (simp add: split_str.simps [of "[c]" "[]"])
next
  case (Cons d s)
  show ?case
  proof (cases "d = c")
    case True
    then have "index_of (d # s) [c] = Some 0" by (simp add: prefix_def)
    then have "split_str [c] (d # s) = [] # split_str [c] s"
      by (simp add: split_str.simps [of "[c]" "d # s"] del: index_of.simps index_of_Some_0)
    then show ?thesis using Cons True by simp
  next
    case False
    then have i: "index_of (d # s) [c] = map_option Suc (index_of s [c])" by simp
    show ?thesis
    proof (cases "index_of s [c]")
      case None
      then have "split_char c s = [s]" using Cons by (simp add: split_str.simps [of "[c]" s])
      then show ?thesis using None False i by (simp add: split_str.simps [of "[c]" "d # s"])
    next
      case (Some k)
      then have "split_char c s = take k s # split_str [c] (drop (k + 1) s)"
        using Cons by (simp add: split_str.simps [of "[c]" s])
      then show ?thesis using Some False i by (simp add: split_str.simps [of "[c]" "d # s"])
    qed
  qed
qed

lemma unix_lines_id: "(\<And>c. c \<in> set s \<Longrightarrow> code c \<noteq> 13) \<Longrightarrow> unix_lines s = s"
  by (induction s rule: unix_lines.induct) auto

lemma in_whole_table [simp]: "in_rows whole_table i" "in_columns whole_table i"
  by (simp_all add: in_rows_def in_columns_def whole_table_def start_of_def within_end_def)

lemma put_item_whole:
  "foldl (put_item whole_table k) columns (List.enumerate j items) =
   foldl (put_row_cell k) columns (List.enumerate j (map Str items))"
  by (induction items arbitrary: columns j)
    (simp_all add: put_item_def put_row_cell_def whole_table_def start_of_def in_columns_def within_end_def)

text \<open>A line that counts as a row.\<close>

definition is_data_line :: "string \<Rightarrow> bool" where
  "is_data_line line \<longleftrightarrow> trim line \<noteq> '''' \<and> \<not> prefix ''#'' (trim line)"

lemma csv_line_data:
  "is_data_line line \<Longrightarrow> csv_line whole_table sep (columns, k) (i, line) =
   (put_row columns (k, map Str (split_str sep line)), k + 1)"
  by (simp add: csv_line_def is_data_line_def put_row_def put_item_whole Let_def)

lemma csv_lines_data:
  "list_all is_data_line ls \<Longrightarrow>
   foldl (csv_line whole_table sep) (columns, k) (List.enumerate i ls) =
   (foldl put_row columns (List.enumerate k (map (\<lambda>l. map Str (split_str sep l)) ls)), k + length ls)"
  by (induction ls arbitrary: columns k i) (simp_all add: csv_line_data)

lemma csv_line_blank: "trim line = '''' \<Longrightarrow> csv_line opts sep st (i, line) = st"
  by (simp add: csv_line_def Let_def split: prod.splits)

text \<open>A cell of a table that CSV text can hold.\<close>

definition csv_cell :: "string \<Rightarrow> bool" where
  "csv_cell s = (\<forall>c \<in> set s. code c \<noteq> 9 \<and> code c \<noteq> 10 \<and> code c \<noteq> 13 \<and> c \<noteq> CHR '','')"

definition csv_line_of :: "string list \<Rightarrow> string" where
  "csv_line_of r = join '','' r"

definition csv_row :: "string list \<Rightarrow> bool" where
  "csv_row r \<longleftrightarrow> r \<noteq> [] \<and> list_all csv_cell r \<and> is_data_line (csv_line_of r)"

lemma csv_row_split: "csv_row r \<Longrightarrow> split_str '','' (csv_line_of r) = r"
  unfolding csv_line_of_def split_str_single
  by (rule split_char_join) (auto simp: csv_row_def csv_cell_def list_all_iff)

lemma csv_row_chars:
  "csv_row r \<Longrightarrow> c \<in> set (csv_line_of r) \<Longrightarrow> code c \<noteq> 9 \<and> code c \<noteq> 10 \<and> code c \<noteq> 13"
proof -
  assume r: "csv_row r" and c: "c \<in> set (csv_line_of r)"
  then consider "c = CHR '',''" | w where "w \<in> set r" "c \<in> set w"
    using set_join_subset [of "'',''" r] by (auto simp: csv_line_of_def)
  then show ?thesis
    using r by cases (auto simp: code_def csv_row_def csv_cell_def list_all_iff)
qed

text \<open>The text of a table, each row ended by a newline.\<close>

definition csv_text :: "string list list \<Rightarrow> string" where
  "csv_text rows = concat (map (\<lambda>r. csv_line_of r @ [CHR 0x0A]) rows)"

lemma csv_text_split:
  "list_all csv_row rows \<Longrightarrow> split_char (CHR 0x0A) (csv_text rows) = map csv_line_of rows @ [[]]"
proof (induction rows)
  case (Cons r rows)
  have "CHR 0x0A \<notin> set (csv_line_of r)"
    using csv_row_chars [of r "CHR 0x0A"] Cons.prems by (auto simp: code_def)
  then show ?case using Cons by (simp add: csv_text_def split_char_append)
qed (simp add: csv_text_def)

lemma csv_text_chars:
  "list_all csv_row rows \<Longrightarrow> c \<in> set (csv_text rows) \<Longrightarrow> code c \<noteq> 9 \<and> code c \<noteq> 13"
proof -
  assume rows: "list_all csv_row rows" and c: "c \<in> set (csv_text rows)"
  then consider "c = CHR 0x0A" | r where "csv_row r" "c \<in> set (csv_line_of r)"
    by (auto simp: csv_text_def list_all_iff split: if_splits)
  then show ?thesis using csv_row_chars by cases (auto simp: code_def)
qed

lemma parseCSV_text:
  assumes "list_all csv_row rows"
  shows "parseCSV whole_table '''' '''' (csv_text rows) [] = rowsToColumns (map (map Str) rows)"
proof -
  let ?csv = "csv_text rows"
  have "\<not> (\<exists>i. index_of ?csv [CHR 0x09] = Some i)"
    using csv_text_chars [OF assms, of "CHR 0x09"] by (auto simp: index_of_Some_iff code_def)
  then have sep: "item_delimiter '''' ?csv = '',''" by (auto simp: item_delimiter_def or_default_def)
  have unix: "unix_lines ?csv = ?csv" using csv_text_chars [OF assms] by (intro unix_lines_id) blast
  have lines: "split_str (or_default '''' [CHR 0x0A]) (unix_lines ?csv) = map csv_line_of rows @ [[]]"
    by (simp add: or_default_def unix split_str_single csv_text_split [OF assms])
  have data: "list_all is_data_line (map csv_line_of rows)"
    using assms by (auto simp: list_all_iff csv_row_def)
  have rows: "map (\<lambda>l. map Str (split_str '','' l)) (map csv_line_of rows) = map (map Str) rows"
    using assms csv_row_split by (simp add: list_all_iff)
  have "foldl (csv_line whole_table '','') ([], 0) (List.enumerate 0 (map csv_line_of rows @ [[]])) =
      (foldl put_row [] (List.enumerate 0 (map (map Str) rows)), length rows)"
    by (simp add: enumerate_append_eq csv_lines_data [OF data] rows csv_line_blank trim_def
        del: map_map)
  then show ?thesis by (simp only: parseCSV_def Let_def lines sep rowsToColumns_def fst_conv)
qed

end
