(* ===== verification/Lib_Export_Csv.thy ===== *)
theory Lib_Export_Csv
  imports Lib_Data_Tables
begin

text \<open>
  modules/export-csv.js: \<open>getCSV\<close>, the text of a chart's data, and that the data module reads it
  back. The formatting of dates is an argument.
\<close>

section \<open>getCSV\<close>

datatype x_axis = Datetime_Axis | Category_Axis "jsval list" | Number_Axis

record chart_series =
  includeInCSVExport :: bool
  xAxis :: "x_axis option"
  xData :: "jsval list"
  yData :: "jsval list"
  series_name :: jsval

record csv_options =
  dateFormat :: string
  itemDelimiter :: string
  lineDelimeter :: string

text \<open>\<open>Highcharts.pick(categories[x], x)\<close>.\<close>

definition category_label :: "jsval list \<Rightarrow> jsval \<Rightarrow> jsval" where
  "category_label categories x = (case get_prop (Arr categories) (to_str x) of
     Inr v \<Rightarrow> if is_nullish v then x else v | Inl _ \<Rightarrow> x)"

definition x_column :: "(string \<Rightarrow> jsval \<Rightarrow> jsval) \<Rightarrow> string \<Rightarrow> x_axis \<Rightarrow> jsval list \<Rightarrow> jsval list" where
  "x_column format_date date_fmt axis xs = (case axis of
     Datetime_Axis \<Rightarrow> Str ''DateTime'' # map (format_date date_fmt) xs
   | Category_Axis categories \<Rightarrow> Str ''Category'' # map (category_label categories) xs
   | Number_Axis \<Rightarrow> Str ''X values'' # xs)"

definition series_columns :: "(string \<Rightarrow> jsval \<Rightarrow> jsval) \<Rightarrow> string \<Rightarrow> chart_series \<Rightarrow> jsval list list" where
  "series_columns format_date date_fmt series =
     (if includeInCSVExport series then
        (case xAxis series of None \<Rightarrow> [] | Some axis \<Rightarrow> [x_column format_date date_fmt axis (xData series)]) @
        [series_name series # yData series]
      else [])"

text \<open>\<open>join\<close> writes nothing for an \<open>undefined\<close> or \<open>null\<close>.\<close>

definition join_text :: "jsval \<Rightarrow> string" where
  "join_text v = (if is_nullish v then '''' else to_str v)"

definition csv_row_text :: "string \<Rightarrow> jsval list list \<Rightarrow> nat \<Rightarrow> string" where
  "csv_row_text delimiter columns row = join delimiter (map (\<lambda>col. join_text (cell_at col row)) columns)"

text \<open>Without a column \<open>columns[0].length\<close> throws.\<close>

definition columns_text :: "string \<Rightarrow> string \<Rightarrow> jsval list list \<Rightarrow> string res" where
  "columns_text item_sep line_sep columns = (case columns of
     [] \<Rightarrow> Inl TypeError
   | c # _ \<Rightarrow> Inr (concat (map (\<lambda>row. csv_row_text item_sep columns row @ line_sep) [0..<length c])))"

definition getCSV :: "(string \<Rightarrow> jsval \<Rightarrow> jsval) \<Rightarrow> csv_options \<Rightarrow> chart_series list \<Rightarrow> string res" where
  "getCSV format_date options series =
     columns_text (or_default (itemDelimiter options) '','') (or_default (lineDelimeter options) [CHR 0x0A])
       (concat (map (series_columns format_date (or_default (dateFormat options) ''%Y-%m-%d %H:%M:%S'')) series))"

definition default_csv :: csv_options where
  "default_csv = \<lparr>dateFormat = '''', itemDelimiter = '''', lineDelimeter = ''''\<rparr>"

section \<open>Facts\<close>

definition text_rows :: "nat \<Rightarrow> jsval list list \<Rightarrow> string list list" where
  "text_rows n columns = columns_of n (map (map join_text) columns)"

lemma columns_text_rows:
  assumes "rectangular n columns" and "columns \<noteq> []"
  shows "columns_text '','' [CHR 0x0A] columns = Inr (csv_text (text_rows n columns))"
proof -
  obtain c cs where c: "columns = c # cs" using assms(2) by (cases columns) auto
  have "length c = n" using assms(1) by (simp add: c rectangular_def)
  moreover have "csv_row_text '','' columns row = csv_line_of (column_of row (map (map join_text) columns))"
    if "row < n" for row
  proof -
    have "map (\<lambda>col. join_text (cell_at col row)) columns = map (\<lambda>col. map join_text col ! row) columns"
      using assms(1) that by (auto simp: cell_at_def list_at_def rectangular_def list_all_iff)
    then show ?thesis
      by (simp only: csv_row_text_def csv_line_of_def column_of_def map_map comp_def)
  qed
  ultimately show ?thesis
    by (auto simp: columns_text_def c csv_text_def text_rows_def columns_of_def comp_def
        intro!: arg_cong [where f = concat] map_cong)
qed

lemma text_rows_back:
  assumes "rectangular n columns" and "columns \<noteq> []" and "0 < n"
  shows "rowsToColumns (map (map Str) (text_rows n columns)) = map (map (\<lambda>v. Str (join_text v))) columns"
proof -
  let ?cs = "map (map (\<lambda>v. Str (join_text v))) columns"
  have rows: "map (map Str) (text_rows n columns) = columns_of n ?cs"
    using assms(1) by (auto simp: text_rows_def columns_of_def column_of_def rectangular_def list_all_iff)
  have rect: "rectangular n ?cs" using assms(1) by (auto simp: rectangular_def list_all_iff)
  have "rowsToColumns (columns_of n ?cs) = columns_of (length ?cs) (columns_of n ?cs)"
    using assms(3) by (intro rowsToColumns_rect rectangular_columns_of) (simp add: columns_of_def)
  also have "\<dots> = ?cs" by (rule columns_of_twice [OF rect])
  finally show ?thesis by (simp add: rows)
qed

section \<open>Properties\<close>

text \<open>
  C17: what \<open>getCSV\<close> writes for a chart with the default delimiters, the CSV parser of the data
  module reads back, column by column and cell by cell, when the columns are equally long and no
  row is blank, a comment, or holds a delimiter.
\<close>

theorem csv_roundtrip:
  assumes "concat (map (series_columns format_date ''%Y-%m-%d %H:%M:%S'') series) = columns"
    and "columns \<noteq> []" and "0 < n" and "rectangular n columns"
    and "list_all csv_row (text_rows n columns)"
  shows "\<exists>csv. getCSV format_date default_csv series = Inr csv \<and>
    parseCSV whole_table '''' '''' csv [] = map (map (\<lambda>v. Str (join_text v))) columns"
proof -
  have "getCSV format_date default_csv series = Inr (csv_text (text_rows n columns))"
    using columns_text_rows [OF assms(4,2)] assms(1) by (simp add: getCSV_def default_csv_def or_default_def)
  then show ?thesis
    using parseCSV_text [OF assms(5)] text_rows_back [OF assms(4,2,3)] by simp
qed

theorem csv_roundtrip_witness:
  "\<exists>csv. getCSV (\<lambda>f v. v) default_csv [\<lparr>includeInCSVExport = True, xAxis = Some Number_Axis,
       xData = [Str ''1''], yData = [Str ''2''], series_name = Str ''s''\<rparr>] = Inr csv \<and>
     parseCSV whole_table '''' '''' csv [] = [[Str ''X values'', Str ''1''], [Str ''s'', Str ''2'']]"
proof -
  let ?s = "\<lparr>includeInCSVExport = True, xAxis = Some Number_Axis, xData = [Str ''1''],
    yData = [Str ''2''], series_name = Str ''s''\<rparr>"
  let ?cs = "[[Str ''X values'', Str ''1''], [Str ''s'', Str ''2'']]"
  have cols: "concat (map (series_columns (\<lambda>f v. v) ''%Y-%m-%d %H:%M:%S'') [?s]) = ?cs"
    by (simp add: series_columns_def x_column_def)
  have rect: "rectangular 2 ?cs" by (simp add: rectangular_def)
  have "text_rows 2 ?cs = [[''X values'', ''s''], [''1'', ''2'']]"
    by (simp add: text_rows_def columns_of_def column_of_def join_text_def is_nullish_def upt_rec)
  then have rows: "list_all csv_row (text_rows 2 ?cs)"
    by (simp add: csv_row_def csv_cell_def csv_line_of_def is_data_line_def trim_def is_ws_def code_def
        prefix_def)
  show ?thesis
    using csv_roundtrip [OF cols _ _ rect rows] by (simp add: join_text_def is_nullish_def)
qed

text \<open>
  \<open>getCSV\<close> throws when every series is left out of the export, or there is none.
\<close>

theorem csv_without_columns:
  "getCSV format_date options series = Inl TypeError \<longleftrightarrow> (\<forall>s \<in> set series. \<not> includeInCSVExport s)"
proof -
  define columns where "columns = concat (map (series_columns format_date
    (or_default (dateFormat options) ''%Y-%m-%d %H:%M:%S'')) series)"
  have "columns = [] \<longleftrightarrow> (\<forall>s \<in> set series. \<not> includeInCSVExport s)"
    unfolding columns_def by (induction series) (auto simp: series_columns_def)
  then show ?thesis
    by (cases columns) (auto simp: getCSV_def columns_text_def columns_def [symmetric])
qed

end
