(* ===== verification/Lib_Data_Types.thy ===== *)
theory Lib_Data_Types
  imports Lib_Data_Tables
begin

text \<open>
  The data module of Highcharts (modules/data.src.js), second part: the reading of cells as
  numbers, dates and texts. The date formats are tried in the order of their table; when the dates
  of a column turn out unsorted the column is read again with the alternative format. That this
  ends is proved with the definition.
\<close>

section \<open>Dates\<close>

text \<open>\<open>Date.UTC\<close> with a year, a month from zero and a day, each any integer.\<close>

definition leap_year :: "int \<Rightarrow> bool" where
  "leap_year y \<longleftrightarrow> 4 dvd y \<and> (\<not> 100 dvd y \<or> 400 dvd y)"

definition day_from_year :: "int \<Rightarrow> int" where
  "day_from_year y = 365 * (y - 1970) + (y - 1969) div 4 - (y - 1901) div 100 + (y - 1601) div 400"

definition month_start :: "bool \<Rightarrow> int \<Rightarrow> int" where
  "month_start leap m =
     [0, 31, 59, 90, 120, 151, 181, 212, 243, 273, 304, 334] ! nat m + (if leap \<and> 2 \<le> m then 1 else 0)"

definition day_number :: "int \<Rightarrow> int \<Rightarrow> int \<Rightarrow> int" where
  "day_number y m d = (let ym = y + m div 12; mn = m mod 12 in
     day_from_year ym + month_start (leap_year ym) mn + d - 1)"

definition date_utc :: "int \<Rightarrow> int \<Rightarrow> int \<Rightarrow> jsnum" where
  "date_utc y m d = (let year = (if 0 \<le> y \<and> y \<le> 99 then 1900 + y else y) in
     num_of_int (86400000 * day_number year m d))"

text \<open>
  The formats: how many digits each of the three fields has, and how the parser reads them. The
  patterns are anchored and their separators are no digits, so a text has at most one reading.
\<close>

definition date_separator :: "char \<Rightarrow> bool" where
  "date_separator c \<longleftrightarrow> c = CHR ''-'' \<or> c = CHR ''/'' \<or> c = CHR ''.''"

definition date_fields :: "string \<Rightarrow> (string \<times> string \<times> string) option" where
  "date_fields s =
     (case dropWhile is_digit s of [] \<Rightarrow> None | c1 # s1 \<Rightarrow>
        (case dropWhile is_digit s1 of [] \<Rightarrow> None | c2 # s2 \<Rightarrow>
           if date_separator c1 \<and> date_separator c2 \<and> list_all is_digit s2
           then Some (takeWhile is_digit s, takeWhile is_digit s1, s2) else None))"

record date_format =
  widths :: "(nat \<times> nat) \<times> (nat \<times> nat) \<times> (nat \<times> nat)"
  parser :: "int \<Rightarrow> int \<Rightarrow> int \<Rightarrow> jsnum"
  alternative :: "string option"

definition between :: "nat \<times> nat \<Rightarrow> string \<Rightarrow> bool" where
  "between w s \<longleftrightarrow> fst w \<le> length s \<and> length s \<le> snd w"

definition match_format :: "date_format \<Rightarrow> string \<Rightarrow> (int \<times> int \<times> int) option" where
  "match_format f s = (case date_fields s of None \<Rightarrow> None
     | Some (a, b, c) \<Rightarrow>
         if between (fst (widths f)) a \<and> between (fst (snd (widths f))) b \<and> between (snd (snd (widths f))) c
         then Some (int (digits_value 10 a), int (digits_value 10 b), int (digits_value 10 c)) else None)"

definition dateFormats :: "(string \<times> date_format) list" where
  "dateFormats = [
     (''YYYY-mm-dd'', \<lparr>widths = ((4, 4), (2, 2), (2, 2)), parser = (\<lambda>a b c. date_utc a (b - 1) c),
        alternative = None\<rparr>),
     (''dd/mm/YYYY'', \<lparr>widths = ((1, 2), (1, 2), (4, 4)), parser = (\<lambda>a b c. date_utc c (b - 1) a),
        alternative = Some ''mm/dd/YYYY''\<rparr>),
     (''mm/dd/YYYY'', \<lparr>widths = ((1, 2), (1, 2), (4, 4)), parser = (\<lambda>a b c. date_utc c (a - 1) b),
        alternative = None\<rparr>),
     (''dd/mm/YY'', \<lparr>widths = ((1, 2), (1, 2), (2, 2)), parser = (\<lambda>a b c. date_utc (c + 2000) (b - 1) a),
        alternative = Some ''mm/dd/YY''\<rparr>),
     (''mm/dd/YY'', \<lparr>widths = ((1, 2), (1, 2), (2, 2)), parser = (\<lambda>a b c. date_utc (c + 2000) (a - 1) b),
        alternative = None\<rparr>)]"

text \<open>
  What \<open>parseDate\<close> takes from outside: the option that parses dates, the option that names a
  format (an empty name is falsy), \<open>Date.parse\<close>, and the time zone's offset in minutes.
\<close>

record date_env =
  parse_option :: "(jsval \<Rightarrow> jsval) option"
  format_option :: string
  date_parse :: "string \<Rightarrow> jsnum"
  timezone_offset :: "jsnum \<Rightarrow> jsnum"

text \<open>The format found, and its alternative.\<close>

record date_state =
  this_format :: "string option"
  this_alternative :: "string option"

fun detect_format :: "(string \<times> date_format) list \<Rightarrow> string \<Rightarrow> (string \<times> date_format \<times> jsnum) option" where
  "detect_format [] val = None"
| "detect_format ((key, f) # fs) val = (case match_format f val of
     Some (a, b, c) \<Rightarrow> Some (key, f, parser f a b c) | None \<Rightarrow> detect_format fs val)"

definition fallback_date :: "date_env \<Rightarrow> string \<Rightarrow> jsval \<Rightarrow> jsval" where
  "fallback_date env val ret = (let ms = date_parse env val in
     if ms \<noteq> NaN then Num (js_sub ms (js_mul (timezone_offset env ms) (Fin 60000))) else ret)"

definition effective_format :: "date_env \<Rightarrow> date_state \<Rightarrow> string option" where
  "effective_format env ds = (if format_option env \<noteq> '''' then Some (format_option env) else this_format ds)"

definition parse_date_text :: "date_env \<Rightarrow> date_state \<Rightarrow> string \<Rightarrow> jsval \<Rightarrow> (date_state \<times> jsval) res" where
  "parse_date_text env ds val ret = (case effective_format env ds of
     None \<Rightarrow>
       (case detect_format dateFormats val of
          Some (key, f, ms) \<Rightarrow> Inr (\<lparr>this_format = Some key, this_alternative = alternative f\<rparr>, Num ms)
        | None \<Rightarrow> Inr (ds, fallback_date env val ret))
   | Some name \<Rightarrow>
       (case map_of dateFormats name of
          None \<Rightarrow> Inl TypeError
        | Some f \<Rightarrow>
            (case match_format f val of
               Some (a, b, c) \<Rightarrow> Inr (ds, Num (parser f a b c))
             | None \<Rightarrow> Inr (ds, fallback_date env val ret))))"

definition parseDate :: "date_env \<Rightarrow> date_state \<Rightarrow> jsval \<Rightarrow> (date_state \<times> jsval) res" where
  "parseDate env ds val =
     (let ret = (case parse_option env of None \<Rightarrow> Undefined | Some f \<Rightarrow> f val) in
      case val of Str s \<Rightarrow> parse_date_text env ds s ret | _ \<Rightarrow> Inr (ds, ret))"

section \<open>One cell\<close>

record types_state =
  columns :: "column list"
  rawColumns :: "jsval list list"
  backup :: "jsval list"
  descending :: "bool option"
  dates :: date_state

definition trim_value :: "jsval \<Rightarrow> jsval" where
  "trim_value v = (case v of Str s \<Rightarrow> Str (trim s) | _ \<Rightarrow> v)"

definition change_column :: "nat \<Rightarrow> (column \<Rightarrow> column) \<Rightarrow> types_state \<Rightarrow> types_state" where
  "change_column col f st = st\<lparr>columns := (columns st)[col := f (columns st ! col)]\<rparr>"

definition set_cell :: "nat \<Rightarrow> jsval \<Rightarrow> column \<Rightarrow> column" where
  "set_cell row v c = c\<lparr>cells := list_put Undefined (cells c) row v\<rparr>"

text \<open>\<open>backup[row] || columns[col][row]\<close>.\<close>

definition cell_value :: "types_state \<Rightarrow> nat \<Rightarrow> nat \<Rightarrow> jsval" where
  "cell_value st col row = (let saved = cell_at (backup st) row in
     if truthy saved then saved else cell_at (cells (columns st ! col)) row)"

definition year_ms :: jsnum where
  "year_ms = Fin 31536000000"

definition number_cell :: "nat \<Rightarrow> nat \<Rightarrow> jsnum \<Rightarrow> types_state \<Rightarrow> types_state" where
  "number_cell col row x st = change_column col (\<lambda>c. let c' = set_cell row (Num x) c in
     if num_lt year_ms x then c'\<lparr>isDatetime := True\<rparr> else c'\<lparr>isNumeric := True\<rparr>) st"

definition text_cell :: "nat \<Rightarrow> nat \<Rightarrow> jsval \<Rightarrow> types_state \<Rightarrow> types_state" where
  "text_cell col row trimVal st = change_column col
     (\<lambda>c. let c' = set_cell row (if trimVal = Str '''' then Null else trimVal) c in
        if row \<noteq> 0 \<and> (isDatetime c' \<or> isNumeric c') then c'\<lparr>mixed := True\<rparr> else c') st"

text \<open>
  A date in an x column. The result is the row the loop goes on above: the row itself, or the
  number of rows when the column is to be read again.
\<close>

definition date_cell :: "nat \<Rightarrow> nat \<Rightarrow> jsval \<Rightarrow> jsnum \<Rightarrow> types_state \<Rightarrow> (types_state \<times> nat) res" where
  "date_cell col row val ms st =
     (let st1 = change_column col (\<lambda>c. (set_cell row (Num ms) c)\<lparr>isDatetime := True\<rparr>)
            (st\<lparr>backup := list_put Undefined (backup st) row val\<rparr>);
          below = cell_at (cells (columns st1 ! col)) (row + 1) in
      if below = Undefined then Inr (st1, row)
      else
        (let diff = num_lt (to_num below) ms in
         if descending st1 \<noteq> None \<and> descending st1 \<noteq> Some diff then
           (case this_alternative (dates st1) of
              Some alt \<Rightarrow>
                (case map_of dateFormats alt of
                   None \<Rightarrow> Inl TypeError
                 | Some f \<Rightarrow> Inr (st1\<lparr>dates := \<lparr>this_format = Some alt, this_alternative = alternative f\<rparr>,
                     descending := Some diff\<rparr>, length (cells (columns st1 ! col))))
            | None \<Rightarrow> Inr ((change_column col (\<lambda>c. c\<lparr>unsorted := True\<rparr>) st1)\<lparr>descending := Some diff\<rparr>, row))
         else Inr (st1\<lparr>descending := Some diff\<rparr>, row)))"

definition parse_cell :: "date_env \<Rightarrow> bool \<Rightarrow> bool \<Rightarrow> nat \<Rightarrow> nat \<Rightarrow> types_state \<Rightarrow> (types_state \<times> nat) res" where
  "parse_cell env isXColumn forceCategory col row st =
     (let val = cell_value st col row; floatVal = parse_float (to_str val); trimVal = trim_value val;
          st1 = st\<lparr>rawColumns := (rawColumns st)[col := list_put Undefined (rawColumns st ! col) row trimVal]\<rparr> in
      if forceCategory then Inr (change_column col (set_cell row trimVal) st1, row)
      else if loose_eq trimVal (Num floatVal) then Inr (number_cell col row floatVal st1, row)
      else bind_res (parseDate env (dates st1) val) (\<lambda>(ds, dateVal).
        let st2 = st1\<lparr>dates := ds\<rparr> in
        (case dateVal of
           Num ms \<Rightarrow> if isXColumn \<and> ms \<noteq> NaN then date_cell col row val ms st2
             else Inr (text_cell col row trimVal st2, row)
         | _ \<Rightarrow> Inr (text_cell col row trimVal st2, row))))"

section \<open>The loops\<close>

text \<open>How often the format can still change: a detection, then along the alternatives.\<close>

definition format_rank :: "date_state \<Rightarrow> nat" where
  "format_rank ds = (if this_format ds = None then 3 else 0) +
     (case this_alternative ds of None \<Rightarrow> 0
      | Some a \<Rightarrow> (case map_of dateFormats a of Some f \<Rightarrow> if alternative f = None then 1 else 2 | None \<Rightarrow> 1))"

lemma alternatives_end:
  "list_all (\<lambda>p. case alternative (snd p) of None \<Rightarrow> True
     | Some b \<Rightarrow> (case map_of dateFormats b of Some g \<Rightarrow> alternative g = None | None \<Rightarrow> False)) dateFormats"
  by (simp add: dateFormats_def)

lemma detected_alternative:
  assumes "(key, f) \<in> set dateFormats" and "alternative f = Some b"
  shows "\<exists>g. map_of dateFormats b = Some g \<and> alternative g = None"
proof -
  have "case alternative f of None \<Rightarrow> True
     | Some b \<Rightarrow> (case map_of dateFormats b of Some g \<Rightarrow> alternative g = None | None \<Rightarrow> False)"
    using alternatives_end assms(1) by (auto simp: list_all_iff)
  then show ?thesis using assms(2) by (auto split: option.splits)
qed

lemma format_alternatives:
  "map_of dateFormats a = Some f \<Longrightarrow> alternative f = Some b \<Longrightarrow>
   \<exists>g. map_of dateFormats b = Some g \<and> alternative g = None"
  using detected_alternative map_of_SomeD by metis

lemma detect_format_mem:
  "detect_format fs val = Some (key, f, ms) \<Longrightarrow> (key, f) \<in> set fs"
  by (induction fs val rule: detect_format.induct) (auto split: option.splits)

lemma parseDate_rank:
  assumes "parseDate env ds val = Inr (ds', v)"
  shows "ds' = ds \<or> format_rank ds' < format_rank ds"
proof -
  have "format_rank \<lparr>this_format = Some key, this_alternative = alternative f\<rparr> < format_rank ds"
    if "detect_format dateFormats s = Some (key, f, ms)" "this_format ds = None" for s key f ms
    using that(2) detected_alternative [OF detect_format_mem [OF that(1)]]
    by (auto simp: format_rank_def split: option.splits)
  then show ?thesis
    using assms
    by (auto simp: parseDate_def parse_date_text_def effective_format_def Let_def
        split: jsval.splits option.splits if_splits)
qed

lemma change_column_dates [simp]: "dates (change_column col f st) = dates st"
  by (simp add: change_column_def)

lemma date_cell_rank:
  assumes "date_cell col row val ms st = Inr (st', row')"
  shows "row' = row \<and> dates st' = dates st \<or> format_rank (dates st') < format_rank (dates st)"
proof -
  have "format_rank \<lparr>this_format = Some a, this_alternative = alternative f\<rparr> < format_rank (dates st)"
    if "this_alternative (dates st) = Some a" "map_of dateFormats a = Some f" for a f
    using that format_alternatives [OF that(2)] by (auto simp: format_rank_def split: option.splits)
  then show ?thesis
    using assms
    by (auto simp: date_cell_def Let_def split: option.splits if_splits)
qed

lemma parse_cell_rank:
  assumes "parse_cell env x force col row st = Inr (st', row')"
  shows "row' = row \<and> dates st' = dates st \<or> format_rank (dates st') < format_rank (dates st)"
proof -
  define val where "val = cell_value st col row"
  define st1 where "st1 = st\<lparr>rawColumns := (rawColumns st)
    [col := list_put Undefined (rawColumns st ! col) row (trim_value val)]\<rparr>"
  have d1: "dates st1 = dates st" by (simp add: st1_def)
  show ?thesis
  proof (cases "force \<or> loose_eq (trim_value val) (Num (parse_float (to_str val)))")
    case True
    then have "row' = row \<and> dates st' = dates st"
      using assms unfolding parse_cell_def Let_def val_def [symmetric] st1_def [symmetric]
      by (auto simp: number_cell_def d1 split: if_splits)
    then show ?thesis ..
  next
    case False
    then obtain ds v where pd: "parseDate env (dates st) val = Inr (ds, v)"
      and cell: "(case v of
           Num ms \<Rightarrow> if x \<and> ms \<noteq> NaN then date_cell col row val ms (st1\<lparr>dates := ds\<rparr>)
             else Inr (text_cell col row (trim_value val) (st1\<lparr>dates := ds\<rparr>), row)
         | _ \<Rightarrow> Inr (text_cell col row (trim_value val) (st1\<lparr>dates := ds\<rparr>), row)) = Inr (st', row')"
      using assms unfolding parse_cell_def Let_def val_def [symmetric] st1_def [symmetric]
      by (auto simp: d1 bind_res_Inr_iff)
    have "row' = row \<and> dates st' = ds \<or> format_rank (dates st') < format_rank ds"
    proof (cases "\<exists>ms. v = Num ms \<and> x \<and> ms \<noteq> NaN")
      case True
      then obtain ms where "date_cell col row val ms (st1\<lparr>dates := ds\<rparr>) = Inr (st', row')"
        using cell by auto
      then show ?thesis using date_cell_rank by fastforce
    next
      case False
      then show ?thesis using cell by (cases v) (auto simp: text_cell_def split: if_splits)
    qed
    then show ?thesis using parseDate_rank [OF pd] by auto
  qed
qed

text \<open>The cells of a column from the last row up.\<close>

function parse_rows :: "date_env \<Rightarrow> bool \<Rightarrow> bool \<Rightarrow> nat \<Rightarrow> nat \<Rightarrow> types_state \<Rightarrow> types_state res" where
  "parse_rows env isXColumn forceCategory col 0 st = Inr st"
| "parse_rows env isXColumn forceCategory col (Suc row) st =
     bind_res (parse_cell env isXColumn forceCategory col row st) (\<lambda>p.
       parse_rows env isXColumn forceCategory col (snd p) (fst p))"
  by pat_completeness auto

termination
proof (relation "measures [\<lambda>(env, x, force, col, row, st). format_rank (dates st),
    \<lambda>(env, x, force, col, row, st). row]")
  fix env x force col row st and p :: "types_state \<times> nat"
  assume "parse_cell env x force col row st = Inr p"
  then show "((env, x, force, col, snd p, fst p), env, x, force, col, Suc row, st) \<in>
      measures [\<lambda>(env, x, force, col, row, st). format_rank (dates st),
        \<lambda>(env, x, force, col, row, st). row]"
    using parse_cell_rank [of env x force col row st "fst p" "snd p"] by auto
qed simp

text \<open>\<open>chartOptions && chartOptions.xAxis && splat(chartOptions.xAxis)[0].type === 'category'\<close>.\<close>

definition force_category :: "jsval \<Rightarrow> bool \<Rightarrow> bool res" where
  "force_category chartOptions isXColumn =
     (let axis = get_or_undef chartOptions ''xAxis'' in
      if \<not> isXColumn \<or> \<not> truthy axis then Inr False
      else bind_res (get_prop (case axis of Arr vs \<Rightarrow> (case vs of [] \<Rightarrow> Undefined | v # _ \<Rightarrow> v) | _ \<Rightarrow> axis) ''type'')
        (\<lambda>type. Inr (type = Str ''category'')))"

definition parse_column :: "date_env \<Rightarrow> jsval \<Rightarrow> nat list \<Rightarrow> types_state \<Rightarrow> nat \<Rightarrow> types_state res" where
  "parse_column env chartOptions xColumns st col =
     (let isXColumn = (col \<in> set xColumns) in
      bind_res (force_category chartOptions isXColumn) (\<lambda>forceCategory.
      bind_res (parse_rows env isXColumn forceCategory col (length (cells (columns st ! col)))
          (st\<lparr>rawColumns := list_put [] (rawColumns st) col []\<rparr>)) (\<lambda>st'.
        Inr (if isXColumn \<and> mixed (columns st' ! col)
          then change_column col (\<lambda>_. plain_column (rawColumns st' ! col)) st' else st'))))"

text \<open>
  Descending dates: every column is turned round, a header staying on top. \<open>pop\<close> of an empty
  array gives \<open>undefined\<close>.
\<close>

definition turn_column :: "bool \<Rightarrow> column \<Rightarrow> column" where
  "turn_column hasHeaderRow c = (let r = rev (cells c) in
     c\<lparr>cells := (if hasHeaderRow then (if r = [] then [Undefined] else last r # butlast r) else r)\<rparr>)"

definition is_number :: "jsval \<Rightarrow> bool" where
  "is_number v = (case v of Num _ \<Rightarrow> True | _ \<Rightarrow> False)"

definition parseTypes :: "date_env \<Rightarrow> jsval \<Rightarrow> nat list \<Rightarrow> column list \<Rightarrow> date_state \<Rightarrow> types_state res" where
  "parseTypes env chartOptions xColumns cs ds =
     bind_res (fold_res (parse_column env chartOptions xColumns)
       \<lparr>columns = cs, rawColumns = [], backup = [], descending = None, dates = ds\<rparr> (rev [0..<length cs]))
     (\<lambda>st. case columns st of
        [] \<Rightarrow> Inl TypeError
      | c # _ \<Rightarrow>
          Inr (if isDatetime c \<and> descending st = Some True
            then st\<lparr>columns := map (turn_column (\<not> is_number (cell_at (cells c) 0))) (columns st)\<rparr>
            else st))"

text \<open>The header row: the first row, unless a numeric column starts with no text.\<close>

definition findHeaderRow :: "column list \<Rightarrow> bool" where
  "findHeaderRow cs = (\<not> list_ex (\<lambda>c. isNumeric c \<and> (\<forall>s. cell_at (cells c) 0 \<noteq> Str s)) cs)"

section \<open>Facts\<close>

text \<open>A cell the loose comparison takes for a number, and that number.\<close>

definition numeric_value :: "jsval \<Rightarrow> bool" where
  "numeric_value v = loose_eq (trim_value v) (Num (parse_float (to_str v)))"

definition as_number :: "jsval \<Rightarrow> jsval" where
  "as_number v = Num (parse_float (to_str v))"

definition nothing_saved :: "types_state \<Rightarrow> bool" where
  "nothing_saved st = list_all (\<lambda>v. \<not> truthy v) (backup st)"

lemma numeral_is_numeric:
  assumes "n \<le> 2 ^ 53"
  shows "numeric_value (Str (nat_digits 10 n))" "as_number (Str (nat_digits 10 n)) = Num (Fin (of_nat n))"
proof -
  have t: "trim (nat_digits 10 n) = nat_digits 10 n" by (rule trim_id) (simp add: nat_digits_plain)
  show "as_number (Str (nat_digits 10 n)) = Num (Fin (of_nat n))"
    by (simp add: as_number_def read_nat_digits [OF assms])
  show "numeric_value (Str (nat_digits 10 n))"
    by (simp add: numeric_value_def trim_value_def t loose_eq_def is_nullish_def is_object_def to_num_def
        read_nat_digits [OF assms])
qed

lemma nothing_saved_value: "nothing_saved st \<Longrightarrow> cell_value st col row = cell_at (cells (columns st ! col)) row"
  by (auto simp: cell_value_def nothing_saved_def cell_at_def list_at_def list_all_length truthy_def Let_def
      split: option.splits if_splits)

lemma list_put_inside: "i < length xs \<Longrightarrow> list_put d xs i v = xs[i := v]"
  by (simp add: list_put_def)

lemma number_cell_cells:
  assumes "col < length (columns st)"
  shows "cells (columns (number_cell col row x st) ! col) = list_put Undefined (cells (columns st ! col)) row (Num x)"
    "i \<noteq> col \<Longrightarrow> columns (number_cell col row x st) ! i = columns st ! i"
    "length (columns (number_cell col row x st)) = length (columns st)"
    "backup (number_cell col row x st) = backup st"
  using assms by (simp_all add: number_cell_def change_column_def set_cell_def Let_def)

lemma parse_rows_numeric:
  assumes "col < length (columns st)" and "nothing_saved st"
    and "n \<le> length (cells (columns st ! col))" and "list_all numeric_value (take n (cells (columns st ! col)))"
  shows "\<exists>st'. parse_rows env isX False col n st = Inr st' \<and> nothing_saved st' \<and>
    cells (columns st' ! col) = map as_number (take n (cells (columns st ! col))) @ drop n (cells (columns st ! col)) \<and>
    (\<forall>i. i \<noteq> col \<longrightarrow> columns st' ! i = columns st ! i)"
  using assms
proof (induction n arbitrary: st)
  case (Suc row)
  define vs where "vs = cells (columns st ! col)"
  have n: "row < length vs" using Suc.prems(3) by (simp add: vs_def)
  define st1 where "st1 = number_cell col row (parse_float (to_str (vs ! row)))
    (st\<lparr>rawColumns := (rawColumns st)[col := list_put Undefined (rawColumns st ! col) row (trim_value (vs ! row))]\<rparr>)"
  have val: "cell_value st col row = vs ! row"
    using n by (simp add: nothing_saved_value [OF Suc.prems(2)] vs_def cell_at_def list_at_def)
  have num: "numeric_value (vs ! row)" and front: "list_all numeric_value (take row vs)"
    using Suc.prems(4) n by (simp_all add: vs_def take_Suc_conv_app_nth)
  have step: "parse_cell env isX False col row st = Inr (st1, row)"
    using num by (simp add: parse_cell_def val Let_def st1_def numeric_value_def)
  have cells1: "cells (columns st1 ! col) = vs[row := as_number (vs ! row)]"
    and others1: "\<forall>i. i \<noteq> col \<longrightarrow> columns st1 ! i = columns st ! i"
    and cols1: "length (columns st1) = length (columns st)" and saved1: "nothing_saved st1"
    using Suc.prems(1,2) n
    by (simp_all add: st1_def number_cell_cells list_put_inside vs_def as_number_def nothing_saved_def)
  obtain st' where st': "parse_rows env isX False col row st1 = Inr st'" "nothing_saved st'"
      "cells (columns st' ! col) = map as_number (take row (cells (columns st1 ! col))) @ drop row (cells (columns st1 ! col))"
      "\<forall>i. i \<noteq> col \<longrightarrow> columns st' ! i = columns st1 ! i"
    using Suc.IH [of st1] Suc.prems(1) saved1 n front cells1 cols1 by auto
  have "cells (columns st' ! col) = map as_number (take (Suc row) vs) @ drop (Suc row) vs"
    using n st'(3) by (simp add: cells1 take_Suc_conv_app_nth drop_update_swap Cons_nth_drop_Suc [symmetric])
  then show ?case using step st' others1 by (simp add: vs_def)
qed simp

text \<open>Writing a cell twice.\<close>

lemma change_change:
  "col < length (columns st) \<Longrightarrow> change_column col f (change_column col g st) = change_column col (f \<circ> g) st"
  by (simp add: change_column_def)

lemma set_set: "set_cell row w (set_cell row v c) = set_cell row w c"
  by (simp add: set_cell_def list_put_def list_update_append)

lemma change_more:
  "change_column col f (st\<lparr>dates := ds\<rparr>) = (change_column col f st)\<lparr>dates := ds\<rparr>"
  "change_column col f (st\<lparr>rawColumns := rs\<rparr>) = (change_column col f st)\<lparr>rawColumns := rs\<rparr>"
  "change_column col f (st\<lparr>backup := bs\<rparr>) = (change_column col f st)\<lparr>backup := bs\<rparr>"
  "backup (change_column col f st) = backup st"
  by (simp_all add: change_column_def)

lemma overwritten:
  assumes "col < length (columns st)"
  shows "change_column col (set_cell row w) (change_column col (set_cell row v) st) = change_column col (set_cell row w) st"
    "number_cell col row x (change_column col (set_cell row v) st) = number_cell col row x st"
    "text_cell col row w (change_column col (set_cell row v) st) = text_cell col row w st"
    "date_cell col row w ms (change_column col (set_cell row v) st) = date_cell col row w ms st"
  using assms by (simp_all add: number_cell_def text_cell_def date_cell_def change_change change_more
      comp_def set_set)

section \<open>Properties\<close>

text \<open>
  A column other than the x columns whose cells are all numerals is read as their numbers, in
  order, and no other column changes; nothing can fail, whatever the chart options say.
\<close>

theorem numeric_column:
  assumes "col < length (columns st)" and "nothing_saved st"
    and "list_all numeric_value (cells (columns st ! col))" and "col \<notin> set xColumns"
  shows "\<exists>st'. parse_column env chartOptions xColumns st col = Inr st' \<and>
    cells (columns st' ! col) = map as_number (cells (columns st ! col)) \<and>
    (\<forall>i. i \<noteq> col \<longrightarrow> columns st' ! i = columns st ! i)"
  using parse_rows_numeric [of col "st\<lparr>rawColumns := list_put [] (rawColumns st) col []\<rparr>"
      "length (cells (columns st ! col))" env False] assms
  by (auto simp: parse_column_def nothing_saved_def force_category_def)

definition digit_state :: types_state where
  "digit_state = \<lparr>columns = [plain_column [Str ''day''], plain_column [Str (nat_digits 10 7), Str (nat_digits 10 12)]],
     rawColumns = [], backup = [], descending = None, dates = \<lparr>this_format = None, this_alternative = None\<rparr>\<rparr>"

theorem numeric_column_witness: "\<forall>env. \<exists>st'. parse_column env (Obj []) [0] digit_state 1 = Inr st' \<and>
  cells (columns st' ! 1) = [Num (Fin 7), Num (Fin 12)]"
proof
  fix env :: date_env
  have "list_all numeric_value (cells (columns digit_state ! 1))"
    by (simp add: digit_state_def plain_column_def numeral_is_numeric del: nat_digits.simps)
  moreover have "map as_number (cells (columns digit_state ! 1)) = [Num (Fin 7), Num (Fin 12)]"
    by (simp add: digit_state_def plain_column_def numeral_is_numeric del: nat_digits.simps)
  ultimately show "\<exists>st'. parse_column env (Obj []) [0] digit_state 1 = Inr st' \<and>
      cells (columns st' ! 1) = [Num (Fin 7), Num (Fin 12)]"
    using numeric_column [of 1 digit_state "[0]" env "Obj []"]
    by (auto simp: nothing_saved_def digit_state_def)
qed

text \<open>
  Once a row has a date in the backup list, which all columns share, the cells of that row in
  the columns still to be read do not matter: what the loop does with such a cell, errors
  included, is the same whatever value the cell has.
\<close>

theorem saved_date_hides_cell:
  assumes "truthy (cell_at (backup st) row)" and "col < length (columns st)"
  shows "parse_cell env isXColumn forceCategory col row (change_column col (set_cell row v) st) =
    parse_cell env isXColumn forceCategory col row st"
proof -
  have val: "cell_value (change_column col (set_cell row v) st) col row = cell_value st col row"
    using assms by (simp add: cell_value_def change_more)
  have raw: "rawColumns (change_column col (set_cell row v) st) = rawColumns st"
    by (simp add: change_column_def)
  show ?thesis
    by (simp add: parse_cell_def val raw Let_def overwritten assms change_more [symmetric]
        split del: if_split cong: if_cong)
qed

definition dated_state :: types_state where
  "dated_state = digit_state\<lparr>backup := [Str ''2014-01-01'']\<rparr>"

theorem saved_date_hides_cell_witness:
  "\<forall>env v. parse_cell env False False 1 0 (change_column 1 (set_cell 0 v) dated_state) =
    parse_cell env False False 1 0 dated_state"
  using saved_date_hides_cell [of dated_state 0 1 _ False False]
  by (simp add: dated_state_def digit_state_def cell_at_def list_at_def truthy_def)

end
