(* ===== verification/Lib_Data_Series.thy ===== *)
theory Lib_Data_Series
  imports Lib_Data_Types Util_Arrays
begin

text \<open>
  The data module of Highcharts (modules/data.src.js), third part: from columns to series. A
  series builder holds readers, each of a column under a name; the readers without a column take
  the next free one. The series types of the charting library are an argument: \<open>None\<close> for a type
  that does not exist, \<open>Some None\<close> for one without a \<open>pointArrayMap\<close>.
\<close>

section \<open>Series builders\<close>

record reader =
  columnIndex :: "nat option"
  configName :: string

record builder =
  readers :: "reader list"
  pointIsArray :: bool
  builder_name :: jsval

definition new_builder :: builder where
  "new_builder = \<lparr>readers = [], pointIsArray = True, builder_name = Undefined\<rparr>"

definition addColumnReader :: "nat option \<Rightarrow> string \<Rightarrow> builder \<Rightarrow> builder" where
  "addColumnReader index name b = b\<lparr>readers := readers b @ [\<lparr>columnIndex = index, configName = name\<rparr>],
     pointIsArray := (if name = ''x'' \<or> name = ''y'' then pointIsArray b else False)\<rparr>"

definition getReferencedColumnIndexes :: "builder \<Rightarrow> nat list" where
  "getReferencedColumnIndexes b = concat (map (\<lambda>r. case columnIndex r of None \<Rightarrow> [] | Some i \<Rightarrow> [i]) (readers b))"

definition hasReader :: "string \<Rightarrow> builder \<Rightarrow> bool" where
  "hasReader name b = list_ex (\<lambda>r. configName r = name) (readers b)"

text \<open>Readers take from the front of the free indexes, which may run out.\<close>

fun fill_readers :: "nat list \<Rightarrow> reader list \<Rightarrow> reader list \<times> nat list" where
  "fill_readers free [] = ([], free)"
| "fill_readers free (r # rs) =
     (if columnIndex r = None then
        (case free of
           [] \<Rightarrow> (let (rs', free') = fill_readers [] rs in (r # rs', free'))
         | i # is \<Rightarrow> (let (rs', free') = fill_readers is rs in (r\<lparr>columnIndex := Some i\<rparr> # rs', free')))
      else (let (rs', free') = fill_readers free rs in (r # rs', free')))"

definition populateColumns :: "nat list \<Rightarrow> builder \<Rightarrow> builder \<times> nat list \<times> bool" where
  "populateColumns freeIndexes b = (let (rs, free') = fill_readers freeIndexes (readers b) in
     (b\<lparr>readers := rs\<rparr>, free', list_all (\<lambda>r. columnIndex r \<noteq> None) rs))"

text \<open>The default \<open>sort\<close> compares the numerals, not the numbers.\<close>

definition numeral_compare :: "nat \<Rightarrow> nat \<Rightarrow> jsnum" where
  "numeral_compare a b = (if str_less (nat_digits 10 b) (nat_digits 10 a) then Fin 1
     else if str_less (nat_digits 10 a) (nat_digits 10 b) then Fin (- 1) else Fin 0)"

definition name_column :: "builder \<Rightarrow> nat option" where
  "name_column b = (let indexes = getReferencedColumnIndexes b in
     if 2 \<le> length (readers b) \<and> 2 \<le> length indexes
     then (case js_sort numeral_compare (tl indexes) of [] \<Rightarrow> None | i # _ \<Rightarrow> Some i) else None)"

definition read_value :: "column list \<Rightarrow> nat \<Rightarrow> reader \<Rightarrow> jsval res" where
  "read_value cs rowIndex r = (case columnIndex r of None \<Rightarrow> Inl TypeError
     | Some i \<Rightarrow> (case list_at cs i of None \<Rightarrow> Inl TypeError | Some c \<Rightarrow> Inr (cell_at (cells c) rowIndex)))"

definition read_name :: "column list \<Rightarrow> builder \<Rightarrow> builder res" where
  "read_name cs b = (if builder_name b = Undefined then
     (case name_column b of None \<Rightarrow> Inr b
      | Some i \<Rightarrow> (case list_at cs i of None \<Rightarrow> Inl TypeError | Some c \<Rightarrow> Inr (b\<lparr>builder_name := col_name c\<rparr>)))
     else Inr b)"

definition read_point :: "column list \<Rightarrow> nat \<Rightarrow> builder \<Rightarrow> (builder \<times> jsval) res" where
  "read_point cs rowIndex b =
     bind_res (map_res (read_value cs rowIndex) (readers b)) (\<lambda>vs.
     bind_res (read_name cs b) (\<lambda>b'.
       Inr (b', if pointIsArray b then Arr vs
         else Obj (foldl (\<lambda>ps (r, v). put_prop (configName r) v ps) [] (zip (readers b) vs)))))"

section \<open>Column distribution\<close>

type_synonym series_types = "string \<Rightarrow> string list option option"

text \<open>\<open>seriesTypes[type || 'line'].prototype.pointArrayMap\<close>.\<close>

definition getPointArrayMap :: "series_types \<Rightarrow> jsval \<Rightarrow> string list option res" where
  "getPointArrayMap types type = (case types (if truthy type then to_str type else ''line'') of
     None \<Rightarrow> Inl TypeError | Some m \<Rightarrow> Inr m)"

definition getValueCount :: "series_types \<Rightarrow> jsval \<Rightarrow> nat res" where
  "getValueCount types type = bind_res (getPointArrayMap types type) (\<lambda>m.
     Inr (case m of None \<Rightarrow> 1 | Some names \<Rightarrow> length names))"

record value_count =
  global :: nat
  xColumns :: "nat list"
  individual :: "nat list"
  seriesBuilders :: "builder list"
  globalPointArrayMap :: "string list"

text \<open>A mapping from names to columns; its \<open>x\<close> may be missing.\<close>

type_synonym series_mapping = "(string \<times> nat) list"

definition mapped_x :: "series_mapping \<Rightarrow> nat" where
  "mapped_x mapping = (case map_of mapping ''x'' of None \<Rightarrow> 0 | Some i \<Rightarrow> i)"

text \<open>
  \<open>seriesIndex\<close> is never given a number, so no series of the chart is found for a mapping, and
  the counts and names are those of the global type.
\<close>

definition mapping_builder :: "nat \<Rightarrow> string list \<Rightarrow> series_mapping \<Rightarrow> builder" where
  "mapping_builder needed pointArrayMap mapping =
     (let b0 = addColumnReader (map_of mapping ''x'') ''x'' new_builder;
          b1 = foldl (\<lambda>b (name, i). if name \<noteq> ''x'' then addColumnReader (Some i) name b else b) b0 mapping
      in foldl (\<lambda>b name. if hasReader name b then b else addColumnReader None name b) b1
           (take needed pointArrayMap))"

definition global_type :: "jsval \<Rightarrow> jsval" where
  "global_type chartOptions = get_or_undef (get_or_undef chartOptions ''chart'') ''type''"

definition chart_series_list :: "jsval \<Rightarrow> jsval list" where
  "chart_series_list chartOptions = (case get_or_undef chartOptions ''series'' of Arr ss \<Rightarrow> ss | _ \<Rightarrow> [])"

definition getColumnDistribution :: "series_types \<Rightarrow> jsval \<Rightarrow> series_mapping list \<Rightarrow> value_count res" where
  "getColumnDistribution types chartOptions seriesMapping =
     (let globalType = global_type chartOptions in
      bind_res (map_res (\<lambda>series. bind_res (get_prop series ''type'') (\<lambda>type.
          getValueCount types (if truthy type then type else globalType)))
        (chart_series_list chartOptions)) (\<lambda>individualCounts.
      bind_res (getPointArrayMap types globalType) (\<lambda>m.
      bind_res (getValueCount types globalType) (\<lambda>count.
        let names = (case m of None \<Rightarrow> [''y''] | Some ns \<Rightarrow> ns);
            xs = map mapped_x seriesMapping in
        Inr \<lparr>global = count, xColumns = (if xs = [] then [0] else xs), individual = individualCounts,
          seriesBuilders = map (mapping_builder count names) seriesMapping, globalPointArrayMap = names\<rparr>))))"

section \<open>Completion\<close>

definition getFreeIndexes :: "nat \<Rightarrow> builder list \<Rightarrow> nat list" where
  "getFreeIndexes numberOfColumns builders =
     (let free = foldl (\<lambda>free b. foldl (\<lambda>free i. list_put False free i False) free (getReferencedColumnIndexes b))
            (replicate numberOfColumns True) builders
      in filter (\<lambda>i. list_at free i = Some True) [0..<length free])"

fun populate_defined :: "builder list \<Rightarrow> nat list \<Rightarrow> builder list \<times> nat list" where
  "populate_defined [] free = ([], free)"
| "populate_defined (b # bs) free =
     (let (b', free', enough) = populateColumns free b; (bs', free'') = populate_defined bs free'
      in (if enough then b' # bs' else bs', free''))"

definition dynamic_builder :: "string list \<Rightarrow> builder" where
  "dynamic_builder names = foldl (\<lambda>b name. addColumnReader None name b)
     (addColumnReader (Some 0) ''x'' new_builder) names"

text \<open>The loop that makes series of the columns left over; it might not end.\<close>

partial_function (option) populate_dynamic :: "string list \<Rightarrow> nat list \<Rightarrow> builder list option" where
  "populate_dynamic names free =
     (if free = [] then Some []
      else (case populateColumns (remove1 0 free) (dynamic_builder names) of (b, free', enough) \<Rightarrow>
        Option.bind (populate_dynamic names free') (\<lambda>bs. Some (if enough then b # bs else bs))))"

definition take_header :: "bool \<Rightarrow> column \<Rightarrow> column" where
  "take_header header c = (if header then c\<lparr>col_name := cell_at (cells c) 0, cells := tl (cells c)\<rparr> else c)"

text \<open>The type of the x axis, from the column of the first reader.\<close>

definition axis_type :: "column list \<Rightarrow> builder list \<Rightarrow> jsval" where
  "axis_type cs bs = (case bs of [] \<Rightarrow> Undefined | b # _ \<Rightarrow>
     (case readers b of [] \<Rightarrow> Undefined | r # _ \<Rightarrow>
        (case columnIndex r of None \<Rightarrow> Undefined | Some i \<Rightarrow>
           (case list_at cs i of None \<Rightarrow> Undefined
            | Some c \<Rightarrow> if isDatetime c then Str ''datetime''
                else if \<not> isNumeric c then Str ''category'' else Undefined))))"

definition name_readers :: "builder \<Rightarrow> builder" where
  "name_readers b = b\<lparr>readers := map (\<lambda>r. if configName r = ''x'' then r\<lparr>configName := ''name''\<rparr> else r) (readers b)\<rparr>"

fun read_points :: "column list \<Rightarrow> nat list \<Rightarrow> builder \<Rightarrow> (builder \<times> jsval list) res" where
  "read_points cs [] b = Inr (b, [])"
| "read_points cs (j # js) b = bind_res (read_point cs j b) (\<lambda>(b', p).
     bind_res (read_points cs js b') (\<lambda>(b'', ps). Inr (b'', p # ps)))"

definition read_series :: "column list \<Rightarrow> builder \<Rightarrow> jsval res" where
  "read_series cs b = (case cs of [] \<Rightarrow> Inl TypeError | c # _ \<Rightarrow>
     bind_res (read_points cs [0..<length (cells c)] b) (\<lambda>(b', data).
       Inr (Obj ([(''data'', Arr data)] @
         (if truthy (builder_name b') then [(''name'', builder_name b')] else [])))))"

definition complete :: "value_count \<Rightarrow> bool \<Rightarrow> column list \<Rightarrow> jsval res option" where
  "complete vc header cs0 =
     (let cs = map (take_header header) cs0;
          (defined, free) = populate_defined (seriesBuilders vc) (getFreeIndexes (length cs) (seriesBuilders vc)) in
      (case populate_dynamic (take (global vc) (globalPointArrayMap vc)) free of None \<Rightarrow> None
       | Some dynamic \<Rightarrow>
           (let bs = defined @ dynamic; type = axis_type cs bs;
                bs' = (if type = Str ''category'' then map name_readers bs else bs) in
            Some (bind_res (map_res (read_series cs) bs') (\<lambda>series.
              Inr (Obj [(''xAxis'', Obj [(''type'', type)]), (''series'', Arr series)]))))))"

section \<open>Facts: the loop ends\<close>

lemma fill_readers_length: "length (snd (fill_readers free rs)) \<le> length free"
proof (induction free rs rule: fill_readers.induct)
  case (2 free r rs)
  then show ?case by (auto simp: Let_def split: list.splits prod.splits)
qed simp

lemma fill_readers_takes:
  "free \<noteq> [] \<Longrightarrow> list_ex (\<lambda>r. columnIndex r = None) rs \<Longrightarrow>
   length (snd (fill_readers free rs)) < length free"
proof (induction rs arbitrary: free)
  case (Cons r rs)
  show ?case
  proof (cases "columnIndex r = None")
    case True
    obtain i js where "free = i # js" using Cons.prems(1) by (cases free) auto
    then show ?thesis
      using True fill_readers_length [of js rs] by (auto simp: Let_def split: prod.splits)
  next
    case False
    then have "length (snd (fill_readers free rs)) < length free" using Cons by auto
    then show ?thesis using False by (cases "fill_readers free rs") auto
  qed
qed simp

lemma dynamic_readers:
  "readers (dynamic_builder names) = \<lparr>columnIndex = Some 0, configName = ''x''\<rparr> #
     map (\<lambda>name. \<lparr>columnIndex = None, configName = name\<rparr>) names"
proof -
  have "readers (foldl (\<lambda>b name. addColumnReader None name b) b names) =
      readers b @ map (\<lambda>name. \<lparr>columnIndex = None, configName = name\<rparr>) names" for b
    by (induction names arbitrary: b) (simp_all add: addColumnReader_def)
  then show ?thesis by (simp add: dynamic_builder_def) (simp add: addColumnReader_def new_builder_def)
qed

lemma populate_shorter:
  assumes "names \<noteq> []" and "free \<noteq> []"
    and "populateColumns (remove1 0 free) (dynamic_builder names) = (b, free', enough)"
  shows "length free' < length free"
proof -
  have free': "free' = snd (fill_readers (remove1 0 free) (readers (dynamic_builder names)))"
    using assms(3) by (auto simp: populateColumns_def Let_def split: prod.splits)
  have ex: "list_ex (\<lambda>r. columnIndex r = None) (readers (dynamic_builder names))"
    using assms(1) by (cases names) (simp_all add: dynamic_readers)
  show ?thesis
  proof (cases "remove1 0 free = []")
    case True
    then show ?thesis using fill_readers_length [of "[]"] assms(2) by (simp add: free')
  next
    case False
    then have "length free' < length (remove1 0 free)"
      using fill_readers_takes [OF False ex] by (simp add: free')
    then show ?thesis using length_remove1 [of 0 free] by (simp split: if_splits)
  qed
qed

lemma populate_dynamic_ends:
  assumes "names \<noteq> []"
  shows "\<exists>bs. populate_dynamic names free = Some bs"
proof (induction "length free" arbitrary: free rule: less_induct)
  case less
  show ?case
  proof (cases "free = []")
    case True
    then show ?thesis by (simp add: populate_dynamic.simps)
  next
    case False
    obtain b free' enough where p: "populateColumns (remove1 0 free) (dynamic_builder names) = (b, free', enough)"
      by (cases "populateColumns (remove1 0 free) (dynamic_builder names)") auto
    obtain bs where "populate_dynamic names free' = Some bs"
      using less populate_shorter [OF assms False p] by blast
    then show ?thesis using False p by (subst populate_dynamic.simps) simp
  qed
qed

section \<open>Facts: one value per point\<close>

definition simple_builder :: "nat \<Rightarrow> builder" where
  "simple_builder i = \<lparr>readers = [\<lparr>columnIndex = Some 0, configName = ''x''\<rparr>,
     \<lparr>columnIndex = Some i, configName = ''y''\<rparr>], pointIsArray = True, builder_name = Undefined\<rparr>"

lemma dynamic_y: "dynamic_builder [''y''] = \<lparr>readers = [\<lparr>columnIndex = Some 0, configName = ''x''\<rparr>,
     \<lparr>columnIndex = None, configName = ''y''\<rparr>], pointIsArray = True, builder_name = Undefined\<rparr>"
  by (simp add: dynamic_builder_def addColumnReader_def new_builder_def)

lemma populate_simple_step:
  "populateColumns (i # is) (dynamic_builder [''y'']) = (simple_builder i, is, True)"
  "populateColumns [] (dynamic_builder [''y'']) = (dynamic_builder [''y''], [], False)"
  by (simp_all add: populateColumns_def dynamic_y simple_builder_def)

lemma populate_simple: "0 \<notin> set free \<Longrightarrow> populate_dynamic [''y''] free = Some (map simple_builder free)"
proof (induction free)
  case Nil
  then show ?case by (simp add: populate_dynamic.simps)
next
  case (Cons i "is")
  then have "remove1 0 (i # is) = i # is" by (intro remove1_idem) auto
  then show ?case using Cons by (subst populate_dynamic.simps) (simp add: populate_simple_step)
qed

lemma populate_simple_upto: "populate_dynamic [''y''] [0..<n] = Some (map simple_builder [1..<n])"
proof (cases "n \<le> 1")
  case True
  then consider "n = 0" | "n = 1" by linarith
  then show ?thesis
  proof cases
    case 1
    then show ?thesis by (simp add: populate_dynamic.simps)
  next
    case 2
    then show ?thesis
      by (simp add: populate_simple_step populate_dynamic.simps [of _ "[0]"] populate_dynamic.simps [of _ "[]"])
  qed
next
  case False
  then have u: "[0..<n] = 0 # 1 # [2..<n]" "[1..<n] = 1 # [2..<n]"
    by (simp_all add: upt_conv_Cons numeral_2_eq_2)
  have "populate_dynamic [''y''] [2..<n] = Some (map simple_builder [2..<n])"
    by (rule populate_simple) simp
  then show ?thesis
    unfolding u by (subst populate_dynamic.simps) (simp add: populate_simple_step)
qed

lemma free_all: "getFreeIndexes n [] = [0..<n]"
  by (simp add: getFreeIndexes_def list_at_def filter_id_conv)

text \<open>The series of column \<open>i\<close>: its name on top, then pairs with the cells of the first column.\<close>

definition simple_points :: "column list \<Rightarrow> nat \<Rightarrow> jsval list" where
  "simple_points cs i = map (\<lambda>j. Arr [cell_at (cells (cs ! 0)) j, cell_at (cells (cs ! i)) j])
     [0..<length (cells (cs ! 0))]"

definition named_data :: "jsval list \<Rightarrow> jsval \<Rightarrow> jsval" where
  "named_data data name = Obj ([(''data'', Arr data)] @ (if truthy name then [(''name'', name)] else []))"

lemma read_point_simple:
  assumes "0 < i" "i < length cs" "readers b = [\<lparr>columnIndex = Some 0, configName = nx\<rparr>,
      \<lparr>columnIndex = Some i, configName = ny\<rparr>]" "pointIsArray b"
    "builder_name b = Undefined \<or> builder_name b = col_name (cs ! i)"
  shows "\<exists>b'. read_point cs j b = Inr (b', Arr [cell_at (cells (cs ! 0)) j, cell_at (cells (cs ! i)) j]) \<and>
    readers b' = readers b \<and> pointIsArray b' \<and> builder_name b' = col_name (cs ! i)"
proof -
  have at: "list_at cs 0 = Some (cs ! 0)" "list_at cs i = Some (cs ! i)"
    using assms(1,2) by (auto simp: list_at_def)
  have n: "name_column b = Some i"
    by (simp add: name_column_def getReferencedColumnIndexes_def assms(3) js_sort_def)
  have "\<exists>b'. read_name cs b = Inr b' \<and> readers b' = readers b \<and> pointIsArray b' \<and>
      builder_name b' = col_name (cs ! i)"
    using assms(4,5) n at(2) by (cases "builder_name b = Undefined") (auto simp: read_name_def)
  then show ?thesis
    using assms(3,4) at by (auto simp: read_point_def read_value_def)
qed

lemma read_points_simple:
  assumes "0 < i" "i < length cs" "readers b = [\<lparr>columnIndex = Some 0, configName = nx\<rparr>,
      \<lparr>columnIndex = Some i, configName = ny\<rparr>]" "pointIsArray b"
    "builder_name b = Undefined \<or> builder_name b = col_name (cs ! i)"
  shows "\<exists>b'. read_points cs js b = Inr (b', map (\<lambda>j. Arr [cell_at (cells (cs ! 0)) j, cell_at (cells (cs ! i)) j]) js) \<and>
    (builder_name b' = col_name (cs ! i) \<or> js = [] \<and> b' = b)"
  using assms(3-5)
proof (induction js arbitrary: b)
  case (Cons j js)
  obtain b1 where b1: "read_point cs j b = Inr (b1, Arr [cell_at (cells (cs ! 0)) j, cell_at (cells (cs ! i)) j])"
    "readers b1 = readers b" "pointIsArray b1" "builder_name b1 = col_name (cs ! i)"
    using read_point_simple [OF assms(1,2) Cons.prems] by blast
  then obtain b2 where "read_points cs js b1 = Inr (b2, map (\<lambda>j. Arr [cell_at (cells (cs ! 0)) j, cell_at (cells (cs ! i)) j]) js)"
    "builder_name b2 = col_name (cs ! i) \<or> js = [] \<and> b2 = b1"
    using Cons.IH [of b1] Cons.prems by auto
  then show ?case using b1 by auto
qed simp

lemma read_series_simple:
  assumes "0 < i" "i < length cs" "cells (cs ! 0) \<noteq> []"
    and b: "b = simple_builder i \<or> b = name_readers (simple_builder i)"
  shows "read_series cs b = Inr (named_data (simple_points cs i) (col_name (cs ! i)))"
proof -
  obtain c cs' where c: "cs = c # cs'" using assms(1,2) by (metis less_nat_zero_code list.exhaust list.size(3))
  obtain nx ny where r: "readers b = [\<lparr>columnIndex = Some 0, configName = nx\<rparr>, \<lparr>columnIndex = Some i, configName = ny\<rparr>]"
      "pointIsArray b" "builder_name b = Undefined"
    using b by (auto simp: simple_builder_def name_readers_def)
  obtain b' where "read_points cs [0..<length (cells (cs ! 0))] b = Inr (b', simple_points cs i)"
      "builder_name b' = col_name (cs ! i)"
    using read_points_simple [OF assms(1,2) r(1,2), of "[0..<length (cells (cs ! 0))]"] r(3) assms(3)
    by (auto simp: simple_points_def)
  then show ?thesis by (simp add: read_series_def c named_data_def)
qed

lemma read_all_simple:
  assumes "\<forall>i\<in>set is'. 0 < i \<and> i < length cs" "cells (cs ! 0) \<noteq> []"
    and f: "f = id \<or> f = name_readers"
  shows "map_res (read_series cs) (map (\<lambda>i. f (simple_builder i)) is') =
    Inr (map (\<lambda>i. named_data (simple_points cs i) (col_name (cs ! i))) is')"
  using assms(1)
proof (induction is')
  case (Cons i is')
  then have "read_series cs (f (simple_builder i)) = Inr (named_data (simple_points cs i) (col_name (cs ! i)))"
    using f by (intro read_series_simple [OF _ _ assms(2)]) auto
  then show ?case using Cons by simp
qed simp

section \<open>Properties\<close>

text \<open>
  The loop of complete that makes series of the columns left over ends, whatever columns are
  free, when the global type needs at least one value for a point.
\<close>

theorem completion_ends:
  assumes "0 < global vc" and "globalPointArrayMap vc \<noteq> []"
  shows "\<exists>result. complete vc header cs = Some result"
proof -
  obtain defined free where p: "populate_defined (seriesBuilders vc)
      (getFreeIndexes (length (map (take_header header) cs)) (seriesBuilders vc)) = (defined, free)"
    by (cases "populate_defined (seriesBuilders vc)
      (getFreeIndexes (length (map (take_header header) cs)) (seriesBuilders vc))")
  have "take (global vc) (globalPointArrayMap vc) \<noteq> []" using assms by simp
  then obtain bs where "populate_dynamic (take (global vc) (globalPointArrayMap vc)) free = Some bs"
    using populate_dynamic_ends by blast
  then show ?thesis using p by (simp add: complete_def Let_def)
qed

definition line_count :: value_count where
  "line_count = \<lparr>global = 1, xColumns = [0], individual = [], seriesBuilders = [], globalPointArrayMap = [''y'']\<rparr>"

theorem completion_ends_witness: "\<exists>result. complete line_count True [] = Some result"
  by (rule completion_ends) (simp_all add: line_count_def)

text \<open>
  Without a series mapping, a table of two or more rows under a header row becomes one series
  for each column after the first: its name is the header cell, its points pair the cells of the
  first column with those of the column.
\<close>

theorem one_series_per_column:
  assumes "getColumnDistribution types chartOptions [] = Inr vc"
    and "types (if truthy (global_type chartOptions) then to_str (global_type chartOptions) else ''line'') = Some None"
    and "2 \<le> length (cells (cs ! 0))" and "cs \<noteq> []"
  shows "\<exists>type. complete vc True cs = Some (Inr (Obj [(''xAxis'', Obj [(''type'', type)]),
    (''series'', Arr (map (\<lambda>i. named_data (simple_points (map (take_header True) cs) i)
       (cell_at (cells (cs ! i)) 0)) [1..<length cs]))]))"
proof -
  define cs' where "cs' = map (take_header True) cs"
  have vc: "take (global vc) (globalPointArrayMap vc) = [''y'']" "seriesBuilders vc = []"
    using assms(1,2) by (auto simp: getColumnDistribution_def getValueCount_def getPointArrayMap_def Let_def bind_res_Inr_iff)
  have nonempty: "cells (cs' ! 0) \<noteq> []"
    using assms(3,4) by (cases "cells (cs ! 0)") (auto simp: cs'_def take_header_def)
  have series: "map_res (read_series cs') (map (\<lambda>i. f (simple_builder i)) [1..<length cs']) =
      Inr (map (\<lambda>i. named_data (simple_points cs' i) (col_name (cs' ! i))) [1..<length cs'])"
    if "f = id \<or> f = name_readers" for f
    by (rule read_all_simple [OF _ nonempty that]) simp
  have names: "map (\<lambda>i. named_data (simple_points cs' i) (col_name (cs' ! i))) [1..<length cs'] =
      map (\<lambda>i. named_data (simple_points cs' i) (cell_at (cells (cs ! i)) 0)) [1..<length cs]"
    by (auto simp: cs'_def take_header_def)
  show ?thesis
    using series [of id] series [of name_readers]
    unfolding cs'_def [symmetric] names
    by (simp add: complete_def vc Let_def cs'_def [symmetric] free_all populate_simple_upto comp_def)
qed

definition fruit_columns :: "column list" where
  "fruit_columns = [plain_column [Str ''day'', Str ''Mon'', Str ''Tue''],
     plain_column [Str ''apples'', Num (Fin 3), Num (Fin 4)],
     plain_column [Str ''pears'', Num (Fin 1), Null]]"

theorem one_series_per_column_witness: "\<exists>type. complete line_count True fruit_columns =
  Some (Inr (Obj [(''xAxis'', Obj [(''type'', type)]), (''series'', Arr
    [named_data [Arr [Str ''Mon'', Num (Fin 3)], Arr [Str ''Tue'', Num (Fin 4)]] (Str ''apples''),
     named_data [Arr [Str ''Mon'', Num (Fin 1)], Arr [Str ''Tue'', Null]] (Str ''pears'')])]))"
proof -
  have "getColumnDistribution (\<lambda>_. Some None) (Obj []) [] = Inr line_count"
    by (simp add: getColumnDistribution_def getPointArrayMap_def getValueCount_def line_count_def
        global_type_def chart_series_list_def get_or_undef_def get_prop_def)
  then show ?thesis
    using one_series_per_column [of "\<lambda>_. Some None" "Obj []" line_count fruit_columns]
    by (simp add: fruit_columns_def plain_column_def cell_at_def list_at_def simple_points_def take_header_def upt_rec)
qed

end
