(* ===== verification/Lib_Data_Chart.thy ===== *)
theory Lib_Data_Chart
  imports Lib_Data_Series Lib_Themes
begin

text \<open>
  The data module of Highcharts (modules/data.src.js), fourth part: the run from the options to the
  chart. \<open>init\<close> picks the sources, \<open>dataFound\<close> runs the stages of the other parts in order, and the
  wrapped \<open>Chart.init\<close> merges what they give into the options of the chart. The request to the
  spreadsheet service is not run here: its answer arrives after \<open>init\<close> has returned.
\<close>

section \<open>From options to columns to chart options\<close>

text \<open>
  An empty text stands for a missing one. \<open>parsed_hook\<close> is the \<open>parsed\<close> callback: the columns as
  it leaves them, and whether what it returns is not \<open>false\<close>. The callbacks for the chart options
  are not run: the result lists what they are given.
\<close>

record data_options =
  given_columns :: "jsval list list option"
  given_rows :: "jsval list list option"
  csv :: string
  table :: "table_row_html list option"
  ranges :: range_options
  line_delim :: string
  item_delim :: string
  switchRowsAndColumns :: bool
  seriesMapping :: "series_mapping list"
  parsed_hook :: "column list \<Rightarrow> column list \<times> bool"
  wants_chart :: bool

text \<open>What a run leaves: the columns, the date format found, and the chart options so far.\<close>

type_synonym data_run = "column list \<times> date_state \<times> jsval list"

definition switched :: "data_options \<Rightarrow> column list \<Rightarrow> column list" where
  "switched opts cs = (if switchRowsAndColumns opts then map plain_column (rowsToColumns (map cells cs)) else cs)"

definition dataFound :: "series_types \<Rightarrow> date_env \<Rightarrow> jsval \<Rightarrow> data_options \<Rightarrow> data_run \<Rightarrow> data_run res option" where
  "dataFound types env chartOptions opts = (\<lambda>(cs, ds, charts).
     case bind_res (getColumnDistribution types chartOptions (seriesMapping opts)) (\<lambda>vc.
         bind_res (parseTypes env chartOptions (xColumns vc) (switched opts cs) ds) (\<lambda>st. Inr (vc, st))) of
       Inl e \<Rightarrow> Some (Inl e)
     | Inr (vc, st) \<Rightarrow>
         let header = findHeaderRow (columns st); (cs', go) = parsed_hook opts (columns st) in
         if go \<and> wants_chart opts then
           (case complete vc header cs' of
              None \<Rightarrow> None
            | Some r \<Rightarrow> Some (bind_res r (\<lambda>chart. Inr (map (take_header header) cs', dates st, charts @ [chart]))))
         else Some (Inr (cs', dates st, charts)))"

text \<open>The parsers write into the columns that are there; a column keeps its marks.\<close>

definition with_cells :: "column list \<Rightarrow> jsval list list \<Rightarrow> column list" where
  "with_cells cs vss = map (\<lambda>i. case list_at cs i of
     None \<Rightarrow> plain_column (vss ! i) | Some c \<Rightarrow> c\<lparr>cells := vss ! i\<rparr>) [0..<length vss]"

definition run_csv :: "series_types \<Rightarrow> date_env \<Rightarrow> jsval \<Rightarrow> data_options \<Rightarrow> data_run \<Rightarrow> data_run res option" where
  "run_csv types env chartOptions opts = (\<lambda>(cs, ds, charts).
     if csv opts \<noteq> '''' then
       dataFound types env chartOptions opts
         (with_cells cs (parseCSV (ranges opts) (line_delim opts) (item_delim opts) (csv opts) (map cells cs)), ds, charts)
     else Some (Inr (cs, ds, charts)))"

definition run_table :: "series_types \<Rightarrow> date_env \<Rightarrow> jsval \<Rightarrow> data_options \<Rightarrow> data_run \<Rightarrow> data_run res option" where
  "run_table types env chartOptions opts = (\<lambda>(cs, ds, charts).
     case table opts of
       Some trs \<Rightarrow> dataFound types env chartOptions opts
         (with_cells cs (parseTable (ranges opts) trs (map cells cs)), ds, charts)
     | None \<Rightarrow> Some (Inr (cs, ds, charts)))"

definition first_columns :: "data_options \<Rightarrow> column list" where
  "first_columns opts = map plain_column (case given_columns opts of Some cs \<Rightarrow> cs
     | None \<Rightarrow> (case given_rows opts of Some rows \<Rightarrow> rowsToColumns rows | None \<Rightarrow> []))"

definition data_init :: "series_types \<Rightarrow> date_env \<Rightarrow> jsval \<Rightarrow> data_options \<Rightarrow> data_run res option" where
  "data_init types env chartOptions opts =
     (let start = (first_columns opts, \<lparr>this_format = None, this_alternative = None\<rparr>, []) in
      if first_columns opts \<noteq> [] then dataFound types env chartOptions opts start
      else (case run_csv types env chartOptions opts start of
          None \<Rightarrow> None
        | Some (Inl e) \<Rightarrow> Some (Inl e)
        | Some (Inr run) \<Rightarrow> run_table types env chartOptions opts run))"

section \<open>Into the options of the chart\<close>

definition series_at :: "jsval list \<Rightarrow> nat \<Rightarrow> props" where
  "series_at ss i = props_or_empty (case list_at ss i of None \<Rightarrow> Undefined | Some s \<Rightarrow> s)"

definition merged_series :: "jsval list \<Rightarrow> jsval list \<Rightarrow> jsval list" where
  "merged_series us ds = map (\<lambda>i. Obj (merge2 (series_at us i) (series_at ds i))) [0..<max (length us) (length ds)]"

text \<open>
  The series of the user's options: an array is merged element by element, an object without a
  length is left, \<open>null\<close> has no length, and anything else is deleted.
\<close>

definition merge_user_series :: "props \<Rightarrow> props \<Rightarrow> props res" where
  "merge_user_series userOptions dataOptions = (case map_of userOptions ''series'' of
     None \<Rightarrow> Inr userOptions
   | Some (Arr us) \<Rightarrow> Inr (put_prop ''series'' (Arr (merged_series us
       (case get_own dataOptions ''series'' of Arr ds \<Rightarrow> ds | _ \<Rightarrow> []))) userOptions)
   | Some Null \<Rightarrow> Inl TypeError
   | Some (Obj _) \<Rightarrow> Inr userOptions
   | Some _ \<Rightarrow> Inr (filter (\<lambda>p. fst p \<noteq> ''series'') userOptions))"

definition afterComplete :: "props \<Rightarrow> props \<Rightarrow> props res" where
  "afterComplete userOptions dataOptions =
     bind_res (merge_user_series userOptions dataOptions) (\<lambda>u. Inr (merge2 dataOptions u))"

text \<open>
  The wrapped \<open>Chart.init\<close>: the options that the chart is made with, once for every time the data are
  complete, or as they are when there are no data in them. With both a CSV text and a table the
  second run would see the series that the first has merged; the model is about one of them.
\<close>

fun proceed_with :: "props \<Rightarrow> props list \<Rightarrow> props list res" where
  "proceed_with userOptions [] = Inr []"
| "proceed_with userOptions (d # ds) = bind_res (afterComplete userOptions d) (\<lambda>u.
     bind_res (proceed_with u ds) (\<lambda>us. Inr (u # us)))"

definition chart_init :: "series_types \<Rightarrow> date_env \<Rightarrow> data_options option \<Rightarrow> props \<Rightarrow> props list res option" where
  "chart_init types env data userOptions = (case data of None \<Rightarrow> Some (Inr [userOptions])
     | Some opts \<Rightarrow> (case data_init types env (Obj userOptions) (opts\<lparr>wants_chart := True\<rparr>) of None \<Rightarrow> None
         | Some r \<Rightarrow> Some (bind_res r (\<lambda>(cs, ds, charts). proceed_with userOptions (map props_or_empty charts)))))"

text \<open>The address that the cells of a spreadsheet are asked from.\<close>

definition sheet_request :: "jsval \<Rightarrow> jsval \<Rightarrow> string option" where
  "sheet_request key worksheet = (if truthy key
     then Some (''https://spreadsheets.google.com/feeds/cells/'' @ to_str key @ ''/'' @
       to_str (if truthy worksheet then worksheet else Str ''od6'') @ ''/public/values?alt=json-in-script&callback=?'')
     else None)"

section \<open>Facts: the types of a table with a header row\<close>

text \<open>
  A text that is read neither as a number nor as a date, without changing what is known of the
  date format.
\<close>

definition undated :: "date_env \<Rightarrow> date_state \<Rightarrow> string \<Rightarrow> bool" where
  "undated env ds s \<longleftrightarrow> \<not> numeric_value (Str s) \<and> trim s \<noteq> '''' \<and>
     (\<exists>v. parseDate env ds (Str s) = Inr (ds, v) \<and> (\<forall>ms. v = Num ms \<longrightarrow> ms = NaN))"

text \<open>What a stage on one column leaves alone.\<close>

definition only_column :: "nat \<Rightarrow> types_state \<Rightarrow> types_state \<Rightarrow> bool" where
  "only_column col st st' \<longleftrightarrow> length (columns st') = length (columns st) \<and>
     (\<forall>i. i \<noteq> col \<longrightarrow> columns st' ! i = columns st ! i) \<and> dates st' = dates st \<and>
     nothing_saved st'"

lemma only_columnI:
  assumes "nothing_saved st"
  shows "only_column col st (change_column col f (st\<lparr>rawColumns := rs\<rparr>))"
  using assms by (auto simp: only_column_def change_column_def nothing_saved_def)

lemma only_column_trans: "only_column col a b \<Longrightarrow> only_column col b c \<Longrightarrow> only_column col a c"
  by (simp add: only_column_def)

lemma cell_value_at:
  "nothing_saved st \<Longrightarrow> row < length (cells (columns st ! col)) \<Longrightarrow>
   cell_value st col row = cells (columns st ! col) ! row"
  by (simp add: nothing_saved_value cell_at_def list_at_def)

text \<open>A numeral, and a text, in an unforced column.\<close>

lemma parse_number_cell:
  assumes "col < length (columns st)" "nothing_saved st" "row < length (cells (columns st ! col))"
    and "numeric_value (cells (columns st ! col) ! row)"
  shows "\<exists>st'. parse_cell env isX False col row st = Inr (st', row) \<and> only_column col st st' \<and>
    cells (columns st' ! col) = (cells (columns st ! col))[row := as_number (cells (columns st ! col) ! row)]"
  using assms only_columnI [OF assms(2)]
  by (auto simp: parse_cell_def cell_value_at numeric_value_def [symmetric] number_cell_def change_column_def
      set_cell_def list_put_inside as_number_def Let_def)

lemma parse_text_cell:
  assumes "col < length (columns st)" "nothing_saved st" "row < length (cells (columns st ! col))"
    and "cells (columns st ! col) ! row = Str s" "undated env (dates st) s"
  shows "\<exists>st'. parse_cell env isX False col row st = Inr (st', row) \<and> only_column col st st' \<and>
    cells (columns st' ! col) = (cells (columns st ! col))[row := Str (trim s)] \<and>
    isDatetime (columns st' ! col) = isDatetime (columns st ! col) \<and>
    isNumeric (columns st' ! col) = isNumeric (columns st ! col) \<and>
    (row = 0 \<or> \<not> (isDatetime (columns st ! col) \<or> isNumeric (columns st ! col)) \<longrightarrow>
       mixed (columns st' ! col) = mixed (columns st ! col))"
proof -
  define st1 where "st1 = st\<lparr>rawColumns := (rawColumns st)[col := list_put Undefined (rawColumns st ! col) row (Str (trim s))]\<rparr>"
  obtain v where v: "parseDate env (dates st) (Str s) = Inr (dates st, v)" "\<forall>ms. v = Num ms \<longrightarrow> ms = NaN"
    and s: "\<not> numeric_value (Str s)" "trim s \<noteq> ''''"
    using assms(5) by (auto simp: undated_def)
  have "parse_cell env isX False col row st = Inr (text_cell col row (Str (trim s)) st1, row)"
    using assms(2-4) v s
    by (cases v) (auto simp: parse_cell_def cell_value_at numeric_value_def trim_value_def st1_def Let_def)
  moreover have "only_column col st (text_cell col row (Str (trim s)) st1)"
    unfolding text_cell_def st1_def by (rule only_columnI [OF assms(2)])
  ultimately show ?thesis
    using assms(1,3) s(2)
    by (auto simp: text_cell_def change_column_def set_cell_def list_put_inside st1_def Let_def)
qed

text \<open>A column of numerals under a header.\<close>

lemma parse_rows_headed:
  assumes "undated env ds h"
  shows "n \<le> length vs \<Longrightarrow> col < length (columns st) \<Longrightarrow> nothing_saved st \<Longrightarrow> dates st = ds \<Longrightarrow>
    list_all numeric_value (take n vs) \<Longrightarrow> cells (columns st ! col) = Str h # vs \<Longrightarrow>
    \<exists>st'. parse_rows env isX False col (Suc n) st = Inr st' \<and> only_column col st st' \<and>
      cells (columns st' ! col) = Str (trim h) # map as_number (take n vs) @ drop n vs"
proof (induction n arbitrary: st vs)
  case 0
  then show ?case
    using parse_text_cell [of col st 0 h env isX] assms by auto
next
  case (Suc n)
  have num: "numeric_value (vs ! n)" "list_all numeric_value (take n vs)"
    using Suc.prems(1,5) by (simp_all add: take_Suc_conv_app_nth)
  obtain st1 where st1: "parse_cell env isX False col (Suc n) st = Inr (st1, Suc n)" "only_column col st st1"
      "cells (columns st1 ! col) = Str h # vs[n := as_number (vs ! n)]"
    using parse_number_cell [of col st "Suc n" env isX] Suc.prems num(1) by auto
  have o: "col < length (columns st1)" "nothing_saved st1" "dates st1 = ds"
    using st1(2) Suc.prems(2,4) by (simp_all add: only_column_def)
  obtain st' where st': "parse_rows env isX False col (Suc n) st1 = Inr st'" "only_column col st1 st'"
      "cells (columns st' ! col) = Str (trim h) # map as_number (take n (vs[n := as_number (vs ! n)])) @ drop n (vs[n := as_number (vs ! n)])"
    using Suc.IH [of "vs[n := as_number (vs ! n)]" st1] Suc.prems(1) o num(2) st1(3) by auto
  have "drop n (vs[n := as_number (vs ! n)]) = as_number (vs ! n) # drop (Suc n) vs"
    using Suc.prems(1) by (simp add: drop_update_swap Cons_nth_drop_Suc [symmetric])
  then have "cells (columns st' ! col) = Str (trim h) # map as_number (take (Suc n) vs) @ drop (Suc n) vs"
    using st'(3) Suc.prems(1) by (simp add: take_Suc_conv_app_nth)
  moreover have "parse_rows env isX False col (Suc (Suc n)) st = Inr st'"
    using st1(1) st'(1) by (simp only: parse_rows.simps(2) bind_res_simps fst_conv snd_conv)
  ultimately show ?case using only_column_trans [OF st1(2) st'(2)] by blast
qed

text \<open>A column of texts.\<close>

lemma parse_rows_texts:
  "n \<le> length ss \<Longrightarrow> col < length (columns st) \<Longrightarrow> nothing_saved st \<Longrightarrow> list_all (undated env (dates st)) ss \<Longrightarrow>
   cells (columns st ! col) = map Str (take n ss) @ vs \<Longrightarrow>
   \<not> isDatetime (columns st ! col) \<Longrightarrow> \<not> isNumeric (columns st ! col) \<Longrightarrow> \<not> mixed (columns st ! col) \<Longrightarrow>
   \<exists>st'. parse_rows env isX False col n st = Inr st' \<and> only_column col st st' \<and>
     cells (columns st' ! col) = map (\<lambda>s. Str (trim s)) (take n ss) @ vs \<and>
     \<not> isDatetime (columns st' ! col) \<and> \<not> isNumeric (columns st' ! col) \<and> \<not> mixed (columns st' ! col)"
proof (induction n arbitrary: st vs)
  case 0
  then show ?case by (auto simp: only_column_def)
next
  case (Suc n)
  have n: "n < length ss" using Suc.prems(1) by simp
  then have c: "cells (columns st ! col) ! n = Str (ss ! n)" "n < length (cells (columns st ! col))"
    using Suc.prems(5) by (simp_all add: nth_append)
  have u: "undated env (dates st) (ss ! n)" using Suc.prems(4) n by (simp add: list_all_length)
  obtain st1 where st1: "parse_cell env isX False col n st = Inr (st1, n)" "only_column col st st1"
      "cells (columns st1 ! col) = (cells (columns st ! col))[n := Str (trim (ss ! n))]"
      "\<not> isDatetime (columns st1 ! col)" "\<not> isNumeric (columns st1 ! col)" "\<not> mixed (columns st1 ! col)"
    using parse_text_cell [OF Suc.prems(2,3) c(2,1) u, of isX] Suc.prems(6-8) by auto
  have cells1: "cells (columns st1 ! col) = map Str (take n ss) @ Str (trim (ss ! n)) # vs"
    using st1(3) Suc.prems(5) n by (simp add: take_Suc_conv_app_nth list_update_append)
  have o: "col < length (columns st1)" "nothing_saved st1" "dates st1 = dates st"
    using st1(2) Suc.prems(2) by (simp_all add: only_column_def)
  obtain st' where st': "parse_rows env isX False col n st1 = Inr st'" "only_column col st1 st'"
      "cells (columns st' ! col) = map (\<lambda>s. Str (trim s)) (take n ss) @ Str (trim (ss ! n)) # vs"
      "\<not> isDatetime (columns st' ! col)" "\<not> isNumeric (columns st' ! col)" "\<not> mixed (columns st' ! col)"
    using Suc.IH [OF _ o(1,2) _ cells1 st1(4-6)] Suc.prems(1,4) o(3) by auto
  have "parse_rows env isX False col (Suc n) st = Inr st'"
    using st1(1) st'(1) by (simp only: parse_rows.simps(2) bind_res_simps fst_conv snd_conv)
  then show ?case
    using only_column_trans [OF st1(2) st'(2)] st'(3-6) n by (auto simp: take_Suc_conv_app_nth)
qed

section \<open>Facts: the columns of a table with a header row and labels\<close>

text \<open>
  A table of texts that is to become a line chart: in the first column and the header row there
  is no number and no date, everywhere else a numeral.
\<close>

definition label_table :: "date_env \<Rightarrow> nat \<Rightarrow> string list list \<Rightarrow> bool" where
  "label_table env n rows \<longleftrightarrow> 2 \<le> length rows \<and> rectangular n rows \<and> 0 < n \<and>
     list_all (undated env \<lparr>this_format = None, this_alternative = None\<rparr>) (hd rows) \<and>
     list_all (\<lambda>r. undated env \<lparr>this_format = None, this_alternative = None\<rparr> (hd r)) rows \<and>
     list_all (\<lambda>r. list_all (\<lambda>s. numeric_value (Str s)) (tl r)) (tl rows)"

definition typed_column :: "string list list \<Rightarrow> nat \<Rightarrow> jsval list" where
  "typed_column rows c = (if c = 0 then map (\<lambda>r. Str (trim (r ! 0))) rows
     else Str (trim (hd rows ! c)) # map (\<lambda>r. as_number (Str (r ! c))) (tl rows))"

definition raw_column :: "string list list \<Rightarrow> nat \<Rightarrow> column" where
  "raw_column rows c = plain_column (map (\<lambda>r. Str (r ! c)) rows)"

lemma parse_column_typed:
  assumes t: "label_table env n rows" and c: "c < n"
    and st: "length (columns st) = n" "nothing_saved st" "dates st = \<lparr>this_format = None, this_alternative = None\<rparr>"
      "columns st ! c = raw_column rows c"
    and force: "force_category chartOptions True = Inr False"
  shows "\<exists>st'. parse_column env chartOptions [0] st c = Inr st' \<and> only_column c st st' \<and>
    cells (columns st' ! c) = typed_column rows c \<and> (c = 0 \<longrightarrow> \<not> isDatetime (columns st' ! c))"
proof -
  define st0 where "st0 = st\<lparr>rawColumns := list_put [] (rawColumns st) c []\<rparr>"
  have o: "only_column c st st0" using st(2) by (simp add: only_column_def st0_def nothing_saved_def)
  have st0: "c < length (columns st0)" "nothing_saved st0"
      "dates st0 = \<lparr>this_format = None, this_alternative = None\<rparr>" "columns st0 ! c = raw_column rows c"
    using st c by (simp_all add: st0_def nothing_saved_def)
  have len: "length r = n" if "r \<in> set rows" for r
    using t that by (auto simp: label_table_def rectangular_def list_all_iff)
  obtain h body where rows: "rows = h # body" using t by (cases rows) (auto simp: label_table_def)
  have column: "parse_column env chartOptions [0] st c =
      bind_res (force_category chartOptions (c = 0)) (\<lambda>force. bind_res (parse_rows env (c = 0) force c (length rows) st0)
        (\<lambda>st'. Inr (if c = 0 \<and> mixed (columns st' ! c)
          then change_column c (\<lambda>_. plain_column (rawColumns st' ! c)) st' else st')))"
    using st(4) by (simp add: parse_column_def st0_def raw_column_def plain_column_def Let_def)
  show ?thesis
  proof (cases "c = 0")
    case True
    have hd0: "r ! 0 = hd r" if "r \<in> set rows" for r using len [OF that] c by (cases r) auto
    have u: "list_all (undated env (dates st0)) (map (\<lambda>r. r ! 0) rows)"
      using t hd0 st0(3) by (auto simp: label_table_def list_all_iff)
    obtain st' where "parse_rows env True False c (length rows) st0 = Inr st'" "only_column c st0 st'"
        "cells (columns st' ! c) = map (\<lambda>s. Str (trim s)) (map (\<lambda>r. r ! 0) rows)"
        "\<not> isDatetime (columns st' ! c)" "\<not> mixed (columns st' ! c)"
      using parse_rows_texts [of "length rows" "map (\<lambda>r. r ! 0) rows" c st0 env "[]" True] st0 u True
      by (auto simp: raw_column_def plain_column_def comp_def)
    then show ?thesis
      using True force only_column_trans [OF o] unfolding column by (simp add: typed_column_def comp_def)
  next
    case False
    have num: "list_all numeric_value (map (\<lambda>r. Str (r ! c)) body)"
    proof -
      have "numeric_value (Str (r ! c))" if r: "r \<in> set body" for r
      proof -
        have "r ! c = tl r ! (c - 1)" using False len [of r] r c by (cases r) (auto simp: rows nth_Cons')
        moreover have "c - 1 < length (tl r)" using False len [of r] r c by (simp add: rows)
        ultimately have "r ! c \<in> set (tl r)" by simp
        then show ?thesis using t r by (auto simp: label_table_def rows list_all_iff)
      qed
      then show ?thesis by (simp add: list_all_iff)
    qed
    have "undated env \<lparr>this_format = None, this_alternative = None\<rparr> (h ! c)"
      using t c len [of h] by (auto simp: label_table_def rows list_all_iff)
    then obtain st' where "parse_rows env False False c (Suc (length body)) st0 = Inr st'" "only_column c st0 st'"
        "cells (columns st' ! c) = Str (trim (h ! c)) # map as_number (map (\<lambda>r. Str (r ! c)) body)"
      using parse_rows_headed [of env _ "h ! c" "length body" "map (\<lambda>r. Str (r ! c)) body" c st0 False] st0 num
      by (auto simp: raw_column_def plain_column_def rows)
    moreover have "force_category chartOptions False = Inr False" by (simp add: force_category_def)
    ultimately show ?thesis
      using False only_column_trans [OF o] unfolding column by (simp add: typed_column_def rows comp_def)
  qed
qed

lemma parse_columns_typed:
  assumes t: "label_table env n rows" and force: "force_category chartOptions True = Inr False"
  shows "m \<le> n \<Longrightarrow> length (columns st) = n \<Longrightarrow> nothing_saved st \<Longrightarrow>
    dates st = \<lparr>this_format = None, this_alternative = None\<rparr> \<Longrightarrow> \<forall>c<m. columns st ! c = raw_column rows c \<Longrightarrow>
    \<exists>st'. fold_res (parse_column env chartOptions [0]) st (rev [0..<m]) = Inr st' \<and>
      length (columns st') = n \<and> dates st' = dates st \<and> (\<forall>c<m. cells (columns st' ! c) = typed_column rows c) \<and>
      (\<forall>c\<ge>m. columns st' ! c = columns st ! c) \<and> (0 < m \<longrightarrow> \<not> isDatetime (columns st' ! 0))"
proof (induction m arbitrary: st)
  case (Suc m)
  obtain st1 where st1: "parse_column env chartOptions [0] st m = Inr st1" "only_column m st st1"
      "cells (columns st1 ! m) = typed_column rows m" "m = 0 \<longrightarrow> \<not> isDatetime (columns st1 ! m)"
    using parse_column_typed [OF t _ Suc.prems(2-4) _ force, of m] Suc.prems(1,5) by auto
  obtain st' where st': "fold_res (parse_column env chartOptions [0]) st1 (rev [0..<m]) = Inr st'"
      "length (columns st') = n" "dates st' = dates st1" "\<forall>c<m. cells (columns st' ! c) = typed_column rows c"
      "\<forall>c\<ge>m. columns st' ! c = columns st1 ! c" "0 < m \<longrightarrow> \<not> isDatetime (columns st' ! 0)"
    using Suc.IH [of st1] Suc.prems st1(2) by (auto simp: only_column_def)
  have "\<forall>c\<ge>Suc m. columns st' ! c = columns st ! c" using st'(5) st1(2) by (simp add: only_column_def)
  moreover have "\<forall>c<Suc m. cells (columns st' ! c) = typed_column rows c"
    using st'(4,5) st1(3) by (simp add: less_Suc_eq)
  moreover have "\<not> isDatetime (columns st' ! 0)" using st'(5,6) st1(4) by (cases "m = 0") auto
  ultimately show ?case using st1 st'(1-3) by (simp add: only_column_def)
qed simp

lemma parseTypes_label_table:
  assumes t: "label_table env n rows" and force: "force_category chartOptions True = Inr False"
    and cs: "cs = map (raw_column rows) [0..<n]"
  shows "\<exists>st. parseTypes env chartOptions [0] cs \<lparr>this_format = None, this_alternative = None\<rparr> = Inr st \<and>
    map cells (columns st) = map (typed_column rows) [0..<n]"
proof -
  define st0 where "st0 = \<lparr>columns = cs, rawColumns = [], backup = [], descending = None,
    dates = \<lparr>this_format = None, this_alternative = None\<rparr>\<rparr>"
  have n: "0 < n" using t by (simp add: label_table_def)
  obtain st where st: "fold_res (parse_column env chartOptions [0]) st0 (rev [0..<n]) = Inr st"
      "length (columns st) = n" "\<forall>c<n. cells (columns st ! c) = typed_column rows c" "\<not> isDatetime (columns st ! 0)"
    using parse_columns_typed [OF t force, of n st0] n by (auto simp: st0_def cs nothing_saved_def)
  obtain c cs' where c: "columns st = c # cs'" using st(2) n by (cases "columns st") auto
  have "parseTypes env chartOptions [0] cs \<lparr>this_format = None, this_alternative = None\<rparr> = Inr st"
  proof -
    have "parseTypes env chartOptions [0] cs \<lparr>this_format = None, this_alternative = None\<rparr> =
        bind_res (fold_res (parse_column env chartOptions [0]) st0 (rev [0..<n])) (\<lambda>st. case columns st of
          [] \<Rightarrow> Inl TypeError
        | c # _ \<Rightarrow> Inr (if isDatetime c \<and> descending st = Some True
            then st\<lparr>columns := map (turn_column (\<not> is_number (cell_at (cells c) 0))) (columns st)\<rparr> else st))"
      by (simp add: parseTypes_def st0_def cs)
    then show ?thesis using st(1,4) c by simp
  qed
  moreover have "map cells (columns st) = map (typed_column rows) [0..<n]"
    using st(2,3) by (intro nth_equalityI) simp_all
  ultimately show ?thesis by blast
qed

text \<open>The header row is found, and the CSV text of the table gives its columns.\<close>

lemma header_found:
  assumes "label_table env n rows" "map cells cs = map (typed_column rows) [0..<n]"
  shows "findHeaderRow cs"
proof -
  have "cell_at (typed_column rows c) 0 = Str (trim (hd rows ! c))" for c
    using assms(1) by (cases rows) (auto simp: typed_column_def label_table_def cell_at_def)
  moreover have "cells c \<in> set (map (typed_column rows) [0..<n])" if "c \<in> set cs" for c
    using that by (simp add: assms(2) [symmetric])
  ultimately show ?thesis by (fastforce simp: findHeaderRow_def list_ex_iff)
qed

lemma csv_columns:
  assumes "list_all csv_row rows" "rectangular n rows" "rows \<noteq> []"
  shows "with_cells [] (parseCSV whole_table '''' '''' (csv_text rows) []) = map (raw_column rows) [0..<n]"
proof -
  have "parseCSV whole_table '''' '''' (csv_text rows) [] = columns_of n (map (map Str) rows)"
    using parseCSV_text [OF assms(1)] assms(2,3)
    by (simp add: rowsToColumns_rect rectangular_def list_all_iff)
  moreover have "column_of c (map (map Str) rows) = map (\<lambda>r. Str (r ! c)) rows" if "c < n" for c
    using that assms(2) by (auto simp: column_of_def rectangular_def list_all_iff)
  ultimately show ?thesis
    by (auto simp: with_cells_def columns_of_def raw_column_def)
qed

text \<open>The series of column \<open>i\<close>: the header cell, and a point of label and number per row.\<close>

definition table_series :: "string list list \<Rightarrow> nat \<Rightarrow> jsval" where
  "table_series rows i = named_data (map (\<lambda>r. Arr [Str (trim (r ! 0)), as_number (Str (r ! i))]) (tl rows))
     (Str (trim (hd rows ! i)))"

lemma table_points:
  assumes "label_table env n rows" "map cells cs = map (typed_column rows) [0..<n]" "0 < i" "i < n"
  shows "named_data (simple_points (map (take_header True) cs) i) (cell_at (cells (cs ! i)) 0) = table_series rows i"
proof -
  obtain h body where rows: "rows = h # body" using assms(1) by (cases rows) (auto simp: label_table_def)
  have len: "length cs = n" using assms(2) by (metis length_map length_upt diff_zero)
  have c: "cells (cs ! j) = typed_column rows j" if "j < n" for j
    using that len assms(2) by (metis add_0 length_upt diff_zero nth_map nth_upt)
  have "0 < length cs" using len assms(3,4) by simp
  then show ?thesis
    using assms(3,4) len c [of 0] c [OF assms(4)]
    by (auto simp: table_series_def simple_points_def take_header_def typed_column_def rows cell_at_def list_at_def
        intro!: arg_cong2 [where f = named_data] nth_equalityI)
qed

text \<open>Options with a CSV text and nothing else.\<close>

definition csv_only :: "string \<Rightarrow> data_options" where
  "csv_only text = \<lparr>given_columns = None, given_rows = None, csv = text, table = None, ranges = whole_table,
     line_delim = '''', item_delim = '''', switchRowsAndColumns = False, seriesMapping = [],
     parsed_hook = (\<lambda>cs. (cs, True)), wants_chart = True\<rparr>"

lemma csv_only_simps [simp]:
  "given_columns (csv_only t) = None" "given_rows (csv_only t) = None" "csv (csv_only t) = t"
  "table (csv_only t) = None" "ranges (csv_only t) = whole_table" "line_delim (csv_only t) = ''''"
  "item_delim (csv_only t) = ''''" "\<not> switchRowsAndColumns (csv_only t)" "seriesMapping (csv_only t) = []"
  "parsed_hook (csv_only t) cs = (cs, True)" "wants_chart (csv_only t)"
  by (simp_all add: csv_only_def)

section \<open>Properties\<close>

lemma data_init_csv:
  assumes "label_table env n rows" and "list_all csv_row rows"
    and "getColumnDistribution types chartOptions [] = Inr vc"
    and "types (if truthy (global_type chartOptions) then to_str (global_type chartOptions) else ''line'') = Some None"
    and "force_category chartOptions True = Inr False"
  shows "\<exists>cs ds type. data_init types env chartOptions (csv_only (csv_text rows)) = Some (Inr (cs, ds,
    [Obj [(''xAxis'', Obj [(''type'', type)]), (''series'', Arr (map (table_series rows) [1..<n]))]]))"
proof -
  let ?fresh = "\<lparr>this_format = None, this_alternative = None\<rparr>"
  let ?opts = "csv_only (csv_text rows)"
  have t: "2 \<le> length rows" "rectangular n rows" "0 < n" using assms(1) by (simp_all add: label_table_def)
  obtain st where st: "parseTypes env chartOptions [0] (map (raw_column rows) [0..<n]) ?fresh = Inr st"
      "map cells (columns st) = map (typed_column rows) [0..<n]"
    using parseTypes_label_table [OF assms(1,5) refl] by blast
  have len: "length (columns st) = n" using st(2) by (metis length_map length_upt diff_zero)
  then have ne: "columns st \<noteq> []" using t(3) by auto
  have "cells (columns st ! 0) = typed_column rows 0"
    using st(2) t(3) len by (metis add_0 length_upt diff_zero nth_map nth_upt)
  then have two: "2 \<le> length (cells (columns st ! 0))" using t(1) by (simp add: typed_column_def)
  have x: "xColumns vc = [0]"
    using assms(3) by (auto simp: getColumnDistribution_def Let_def bind_res_Inr_iff)
  have series: "map (\<lambda>i. named_data (simple_points (map (take_header True) (columns st)) i)
      (cell_at (cells (columns st ! i)) 0)) [1..<n] = map (table_series rows) [1..<n]"
    by (rule map_cong) (use table_points [OF assms(1) st(2)] in auto)
  obtain type where "complete vc True (columns st) = Some (Inr (Obj [(''xAxis'', Obj [(''type'', type)]),
      (''series'', Arr (map (table_series rows) [1..<n]))]))"
    using one_series_per_column [OF assms(3,4) two ne] unfolding len series by blast
  then have "dataFound types env chartOptions ?opts (map (raw_column rows) [0..<n], ?fresh, []) = Some (Inr
      (map (take_header True) (columns st), dates st,
       [Obj [(''xAxis'', Obj [(''type'', type)]), (''series'', Arr (map (table_series rows) [1..<n]))]]))"
    using header_found [OF assms(1) st(2)]
    by (simp add: dataFound_def switched_def assms(3) x st(1))
  moreover have "csv_text rows \<noteq> []" using t(1) by (cases rows) (auto simp: csv_text_def)
  moreover have "rows \<noteq> []" using t(1) by auto
  ultimately have "data_init types env chartOptions ?opts = Some (Inr
      (map (take_header True) (columns st), dates st,
       [Obj [(''xAxis'', Obj [(''type'', type)]), (''series'', Arr (map (table_series rows) [1..<n]))]]))"
    using csv_columns [OF assms(2) t(2)] by (simp add: data_init_def first_columns_def run_csv_def run_table_def)
  then show ?thesis by blast
qed

text \<open>
  C10: a chart whose options have a CSV text, a table with a header row and labels in the first column
  and numerals elsewhere, is made exactly once, with the user's options over those of the data: one
  series for each further column, named by the header cell, with one point for each row, made of its
  label and its number. The run returns and throws nothing.
\<close>

theorem csv_to_series:
  assumes "label_table env n rows" and "list_all csv_row rows"
    and "getColumnDistribution types (Obj u) [] = Inr vc"
    and "types (if truthy (global_type (Obj u)) then to_str (global_type (Obj u)) else ''line'') = Some None"
    and "force_category (Obj u) True = Inr False" and "map_of u ''series'' = None"
  shows "\<exists>type. chart_init types env (Some (csv_only (csv_text rows))) u = Some (Inr
    [merge2 [(''xAxis'', Obj [(''type'', type)]), (''series'', Arr (map (table_series rows) [1..<n]))] u])"
proof -
  have plain: "(csv_only (csv_text rows))\<lparr>wants_chart := True\<rparr> = csv_only (csv_text rows)" by (simp add: csv_only_def)
  obtain cs ds type where run: "data_init types env (Obj u) (csv_only (csv_text rows)) = Some (Inr (cs, ds,
      [Obj [(''xAxis'', Obj [(''type'', type)]), (''series'', Arr (map (table_series rows) [1..<n]))]]))"
    using data_init_csv [OF assms(1-5)] by blast
  show ?thesis
    unfolding chart_init_def option.case plain run
    using assms(6) by (intro exI [of _ type]) (simp add: afterComplete_def merge_user_series_def props_or_empty_def)
qed

definition plain_env :: date_env where
  "plain_env = \<lparr>parse_option = None, format_option = '''', date_parse = (\<lambda>_. NaN), timezone_offset = (\<lambda>_. Fin 0)\<rparr>"

lemma undated_plain:
  "parse_float s = NaN \<Longrightarrow> date_fields s = None \<Longrightarrow> trim s \<noteq> '''' \<Longrightarrow>
   undated plain_env \<lparr>this_format = None, this_alternative = None\<rparr> s"
  by (simp add: undated_def numeric_value_def trim_value_def loose_eq_def is_nullish_def is_object_def to_num_def
      num_eq_def parseDate_def parse_date_text_def effective_format_def dateFormats_def match_format_def
      fallback_date_def plain_env_def)

lemmas text_eval = parse_float_def trim_left_def trim_def scan_sign_def scan_decimal_def date_fields_def
  date_separator_def is_ws_def is_digit_def code_def

theorem csv_to_series_witness:
  "\<exists>type. chart_init (\<lambda>_. Some None) plain_env (Some (csv_only (csv_text [[''day'', ''apples''], [''Mon'', nat_digits 10 3]]))) [] =
    Some (Inr [merge2 [(''xAxis'', Obj [(''type'', type)]), (''series'', Arr
      [named_data [Arr [Str ''Mon'', Num (Fin 3)]] (Str ''apples'')])] []])"
proof -
  let ?rows = "[[''day'', ''apples''], [''Mon'', nat_digits 10 3]]"
  have "undated plain_env \<lparr>this_format = None, this_alternative = None\<rparr> s" if "s \<in> {''day'', ''apples'', ''Mon''}" for s
    by (rule undated_plain) (use that in \<open>auto simp: text_eval\<close>)
  then have table: "label_table plain_env 2 ?rows"
    using numeral_is_numeric(1) [of 3] by (simp add: label_table_def rectangular_def)
  have digits: "nat_digits 10 3 = ''3''"
    using digit_char_code [of 3] by (simp add: nat_digits.simps) (simp add: code_inject [symmetric] code_def)
  have rows: "list_all csv_row ?rows"
    unfolding digits
    by (simp add: csv_row_def csv_cell_def csv_line_of_def is_data_line_def trim_def is_ws_def code_def prefix_def)
  have vc: "getColumnDistribution (\<lambda>_. Some None) (Obj []) [] = Inr line_count"
    by (simp add: getColumnDistribution_def getPointArrayMap_def getValueCount_def line_count_def
        global_type_def chart_series_list_def get_or_undef_def get_prop_def)
  have series: "map (table_series ?rows) [1..<2] = [named_data [Arr [Str ''Mon'', Num (Fin 3)]] (Str ''apples'')]"
  proof -
    have "as_number (Str (nat_digits 10 3)) = Num (Fin 3)" using numeral_is_numeric(2) [of 3] by simp
    then show ?thesis by (simp add: table_series_def upt_rec text_eval numeral_2_eq_2)
  qed
  have force: "force_category (Obj []) True = Inr False"
    by (simp add: force_category_def get_or_undef_def truthy_def)
  show ?thesis
    using csv_to_series [OF table rows vc refl force] unfolding series by simp
qed

text \<open>
  When the user's options have an array of series, the chart gets as many series as the longer
  of the two arrays; in each the points are those of the data, whatever the user gave, and the keys
  the data does not mention are the user's. Options the user does not give come from the data.
\<close>

theorem chart_series_merged:
  assumes "wf_val (Obj u)" and "wf_val (Obj d)"
    and "map_of u ''series'' = Some (Arr us)" and "map_of d ''series'' = Some (Arr ds)"
    and "i < length ds" and "ds ! i = Obj dps" and "map_of dps ''data'' = Some (Arr points)"
  shows "\<exists>options ss sp. afterComplete u d = Inr options \<and> get_own options ''series'' = Arr ss \<and>
    length ss = max (length us) (length ds) \<and> ss ! i = Obj sp \<and> get_own sp ''data'' = Arr points \<and>
    (\<forall>k. k \<notin> fst ` set dps \<longrightarrow> get_own sp k = get_own (merge_props [] (series_at us i)) k) \<and>
    (\<forall>k. k \<notin> fst ` set u \<longrightarrow> get_own options k = get_own (merge_props [] d) k)"
proof -
  define u' where "u' = put_prop ''series'' (Arr (merged_series us ds)) u"
  have keys: "ordered_keys (keys_of u')"
    using assms(1) unfolding u'_def by (intro ordered_keys_put_prop) (simp add: keys_of_def)
  then have dist: "distinct (map fst u')" using ordered_keys_distinct by (simp add: keys_of_def)
  have after: "afterComplete u d = Inr (merge2 d u')"
    using assms(3,4) by (simp add: afterComplete_def merge_user_series_def get_own_def u'_def)
  have series: "get_own (merge2 d u') ''series'' = Arr (merged_series us ds)"
    using dist by (simp add: merge2_def get_own_merge_props u'_def map_of_put_prop)
  have at: "merged_series us ds ! i = Obj (merge_props (merge_props [] (series_at us i)) dps)"
    using assms(5,6) by (simp add: merged_series_def merge2_def series_at_def list_at_def props_or_empty_def)
  have "wf_val (Obj dps)"
  proof -
    have "wf_val (Arr ds)"
      using assms(2) map_of_SomeD [OF assms(4)] by (auto simp: list_all_iff)
    then show ?thesis using assms(5,6) by (auto simp: list_all_length)
  qed
  then have dps: "distinct (map fst dps)" by (simp add: ordered_keys_distinct)
  have others: "get_own (merge2 d u') k = get_own (merge_props [] d) k" if "k \<notin> fst ` set u" for k
  proof -
    have "k \<noteq> ''series''" using that map_of_SomeD [OF assms(3)] by force
    moreover have "fst ` set u' = insert ''series'' (fst ` set u)"
      using set_keys_put_prop [of "''series''" _ u] by (simp add: u'_def keys_of_def)
    ultimately show ?thesis using that by (simp add: merge2_def get_own_def merge_props_notin)
  qed
  show ?thesis
    using after series at others assms(7) dps
    by (intro exI [of _ "merge2 d u'"] exI [of _ "merged_series us ds"]
        exI [of _ "merge_props (merge_props [] (series_at us i)) dps"])
      (auto simp: merged_series_def get_own_merge_props get_own_def merge_props_notin map_of_merge_props)
qed

definition user_chart :: props where
  "user_chart = [(''title'', Obj [(''text'', Str ''fruit'')]), (''series'', Arr [Obj [(''data'', Arr []), (''color'', Str ''red'')]])]"

definition data_chart :: props where
  "data_chart = [(''xAxis'', Obj [(''type'', Undefined)]), (''series'', Arr
     [Obj [(''data'', Arr [Num (Fin 1)]), (''name'', Str ''apples'')]])]"

theorem chart_series_merged_witness:
  "\<exists>options ss sp. afterComplete user_chart data_chart = Inr options \<and> get_own options ''series'' = Arr ss \<and>
     ss ! 0 = Obj sp \<and> get_own sp ''data'' = Arr [Num (Fin 1)] \<and> get_own sp ''color'' = Str ''red''"
proof -
  have "wf_val (Obj user_chart)" "wf_val (Obj data_chart)"
    by (simp_all add: user_chart_def data_chart_def ordered_keys_def key_before_def is_array_index_def is_digit_def
        code_def is_double_of_int [of 1, simplified])
  moreover have "get_own (merge_props [] (series_at [Obj [(''data'', Arr []), (''color'', Str ''red'')]] 0)) ''color'' = Str ''red''"
    by (simp add: series_at_def props_or_empty_def key_before_def is_array_index_def is_digit_def code_def)
  ultimately show ?thesis
    using chart_series_merged [of user_chart data_chart "[Obj [(''data'', Arr []), (''color'', Str ''red'')]]"
        "[Obj [(''data'', Arr [Num (Fin 1)]), (''name'', Str ''apples'')]]" 0
        "[(''data'', Arr [Num (Fin 1)]), (''name'', Str ''apples'')]" "[Num (Fin 1)]"]
    by (fastforce simp: user_chart_def data_chart_def)
qed

end
