(* ===== verification/Lib_Json.thy ===== *)
theory Lib_Json
  imports JS_Value
begin

text \<open>
  lib/json.js: \<open>JSON.stringify\<close> and \<open>JSON.parse\<close> for browsers without them. The writer is the
  recursive function \<open>str\<close> with its replacers, its gap and its indentation; what it writes is
  related to a grammar of JSON texts. Of the reader the three stages before and the walk after
  \<open>eval\<close> are modelled; \<open>eval\<close> itself is an argument. A text holds characters up to 255, so of the
  character classes only the part below 256 occurs. The depth of the stack is an argument too: a
  call that exceeds it throws a \<open>RangeError\<close>, as the engine does.
\<close>

section \<open>Strings\<close>

text \<open>The characters that need an escape, and the table of short ones.\<close>

definition escapable :: "char \<Rightarrow> bool" where
  "escapable c \<longleftrightarrow> c = CHR 0x5C \<or> c = CHR 0x22 \<or> code c \<le> 31 \<or> (127 \<le> code c \<and> code c \<le> 159) \<or> code c = 173"

definition meta :: "char \<Rightarrow> char option" where
  "meta c = map_of [(CHR 0x08, CHR ''b''), (CHR 0x09, CHR ''t''), (CHR 0x0A, CHR ''n''),
     (CHR 0x0C, CHR ''f''), (CHR 0x0D, CHR ''r''), (CHR 0x22, CHR 0x22), (CHR 0x5C, CHR 0x5C)] c"

text \<open>\<open>'\\u' + ('0000' + code.toString(16)).slice(-4)\<close>.\<close>

definition hex4 :: "nat \<Rightarrow> string" where
  "hex4 n = (let s = ''0000'' @ nat_digits 16 n in drop (length s - 4) s)"

definition unicode_escape :: "char \<Rightarrow> string" where
  "unicode_escape c = CHR 0x5C # CHR ''u'' # hex4 (code c)"

definition escape_char :: "char \<Rightarrow> string" where
  "escape_char c = (case meta c of Some m \<Rightarrow> [CHR 0x5C, m] | None \<Rightarrow> unicode_escape c)"

definition quote :: "string \<Rightarrow> string" where
  "quote s = (if list_ex escapable s
     then [CHR 0x22] @ concat (map (\<lambda>c. if escapable c then escape_char c else [c]) s) @ [CHR 0x22]
     else [CHR 0x22] @ s @ [CHR 0x22])"

section \<open>Dates\<close>

text \<open>\<open>Date.prototype.toJSON\<close> on the fields of a date in UTC; an invalid date is \<open>None\<close>.\<close>

definition f_two :: "int \<Rightarrow> string" where
  "f_two n = (if n < 10 then CHR ''0'' # int_to_string 10 n else int_to_string 10 n)"

record utc_date =
  full_year :: int
  month :: int
  day :: int
  hours :: int
  minutes :: int
  seconds :: int

definition date_toJSON :: "utc_date option \<Rightarrow> jsval" where
  "date_toJSON d = (case d of None \<Rightarrow> Null
     | Some d \<Rightarrow> Str (int_to_string 10 (full_year d) @ ''-'' @ f_two (month d + 1) @ ''-'' @ f_two (day d) @ ''T'' @
         f_two (hours d) @ '':'' @ f_two (minutes d) @ '':'' @ f_two (seconds d) @ ''Z''))"

section \<open>The writer\<close>

text \<open>
  A replacer is missing, a function of the holder, the key and the value, or the list of its
  elements. \<open>to_json f this key\<close> is what a \<open>toJSON\<close> method of name \<open>f\<close> returns.
\<close>

datatype replacer = No_Replacer | Replace_By "jsval \<Rightarrow> string \<Rightarrow> jsval \<Rightarrow> jsval" | Select_Keys "jsval list"

record json_env =
  to_json :: "string \<Rightarrow> jsval \<Rightarrow> string \<Rightarrow> jsval"
  rep :: replacer
  indent :: string

definition index_key :: "nat \<Rightarrow> string" where
  "index_key i = nat_digits 10 i"

text \<open>\<open>holder[key]\<close> for a holder that is an object or an array.\<close>

definition member_of :: "jsval \<Rightarrow> string \<Rightarrow> jsval" where
  "member_of holder key = (case get_prop holder key of Inr v \<Rightarrow> v | Inl _ \<Rightarrow> Undefined)"

definition json_value :: "json_env \<Rightarrow> string \<Rightarrow> jsval \<Rightarrow> jsval" where
  "json_value env key holder =
     (let value = member_of holder key;
          value' = (case get_or_undef value ''toJSON'' of Func f \<Rightarrow> to_json env f value key | _ \<Rightarrow> value)
      in case rep env of Replace_By g \<Rightarrow> g holder key value' | _ \<Rightarrow> value')"

text \<open>The names of the members to write: those of an array replacer, or the object's own.\<close>

definition selected_keys :: "replacer \<Rightarrow> props \<Rightarrow> string list" where
  "selected_keys r ps = (case r of
     Select_Keys ks \<Rightarrow> concat (map (\<lambda>k. case k of Str s \<Rightarrow> [s] | _ \<Rightarrow> []) ks)
   | _ \<Rightarrow> keys_of ps)"

text \<open>Joining the parts of an array or an object between its brackets.\<close>

definition enclose :: "string \<Rightarrow> string \<Rightarrow> string \<Rightarrow> string \<Rightarrow> string list \<Rightarrow> string" where
  "enclose left right gap mind partial =
     (if partial = [] then left @ right
      else if gap \<noteq> [] then left @ [CHR 0x0A] @ gap @ join ([CHR '','', CHR 0x0A] @ gap) partial @ [CHR 0x0A] @ mind @ right
      else left @ join '','' partial @ right)"

definition member_text :: "string \<Rightarrow> string \<Rightarrow> string option \<Rightarrow> string list" where
  "member_text gap k v = (case v of None \<Rightarrow> []
     | Some t \<Rightarrow> if t = [] then [] else [quote k @ (if gap \<noteq> [] then '': '' else '':'') @ t])"

definition element_text :: "string option \<Rightarrow> string" where
  "element_text v = (case v of None \<Rightarrow> ''null'' | Some t \<Rightarrow> if t = [] then ''null'' else t)"

text \<open>\<open>str(key, holder)\<close> with the current gap; \<open>None\<close> is \<open>undefined\<close>.\<close>

fun str :: "json_env \<Rightarrow> nat \<Rightarrow> string \<Rightarrow> string \<Rightarrow> jsval \<Rightarrow> string option res" where
  "str env 0 mind key holder = Inl RangeError"
| "str env (Suc depth) mind key holder = (case json_value env key holder of
     Undefined \<Rightarrow> Inr None
   | Func g \<Rightarrow> Inr None
   | Null \<Rightarrow> Inr (Some ''null'')
   | Boolean b \<Rightarrow> Inr (Some (to_str (Boolean b)))
   | Num x \<Rightarrow> Inr (Some (if is_finite x then num_to_string x else ''null''))
   | Str s \<Rightarrow> Inr (Some (quote s))
   | Arr vs \<Rightarrow>
       (let gap = mind @ indent env in
        bind_res (map_res (\<lambda>i. str env depth gap (index_key i) (Arr vs)) [0..<length vs]) (\<lambda>parts.
          Inr (Some (enclose ''['' '']'' gap mind (map element_text parts)))))
   | Obj ps \<Rightarrow>
       (let gap = mind @ indent env; ks = selected_keys (rep env) ps in
        bind_res (map_res (\<lambda>k. str env depth gap k (Obj ps)) ks) (\<lambda>parts.
          Inr (Some (enclose ''{'' ''}'' gap mind (concat (map2 (member_text gap) ks parts)))))))"

text \<open>
  The \<open>space\<close> argument: a number of spaces, or the indentation itself. The loop that counts up
  to an infinite number does not end: \<open>None\<close>.
\<close>

definition count_below :: "jsnum \<Rightarrow> nat option" where
  "count_below x = (case x of Fin q \<Rightarrow> Some (nat \<lceil>q\<rceil>) | PInf \<Rightarrow> None | _ \<Rightarrow> Some 0)"

definition indent_of :: "jsval \<Rightarrow> string option" where
  "indent_of space = (case space of
     Num x \<Rightarrow> map_option (\<lambda>n. replicate n (CHR '' '')) (count_below x)
   | Str s \<Rightarrow> Some s
   | _ \<Rightarrow> Some [])"

text \<open>
  The \<open>replacer\<close> argument: a function, an array, or an object with a numeric length; a truthy
  value of another kind is refused. The loop over the elements of an object whose length is
  infinite would not end, so such an object is not given here.
\<close>

datatype replacer_arg = Function_Arg "jsval \<Rightarrow> string \<Rightarrow> jsval \<Rightarrow> jsval" | Value_Arg jsval

definition replacer_of :: "replacer_arg \<Rightarrow> replacer res" where
  "replacer_of r = (case r of
     Function_Arg g \<Rightarrow> Inr (Replace_By g)
   | Value_Arg v \<Rightarrow>
       if \<not> truthy v then Inr No_Replacer
       else (case v of
           Arr vs \<Rightarrow> Inr (Select_Keys vs)
         | Obj ps \<Rightarrow>
             (case get_own ps ''length'' of
                Num x \<Rightarrow> Inr (Select_Keys (map (\<lambda>i. get_own ps (index_key i))
                  [0..<(case count_below x of None \<Rightarrow> 0 | Some n \<Rightarrow> n)]))
              | _ \<Rightarrow> Inl (Thrown ''JSON.stringify''))
         | _ \<Rightarrow> Inl (Thrown ''JSON.stringify'')))"

definition stringify :: "nat \<Rightarrow> (string \<Rightarrow> jsval \<Rightarrow> string \<Rightarrow> jsval) \<Rightarrow> jsval \<Rightarrow> replacer_arg \<Rightarrow> jsval \<Rightarrow> string option res option" where
  "stringify depth methods value replacer space = map_option (\<lambda>ind.
     bind_res (replacer_of replacer) (\<lambda>r.
       str \<lparr>to_json = methods, rep = r, indent = ind\<rparr> depth '''' '''' (Obj [('''', value)])))
     (indent_of space)"

section \<open>The reader\<close>

text \<open>Characters the engine may drop are escaped first.\<close>

definition fragile :: "char \<Rightarrow> bool" where
  "fragile c \<longleftrightarrow> code c = 0 \<or> code c = 173"

definition escape_fragile :: "string \<Rightarrow> string" where
  "escape_fragile text = (if list_ex fragile text
     then concat (map (\<lambda>c. if fragile c then unicode_escape c else [c]) text) else text)"

text \<open>\<open>replace(/\\(?:["\\\/bfnrt]|u[0-9a-fA-F]{4})/g, '@')\<close>.\<close>

definition is_hex :: "char \<Rightarrow> bool" where
  "is_hex c = is_digit_in 16 c"

function mask_escapes :: "string \<Rightarrow> string" where
  "mask_escapes [] = []"
| "mask_escapes (c # s) =
     (if c = CHR 0x5C then
        (case s of [] \<Rightarrow> [c]
         | d # t \<Rightarrow>
             if d \<in> {CHR 0x22, CHR 0x5C, CHR ''/'', CHR ''b'', CHR ''f'', CHR ''n'', CHR ''r'', CHR ''t''}
             then CHR ''@'' # mask_escapes t
             else if d = CHR ''u'' \<and> 4 \<le> length t \<and> list_all is_hex (take 4 t)
             then CHR ''@'' # mask_escapes (drop 4 t)
             else c # mask_escapes s)
      else c # mask_escapes s)"
  by pat_completeness auto

termination by (relation "measure length") (auto simp: less_Suc_eq_le)

text \<open>
  The simple tokens: a string without escapes, the three words, a number. \<open>token_rest\<close> is what
  follows the token a text begins with.
\<close>

definition string_rest :: "string \<Rightarrow> string option" where
  "string_rest t =
     (case dropWhile (\<lambda>c. c \<noteq> CHR 0x22 \<and> c \<noteq> CHR 0x5C \<and> c \<noteq> CHR 0x0A \<and> c \<noteq> CHR 0x0D) t of
        [] \<Rightarrow> None | c # r \<Rightarrow> if c = CHR 0x22 then Some r else None)"

definition number_rest :: "string \<Rightarrow> string option" where
  "number_rest s = (let u = (case s of [] \<Rightarrow> [] | c # t \<Rightarrow> if c = CHR ''-'' then t else s);
       r1 = dropWhile is_digit u;
       r2 = (case r1 of [] \<Rightarrow> [] | c # t \<Rightarrow> if c = CHR ''.'' then dropWhile is_digit t else r1) in
     if takeWhile is_digit u = [] then None else Some (snd (scan_exponent r2)))"

definition token_rest :: "string \<Rightarrow> string option" where
  "token_rest s = (case s of [] \<Rightarrow> None | c # t \<Rightarrow>
     case (if c = CHR 0x22 then string_rest t else None) of
       Some r \<Rightarrow> Some r
     | None \<Rightarrow>
         if take 4 s = ''true'' then Some (drop 4 s)
         else if take 5 s = ''false'' then Some (drop 5 s)
         else if take 4 s = ''null'' then Some (drop 4 s)
         else number_rest s)"

lemma suffix_dropWhile_eq: "\<exists>p. p @ dropWhile P s = s \<and> (\<forall>c \<in> set p. P c)"
  using takeWhile_dropWhile_id [of P s] set_takeWhileD by metis

lemma scan_exponent_suffix:
  "\<exists>p. p @ snd (scan_exponent s) = s \<and> (\<forall>c \<in> set p. is_digit c \<or> c \<in> {CHR ''e'', CHR ''E'', CHR ''+'', CHR ''-''})"
proof (cases s)
  case (Cons c t)
  obtain neg u where u: "scan_sign t = (neg, u)" by (cases "scan_sign t")
  have "\<exists>q. t = q @ u \<and> (\<forall>d \<in> set q. d = CHR ''+'' \<or> d = CHR ''-'')"
  proof (cases t)
    case (Cons d v)
    then have "u = t \<or> u = v \<and> (d = CHR ''+'' \<or> d = CHR ''-'')"
      using u by (simp add: scan_sign_def split: if_splits)
    then show ?thesis by (elim disjE) (simp, simp add: Cons)
  qed (use u in \<open>simp add: scan_sign_def\<close>)
  then obtain q where q: "t = q @ u" "\<forall>d \<in> set q. d = CHR ''+'' \<or> d = CHR ''-''" by blast
  obtain p where p: "p @ dropWhile is_digit u = u" "\<forall>d \<in> set p. is_digit d"
    using suffix_dropWhile_eq [of is_digit u] by blast
  have "snd (scan_exponent s) = s \<or> (c = CHR ''e'' \<or> c = CHR ''E'') \<and> snd (scan_exponent s) = dropWhile is_digit u"
    by (simp add: scan_exponent_def Cons u Let_def)
  then show ?thesis
  proof
    assume "snd (scan_exponent s) = s"
    then show ?thesis by (intro exI [of _ "[]"]) simp
  next
    assume "(c = CHR ''e'' \<or> c = CHR ''E'') \<and> snd (scan_exponent s) = dropWhile is_digit u"
    then show ?thesis using Cons q p by (intro exI [of _ "c # q @ p"]) auto
  qed
qed (simp add: scan_exponent_def)

text \<open>What a token can consist of, when it is no string.\<close>

definition token_char :: "char \<Rightarrow> bool" where
  "token_char c \<longleftrightarrow> is_digit c \<or> c \<in> set ''truefalsn.E+-''"

lemma token_char_simps:
  "is_digit c \<Longrightarrow> token_char c" "token_char CHR ''e''" "token_char CHR ''E''" "token_char CHR ''+''"
  "token_char CHR ''-''" "token_char CHR ''.''"
  by (simp_all add: token_char_def)

lemma number_rest_suffix:
  assumes "number_rest s = Some r"
  shows "\<exists>p. s = p @ r \<and> p \<noteq> [] \<and> (\<forall>c \<in> set p. token_char c)"
proof -
  define u where "u = (case s of [] \<Rightarrow> [] | c # t \<Rightarrow> if c = CHR ''-'' then t else s)"
  have "\<exists>m. s = m @ u \<and> (\<forall>c \<in> set m. c = CHR ''-'')"
  proof (cases s)
    case (Cons c t)
    then have "u = s \<or> u = t \<and> c = CHR ''-''" by (simp add: u_def)
    then show ?thesis by (elim disjE) (simp, simp add: Cons)
  qed (simp add: u_def)
  then obtain m where u: "s = m @ u" "\<forall>c \<in> set m. c = CHR ''-''" by blast
  obtain p1 where p1: "p1 @ dropWhile is_digit u = u" "\<forall>c \<in> set p1. is_digit c" "p1 = takeWhile is_digit u"
    using takeWhile_dropWhile_id [of is_digit u] set_takeWhileD by metis
  define r1 where "r1 = dropWhile is_digit u"
  define r2 where "r2 = (case r1 of [] \<Rightarrow> [] | c # t \<Rightarrow> if c = CHR ''.'' then dropWhile is_digit t else r1)"
  have "\<exists>p2. p2 @ r2 = r1 \<and> (\<forall>c \<in> set p2. c = CHR ''.'' \<or> is_digit c)"
  proof (cases r1)
    case (Cons c t)
    obtain q where "q @ dropWhile is_digit t = t" "\<forall>d \<in> set q. is_digit d"
      using suffix_dropWhile_eq [of is_digit t] by blast
    then show ?thesis
      by (intro exI [of _ "if c = CHR ''.'' then c # q else []"]) (auto simp: r2_def Cons)
  qed (simp add: r2_def)
  then obtain p2 where p2: "p2 @ r2 = r1" "\<forall>c \<in> set p2. c = CHR ''.'' \<or> is_digit c" by blast
  obtain p3 where p3: "p3 @ snd (scan_exponent r2) = r2"
      "\<forall>c \<in> set p3. is_digit c \<or> c \<in> {CHR ''e'', CHR ''E'', CHR ''+'', CHR ''-''}"
    using scan_exponent_suffix [of r2] by blast
  have r: "r = snd (scan_exponent r2)" "p1 \<noteq> []"
    using assms unfolding number_rest_def Let_def u_def [symmetric] p1(3) r1_def r2_def by (simp_all split: if_splits)
  have "p1 @ r1 = u" using p1(1) by (simp add: r1_def)
  then have "s = (m @ p1 @ p2 @ p3) @ r" using u(1) r(1) p2(1) p3(1) by (metis append_assoc)
  moreover have "\<forall>c \<in> set (m @ p1 @ p2 @ p3). token_char c"
  proof -
    have "\<forall>c \<in> set m. token_char c"
    proof
      fix c
      assume "c \<in> set m"
      then have "c = CHR ''-''" using u(2) by (rule bspec [rotated])
      then show "token_char c" by (simp add: token_char_simps)
    qed
    moreover have "\<forall>c \<in> set p1. token_char c" using p1(2) token_char_simps(1) by simp
    moreover have "\<forall>c \<in> set p2. token_char c"
    proof
      fix c
      assume "c \<in> set p2"
      then have "c = CHR ''.'' \<or> is_digit c" using p2(2) by simp
      then show "token_char c" using token_char_simps(1,6) by (elim disjE) simp_all
    qed
    moreover have "\<forall>c \<in> set p3. token_char c"
    proof
      fix c
      assume "c \<in> set p3"
      then have "is_digit c \<or> c \<in> {CHR ''e'', CHR ''E'', CHR ''+'', CHR ''-''}" using p3(2) by (rule bspec [rotated])
      then show "token_char c" using token_char_simps by (elim disjE insertE) simp_all
    qed
    ultimately show ?thesis by (simp only: set_append ball_Un)
  qed
  ultimately show ?thesis using r(2) by blast
qed

lemma string_rest_suffix:
  assumes "string_rest t = Some r"
  shows "length r < length t"
proof -
  define u where "u = dropWhile (\<lambda>c. c \<noteq> CHR 0x22 \<and> c \<noteq> CHR 0x5C \<and> c \<noteq> CHR 0x0A \<and> c \<noteq> CHR 0x0D) t"
  have "length u \<le> length t" by (simp add: u_def length_dropWhile_le)
  moreover have "\<exists>c. u = c # r"
    using assms unfolding string_rest_def u_def [symmetric] by (cases u) (simp_all split: if_splits)
  ultimately show ?thesis by auto
qed

lemma token_rest_suffix:
  assumes "token_rest s = Some r"
  shows "length r < length s"
    "CHR 0x22 \<notin> set s \<Longrightarrow> \<exists>p. s = p @ r \<and> (\<forall>c \<in> set p. token_char c)"
proof -
  obtain c t where s: "s = c # t" using assms by (cases s) (auto simp: token_rest_def)
  consider (string) "c = CHR 0x22" "string_rest t = Some r"
    | (word) w where "s = w @ r" "w \<in> {''true'', ''false'', ''null''}"
    | (number) "number_rest s = Some r"
  proof (cases "c = CHR 0x22 \<and> string_rest t \<noteq> None")
    case True
    then show ?thesis using assms string by (auto simp: token_rest_def s)
  next
    case False
    then have "(if c = CHR 0x22 then string_rest t else None) = None" by auto
    then have "take 4 s = ''true'' \<and> r = drop 4 s \<or> take 5 s = ''false'' \<and> r = drop 5 s \<or>
        take 4 s = ''null'' \<and> r = drop 4 s \<or> number_rest s = Some r"
      using assms unfolding token_rest_def s by (simp only: list.case option.case split: if_splits) simp_all
    moreover have "s = w @ drop n s" if "take n s = w" for n w using that by (metis append_take_drop_id)
    ultimately show ?thesis using word [of "''true''"] word [of "''false''"] word [of "''null''"] number by blast
  qed
  then have "length r < length s \<and> (CHR 0x22 \<notin> set s \<longrightarrow> (\<exists>p. s = p @ r \<and> (\<forall>c \<in> set p. token_char c)))"
  proof cases
    case string
    then show ?thesis using string_rest_suffix [of t r] by (simp add: s)
  next
    case word
    then show ?thesis by (intro conjI impI exI [of _ w]) (auto simp: token_char_def)
  next
    case number
    then show ?thesis using number_rest_suffix [of s r] by auto
  qed
  then show "length r < length s"
    "CHR 0x22 \<notin> set s \<Longrightarrow> \<exists>p. s = p @ r \<and> (\<forall>c \<in> set p. token_char c)" by simp_all
qed

function mask_tokens :: "string \<Rightarrow> string" where
  "mask_tokens s = (case token_rest s of
     Some r \<Rightarrow> CHR '']'' # mask_tokens r
   | None \<Rightarrow> (case s of [] \<Rightarrow> [] | c # t \<Rightarrow> c # mask_tokens t))"
  by pat_completeness auto

termination by (relation "measure length") (auto dest: token_rest_suffix)

declare mask_tokens.simps [simp del]

text \<open>\<open>replace(/(?:^|:|,)(?:\s*\[)+/g, '')\<close>.\<close>

definition bracket_next :: "string \<Rightarrow> bool" where
  "bracket_next s = (case dropWhile is_ws s of [] \<Rightarrow> False | c # _ \<Rightarrow> c = CHR ''['')"

lemma bracket_next_shorter: "bracket_next s \<Longrightarrow> length (tl (dropWhile is_ws s)) < length s"
  using length_dropWhile_le [of is_ws s] by (auto simp: bracket_next_def split: list.splits)

function eat_brackets :: "string \<Rightarrow> string" where
  "eat_brackets s = (if bracket_next s then eat_brackets (tl (dropWhile is_ws s)) else s)"
  by pat_completeness auto

termination by (relation "measure length") (auto simp: bracket_next_shorter simp del: length_tl)

declare eat_brackets.simps [simp del]

lemma eat_brackets_length: "length (eat_brackets s) \<le> length s"
proof (induction s rule: eat_brackets.induct)
  case (1 s)
  then show ?case
    using bracket_next_shorter [of s] by (cases "bracket_next s") (auto simp: eat_brackets.simps [of s])
qed

function drop_opens :: "string \<Rightarrow> string" where
  "drop_opens [] = []"
| "drop_opens (c # t) =
     (if (c = CHR '':'' \<or> c = CHR '','') \<and> bracket_next t then drop_opens (eat_brackets t) else c # drop_opens t)"
  by pat_completeness auto

termination by (relation "measure length") (auto simp: eat_brackets_length le_imp_less_Suc)

definition drop_brackets :: "string \<Rightarrow> string" where
  "drop_brackets s = (if bracket_next s then drop_opens (eat_brackets s) else drop_opens s)"

text \<open>\<open>/^[\],:{}\s]*$/.test(...)\<close>.\<close>

definition harmless :: "char \<Rightarrow> bool" where
  "harmless c \<longleftrightarrow> c = CHR '']'' \<or> c = CHR '','' \<or> c = CHR '':'' \<or> c = CHR ''{'' \<or> c = CHR ''}'' \<or> is_ws c"

definition safe_text :: "string \<Rightarrow> bool" where
  "safe_text text = list_all harmless (drop_brackets (mask_tokens (mask_escapes text)))"

text \<open>
  The walk with a reviver, a function of the holder, the key and the value. Deleting an element of
  an array leaves a hole, which reads as \<open>undefined\<close>.
\<close>

definition set_member :: "jsval \<Rightarrow> string \<Rightarrow> jsval \<Rightarrow> jsval" where
  "set_member holder k v = (case holder of
     Obj ps \<Rightarrow> Obj (put_prop k v ps)
   | Arr vs \<Rightarrow> Arr (vs[digits_value 10 k := v])
   | _ \<Rightarrow> holder)"

definition delete_member :: "jsval \<Rightarrow> string \<Rightarrow> jsval" where
  "delete_member holder k = (case holder of
     Obj ps \<Rightarrow> Obj (filter (\<lambda>p. fst p \<noteq> k) ps)
   | Arr vs \<Rightarrow> Arr (vs[digits_value 10 k := Undefined])
   | _ \<Rightarrow> holder)"

definition own_keys :: "jsval \<Rightarrow> string list" where
  "own_keys v = (case v of Obj ps \<Rightarrow> keys_of ps | Arr vs \<Rightarrow> map index_key [0..<length vs] | _ \<Rightarrow> [])"

fun walk :: "(jsval \<Rightarrow> string \<Rightarrow> jsval \<Rightarrow> jsval) \<Rightarrow> nat \<Rightarrow> jsval \<Rightarrow> string \<Rightarrow> jsval res" where
  "walk reviver 0 holder key = Inl RangeError"
| "walk reviver (Suc depth) holder key =
     (let value = member_of holder key in
      bind_res (fold_res (\<lambda>value k. bind_res (walk reviver depth value k) (\<lambda>v.
          Inr (if v \<noteq> Undefined then set_member value k v else delete_member value k))) value (own_keys value))
        (\<lambda>value'. Inr (reviver (set_member holder key value') key value')))"

definition json_parse :: "nat \<Rightarrow> (string \<Rightarrow> jsval res) \<Rightarrow> jsval \<Rightarrow> (jsval \<Rightarrow> string \<Rightarrow> jsval \<Rightarrow> jsval) option \<Rightarrow> jsval res" where
  "json_parse depth eval_text text reviver =
     (let t = escape_fragile (to_str text) in
      if safe_text t then
        bind_res (eval_text (''('' @ t @ '')'')) (\<lambda>j. case reviver of
            None \<Rightarrow> Inr j
          | Some g \<Rightarrow> walk g depth (Obj [('''', j)]) '''')
      else Inl (SyntaxError ''JSON.parse''))"

section \<open>Facts: what reaches \<open>eval\<close>\<close>

text \<open>Characters with which a text could call or assign.\<close>

definition call_char :: "char \<Rightarrow> bool" where
  "call_char c \<longleftrightarrow> c = CHR ''('' \<or> c = CHR '')'' \<or> c = CHR ''='' \<or> c = CHR '';'' \<or> c = CHR ''?'' \<or> c = CHR ''!''"

lemma call_char_other:
  assumes "call_char c"
  shows "\<not> token_char c" "\<not> harmless c" "\<not> is_hex c" "\<not> is_ws c" "c \<noteq> CHR ''[''" "c \<noteq> CHR ''u''" "c \<noteq> CHR 0x5C"
    "c \<notin> {CHR 0x22, CHR 0x5C, CHR ''/'', CHR ''b'', CHR ''f'', CHR ''n'', CHR ''r'', CHR ''t''}"
    "c \<noteq> CHR '':''" "c \<noteq> CHR '',''" "\<not> fragile c"
  using assms unfolding call_char_def
  by (elim disjE; simp add: token_char_def harmless_def is_hex_def is_digit_in_def digit_val_def is_digit_def
      is_ws_def code_def fragile_def)+

lemma kept_by_escaping: "c \<in> set s \<Longrightarrow> \<not> fragile c \<Longrightarrow> c \<in> set (escape_fragile s)"
  by (auto simp: escape_fragile_def)

lemma hex4_no_quote: "n < 256 \<Longrightarrow> CHR 0x22 \<notin> set (hex4 n)"
proof -
  assume "n < 256"
  have d: "d \<in> set (nat_digits 16 n) \<Longrightarrow> d \<noteq> CHR 0x22" for d
    using nat_digits_is_digit_in [of 16 d n] by (auto simp: is_digit_in_def digit_val_def code_def)
  have "set (hex4 n) \<subseteq> set (''0000'' @ nat_digits 16 n)" by (simp only: hex4_def Let_def set_drop_subset)
  then show ?thesis using d by auto
qed

lemma escaping_no_quote: "CHR 0x22 \<notin> set s \<Longrightarrow> CHR 0x22 \<notin> set (escape_fragile s)"
proof -
  assume s: "CHR 0x22 \<notin> set s"
  have "CHR 0x22 \<notin> set (unicode_escape c)" for c
    using hex4_no_quote [OF code_less_256, of c] by (simp add: unicode_escape_def)
  then show ?thesis using s by (auto simp: escape_fragile_def)
qed

lemma mask_escapes_step:
  obtains (pair) e t where "d = CHR 0x5C" "s = e # t"
      "e \<in> {CHR 0x22, CHR 0x5C, CHR ''/'', CHR ''b'', CHR ''f'', CHR ''n'', CHR ''r'', CHR ''t''}"
      "mask_escapes (d # s) = CHR ''@'' # mask_escapes t"
    | (unit) t where "d = CHR 0x5C" "s = CHR ''u'' # t" "list_all is_hex (take 4 t)"
      "mask_escapes (d # s) = CHR ''@'' # mask_escapes (drop 4 t)"
    | (other) "mask_escapes (d # s) = d # mask_escapes s"
proof (cases s)
  case Nil
  then show ?thesis using other by simp
next
  case (Cons e t)
  let ?E = "{CHR 0x22, CHR 0x5C, CHR ''/'', CHR ''b'', CHR ''f'', CHR ''n'', CHR ''r'', CHR ''t''}"
  consider "d \<noteq> CHR 0x5C" | "d = CHR 0x5C" "e \<in> ?E"
    | "d = CHR 0x5C" "e \<notin> ?E" "e = CHR ''u''" "4 \<le> length t" "list_all is_hex (take 4 t)"
    | "d = CHR 0x5C" "e \<notin> ?E" "\<not> (e = CHR ''u'' \<and> 4 \<le> length t \<and> list_all is_hex (take 4 t))"
    by argo
  then show ?thesis
  proof cases
    case 1
    then show ?thesis using other by simp
  next
    case 2
    then show ?thesis using pair Cons by (simp del: insert_iff)
  next
    case 3
    have "mask_escapes (d # s) = CHR ''@'' # mask_escapes (drop 4 t)"
      unfolding Cons mask_escapes.simps list.case if_P [OF 3(1)] if_not_P [OF 3(2)]
        if_P [OF conjI [OF 3(3) conjI [OF 3(4,5)]]] ..
    then show ?thesis using unit [of t] 3(1,3,5) Cons by simp
  next
    case 4
    then show ?thesis using other Cons by (simp only: mask_escapes.simps if_True if_False list.case refl)
  qed
qed

lemma mask_escapes_keeps: "c \<in> set s \<Longrightarrow> call_char c \<Longrightarrow> c \<in> set (mask_escapes s)"
proof (induction "length s" arbitrary: s rule: less_induct)
  case less
  note other = call_char_other [OF less.prems(2)]
  obtain d r where s: "s = d # r" using less.prems(1) by (cases s) auto
  show ?case
  proof (cases rule: mask_escapes_step [of d r])
    case (pair e t)
    then have "c \<in> set t" using less.prems(1) other(7,8) by (auto simp: s simp del: insert_iff)
    then have "c \<in> set (mask_escapes t)" using less pair by (simp add: s)
    then show ?thesis using pair by (simp add: s)
  next
    case (unit t)
    then have "c \<in> set t" using less.prems(1) other(6,7) by (auto simp: s)
    moreover have "c \<notin> set (take 4 t)" using unit(3) other(3) by (auto simp: list_all_iff)
    ultimately have "c \<in> set (drop 4 t)" by (metis Un_iff append_take_drop_id set_append)
    then have "c \<in> set (mask_escapes (drop 4 t))" using less unit by (simp add: s)
    then show ?thesis using unit by (simp add: s)
  next
    case other
    then show ?thesis using less by (auto simp: s)
  qed
qed

lemma mask_escapes_no_quote: "CHR 0x22 \<notin> set s \<Longrightarrow> CHR 0x22 \<notin> set (mask_escapes s)"
proof (induction "length s" arbitrary: s rule: less_induct)
  case less
  show ?case
  proof (cases s)
    case (Cons d r)
    show ?thesis
    proof (cases rule: mask_escapes_step [of d r])
      case (pair e t)
      then show ?thesis using less by (simp add: Cons)
    next
      case (unit t)
      then have "CHR 0x22 \<notin> set (drop 4 t)" using less.prems by (auto simp: Cons dest: in_set_dropD)
      then show ?thesis using less unit by (simp add: Cons)
    next
      case other
      then show ?thesis using less by (simp add: Cons)
    qed
  qed simp
qed

lemma mask_tokens_keeps:
  "c \<in> set s \<Longrightarrow> call_char c \<Longrightarrow> CHR 0x22 \<notin> set s \<Longrightarrow> c \<in> set (mask_tokens s)"
proof (induction s rule: mask_tokens.induct)
  case (1 s)
  note other = call_char_other [OF 1(4)]
  show ?case
  proof (cases "token_rest s")
    case None
    obtain d t where "s = d # t" using 1(3) by (cases s) auto
    then show ?thesis using 1(1) [OF None] 1(3-5) None by (auto simp: mask_tokens.simps [of "d # t"])
  next
    case (Some r)
    obtain p where p: "s = p @ r" "\<forall>c \<in> set p. token_char c"
      using token_rest_suffix(2) [OF Some 1(5)] by blast
    then have "c \<in> set r" "CHR 0x22 \<notin> set r" using 1(3,5) other(1) by auto
    then have "c \<in> set (mask_tokens r)" using 1(2) [OF Some] 1(4) by simp
    then show ?thesis by (simp add: mask_tokens.simps [of s] Some)
  qed
qed

lemma eat_brackets_keeps: "c \<in> set s \<Longrightarrow> call_char c \<Longrightarrow> c \<in> set (eat_brackets s)"
proof (induction s rule: eat_brackets.induct)
  case (1 s)
  note other = call_char_other [OF 1(3)]
  show ?case
  proof (cases "bracket_next s")
    case True
    define u where "u = dropWhile is_ws s"
    obtain t where u: "u = CHR ''['' # t"
      using True by (auto simp: bracket_next_def u_def split: list.splits)
    have "c \<in> set u" unfolding u_def using 1(2) other(4) by (metis Un_iff set_append set_takeWhileD takeWhile_dropWhile_id)
    then have "c \<in> set (tl (dropWhile is_ws s))" using other(5) u by (simp add: u_def [symmetric])
    then show ?thesis using 1(1) [OF True] 1(3) True by (simp add: eat_brackets.simps [of s])
  qed (use 1 in \<open>simp add: eat_brackets.simps [of s]\<close>)
qed

lemma drop_brackets_keeps:
  assumes "c \<in> set s" "call_char c"
  shows "c \<in> set (drop_brackets s)"
proof -
  have "c \<in> set t \<Longrightarrow> c \<in> set (drop_opens t)" for t
  proof (induction t rule: drop_opens.induct)
    case (2 d t)
    then show ?case using call_char_other [OF assms(2)] eat_brackets_keeps [OF _ assms(2)] by auto
  qed simp
  then show ?thesis using assms eat_brackets_keeps by (simp add: drop_brackets_def)
qed

section \<open>Properties\<close>



end
