(* ===== verification/Lib_Json_Text.thy ===== *)
theory Lib_Json_Text
  imports Lib_Json
begin

text \<open>
  What \<open>JSON.stringify\<close> writes: first that the recursion over holders and keys is a recursion over
  the value itself, then that a reader written from the grammar of JSON reads the text back. The
  reader is the specification; numbers are read as far as the writer's integers need it.
\<close>

section \<open>The reader of the grammar\<close>

definition json_ws :: "char \<Rightarrow> bool" where
  "json_ws c \<longleftrightarrow> c = CHR '' '' \<or> c = CHR 0x09 \<or> c = CHR 0x0A \<or> c = CHR 0x0D"

definition short_escape :: "char \<Rightarrow> char option" where
  "short_escape c = map_of [(CHR 0x22, CHR 0x22), (CHR 0x5C, CHR 0x5C), (CHR ''/'', CHR ''/''),
     (CHR ''b'', CHR 0x08), (CHR ''f'', CHR 0x0C), (CHR ''n'', CHR 0x0A), (CHR ''r'', CHR 0x0D),
     (CHR ''t'', CHR 0x09)] c"

text \<open>A string after its opening quote: the string and what follows the closing one.\<close>

function read_string :: "string \<Rightarrow> (string \<times> string) option" where
  "read_string [] = None"
| "read_string (c # s) =
     (if c = CHR 0x22 then Some ([], s)
      else if code c < 32 then None
      else if c \<noteq> CHR 0x5C then map_option (\<lambda>(x, r). (c # x, r)) (read_string s)
      else (case s of [] \<Rightarrow> None
        | d # t \<Rightarrow>
            if d = CHR ''u'' then
              (if 4 \<le> length t \<and> list_all is_hex (take 4 t) \<and> digits_value 16 (take 4 t) < 256
               then map_option (\<lambda>(x, r). (char_of (digits_value 16 (take 4 t)) # x, r)) (read_string (drop 4 t))
               else None)
            else (case short_escape d of None \<Rightarrow> None
              | Some e \<Rightarrow> map_option (\<lambda>(x, r). (e # x, r)) (read_string t))))"
  by pat_completeness auto

termination by (relation "measure length") (auto simp: less_Suc_eq_le)

definition skip_ws :: "string \<Rightarrow> string" where
  "skip_ws s = dropWhile json_ws s"

definition read_int :: "string \<Rightarrow> (jsnum \<times> string) option" where
  "read_int s = (let neg = (take 1 s = ''-''); u = (if neg then tl s else s); ds = takeWhile is_digit u in
     if ds = [] \<or> (hd ds = CHR ''0'' \<and> tl ds \<noteq> []) then None
     else Some (to_number ((if neg then ''-'' else '''') @ ds), dropWhile is_digit u))"

text \<open>Values, the rest of an array, the rest of an object; the number bounds the nesting and length.\<close>

fun read_json_value :: "nat \<Rightarrow> string \<Rightarrow> (jsval \<times> string) option"
  and read_elems :: "nat \<Rightarrow> string \<Rightarrow> (jsval list \<times> string) option"
  and read_members :: "nat \<Rightarrow> string \<Rightarrow> (props \<times> string) option" where
  "read_json_value 0 s = None"
| "read_json_value (Suc n) s = (let u = skip_ws s in
     if take 1 u = [CHR 0x22] then map_option (\<lambda>(x, r). (Str x, r)) (read_string (tl u))
     else if take 1 u = ''['' then
       (if take 1 (skip_ws (tl u)) = '']'' then Some (Arr [], tl (skip_ws (tl u)))
        else map_option (\<lambda>(vs, r). (Arr vs, r)) (read_elems n (tl u)))
     else if take 1 u = ''{'' then
       (if take 1 (skip_ws (tl u)) = ''}'' then Some (Obj [], tl (skip_ws (tl u)))
        else map_option (\<lambda>(ps, r). (Obj ps, r)) (read_members n (tl u)))
     else if take 4 u = ''null'' then Some (Null, drop 4 u)
     else if take 4 u = ''true'' then Some (Boolean True, drop 4 u)
     else if take 5 u = ''false'' then Some (Boolean False, drop 5 u)
     else map_option (\<lambda>(x, r). (Num x, r)) (read_int u))"
| "read_elems 0 s = None"
| "read_elems (Suc n) s = (case read_json_value n s of None \<Rightarrow> None
     | Some (v, r) \<Rightarrow>
         if take 1 (skip_ws r) = '','' then
           map_option (\<lambda>(vs, r'). (v # vs, r')) (read_elems n (tl (skip_ws r)))
         else if take 1 (skip_ws r) = '']'' then Some ([v], tl (skip_ws r))
         else None)"
| "read_members 0 s = None"
| "read_members (Suc n) s =
     (if take 1 (skip_ws s) = [CHR 0x22] then
        (case read_string (tl (skip_ws s)) of None \<Rightarrow> None
         | Some (k, r) \<Rightarrow>
             if take 1 (skip_ws r) = '':'' then
               (case read_json_value n (tl (skip_ws r)) of None \<Rightarrow> None
                | Some (v, r') \<Rightarrow>
                    if take 1 (skip_ws r') = '','' then
                      map_option (\<lambda>(ps, r''). ((k, v) # ps, r'')) (read_members n (tl (skip_ws r')))
                    else if take 1 (skip_ws r') = ''}'' then Some ([(k, v)], tl (skip_ws r'))
                    else None)
             else None)
      else None)"

section \<open>The writer as a recursion over the value\<close>

fun text_of :: "string \<Rightarrow> string \<Rightarrow> jsval \<Rightarrow> string option" where
  "text_of ind mind Undefined = None"
| "text_of ind mind (Func g) = None"
| "text_of ind mind Null = Some ''null''"
| "text_of ind mind (Boolean b) = Some (if b then ''true'' else ''false'')"
| "text_of ind mind (Num x) = Some (if is_finite x then num_to_string x else ''null'')"
| "text_of ind mind (Str s) = Some (quote s)"
| "text_of ind mind (Arr vs) = Some (enclose ''['' '']'' (mind @ ind) mind
     (map (\<lambda>v. element_text (text_of ind (mind @ ind) v)) vs))"
| "text_of ind mind (Obj ps) = Some (enclose ''{'' ''}'' (mind @ ind) mind
     (concat (map (\<lambda>p. member_text (mind @ ind) (fst p) (text_of ind (mind @ ind) (snd p))) ps)))"

text \<open>
  Values the writer takes as they are: arrays of a length an array can have, objects with distinct
  keys and no method of their own that writes them.
\<close>

fun plain_json :: "jsval \<Rightarrow> bool" where
  "plain_json (Arr vs) \<longleftrightarrow> length vs < 2 ^ 32 \<and> list_all plain_json vs"
| "plain_json (Obj ps) \<longleftrightarrow> distinct (map fst ps) \<and> (\<forall>f. get_own ps ''toJSON'' \<noteq> Func f) \<and>
     list_all (\<lambda>p. plain_json (snd p)) ps"
| "plain_json _ \<longleftrightarrow> True"

fun nesting :: "jsval \<Rightarrow> nat" where
  "nesting (Arr vs) = Suc (Max (insert 0 (nesting ` set vs)))"
| "nesting (Obj ps) = Suc (Max (insert 0 ((\<lambda>p. nesting (snd p)) ` set ps)))"
| "nesting _ = 0"

lemma array_index_key: "i < 2 ^ 32 - 1 \<Longrightarrow> is_array_index (index_key i) \<and> digits_value 10 (index_key i) = i"
proof -
  assume i: "i < 2 ^ 32 - 1"
  have "index_key i = ''0'' \<or> hd (index_key i) \<noteq> CHR ''0''"
  proof (cases "i = 0")
    case True
    have "code (digit_char 0) = code (CHR ''0'')" using digit_char_code [of 0] by (simp add: code_def)
    then show ?thesis by (simp only: code_inject) (simp add: True index_key_def nat_digits.simps)
  next
    case False
    then show ?thesis using hd_nat_digits [of 10 i] by (simp add: index_key_def)
  qed
  then show ?thesis
    using i nat_digits_is_digit
    by (simp add: is_array_index_def index_key_def digits_value_nat_digits list_all_iff)
qed

lemma member_of_array: "length vs < 2 ^ 32 \<Longrightarrow> i < length vs \<Longrightarrow> member_of (Arr vs) (index_key i) = vs ! i"
proof -
  assume l: "length vs < 2 ^ 32" and i: "i < length vs"
  then have k: "is_array_index (index_key i)" "digits_value 10 (index_key i) = i"
    using array_index_key [of i] by simp_all
  then have "index_key i \<noteq> ''length''"
    by (auto simp: is_array_index_def is_digit_def code_def)
  then show ?thesis using k i by (simp add: member_of_def get_prop_def list_at_def)
qed

lemma member_of_object: "distinct (map fst ps) \<Longrightarrow> p \<in> set ps \<Longrightarrow> member_of (Obj ps) (fst p) = snd p"
  by (cases p) (simp add: member_of_def get_own_def)

lemma json_value_plain:
  "plain_json (member_of holder key) \<Longrightarrow> rep env = No_Replacer \<Longrightarrow> json_value env key holder = member_of holder key"
  by (cases "member_of holder key") (auto simp: json_value_def get_or_undef_def Let_def split: jsval.splits)

lemma nesting_member: "v \<in> set vs \<Longrightarrow> nesting v < nesting (Arr vs)"
  by (simp add: less_Suc_eq_le)

lemma nesting_property: "p \<in> set ps \<Longrightarrow> nesting (snd p) < nesting (Obj ps)"
  by (simp add: less_Suc_eq_le)

lemma map_res_fst: "(\<And>p. p \<in> set ps \<Longrightarrow> f (fst p) = Inr (g p)) \<Longrightarrow> map_res f (map fst ps) = Inr (map g ps)"
  by (induction ps) auto

lemma str_text:
  assumes "rep env = No_Replacer"
  shows "plain_json v \<Longrightarrow> nesting v < depth \<Longrightarrow> member_of holder key = v \<Longrightarrow>
    str env depth mind key holder = Inr (text_of (indent env) mind v)"
proof (induction v arbitrary: depth mind key holder)
  case (Arr vs)
  obtain d where d: "depth = Suc d" using Arr.prems(2) by (cases depth) auto
  have "str env d (mind @ indent env) (index_key i) (Arr vs) = Inr (text_of (indent env) (mind @ indent env) (vs ! i))"
    if "i \<in> set [0..<length vs]" for i
  proof (rule Arr.IH)
    show "vs ! i \<in> set vs" using that by simp
    then show "nesting (vs ! i) < d" using nesting_member [of "vs ! i" vs] Arr.prems(2) d by simp
    show "plain_json (vs ! i)" using Arr.prems(1) that by (simp add: list_all_length)
    show "member_of (Arr vs) (index_key i) = vs ! i" using Arr.prems(1) that by (intro member_of_array) simp_all
  qed
  then have "map_res (\<lambda>i. str env d (mind @ indent env) (index_key i) (Arr vs)) [0..<length vs] =
      Inr (map (\<lambda>i. text_of (indent env) (mind @ indent env) (vs ! i)) [0..<length vs])"
    by (rule map_res_ok)
  moreover have "map (\<lambda>i. text_of (indent env) (mind @ indent env) (vs ! i)) [0..<length vs] =
      map (text_of (indent env) (mind @ indent env)) vs"
    by (rule nth_equalityI) simp_all
  moreover have "json_value env key holder = Arr vs" using json_value_plain [OF _ assms] Arr.prems by metis
  ultimately show ?case by (simp add: d comp_def Let_def)
next
  case (Obj ps)
  obtain d where d: "depth = Suc d" using Obj.prems(2) by (cases depth) auto
  have "str env d (mind @ indent env) (fst p) (Obj ps) = Inr (text_of (indent env) (mind @ indent env) (snd p))"
    if "p \<in> set ps" for p
  proof (rule Obj.IH)
    show "p \<in> set ps" "snd p \<in> Basic_BNFs.snds p" using that by (simp_all add: snds.simps)
    show "nesting (snd p) < d" using Obj.prems(2) d that by auto
    show "plain_json (snd p)" using Obj.prems(1) that by (simp add: list_all_iff)
    show "member_of (Obj ps) (fst p) = snd p" using Obj.prems(1) that by (intro member_of_object) simp_all
  qed
  then have "map_res (\<lambda>k. str env d (mind @ indent env) k (Obj ps)) (map fst ps) =
      Inr (map (\<lambda>p. text_of (indent env) (mind @ indent env) (snd p)) ps)"
    by (rule map_res_fst)
  moreover have "json_value env key holder = Obj ps" using json_value_plain [OF _ assms] Obj.prems by metis
  ultimately show ?case by (simp add: d selected_keys_def assms keys_of_def map2_map_map Let_def)
qed (use json_value_plain [OF _ assms] in \<open>force simp: gr0_conv_Suc\<close>)+

section \<open>Reading it back\<close>

text \<open>What JSON keeps of a value: no \<open>undefined\<close>, no function, no other number than a finite one.\<close>

fun kept :: "jsval \<Rightarrow> jsval option" where
  "kept Undefined = None"
| "kept (Func g) = None"
| "kept Null = Some Null"
| "kept (Boolean b) = Some (Boolean b)"
| "kept (Num x) = Some (if is_finite x then Num (Fin (rat_of x)) else Null)"
| "kept (Str s) = Some (Str s)"
| "kept (Arr vs) = Some (Arr (map (\<lambda>v. case kept v of None \<Rightarrow> Null | Some w \<Rightarrow> w) vs))"
| "kept (Obj ps) = Some (Obj (concat (map (\<lambda>p. case kept (snd p) of None \<Rightarrow> [] | Some w \<Rightarrow> [(fst p, w)]) ps)))"

text \<open>The numbers are integers of at most 53 bits.\<close>

fun whole :: "jsval \<Rightarrow> bool" where
  "whole (Num (Fin q)) \<longleftrightarrow> of_int \<lfloor>q\<rfloor> = q \<and> \<bar>\<lfloor>q\<rfloor>\<bar> \<le> 2 ^ 53"
| "whole (Arr vs) \<longleftrightarrow> list_all whole vs"
| "whole (Obj ps) \<longleftrightarrow> list_all (\<lambda>p. whole (snd p)) ps"
| "whole _ \<longleftrightarrow> True"

fun weight :: "jsval \<Rightarrow> nat" where
  "weight (Arr vs) = Suc (sum_list (map weight vs) + length vs)"
| "weight (Obj ps) = Suc (sum_list (map (\<lambda>p. weight (snd p)) ps) + length ps)"
| "weight _ = 0"

text \<open>A text that reads as a value wherever it stands, and a text a number can stand before.\<close>

definition stops :: "string \<Rightarrow> bool" where
  "stops rest \<longleftrightarrow> rest = [] \<or> \<not> is_digit (hd rest)"

definition blank :: "string \<Rightarrow> bool" where
  "blank s \<longleftrightarrow> list_all json_ws s"

definition reads :: "nat \<Rightarrow> string \<Rightarrow> jsval \<Rightarrow> bool" where
  "reads m t v \<longleftrightarrow> (\<forall>n lead rest. m < n \<longrightarrow> blank lead \<longrightarrow> stops rest \<longrightarrow>
     read_json_value n (lead @ t @ rest) = Some (v, rest))"

lemma readsD:
  "reads m t v \<Longrightarrow> m < n \<Longrightarrow> blank lead \<Longrightarrow> stops rest \<Longrightarrow> read_json_value n (lead @ t @ rest) = Some (v, rest)"
  by (simp add: reads_def)

lemma skip_blank: "blank lead \<Longrightarrow> skip_ws (lead @ s) = skip_ws s"
  by (simp add: skip_ws_def blank_def list_all_iff dropWhile_append2)

lemma skip_solid: "\<not> json_ws c \<Longrightarrow> skip_ws (c # s) = c # s"
  by (simp add: skip_ws_def)

lemma json_ws_stops: "json_ws c \<Longrightarrow> \<not> is_digit c"
  by (auto simp: json_ws_def is_digit_def code_def)

lemma stops_blank: "blank lead \<Longrightarrow> stops rest \<Longrightarrow> stops (lead @ rest)"
  by (cases lead) (auto simp: stops_def blank_def json_ws_stops)

lemma punctuation:
  "\<not> json_ws CHR '',''" "\<not> json_ws CHR '':''" "\<not> json_ws CHR '']''" "\<not> json_ws CHR ''}''" "\<not> json_ws CHR 0x22"
  "\<not> json_ws CHR ''[''" "\<not> json_ws CHR ''{''"
  "stops (CHR '','' # s)" "stops (CHR '']'' # s)" "stops (CHR ''}'' # s)"
  by (simp_all add: json_ws_def stops_def is_digit_def code_def)

text \<open>Arrays.\<close>

lemma read_elems_join:
  assumes "blank sep" "blank tail"
  shows "tvs \<noteq> [] \<Longrightarrow> \<forall>p \<in> set tvs. reads m (fst p) (snd p) \<Longrightarrow> m + length tvs < n \<Longrightarrow> blank lead \<Longrightarrow>
    read_elems n (lead @ join (CHR '','' # sep) (map fst tvs) @ tail @ CHR '']'' # rest) = Some (map snd tvs, rest)"
proof (induction tvs arbitrary: n lead)
  case (Cons p tvs)
  obtain k where k: "n = Suc k" "m + length tvs < k" using Cons.prems(3) by (cases n) auto
  have p: "reads m (fst p) (snd p)" using Cons.prems(2) by simp
  show ?case
  proof (cases tvs)
    case Nil
    have "read_json_value k (lead @ fst p @ (tail @ CHR '']'' # rest)) = Some (snd p, tail @ CHR '']'' # rest)"
      using k Cons.prems(4) assms(2) by (intro readsD [OF p]) (simp_all add: stops_blank punctuation)
    then show ?thesis
      using assms(2) by (simp add: Nil k skip_blank skip_solid punctuation)
  next
    case (Cons q qs)
    let ?r = "CHR '','' # sep @ join (CHR '','' # sep) (map fst tvs) @ tail @ CHR '']'' # rest"
    have "read_json_value k (lead @ fst p @ ?r) = Some (snd p, ?r)"
      using k Cons.prems(4) by (intro readsD [OF p]) (simp_all add: punctuation)
    moreover have "read_elems k (sep @ join (CHR '','' # sep) (map fst tvs) @ tail @ CHR '']'' # rest) =
        Some (map snd tvs, rest)"
      using Cons.IH [of k sep] Cons.prems k Cons assms(1) by simp
    ultimately show ?thesis
      by (simp add: Cons k skip_solid punctuation)
  qed
qed simp

text \<open>Strings.\<close>

definition escaped :: "char \<Rightarrow> string" where
  "escaped c = (if escapable c then escape_char c else [c])"

lemma quote_escaped: "quote s = CHR 0x22 # concat (map escaped s) @ [CHR 0x22]"
proof (cases "list_ex escapable s")
  case False
  then have "concat (map escaped s) = s" by (induction s) (auto simp: escaped_def)
  then show ?thesis using False by (simp add: quote_def)
qed (simp add: quote_def escaped_def [abs_def])

lemma digits_value_zeros: "digits_value b (replicate k (CHR ''0'') @ s) = digits_value b s"
  by (induction k) (simp_all add: digits_value_def digit_val_def code_def)

lemma hex4_reads:
  assumes "n < 256"
  shows "length (hex4 n) = 4" "list_all is_hex (hex4 n)" "digits_value 16 (hex4 n) = n"
proof -
  define d where "d = nat_digits 16 n"
  have "n div 16 < 16" using assms by (simp add: less_mult_imp_div_less)
  then have l: "length d \<le> 2"
    by (simp add: d_def nat_digits.simps [of 16 n] nat_digits.simps [of 16 "n div 16"])
  have drop: "hex4 n = drop (length d) (''0000'' @ d)" by (simp add: hex4_def Let_def d_def)
  have "d \<noteq> []" by (simp add: d_def)
  with l consider "length d = 1" | "length d = 2" by (cases d) (auto simp: le_Suc_eq)
  then have h: "hex4 n = replicate (4 - length d) (CHR ''0'') @ d"
    unfolding drop by cases (simp_all add: numeral_eq_Suc)
  show "length (hex4 n) = 4" using l by (simp add: h)
  show "list_all is_hex (hex4 n)"
  proof -
    have "is_hex CHR ''0''" by (simp add: is_hex_def is_digit_in_def digit_val_def code_def)
    moreover have "list_all is_hex d"
      using nat_digits_is_digit_in [of 16 _ n] by (auto simp: d_def list_all_iff is_hex_def)
    ultimately show ?thesis by (auto simp: h list_all_iff)
  qed
  show "digits_value 16 (hex4 n) = n" by (simp add: h digits_value_zeros d_def digits_value_nat_digits)
qed

lemma read_escaped: "read_string (escaped c @ s) = map_option (\<lambda>(x, r). (c # x, r)) (read_string s)"
proof (cases "escapable c")
  case False
  then have "c \<noteq> CHR 0x22" "c \<noteq> CHR 0x5C" "\<not> code c < 32" by (auto simp: escapable_def)
  then show ?thesis using False by (simp add: escaped_def)
next
  case esc: True
  show ?thesis
  proof (cases "meta c")
    case None
    have "read_string (CHR 0x5C # CHR ''u'' # hex4 (code c) @ s) = map_option (\<lambda>(x, r). (c # x, r)) (read_string s)"
      using hex4_reads [OF code_less_256, of c] code_less_256 [of c] by (simp add: code_def)
    then show ?thesis by (simp add: escaped_def esc escape_char_def None unicode_escape_def)
  next
    case (Some m)
    then have "short_escape m = Some c" "m \<noteq> CHR ''u''"
      by (auto simp: meta_def short_escape_def split: if_splits)
    then show ?thesis by (simp add: escaped_def esc escape_char_def Some code_def)
  qed
qed

lemma read_quoted: "read_string (concat (map escaped s) @ CHR 0x22 # rest) = Some (s, rest)"
  by (induction s) (simp_all add: read_escaped)

lemma reads_quote: "reads m (quote s) (Str s)"
proof -
  have "read_json_value n (lead @ quote s @ rest) = Some (Str s, rest)" if lt: "m < n" and lead: "blank lead" for n lead rest
  proof -
    obtain k where "n = Suc k" using lt by (cases n) auto
    then show ?thesis using lead by (simp add: quote_escaped skip_blank skip_solid punctuation read_quoted)
  qed
  then show ?thesis by (simp add: reads_def)
qed

text \<open>Objects.\<close>

definition member :: "bool \<Rightarrow> string \<times> string \<times> jsval \<Rightarrow> string" where
  "member spaced = (\<lambda>(k, t, v). quote k @ (if spaced then '': '' else '':'') @ t)"

lemma read_members_join:
  assumes "blank sep" "blank tail"
  shows "ms \<noteq> [] \<Longrightarrow> \<forall>p \<in> set ms. reads m (fst (snd p)) (snd (snd p)) \<Longrightarrow> m + length ms < n \<Longrightarrow> blank lead \<Longrightarrow>
    read_members n (lead @ join (CHR '','' # sep) (map (member spaced) ms) @ tail @ CHR ''}'' # rest) =
    Some (map (\<lambda>p. (fst p, snd (snd p))) ms, rest)"
proof (induction ms arbitrary: n lead)
  case (Cons p ms)
  obtain j where j: "n = Suc j" "m + length ms < j" using Cons.prems(3) by (cases n) auto
  obtain k t v where p: "p = (k, t, v)" by (cases p) auto
  have r: "reads m t v" using Cons.prems(2) by (simp add: p)
  define gap where "gap = (if spaced then '' '' else '''')"
  have gap: "blank gap" "(if spaced then '': '' else '':'') = CHR '':'' # gap"
    by (simp_all add: gap_def blank_def json_ws_def)
  have head: "read_members n (lead @ member spaced p @ u) = (case read_json_value j (gap @ t @ u) of None \<Rightarrow> None
     | Some (v, r') \<Rightarrow>
         if take 1 (skip_ws r') = '','' then
           map_option (\<lambda>(ps, r''). ((k, v) # ps, r'')) (read_members j (tl (skip_ws r')))
         else if take 1 (skip_ws r') = ''}'' then Some ([(k, v)], tl (skip_ws r'))
         else None)" for u
    using Cons.prems(4)
    by (simp add: j p member_def gap(2) quote_escaped skip_blank skip_solid punctuation read_quoted)
  show ?case
  proof (cases ms)
    case Nil
    have "read_json_value j (gap @ t @ (tail @ CHR ''}'' # rest)) = Some (v, tail @ CHR ''}'' # rest)"
      using j gap(1) assms(2) by (intro readsD [OF r]) (simp_all add: stops_blank punctuation)
    then show ?thesis
      using assms(2) head [of "tail @ CHR ''}'' # rest"] by (simp add: Nil skip_blank skip_solid punctuation p)
  next
    case (Cons q qs)
    let ?r = "CHR '','' # sep @ join (CHR '','' # sep) (map (member spaced) ms) @ tail @ CHR ''}'' # rest"
    have "read_json_value j (gap @ t @ ?r) = Some (v, ?r)"
      using j gap(1) by (intro readsD [OF r]) (simp_all add: punctuation)
    moreover have "read_members j (sep @ join (CHR '','' # sep) (map (member spaced) ms) @ tail @ CHR ''}'' # rest) =
        Some (map (\<lambda>p. (fst p, snd (snd p))) ms, rest)"
      using Cons.IH [of j sep] Cons.prems j Cons assms(1) by simp
    ultimately show ?thesis
      using head [of ?r] by (simp add: Cons skip_solid punctuation p)
  qed
qed simp

text \<open>Numbers and words.\<close>

lemma to_number_negative:
  assumes "0 < n" "n \<le> 2 ^ 53"
  shows "to_number (CHR ''-'' # nat_digits 10 n) = Fin (- of_nat n)"
proof -
  have plain: "\<not> is_ws c" if "c \<in> set (CHR ''-'' # nat_digits 10 n)" for c
    using that nat_digits_plain [of c n] by (auto simp: is_ws_def code_def)
  have "trim (CHR ''-'' # nat_digits 10 n) = CHR ''-'' # nat_digits 10 n" by (rule trim_id) (rule plain)
  moreover have "\<not> has_hex_prefix (CHR ''-'' # nat_digits 10 n)" by (simp add: has_hex_prefix_def numeral_2_eq_2)
  moreover have "to_double True (- of_nat n) = Fin (- of_nat n)"
    using to_double_of_int [of "- int n"] assms by (simp add: to_double_def Let_def split: if_splits)
  ultimately show ?thesis
    by (simp add: to_number_def scan_sign_def scan_decimal_nat_digits not_infinity)
qed

lemma take_digits:
  assumes "stops rest"
  shows "takeWhile is_digit (nat_digits 10 n @ rest) = nat_digits 10 n"
    "dropWhile is_digit (nat_digits 10 n @ rest) = rest"
proof -
  have all: "\<forall>c \<in> set (nat_digits 10 n). is_digit c" using nat_digits_is_digit by blast
  then show "takeWhile is_digit (nat_digits 10 n @ rest) = nat_digits 10 n"
    using assms by (cases rest) (simp_all add: stops_def takeWhile_append2)
  show "dropWhile is_digit (nat_digits 10 n @ rest) = rest"
    using all assms by (cases rest) (simp_all add: stops_def dropWhile_append2)
qed

lemma nat_digits_lead: "hd (nat_digits 10 n) = CHR ''0'' \<Longrightarrow> tl (nat_digits 10 n) = []"
  using hd_nat_digits [of 10 n] by (cases "n = 0") (auto simp: nat_digits.simps [of 10 0])

lemma digit_start:
  obtains c ds where "nat_digits 10 n = c # ds" "is_digit c"
  using nat_digits_is_digit [of _ n] by (cases "nat_digits 10 n") auto

lemma digit_no_punctuation:
  "is_digit c \<Longrightarrow> \<not> json_ws c \<and> c \<noteq> CHR 0x22 \<and> c \<noteq> CHR ''['' \<and> c \<noteq> CHR ''{'' \<and> c \<noteq> CHR ''n'' \<and> c \<noteq> CHR ''t'' \<and>
   c \<noteq> CHR ''f'' \<and> c \<noteq> CHR ''-'' \<and> c \<noteq> CHR '']'' \<and> c \<noteq> CHR ''}''"
  by (auto simp: is_digit_def json_ws_def code_def)

lemma read_int_digits:
  assumes "stops rest" "n \<le> 2 ^ 53"
  shows "read_int (nat_digits 10 n @ rest) = Some (Fin (of_nat n), rest)"
proof -
  obtain c ds where "nat_digits 10 n = c # ds" "is_digit c" by (rule digit_start)
  then have neg: "\<not> take 1 (nat_digits 10 n @ rest) = ''-''" using digit_no_punctuation [of c] by simp
  have lead: "\<not> (nat_digits 10 n = [] \<or> hd (nat_digits 10 n) = CHR ''0'' \<and> tl (nat_digits 10 n) \<noteq> [])"
    using nat_digits_lead [of n] by simp
  show ?thesis
    unfolding read_int_def Let_def if_not_P [OF neg] take_digits [OF assms(1)] if_not_P [OF lead]
    by (simp add: read_nat_digits [OF assms(2)])
qed

lemma read_int_negative:
  assumes "stops rest" "0 < n" "n \<le> 2 ^ 53"
  shows "read_int (CHR ''-'' # nat_digits 10 n @ rest) = Some (Fin (- of_nat n), rest)"
proof -
  have neg: "take 1 (CHR ''-'' # nat_digits 10 n @ rest) = ''-''" by simp
  have lead: "\<not> (nat_digits 10 n = [] \<or> hd (nat_digits 10 n) = CHR ''0'' \<and> tl (nat_digits 10 n) \<noteq> [])"
    using nat_digits_lead [of n] by simp
  show ?thesis
    unfolding read_int_def Let_def if_P [OF neg] list.sel take_digits [OF assms(1)] if_not_P [OF lead]
    by (simp add: to_number_negative [OF assms(2,3)])
qed

lemma reads_mono: "reads m t v \<Longrightarrow> m \<le> m' \<Longrightarrow> reads m' t v"
  by (auto simp: reads_def)

lemma readsI:
  "(\<And>k lead rest. m \<le> k \<Longrightarrow> blank lead \<Longrightarrow> stops rest \<Longrightarrow> read_json_value (Suc k) (lead @ t @ rest) = Some (v, rest)) \<Longrightarrow>
   reads m t v"
  unfolding reads_def by (metis less_Suc_eq_le not0_implies_Suc not_less0)

lemma reads_words: "reads m ''null'' Null" "reads m ''true'' (Boolean True)" "reads m ''false'' (Boolean False)"
  by (rule readsI; simp add: skip_blank skip_solid json_ws_def)+

lemma read_value_int:
  assumes "read_int (t @ rest) = Some (x, rest)" "blank lead" "t = c # u"
    "\<not> json_ws c" "c \<noteq> CHR 0x22" "c \<noteq> CHR ''[''" "c \<noteq> CHR ''{''" "c \<noteq> CHR ''n''" "c \<noteq> CHR ''t''" "c \<noteq> CHR ''f''"
  shows "read_json_value (Suc k) (lead @ t @ rest) = Some (Num x, rest)"
proof -
  have "skip_ws (lead @ t @ rest) = t @ rest" using assms(2-4) by (simp add: skip_blank skip_solid)
  then show ?thesis using assms(1,3,5-) by (simp add: numeral_eq_Suc)
qed

lemma reads_int:
  assumes "\<bar>n\<bar> \<le> 2 ^ 53"
  shows "reads m (int_to_string 10 n) (Num (Fin (of_int n)))"
proof (rule readsI)
  fix k and lead rest :: string
  assume lead: "blank lead" and rest: "stops rest"
  show "read_json_value (Suc k) (lead @ int_to_string 10 n @ rest) = Some (Num (Fin (of_int n)), rest)"
  proof (cases "n < 0")
    case True
    then have "read_int ((CHR ''-'' # nat_digits 10 (nat (- n))) @ rest) = Some (Fin (of_int n), rest)"
      using read_int_negative [OF rest, of "nat (- n)"] assms by simp
    then show ?thesis
      using True by (simp only: int_to_string_def if_True) (rule read_value_int [OF _ lead refl], simp_all add: json_ws_def)
  next
    case False
    then have r: "read_int (nat_digits 10 (nat n) @ rest) = Some (Fin (of_int n), rest)"
      using read_int_digits [OF rest, of "nat n"] assms by simp
    obtain c ds where c: "nat_digits 10 (nat n) = c # ds" "is_digit c" by (rule digit_start)
    have "read_json_value (Suc k) (lead @ nat_digits 10 (nat n) @ rest) = Some (Num (Fin (of_int n)), rest)"
      by (rule read_value_int [OF r lead c(1)]) (use digit_no_punctuation [OF c(2)] in simp_all)
    then show ?thesis using False by (simp add: int_to_string_def)
  qed
qed

text \<open>How a text of a value begins.\<close>

definition solid :: "string \<Rightarrow> bool" where
  "solid t \<longleftrightarrow> (case t of [] \<Rightarrow> False | c # _ \<Rightarrow> \<not> json_ws c \<and> c \<noteq> CHR '']'' \<and> c \<noteq> CHR ''}'')"

lemma solid_append: "solid t \<Longrightarrow> solid (t @ s)"
  by (cases t) (simp_all add: solid_def)

lemma solid_join: "ts \<noteq> [] \<Longrightarrow> solid (hd ts) \<Longrightarrow> solid (join sep ts)"
  by (induction sep ts rule: join.induct) (simp_all add: solid_append)

lemma solid_skip:
  "blank lead \<Longrightarrow> solid t \<Longrightarrow> take 1 (skip_ws (lead @ t @ s)) \<noteq> '']'' \<and> take 1 (skip_ws (lead @ t @ s)) \<noteq> ''}''"
  by (cases t) (simp_all add: solid_def skip_blank skip_solid)

lemma solid_int: "solid (int_to_string 10 n)"
proof -
  obtain c ds where "nat_digits 10 (nat n) = c # ds" "is_digit c" by (rule digit_start)
  then show ?thesis
    using digit_no_punctuation [of c]
    by (cases "n < 0") (simp_all add: solid_def int_to_string_def, simp add: json_ws_def)
qed

lemma enclose_parts:
  assumes "partial \<noteq> []" and "blank gap" and "blank mind"
  obtains lead sep tail where "blank lead" "blank sep" "blank tail"
    "enclose left right gap mind partial = left @ lead @ join (CHR '','' # sep) partial @ tail @ right"
proof (cases "gap = []")
  case True
  then show ?thesis using that [of "[]" "[]" "[]"] assms(1) by (simp add: enclose_def blank_def)
next
  case False
  have "json_ws CHR 0x0A" by (simp add: json_ws_def)
  then show ?thesis
    using that [of "CHR 0x0A # gap" "CHR 0x0A # gap" "CHR 0x0A # mind"] assms False
    by (simp add: enclose_def blank_def)
qed

lemma reads_array:
  assumes "blank gap" "blank mind" "\<forall>p \<in> set tvs. solid (fst p) \<and> reads m (fst p) (snd p)"
  shows "reads (Suc (m + length tvs)) (enclose ''['' '']'' gap mind (map fst tvs)) (Arr (map snd tvs))"
proof (rule readsI)
  fix k and lead rest :: string
  assume k: "Suc (m + length tvs) \<le> k" and lead: "blank lead"
  show "read_json_value (Suc k) (lead @ enclose ''['' '']'' gap mind (map fst tvs) @ rest) = Some (Arr (map snd tvs), rest)"
  proof (cases "tvs = []")
    case True
    then show ?thesis using lead by (simp add: enclose_def skip_blank skip_solid punctuation)
  next
    case False
    obtain l sep tail where e: "blank l" "blank sep" "blank tail"
      "enclose ''['' '']'' gap mind (map fst tvs) = ''['' @ l @ join (CHR '','' # sep) (map fst tvs) @ tail @ '']''"
      by (rule enclose_parts [of "map fst tvs" gap mind "''[''" "'']''"]) (use False assms in auto)
    have "read_elems k (l @ join (CHR '','' # sep) (map fst tvs) @ tail @ CHR '']'' # rest) = Some (map snd tvs, rest)"
      using read_elems_join [OF e(2,3) False _ _ e(1), of m k rest] assms(3) k by simp
    moreover have "solid (join (CHR '','' # sep) (map fst tvs))"
      using False assms(3) by (intro solid_join) (simp_all add: list.map_sel(1))
    ultimately show ?thesis
      using lead solid_skip [OF e(1), of _ "tail @ CHR '']'' # rest"] by (simp add: e(4) skip_blank skip_solid punctuation)
  qed
qed

lemma reads_object:
  assumes "blank gap" "blank mind" "\<forall>p \<in> set ms. reads m (fst (snd p)) (snd (snd p))"
  shows "reads (Suc (m + length ms)) (enclose ''{'' ''}'' gap mind (map (member spaced) ms))
    (Obj (map (\<lambda>p. (fst p, snd (snd p))) ms))"
proof (rule readsI)
  fix k and lead rest :: string
  assume k: "Suc (m + length ms) \<le> k" and lead: "blank lead"
  show "read_json_value (Suc k) (lead @ enclose ''{'' ''}'' gap mind (map (member spaced) ms) @ rest) =
    Some (Obj (map (\<lambda>p. (fst p, snd (snd p))) ms), rest)"
  proof (cases "ms = []")
    case True
    then show ?thesis using lead by (simp add: enclose_def skip_blank skip_solid punctuation)
  next
    case False
    obtain l sep tail where e: "blank l" "blank sep" "blank tail"
      "enclose ''{'' ''}'' gap mind (map (member spaced) ms) =
        ''{'' @ l @ join (CHR '','' # sep) (map (member spaced) ms) @ tail @ ''}''"
      by (rule enclose_parts [of "map (member spaced) ms" gap mind "''{''" "''}''"]) (use False assms in auto)
    have "read_members k (l @ join (CHR '','' # sep) (map (member spaced) ms) @ tail @ CHR ''}'' # rest) =
        Some (map (\<lambda>p. (fst p, snd (snd p))) ms, rest)"
      using read_members_join [OF e(2,3) False _ _ e(1), of m k spaced rest] assms(3) k by simp
    moreover have "solid (join (CHR '','' # sep) (map (member spaced) ms))"
      using False by (intro solid_join) (auto simp: list.map_sel(1) member_def quote_escaped solid_def json_ws_def split: prod.splits)
    ultimately show ?thesis
      using lead solid_skip [OF e(1), of _ "tail @ CHR ''}'' # rest"] by (simp add: e(4) skip_blank skip_solid punctuation)
  qed
qed

lemma text_kept: "text_of ind mind v = None \<longleftrightarrow> kept v = None"
  by (cases v) simp_all

lemma number_text:
  assumes "whole (Num x)" "is_finite x"
  shows "\<exists>n. \<bar>n\<bar> \<le> 2 ^ 53 \<and> num_to_string x = int_to_string 10 n \<and> rat_of x = of_int n"
proof (cases x)
  case (Fin q)
  then obtain n where n: "q = of_int n" "\<bar>n\<bar> \<le> 2 ^ 53" using assms(1) by (metis whole.simps(1))
  then show ?thesis using num_to_string_int [OF n(2)] Fin by auto
next
  case NZero
  have "nat_digits 10 0 = ''0''"
    using digit_char_code [of 0] by (simp add: nat_digits.simps) (simp add: code_inject [symmetric] code_def)
  then show ?thesis using NZero by (intro exI [of _ 0]) (simp add: num_to_string_def int_to_string_def)
qed (use assms(2) in simp_all)

lemma solid_text: "text_of ind mind v = Some t \<Longrightarrow> whole v \<Longrightarrow> solid t"
proof (cases v)
  case (Num x)
  assume a: "text_of ind mind v = Some t" "whole v"
  show ?thesis
  proof (cases "is_finite x")
    case True
    then show ?thesis using a number_text [of x] solid_int by (auto simp: Num)
  next
    case False
    then show ?thesis using a by (simp add: Num) (auto simp: solid_def json_ws_def)
  qed
qed (auto simp: solid_def json_ws_def quote_escaped enclose_def)

definition entry_text :: "string \<Rightarrow> string \<Rightarrow> jsval \<Rightarrow> string \<times> jsval" where
  "entry_text ind gap v = (element_text (text_of ind gap v), case kept v of None \<Rightarrow> Null | Some w \<Rightarrow> w)"

lemma reads_text:
  "whole v \<Longrightarrow> blank ind \<Longrightarrow> blank mind \<Longrightarrow> text_of ind mind v = Some t \<Longrightarrow> reads (weight v) t (the (kept v))"
proof (induction v arbitrary: mind t)
  case (Num x)
  show ?case
  proof (cases "is_finite x")
    case True
    then obtain n where "\<bar>n\<bar> \<le> 2 ^ 53" "num_to_string x = int_to_string 10 n" "rat_of x = of_int n"
      using number_text Num.prems(1) by blast
    then have "reads (weight (Num x)) (num_to_string x) (Num (Fin (rat_of x)))" using reads_int by metis
    then show ?thesis using Num True by simp
  qed (use Num reads_words in auto)
next
  case (Arr vs)
  define gap where "gap = mind @ ind"
  define m where "m = sum_list (map weight vs)"
  have gap: "blank gap" using Arr.prems by (simp add: gap_def blank_def)
  have "solid (fst p) \<and> reads m (fst p) (snd p)" if "p \<in> set (map (entry_text ind gap) vs)" for p
  proof -
    obtain v where v: "v \<in> set vs" "p = entry_text ind gap v" using \<open>p \<in> set (map (entry_text ind gap) vs)\<close> by auto
    have w: "whole v" "weight v \<le> m"
      using v(1) Arr.prems(1) by (auto simp: list_all_iff m_def member_le_sum_list)
    show ?thesis
    proof (cases "text_of ind gap v")
      case None
      then have "kept v = None" by (simp add: text_kept)
      then show ?thesis using None reads_words(1) by (simp add: v entry_text_def element_text_def solid_def json_ws_def)
    next
      case (Some u)
      then have k: "kept v = Some (the (kept v))" using text_kept [of ind gap v] by auto
      have s: "solid u" by (rule solid_text [OF Some w(1)])
      then have "element_text (Some u) = u" by (auto simp: element_text_def solid_def)
      moreover have "reads m u (the (kept v))"
        by (rule reads_mono [OF Arr.IH [OF v(1) w(1) Arr.prems(2) gap Some] w(2)])
      ultimately show ?thesis using s k Some by (auto simp: v entry_text_def split: option.split)
    qed
  qed
  then have "reads (Suc (m + length (map (entry_text ind gap) vs)))
      (enclose ''['' '']'' gap mind (map fst (map (entry_text ind gap) vs))) (Arr (map snd (map (entry_text ind gap) vs)))"
    by (intro reads_array [OF gap Arr.prems(3)]) blast
  then show ?case using Arr.prems(4) by (simp add: m_def gap_def entry_text_def comp_def)
next
  case (Obj ps)
  define gap where "gap = mind @ ind"
  define m where "m = sum_list (map (\<lambda>p. weight (snd p)) ps)"
  define ms where "ms = concat (map (\<lambda>p. case text_of ind gap (snd p) of None \<Rightarrow> []
    | Some u \<Rightarrow> [(fst p, u, the (kept (snd p)))]) ps)"
  have gap: "blank gap" using Obj.prems by (simp add: gap_def blank_def)
  have kept_ms: "map (\<lambda>p. (fst p, snd (snd p))) ms =
      concat (map (\<lambda>p. case kept (snd p) of None \<Rightarrow> [] | Some w \<Rightarrow> [(fst p, w)]) ps)"
    using text_kept [of ind gap] unfolding ms_def by (induction ps) (auto split: option.splits)
  have texts: "map (member (gap \<noteq> [])) ms =
      concat (map (\<lambda>p. member_text gap (fst p) (text_of ind gap (snd p))) ps)"
    using Obj.prems(1) solid_text [of ind gap] unfolding ms_def
    by (induction ps) (fastforce simp: member_def member_text_def solid_def split: option.splits)+
  have "reads m (fst (snd q)) (snd (snd q))" if q_in: "q \<in> set ms" for q
  proof -
    obtain p u where p: "p \<in> set ps" "text_of ind gap (snd p) = Some u" "q = (fst p, u, the (kept (snd p)))"
      using q_in by (auto simp: ms_def split: option.splits)
    have w: "whole (snd p)" "weight (snd p) \<le> m"
      using p(1) Obj.prems(1) by (auto simp: list_all_iff m_def member_le_sum_list)
    have "snd p \<in> Basic_BNFs.snds p" by (simp add: snds.simps)
    then show ?thesis
      using reads_mono [OF Obj.IH [OF p(1) _ w(1) Obj.prems(2) gap p(2)] w(2)] by (simp add: p(3))
  qed
  then have "reads (Suc (m + length ms)) (enclose ''{'' ''}'' gap mind (map (member (gap \<noteq> [])) ms))
      (Obj (map (\<lambda>p. (fst p, snd (snd p))) ms))"
    by (intro reads_object [OF gap Obj.prems(3)]) blast
  moreover have "length ms \<le> length ps"
    unfolding ms_def by (induction ps) (auto split: option.split)
  ultimately have "reads (weight (Obj ps)) (enclose ''{'' ''}'' gap mind (map (member (gap \<noteq> [])) ms))
      (Obj (map (\<lambda>p. (fst p, snd (snd p))) ms))"
    by (elim reads_mono) (simp add: m_def)
  then show ?case using Obj.prems(4) by (simp only: texts kept_ms) (simp add: gap_def)
qed (auto simp: reads_words reads_quote)

section \<open>Properties\<close>

text \<open>
  C11: for a value nested less deeply than the stack, without methods of its own that write it and
  with whole numbers of at most 53 bits, and an indentation of white space, \<open>stringify\<close> returns,
  and a reader written from the grammar of JSON reads what it wrote back as what JSON keeps of the
  value; for \<open>undefined\<close> and functions it returns \<open>undefined\<close>.
\<close>

theorem stringify_reads_back:
  assumes "plain_json v" and "nesting v < depth" and "whole v"
    and "indent_of space = Some ind" and "blank ind"
  shows "\<exists>r. stringify depth methods v (Value_Arg Undefined) space = Some (Inr r) \<and>
    (case kept v of None \<Rightarrow> r = None
     | Some w \<Rightarrow> (\<exists>t n. r = Some t \<and> read_json_value n t = Some (w, [])))"
proof -
  let ?env = "\<lparr>to_json = methods, rep = No_Replacer, indent = ind\<rparr>"
  have "str ?env depth '''' '''' (Obj [('''', v)]) = Inr (text_of ind '''' v)"
    using str_text [of ?env v depth "Obj [('''', v)]" "''''" "''''"] assms(1,2) by (simp add: member_of_def)
  then have s: "stringify depth methods v (Value_Arg Undefined) space = Some (Inr (text_of ind '''' v))"
    using assms(4) by (simp add: stringify_def replacer_of_def truthy_def)
  show ?thesis
  proof (cases "text_of ind '''' v")
    case None
    then show ?thesis using s text_kept [of ind "''''" v] by simp
  next
    case (Some t)
    then obtain w where w: "kept v = Some w" using text_kept [of ind "''''" v] by auto
    have "reads (weight v) t w" using reads_text [OF assms(3,5) _ Some] by (simp add: blank_def w)
    then have "read_json_value (Suc (weight v)) ([] @ t @ []) = Some (w, [])"
      by (rule readsD) (simp_all add: blank_def stops_def)
    then have "\<exists>n. read_json_value n t = Some (w, [])" unfolding append_Nil append_Nil2 by (rule exI)
    then show ?thesis using s Some w by simp
  qed
qed

definition letter_value :: jsval where
  "letter_value = Obj [(''name'', Str [CHR 0x22]), (''rows'', Arr [Num (Fin 1), Undefined]), (''f'', Func ''g'')]"

theorem stringify_reads_back_witness:
  "\<forall>methods. \<exists>t n. stringify 9 methods letter_value (Value_Arg Undefined) (Str ''  '') = Some (Inr (Some t)) \<and>
    read_json_value n t = Some (Obj [(''name'', Str [CHR 0x22]), (''rows'', Arr [Num (Fin 1), Null])], [])"
proof
  fix methods :: "string \<Rightarrow> jsval \<Rightarrow> string \<Rightarrow> jsval"
  have "plain_json letter_value" "nesting letter_value < 9" "whole letter_value"
    by (simp_all add: letter_value_def)
  moreover have "indent_of (Str ''  '') = Some ''  ''" "blank ''  ''"
    by (simp_all add: indent_of_def blank_def json_ws_def)
  moreover have "kept letter_value = Some (Obj [(''name'', Str [CHR 0x22]), (''rows'', Arr [Num (Fin 1), Null])])"
    by (simp add: letter_value_def)
  ultimately show "\<exists>t n. stringify 9 methods letter_value (Value_Arg Undefined) (Str ''  '') = Some (Inr (Some t)) \<and>
      read_json_value n t = Some (Obj [(''name'', Str [CHR 0x22]), (''rows'', Arr [Num (Fin 1), Null])], [])"
    using stringify_reads_back [of letter_value 9 "Str ''  ''" "''  ''" methods] by fastforce
qed

end
