(* ===== verification/Lib_Legend_Drag.thy ===== *)
theory Lib_Legend_Drag
  imports JS_Math
begin

text \<open>
  modules/draggable-legend-box.js: dragging the legend of a chart with the mouse, on the alignment
  of a group from the core of the library. The charts of the dashboard switch it on in theme.js.
  The numbers are doubles; the facts below are about pointers and boxes at whole pixels.
\<close>

section \<open>Alignment\<close>

text \<open>
  The options of the legend that alignment reads. \<open>opt_width\<close> and \<open>opt_height\<close> are sizes given in
  the options themselves, which win over the measured ones.
\<close>

record legend_options =
  h_align :: string
  v_align :: string
  opt_x :: jsnum
  opt_y :: jsnum
  opt_width :: "jsnum option"
  opt_height :: "jsnum option"

record rectangle =
  rect_x :: jsnum
  rect_y :: jsnum
  rect_width :: jsnum
  rect_height :: jsnum

definition aligned_x :: "rectangle \<Rightarrow> legend_options \<Rightarrow> jsnum \<Rightarrow> jsnum" where
  "aligned_x b opts width = (let f = js_add (or_zero (rect_x b)) (or_zero (opt_x opts));
       rest = js_sub (rect_width b) (or_zero width) in
     math_round (if h_align opts = ''right'' then js_add f (js_div rest (num_of_int 1))
       else if h_align opts = ''center'' then js_add f (js_div rest (num_of_int 2)) else f))"

definition aligned_y :: "rectangle \<Rightarrow> legend_options \<Rightarrow> jsnum \<Rightarrow> jsnum" where
  "aligned_y b opts height = (let g = js_add (or_zero (rect_y b)) (or_zero (opt_y opts));
       rest = js_sub (rect_height b) (or_zero height) in
     math_round (if v_align opts = ''bottom'' then js_add g (js_div rest (num_of_int 1))
       else if v_align opts = ''middle'' then js_add g (js_div rest (num_of_int 2)) else g))"

section \<open>The drag\<close>

text \<open>
  \<open>chart_box\<close> is the chart during a drag: its size, its spacing box and the measured size of the
  legend. \<open>drag_state\<close> has the variables the three listeners share, the options they change, the
  translation of the legend's group, whether the group counts as placed, whether the translation is
  the end of an animation (an alignment animates a placed group), and whether the pointer shows a
  selection marker.
\<close>

record chart_box =
  chart_width :: jsnum
  chart_height :: jsnum
  spacing_box :: rectangle
  legend_width :: jsnum
  legend_height :: jsnum
  draggable :: bool

record drag_state =
  isDragging :: bool
  downX :: jsnum
  downY :: jsnum
  optionsX :: jsnum
  optionsY :: jsnum
  currentX :: jsnum
  currentY :: jsnum
  legend_opts :: legend_options
  translate_x :: jsnum
  translate_y :: jsnum
  placed :: bool
  animated :: bool
  selection_marker :: bool

definition drag_init :: "legend_options \<Rightarrow> jsnum \<Rightarrow> jsnum \<Rightarrow> drag_state" where
  "drag_init opts x y = \<lparr>isDragging = False, downX = NaN, downY = NaN, optionsX = NaN, optionsY = NaN,
     currentX = NaN, currentY = NaN, legend_opts = opts, translate_x = x, translate_y = y,
     placed = True, animated = False, selection_marker = False\<rparr>"

text \<open>Pointer events carry normalized coordinates; \<open>Marked\<close> is the pointer showing its marker.\<close>

datatype pointer_event = MouseDown jsnum jsnum | MouseMove jsnum jsnum | MouseUp | Marked

definition mouse_down :: "jsnum \<Rightarrow> jsnum \<Rightarrow> drag_state \<Rightarrow> drag_state" where
  "mouse_down chartX chartY st = st\<lparr>
     downX := chartX, downY := chartY,
     optionsX := opt_x (legend_opts st), optionsY := opt_y (legend_opts st),
     currentX := translate_x st, currentY := translate_y st,
     isDragging := True\<rparr>"

definition inside :: "chart_box \<Rightarrow> drag_state \<Rightarrow> jsnum \<Rightarrow> jsnum \<Rightarrow> bool" where
  "inside c st draggedX draggedY \<longleftrightarrow>
     num_lt (num_of_int 0) (js_add (currentX st) draggedX) \<and>
     num_lt (js_add (js_add (currentX st) draggedX) (legend_width c)) (chart_width c) \<and>
     num_lt (num_of_int 0) (js_add (currentY st) draggedY) \<and>
     num_lt (js_add (js_add (currentY st) draggedY) (legend_height c)) (chart_height c)"

definition align_legend :: "chart_box \<Rightarrow> drag_state \<Rightarrow> drag_state" where
  "align_legend c st = (let opts = legend_opts st;
       width = (case opt_width opts of Some w \<Rightarrow> w | None \<Rightarrow> legend_width c);
       height = (case opt_height opts of Some h \<Rightarrow> h | None \<Rightarrow> legend_height c) in
     st\<lparr>translate_x := aligned_x (spacing_box c) opts width,
       translate_y := aligned_y (spacing_box c) opts height,
       animated := placed st, placed := True\<rparr>)"

definition mouse_move :: "chart_box \<Rightarrow> jsnum \<Rightarrow> jsnum \<Rightarrow> drag_state \<Rightarrow> drag_state" where
  "mouse_move c chartX chartY st =
     (if isDragging st then
        (let draggedX = js_sub chartX (downX st);
             draggedY = js_sub chartY (downY st);
             st1 = st\<lparr>legend_opts := (legend_opts st)\<lparr>opt_x := js_add (optionsX st) draggedX,
                         opt_y := js_add (optionsY st) draggedY\<rparr>\<rparr>;
             st2 = (if inside c st1 draggedX draggedY then align_legend c (st1\<lparr>placed := False\<rparr>) else st1)
         in st2\<lparr>selection_marker := False\<rparr>)
      else st)"

definition drag_step :: "chart_box \<Rightarrow> drag_state \<Rightarrow> pointer_event \<Rightarrow> drag_state" where
  "drag_step c st ev = (case ev of
     Marked \<Rightarrow> st\<lparr>selection_marker := True\<rparr>
   | _ \<Rightarrow> if \<not> draggable c then st else (case ev of
       MouseDown x y \<Rightarrow> mouse_down x y st
     | MouseMove x y \<Rightarrow> mouse_move c x y st
     | _ \<Rightarrow> st\<lparr>isDragging := False\<rparr>))"

definition drag_run :: "chart_box \<Rightarrow> drag_state \<Rightarrow> pointer_event list \<Rightarrow> drag_state" where
  "drag_run c = foldl (drag_step c)"

section \<open>Whole pixels\<close>

text \<open>
  A pixel coordinate; the pixel of a number; a chart and options given in whole pixels, with a
  legend at an edge (a centred one is placed at half pixels and rounded).
\<close>

definition pixel :: "jsnum \<Rightarrow> bool" where
  "pixel x \<longleftrightarrow> is_finite x \<and> x = num_of_int \<lfloor>rat_of x\<rfloor> \<and> \<bar>\<lfloor>rat_of x\<rfloor>\<bar> \<le> 2 ^ 40"

definition px :: "jsnum \<Rightarrow> int" where
  "px x = \<lfloor>rat_of x\<rfloor>"

definition legend_size :: "chart_box \<Rightarrow> legend_options \<Rightarrow> jsnum \<times> jsnum" where
  "legend_size c opts =
     (case opt_width opts of Some w \<Rightarrow> w | None \<Rightarrow> legend_width c,
      case opt_height opts of Some h \<Rightarrow> h | None \<Rightarrow> legend_height c)"

definition pixel_chart :: "chart_box \<Rightarrow> legend_options \<Rightarrow> bool" where
  "pixel_chart c opts \<longleftrightarrow>
     draggable c \<and> h_align opts \<noteq> ''center'' \<and> v_align opts \<noteq> ''middle'' \<and>
     pixel (chart_width c) \<and> pixel (chart_height c) \<and> pixel (legend_width c) \<and> pixel (legend_height c) \<and>
     pixel (rect_x (spacing_box c)) \<and> pixel (rect_y (spacing_box c)) \<and>
     pixel (rect_width (spacing_box c)) \<and> pixel (rect_height (spacing_box c)) \<and>
     pixel (fst (legend_size c opts)) \<and> pixel (snd (legend_size c opts))"

definition pixel_state :: "drag_state \<Rightarrow> bool" where
  "pixel_state st \<longleftrightarrow> pixel (opt_x (legend_opts st)) \<and> pixel (opt_y (legend_opts st)) \<and>
     pixel (translate_x st) \<and> pixel (translate_y st)"

text \<open>The box of the legend at a position is strictly inside the chart.\<close>

definition box_fits :: "chart_box \<Rightarrow> int \<Rightarrow> int \<Rightarrow> bool" where
  "box_fits c x y \<longleftrightarrow> 0 < x \<and> x + px (legend_width c) < px (chart_width c) \<and>
     0 < y \<and> y + px (legend_height c) < px (chart_height c)"

text \<open>Where alignment puts the legend, less where it is.\<close>

definition drift :: "chart_box \<Rightarrow> drag_state \<Rightarrow> int \<times> int" where
  "drift c st = (let (w, h) = legend_size c (legend_opts st) in
     (px (aligned_x (spacing_box c) (legend_opts st) w) - px (translate_x st),
      px (aligned_y (spacing_box c) (legend_opts st) h) - px (translate_y st)))"

lemma pixelE: "pixel x \<Longrightarrow> (\<And>n. x = num_of_int n \<Longrightarrow> \<bar>n\<bar> \<le> 2 ^ 40 \<Longrightarrow> px x = n \<Longrightarrow> P) \<Longrightarrow> P"
  unfolding pixel_def px_def by blast

lemma pixel_int [simp]: "pixel (num_of_int n) \<longleftrightarrow> \<bar>n\<bar> \<le> 2 ^ 40"
  by (simp add: pixel_def)

lemma px_int [simp]: "px (num_of_int n) = n"
  by (simp add: px_def)

lemma js_div_one: "\<bar>n\<bar> \<le> 2 ^ 53 \<Longrightarrow> js_div (num_of_int n) (Fin 1) = num_of_int n"
proof -
  assume n: "\<bar>n\<bar> \<le> 2 ^ 53"
  have "to_double (n < 0) (of_int n) = num_of_int n"
  proof (cases "n = 0")
    case False
    have "\<bar>of_int n :: rat\<bar> < overflow"
      using n by (metis is_double_of_int is_double_simps(5))
    then show ?thesis using n False by (intro to_double_exact) simp_all
  qed simp
  then show ?thesis by (simp add: js_div_def)
qed

text \<open>The coordinate alignment gives to whole options, as an offset to them.\<close>

definition anchor_x :: "chart_box \<Rightarrow> legend_options \<Rightarrow> int" where
  "anchor_x c opts = px (rect_x (spacing_box c)) +
     (if h_align opts = ''right'' then px (rect_width (spacing_box c)) - px (fst (legend_size c opts)) else 0)"

definition anchor_y :: "chart_box \<Rightarrow> legend_options \<Rightarrow> int" where
  "anchor_y c opts = px (rect_y (spacing_box c)) +
     (if v_align opts = ''bottom'' then px (rect_height (spacing_box c)) - px (snd (legend_size c opts)) else 0)"

lemma aligned_x_pixel:
  assumes "pixel_chart c opts" and "opt_x opts = num_of_int x" and "\<bar>x\<bar> \<le> 2 ^ 50"
  shows "aligned_x (spacing_box c) opts (fst (legend_size c opts)) = num_of_int (anchor_x c opts + x)"
proof -
  from assms(1) obtain b w l where "rect_x (spacing_box c) = num_of_int b" "\<bar>b\<bar> \<le> 2 ^ 40"
      "rect_width (spacing_box c) = num_of_int w" "\<bar>w\<bar> \<le> 2 ^ 40"
      "fst (legend_size c opts) = num_of_int l" "\<bar>l\<bar> \<le> 2 ^ 40"
    unfolding pixel_chart_def by (metis pixelE)
  then show ?thesis
    using assms unfolding pixel_chart_def by (simp add: aligned_x_def Let_def anchor_x_def js_div_one algebra_simps
        del: of_int_add of_int_diff)
qed

lemma aligned_y_pixel:
  assumes "pixel_chart c opts" and "opt_y opts = num_of_int y" and "\<bar>y\<bar> \<le> 2 ^ 50"
  shows "aligned_y (spacing_box c) opts (snd (legend_size c opts)) = num_of_int (anchor_y c opts + y)"
proof -
  from assms(1) obtain b w l where "rect_y (spacing_box c) = num_of_int b" "\<bar>b\<bar> \<le> 2 ^ 40"
      "rect_height (spacing_box c) = num_of_int w" "\<bar>w\<bar> \<le> 2 ^ 40"
      "snd (legend_size c opts) = num_of_int l" "\<bar>l\<bar> \<le> 2 ^ 40"
    unfolding pixel_chart_def by (metis pixelE)
  then show ?thesis
    using assms unfolding pixel_chart_def by (simp add: aligned_y_def Let_def anchor_y_def js_div_one algebra_simps
        del: of_int_add of_int_diff)
qed

section \<open>One drag\<close>

definition press :: "int \<times> int \<Rightarrow> pointer_event" where
  "press p = MouseDown (num_of_int (fst p)) (num_of_int (snd p))"

definition move_to :: "int \<times> int \<Rightarrow> pointer_event" where
  "move_to p = MouseMove (num_of_int (fst p)) (num_of_int (snd p))"

definition near :: "int \<times> int \<Rightarrow> bool" where
  "near p \<longleftrightarrow> \<bar>fst p\<bar> \<le> 2 ^ 40 \<and> \<bar>snd p\<bar> \<le> 2 ^ 40"

text \<open>A drag that began at \<open>p\<close>, with the options at \<open>o\<close> and the legend at \<open>t\<close>.\<close>

definition dragging_from :: "int \<times> int \<Rightarrow> int \<times> int \<Rightarrow> int \<times> int \<Rightarrow> drag_state \<Rightarrow> bool" where
  "dragging_from p q t st \<longleftrightarrow> isDragging st \<and>
     downX st = num_of_int (fst p) \<and> downY st = num_of_int (snd p) \<and>
     optionsX st = num_of_int (fst q) \<and> optionsY st = num_of_int (snd q) \<and>
     currentX st = num_of_int (fst t) \<and> currentY st = num_of_int (snd t)"

lemma pixel_chart_options [simp]:
  "pixel_chart c (opts\<lparr>opt_x := x, opt_y := y\<rparr>) = pixel_chart c opts"
  "anchor_x c (opts\<lparr>opt_x := x, opt_y := y\<rparr>) = anchor_x c opts"
  "anchor_y c (opts\<lparr>opt_x := x, opt_y := y\<rparr>) = anchor_y c opts"
  "legend_size c (opts\<lparr>opt_x := x, opt_y := y\<rparr>) = legend_size c opts"
  by (simp_all add: pixel_chart_def anchor_x_def anchor_y_def legend_size_def)

lemma align_legend_size:
  "align_legend c st = st\<lparr>translate_x := aligned_x (spacing_box c) (legend_opts st) (fst (legend_size c (legend_opts st))),
     translate_y := aligned_y (spacing_box c) (legend_opts st) (snd (legend_size c (legend_opts st))),
     animated := placed st, placed := True\<rparr>"
  by (simp add: align_legend_def legend_size_def Let_def)

lemma inside_pixel:
  assumes "pixel_chart c opts" and "dragging_from p q t st" and "near t" and "\<bar>dx\<bar> \<le> 2 ^ 42" and "\<bar>dy\<bar> \<le> 2 ^ 42"
  shows "inside c st (num_of_int dx) (num_of_int dy) \<longleftrightarrow> box_fits c (fst t + dx) (snd t + dy)"
proof -
  from assms(1) obtain w h W H where "legend_width c = num_of_int w" "\<bar>w\<bar> \<le> 2 ^ 40"
      "legend_height c = num_of_int h" "\<bar>h\<bar> \<le> 2 ^ 40"
      "chart_width c = num_of_int W" "chart_height c = num_of_int H"
    unfolding pixel_chart_def by (metis pixelE)
  moreover have "\<bar>fst t\<bar> \<le> 2 ^ 40" "\<bar>snd t\<bar> \<le> 2 ^ 40" using assms(3) by (simp_all add: near_def)
  moreover have "currentX st = num_of_int (fst t)" "currentY st = num_of_int (snd t)"
    using assms(2) by (simp_all add: dragging_from_def)
  ultimately show ?thesis
    using assms(4,5) by (simp add: inside_def box_fits_def del: of_int_add of_int_diff)
qed

lemma mouse_move_pixel:
  assumes "pixel_chart c (legend_opts st)" and "dragging_from p q t st" and "near p" "near q" "near t" "near m"
  defines "st' \<equiv> drag_step c st (move_to m)"
  defines "d \<equiv> (fst m - fst p, snd m - snd p)"
  shows "dragging_from p q t st'"
    and "legend_opts st' = (legend_opts st)\<lparr>opt_x := num_of_int (fst q + fst d), opt_y := num_of_int (snd q + snd d)\<rparr>"
    and "(translate_x st', translate_y st') =
      (if box_fits c (fst t + fst d) (snd t + snd d)
       then (num_of_int (anchor_x c (legend_opts st) + (fst q + fst d)),
             num_of_int (anchor_y c (legend_opts st) + (snd q + snd d)))
       else (translate_x st, translate_y st))"
    and "selection_marker st' = False" and "animated st' \<longrightarrow> animated st"
proof -
  let ?opts = "(legend_opts st)\<lparr>opt_x := num_of_int (fst q + fst d), opt_y := num_of_int (snd q + snd d)\<rparr>"
  let ?st1 = "st\<lparr>legend_opts := ?opts\<rparr>"
  have b: "\<bar>fst d\<bar> \<le> 2 ^ 41" "\<bar>snd d\<bar> \<le> 2 ^ 41" using assms(3,6) by (auto simp: d_def near_def)
  have step: "st' = (if box_fits c (fst t + fst d) (snd t + snd d)
      then align_legend c (?st1\<lparr>placed := False\<rparr>) else ?st1)\<lparr>selection_marker := False\<rparr>"
  proof -
    have "dragging_from p q t ?st1" using assms(2) by (simp add: dragging_from_def)
    then have "inside c ?st1 (num_of_int (fst d)) (num_of_int (snd d)) \<longleftrightarrow> box_fits c (fst t + fst d) (snd t + snd d)"
      using b assms(1,5) by (intro inside_pixel [of c "legend_opts st"]) auto
    moreover have "draggable c" using assms(1) by (simp add: pixel_chart_def)
    moreover have "\<bar>fst m - fst p\<bar> \<le> 2 ^ 41" "\<bar>snd m - snd p\<bar> \<le> 2 ^ 41"
      "\<bar>fst q\<bar> \<le> 2 ^ 40" "\<bar>snd q\<bar> \<le> 2 ^ 40" using assms(4) b by (simp_all add: d_def near_def)
    ultimately show ?thesis
      using assms(2) unfolding st'_def d_def
      by (simp add: drag_step_def move_to_def mouse_move_def dragging_from_def del: of_int_add of_int_diff)
  qed
  have "\<bar>fst q + fst d\<bar> \<le> 2 ^ 50" "\<bar>snd q + snd d\<bar> \<le> 2 ^ 50" using b assms(4) by (auto simp: near_def)
  then have al: "aligned_x (spacing_box c) ?opts (fst (legend_size c ?opts)) = num_of_int (anchor_x c ?opts + (fst q + fst d))"
     "aligned_y (spacing_box c) ?opts (snd (legend_size c ?opts)) = num_of_int (anchor_y c ?opts + (snd q + snd d))"
    using assms(1) by (intro aligned_x_pixel aligned_y_pixel; simp)+
  show "dragging_from p q t st'" "legend_opts st' = ?opts" "selection_marker st' = False"
    "animated st' \<longrightarrow> animated st"
    using assms(2) by (auto simp: step dragging_from_def align_legend_size)
  show "(translate_x st', translate_y st') =
      (if box_fits c (fst t + fst d) (snd t + snd d)
       then (num_of_int (anchor_x c (legend_opts st) + (fst q + fst d)),
             num_of_int (anchor_y c (legend_opts st) + (snd q + snd d)))
       else (translate_x st, translate_y st))"
    using al by (simp add: step align_legend_size del: of_int_add of_int_diff)
qed

definition fitting :: "chart_box \<Rightarrow> int \<times> int \<Rightarrow> int \<times> int \<Rightarrow> (int \<times> int) list \<Rightarrow> (int \<times> int) list" where
  "fitting c t p ms = filter (\<lambda>m. box_fits c (fst t + fst m - fst p) (snd t + snd m - snd p)) ms"

lemma drag_run_pixel:
  assumes "pixel_chart c (legend_opts st)" and "dragging_from p q t st" and "near p" "near q" "near t"
    and "\<forall>m \<in> set ms. near m"
  defines "st' \<equiv> drag_run c st (map move_to ms)"
  shows "dragging_from p q t st' \<and>
    legend_opts st' = (if ms = [] then legend_opts st
      else (legend_opts st)\<lparr>opt_x := num_of_int (fst q + fst (last ms) - fst p),
                            opt_y := num_of_int (snd q + snd (last ms) - snd p)\<rparr>) \<and>
    (translate_x st', translate_y st') = (let seen = fitting c t p ms in
      if seen = [] then (translate_x st, translate_y st)
      else (num_of_int (anchor_x c (legend_opts st) + fst q + fst (last seen) - fst p),
            num_of_int (anchor_y c (legend_opts st) + snd q + snd (last seen) - snd p)))"
  unfolding st'_def using assms(6)
proof (induction ms rule: rev_induct)
  case Nil
  then show ?case using assms(2) by (simp add: drag_run_def fitting_def)
next
  case (snoc m ms)
  let ?s = "drag_run c st (map move_to ms)"
  have ih: "dragging_from p q t ?s"
    "legend_opts ?s = (if ms = [] then legend_opts st
      else (legend_opts st)\<lparr>opt_x := num_of_int (fst q + fst (last ms) - fst p),
                            opt_y := num_of_int (snd q + snd (last ms) - snd p)\<rparr>)"
    "(translate_x ?s, translate_y ?s) = (let seen = fitting c t p ms in
      if seen = [] then (translate_x st, translate_y st)
      else (num_of_int (anchor_x c (legend_opts st) + fst q + fst (last seen) - fst p),
            num_of_int (anchor_y c (legend_opts st) + snd q + snd (last seen) - snd p)))"
    using snoc by simp_all
  have same: "pixel_chart c (legend_opts ?s)" "anchor_x c (legend_opts ?s) = anchor_x c (legend_opts st)"
    "anchor_y c (legend_opts ?s) = anchor_y c (legend_opts st)"
    using assms(1) ih(2) by simp_all
  have "near m" using snoc.prems by simp
  note move = mouse_move_pixel [OF same(1) ih(1) assms(3,4,5) this]
  show ?case
  proof (intro conjI)
    show "dragging_from p q t (drag_run c st (map move_to (ms @ [m])))"
      using move(1) by (simp add: drag_run_def)
    show "legend_opts (drag_run c st (map move_to (ms @ [m]))) =
        (if ms @ [m] = [] then legend_opts st
         else (legend_opts st)\<lparr>opt_x := num_of_int (fst q + fst (last (ms @ [m])) - fst p),
                               opt_y := num_of_int (snd q + snd (last (ms @ [m])) - snd p)\<rparr>)"
      using move(2) ih(2) by (simp add: drag_run_def algebra_simps)
    show "(translate_x (drag_run c st (map move_to (ms @ [m]))), translate_y (drag_run c st (map move_to (ms @ [m])))) =
      (let seen = fitting c t p (ms @ [m]) in
        if seen = [] then (translate_x st, translate_y st)
        else (num_of_int (anchor_x c (legend_opts st) + fst q + fst (last seen) - fst p),
              num_of_int (anchor_y c (legend_opts st) + snd q + snd (last seen) - snd p)))"
      using move(3) ih(3) same(2,3)
      by (simp add: drag_run_def fitting_def Let_def algebra_simps)
  qed
qed

text \<open>A whole drag: the button goes down at \<open>p\<close>, the pointer moves, the button goes up.\<close>

definition drag_events :: "int \<times> int \<Rightarrow> (int \<times> int) list \<Rightarrow> pointer_event list" where
  "drag_events p ms = press p # map move_to ms @ [MouseUp]"

lemma drag_result:
  assumes "pixel_chart c (legend_opts st)" and "near p" "near q" "near t" and "\<forall>m \<in> set ms. near m"
    and "opt_x (legend_opts st) = num_of_int (fst q)" "opt_y (legend_opts st) = num_of_int (snd q)"
    and "translate_x st = num_of_int (fst t)" "translate_y st = num_of_int (snd t)"
  defines "st' \<equiv> drag_run c st (drag_events p ms)"
  shows "\<not> isDragging st'"
    and "legend_opts st' = (if ms = [] then legend_opts st
      else (legend_opts st)\<lparr>opt_x := num_of_int (fst q + fst (last ms) - fst p),
                            opt_y := num_of_int (snd q + snd (last ms) - snd p)\<rparr>)"
    and "(translate_x st', translate_y st') = (let seen = fitting c t p ms in
      if seen = [] then (num_of_int (fst t), num_of_int (snd t))
      else (num_of_int (anchor_x c (legend_opts st) + fst q + fst (last seen) - fst p),
            num_of_int (anchor_y c (legend_opts st) + snd q + snd (last seen) - snd p)))"
proof -
  have on: "draggable c" using assms(1) by (simp add: pixel_chart_def)
  let ?s = "drag_step c st (press p)"
  have s: "dragging_from p q t ?s" "legend_opts ?s = legend_opts st"
    "translate_x ?s = translate_x st" "translate_y ?s = translate_y st"
    using on assms(6-9) by (simp_all add: drag_step_def press_def mouse_down_def dragging_from_def)
  have st': "st' = drag_step c (drag_run c ?s (map move_to ms)) MouseUp"
    by (simp add: st'_def drag_run_def drag_events_def)
  have up: "drag_step c s1 MouseUp = s1\<lparr>isDragging := False\<rparr>" for s1
    using on by (simp add: drag_step_def)
  have same: "translate_x (s1\<lparr>isDragging := False\<rparr>) = translate_x s1"
    "translate_y (s1\<lparr>isDragging := False\<rparr>) = translate_y s1" for s1 by simp_all
  note run = drag_run_pixel [OF assms(1) [folded s(2)] s(1) assms(2-5)]
  show "\<not> isDragging st'" by (simp add: st' up)
  show "legend_opts st' = (if ms = [] then legend_opts st
      else (legend_opts st)\<lparr>opt_x := num_of_int (fst q + fst (last ms) - fst p),
                            opt_y := num_of_int (snd q + snd (last ms) - snd p)\<rparr>)"
    using run by (simp add: st' up s)
  show "(translate_x st', translate_y st') = (let seen = fitting c t p ms in
      if seen = [] then (num_of_int (fst t), num_of_int (snd t))
      else (num_of_int (anchor_x c (legend_opts st) + fst q + fst (last seen) - fst p),
            num_of_int (anchor_y c (legend_opts st) + snd q + snd (last seen) - snd p)))"
    using conjunct2 [OF conjunct2 [OF run]] by (simp only: st' up s(2-4) assms(8,9) same)
qed

lemma drift_pixel:
  assumes "pixel_chart c (legend_opts st)" and "near q"
    and "opt_x (legend_opts st) = num_of_int (fst q)" "opt_y (legend_opts st) = num_of_int (snd q)"
  shows "drift c st = (anchor_x c (legend_opts st) + fst q - px (translate_x st),
                       anchor_y c (legend_opts st) + snd q - px (translate_y st))"
proof -
  have "\<bar>fst q\<bar> \<le> 2 ^ 50" "\<bar>snd q\<bar> \<le> 2 ^ 50" using assms(2) by (auto simp: near_def)
  then show ?thesis
    using aligned_x_pixel [OF assms(1,3)] aligned_y_pixel [OF assms(1,4)]
    by (simp add: drift_def case_prod_beta del: of_int_add of_int_diff)
qed

text \<open>
  C9: dragging the legend. The options end where the pointer did, relative to where the button went
  down. The box ends at the last place of the drag at which it fits into the chart, shifted by how
  far the options and the box were apart before; when they agreed, the box is inside the chart.
\<close>

theorem drag_follows_pointer:
  assumes "pixel_chart c (legend_opts st)" and "pixel_state st" and "near p" and "\<forall>m \<in> set ms. near m" and "ms \<noteq> []"
  defines "st' \<equiv> drag_run c st (drag_events p ms)"
    and "seen \<equiv> fitting c (px (translate_x st), px (translate_y st)) p ms"
  shows "opt_x (legend_opts st') = num_of_int (px (opt_x (legend_opts st)) + fst (last ms) - fst p) \<and>
    opt_y (legend_opts st') = num_of_int (px (opt_y (legend_opts st)) + snd (last ms) - snd p) \<and>
    h_align (legend_opts st') = h_align (legend_opts st) \<and> v_align (legend_opts st') = v_align (legend_opts st) \<and>
    (seen = [] \<longrightarrow> translate_x st' = translate_x st \<and> translate_y st' = translate_y st) \<and>
    (seen \<noteq> [] \<longrightarrow>
       translate_x st' = num_of_int (px (translate_x st) + fst (last seen) - fst p + fst (drift c st)) \<and>
       translate_y st' = num_of_int (px (translate_y st) + snd (last seen) - snd p + snd (drift c st))) \<and>
    (seen \<noteq> [] \<and> drift c st = (0, 0) \<longrightarrow> box_fits c (px (translate_x st')) (px (translate_y st')))"
proof -
  obtain qx qy tx ty where o: "opt_x (legend_opts st) = num_of_int qx" "opt_y (legend_opts st) = num_of_int qy"
      "translate_x st = num_of_int tx" "translate_y st = num_of_int ty" and n: "near (qx, qy)" "near (tx, ty)"
    using assms(2) unfolding pixel_state_def near_def by (metis fst_conv pixelE snd_conv)
  have res: "legend_opts st' = (legend_opts st)\<lparr>opt_x := num_of_int (qx + fst (last ms) - fst p),
                                  opt_y := num_of_int (qy + snd (last ms) - snd p)\<rparr>"
    "(translate_x st', translate_y st') = (if seen = [] then (num_of_int tx, num_of_int ty)
      else (num_of_int (anchor_x c (legend_opts st) + qx + fst (last seen) - fst p),
            num_of_int (anchor_y c (legend_opts st) + qy + snd (last seen) - snd p)))"
    using drag_result [OF assms(1,3) n assms(4)] o assms(5)
    by (simp_all add: st'_def seen_def Let_def del: of_int_add of_int_diff)
  have dr: "drift c st = (anchor_x c (legend_opts st) + qx - tx, anchor_y c (legend_opts st) + qy - ty)"
    using drift_pixel [OF assms(1) n(1)] o by simp
  have fit: "box_fits c (tx + fst (last seen) - fst p) (ty + snd (last seen) - snd p)" if "seen \<noteq> []"
    using last_in_set [OF that] o unfolding seen_def fitting_def by simp
  show ?thesis
  proof (cases "seen = []")
    case True
    then show ?thesis using res o by (simp del: of_int_add of_int_diff)
  next
    case False
    then show ?thesis using res o dr fit by (auto simp: algebra_simps simp del: of_int_add of_int_diff)
  qed
qed

text \<open>
  The legend of theme.js on a chart of 800 by 400 pixels: 120 by 80 pixels, 20 from the right and
  the top of the spacing box.
\<close>

definition theme_chart :: chart_box where
  "theme_chart = \<lparr>chart_width = num_of_int 800, chart_height = num_of_int 400,
     spacing_box = \<lparr>rect_x = num_of_int 10, rect_y = num_of_int 10, rect_width = num_of_int 780, rect_height = num_of_int 375\<rparr>,
     legend_width = num_of_int 120, legend_height = num_of_int 80, draggable = True\<rparr>"

definition theme_legend :: drag_state where
  "theme_legend = drag_init \<lparr>h_align = ''right'', v_align = ''top'', opt_x = num_of_int (- 20), opt_y = num_of_int 20,
     opt_width = None, opt_height = None\<rparr> (num_of_int 650) (num_of_int 30)"

lemmas theme_legend_defs = theme_chart_def theme_legend_def drag_init_def

lemma theme_legend_pixel:
  "pixel_chart theme_chart (legend_opts theme_legend)" "pixel_state theme_legend" "drift theme_chart theme_legend = (0, 0)"
proof -
  show c: "pixel_chart theme_chart (legend_opts theme_legend)" and "pixel_state theme_legend"
    by (simp_all add: theme_legend_defs pixel_chart_def pixel_state_def legend_size_def pixel_def)
  have "anchor_x theme_chart (legend_opts theme_legend) = 670" "anchor_y theme_chart (legend_opts theme_legend) = 10"
    by (simp_all add: theme_legend_defs anchor_x_def anchor_y_def legend_size_def px_def)
  then show "drift theme_chart theme_legend = (0, 0)"
    using drift_pixel [OF c, of "(- 20, 20)"] by (simp add: theme_legend_defs near_def px_def)
qed

theorem drag_follows_pointer_witness:
  "opt_x (legend_opts (drag_run theme_chart theme_legend (drag_events (700, 50) [(600, 60), (500, 100), (5, 100)]))) = num_of_int (- 715) \<and>
   translate_x (drag_run theme_chart theme_legend (drag_events (700, 50) [(600, 60), (500, 100), (5, 100)])) = num_of_int 450 \<and>
   translate_y (drag_run theme_chart theme_legend (drag_events (700, 50) [(600, 60), (500, 100), (5, 100)])) = num_of_int 80"
proof -
  have at: "px (translate_x theme_legend) = 650" "px (translate_y theme_legend) = 30" "px (opt_x (legend_opts theme_legend)) = - 20"
    by (simp_all add: theme_legend_defs px_def)
  have seen: "fitting theme_chart (650, 30) (700, 50) [(600, 60), (500, 100), (5, 100)] = [(600, 60), (500, 100)]"
    by (simp add: fitting_def box_fits_def theme_chart_def px_def)
  have "near (700, 50)" "\<forall>m \<in> set [(600, 60), (500, 100), (5, 100)]. near m" by (simp_all add: near_def)
  from drag_follows_pointer [OF theme_legend_pixel(1,2) this] show ?thesis
    by (simp add: at seen theme_legend_pixel(3))
qed

text \<open>
  A drag that ends outside the chart leaves the options behind: the next drag, ten pixels to the
  left from a box that is inside, puts the box fifty pixels outside the chart.
\<close>

theorem overshoot_leaves_chart:
  "box_fits theme_chart (px (translate_x (drag_run theme_chart theme_legend (drag_events (700, 50) [(100, 50), (10, 50)])))) 30 \<and>
   translate_x (drag_run theme_chart theme_legend
     (drag_events (700, 50) [(100, 50), (10, 50)] @ drag_events (100, 50) [(90, 50)])) = num_of_int (- 50)"
proof -
  let ?s = "drag_run theme_chart theme_legend (drag_events (700, 50) [(100, 50), (10, 50)])"
  have n: "near (700, 50)" "near (- 20, 20)" "near (650, 30)" "\<forall>m \<in> set [(100, 50), (10, 50)]. near m"
     "near (100, 50)" "near (- 710, 20)" "near (50, 30)" "\<forall>m \<in> set [(90, 50)]. near m"
    by (simp_all add: near_def)
  have seen: "fitting theme_chart (650, 30) (700, 50) [(100, 50), (10, 50)] = [(100, 50)]"
     "fitting theme_chart (50, 30) (100, 50) [(90, 50)] = [(90, 50)]"
    by (simp_all add: fitting_def box_fits_def theme_chart_def px_def)
  have a: "anchor_x theme_chart (legend_opts theme_legend) = 670" "anchor_y theme_chart (legend_opts theme_legend) = 10"
    by (simp_all add: theme_legend_defs anchor_x_def anchor_y_def legend_size_def px_def)
  note one = drag_result [OF theme_legend_pixel(1) n(1-4)]
  have s: "legend_opts ?s = (legend_opts theme_legend)\<lparr>opt_x := num_of_int (- 710), opt_y := num_of_int 20\<rparr>"
    "translate_x ?s = num_of_int 50" "translate_y ?s = num_of_int 30"
    using one(2,3) by (simp_all add: seen a) (simp_all add: theme_legend_defs)
  have c: "pixel_chart theme_chart (legend_opts ?s)" using theme_legend_pixel(1) by (simp add: s)
  have "translate_x (drag_run theme_chart ?s (drag_events (100, 50) [(90, 50)])) = num_of_int (- 50)"
    using drag_result(3) [OF c n(5-8)] by (simp add: s seen a)
  moreover have "box_fits theme_chart 50 30" by (simp add: box_fits_def theme_chart_def px_def)
  ultimately show ?thesis using s(2) by (simp add: drag_run_def px_def)
qed

end
