(* ===== verification/Lib_Color_Axis.thy ===== *)
theory Lib_Color_Axis
  imports JS_Math JS_String JS_Value
begin

text \<open>
  The color axis of heat maps (modules/heatmap.src.js) and its copy for gauges
  (modules/solid-gauge.src.js): the colours of the core of the library, gradients between stops,
  data classes, the colours of points and the legend. The conversion of a logarithmic axis and the
  number format of the legend are arguments.
\<close>

section \<open>Colours\<close>

text \<open>
  \<open>Color(text).rgba\<close>: the three forms are searched for anywhere in the text, one after the other;
  a text with none of them has no channels.
\<close>

type_synonym rgba = "jsnum list"

fun first_match :: "(string \<Rightarrow> 'a option) \<Rightarrow> string \<Rightarrow> 'a option" where
  "first_match r s = (case r s of Some x \<Rightarrow> Some x
     | None \<Rightarrow> (case s of [] \<Rightarrow> None | _ # t \<Rightarrow> first_match r t))"

definition literal :: "string \<Rightarrow> string \<Rightarrow> string option" where
  "literal p s = (if take (length p) s = p then Some (drop (length p) s) else None)"

text \<open>\<open>\s*([0-9]{1,3})\s*\<close>.\<close>

definition spaced_digits :: "string \<Rightarrow> (string \<times> string) option" where
  "spaced_digits s = (let t = dropWhile is_ws s; ds = take 3 (takeWhile is_digit t) in
     if ds = [] then None else Some (ds, dropWhile is_ws (drop (length ds) t)))"

text \<open>\<open>\s*([0-9]?(?:\.[0-9]+)?)\s*\<close>.\<close>

definition spaced_alpha :: "string \<Rightarrow> string \<times> string" where
  "spaced_alpha s = (let t = dropWhile is_ws s; d = take 1 (takeWhile is_digit t); u = drop (length d) t;
       frac = (case u of c # v \<Rightarrow> if c = CHR ''.'' then takeWhile is_digit v else [] | [] \<Rightarrow> []);
       a = (if frac = [] then d else d @ ''.'' @ frac) in
     (a, dropWhile is_ws (drop (length a) t)))"

definition after_comma :: "(string \<Rightarrow> 'a option) \<Rightarrow> string \<Rightarrow> 'a option" where
  "after_comma r s = Option.bind (literal '','' s) r"

definition match_rgba :: "string \<Rightarrow> rgba option" where
  "match_rgba s = Option.bind (literal ''rgba('' s) (\<lambda>s0. Option.bind (spaced_digits s0) (\<lambda>(r, s1).
     Option.bind (after_comma spaced_digits s1) (\<lambda>(g, s2). Option.bind (after_comma spaced_digits s2) (\<lambda>(b, s3).
     Option.bind (after_comma (Some \<circ> spaced_alpha) s3) (\<lambda>(a, s4). Option.bind (literal '')'' s4) (\<lambda>_.
       Some [parse_int 10 r, parse_int 10 g, parse_int 10 b, parse_float a]))))))"

definition hex_pair :: "string \<Rightarrow> (string \<times> string) option" where
  "hex_pair s = (case s of a # b # t \<Rightarrow> if is_digit_in 16 a \<and> is_digit_in 16 b then Some ([a, b], t) else None
     | _ \<Rightarrow> None)"

definition match_hex :: "string \<Rightarrow> rgba option" where
  "match_hex s = Option.bind (literal ''#'' s) (\<lambda>s0. Option.bind (hex_pair s0) (\<lambda>(r, s1).
     Option.bind (hex_pair s1) (\<lambda>(g, s2). Option.bind (hex_pair s2) (\<lambda>(b, _).
       Some [parse_int 16 r, parse_int 16 g, parse_int 16 b, num_of_int 1]))))"

definition match_rgb :: "string \<Rightarrow> rgba option" where
  "match_rgb s = Option.bind (literal ''rgb('' s) (\<lambda>s0. Option.bind (spaced_digits s0) (\<lambda>(r, s1).
     Option.bind (after_comma spaced_digits s1) (\<lambda>(g, s2). Option.bind (after_comma spaced_digits s2) (\<lambda>(b, s3).
     Option.bind (literal '')'' s3) (\<lambda>_.
       Some [parse_int 10 r, parse_int 10 g, parse_int 10 b, num_of_int 1])))))"

definition color_rgba :: "string \<Rightarrow> rgba" where
  "color_rgba s = (case first_match match_rgba s of Some c \<Rightarrow> c
     | None \<Rightarrow> (case first_match match_hex s of Some c \<Rightarrow> c
       | None \<Rightarrow> (case first_match match_rgb s of Some c \<Rightarrow> c | None \<Rightarrow> [])))"

section \<open>Intermediate colours\<close>

text \<open>An absent channel is \<open>undefined\<close>, which in arithmetic is not a number.\<close>

definition channel :: "rgba \<Rightarrow> nat \<Rightarrow> jsnum" where
  "channel c i = (if i < length c then c ! i else NaN)"

definition blend :: "rgba \<Rightarrow> rgba \<Rightarrow> jsnum \<Rightarrow> nat \<Rightarrow> jsnum" where
  "blend from to pos i = js_add (channel to i)
     (js_mul (js_sub (channel from i) (channel to i)) (js_sub (num_of_int 1) pos))"

definition has_alpha :: "rgba \<Rightarrow> rgba \<Rightarrow> bool" where
  "has_alpha from to \<longleftrightarrow> \<not> num_eq (channel to 3) (num_of_int 1) \<or> \<not> num_eq (channel from 3) (num_of_int 1)"

definition tweenColors :: "rgba \<Rightarrow> rgba \<Rightarrow> jsnum \<Rightarrow> string" where
  "tweenColors from to pos =
     (if has_alpha from to then ''rgba('' else ''rgb('') @
     num_to_string (math_round (blend from to pos 0)) @ '','' @
     num_to_string (math_round (blend from to pos 1)) @ '','' @
     num_to_string (math_round (blend from to pos 2)) @
     (if has_alpha from to then '','' @ num_to_string (blend from to pos 3) else '''') @ '')''"

text \<open>The copy for gauges first looks whether both colours have channels.\<close>

definition gauge_tweenColors :: "rgba \<Rightarrow> rgba \<Rightarrow> jsnum \<Rightarrow> string" where
  "gauge_tweenColors from to pos = (if from = [] \<or> to = [] then ''none'' else tweenColors from to pos)"

section \<open>Data classes and stops\<close>

record data_class =
  class_from :: "jsnum option"
  class_to :: "jsnum option"
  class_color :: "string option"
  class_name :: "string option"

record axis_options =
  dataClassColor :: string
  minColor :: string
  maxColor :: string
  stops_option :: "(jsnum \<times> string) list option"
  dataClasses :: "data_class list option"

definition colorless :: "data_class \<Rightarrow> bool" where
  "colorless dc \<longleftrightarrow> class_color dc = None \<or> class_color dc = Some ''''"

text \<open>
  One class: a class without a colour takes the next of the chart's colours, or a place on the
  gradient. The counter goes back to zero at the end of the colours.
\<close>

definition color_class ::
  "axis_options \<Rightarrow> string list \<Rightarrow> (nat \<Rightarrow> string) \<Rightarrow> nat \<times> data_class list \<Rightarrow> data_class \<Rightarrow> nat \<times> data_class list" where
  "color_class opts colors place acc dc = (case acc of (colorCounter, done_classes) \<Rightarrow>
     if \<not> colorless dc then (colorCounter, done_classes @ [dc])
     else if dataClassColor opts = ''category'' then
       (if colorCounter + 1 = length colors then 0 else colorCounter + 1,
        done_classes @ [dc\<lparr>class_color := if colorCounter < length colors then Some (colors ! colorCounter) else None\<rparr>])
     else (colorCounter, done_classes @ [dc\<lparr>class_color := Some (place (length done_classes))\<rparr>]))"

definition initDataClasses :: "axis_options \<Rightarrow> string list \<Rightarrow> data_class list \<Rightarrow> data_class list" where
  "initDataClasses opts colors dcs = (let len = length dcs in
     snd (foldl (color_class opts colors (\<lambda>i.
       tweenColors (color_rgba (minColor opts)) (color_rgba (maxColor opts))
         (if len < 2 then Fin (1 / 2) else js_div (num_of_int (int i)) (num_of_int (int len - 1))))) (0, []) dcs))"

definition gauge_initDataClasses :: "axis_options \<Rightarrow> string list \<Rightarrow> data_class list \<Rightarrow> data_class list" where
  "gauge_initDataClasses opts colors dcs =
     snd (foldl (color_class opts colors (\<lambda>i.
       gauge_tweenColors (color_rgba (minColor opts)) (color_rgba (maxColor opts))
         (js_div (num_of_int (int i)) (num_of_int (int (length dcs) - 1))))) (0, []) dcs)"

type_synonym stop = "jsnum \<times> rgba"

definition initStops :: "axis_options \<Rightarrow> stop list" where
  "initStops opts = map (\<lambda>(pos, c). (pos, color_rgba c))
     (case stops_option opts of Some ss \<Rightarrow> ss
      | None \<Rightarrow> [(num_of_int 0, minColor opts), (num_of_int 1, maxColor opts)])"

record color_axis =
  axis_classes :: "data_class list option"
  axis_stops :: "stop list"
  axis_min :: jsnum
  axis_max :: jsnum
  val2lin :: "(jsnum \<Rightarrow> jsnum) option"

text \<open>The axis after \<open>init\<close>; its extremes are those of the data, set later.\<close>

definition new_color_axis :: "axis_options \<Rightarrow> string list \<Rightarrow> (jsnum \<Rightarrow> jsnum) option \<Rightarrow> color_axis" where
  "new_color_axis opts colors lin = \<lparr>
     axis_classes = map_option (initDataClasses opts colors) (dataClasses opts),
     axis_stops = initStops opts, axis_min = NaN, axis_max = NaN, val2lin = lin\<rparr>"

definition new_gauge_axis :: "axis_options \<Rightarrow> string list \<Rightarrow> (jsnum \<Rightarrow> jsnum) option \<Rightarrow> color_axis" where
  "new_gauge_axis opts colors lin = \<lparr>
     axis_classes = map_option (gauge_initDataClasses opts colors) (dataClasses opts),
     axis_stops = initStops opts, axis_min = NaN, axis_max = NaN, val2lin = lin\<rparr>"

section \<open>From a value to a colour\<close>

definition in_class :: "jsnum \<Rightarrow> data_class \<Rightarrow> bool" where
  "in_class value dc \<longleftrightarrow>
     (case class_from dc of None \<Rightarrow> True | Some f \<Rightarrow> num_le f value) \<and>
     (case class_to dc of None \<Rightarrow> True | Some t \<Rightarrow> num_le value t)"

text \<open>The two loops run down from the length of the list to the first hit.\<close>

fun class_loop :: "jsnum \<Rightarrow> data_class list \<Rightarrow> nat \<Rightarrow> nat option" where
  "class_loop value dcs 0 = None"
| "class_loop value dcs (Suc i) = (if in_class value (dcs ! i) then Some i else class_loop value dcs i)"

fun stop_loop :: "jsnum \<Rightarrow> stop list \<Rightarrow> nat \<Rightarrow> nat option" where
  "stop_loop pos stops 0 = None"
| "stop_loop pos stops (Suc i) = (if num_lt (fst (stops ! i)) pos then Some i else stop_loop pos stops i)"

text \<open>
  The colour at a place of the gradient; an empty list of stops has no element to read a place of.
\<close>

definition gradient_color :: "(rgba \<Rightarrow> rgba \<Rightarrow> jsnum \<Rightarrow> string) \<Rightarrow> stop list \<Rightarrow> jsnum \<Rightarrow> string res" where
  "gradient_color tween stops pos =
     (if stops = [] then Inl TypeError
      else (let i = stop_loop pos stops (length stops);
                from = stops ! (case i of Some k \<Rightarrow> k | None \<Rightarrow> 0);
                next_i = (case i of Some k \<Rightarrow> Suc k | None \<Rightarrow> 0);
                to = (if next_i < length stops then stops ! next_i else from);
                at_pos = js_sub (num_of_int 1) (js_div (js_sub (fst to) pos) (or_one (js_sub (fst to) (fst from))))
            in Inr (tween (snd from) (snd to) at_pos)))"

definition linear_value :: "color_axis \<Rightarrow> jsnum \<Rightarrow> jsnum" where
  "linear_value ax value = (case val2lin ax of Some f \<Rightarrow> f value | None \<Rightarrow> value)"

definition class_choice :: "jsnum \<Rightarrow> data_class list \<Rightarrow> string option \<times> nat option" where
  "class_choice value dcs = (case class_loop value dcs (length dcs) of
     Some i \<Rightarrow> (class_color (dcs ! i), Some i) | None \<Rightarrow> (None, None))"

text \<open>The colour, if any, and the data class noted in the point.\<close>

definition toColor :: "color_axis \<Rightarrow> jsnum \<Rightarrow> (string option \<times> nat option) res" where
  "toColor ax value = (case axis_classes ax of
     Some dcs \<Rightarrow> Inr (class_choice value dcs)
   | None \<Rightarrow>
      bind_res (gradient_color tweenColors (axis_stops ax)
        (js_sub (num_of_int 1) (js_div (js_sub (axis_max ax) (linear_value ax value))
          (or_one (js_sub (axis_max ax) (axis_min ax)))))) (\<lambda>c. Inr (Some c, None)))"

definition gauge_toColor :: "color_axis \<Rightarrow> jsnum \<Rightarrow> (string option \<times> nat option) res" where
  "gauge_toColor ax value = (case axis_classes ax of
     Some dcs \<Rightarrow> Inr (class_choice value dcs)
   | None \<Rightarrow>
      bind_res (gradient_color gauge_tweenColors (axis_stops ax)
        (js_sub (num_of_int 1) (js_div (js_sub (axis_max ax) (linear_value ax value))
          (js_sub (axis_max ax) (axis_min ax))))) (\<lambda>c. Inr (Some c, None)))"

section \<open>The points of a series\<close>

datatype point_value = NullValue | NoValue | NumValue jsnum

record color_point =
  point_value :: point_value
  point_color :: "string option"
  point_class :: "nat option"
  point_visible :: bool

definition set_color :: "color_point \<Rightarrow> string option \<Rightarrow> color_point" where
  "set_color pt c = (case c of Some s \<Rightarrow> if s = '''' then pt else pt\<lparr>point_color := Some s\<rparr> | None \<Rightarrow> pt)"

definition own_or :: "string option \<Rightarrow> string option \<Rightarrow> string option" where
  "own_or a b = (case a of Some s \<Rightarrow> if s = '''' then b else a | None \<Rightarrow> b)"

definition translate_point :: "string option \<Rightarrow> string option \<Rightarrow> color_axis option \<Rightarrow> color_point \<Rightarrow> color_point res" where
  "translate_point nullColor series_color axis pt = (case (point_value pt, axis) of
     (NullValue, _) \<Rightarrow> Inr (set_color pt nullColor)
   | (NumValue v, Some ax) \<Rightarrow> bind_res (toColor ax v) (\<lambda>(c, k).
       Inr (set_color (case k of Some i \<Rightarrow> pt\<lparr>point_class := Some i\<rparr> | None \<Rightarrow> pt) c))
   | _ \<Rightarrow> Inr (set_color pt (own_or (point_color pt) series_color)))"

definition translateColors ::
  "string option \<Rightarrow> string option \<Rightarrow> color_axis option \<Rightarrow> color_point list \<Rightarrow> color_point list res" where
  "translateColors nullColor series_color axis = map_res (translate_point nullColor series_color axis)"

section \<open>The legend\<close>

definition legend_gradient :: "bool \<Rightarrow> axis_options \<Rightarrow> (jsnum \<times> jsnum \<times> jsnum \<times> jsnum) \<times> (jsnum \<times> string) list" where
  "legend_gradient horiz opts =
     (let z = num_of_int 0; e = num_of_int 1 in
      (if horiz then (z, z, e, z) else (z, z, z, e),
       case stops_option opts of Some ss \<Rightarrow> ss | None \<Rightarrow> [(z, minColor opts), (e, maxColor opts)]))"

definition pick_num :: "jsnum option \<Rightarrow> int \<Rightarrow> jsnum" where
  "pick_num x d = (case x of Some v \<Rightarrow> v | None \<Rightarrow> num_of_int d)"

record symbol_options =
  symbolWidth :: "jsnum option"
  symbolHeight :: "jsnum option"
  labelPadding :: "jsnum option"
  itemDistance :: "jsnum option"

text \<open>The rectangle of the symbol (x, y, width, height) and the width and height of the item.\<close>

definition drawLegendSymbol ::
  "symbol_options \<Rightarrow> bool \<Rightarrow> jsnum \<Rightarrow> jsnum \<Rightarrow> (jsnum \<times> jsnum \<times> jsnum \<times> jsnum) \<times> jsnum \<times> jsnum" where
  "drawLegendSymbol opts horiz padding baseline =
     (let width = pick_num (symbolWidth opts) (if horiz then 200 else 12);
          height = pick_num (symbolHeight opts) (if horiz then 12 else 200);
          pad = pick_num (labelPadding opts) (if horiz then 16 else 30);
          dist = pick_num (itemDistance opts) 10
      in ((num_of_int 0, js_sub baseline (num_of_int 11), width, height),
          js_add (js_add width padding) (if horiz then dist else pad),
          js_add (js_add height padding) (if horiz then pad else num_of_int 0)))"

text \<open>The name of a class in the legend; \<open>fmt\<close> is \<open>numberFormat\<close> at the legend's decimals.\<close>

definition class_label :: "(jsnum \<Rightarrow> string) \<Rightarrow> string \<Rightarrow> data_class \<Rightarrow> string" where
  "class_label fmt valueSuffix dc =
     (case class_from dc of None \<Rightarrow> ''< '' | Some f \<Rightarrow> (if class_to dc = None then ''> '' else '''') @ fmt f @ valueSuffix) @
     (if class_from dc \<noteq> None \<and> class_to dc \<noteq> None then '' - '' else '''') @
     (case class_to dc of None \<Rightarrow> '''' | Some t \<Rightarrow> fmt t @ valueSuffix)"

record legend_item =
  item_name :: string
  item_color :: "string option"
  item_visible :: bool

definition legend_items :: "(jsnum \<Rightarrow> string) \<Rightarrow> string \<Rightarrow> data_class list \<Rightarrow> legend_item list" where
  "legend_items fmt valueSuffix = map (\<lambda>dc. \<lparr>
     item_name = (case class_name dc of Some n \<Rightarrow> n | None \<Rightarrow> class_label fmt valueSuffix dc),
     item_color = class_color dc, item_visible = True\<rparr>)"

text \<open>\<open>setVisible\<close> of the item of class \<open>i\<close>: its own flag, and the points of the class.\<close>

definition toggle_class :: "nat \<Rightarrow> legend_item list \<times> color_point list \<Rightarrow> legend_item list \<times> color_point list" where
  "toggle_class i st = (case st of (items, pts) \<Rightarrow>
     (let vis = \<not> item_visible (items ! i) in
      (items[i := (items ! i)\<lparr>item_visible := vis\<rparr>],
       map (\<lambda>pt. if point_class pt = Some i then pt\<lparr>point_visible := vis\<rparr> else pt) pts)))"

section \<open>Facts about places and channels\<close>

text \<open>A channel of an intermediate colour lies between the channels it comes from.\<close>

lemma blend_between:
  assumes "channel from i = num_of_int a" "channel to i = num_of_int b"
    and "0 \<le> a" "a \<le> 2 ^ 50" "0 \<le> b" "b \<le> 2 ^ 50" and "unit_interval pos"
  obtains m where "math_round (blend from to pos i) = num_of_int m" and "min a b \<le> m" and "m \<le> max a b"
proof -
  define d where "d = js_sub (Fin 1) pos"
  have d: "unit_interval d" using one_minus_unit [OF assms(7)] by (simp add: d_def)
  define x where "x = a - b"
  have x: "\<bar>x\<bar> \<le> 2 ^ 51" using assms(3-6) by (auto simp: x_def)
  define q where "q = of_int x * rat_of d"
  have q: "min 0 (of_int x) \<le> q" "q \<le> max 0 (of_int x)"
    using d mult_left_le [of "rat_of d" "of_int x"] mult_left_le [of "rat_of d" "- of_int x"]
    by (auto simp: q_def unit_interval_def mult_nonneg_nonneg mult_nonpos_nonneg min_def max_def mult.commute)
  have ex: "rounded (min 0 (of_int x)) = min 0 (of_int x)" "rounded (max 0 (of_int x)) = max 0 (of_int x)"
    using x by (auto simp: min_def max_def)
  have "\<bar>of_int x :: rat\<bar> \<le> of_int (2 ^ 51)" using x by (simp only: of_int_abs [symmetric] of_int_le_iff)
  then have "\<bar>q\<bar> \<le> 2 ^ 51" using q by (auto simp: abs_le_iff min_def max_def split: if_splits)
  then have m: "is_finite (js_mul (num_of_int x) d) \<and> rat_of (js_mul (num_of_int x) d) = rounded q"
    using js_mul_rounded [of "num_of_int x" d 51] d by (simp add: q_def unit_interval_def)
  define p where "p = rat_of (js_mul (num_of_int x) d)"
  have p: "min 0 (of_int x) \<le> p" "p \<le> max 0 (of_int x)"
    using rounded_between [OF ex q] m by (simp_all add: p_def)
  define v where "v = of_int b + p"
  have v: "of_int (min a b) \<le> v" "v \<le> of_int (max a b)"
    using p by (auto simp: v_def x_def min_def max_def split: if_splits)
  have mm: "\<bar>min a b\<bar> \<le> 2 ^ 53" "\<bar>max a b\<bar> \<le> 2 ^ 53" using assms(3-6) by (auto simp: min_def max_def)
  have r: "of_int (min a b) \<le> rounded v \<and> rounded v \<le> of_int (max a b)"
    using mm v by (intro rounded_between) simp_all
  have "(of_int (max a b) :: rat) < overflow" using is_double_of_int [OF mm(2)] by (simp add: abs_less_iff)
  moreover have "0 \<le> rounded v" using r assms(3,5) by (meson min.boundedI of_int_0_le_iff order_trans)
  ultimately have td: "to_double False v = Fin (rounded v)"
    using r v assms(3,5) overflow_pos(1) of_int_0_le_iff [of "min a b", where ?'a = rat]
    by (auto simp: to_double_def Let_def)
  have "js_sub (channel from i) (channel to i) = num_of_int x"
    using x by (simp add: assms(1,2) x_def del: of_int_diff)
  then have "blend from to pos i = Fin (rounded v)"
    using m td by (auto simp: blend_def assms(2) d_def [symmetric] js_add_def v_def p_def)
  moreover have "math_round (Fin (rounded v)) = num_of_int \<lfloor>rounded v + 1 / 2\<rfloor>"
    using \<open>0 \<le> rounded v\<close> by (simp add: math_round_def)
  moreover have "min a b \<le> \<lfloor>rounded v + 1 / 2\<rfloor>" "\<lfloor>rounded v + 1 / 2\<rfloor> \<le> max a b"
    using r by (auto simp: le_floor_iff floor_le_iff)
  ultimately show thesis using that by metis
qed

text \<open>At the end of a step, and between equal colours, the channel is kept.\<close>

lemma blend_end:
  assumes "channel from i = num_of_int a" "channel to i = num_of_int b"
    and "\<bar>a\<bar> \<le> 2 ^ 50" "\<bar>b\<bar> \<le> 2 ^ 50" and "is_finite (js_sub (Fin 1) pos)"
    and "a = b \<or> rat_of (js_sub (Fin 1) pos) = 0"
  shows "math_round (blend from to pos i) = num_of_int b"
proof -
  let ?d = "js_sub (Fin 1) pos"
  have x: "js_sub (channel from i) (channel to i) = num_of_int (a - b)"
    using assms(3,4) by (simp add: assms(1,2) del: of_int_diff)
  have z: "of_int (a - b) * rat_of ?d = 0" using assms(6) by auto
  then have "is_finite (js_mul (num_of_int (a - b)) ?d) \<and> rat_of (js_mul (num_of_int (a - b)) ?d) = rounded 0"
    using js_mul_rounded [of "num_of_int (a - b)" ?d 0] assms(5) z by (simp del: of_int_diff)
  moreover have "js_add (num_of_int b) m = num_of_int b" if "is_finite m" "rat_of m = 0" for m
    using that assms(4) to_double_of_int [of b] by (cases m) (auto simp: js_add_def)
  ultimately have "blend from to pos i = num_of_int b"
    by (simp add: blend_def assms(2) x [unfolded assms(2)])
  then show ?thesis by simp
qed

section \<open>The colours of a gradient\<close>

definition opaque :: "int \<Rightarrow> int \<Rightarrow> int \<Rightarrow> rgba" where
  "opaque r g b = [num_of_int r, num_of_int g, num_of_int b, Fin 1]"

definition byte_color :: "rgba \<Rightarrow> bool" where
  "byte_color c \<longleftrightarrow> (\<exists>r \<in> {0..255}. \<exists>g \<in> {0..255}. \<exists>b \<in> {0..255}. c = opaque r g b)"

definition rgb_text :: "int \<Rightarrow> int \<Rightarrow> int \<Rightarrow> string" where
  "rgb_text r g b = ''rgb('' @ int_to_string 10 r @ '','' @ int_to_string 10 g @ '','' @ int_to_string 10 b @ '')''"

text \<open>Each channel of a colour lies between the channels of two others.\<close>

definition mixes :: "rgba \<Rightarrow> rgba \<Rightarrow> rgba \<Rightarrow> bool" where
  "mixes c d e \<longleftrightarrow> (\<forall>k < 3. \<exists>a b m. channel c k = num_of_int a \<and> channel d k = num_of_int b \<and>
     channel e k = num_of_int m \<and> min a b \<le> m \<and> m \<le> max a b)"

lemma channel_opaque:
  "channel (opaque r g b) 0 = num_of_int r" "channel (opaque r g b) 1 = num_of_int g"
  "channel (opaque r g b) 2 = num_of_int b" "channel (opaque r g b) 3 = Fin 1"
  "channel (opaque r g b) (Suc 0) = num_of_int g"
  by (simp_all add: channel_def opaque_def nth_Cons')

lemma all_below_3: "(\<forall>k < 3. P k) \<longleftrightarrow> P 0 \<and> P 1 \<and> P (2::nat)"
  by (auto simp: numeral_3_eq_3 numeral_2_eq_2 less_Suc_eq)

lemma mixes_opaque:
  "mixes (opaque r g b) (opaque r' g' b') (opaque x y z) \<longleftrightarrow>
     min r r' \<le> x \<and> x \<le> max r r' \<and> min g g' \<le> y \<and> y \<le> max g g' \<and> min b b' \<le> z \<and> z \<le> max b b'"
  by (simp add: mixes_def all_below_3 channel_opaque)

lemma tween_opaque:
  assumes "math_round (blend (opaque r g b) (opaque r' g' b') pos 0) = num_of_int x"
    and "math_round (blend (opaque r g b) (opaque r' g' b') pos 1) = num_of_int y"
    and "math_round (blend (opaque r g b) (opaque r' g' b') pos 2) = num_of_int z"
    and "\<bar>x\<bar> \<le> 2 ^ 53" "\<bar>y\<bar> \<le> 2 ^ 53" "\<bar>z\<bar> \<le> 2 ^ 53"
  shows "tweenColors (opaque r g b) (opaque r' g' b') pos = rgb_text x y z"
  using assms by (simp add: tweenColors_def has_alpha_def channel_opaque rgb_text_def num_to_string_int)

subsection \<open>The text of a colour is read back\<close>

lemma first_match_None: "(\<And>p t. s = p @ t \<Longrightarrow> r t = None) \<Longrightarrow> first_match r s = None"
proof (induction s)
  case Nil
  then show ?case using Nil [of "[]" "[]"] by simp
next
  case (Cons c s)
  have "r (c # s) = None" using Cons.prems [of "[]" "c # s"] by simp
  moreover have "first_match r s = None" using Cons.prems [of "c # _"] by (intro Cons.IH) simp
  ultimately show ?case by simp
qed

lemma literal_None: "c \<in> set p \<Longrightarrow> c \<notin> set s \<Longrightarrow> literal p s = None"
  using in_set_takeD [of c "length p" s] by (auto simp: literal_def)

lemma spaced_digits_nat:
  assumes "n < 1000" and "\<not> is_digit c" and "\<not> is_ws c"
  shows "spaced_digits (nat_digits 10 n @ c # s) = Some (nat_digits 10 n, c # s)"
proof -
  have len: "length (nat_digits 10 n) \<le> 3" using assms(1) by (simp add: nat_digits.simps)
  have ws: "dropWhile is_ws (nat_digits 10 n @ c # s) = nat_digits 10 n @ c # s"
    using nat_digits_nonempty [of 10 n] nat_digits_is_digit [of _ n] is_digit_not_ws
    by (cases "nat_digits 10 n") auto
  have "takeWhile is_digit (nat_digits 10 n @ c # s) = nat_digits 10 n"
    using nat_digits_is_digit assms(2) by (subst takeWhile_append2) auto
  then show ?thesis using len assms(3) by (simp add: spaced_digits_def ws)
qed

lemma parse_int_10_digits: "n < 1000 \<Longrightarrow> parse_int 10 (nat_digits 10 n) = num_of_int (int n)"
proof -
  assume "n < 1000"
  then have dbl: "to_double False (of_nat n) = Fin (of_nat n)" using to_double_of_int [of "int n"] by simp
  have tw: "takeWhile (is_digit_in 10) (nat_digits 10 n) = nat_digits 10 n"
    by (simp add: takeWhile_eq_all_conv nat_digits_is_digit_in)
  show ?thesis
    by (simp add: parse_int_def trim_left_def nat_digits_scan tw digits_value_nat_digits dbl)
qed

lemma match_rgb_text:
  assumes "i < 1000" "j < 1000" "k < 1000"
  shows "match_rgb (rgb_text (int i) (int j) (int k)) = Some (opaque (int i) (int j) (int k))"
proof -
  have c: "\<not> is_digit CHR '',''" "\<not> is_ws CHR '',''" "\<not> is_digit CHR '')''" "\<not> is_ws CHR '')''"
    by (simp_all add: is_digit_def is_ws_def code_def)
  have t: "rgb_text (int i) (int j) (int k) = ''rgb('' @
      (nat_digits 10 i @ CHR '','' # (nat_digits 10 j @ CHR '','' # (nat_digits 10 k @ CHR '')'' # [])))"
    by (simp add: rgb_text_def int_to_string_nonneg)
  have l: "literal ''rgb('' (''rgb('' @ s) = Some s" "literal '','' (CHR '','' # s) = Some s"
      "literal '')'' (CHR '')'' # s) = Some s" for s
    by (simp_all add: literal_def)
  show ?thesis
    unfolding t match_rgb_def
    by (simp only: l bind.bind_lunit after_comma_def spaced_digits_nat [OF assms(1) c(1,2)] prod.case
        spaced_digits_nat [OF assms(2) c(1,2)] spaced_digits_nat [OF assms(3) c(3,4)]
        parse_int_10_digits assms opaque_def of_int_1 simp_thms)
qed

lemma color_rgba_text:
  assumes "i \<in> {0..255}" "j \<in> {0..255}" "k \<in> {0..255}"
  shows "color_rgba (rgb_text i j k) = opaque i j k"
proof -
  obtain a b c where abc: "i = int a" "j = int b" "k = int c" and n: "a < 1000" "b < 1000" "c < 1000"
    using that [of "nat i" "nat j" "nat k"] assms by auto
  let ?s = "rgb_text i j k"
  have d: "CHR ''a'' \<notin> set ?s" "CHR ''#'' \<notin> set ?s"
    using nat_digits_is_digit unfolding abc rgb_text_def int_to_string_nonneg [OF of_nat_0_le_iff]
    by (auto dest!: nat_digits_is_digit simp: is_digit_def code_def)
  have "first_match match_rgba ?s = None"
    using d(1) by (intro first_match_None) (auto simp: match_rgba_def literal_None [of "CHR ''a''"])
  moreover have "first_match match_hex ?s = None"
    using d(2) by (intro first_match_None) (auto simp: match_hex_def literal_None [of "CHR ''#''"])
  moreover have "first_match match_rgb ?s = Some (opaque i j k)"
    using match_rgb_text [OF n] by (subst first_match.simps) (simp add: abc)
  ultimately show ?thesis by (simp add: color_rgba_def)
qed

subsection \<open>Between two stops\<close>

lemma stop_loop_Some:
  "stop_loop pos stops n = Some i \<Longrightarrow>
     i < n \<and> num_lt (fst (stops ! i)) pos \<and> (\<forall>k. i < k \<and> k < n \<longrightarrow> \<not> num_lt (fst (stops ! k)) pos)"
  by (induction n) (auto simp: less_Suc_eq split: if_splits)

lemma stop_loop_None: "stop_loop pos stops n = None \<longleftrightarrow> (\<forall>k < n. \<not> num_lt (fst (stops ! k)) pos)"
  by (induction n) (auto simp: less_Suc_eq)

lemma num_lt_finite: "is_finite x \<Longrightarrow> is_finite y \<Longrightarrow> num_lt x y \<longleftrightarrow> rat_of x < rat_of y"
  by (cases x; cases y) (auto simp: num_cmp_defs)

text \<open>The place within a step of the gradient.\<close>

lemma place_in_step:
  assumes "moderate s" "moderate t" "moderate pos" and "rat_of s \<le> rat_of pos" "rat_of pos \<le> rat_of t"
  shows "unit_interval (js_sub (Fin 1) (js_div (js_sub t pos) (or_one (js_sub t s))))"
proof -
  note a = moderate_sub [OF assms(2,3)] and b = moderate_sub [OF assms(2,1)]
  have "rat_of (js_sub t pos) \<le> rat_of (js_sub t s)" using a b assms(4) by (simp add: rounded_mono)
  moreover have "0 \<le> rat_of (js_sub t pos)" using a assms(5) by (simp add: rounded_nonneg)
  ultimately show ?thesis using a b share_unit one_minus_unit by blast
qed

lemma place_past_end:
  assumes "moderate s" "moderate pos"
  shows "is_finite (js_sub (Fin 1) (js_sub (Fin 1) (js_div (js_sub s pos) (or_one (js_sub s s)))))"
proof -
  note a = moderate_sub [OF assms] and b = moderate_sub [OF assms(1,1)]
  have "js_sub s s = Fin 0 \<or> js_sub s s = NZero" using b by (cases "js_sub s s") auto
  then have o: "or_one (js_sub s s) = Fin 1" by (auto simp: or_one_def)
  let ?x = "js_div (js_sub s pos) (Fin 1)"
  have "is_finite ?x \<and> rat_of ?x = rounded (rat_of (js_sub s pos) / rat_of (Fin 1))"
    using a by (intro js_div_rounded [of _ _ 1001]) auto
  then have x: "is_finite ?x" "rat_of ?x = rounded (rat_of (js_sub s pos))" by simp_all
  have "\<bar>rat_of (js_sub s pos)\<bar> \<le> 2 ^ 1001" using a by blast
  from rounded_abs_le [OF this] have "\<bar>rat_of ?x\<bar> \<le> 2 ^ 1001" by (simp only: x(2))
  note x(1) this
  from one_minus_bounded [OF this] have "is_finite (js_sub (Fin 1) ?x)" "\<bar>rat_of (js_sub (Fin 1) ?x)\<bar> \<le> 2 ^ Suc 1001" by simp_all
  from one_minus_bounded [OF this] show ?thesis by (simp add: o)
qed

lemma byte_opaque [simp]:
  "r \<in> {0..255} \<Longrightarrow> g \<in> {0..255} \<Longrightarrow> b \<in> {0..255} \<Longrightarrow> byte_color (opaque r g b)"
  unfolding byte_color_def by blast

lemma tween_mixes:
  assumes "byte_color c" "byte_color d"
    and "unit_interval pos \<or> c = d \<and> is_finite (js_sub (Fin 1) pos)"
  shows "byte_color (color_rgba (tweenColors c d pos)) \<and> mixes c d (color_rgba (tweenColors c d pos))"
proof -
  obtain r g b where c: "c = opaque r g b" and cb: "r \<in> {0..255}" "g \<in> {0..255}" "b \<in> {0..255}"
    using assms(1) by (auto simp: byte_color_def)
  obtain r' g' b' where d: "d = opaque r' g' b'" and db: "r' \<in> {0..255}" "g' \<in> {0..255}" "b' \<in> {0..255}"
    using assms(2) by (auto simp: byte_color_def)
  have ch: "\<exists>m. math_round (blend c d pos k) = num_of_int m \<and> min u v \<le> m \<and> m \<le> max u v"
    if "channel c k = num_of_int u" "channel d k = num_of_int v" "u \<in> {0..255}" "v \<in> {0..255}" for k u v
    using assms(3)
  proof
    assume "unit_interval pos"
    then show ?thesis using that by (auto intro: blend_between [OF that(1,2)])
  next
    assume e: "c = d \<and> is_finite (js_sub (Fin 1) pos)"
    then have "u = v" using that(1,2) by simp
    then show ?thesis using blend_end [OF that(1,2)] that(3,4) e by (intro exI [of _ v]) auto
  qed
  obtain x y z where "math_round (blend c d pos 0) = num_of_int x" "min r r' \<le> x" "x \<le> max r r'"
      "math_round (blend c d pos 1) = num_of_int y" "min g g' \<le> y" "y \<le> max g g'"
      "math_round (blend c d pos 2) = num_of_int z" "min b b' \<le> z" "z \<le> max b b'"
    using ch [of 0 r r'] ch [of 1 g g'] ch [of 2 b b'] cb db by (auto simp: c d channel_opaque)
  note xyz = this
  have bytes: "x \<in> {0..255}" "y \<in> {0..255}" "z \<in> {0..255}" using xyz cb db by auto
  have "tweenColors c d pos = rgb_text x y z"
    using xyz bytes unfolding c d by (intro tween_opaque) auto
  then show ?thesis
    using bytes xyz color_rgba_text [OF bytes] by (simp add: c d mixes_opaque byte_opaque)
qed

lemma tween_kept:
  assumes "byte_color c" "byte_color d" "is_finite (js_sub (Fin 1) pos)" and "c = d \<or> rat_of (js_sub (Fin 1) pos) = 0"
  shows "color_rgba (tweenColors c d pos) = d"
proof -
  obtain r g b where c: "c = opaque r g b" and cb: "r \<in> {0..255}" "g \<in> {0..255}" "b \<in> {0..255}"
    using assms(1) by (auto simp: byte_color_def)
  obtain r' g' b' where d: "d = opaque r' g' b'" and db: "r' \<in> {0..255}" "g' \<in> {0..255}" "b' \<in> {0..255}"
    using assms(2) by (auto simp: byte_color_def)
  have ch: "math_round (blend c d pos k) = num_of_int v"
    if "channel c k = num_of_int u" "channel d k = num_of_int v" "u \<in> {0..255}" "v \<in> {0..255}" for k u v
    using that assms(3,4) by (intro blend_end [OF that(1,2)]) auto
  have "tweenColors c d pos = rgb_text r' g' b'"
    using ch [of 0 r r'] ch [of 1 g g'] ch [of 2 b b'] cb db unfolding c d
    by (intro tween_opaque) (auto simp: channel_opaque)
  then show ?thesis using color_rgba_text [OF db] d by simp
qed

definition good_stops :: "stop list \<Rightarrow> bool" where
  "good_stops stops \<longleftrightarrow> stops \<noteq> [] \<and> (\<forall>s \<in> set stops. moderate (fst s) \<and> byte_color (snd s))"

text \<open>The two stops a place is between, and the place between them.\<close>

lemma gradient_steps:
  assumes "good_stops stops" and "moderate pos"
  obtains i j p where "j < length stops" "i = j \<or> j = Suc i"
    and "gradient_color tweenColors stops pos = Inr (tweenColors (snd (stops ! i)) (snd (stops ! j)) p)"
    and "is_finite (js_sub (Fin 1) p)"
    and "j = Suc i \<Longrightarrow> unit_interval p \<and> rat_of (fst (stops ! i)) < rat_of pos \<and> rat_of pos \<le> rat_of (fst (stops ! j)) \<and>
      p = js_sub (Fin 1) (js_div (js_sub (fst (stops ! j)) pos) (or_one (js_sub (fst (stops ! j)) (fst (stops ! i)))))"
    and "i = j \<Longrightarrow> (\<forall>k < length stops. rat_of pos \<le> rat_of (fst (stops ! k))) \<and> j = 0 \<or>
      rat_of (fst (stops ! j)) < rat_of pos \<and> j = length stops - 1"
proof -
  have ne: "stops \<noteq> []" and ok: "moderate (fst (stops ! k))" if "k < length stops" for k
    using assms(1) that by (auto simp: good_stops_def)
  have lt: "num_lt (fst (stops ! k)) pos \<longleftrightarrow> rat_of (fst (stops ! k)) < rat_of pos" if "k < length stops" for k
    using ok [OF that] assms(2) by (intro num_lt_finite) (simp_all add: moderate_def)
  have pos: "0 < length stops" using assms(1) by (simp add: good_stops_def)
  note [simp] = gradient_color_def Let_def
  show thesis
  proof (cases "stop_loop pos stops (length stops)")
    case None
    then have n: "rat_of pos \<le> rat_of (fst (stops ! k))" if "k < length stops" for k
      using that lt by (auto simp: stop_loop_None not_less)
    show thesis
      using that [of 0 0] pos ne [OF pos] None n place_past_end [OF ok [OF pos] assms(2)] by simp
  next
    case (Some i)
    note i = stop_loop_Some [OF this]
    show thesis
    proof (cases "Suc i < length stops")
      case True
      have b: "rat_of (fst (stops ! i)) < rat_of pos" "rat_of pos \<le> rat_of (fst (stops ! Suc i))"
        using i lt [of i] lt [of "Suc i"] True by auto
      have u: "unit_interval (js_sub (Fin 1) (js_div (js_sub (fst (stops ! Suc i)) pos)
          (or_one (js_sub (fst (stops ! Suc i)) (fst (stops ! i))))))"
        using b i True by (intro place_in_step ok assms(2)) auto
      then show thesis
        using that [of "Suc i" i] True ne [OF pos] Some b one_minus_unit [OF u] by (simp add: unit_interval_def)
    next
      case False
      then have "i = length stops - 1" using conjunct1 [OF i] by simp
      then show thesis
        using that [of i i] i lt [of i] ne [OF pos] Some False place_past_end [OF ok [of i] assms(2)] by simp
    qed
  qed
qed

text \<open>The place of a value on the whole axis.\<close>

lemma place_on_axis:
  assumes "moderate lo" "moderate hi" "moderate v" and "rat_of lo \<le> rat_of v" "rat_of v \<le> rat_of hi"
  defines "pos \<equiv> js_sub (Fin 1) (js_div (js_sub hi v) (or_one (js_sub hi lo)))"
  shows "unit_interval pos"
    and "rat_of v = rat_of hi \<Longrightarrow> rat_of pos = 1"
    and "rat_of v = rat_of lo \<Longrightarrow> rat_of (js_sub hi lo) \<noteq> 0 \<Longrightarrow> rat_of pos = 0"
proof -
  show u: "unit_interval pos" unfolding pos_def using assms by (intro place_in_step) auto
  note a = moderate_sub [OF assms(2,3)] and b = moderate_sub [OF assms(2,1)]
  have share: "unit_interval (js_div (js_sub hi v) (or_one (js_sub hi lo)))"
    using a b assms(4,5) by (intro share_unit) (auto intro: rounded_mono rounded_nonneg)
  have r: "rat_of pos = rounded (1 - rat_of (js_div (js_sub hi v) (or_one (js_sub hi lo))))"
    using one_minus_unit [OF share] by (simp add: pos_def)
  show "rat_of pos = 1" if "rat_of v = rat_of hi"
  proof -
    have "js_sub hi v = Fin 0 \<or> js_sub hi v = NZero" using a that by (cases "js_sub hi v") auto
    then have "rat_of (js_div (js_sub hi v) (or_one (js_sub hi lo))) = 0"
      using b by (cases "js_sub hi lo") (auto simp: js_div_def or_one_def)
    then show ?thesis using r by simp
  qed
  show "rat_of pos = 0" if "rat_of v = rat_of lo" "rat_of (js_sub hi lo) \<noteq> 0"
  proof -
    have "or_one (js_sub hi lo) = js_sub hi lo" using that(2) by (auto simp: or_one_def)
    moreover have "is_finite (js_div (js_sub hi v) (js_sub hi lo)) \<and>
        rat_of (js_div (js_sub hi v) (js_sub hi lo)) = rounded (rat_of (js_sub hi v) / rat_of (js_sub hi lo))"
      using a b that by (intro js_div_rounded [of _ _ 0]) auto
    ultimately show ?thesis using r a b that by simp
  qed
qed

text \<open>The colour at a place of the gradient, between two stops and at its ends.\<close>

lemma gradient_text:
  assumes "good_stops ss" and "unit_interval pos"
  obtains t i j where "gradient_color tweenColors ss pos = Inr t" and "j < length ss" and "j = i \<or> j = Suc i"
    and "byte_color (color_rgba t)" and "mixes (snd (ss ! i)) (snd (ss ! j)) (color_rgba t)"
    and "rat_of pos = 0 \<Longrightarrow> \<forall>s \<in> set ss. 0 \<le> rat_of (fst s) \<Longrightarrow> color_rgba t = snd (hd ss)"
    and "rat_of pos = 1 \<Longrightarrow> rat_of (fst (last ss)) = 1 \<Longrightarrow> \<forall>s \<in> set (butlast ss). rat_of (fst s) < 1 \<Longrightarrow>
      color_rgba t = snd (last ss)"
proof -
  obtain i j p where st: "j < length ss" "i = j \<or> j = Suc i"
    and t: "gradient_color tweenColors ss pos = Inr (tweenColors (snd (ss ! i)) (snd (ss ! j)) p)"
    and fin: "is_finite (js_sub (Fin 1) p)"
    and step: "j = Suc i \<Longrightarrow> unit_interval p \<and> rat_of (fst (ss ! i)) < rat_of pos \<and> rat_of pos \<le> rat_of (fst (ss ! j)) \<and>
      p = js_sub (Fin 1) (js_div (js_sub (fst (ss ! j)) pos) (or_one (js_sub (fst (ss ! j)) (fst (ss ! i)))))"
    and stay: "i = j \<Longrightarrow> (\<forall>k < length ss. rat_of pos \<le> rat_of (fst (ss ! k))) \<and> j = 0 \<or>
      rat_of (fst (ss ! j)) < rat_of pos \<and> j = length ss - 1"
    by (rule gradient_steps [OF assms(1) unit_moderate [OF assms(2)]]) (rule that)
  let ?t = "tweenColors (snd (ss ! i)) (snd (ss ! j)) p"
  have good: "byte_color (snd (ss ! k))" "moderate (fst (ss ! k))" if "k < length ss" for k
    using assms(1) that by (auto simp: good_stops_def)
  have ne: "ss \<noteq> []" using assms(1) by (simp add: good_stops_def)
  have mix: "byte_color (color_rgba ?t)" "mixes (snd (ss ! i)) (snd (ss ! j)) (color_rgba ?t)"
    using tween_mixes [OF good(1) [of i] good(1) [of j], of p] st step fin by auto
  have same: "color_rgba ?t = snd (ss ! j)" if "i = j" using that good(1) [OF st(1)] fin by (simp add: tween_kept)
  have first: "color_rgba ?t = snd (hd ss)" if "rat_of pos = 0" "\<forall>s \<in> set ss. 0 \<le> rat_of (fst s)"
  proof -
    have "0 \<le> rat_of (fst (ss ! i))" using that(2) st by auto
    then have lt: "\<not> rat_of (fst (ss ! i)) < rat_of pos" using that(1) by simp
    then have ij: "i = j" using step st(2) by blast
    moreover have "j = 0" using stay [OF ij] lt by (simp add: ij)
    ultimately show ?thesis using same ne by (simp add: hd_conv_nth)
  qed
  have final: "color_rgba ?t = snd (last ss)"
    if "rat_of pos = 1" "rat_of (fst (last ss)) = 1" "\<forall>s \<in> set (butlast ss). rat_of (fst s) < 1"
  proof -
    have less: "rat_of (fst (ss ! k)) < rat_of pos" if "k < length ss - 1" for k
      using that \<open>\<forall>s \<in> set (butlast ss). rat_of (fst s) < 1\<close> \<open>rat_of pos = 1\<close> by (metis length_butlast nth_butlast nth_mem)
    have j: "j = length ss - 1"
    proof (rule ccontr)
      assume "j \<noteq> length ss - 1"
      then have l: "rat_of (fst (ss ! j)) < rat_of pos" using less [of j] st(1) by simp
      then have ij: "i = j" using step st(2) by fastforce
      show False using stay [OF ij] l \<open>j \<noteq> length ss - 1\<close> st(1) by auto
    qed
    show ?thesis
    proof (cases "i = j")
      case False
      then have s: "j = Suc i" using st by simp
      have end1: "rat_of pos = rat_of (fst (ss ! j))" using that(1,2) j ne by (simp add: last_conv_nth)
      have il: "i < length ss" and b: "rat_of (fst (ss ! i)) \<le> rat_of pos" "rat_of pos \<le> rat_of (fst (ss ! j))"
        using step [OF s] s st(1) by linarith+
      have p: "p = js_sub (Fin 1) (js_div (js_sub (fst (ss ! j)) pos) (or_one (js_sub (fst (ss ! j)) (fst (ss ! i)))))"
        using step [OF s] by blast
      have "rat_of p = 1" unfolding p
        by (rule place_on_axis(2) [OF good(2) [OF il] good(2) [OF st(1)] unit_moderate [OF assms(2)] b end1])
      moreover have "unit_interval p" using step [OF s] by blast
      ultimately have "rat_of (js_sub (Fin 1) p) = 0" using one_minus_unit [of p] by simp
      then show ?thesis
        using tween_kept [OF good(1) [of i] good(1) [of j] fin] st s j ne by (simp add: last_conv_nth)
    qed (use same j ne in \<open>simp add: last_conv_nth\<close>)
  qed
  have "j = i \<or> j = Suc i" using st(2) by blast
  then show thesis by (rule that [OF t st(1) _ mix first final])
qed

text \<open>
  C16: the colour of a value on a gradient. Its text reads as a colour whose channels lie between
  those of two neighbouring stops; the least value of the axis gets the first colour and the
  greatest value the last one.
\<close>

theorem gradient_colors:
  assumes "axis_classes ax = None" and "val2lin ax = None" and "good_stops (axis_stops ax)"
    and "moderate (axis_min ax)" "moderate (axis_max ax)" "moderate value"
    and "rat_of (axis_min ax) \<le> rat_of value" "rat_of value \<le> rat_of (axis_max ax)"
  shows "\<exists>t i j. toColor ax value = Inr (Some t, None) \<and> j < length (axis_stops ax) \<and> (j = i \<or> j = Suc i) \<and>
    byte_color (color_rgba t) \<and> mixes (snd (axis_stops ax ! i)) (snd (axis_stops ax ! j)) (color_rgba t) \<and>
    (rat_of value = rat_of (axis_min ax) \<and> rat_of (js_sub (axis_max ax) (axis_min ax)) \<noteq> 0 \<and>
       (\<forall>s \<in> set (axis_stops ax). 0 \<le> rat_of (fst s)) \<longrightarrow> color_rgba t = snd (hd (axis_stops ax))) \<and>
    (rat_of value = rat_of (axis_max ax) \<and> rat_of (fst (last (axis_stops ax))) = 1 \<and>
       (\<forall>s \<in> set (butlast (axis_stops ax)). rat_of (fst s) < 1) \<longrightarrow> color_rgba t = snd (last (axis_stops ax)))"
proof -
  define pos where "pos = js_sub (Fin 1) (js_div (js_sub (axis_max ax) value) (or_one (js_sub (axis_max ax) (axis_min ax))))"
  note place = place_on_axis [OF assms(4-8), folded pos_def]
  obtain t i j where t: "gradient_color tweenColors (axis_stops ax) pos = Inr t"
    and st: "j < length (axis_stops ax)" "j = i \<or> j = Suc i" "byte_color (color_rgba t)"
      "mixes (snd (axis_stops ax ! i)) (snd (axis_stops ax ! j)) (color_rgba t)"
    and ends: "rat_of pos = 0 \<Longrightarrow> \<forall>s \<in> set (axis_stops ax). 0 \<le> rat_of (fst s) \<Longrightarrow> color_rgba t = snd (hd (axis_stops ax))"
      "rat_of pos = 1 \<Longrightarrow> rat_of (fst (last (axis_stops ax))) = 1 \<Longrightarrow>
        \<forall>s \<in> set (butlast (axis_stops ax)). rat_of (fst s) < 1 \<Longrightarrow> color_rgba t = snd (last (axis_stops ax))"
    by (rule gradient_text [OF assms(3) place(1)]) (rule that)
  have "toColor ax value = Inr (Some t, None)"
    using t by (simp add: toColor_def assms(1,2) linear_value_def pos_def)
  then show ?thesis using st ends place(2,3) by blast
qed

definition default_axis :: axis_options where
  "default_axis = \<lparr>dataClassColor = '''', minColor = ''#EFEFFF'', maxColor = ''#003875'', stops_option = None, dataClasses = None\<rparr>"

lemma default_colors:
  "color_rgba ''#EFEFFF'' = opaque 239 239 255" "color_rgba ''#003875'' = opaque 0 56 117"
  by (simp_all add: color_rgba_def match_rgba_def match_hex_def literal_def hex_pair_def is_digit_in_def digit_val_def
      code_def parse_int_def trim_left_def is_ws_def scan_sign_def has_hex_prefix_def digits_value_def opaque_def
      to_double_numeral)

theorem gradient_colors_witness:
  "\<exists>t. toColor ((new_color_axis default_axis [] None)\<lparr>axis_min := num_of_int 0, axis_max := num_of_int 10\<rparr>) (num_of_int 10) = Inr (Some t, None) \<and>
     color_rgba t = opaque 0 56 117"
proof -
  let ?ax = "(new_color_axis default_axis [] None)\<lparr>axis_min := num_of_int 0, axis_max := num_of_int 10\<rparr>"
  have stops: "axis_stops ?ax = [(num_of_int 0, opaque 239 239 255), (num_of_int 1, opaque 0 56 117)]"
    by (simp add: new_color_axis_def initStops_def default_axis_def default_colors)
  have m: "moderate (num_of_int n)" if "\<bar>n\<bar> \<le> 10" for n
  proof -
    have "\<bar>of_int n :: rat\<bar> \<le> of_int 10" using that by (simp only: of_int_abs [symmetric] of_int_le_iff)
    also have "(of_int 10 :: rat) \<le> 2 ^ 4" by simp
    also have "(2::rat) ^ 4 \<le> 2 ^ 1000" by (rule power_increasing) simp_all
    finally show ?thesis unfolding moderate_def is_finite_def rat_of_def jsnum.case by (intro conjI TrueI)
  qed
  have "good_stops (axis_stops ?ax)" using m [of 0] m [of 1] unfolding stops by (simp add: good_stops_def)
  note facts = gradient_colors [OF _ _ this, of "num_of_int 10"]
  have "axis_classes ?ax = None" "val2lin ?ax = None" by (simp_all add: new_color_axis_def default_axis_def)
  note facts = facts [OF this]
  have "moderate (axis_min ?ax)" "moderate (axis_max ?ax)" "moderate (num_of_int 10)"
    "rat_of (axis_min ?ax) \<le> rat_of (num_of_int 10)" "rat_of (num_of_int 10) \<le> rat_of (axis_max ?ax)"
    using m [of 0] m [of 10] by (simp_all del: of_int_0 of_int_numeral)
  note facts = facts [OF this]
  have "rat_of (num_of_int 10) = rat_of (axis_max ?ax)" "rat_of (fst (last (axis_stops ?ax))) = 1"
    "\<forall>s \<in> set (butlast (axis_stops ?ax)). rat_of (fst s) < 1" "snd (last (axis_stops ?ax)) = opaque 0 56 117"
    unfolding stops by simp_all
  then show ?thesis using facts by metis
qed

section \<open>Facts about data classes\<close>

lemma class_loop_last:
  "i < n \<Longrightarrow> in_class value (dcs ! i) \<Longrightarrow> (\<forall>k. i < k \<and> k < n \<longrightarrow> \<not> in_class value (dcs ! k)) \<Longrightarrow>
     class_loop value dcs n = Some i"
  by (induction n) (auto simp: less_Suc_eq)

lemma class_loop_none: "(\<forall>k < n. \<not> in_class value (dcs ! k)) \<Longrightarrow> class_loop value dcs n = None"
  by (induction n) (auto simp: less_Suc_eq)

text \<open>The classes an axis keeps are those given, in their order, with colours.\<close>

definition with_category :: "string list \<Rightarrow> data_class list \<Rightarrow> nat \<Rightarrow> data_class" where
  "with_category colors dcs i = (let dc = dcs ! i in
     if colorless dc
     then dc\<lparr>class_color := Some (colors ! (length (filter colorless (take i dcs)) mod length colors))\<rparr> else dc)"

lemma wrap_counter: "0 < n \<Longrightarrow> (if c mod n + 1 = n then 0 else c mod n + 1) = Suc c mod n"
  by (simp add: mod_Suc)

lemma category_fold:
  assumes "dataClassColor opts = ''category''" and "colors \<noteq> []"
  shows "foldl (color_class opts colors place) (0, []) dcs =
    (length (filter colorless dcs) mod length colors, map (with_category colors dcs) [0..<length dcs])"
proof (induction dcs rule: rev_induct)
  case (snoc dc dcs)
  have old: "map (with_category colors (dcs @ [dc])) [0..<length dcs] = map (with_category colors dcs) [0..<length dcs]"
    by (auto simp: with_category_def nth_append Let_def)
  have n: "0 < length colors" using assms(2) by simp
  have "length (filter colorless dcs) mod length colors < length colors" using n by simp
  then show ?case
    using snoc old wrap_counter [OF n, of "length (filter colorless dcs)"]
    by (auto simp: color_class_def assms(1) with_category_def)
qed simp

lemma in_class_with_category: "i < length dcs \<Longrightarrow> in_class v (with_category colors dcs i) = in_class v (dcs ! i)"
  by (simp add: with_category_def Let_def in_class_def)

text \<open>
  Data classes. On an axis with classes coloured by category a value has the colour of the last
  class that contains it: the class's own colour, or the next of the chart's colours, counting the
  classes without a colour and starting again after the last. A value in no class has no colour.
\<close>

theorem data_class_colors:
  fixes lin :: "(jsnum \<Rightarrow> jsnum) option"
  assumes "dataClasses opts = Some dcs" and "dataClassColor opts = ''category''" and "colors \<noteq> []"
  defines "ax \<equiv> new_color_axis opts colors lin"
  shows "(\<forall>i < length dcs. in_class value (dcs ! i) \<and> (\<forall>k. i < k \<and> k < length dcs \<longrightarrow> \<not> in_class value (dcs ! k)) \<longrightarrow>
      toColor ax value = Inr (if colorless (dcs ! i)
        then Some (colors ! (length (filter colorless (take i dcs)) mod length colors))
        else class_color (dcs ! i), Some i)) \<and>
    ((\<forall>dc \<in> set dcs. \<not> in_class value dc) \<longrightarrow> toColor ax value = Inr (None, None))"
proof -
  define ds where "ds = map (with_category colors dcs) [0..<length dcs]"
  have ax: "axis_classes ax = Some ds"
    by (simp add: ax_def new_color_axis_def assms(1) initDataClasses_def category_fold [OF assms(2,3)] ds_def)
  have ds: "length ds = length dcs" "ds ! i = with_category colors dcs i" if "i < length dcs" for i
    using that by (simp_all add: ds_def)
  have len: "length ds = length dcs" by (simp add: ds_def)
  have none: "class_loop value ds (length ds) = None" if "\<forall>dc \<in> set dcs. \<not> in_class value dc"
    using that by (intro class_loop_none) (auto simp: len ds in_class_with_category)
  have some: "class_loop value ds (length ds) = Some i"
    if "i < length dcs" "in_class value (dcs ! i)" "\<forall>k. i < k \<and> k < length dcs \<longrightarrow> \<not> in_class value (dcs ! k)" for i
    using that by (intro class_loop_last) (auto simp: len ds in_class_with_category)
  show ?thesis
    using none some by (auto simp: toColor_def ax class_choice_def ds with_category_def Let_def)
qed

theorem data_class_colors_witness:
  "let c = \<lparr>class_from = None, class_to = Some (num_of_int 3), class_color = None, class_name = None\<rparr>;
       d = \<lparr>class_from = Some (num_of_int 3), class_to = None, class_color = None, class_name = None\<rparr>;
       opts = default_axis\<lparr>dataClassColor := ''category'', dataClasses := Some [c, d]\<rparr>
   in toColor (new_color_axis opts [''red''] None) (num_of_int 3) = Inr (Some ''red'', Some 1)"
proof -
  let ?c = "\<lparr>class_from = None, class_to = Some (num_of_int 3), class_color = None, class_name = None\<rparr> :: data_class"
  let ?d = "\<lparr>class_from = Some (num_of_int 3), class_to = None, class_color = None, class_name = None\<rparr> :: data_class"
  have "dataClasses (default_axis\<lparr>dataClassColor := ''category'', dataClasses := Some [?c, ?d]\<rparr>) = Some [?c, ?d]"
    "dataClassColor (default_axis\<lparr>dataClassColor := ''category'', dataClasses := Some [?c, ?d]\<rparr>) = ''category''"
    "[''red''] \<noteq> []" by simp_all
  note all = conjunct1 [OF data_class_colors [OF this, of "num_of_int 3" None], rule_format, of 1]
  have "in_class (num_of_int 3) ([?c, ?d] ! 1)" by (simp add: in_class_def num_le_def num_eq_def)
  then have "toColor (new_color_axis (default_axis\<lparr>dataClassColor := ''category'', dataClasses := Some [?c, ?d]\<rparr>) [''red''] None)
      (num_of_int 3) = Inr (Some ''red'', Some 1)"
    using all by (simp add: colorless_def)
  then show ?thesis by (simp only: Let_def)
qed

section \<open>The copy for gauges\<close>

text \<open>
  On an axis with a range the copy gives the same colours. Without a guard for a single class it
  divides zero by zero.
\<close>

theorem gauge_same_colors:
  assumes "good_stops (axis_stops ax)" and "or_one (js_sub (axis_max ax) (axis_min ax)) = js_sub (axis_max ax) (axis_min ax)"
  shows "gauge_toColor ax value = toColor ax value"
proof -
  have col: "snd (axis_stops ax ! k) \<noteq> []" if "k < length (axis_stops ax)" for k
  proof -
    have "byte_color (snd (axis_stops ax ! k))" using assms(1) that by (simp add: good_stops_def)
    then show ?thesis by (auto simp: byte_color_def opaque_def)
  qed
  have "gradient_color gauge_tweenColors (axis_stops ax) pos = gradient_color tweenColors (axis_stops ax) pos" for pos
  proof -
    have "stop_loop pos (axis_stops ax) (length (axis_stops ax)) = Some k \<Longrightarrow> k < length (axis_stops ax)" for k
      using stop_loop_Some by blast
    moreover have "0 < length (axis_stops ax)" using assms(1) by (simp add: good_stops_def)
    ultimately show ?thesis
      using col by (auto simp: gradient_color_def Let_def gauge_tweenColors_def split: option.split)
  qed
  then show ?thesis by (simp add: gauge_toColor_def toColor_def assms(2) split: option.split)
qed

theorem gauge_single_class:
  assumes "colorless dc"
  shows "gauge_initDataClasses default_axis colors [dc] = [dc\<lparr>class_color := Some ''rgb(NaN,NaN,NaN)''\<rparr>]"
proof -
  have "js_div (num_of_int (int 0)) (num_of_int (int (length [dc]) - 1)) = NaN" by (simp add: js_div_def)
  moreover have "js_sub (num_of_int 1) NaN = NaN" by (simp add: js_sub_def js_add_def js_neg_def)
  moreover have "js_add x NaN = NaN" "js_mul x NaN = NaN" for x by (simp_all add: js_add_def js_mul_def)
  ultimately have "gauge_tweenColors (opaque 239 239 255) (opaque 0 56 117) (js_div (num_of_int (int 0)) (num_of_int (int (length [dc]) - 1))) = ''rgb(NaN,NaN,NaN)''"
    by (simp add: gauge_tweenColors_def tweenColors_def has_alpha_def channel_opaque blend_def math_round_def num_to_string_def
        opaque_def [of 239] opaque_def [of 0] channel_def)
  then show ?thesis
    using assms by (simp add: gauge_initDataClasses_def color_class_def default_axis_def default_colors)
qed

end
