(* ===== verification/Lib_Drilldown.thy ===== *)
theory Lib_Drilldown
  imports JS_Math JS_String JS_Value
begin

text \<open>
  modules/drilldown.src.js: drilling from a point of a chart down to a series of its own and back
  up, with the part of the core of the library that adds, sorts and removes series. Options and
  series are objects the code compares by identity: they live in stores under numbers. Links
  between series, listeners and animation are left out; redrawing is counted. The format of the
  button's text is an argument.
\<close>

section \<open>Options, series and axes\<close>

text \<open>An axis of a series is named by position, by id, or not at all, which means the first one.\<close>

datatype axis_ref = AxisNo nat | AxisId string | NoAxis

record dd_point =
  drilldown_id :: "string option"
  dd_point_color :: "string option"

record series_opts =
  opt_id :: "string option"
  opt_name :: string
  opt_type :: "string option"
  opt_color :: "string option"
  color_no :: "nat option"
  opt_index :: "int option"
  opt_xaxis :: axis_ref
  opt_yaxis :: axis_ref
  opt_data :: "dd_point list"

record dd_series =
  user_options :: nat
  ser_type :: string
  ser_color :: "string option"
  ser_x :: "nat option"
  ser_y :: "nat option"
  creation_no :: nat
  levelNumber :: "nat option"
  alive :: bool

record axis_state =
  axis_id :: "string option"
  userMin :: "jsnum option"
  userMax :: "jsnum option"

record dd_level =
  lv_number :: nat
  lv_options :: nat
  lv_series_options :: "nat list"
  lv_series :: "nat list"
  lv_color :: "string option"
  lv_lower :: nat
  lv_lower_options :: nat
  lv_point :: nat
  lv_extremes :: "(jsnum option \<times> jsnum option) \<times> (jsnum option \<times> jsnum option)"

text \<open>
  The chart: the stores with the next free numbers, the series shown, the axes, the options of the
  drilldown, the levels, the counter of the colours given in turn, the button, if there is one, with
  its text, if that is defined, and the number of redraws. \<open>dupes\<close> is the list of
  ids drilled into since the last way up.
\<close>

record dd_chart =
  opts_of :: "nat \<Rightarrow> series_opts"
  next_opts :: nat
  ser_of :: "nat \<Rightarrow> dd_series"
  next_ser :: nat
  shown :: "nat list"
  x_axes :: "axis_state list"
  y_axes :: "axis_state list"
  dd_options :: "nat list"
  levels :: "dd_level list"
  colorCounter :: nat
  drillUpButton :: "string option option"
  redraws :: nat
  dupes :: "string list"

record dd_env =
  cartesian :: "string \<Rightarrow> bool"
  color_by_point :: "string \<Rightarrow> bool"
  palette :: "string list"
  default_type :: string
  back_format :: "series_opts \<Rightarrow> string"

section \<open>Series of the core\<close>

definition axis_hit :: "axis_ref \<Rightarrow> axis_state list \<Rightarrow> nat \<Rightarrow> bool" where
  "axis_hit r axs i \<longleftrightarrow> (case r of AxisNo n \<Rightarrow> n = i | AxisId s \<Rightarrow> axis_id (axs ! i) = Some s | NoAxis \<Rightarrow> i = 0)"

text \<open>\<open>bindAxes\<close> goes through all axes, so the last one that fits is kept.\<close>

definition bound_axis :: "axis_ref \<Rightarrow> axis_state list \<Rightarrow> nat option" where
  "bound_axis r axs = (case filter (axis_hit r axs) [0..<length axs] of [] \<Rightarrow> None | ns \<Rightarrow> Some (last ns))"

definition series_type :: "dd_env \<Rightarrow> series_opts \<Rightarrow> string" where
  "series_type env opts = (case opt_type opts of Some t \<Rightarrow> if t = '''' then default_type env else t | None \<Rightarrow> default_type env)"

definition x_axis_for :: "dd_env \<Rightarrow> dd_chart \<Rightarrow> series_opts \<Rightarrow> nat option" where
  "x_axis_for env ch opts = (if cartesian env (series_type env opts) then bound_axis (opt_xaxis opts) (x_axes ch) else None)"

definition y_axis_for :: "dd_env \<Rightarrow> dd_chart \<Rightarrow> series_opts \<Rightarrow> nat option" where
  "y_axis_for env ch opts = (if cartesian env (series_type env opts) then bound_axis (opt_yaxis opts) (y_axes ch) else None)"

text \<open>
  The colour of a series: the one in its options, or the next of the palette, whose number is kept
  in the options (\<open>_colorIndex\<close>), so that a series made again from them has it again.
\<close>

definition truthy_color :: "series_opts \<Rightarrow> bool" where
  "truthy_color opts \<longleftrightarrow> opt_color opts \<noteq> None \<and> opt_color opts \<noteq> Some ''''"

definition settled_color :: "dd_env \<Rightarrow> series_opts \<Rightarrow> bool" where
  "settled_color env opts \<longleftrightarrow> color_by_point env (series_type env opts) \<or> truthy_color opts \<or> color_no opts \<noteq> None"

definition settle_color :: "dd_env \<Rightarrow> nat \<Rightarrow> series_opts \<Rightarrow> series_opts" where
  "settle_color env counter opts = (if settled_color env opts then opts else opts\<lparr>color_no := Some (counter mod length (palette env))\<rparr>)"

definition color_of :: "dd_env \<Rightarrow> series_opts \<Rightarrow> string option" where
  "color_of env opts = (if color_by_point env (series_type env opts) then None
     else if truthy_color opts then opt_color opts
     else (case color_no opts of Some i \<Rightarrow> if i < length (palette env) then Some (palette env ! i) else None | None \<Rightarrow> None))"

text \<open>The stable sort of the series by the index of their options or, without one, their number.\<close>

definition sort_index :: "dd_chart \<Rightarrow> nat \<Rightarrow> int" where
  "sort_index ch s = (case opt_index (opts_of ch (user_options (ser_of ch s))) of
     Some i \<Rightarrow> i | None \<Rightarrow> int (creation_no (ser_of ch s)))"

definition addSeries :: "dd_env \<Rightarrow> nat \<Rightarrow> dd_chart \<Rightarrow> nat \<times> dd_chart" where
  "addSeries env r ch = (let opts = settle_color env (colorCounter ch) (opts_of ch r); s = next_ser ch;
       new = \<lparr>user_options = r, ser_type = series_type env opts, ser_color = color_of env opts,
              ser_x = x_axis_for env ch opts, ser_y = y_axis_for env ch opts,
              creation_no = length (shown ch), levelNumber = None, alive = True\<rparr>;
       ch1 = ch\<lparr>opts_of := (opts_of ch)(r := opts), ser_of := (ser_of ch)(s := new), next_ser := Suc s,
              colorCounter := (if settled_color env (opts_of ch r) then colorCounter ch else Suc (colorCounter ch))\<rparr>
     in (s, ch1\<lparr>shown := sort_key (sort_index ch1) (shown ch @ [s])\<rparr>))"

text \<open>Removing a series deletes all its properties, so its level number is undefined afterwards.\<close>

definition remove_series :: "nat \<Rightarrow> dd_chart \<Rightarrow> dd_chart" where
  "remove_series s ch = ch\<lparr>shown := remove1 s (shown ch),
     ser_of := (ser_of ch)(s := (ser_of ch s)\<lparr>alive := False, levelNumber := None, ser_x := None, ser_y := None\<rparr>)\<rparr>"

section \<open>Down\<close>

definition number_or_zero :: "nat option \<Rightarrow> nat" where
  "number_or_zero n = (case n of Some k \<Rightarrow> k | None \<Rightarrow> 0)"

definition set_level :: "nat \<Rightarrow> nat \<Rightarrow> dd_chart \<Rightarrow> dd_chart" where
  "set_level s n ch = ch\<lparr>ser_of := (ser_of ch)(s := (ser_of ch s)\<lparr>levelNumber := Some n\<rparr>)\<rparr>"

text \<open>\<open>series.levelNumber || levelNumber\<close>.\<close>

definition mark_level :: "nat \<Rightarrow> dd_chart \<Rightarrow> nat \<Rightarrow> dd_chart" where
  "mark_level n ch s = (let k = number_or_zero (levelNumber (ser_of ch s)) in set_level s (if k = 0 then n else k) ch)"

definition extremes_at :: "axis_state list \<Rightarrow> nat option \<Rightarrow> jsnum option \<times> jsnum option" where
  "extremes_at axs a = (case a of Some i \<Rightarrow> (userMin (axs ! i), userMax (axs ! i)) | None \<Rightarrow> (None, None))"

definition set_extremes :: "nat option \<Rightarrow> jsnum option \<times> jsnum option \<Rightarrow> axis_state list \<Rightarrow> axis_state list" where
  "set_extremes a e axs = (case a of
     Some i \<Rightarrow> axs[i := (axs ! i)\<lparr>userMin := fst e, userMax := snd e\<rparr>] | None \<Rightarrow> axs)"

definition same_x :: "dd_chart \<Rightarrow> nat \<Rightarrow> nat list" where
  "same_x ch s = filter (\<lambda>t. ser_x (ser_of ch t) = ser_x (ser_of ch s)) (shown ch)"

text \<open>\<open>extend({ color: color }, ddOptions)\<close> is a new object.\<close>

definition with_color :: "string option \<Rightarrow> series_opts \<Rightarrow> series_opts" where
  "with_color c opts = (case opt_color opts of Some _ \<Rightarrow> opts | None \<Rightarrow> opts\<lparr>opt_color := c\<rparr>)"

definition point_or_series_color :: "dd_point \<Rightarrow> dd_series \<Rightarrow> string option" where
  "point_or_series_color pt old = (case dd_point_color pt of
     Some c \<Rightarrow> if c = '''' then ser_color old else Some c | None \<Rightarrow> ser_color old)"

definition point_at :: "dd_chart \<Rightarrow> nat \<Rightarrow> nat \<Rightarrow> dd_point" where
  "point_at ch s p = opt_data (opts_of ch (user_options (ser_of ch s))) ! p"

text \<open>The record of a level; the new options and the new series get the next free numbers.\<close>

definition new_level :: "dd_chart \<Rightarrow> nat \<Rightarrow> nat \<Rightarrow> dd_level" where
  "new_level ch s p = (let old = ser_of ch s in
     \<lparr>lv_number = number_or_zero (levelNumber old), lv_options = user_options old,
      lv_series_options = map (\<lambda>t. user_options (ser_of ch t)) (same_x ch s),
      lv_series = same_x ch s, lv_color = point_or_series_color (point_at ch s p) old,
      lv_lower = next_ser ch, lv_lower_options = next_opts ch, lv_point = p,
      lv_extremes = (extremes_at (x_axes ch) (ser_x old), if ser_x old = None then (None, None) else extremes_at (y_axes ch) (ser_y old))\<rparr>)"

definition push_level :: "nat \<Rightarrow> nat \<Rightarrow> nat \<Rightarrow> dd_chart \<Rightarrow> dd_chart" where
  "push_level s p dd ch =
     (foldl (mark_level (number_or_zero (levelNumber (ser_of ch s)))) ch (same_x ch s))\<lparr>
       opts_of := (opts_of ch)(next_opts ch :=
         with_color (point_or_series_color (point_at ch s p) (ser_of ch s)) (opts_of ch dd)),
       next_opts := Suc (next_opts ch), levels := levels ch @ [new_level ch s p]\<rparr>"

definition clear_zoom :: "dd_series \<Rightarrow> dd_chart \<Rightarrow> dd_chart" where
  "clear_zoom old ch = (if ser_x old = None then ch
     else ch\<lparr>x_axes := set_extremes (ser_x old) (None, None) (x_axes ch),
             y_axes := set_extremes (ser_y old) (None, None) (y_axes ch)\<rparr>)"

definition addSingleSeriesAsDrilldown :: "dd_env \<Rightarrow> nat \<Rightarrow> nat \<Rightarrow> nat \<Rightarrow> dd_chart \<Rightarrow> dd_chart" where
  "addSingleSeriesAsDrilldown env s p dd ch =
     (let (t, ch1) = addSeries env (next_opts ch) (push_level s p dd ch)
      in clear_zoom (ser_of ch s) (set_level t (Suc (number_or_zero (levelNumber (ser_of ch s)))) ch1))"

definition drop_if_level :: "nat \<Rightarrow> dd_chart \<Rightarrow> nat \<Rightarrow> dd_chart" where
  "drop_if_level n ch s = (if levelNumber (ser_of ch s) = Some n then remove_series s ch else ch)"

definition getDrilldownBackText :: "dd_env \<Rightarrow> dd_chart \<Rightarrow> string option" where
  "getDrilldownBackText env ch = (if levels ch = [] then None
     else Some (back_format env (opts_of ch (lv_options (last (levels ch))))))"

definition applyDrilldown :: "dd_env \<Rightarrow> dd_chart \<Rightarrow> dd_chart" where
  "applyDrilldown env ch =
     (let ch1 = (if levels ch = [] then ch
            else (let n = lv_number (last (levels ch)) in
              foldl (drop_if_level n) ch (concat (map lv_series (filter (\<lambda>l. lv_number l = n) (levels ch))))))
      in ch1\<lparr>redraws := Suc (redraws ch1), drillUpButton := Some (getDrilldownBackText env ch1)\<rparr>)"

text \<open>The options of a drilldown are searched from the end, unless the id is among the dupes.\<close>

definition drilldown_options :: "dd_chart \<Rightarrow> dd_point \<Rightarrow> nat option" where
  "drilldown_options ch pt = (case drilldown_id pt of None \<Rightarrow> None
     | Some d \<Rightarrow> if d \<in> set (dupes ch) then None
       else find (\<lambda>r. opt_id (opts_of ch r) = Some d) (rev (dd_options ch)))"

definition doDrilldown :: "dd_env \<Rightarrow> bool \<Rightarrow> nat \<Rightarrow> nat \<Rightarrow> dd_chart \<Rightarrow> dd_chart" where
  "doDrilldown env holdRedraw s p ch = (let pt = point_at ch s p in
     case drilldown_options ch pt of None \<Rightarrow> ch
     | Some dd \<Rightarrow> (let ch1 = addSingleSeriesAsDrilldown env s p dd (ch\<lparr>dupes := dupes ch @ [the (drilldown_id pt)]\<rparr>)
         in if holdRedraw then ch1 else applyDrilldown env ch1))"

text \<open>A click on the label of a category goes down from all its points at once.\<close>

definition label_click :: "dd_env \<Rightarrow> (nat \<times> nat) list \<Rightarrow> dd_chart \<Rightarrow> dd_chart" where
  "label_click env pts ch = applyDrilldown env (foldl (\<lambda>c (s, p). doDrilldown env True s p c) ch pts)"

section \<open>Up\<close>

text \<open>
  \<open>seriesI\<close> counts down over all levels of one way up; \<open>None\<close> is the \<open>-1\<close> it has when the search
  has failed, from which the next search indexes nothing. \<open>newSeries\<close> survives a level too.
\<close>

record up_state =
  up_chart :: dd_chart
  seriesI :: "nat option"
  newSeries :: "nat option"

fun seek_lower :: "dd_chart \<Rightarrow> string option \<Rightarrow> nat \<Rightarrow> (nat option \<times> nat option) res" where
  "seek_lower ch d 0 = Inr (None, None)"
| "seek_lower ch d (Suc i) =
     (if length (shown ch) \<le> i then Inl TypeError
      else if opt_id (opts_of ch (user_options (ser_of ch (shown ch ! i)))) = d then Inr (Some (shown ch ! i), Some i)
      else seek_lower ch d i)"

definition lower_series :: "dd_level \<Rightarrow> up_state \<Rightarrow> (nat \<times> nat option) res" where
  "lower_series level st = (let ch = up_chart st in
     if alive (ser_of ch (lv_lower level)) then Inr (lv_lower level, seriesI st)
     else (case seriesI st of None \<Rightarrow> Inl TypeError
       | Some i \<Rightarrow> bind_res (seek_lower ch (opt_id (opts_of ch (lv_lower_options level))) i) (\<lambda>(found, i').
           Inr (case found of Some s \<Rightarrow> s | None \<Rightarrow> lv_lower level, i'))))"

definition with_options :: "dd_chart \<Rightarrow> nat \<Rightarrow> nat list" where
  "with_options ch r = filter (\<lambda>s. user_options (ser_of ch s) = r) (shown ch)"

definition restore_series :: "dd_env \<Rightarrow> dd_level \<Rightarrow> dd_chart \<times> nat option \<Rightarrow> nat \<Rightarrow> dd_chart \<times> nat option" where
  "restore_series env level acc r = (case acc of (ch, new) \<Rightarrow>
     let (s, ch') = (if with_options ch r = [] then addSeries env r ch else (last (with_options ch r), ch))
     in (ch', if r = lv_options level then Some s else new))"

definition restore_extremes :: "dd_level \<Rightarrow> nat \<Rightarrow> dd_chart \<Rightarrow> dd_chart" where
  "restore_extremes level t ch = (let s = ser_of ch t in
     if ser_x s = None then ch
     else ch\<lparr>x_axes := set_extremes (ser_x s) (fst (lv_extremes level)) (x_axes ch),
             y_axes := set_extremes (ser_y s) (snd (lv_extremes level)) (y_axes ch)\<rparr>)"

definition up_level :: "dd_env \<Rightarrow> nat \<Rightarrow> dd_level \<Rightarrow> up_state \<Rightarrow> up_state res" where
  "up_level env n level st =
     (if lv_number level \<noteq> n then Inr st
      else (let ch = up_chart st; st1 = st\<lparr>up_chart := ch\<lparr>levels := butlast (levels ch)\<rparr>\<rparr> in
        bind_res (lower_series level st1) (\<lambda>(old, i').
          case foldl (restore_series env level) (up_chart st1, newSeries st) (lv_series_options level) of
            (_, None) \<Rightarrow> Inl TypeError
          | (ch2, Some t) \<Rightarrow>
              (let ch3 = set_level t n ch2 in
               if \<not> alive (ser_of ch3 old) then Inl TypeError
               else Inr \<lparr>up_chart = restore_extremes level t (remove_series old ch3), seriesI = i', newSeries = Some t\<rparr>))))"

fun up_levels :: "dd_env \<Rightarrow> nat \<Rightarrow> dd_level list \<Rightarrow> up_state \<Rightarrow> up_state res" where
  "up_levels env n [] st = Inr st"
| "up_levels env n (l # ls) st = bind_res (up_level env n l st) (up_levels env n ls)"

definition drillUp :: "dd_env \<Rightarrow> dd_chart \<Rightarrow> dd_chart res" where
  "drillUp env ch =
     (if levels ch = [] then Inl TypeError
      else bind_res (up_levels env (lv_number (last (levels ch))) (rev (levels ch))
          \<lparr>up_chart = ch, seriesI = Some (length (shown ch)), newSeries = None\<rparr>) (\<lambda>st.
        let ch1 = up_chart st in
        if drillUpButton ch1 = None then Inl TypeError
        else Inr (ch1\<lparr>redraws := Suc (redraws ch1), drillUpButton := (if levels ch1 = [] then None else Some (getDrilldownBackText env ch1)), dupes := []\<rparr>)))"

section \<open>Colours between two points\<close>

text \<open>The colour of an animation at a place between zero and one.\<close>

definition dd_tweenColors :: "jsnum list \<Rightarrow> jsnum list \<Rightarrow> jsnum \<Rightarrow> string" where
  "dd_tweenColors startColor endColor pos =
     (let part = (\<lambda>i. js_add (startColor ! i) (js_mul (js_sub (endColor ! i) (startColor ! i)) pos)) in
      ''rgba('' @ join '','' (map num_to_string [math_round (part 0), math_round (part 1), math_round (part 2), part 3]) @ '')'')"

end
