(* ===== verification/Lib_Drilldown_Stack.thy ===== *)
theory Lib_Drilldown_Stack
  imports Lib_Drilldown
begin

text \<open>
  The levels of a drilldown as a stack: the effect of going down and of going up on a chart whose
  series share an axis, the invariant both keep, and the round trip of one level and of any run of
  clicks. The history of levels is an instance of the locale \<open>undo_stack\<close>.
\<close>

section \<open>The effect of going down\<close>

abbreviation uo :: "dd_chart \<Rightarrow> nat \<Rightarrow> nat" where
  "uo ch s \<equiv> user_options (ser_of ch s)"

definition dead :: "dd_series \<Rightarrow> dd_series" where
  "dead s = s\<lparr>alive := False, levelNumber := None, ser_x := None, ser_y := None\<rparr>"

lemma dead_alive [simp]: "\<not> alive (dead s)"
  by (simp add: dead_def)

lemma remove_series_dead:
  "remove_series s ch = ch\<lparr>shown := remove1 s (shown ch), ser_of := (ser_of ch)(s := dead (ser_of ch s))\<rparr>"
  by (simp add: remove_series_def dead_def)

lemma distinct_remove1_filter: "distinct xs \<Longrightarrow> remove1 x xs = filter (\<lambda>y. y \<noteq> x) xs"
  by (induction xs) (auto intro!: filter_True [symmetric])

lemma foldl_remove1: "distinct xs \<Longrightarrow> foldl (\<lambda>ys s. remove1 s ys) xs ss = filter (\<lambda>x. x \<notin> set ss) xs"
proof (induction ss arbitrary: xs)
  case (Cons s ss)
  then show ?case by (simp add: distinct_remove1_filter conj_commute)
qed simp

lemma foldl_drop:
  assumes "distinct ss" and "\<forall>s \<in> set ss. levelNumber (ser_of ch s) = Some n"
  shows "foldl (drop_if_level n) ch ss = ch\<lparr>shown := foldl (\<lambda>ys s. remove1 s ys) (shown ch) ss,
    ser_of := (\<lambda>s. if s \<in> set ss then dead (ser_of ch s) else ser_of ch s)\<rparr>"
  using assms
proof (induction ss arbitrary: ch)
  case (Cons s ss)
  have "foldl (drop_if_level n) ch (s # ss) = foldl (drop_if_level n) (remove_series s ch) ss"
    using Cons.prems by (simp add: drop_if_level_def)
  also have "\<dots> = (remove_series s ch)\<lparr>shown := foldl (\<lambda>ys s. remove1 s ys) (shown (remove_series s ch)) ss,
    ser_of := (\<lambda>t. if t \<in> set ss then dead (ser_of (remove_series s ch) t) else ser_of (remove_series s ch) t)\<rparr>"
    using Cons.prems by (intro Cons.IH) (auto simp: remove_series_dead)
  finally show ?case using Cons.prems by (auto simp: remove_series_dead fun_eq_iff)
qed simp

lemma foldl_mark:
  assumes "distinct ss" and "\<forall>s \<in> set ss. number_or_zero (levelNumber (ser_of ch s)) = n"
  shows "foldl (mark_level n) ch ss =
    ch\<lparr>ser_of := (\<lambda>s. if s \<in> set ss then (ser_of ch s)\<lparr>levelNumber := Some n\<rparr> else ser_of ch s)\<rparr>"
  using assms
proof (induction ss arbitrary: ch)
  case (Cons s ss)
  have one: "mark_level n ch s = set_level s n ch" using Cons.prems by (simp add: mark_level_def)
  have "foldl (mark_level n) (set_level s n ch) ss = (set_level s n ch)\<lparr>ser_of := (\<lambda>t. if t \<in> set ss
      then (ser_of (set_level s n ch) t)\<lparr>levelNumber := Some n\<rparr> else ser_of (set_level s n ch) t)\<rparr>"
    using Cons.prems by (intro Cons.IH) (auto simp: set_level_def)
  then show ?case using Cons.prems by (auto simp: one set_level_def fun_eq_iff)
qed simp

lemma dead_level [simp]: "dead (s\<lparr>levelNumber := x\<rparr>) = dead s"
  by (simp add: dead_def)

text \<open>Charts whose series are all on one x axis (or all on none) and in the order they were made.\<close>

definition uniform :: "dd_env \<Rightarrow> nat option \<Rightarrow> dd_chart \<Rightarrow> bool" where
  "uniform env X ch \<longleftrightarrow> (\<forall>r. opt_index (opts_of ch r) = None \<and> x_axis_for env ch (opts_of ch r) = X)"

definition made_from :: "dd_env \<Rightarrow> dd_chart \<Rightarrow> nat \<Rightarrow> dd_series \<Rightarrow> bool" where
  "made_from env ch r s \<longleftrightarrow> user_options s = r \<and> ser_type s = series_type env (opts_of ch r) \<and>
     ser_color s = color_of env (opts_of ch r) \<and> ser_x s = x_axis_for env ch (opts_of ch r) \<and>
     ser_y s = y_axis_for env ch (opts_of ch r) \<and> alive s"

definition known :: "dd_env \<Rightarrow> dd_chart \<Rightarrow> nat \<Rightarrow> bool" where
  "known env ch r \<longleftrightarrow> r < next_opts ch \<and> settled_color env (opts_of ch r)"

definition good_level :: "dd_env \<Rightarrow> dd_chart \<Rightarrow> dd_level \<Rightarrow> bool" where
  "good_level env ch l \<longleftrightarrow> distinct (lv_series_options l) \<and> lv_options l \<in> set (lv_series_options l) \<and>
     (\<forall>r \<in> set (lv_series_options l). known env ch r) \<and>
     lv_lower_options l \<notin> set (lv_series_options l) \<and> lv_lower l < next_ser ch"

text \<open>Every level below the first holds the one series of the level above it, long removed.\<close>

definition linked :: "dd_chart \<Rightarrow> bool" where
  "linked ch \<longleftrightarrow> (\<forall>i. Suc i < length (levels ch) \<longrightarrow>
     lv_series_options (levels ch ! Suc i) = [lv_lower_options (levels ch ! i)] \<and>
     \<not> alive (ser_of ch (lv_lower (levels ch ! i))))"

definition top_linked :: "dd_chart \<Rightarrow> bool" where
  "top_linked ch \<longleftrightarrow> (levels ch \<noteq> [] \<longrightarrow>
     map (uo ch) (shown ch) = [lv_lower_options (last (levels ch))] \<and> drillUpButton ch \<noteq> None \<and>
     (alive (ser_of ch (lv_lower (last (levels ch)))) \<longrightarrow> shown ch = [lv_lower (last (levels ch))]))"

definition dd_inv :: "dd_env \<Rightarrow> nat option \<Rightarrow> dd_chart \<Rightarrow> bool" where
  "dd_inv env X ch \<longleftrightarrow> uniform env X ch \<and> shown ch \<noteq> [] \<and> distinct (shown ch) \<and> distinct (map (uo ch) (shown ch)) \<and>
     (\<forall>s \<in> set (shown ch). s < next_ser ch \<and> made_from env ch (uo ch s) (ser_of ch s) \<and> known env ch (uo ch s) \<and>
        number_or_zero (levelNumber (ser_of ch s)) = length (levels ch)) \<and>
     (\<forall>i < length (levels ch). lv_number (levels ch ! i) = i \<and> good_level env ch (levels ch ! i)) \<and>
     linked ch \<and> top_linked ch"

lemma settle_color_simps [simp]:
  "opt_index (settle_color env n o1) = opt_index o1" "series_type env (settle_color env n o1) = series_type env o1"
  "x_axis_for env ch (settle_color env n o1) = x_axis_for env ch o1" "y_axis_for env ch (settle_color env n o1) = y_axis_for env ch o1"
  "opt_id (settle_color env n o1) = opt_id o1" "settled_color env (settle_color env n o1)"
  by (simp_all add: settle_color_def series_type_def x_axis_for_def y_axis_for_def settled_color_def truthy_color_def)

lemma with_color_simps [simp]:
  "opt_index (with_color c o1) = opt_index o1" "series_type env (with_color c o1) = series_type env o1"
  "x_axis_for env ch (with_color c o1) = x_axis_for env ch o1" "opt_id (with_color c o1) = opt_id o1"
  by (simp_all add: with_color_def series_type_def x_axis_for_def split: option.splits)

lemma x_axis_for_cong: "x_axes ch' = x_axes ch \<Longrightarrow> x_axis_for env ch' o1 = x_axis_for env ch o1"
  "y_axes ch' = y_axes ch \<Longrightarrow> y_axis_for env ch' o1 = y_axis_for env ch o1"
  by (simp_all add: x_axis_for_def y_axis_for_def)

text \<open>The options and the series that going down from a point adds.\<close>

definition down_options :: "dd_env \<Rightarrow> dd_chart \<Rightarrow> nat \<Rightarrow> nat \<Rightarrow> nat \<Rightarrow> series_opts" where
  "down_options env ch s p dd = settle_color env (colorCounter ch)
     (with_color (point_or_series_color (point_at ch s p) (ser_of ch s)) (opts_of ch dd))"

definition down_series :: "dd_env \<Rightarrow> dd_chart \<Rightarrow> nat \<Rightarrow> nat \<Rightarrow> nat \<Rightarrow> dd_series" where
  "down_series env ch s p dd = (let opts = down_options env ch s p dd in
     \<lparr>user_options = next_opts ch, ser_type = series_type env opts, ser_color = color_of env opts,
      ser_x = x_axis_for env ch opts, ser_y = y_axis_for env ch opts, creation_no = length (shown ch),
      levelNumber = Some (Suc (length (levels ch))), alive = True\<rparr>)"

text \<open>The series \<open>addSeries\<close> makes.\<close>

definition made_series :: "dd_env \<Rightarrow> dd_chart \<Rightarrow> nat \<Rightarrow> series_opts \<Rightarrow> nat \<Rightarrow> dd_series" where
  "made_series env ch r opts n = \<lparr>user_options = r, ser_type = series_type env opts, ser_color = color_of env opts,
     ser_x = x_axis_for env ch opts, ser_y = y_axis_for env ch opts, creation_no = n, levelNumber = None, alive = True\<rparr>"

lemma addSeries_effect:
  "addSeries env r ch = (next_ser ch, ch\<lparr>
      opts_of := (opts_of ch)(r := settle_color env (colorCounter ch) (opts_of ch r)),
      ser_of := (ser_of ch)(next_ser ch := made_series env ch r (settle_color env (colorCounter ch) (opts_of ch r)) (length (shown ch))),
      next_ser := Suc (next_ser ch),
      colorCounter := (if settled_color env (opts_of ch r) then colorCounter ch else Suc (colorCounter ch)),
      shown := sort_key (sort_index (snd (addSeries env r ch))) (shown ch @ [next_ser ch])\<rparr>)"
proof -
  have "sort_index (c\<lparr>shown := x\<rparr>) = sort_index c" for c x
    by (auto simp: fun_eq_iff sort_index_def split: option.split)
  then show ?thesis by (simp add: addSeries_def Let_def made_series_def)
qed

lemma add_single_effect:
  fixes p dd :: nat
  assumes "dd_inv env X ch" and "s \<in> set (shown ch)"
  defines "o1 \<equiv> down_options env ch s p dd" and "c \<equiv> with_color (point_or_series_color (point_at ch s p) (ser_of ch s)) (opts_of ch dd)"
  obtains ss where "set ss = insert (next_ser ch) (set (shown ch))" and "distinct ss"
    and "addSingleSeriesAsDrilldown env s p dd ch = clear_zoom (ser_of ch s) (ch\<lparr>
      opts_of := (opts_of ch)(next_opts ch := o1), next_opts := Suc (next_opts ch),
      ser_of := (\<lambda>u. if u \<in> set (shown ch) then (ser_of ch u)\<lparr>levelNumber := Some (length (levels ch))\<rparr> else ser_of ch u)
        (next_ser ch := down_series env ch s p dd),
      next_ser := Suc (next_ser ch), shown := ss,
      levels := levels ch @ [new_level ch s p],
      colorCounter := (if settled_color env c then colorCounter ch else Suc (colorCounter ch))\<rparr>)"
proof -
  define r where "r = next_opts ch"
  have X: "ser_x (ser_of ch u) = X" if "u \<in> set (shown ch)" for u
    using assms(1) that by (auto simp: dd_inv_def made_from_def uniform_def)
  have n: "number_or_zero (levelNumber (ser_of ch u)) = length (levels ch)" if "u \<in> set (shown ch)" for u
    using assms(1) that by (auto simp: dd_inv_def)
  have new: "next_ser ch \<notin> set (shown ch)" using assms(1) by (auto simp: dd_inv_def)
  have same: "same_x ch s = shown ch" using X assms(2) by (simp add: same_x_def)
  have "foldl (mark_level (length (levels ch))) ch (shown ch) =
      ch\<lparr>ser_of := (\<lambda>u. if u \<in> set (shown ch) then (ser_of ch u)\<lparr>levelNumber := Some (length (levels ch))\<rparr> else ser_of ch u)\<rparr>"
    using n assms(1) by (intro foldl_mark) (auto simp: dd_inv_def)
  then have push: "push_level s p dd ch = ch\<lparr>ser_of := (\<lambda>u. if u \<in> set (shown ch)
        then (ser_of ch u)\<lparr>levelNumber := Some (length (levels ch))\<rparr> else ser_of ch u),
      opts_of := (opts_of ch)(r := c), next_opts := Suc r, levels := levels ch @ [new_level ch s p]\<rparr>"
    by (simp add: push_level_def same n [OF assms(2)] c_def r_def)
  have o1: "settle_color env (colorCounter ch) c = o1" by (simp add: o1_def down_options_def c_def)
  define f where "f = sort_index (snd (addSeries env r (push_level s p dd ch)))"
  have add: "addSeries env r (push_level s p dd ch) = (next_ser ch, (push_level s p dd ch)\<lparr>
      opts_of := (opts_of ch)(r := o1),
      ser_of := (ser_of (push_level s p dd ch))(next_ser ch := made_series env (push_level s p dd ch) r o1 (length (shown ch))),
      next_ser := Suc (next_ser ch),
      colorCounter := (if settled_color env c then colorCounter ch else Suc (colorCounter ch)),
      shown := sort_key f (shown ch @ [next_ser ch])\<rparr>)"
    using addSeries_effect [of env r "push_level s p dd ch", folded f_def] by (simp add: push o1)
  have made: "(made_series env (push_level s p dd ch) r o1 (length (shown ch)))\<lparr>levelNumber := Some (Suc (length (levels ch)))\<rparr>
      = down_series env ch s p dd"
    by (simp add: made_series_def down_series_def Let_def push x_axis_for_def y_axis_for_def o1_def r_def)
  show thesis
  proof (rule that [of "sort_key f (shown ch @ [next_ser ch])"])
    show "distinct (sort_key f (shown ch @ [next_ser ch]))"
      "set (sort_key f (shown ch @ [next_ser ch])) = insert (next_ser ch) (set (shown ch))"
      using assms(1) new by (simp_all add: dd_inv_def)
    show "addSingleSeriesAsDrilldown env s p dd ch = clear_zoom (ser_of ch s) (ch\<lparr>
      opts_of := (opts_of ch)(next_opts ch := o1), next_opts := Suc (next_opts ch),
      ser_of := (\<lambda>u. if u \<in> set (shown ch) then (ser_of ch u)\<lparr>levelNumber := Some (length (levels ch))\<rparr> else ser_of ch u)
        (next_ser ch := down_series env ch s p dd),
      next_ser := Suc (next_ser ch), shown := sort_key f (shown ch @ [next_ser ch]),
      levels := levels ch @ [new_level ch s p],
      colorCounter := (if settled_color env c then colorCounter ch else Suc (colorCounter ch))\<rparr>)"
      using add by (simp only: addSingleSeriesAsDrilldown_def n [OF assms(2)] r_def [symmetric] prod.case Let_def)
        (intro arg_cong [where f = "clear_zoom _"], simp add: set_level_def made, simp add: push r_def)
  qed
qed

lemma distinct_single: "set xs = set [x] \<Longrightarrow> distinct xs \<Longrightarrow> xs = [x]"
  by (cases xs rule: list.exhaust; cases "tl xs") auto

text \<open>Going down from a point whose id has options: one new series, one more level.\<close>

definition down_chart :: "dd_env \<Rightarrow> dd_chart \<Rightarrow> nat \<Rightarrow> nat \<Rightarrow> nat \<Rightarrow> dd_chart" where
  "down_chart env ch s p dd = clear_zoom (ser_of ch s) (ch\<lparr>
      opts_of := (opts_of ch)(next_opts ch := down_options env ch s p dd), next_opts := Suc (next_opts ch),
      ser_of := (\<lambda>u. if u \<in> set (shown ch) then dead (ser_of ch u) else ser_of ch u)(next_ser ch := down_series env ch s p dd),
      next_ser := Suc (next_ser ch), shown := [next_ser ch],
      levels := levels ch @ [new_level ch s p],
      colorCounter := (if settled_color env (with_color (point_or_series_color (point_at ch s p) (ser_of ch s)) (opts_of ch dd))
        then colorCounter ch else Suc (colorCounter ch)),
      drillUpButton := Some (Some (back_format env (((opts_of ch)(next_opts ch := down_options env ch s p dd)) (uo ch s)))),
      redraws := Suc (redraws ch)\<rparr>)"

lemma clear_zoom_simps [simp]:
  "opts_of (clear_zoom old ch) = opts_of ch" "ser_of (clear_zoom old ch) = ser_of ch" "shown (clear_zoom old ch) = shown ch"
  "levels (clear_zoom old ch) = levels ch" "next_ser (clear_zoom old ch) = next_ser ch" "next_opts (clear_zoom old ch) = next_opts ch"
  "dupes (clear_zoom old ch) = dupes ch" "drillUpButton (clear_zoom old ch) = drillUpButton ch"
  by (simp_all add: clear_zoom_def)

lemma clear_zoom_update:
  "clear_zoom old (ch\<lparr>shown := a, ser_of := b, drillUpButton := c, redraws := d\<rparr>) =
     (clear_zoom old ch)\<lparr>shown := a, ser_of := b, drillUpButton := c, redraws := d\<rparr>"
  by (simp add: clear_zoom_def)

lemma down_effect:
  assumes inv: "dd_inv env X ch" and s: "s \<in> set (shown ch)"
  shows "applyDrilldown env (addSingleSeriesAsDrilldown env s p dd ch) = down_chart env ch s p dd"
proof -
  define c1 where "c1 = addSingleSeriesAsDrilldown env s p dd ch"
  obtain ss where ss: "set ss = insert (next_ser ch) (set (shown ch))" "distinct ss"
    and c1: "c1 = clear_zoom (ser_of ch s) (ch\<lparr>
      opts_of := (opts_of ch)(next_opts ch := down_options env ch s p dd), next_opts := Suc (next_opts ch),
      ser_of := (\<lambda>u. if u \<in> set (shown ch) then (ser_of ch u)\<lparr>levelNumber := Some (length (levels ch))\<rparr> else ser_of ch u)
        (next_ser ch := down_series env ch s p dd),
      next_ser := Suc (next_ser ch), shown := ss,
      levels := levels ch @ [new_level ch s p],
      colorCounter := (if settled_color env (with_color (point_or_series_color (point_at ch s p) (ser_of ch s)) (opts_of ch dd))
        then colorCounter ch else Suc (colorCounter ch))\<rparr>)"
    by (rule add_single_effect [OF inv s, where p = p and dd = dd]) (rule that, simp_all only: c1_def)
  have X: "ser_x (ser_of ch u) = X" if "u \<in> set (shown ch)" for u
    using inv that by (auto simp: dd_inv_def made_from_def uniform_def)
  have new: "next_ser ch \<notin> set (shown ch)" using inv by (auto simp: dd_inv_def)
  have lvl: "lv_series (new_level ch s p) = shown ch" "lv_number (new_level ch s p) = length (levels ch)"
    "lv_options (new_level ch s p) = uo ch s"
    using X s inv by (simp_all add: new_level_def Let_def same_x_def dd_inv_def)
  have only: "filter (\<lambda>l. lv_number l = length (levels ch)) (levels ch @ [new_level ch s p]) = [new_level ch s p]"
    using inv lvl by (auto simp: dd_inv_def filter_empty_conv in_set_conv_nth)
  have drop: "foldl (drop_if_level (length (levels ch))) c1 (shown ch) = c1\<lparr>shown := [next_ser ch],
    ser_of := (\<lambda>u. if u \<in> set (shown ch) then dead (ser_of ch u) else ser_of ch u)(next_ser ch := down_series env ch s p dd)\<rparr>"
  proof -
    have "set (filter (\<lambda>x. x \<notin> set (shown ch)) ss) = set [next_ser ch]" using ss new by auto
    moreover have "distinct (filter (\<lambda>x. x \<notin> set (shown ch)) ss)" using ss by simp
    ultimately have f: "filter (\<lambda>x. x \<notin> set (shown ch)) ss = [next_ser ch]" by (rule distinct_single)
    have "distinct (shown ch)" using inv by (simp add: dd_inv_def)
    moreover have "\<forall>u \<in> set (shown ch). levelNumber (ser_of c1 u) = Some (length (levels ch))"
      using new by (auto simp: c1)
    ultimately have "foldl (drop_if_level (length (levels ch))) c1 (shown ch) =
        c1\<lparr>shown := foldl (\<lambda>ys s. remove1 s ys) (shown c1) (shown ch),
           ser_of := (\<lambda>s. if s \<in> set (shown ch) then dead (ser_of c1 s) else ser_of c1 s)\<rparr>"
      by (rule foldl_drop)
    moreover have "foldl (\<lambda>ys s. remove1 s ys) (shown c1) (shown ch) = [next_ser ch]"
      using foldl_remove1 [OF ss(2)] f by (simp add: c1)
    moreover have "(\<lambda>s. if s \<in> set (shown ch) then dead (ser_of c1 s) else ser_of c1 s) =
        (\<lambda>u. if u \<in> set (shown ch) then dead (ser_of ch u) else ser_of ch u)(next_ser ch := down_series env ch s p dd)"
      using new by (auto simp: c1 fun_eq_iff)
    ultimately show ?thesis by simp
  qed
  have "applyDrilldown env c1 = c1\<lparr>shown := [next_ser ch],
      ser_of := (\<lambda>u. if u \<in> set (shown ch) then dead (ser_of ch u) else ser_of ch u)(next_ser ch := down_series env ch s p dd),
      drillUpButton := Some (Some (back_format env (((opts_of ch)(next_opts ch := down_options env ch s p dd)) (uo ch s)))),
      redraws := Suc (redraws c1)\<rparr>"
  proof -
    have "levels c1 = levels ch @ [new_level ch s p]" "opts_of c1 = (opts_of ch)(next_opts ch := down_options env ch s p dd)"
      by (simp_all add: c1)
    then show ?thesis
      using drop by (simp add: applyDrilldown_def Let_def only lvl getDrilldownBackText_def del: filter_append)
  qed
  also have "\<dots> = down_chart env ch s p dd"
    unfolding down_chart_def c1 clear_zoom_update [symmetric]
    by (intro arg_cong [where f = "clear_zoom _"]) (simp add: clear_zoom_def)
  finally show ?thesis by (simp add: c1_def)
qed

definition noted :: "dd_chart \<Rightarrow> nat \<Rightarrow> nat \<Rightarrow> dd_chart" where
  "noted ch s p = ch\<lparr>dupes := dupes ch @ [the (drilldown_id (point_at ch s p))]\<rparr>"

lemma noted_inv: "dd_inv env X ch \<Longrightarrow> dd_inv env X (noted ch s p)"
  by (simp add: noted_def dd_inv_def uniform_def made_from_def known_def good_level_def linked_def top_linked_def
      x_axis_for_def y_axis_for_def cong: if_cong)

lemma doDrilldown_effect:
  assumes "dd_inv env X ch" and "s \<in> set (shown ch)" and "drilldown_options ch (point_at ch s p) = Some dd"
  shows "doDrilldown env False s p ch = down_chart env (noted ch s p) s p dd"
  using down_effect [OF noted_inv [OF assms(1), of s p], of s p dd] assms(2,3)
  by (simp add: doDrilldown_def Let_def noted_def)

section \<open>The invariant is kept on the way down\<close>

lemma bound_axis_extremes [simp]: "bound_axis r (set_extremes a e axs) = bound_axis r axs"
proof -
  have "axis_hit r (set_extremes a e axs) i = axis_hit r axs i" if "i < length axs" for i
  proof -
    have "axis_id (set_extremes a e axs ! i) = axis_id (axs ! i)"
      using that by (cases a; cases "the a < length axs") (auto simp: set_extremes_def nth_list_update)
    then show ?thesis by (cases r) (simp_all add: axis_hit_def)
  qed
  moreover have "length (set_extremes a e axs) = length axs" by (simp add: set_extremes_def split: option.split)
  moreover have "filter (axis_hit r (set_extremes a e axs)) [0..<length axs] = filter (axis_hit r axs) [0..<length axs]"
    using calculation(1) by (intro filter_cong) auto
  ultimately show ?thesis by (simp add: bound_axis_def)
qed

lemma clear_zoom_axes [simp]:
  "x_axis_for env (clear_zoom old ch) o1 = x_axis_for env ch o1" "y_axis_for env (clear_zoom old ch) o1 = y_axis_for env ch o1"
  by (simp_all add: clear_zoom_def x_axis_for_def y_axis_for_def)

lemma down_chart_fields:
  fixes env :: dd_env and ch :: dd_chart and s p dd :: nat
  defines "ch' \<equiv> down_chart env ch s p dd"
  shows "opts_of ch' = (opts_of ch)(next_opts ch := down_options env ch s p dd)" "next_opts ch' = Suc (next_opts ch)"
    "ser_of ch' = (\<lambda>u. if u \<in> set (shown ch) then dead (ser_of ch u) else ser_of ch u)(next_ser ch := down_series env ch s p dd)"
    "next_ser ch' = Suc (next_ser ch)" "shown ch' = [next_ser ch]" "levels ch' = levels ch @ [new_level ch s p]"
    "drillUpButton ch' = Some (Some (back_format env (((opts_of ch)(next_opts ch := down_options env ch s p dd)) (uo ch s))))"
    "x_axis_for env ch' o1 = x_axis_for env ch o1" "y_axis_for env ch' o1 = y_axis_for env ch o1"
    "dupes ch' = dupes ch"
  by (simp_all add: ch'_def down_chart_def) (simp_all add: x_axis_for_def y_axis_for_def)

text \<open>What the invariant says of a series that is shown.\<close>

lemma shown_facts:
  assumes "dd_inv env X ch" and "s \<in> set (shown ch)"
  shows "s < next_ser ch" "made_from env ch (uo ch s) (ser_of ch s)" "known env ch (uo ch s)"
    "number_or_zero (levelNumber (ser_of ch s)) = length (levels ch)" "ser_x (ser_of ch s) = X" "uo ch s < next_opts ch"
  using assms by (auto simp: dd_inv_def made_from_def uniform_def known_def)

lemma new_level_facts:
  assumes inv: "dd_inv env X ch" and s: "s \<in> set (shown ch)"
  shows "lv_series (new_level ch s p) = shown ch" "lv_number (new_level ch s p) = length (levels ch)"
    "lv_options (new_level ch s p) = uo ch s" "lv_series_options (new_level ch s p) = map (uo ch) (shown ch)"
    "lv_lower (new_level ch s p) = next_ser ch" "lv_lower_options (new_level ch s p) = next_opts ch"
  using shown_facts [OF inv] s by (simp_all add: new_level_def Let_def same_x_def)

lemma down_inv:
  assumes inv: "dd_inv env X ch" and s: "s \<in> set (shown ch)"
  shows "dd_inv env X (down_chart env ch s p dd)"
proof -
  let ?c = "down_chart env ch s p dd"
  note f = down_chart_fields [of env ch s p dd]
  note lv = new_level_facts [OF inv s]
  have uni: "opt_index (opts_of ch r) = None" "x_axis_for env ch (opts_of ch r) = X" for r
    using inv by (auto simp: dd_inv_def uniform_def)
  have o1: "opt_index (down_options env ch s p dd) = None" "x_axis_for env ch (down_options env ch s p dd) = X"
    "settled_color env (down_options env ch s p dd)"
    using uni by (simp_all add: down_options_def)
  have uniform: "uniform env X ?c" using uni o1 by (simp add: uniform_def f)
  have made: "made_from env ?c (next_opts ch) (down_series env ch s p dd)"
    by (simp add: made_from_def f down_series_def Let_def)
  have kn: "known env ?c r" if "known env ch r" for r using that by (auto simp: known_def f)
  have old: "lv_number (levels ch ! i) = i" "good_level env ch (levels ch ! i)" if "i < length (levels ch)" for i
    using inv that by (auto simp: dd_inv_def)
  have stays: "good_level env ?c l" if "good_level env ch l" for l
    using that kn by (auto simp: good_level_def f(4))
  have fresh: "next_opts ch \<noteq> uo ch u" if "u \<in> set (shown ch)" for u using shown_facts(6) [OF inv that] by simp
  have "good_level env ?c (new_level ch s p)"
    using inv s kn shown_facts(3) [OF inv] fresh by (auto simp: good_level_def lv f(4) dd_inv_def)
  then have lvls: "\<forall>i < length (levels ?c). lv_number (levels ?c ! i) = i \<and> good_level env ?c (levels ?c ! i)"
    using old stays lv(2) by (auto simp: f(6) nth_append less_Suc_eq)
  have gone: "\<not> alive (ser_of ?c u)" if "u < next_ser ch" "alive (ser_of ch u) \<longrightarrow> u \<in> set (shown ch)" for u
    using that by (auto simp: f(3))
  have low: "lv_lower (levels ch ! i) < next_ser ch" if "i < length (levels ch)" for i
    using old(2) [OF that] by (simp add: good_level_def)
  have tl: "map (uo ch) (shown ch) = [lv_lower_options (last (levels ch))]"
    "alive (ser_of ch (lv_lower (last (levels ch)))) \<Longrightarrow> shown ch = [lv_lower (last (levels ch))]" if "levels ch \<noteq> []"
    using inv that by (auto simp: dd_inv_def top_linked_def)
  have "linked ?c"
    unfolding linked_def
  proof (intro allI impI)
    fix i
    assume i: "Suc i < length (levels ?c)"
    show "lv_series_options (levels ?c ! Suc i) = [lv_lower_options (levels ?c ! i)] \<and> \<not> alive (ser_of ?c (lv_lower (levels ?c ! i)))"
    proof (cases "Suc i < length (levels ch)")
      case True
      moreover have "lv_series_options (levels ch ! Suc i) = [lv_lower_options (levels ch ! i)] \<and> \<not> alive (ser_of ch (lv_lower (levels ch ! i)))"
        using inv True by (auto simp: dd_inv_def linked_def)
      ultimately show ?thesis using gone [of "lv_lower (levels ch ! i)"] low [of i] by (simp add: f(6) nth_append)
    next
      case False
      then have e: "Suc i = length (levels ch)" "levels ch \<noteq> []" "i = length (levels ch) - 1" using i by (auto simp: f(6))
      then have l: "levels ch ! i = last (levels ch)" by (simp add: last_conv_nth)
      have "\<not> alive (ser_of ?c (lv_lower (levels ch ! i)))" using gone low [of i] tl(2) [OF e(2)] e(1) l by auto
      then show ?thesis using e tl(1) [OF e(2)] l by (simp add: f(6) nth_append lv)
    qed
  qed
  moreover have "top_linked ?c" by (simp add: top_linked_def f lv down_series_def Let_def)
  moreover have "known env ?c (next_opts ch)" using o1 by (simp add: known_def f)
  ultimately show ?thesis
    using uniform lvls made by (simp add: dd_inv_def f(3-6) down_series_def Let_def number_or_zero_def)
qed

section \<open>The effect of going up\<close>

text \<open>The series made again for the first options of a level, next to the one below it.\<close>

definition again :: "dd_env \<Rightarrow> dd_chart \<Rightarrow> nat list \<Rightarrow> nat \<Rightarrow> dd_series" where
  "again env ch rs s = (let i = s - next_ser ch in made_series env ch (rs ! i) (opts_of ch (rs ! i)) (Suc i))"

definition restored :: "dd_env \<Rightarrow> dd_chart \<Rightarrow> nat list \<Rightarrow> nat list \<Rightarrow> dd_chart" where
  "restored env ch qs sh = ch\<lparr>
     ser_of := (\<lambda>s. if next_ser ch \<le> s \<and> s < next_ser ch + length qs then again env ch qs s else ser_of ch s),
     next_ser := next_ser ch + length qs, shown := sh\<rparr>"

lemma restored_step:
  assumes u: "u < next_ser ch" "uo ch u \<notin> set (qs @ [r])"
    and d: "distinct (qs @ [r])" and kn: "settled_color env (opts_of ch r)" and no: "\<forall>r. opt_index (opts_of ch r) = None"
    and sh: "set sh = insert u {next_ser ch ..< next_ser ch + length qs}" "distinct sh"
      "filter (\<lambda>s. s \<noteq> u) sh = [next_ser ch ..< next_ser ch + length qs]"
  obtains sh' where "set sh' = insert u {next_ser ch ..< next_ser ch + length (qs @ [r])}" "distinct sh'"
    "filter (\<lambda>s. s \<noteq> u) sh' = [next_ser ch ..< next_ser ch + length (qs @ [r])]"
    "restore_series env l (restored env ch qs sh, new) r =
       (restored env ch (qs @ [r]) sh', if r = lv_options l then Some (next_ser ch + length qs) else new)"
proof -
  let ?N = "next_ser ch" and ?c = "restored env ch qs sh"
  define f where "f = sort_index (snd (addSeries env r ?c))"
  define sh' where "sh' = sort_key f (sh @ [?N + length qs])"
  have len: "length sh = Suc (length qs)" using sh u(1) distinct_card [OF sh(2)] by simp
  have none: "with_options ?c r = []"
  proof -
    have "uo ?c s \<noteq> r" if "s \<in> set sh" for s
    proof (cases "s = u")
      case True
      then show ?thesis using u by (simp add: restored_def)
    next
      case False
      then have "?N \<le> s" "s < ?N + length qs" using that sh(1) by auto
      then show ?thesis using d by (auto simp: restored_def again_def made_series_def Let_def)
    qed
    then show ?thesis by (simp add: with_options_def filter_empty_conv) (simp add: restored_def)
  qed
  have ser: "(ser_of ?c)(?N + length qs := made_series env ?c r (opts_of ch r) (length sh)) =
      (\<lambda>s. if ?N \<le> s \<and> s < ?N + length (qs @ [r]) then again env ch (qs @ [r]) s else ser_of ch s)"
  proof (rule ext)
    fix s
    show "((ser_of ?c)(?N + length qs := made_series env ?c r (opts_of ch r) (length sh))) s =
      (if ?N \<le> s \<and> s < ?N + length (qs @ [r]) then again env ch (qs @ [r]) s else ser_of ch s)"
    proof (cases "s = ?N + length qs")
      case True
      then show ?thesis
        by (simp add: again_def len made_series_def Let_def) (simp add: restored_def x_axis_for_def y_axis_for_def)
    next
      case False
      have "again env ch (qs @ [r]) s = again env ch qs s" if "?N \<le> s" "s < ?N + length qs"
        using that by (simp add: again_def nth_append less_diff_conv2)
      then show ?thesis using False by (auto simp: restored_def)
    qed
  qed
  have eff: "addSeries env r ?c = (?N + length qs, restored env ch (qs @ [r]) sh')"
    using addSeries_effect [of env r ?c, folded f_def] ser kn
    by (simp add: settle_color_def sh'_def) (simp add: restored_def)
  have key: "f s = int (Suc (s - ?N))" if "?N \<le> s" "s < ?N + length (qs @ [r])" for s
    using that no by (simp add: f_def eff sort_index_def) (simp add: restored_def again_def made_series_def Let_def)
  have "filter (\<lambda>s. s \<noteq> u) sh' = sort_key f ([?N ..< ?N + length qs] @ [?N + length qs])"
    using sh(3) u(1) by (simp add: sh'_def filter_sort)
  also have "\<dots> = [?N ..< ?N + length qs] @ [?N + length qs]"
  proof (rule sort_key_id_if_sorted)
    have m: "map f [?N ..< ?N + length (qs @ [r])] = map (\<lambda>s. int (Suc (s - ?N))) [?N ..< ?N + length (qs @ [r])]"
      by (rule map_cong [OF refl]) (rule key, auto)
    have s: "sorted (map (\<lambda>s. int (Suc (s - ?N))) [?N ..< ?N + length (qs @ [r])])"
      by (rule sorted_map_mono) (auto simp: mono_on_def sorted_append)
    have e: "[?N ..< ?N + length qs] @ [?N + length qs] = [?N ..< ?N + length (qs @ [r])]" by simp
    show "sorted (map f ([?N ..< ?N + length qs] @ [?N + length qs]))" unfolding e m by (rule s)
  qed
  finally have fil: "filter (\<lambda>s. s \<noteq> u) sh' = [?N ..< ?N + length (qs @ [r])]" by simp
  show thesis
  proof (rule that [of sh'])
    show "set sh' = insert u {?N ..< ?N + length (qs @ [r])}" "distinct sh'"
    proof -
      have n: "?N + length qs \<notin> set sh" using sh(1) u(1) by simp
      then show "distinct sh'" using sh(2) by (simp add: sh'_def)
      have "{?N ..< ?N + length (qs @ [r])} = insert (?N + length qs) {?N ..< ?N + length qs}"
        by (simp add: atLeastLessThanSuc)
      then show "set sh' = insert u {?N ..< ?N + length (qs @ [r])}" using sh(1) by (simp add: sh'_def insert_commute)
    qed
    show "restore_series env l (?c, new) r =
       (restored env ch (qs @ [r]) sh', if r = lv_options l then Some (?N + length qs) else new)"
      by (simp add: restore_series_def none eff)
  qed (rule fil)
qed

lemma restored_all:
  assumes u: "u < next_ser ch" "uo ch u \<notin> set rs" and "shown ch = [u]"
    and "distinct rs" and "\<forall>r \<in> set rs. settled_color env (opts_of ch r)" and "\<forall>r. opt_index (opts_of ch r) = None"
  shows "\<exists>sh new. foldl (restore_series env l) (ch, None) rs = (restored env ch rs sh, new) \<and>
    set sh = insert u {next_ser ch ..< next_ser ch + length rs} \<and> distinct sh \<and>
    filter (\<lambda>s. s \<noteq> u) sh = [next_ser ch ..< next_ser ch + length rs] \<and>
    (lv_options l \<in> set rs \<longrightarrow> (\<exists>i < length rs. new = Some (next_ser ch + i) \<and> rs ! i = lv_options l))"
  using assms(2,4,5)
proof (induction rs rule: rev_induct)
  case Nil
  have "(\<lambda>s. if next_ser ch \<le> s \<and> s < next_ser ch then again env ch [] s else ser_of ch s) = ser_of ch"
    by (auto simp: fun_eq_iff)
  then have "restored env ch [] [u] = ch" using assms(3) by (simp add: restored_def)
  then show ?case using assms(1) by (intro exI [of _ "[u]"] exI [of _ None]) simp
next
  case (snoc r qs)
  then obtain sh new where ih: "foldl (restore_series env l) (ch, None) qs = (restored env ch qs sh, new)"
      "set sh = insert u {next_ser ch ..< next_ser ch + length qs}" "distinct sh"
      "filter (\<lambda>s. s \<noteq> u) sh = [next_ser ch ..< next_ser ch + length qs]"
      "lv_options l \<in> set qs \<longrightarrow> (\<exists>i < length qs. new = Some (next_ser ch + i) \<and> qs ! i = lv_options l)"
    by auto
  have "settled_color env (opts_of ch r)" using snoc.prems by simp
  from restored_step [OF assms(1) snoc.prems(1,2) this assms(6) ih(2-4), of l new]
  obtain sh' where sh': "set sh' = insert u {next_ser ch ..< next_ser ch + length (qs @ [r])}" "distinct sh'"
    "filter (\<lambda>s. s \<noteq> u) sh' = [next_ser ch ..< next_ser ch + length (qs @ [r])]"
    "restore_series env l (restored env ch qs sh, new) r =
       (restored env ch (qs @ [r]) sh', if r = lv_options l then Some (next_ser ch + length qs) else new)"
    by blast
  have "lv_options l \<in> set (qs @ [r]) \<longrightarrow> (\<exists>i < length (qs @ [r]).
      (if r = lv_options l then Some (next_ser ch + length qs) else new) = Some (next_ser ch + i) \<and> (qs @ [r]) ! i = lv_options l)"
    using ih(5) by (auto simp: nth_append intro: exI [of _ "length qs"])
  then show ?case using sh' ih(1)
    by (intro exI [of _ sh'] exI [of _ "if r = lv_options l then Some (next_ser ch + length qs) else new"]) simp
qed

lemma up_levels_skip: "(\<forall>l \<in> set ls. lv_number l \<noteq> n) \<Longrightarrow> up_levels env n ls st = Inr st"
  by (induction ls) (simp_all add: up_level_def)

text \<open>The chart after going up from its last level, with the series \<open>t\<close> made from the level's options.\<close>

definition up_chart_of :: "dd_env \<Rightarrow> dd_chart \<Rightarrow> nat \<Rightarrow> dd_chart" where
  "up_chart_of env ch t = (let l = last (levels ch); u = hd (shown ch); rs = lv_series_options l in
     restore_extremes l t (ch\<lparr>levels := butlast (levels ch),
       ser_of := (\<lambda>s. if s = u then dead (ser_of ch u)
         else if s = t then (again env ch rs t)\<lparr>levelNumber := Some (length (levels ch) - 1)\<rparr>
         else if next_ser ch \<le> s \<and> s < next_ser ch + length rs then again env ch rs s else ser_of ch s),
       next_ser := next_ser ch + length rs, shown := [next_ser ch ..< next_ser ch + length rs]\<rparr>))"

lemma drillUp_effect:
  assumes inv: "dd_inv env X ch" and ne: "levels ch \<noteq> []"
  obtains i where "i < length (lv_series_options (last (levels ch)))"
    and "lv_series_options (last (levels ch)) ! i = lv_options (last (levels ch))"
    and "drillUp env ch = (let c = up_chart_of env ch (next_ser ch + i) in
      Inr (c\<lparr>redraws := Suc (redraws c), drillUpButton := (if levels c = [] then None else Some (getDrilldownBackText env c)), dupes := []\<rparr>))"
proof -
  define l where "l = last (levels ch)"
  define n where "n = length (levels ch) - 1"
  define rs where "rs = lv_series_options l"
  have ls: "levels ch = butlast (levels ch) @ [l]" using ne by (simp add: l_def)
  have nl: "lv_number l = n" "good_level env ch l"
    using inv ne by (auto simp: dd_inv_def l_def last_conv_nth n_def)
  have low: "map (uo ch) (shown ch) = [lv_lower_options l]" "drillUpButton ch \<noteq> None"
    "alive (ser_of ch (lv_lower l)) \<longrightarrow> shown ch = [lv_lower l]"
    using inv ne by (auto simp: dd_inv_def top_linked_def l_def)
  then obtain u where u: "shown ch = [u]" "uo ch u = lv_lower_options l" by auto
  have uf: "u < next_ser ch" "alive (ser_of ch u)" using shown_facts(1,2) [OF inv] u by (auto simp: made_from_def)
  let ?ch1 = "ch\<lparr>levels := butlast (levels ch)\<rparr>"
  have "\<exists>sh new. foldl (restore_series env l) (?ch1, None) rs = (restored env ?ch1 rs sh, new) \<and>
    set sh = insert u {next_ser ?ch1 ..< next_ser ?ch1 + length rs} \<and> distinct sh \<and>
    filter (\<lambda>s. s \<noteq> u) sh = [next_ser ?ch1 ..< next_ser ?ch1 + length rs] \<and>
    (lv_options l \<in> set rs \<longrightarrow> (\<exists>i < length rs. new = Some (next_ser ?ch1 + i) \<and> rs ! i = lv_options l))"
    using u uf nl(2) inv by (intro restored_all) (auto simp: good_level_def rs_def known_def dd_inv_def uniform_def)
  then obtain sh i where f: "foldl (restore_series env l) (?ch1, None) rs = (restored env ?ch1 rs sh, Some (next_ser ch + i))"
    and sh: "distinct sh" "filter (\<lambda>s. s \<noteq> u) sh = [next_ser ch ..< next_ser ch + length rs]" and i: "i < length rs" "rs ! i = lv_options l"
    using nl(2) by (auto simp: good_level_def rs_def)
  let ?t = "next_ser ch + i"
  define c2 where "c2 = set_level ?t n (restored env ?ch1 rs sh)"
  have "\<exists>i'. lower_series l \<lparr>up_chart = ?ch1, seriesI = Some (length (shown ch)), newSeries = None\<rparr> = Inr (u, i')"
    using low(3) u by (auto simp: lower_series_def Let_def)
  then obtain i' where lower: "lower_series l \<lparr>up_chart = ?ch1, seriesI = Some (length (shown ch)), newSeries = None\<rparr> = Inr (u, i')" ..
  have au: "alive (ser_of c2 u)" using uf by (simp add: c2_def set_level_def restored_def)
  have ag: "again env ?ch1 rs s = again env ch rs s" for s
    by (simp add: again_def made_series_def x_axis_for_def y_axis_for_def Let_def)
  have rm: "remove1 u sh = [next_ser ch ..< next_ser ch + length rs]"
    using sh by (simp add: distinct_remove1_filter)
  have up: "restore_extremes l ?t (remove_series u c2) = up_chart_of env ch ?t"
  proof -
    have "remove_series u c2 = ch\<lparr>levels := butlast (levels ch),
       ser_of := (\<lambda>s. if s = u then dead (ser_of ch u)
         else if s = ?t then (again env ch rs ?t)\<lparr>levelNumber := Some (length (levels ch) - 1)\<rparr>
         else if next_ser ch \<le> s \<and> s < next_ser ch + length rs then again env ch rs s else ser_of ch s),
       next_ser := next_ser ch + length rs, shown := [next_ser ch ..< next_ser ch + length rs]\<rparr>"
      using uf i by (auto simp: remove_series_dead c2_def set_level_def restored_def rm ag n_def fun_eq_iff)
    then show ?thesis by (simp add: up_chart_of_def Let_def l_def [symmetric] u(1) rs_def cong: if_cong)
  qed
  have one: "up_level env n l \<lparr>up_chart = ch, seriesI = Some (length (shown ch)), newSeries = None\<rparr> =
      Inr \<lparr>up_chart = up_chart_of env ch ?t, seriesI = i', newSeries = Some ?t\<rparr>"
    using nl(1) lower f au up by (simp add: up_level_def Let_def rs_def [symmetric] c2_def [symmetric])
  have rest: "\<forall>l' \<in> set (rev (butlast (levels ch))). lv_number l' \<noteq> n"
  proof
    fix l'
    assume "l' \<in> set (rev (butlast (levels ch)))"
    then obtain k where k: "k < n" "l' = levels ch ! k"
      by (auto simp: in_set_conv_nth n_def nth_butlast)
    then show "lv_number l' \<noteq> n" using inv by (auto simp: dd_inv_def n_def)
  qed
  have rv: "rev (levels ch) = l # rev (butlast (levels ch))" by (subst ls) simp
  have ups: "up_levels env n (rev (levels ch)) \<lparr>up_chart = ch, seriesI = Some (length (shown ch)), newSeries = None\<rparr> =
      Inr \<lparr>up_chart = up_chart_of env ch ?t, seriesI = i', newSeries = Some ?t\<rparr>"
    unfolding rv by (simp add: one up_levels_skip [OF rest])
  have "drillUpButton (up_chart_of env ch ?t) \<noteq> None"
    using low(2) by (simp add: up_chart_of_def Let_def restore_extremes_def)
  then show thesis
    using i ups nl(1) ne by (intro that [of i]) (simp_all add: drillUp_def l_def rs_def Let_def)
qed

lemma restore_extremes_simps [simp]:
  "opts_of (restore_extremes l t ch) = opts_of ch" "ser_of (restore_extremes l t ch) = ser_of ch"
  "shown (restore_extremes l t ch) = shown ch" "levels (restore_extremes l t ch) = levels ch"
  "next_ser (restore_extremes l t ch) = next_ser ch" "next_opts (restore_extremes l t ch) = next_opts ch"
  "x_axis_for env (restore_extremes l t ch) o1 = x_axis_for env ch o1"
  "y_axis_for env (restore_extremes l t ch) o1 = y_axis_for env ch o1"
  by (simp_all add: restore_extremes_def Let_def x_axis_for_def y_axis_for_def)

definition up_done :: "dd_env \<Rightarrow> dd_chart \<Rightarrow> nat \<Rightarrow> dd_chart" where
  "up_done env ch t = (let c = up_chart_of env ch t in
     c\<lparr>redraws := Suc (redraws c), drillUpButton := (if levels c = [] then None else Some (getDrilldownBackText env c)), dupes := []\<rparr>)"

lemma up_done_fields:
  fixes env :: dd_env and ch :: dd_chart and t :: nat
  defines "c \<equiv> up_done env ch t" and "rs \<equiv> lv_series_options (last (levels ch))"
  shows "opts_of c = opts_of ch" "next_opts c = next_opts ch" "next_ser c = next_ser ch + length rs"
    "shown c = [next_ser ch ..< next_ser ch + length rs]" "levels c = butlast (levels ch)"
    "ser_of c = (\<lambda>s. if s = hd (shown ch) then dead (ser_of ch (hd (shown ch)))
         else if s = t then (again env ch rs t)\<lparr>levelNumber := Some (length (levels ch) - 1)\<rparr>
         else if next_ser ch \<le> s \<and> s < next_ser ch + length rs then again env ch rs s else ser_of ch s)"
    "dupes c = []" "levels c \<noteq> [] \<Longrightarrow> drillUpButton c \<noteq> None" "levels c = [] \<Longrightarrow> drillUpButton c = None"
    "x_axis_for env c o1 = x_axis_for env ch o1" "y_axis_for env c o1 = y_axis_for env ch o1"
  by (simp_all add: c_def rs_def up_done_def up_chart_of_def Let_def cong: if_cong)
    (simp_all add: restore_extremes_def x_axis_for_def y_axis_for_def Let_def)

lemma up_inv:
  assumes inv: "dd_inv env X ch" and ne: "levels ch \<noteq> []"
    and i: "i < length (lv_series_options (last (levels ch)))"
    "lv_series_options (last (levels ch)) ! i = lv_options (last (levels ch))"
  defines "c \<equiv> up_done env ch (next_ser ch + i)"
  shows "dd_inv env X c" and "map (uo c) (shown c) = lv_series_options (last (levels ch))"
proof -
  define l where "l = last (levels ch)"
  define rs where "rs = lv_series_options l"
  let ?N = "next_ser ch"
  note f = up_done_fields [of env ch "?N + i", folded c_def l_def, folded rs_def]
  have uni: "opt_index (opts_of ch r) = None" "x_axis_for env ch (opts_of ch r) = X" for r
    using inv by (auto simp: dd_inv_def uniform_def)
  have lvl: "lv_number (levels ch ! k) = k" "good_level env ch (levels ch ! k)" if "k < length (levels ch)" for k
    using inv that by (auto simp: dd_inv_def)
  have good: "good_level env ch l" using lvl(2) [of "length (levels ch) - 1"] ne by (simp add: l_def last_conv_nth)
  have hd: "hd (shown ch) < ?N" using inv by (auto simp: dd_inv_def)
  have ser: "ser_of c (?N + k) = (again env ch rs (?N + k))\<lparr>levelNumber := (if k = i then Some (length (levels ch) - 1) else None)\<rparr>"
    if "k < length rs" for k
    using that hd by (auto simp: f(6) again_def made_series_def Let_def)
  have uoc: "uo c (?N + k) = rs ! k" if "k < length rs" for k
    using that by (simp add: ser again_def made_series_def Let_def)
  have map: "map (uo c) (shown c) = rs"
    using uoc by (auto simp: f(4) intro!: nth_equalityI)
  then show "map (uo c) (shown c) = lv_series_options (last (levels ch))" by (simp add: rs_def l_def)
  have kn: "known env c r" if "known env ch r" for r using that by (simp add: known_def f)
  have gone: "\<not> alive (ser_of c u)" if "\<not> alive (ser_of ch u)" "u < ?N" for u
    using that by (auto simp: f(6))
  have lk: "lv_series_options (levels ch ! Suc k) = [lv_lower_options (levels ch ! k)]"
      "\<not> alive (ser_of ch (lv_lower (levels ch ! k)))" if "Suc k < length (levels ch)" for k
    using inv that by (auto simp: dd_inv_def linked_def)
  have low: "lv_lower (levels ch ! k) < ?N" if "k < length (levels ch)" for k
    using lvl(2) [OF that] by (simp add: good_level_def)
  have single: "rs = [lv_lower_options (last (levels c))] \<and> \<not> alive (ser_of c (lv_lower (last (levels c))))"
    if "levels c \<noteq> []"
  proof -
    define k where "k = length (levels ch) - 2"
    have "0 < length (levels c)" using that by simp
    then have k: "length (levels ch) = Suc (Suc k)" by (simp add: f(5) k_def)
    have "last (levels c) = levels ch ! k" "l = levels ch ! Suc k"
      using that k ne by (simp_all add: f(5) last_conv_nth nth_butlast l_def)
    then show ?thesis using lk [of k] gone low [of k] k by (simp add: rs_def)
  qed
  have num: "number_or_zero (levelNumber (ser_of c (?N + k))) = length (levels c)" if "k < length rs" for k
  proof (cases "levels c = []")
    case True
    then show ?thesis using that by (cases "k = i") (auto simp: ser number_or_zero_def f(5) butlast_conv_take)
  next
    case False
    then have "k = i" using single that i by (simp add: rs_def l_def)
    then show ?thesis using that by (simp add: ser number_or_zero_def f(5))
  qed
  have made: "made_from env c (uo c s) (ser_of c s) \<and> known env c (uo c s) \<and> number_or_zero (levelNumber (ser_of c s)) = length (levels c) \<and> s < next_ser c"
    if "s \<in> set (shown c)" for s
  proof -
    have "?N \<le> s" "s < ?N + length rs" using that by (simp_all add: f(4))
    then obtain k where k: "s = ?N + k" "k < length rs" by (metis add_less_cancel_left le_Suc_ex)
    have "known env c (rs ! k)" using good k(2) kn by (auto simp: good_level_def rs_def)
    moreover have "made_from env c (rs ! k) (ser_of c s)"
      using k by (simp add: ser made_from_def again_def made_series_def Let_def f(1) f(10,11))
    ultimately show ?thesis using k uoc num by (simp add: f(3))
  qed
  have "linked c"
    using lk gone low by (auto simp: linked_def f(5) nth_butlast)
  moreover have "top_linked c"
    using single map f(8) by (auto simp: top_linked_def)
  moreover have "uniform env X c" using uni by (simp add: uniform_def f)
  moreover have "\<forall>k < length (levels c). lv_number (levels c ! k) = k \<and> good_level env c (levels c ! k)"
  proof (intro allI impI)
    fix k
    assume "k < length (levels c)"
    then have k: "k < length (levels ch)" "levels c ! k = levels ch ! k" by (auto simp: f(5) nth_butlast)
    then show "lv_number (levels c ! k) = k \<and> good_level env c (levels c ! k)"
      using lvl [OF k(1)] kn by (auto simp: good_level_def f(3))
  qed
  moreover have "distinct (map (uo c) (shown c))" using good by (simp add: map good_level_def rs_def)
  moreover have "shown c \<noteq> []" "distinct (shown c)" using i by (auto simp: f(4) rs_def l_def)
  ultimately show "dd_inv env X c" using made by (simp add: dd_inv_def)
qed

section \<open>Down and up as a stack\<close>

text \<open>The options of the series of every level, the ones shown last.\<close>

definition dd_stack :: "dd_chart \<Rightarrow> nat list list" where
  "dd_stack ch = map lv_series_options (levels ch) @ [map (uo ch) (shown ch)]"

text \<open>What a user does: click on a point of a series that is shown, or go back, when there is a way back.\<close>

datatype dd_op = Click nat nat | Back

definition clicked_options :: "dd_chart \<Rightarrow> nat \<Rightarrow> nat \<Rightarrow> nat option" where
  "clicked_options ch k p =
     (if k < length (shown ch) \<and> p < length (opt_data (opts_of ch (uo ch (shown ch ! k))))
      then drilldown_options ch (point_at ch (shown ch ! k) p) else None)"

definition dd_step :: "dd_env \<Rightarrow> dd_chart \<Rightarrow> dd_op \<Rightarrow> dd_chart res" where
  "dd_step env ch op = (case op of
     Click k p \<Rightarrow> Inr (if clicked_options ch k p = None then ch else doDrilldown env False (shown ch ! k) p ch)
   | Back \<Rightarrow> if levels ch = [] then Inr ch else drillUp env ch)"

lemma noted_fields [simp]:
  "shown (noted ch s p) = shown ch" "ser_of (noted ch s p) = ser_of ch" "opts_of (noted ch s p) = opts_of ch"
  "next_opts (noted ch s p) = next_opts ch" "next_ser (noted ch s p) = next_ser ch" "levels (noted ch s p) = levels ch"
  "x_axes (noted ch s p) = x_axes ch" "y_axes (noted ch s p) = y_axes ch"
  by (simp_all add: noted_def)

lemma down_facts:
  assumes inv: "dd_inv env X ch" and s: "s \<in> set (shown ch)" and dd: "drilldown_options ch (point_at ch s p) = Some dd"
  defines "c \<equiv> doDrilldown env False s p ch"
  shows "dd_inv env X c" "dd_stack c = dd_stack ch @ [[next_opts ch]]" "next_opts c = Suc (next_opts ch)"
    "\<forall>r < next_opts ch. opts_of c r = opts_of ch r" "levels c = levels ch @ [new_level (noted ch s p) s p]"
proof -
  have c: "c = down_chart env (noted ch s p) s p dd" using doDrilldown_effect [OF inv s dd] by (simp add: c_def)
  show "dd_inv env X c" unfolding c using inv s by (intro down_inv noted_inv) simp_all
  have "lv_series_options (new_level (noted ch s p) s p) = map (uo ch) (shown ch)"
    using new_level_facts(4) [OF noted_inv [OF inv], of s s p p] s by simp
  then show "dd_stack c = dd_stack ch @ [[next_opts ch]]"
    by (simp add: dd_stack_def c down_chart_fields down_series_def Let_def)
  show "next_opts c = Suc (next_opts ch)" "\<forall>r < next_opts ch. opts_of c r = opts_of ch r"
    "levels c = levels ch @ [new_level (noted ch s p) s p]"
    by (simp_all add: c down_chart_fields)
qed

lemma up_facts:
  assumes inv: "dd_inv env X ch" and ne: "levels ch \<noteq> []"
  obtains i where "i < length (lv_series_options (last (levels ch)))"
    "lv_series_options (last (levels ch)) ! i = lv_options (last (levels ch))"
    "drillUp env ch = Inr (up_done env ch (next_ser ch + i))" "dd_inv env X (up_done env ch (next_ser ch + i))"
    "dd_stack (up_done env ch (next_ser ch + i)) = butlast (dd_stack ch)"
    "opts_of (up_done env ch (next_ser ch + i)) = opts_of ch" "levels (up_done env ch (next_ser ch + i)) = butlast (levels ch)"
proof (rule drillUp_effect [OF inv ne])
  fix i
  assume i: "i < length (lv_series_options (last (levels ch)))" "lv_series_options (last (levels ch)) ! i = lv_options (last (levels ch))"
    and up: "drillUp env ch = (let c = up_chart_of env ch (next_ser ch + i) in
      Inr (c\<lparr>redraws := Suc (redraws c), drillUpButton := (if levels c = [] then None else Some (getDrilldownBackText env c)), dupes := []\<rparr>))"
  note u = up_inv [OF inv ne i]
  have "dd_stack (up_done env ch (next_ser ch + i)) =
      map lv_series_options (butlast (levels ch)) @ [lv_series_options (last (levels ch))]"
    by (simp only: dd_stack_def up_done_fields(5) u(2))
  also have "\<dots> = map lv_series_options (levels ch)" using ne by (metis append_butlast_last_id list.simps(8,9) map_append)
  finally have "dd_stack (up_done env ch (next_ser ch + i)) = butlast (dd_stack ch)" by (simp add: dd_stack_def)
  then show thesis
    using i up u by (intro that [of i]) (simp_all add: up_done_def Let_def up_done_fields(1,5) [unfolded up_done_def Let_def])
qed

section \<open>Back to the start\<close>

lemma hd_of_butlast: "butlast xs \<noteq> [] \<Longrightarrow> hd (butlast xs) = hd xs" "1 < length xs \<Longrightarrow> hd (butlast xs) = hd xs"
  by (cases xs, auto)+

text \<open>
  A history of views with a step back: no operation throws, each keeps the view, adds one or takes
  the last away, and the step back takes the last away unless it is the only one.
\<close>

locale undo_stack =
  fixes ok :: "'s \<Rightarrow> bool" and run :: "'s \<Rightarrow> 'op \<Rightarrow> 's res" and undo :: "'op" and view :: "'s \<Rightarrow> 'v list"
  assumes view_nonempty: "ok s \<Longrightarrow> view s \<noteq> []"
    and run_view: "ok s \<Longrightarrow> \<exists>s'. run s op = Inr s' \<and> ok s' \<and>
      (view s' = view s \<or> (\<exists>v. view s' = view s @ [v]) \<or> 1 < length (view s) \<and> view s' = butlast (view s))"
    and run_back: "ok s \<Longrightarrow> \<exists>s'. run s undo = Inr s' \<and> ok s' \<and>
      view s' = (if length (view s) = 1 then view s else butlast (view s))"
begin

lemma run_first: "ok s \<Longrightarrow> \<exists>s'. run s op = Inr s' \<and> ok s' \<and> hd (view s') = hd (view s) \<and> length (view s') \<le> Suc (length (view s))"
  using run_view [of s op] view_nonempty [of s] by (auto simp: hd_of_butlast)

lemma runs_first:
  "ok s \<Longrightarrow> \<exists>s'. foldl (\<lambda>r op. bind_res r (\<lambda>c. run c op)) (Inr s) ops = Inr s' \<and> ok s' \<and>
     hd (view s') = hd (view s) \<and> length (view s') \<le> length (view s) + length ops"
proof (induction ops arbitrary: s)
  case (Cons op ops)
  obtain s1 where s1: "run s op = Inr s1" "ok s1" "hd (view s1) = hd (view s)" "length (view s1) \<le> Suc (length (view s))"
    using run_first [OF Cons.prems, of op] by blast
  then show ?case using Cons.IH [OF s1(2)] by fastforce
qed simp

lemma backs_home:
  "ok s \<Longrightarrow> length (view s) \<le> Suc n \<Longrightarrow> \<exists>s'. foldl (\<lambda>r op. bind_res r (\<lambda>c. run c op)) (Inr s) (replicate n undo) = Inr s' \<and>
     ok s' \<and> view s' = [hd (view s)]"
proof (induction n arbitrary: s)
  case 0
  then show ?case using view_nonempty [OF 0(1)] by (cases "view s") auto
next
  case (Suc n)
  obtain s1 where s1: "run s undo = Inr s1" "ok s1" "view s1 = (if length (view s) = 1 then view s else butlast (view s))"
    using run_back [OF Suc.prems(1)] by blast
  have "length (view s1) \<le> Suc n" using s1(3) Suc.prems(2) by auto
  moreover have "hd (view s1) = hd (view s)"
    using s1(3) view_nonempty [OF s1(2)] by (cases "length (view s) = 1") (auto intro: hd_of_butlast)
  ultimately show ?case using Suc.IH [OF s1(2)] s1(1) by auto
qed

lemma home:
  assumes "ok s" and "length (view s) + length ops \<le> Suc n"
  shows "\<exists>s'. foldl (\<lambda>r op. bind_res r (\<lambda>c. run c op)) (Inr s) (ops @ replicate n undo) = Inr s' \<and> ok s' \<and> view s' = [hd (view s)]"
proof -
  obtain s1 where "foldl (\<lambda>r op. bind_res r (\<lambda>c. run c op)) (Inr s) ops = Inr s1" "ok s1"
      "hd (view s1) = hd (view s)" "length (view s1) \<le> length (view s) + length ops"
    using runs_first [OF assms(1)] by blast
  then show ?thesis using backs_home [of s1 n] assms(2) by auto
qed

end

lemma drill_step_effect:
  assumes "dd_inv env X ch"
  shows "\<exists>ch'. dd_step env ch op = Inr ch' \<and> dd_inv env X ch' \<and> (\<forall>r < next_opts ch. opts_of ch' r = opts_of ch r) \<and>
    (case op of
       Click k p \<Rightarrow> if clicked_options ch k p = None then ch' = ch
         else dd_stack ch' = dd_stack ch @ [[next_opts ch]] \<and> next_opts ch' = Suc (next_opts ch)
     | Back \<Rightarrow> dd_stack ch' = (if levels ch = [] then dd_stack ch else butlast (dd_stack ch)))"
proof (cases op)
  case (Click k p)
  show ?thesis
  proof (cases "clicked_options ch k p")
    case None
    then show ?thesis using assms by (simp add: Click dd_step_def)
  next
    case (Some dd)
    then have "shown ch ! k \<in> set (shown ch)" "drilldown_options ch (point_at ch (shown ch ! k) p) = Some dd"
      by (auto simp: clicked_options_def split: if_splits)
    from down_facts [OF assms this] show ?thesis by (simp add: Click Some dd_step_def)
  qed
next
  case Back
  show ?thesis
  proof (cases "levels ch = []")
    case True
    then show ?thesis using assms by (simp add: Back dd_step_def)
  next
    case False
    obtain i where "drillUp env ch = Inr (up_done env ch (next_ser ch + i))" "dd_inv env X (up_done env ch (next_ser ch + i))"
      "dd_stack (up_done env ch (next_ser ch + i)) = butlast (dd_stack ch)" "opts_of (up_done env ch (next_ser ch + i)) = opts_of ch"
      by (rule up_facts [OF assms False]) blast
    then show ?thesis using False by (simp add: Back dd_step_def)
  qed
qed

lemma dd_stack_length: "length (dd_stack ch) = Suc (length (levels ch))"
  by (simp add: dd_stack_def)

interpretation history: undo_stack "dd_inv env X" "dd_step env" Back dd_stack for env X
proof
  fix ch op
  assume inv: "dd_inv env X ch"
  show "dd_stack ch \<noteq> []" by (simp add: dd_stack_def)
  show "\<exists>ch'. dd_step env ch Back = Inr ch' \<and> dd_inv env X ch' \<and>
      dd_stack ch' = (if length (dd_stack ch) = 1 then dd_stack ch else butlast (dd_stack ch))"
    using drill_step_effect [OF inv, of Back] by (auto simp: dd_stack_length)
  show "\<exists>ch'. dd_step env ch op = Inr ch' \<and> dd_inv env X ch' \<and>
      (dd_stack ch' = dd_stack ch \<or> (\<exists>v. dd_stack ch' = dd_stack ch @ [v]) \<or>
       1 < length (dd_stack ch) \<and> dd_stack ch' = butlast (dd_stack ch))"
    using drill_step_effect [OF inv, of op] by (cases op) (auto simp: dd_stack_length split: if_splits)
qed

text \<open>What the user does, one thing after the other.\<close>

definition dd_run :: "dd_env \<Rightarrow> dd_chart \<Rightarrow> dd_op list \<Rightarrow> dd_chart res" where
  "dd_run env ch ops = foldl (\<lambda>r op. bind_res r (\<lambda>c. dd_step env c op)) (Inr ch) ops"



lemma extremes_back: "set_extremes a (extremes_at axs a) (set_extremes a (None, None) axs) = axs"
proof (cases a)
  case (Some i)
  then show ?thesis
    by (cases "i < length axs") (simp_all add: set_extremes_def extremes_at_def list_update_beyond)
qed (simp add: set_extremes_def)

text \<open>
  C13: drilling down and back up. It shows series of the same options in the same order, with the
  colours they had, on the levels there were, with the zoom of the axes as it was, and every id can
  be drilled into again.
\<close>

theorem drill_down_up:
  assumes "dd_inv env X ch" and "s \<in> set (shown ch)" and "drilldown_options ch (point_at ch s p) = Some dd"
  shows "\<exists>ch'. drillUp env (doDrilldown env False s p ch) = Inr ch' \<and>
    map (uo ch') (shown ch') = map (uo ch) (shown ch) \<and>
    map (\<lambda>t. ser_color (ser_of ch' t)) (shown ch') = map (\<lambda>t. ser_color (ser_of ch t)) (shown ch) \<and>
    levels ch' = levels ch \<and> x_axes ch' = x_axes ch \<and> y_axes ch' = y_axes ch \<and> dupes ch' = []"
proof -
  define c where "c = doDrilldown env False s p ch"
  note down = down_facts [OF assms, folded c_def]
  have c: "c = down_chart env (noted ch s p) s p dd" using doDrilldown_effect [OF assms] by (simp add: c_def)
  have ne: "levels c \<noteq> []" by (simp add: down(5))
  define l where "l = new_level (noted ch s p) s p"
  have l: "last (levels c) = l" by (simp add: down(5) l_def)
  obtain i where i: "i < length (lv_series_options (last (levels c)))"
    "lv_series_options (last (levels c)) ! i = lv_options (last (levels c))"
    and up: "drillUp env c = Inr (up_done env c (next_ser c + i))" "dd_inv env X (up_done env c (next_ser c + i))"
    "dd_stack (up_done env c (next_ser c + i)) = butlast (dd_stack c)"
    "opts_of (up_done env c (next_ser c + i)) = opts_of c" "levels (up_done env c (next_ser c + i)) = butlast (levels c)"
    by (rule up_facts [OF down(1) ne])
  let ?c' = "up_done env c (next_ser c + i)"
  have same: "map (uo ?c') (shown ?c') = map (uo ch) (shown ch)"
    using up(3,5) down(2,5) by (simp add: dd_stack_def butlast_append)
  have col: "map (\<lambda>t. ser_color (ser_of e t)) (shown e) = map (\<lambda>r. color_of env (opts_of e r)) (map (uo e) (shown e))"
    if "dd_inv env X e" for e
    using shown_facts(2) [OF that] by (auto simp: made_from_def)
  have "map (\<lambda>r. color_of env (opts_of ?c' r)) (map (uo ch) (shown ch)) = map (\<lambda>r. color_of env (opts_of ch r)) (map (uo ch) (shown ch))"
    using down(4) shown_facts(6) [OF assms(1)] by (auto simp: up(4))
  then have colors: "map (\<lambda>t. ser_color (ser_of ?c' t)) (shown ?c') = map (\<lambda>t. ser_color (ser_of ch t)) (shown ch)"
    using col [OF up(2)] col [OF assms(1)] same by simp
  have u: "uo ch s < next_opts ch" "made_from env ch (uo ch s) (ser_of ch s)" using shown_facts [OF assms(1,2)] by simp_all
  have lv: "lv_options l = uo ch s" "lv_extremes l = (extremes_at (x_axes ch) (ser_x (ser_of ch s)),
      if ser_x (ser_of ch s) = None then (None, None) else extremes_at (y_axes ch) (ser_y (ser_of ch s)))"
    by (simp_all add: l_def new_level_def Let_def)
  have ax: "x_axis_for env c o1 = x_axis_for env ch o1" "y_axis_for env c o1 = y_axis_for env ch o1" for o1
    unfolding c down_chart_fields by (simp_all add: x_axis_for_def y_axis_for_def)
  have t: "ser_x (again env c (lv_series_options l) (next_ser c + i)) = ser_x (ser_of ch s)"
    "ser_y (again env c (lv_series_options l) (next_ser c + i)) = ser_y (ser_of ch s)"
    using u i down(4) by (simp_all add: again_def made_series_def Let_def l lv made_from_def ax)
  have hd: "hd (shown c) \<noteq> next_ser c + i" by (simp add: c down_chart_fields)
  have axes: "x_axes ?c' = x_axes ch" "y_axes ?c' = y_axes ch"
    using t hd by (simp_all add: up_done_def up_chart_of_def restore_extremes_def Let_def l lv)
      (simp_all add: c down_chart_def clear_zoom_def extremes_back)
  show ?thesis
    using up(1) same colors axes down(5) up(5) by (simp add: c_def [symmetric] up_done_fields(7))
qed

section \<open>An example\<close>

text \<open>
  Two column series with one point each; each point goes down to a series whose point goes down
  once more.
\<close>

definition sample_options :: "string \<Rightarrow> string option \<Rightarrow> string option \<Rightarrow> nat option \<Rightarrow> series_opts" where
  "sample_options nm d down no = \<lparr>opt_id = d, opt_name = nm, opt_type = None, opt_color = None, color_no = no,
     opt_index = None, opt_xaxis = NoAxis, opt_yaxis = NoAxis,
     opt_data = [\<lparr>drilldown_id = down, dd_point_color = None\<rparr>]\<rparr>"

definition sample_env :: dd_env where
  "sample_env = \<lparr>cartesian = (\<lambda>_. True), color_by_point = (\<lambda>_. False), palette = [''blue'', ''red''],
     default_type = ''column'', back_format = opt_name\<rparr>"

definition sample_series :: "nat \<Rightarrow> dd_series" where
  "sample_series s = \<lparr>user_options = s, ser_type = ''column'', ser_color = Some (if s = 0 then ''blue'' else ''red''),
     ser_x = Some 0, ser_y = Some 0, creation_no = s, levelNumber = None, alive = True\<rparr>"

definition sample_chart :: dd_chart where
  "sample_chart = \<lparr>opts_of = (\<lambda>r. if r = 0 then sample_options ''A'' None (Some ''a'') (Some 0)
       else if r = 1 then sample_options ''B'' None (Some ''b'') (Some 1)
       else if r = 2 then sample_options ''A down'' (Some ''a'') (Some ''aa'') None
       else if r = 3 then sample_options ''B down'' (Some ''b'') (Some ''bb'') None
       else if r = 4 then sample_options ''A bottom'' (Some ''aa'') None None
       else sample_options ''B bottom'' (Some ''bb'') None None),
     next_opts = 6, ser_of = sample_series, next_ser = 2, shown = [0, 1],
     x_axes = [\<lparr>axis_id = None, userMin = Some (Fin 1), userMax = None\<rparr>],
     y_axes = [\<lparr>axis_id = None, userMin = None, userMax = None\<rparr>],
     dd_options = [2, 3, 4, 5], levels = [], colorCounter = 2, drillUpButton = None, redraws = 0, dupes = []\<rparr>"

lemmas sample_defs = sample_chart_def sample_options_def sample_env_def sample_series_def

lemma sample_inv: "dd_inv sample_env (Some 0) sample_chart"
proof -
  have ax: "x_axis_for sample_env sample_chart (sample_options nm d e no) = Some 0"
    "y_axis_for sample_env sample_chart (sample_options nm d e no) = Some 0" for nm d e no
    by (simp_all add: sample_defs x_axis_for_def y_axis_for_def bound_axis_def axis_hit_def)
  have opts: "opts_of sample_chart r \<in> {sample_options nm d e no | nm d e no. True}" for r
    by (auto simp: sample_chart_def)
  have "uniform sample_env (Some 0) sample_chart"
    unfolding uniform_def
  proof (intro allI)
    fix r
    obtain nm d e no where "opts_of sample_chart r = sample_options nm d e no" using opts [of r] by auto
    then show "opt_index (opts_of sample_chart r) = None \<and> x_axis_for sample_env sample_chart (opts_of sample_chart r) = Some 0"
      using ax by (simp add: sample_options_def)
  qed
  moreover have made: "made_from sample_env sample_chart s (sample_series s) \<and> known sample_env sample_chart s"
    if "s = 0 \<or> s = 1" for s
    using that ax by (auto simp: made_from_def known_def settled_color_def color_of_def truthy_color_def series_type_def)
      (auto simp: sample_defs settled_color_def color_of_def truthy_color_def series_type_def)
  moreover have same: "user_options (sample_series s) = s" "levelNumber (sample_series s) = None" for s
    by (simp_all add: sample_series_def)
  moreover have "shown sample_chart = [0, 1]" "levels sample_chart = []" "next_ser sample_chart = 2" "ser_of sample_chart = sample_series"
    by (simp_all add: sample_chart_def)
  ultimately show ?thesis
    using made [of 0] made [of 1] same by (simp add: dd_inv_def linked_def top_linked_def number_or_zero_def)
qed


theorem drill_down_up_witness:
  "\<exists>ch'. drillUp sample_env (doDrilldown sample_env False 1 0 sample_chart) = Inr ch' \<and>
     map (\<lambda>t. ser_color (ser_of ch' t)) (shown ch') = [Some ''blue'', Some ''red''] \<and>
     x_axes ch' = [\<lparr>axis_id = None, userMin = Some (Fin 1), userMax = None\<rparr>]"
proof -
  have "1 \<in> set (shown sample_chart)" by (simp add: sample_chart_def)
  moreover have "drilldown_options sample_chart (point_at sample_chart 1 0) = Some 3"
    by (simp add: drilldown_options_def point_at_def) (simp add: sample_defs)
  ultimately show ?thesis
    using drill_down_up [OF sample_inv, of 1 0 3] by (auto simp: sample_chart_def sample_series_def)
qed


end
