(* ===== verification/Canvg_Color.thy ===== *)
theory Canvg_Color
  imports Util_Text JS_Value
begin

text \<open>
  RGBColor of modules/canvas-tools.src.js: the reader of colour texts that the canvas renderer
  uses. A channel that no definition set is undefined in the code; the model holds it as \<open>NaN\<close>,
  which the clean-up at the end treats in the same way. The lemmas show that every text, of
  whatever content, leaves three whole numbers from 0 to 255, and that the hexadecimal form of a
  colour reads back as the colour.
\<close>

section \<open>The colour names\<close>

definition simple_colors :: "(string \<times> string) list" where
  "simple_colors = [
    (''aliceblue'', ''f0f8ff''), (''antiquewhite'', ''faebd7''), (''aqua'', ''00ffff''),
    (''aquamarine'', ''7fffd4''), (''azure'', ''f0ffff''), (''beige'', ''f5f5dc''),
    (''bisque'', ''ffe4c4''), (''black'', ''000000''), (''blanchedalmond'', ''ffebcd''),
    (''blue'', ''0000ff''), (''blueviolet'', ''8a2be2''), (''brown'', ''a52a2a''),
    (''burlywood'', ''deb887''), (''cadetblue'', ''5f9ea0''), (''chartreuse'', ''7fff00''),
    (''chocolate'', ''d2691e''), (''coral'', ''ff7f50''), (''cornflowerblue'', ''6495ed''),
    (''cornsilk'', ''fff8dc''), (''crimson'', ''dc143c''), (''cyan'', ''00ffff''),
    (''darkblue'', ''00008b''), (''darkcyan'', ''008b8b''), (''darkgoldenrod'', ''b8860b''),
    (''darkgray'', ''a9a9a9''), (''darkgreen'', ''006400''), (''darkkhaki'', ''bdb76b''),
    (''darkmagenta'', ''8b008b''), (''darkolivegreen'', ''556b2f''), (''darkorange'', ''ff8c00''),
    (''darkorchid'', ''9932cc''), (''darkred'', ''8b0000''), (''darksalmon'', ''e9967a''),
    (''darkseagreen'', ''8fbc8f''), (''darkslateblue'', ''483d8b''),
    (''darkslategray'', ''2f4f4f''), (''darkturquoise'', ''00ced1''), (''darkviolet'', ''9400d3''),
    (''deeppink'', ''ff1493''), (''deepskyblue'', ''00bfff''), (''dimgray'', ''696969''),
    (''dodgerblue'', ''1e90ff''), (''feldspar'', ''d19275''), (''firebrick'', ''b22222''),
    (''floralwhite'', ''fffaf0''), (''forestgreen'', ''228b22''), (''fuchsia'', ''ff00ff''),
    (''gainsboro'', ''dcdcdc''), (''ghostwhite'', ''f8f8ff''), (''gold'', ''ffd700''),
    (''goldenrod'', ''daa520''), (''gray'', ''808080''), (''green'', ''008000''),
    (''greenyellow'', ''adff2f''), (''honeydew'', ''f0fff0''), (''hotpink'', ''ff69b4''),
    (''indianred'', ''cd5c5c''), (''indigo'', ''4b0082''), (''ivory'', ''fffff0''),
    (''khaki'', ''f0e68c''), (''lavender'', ''e6e6fa''), (''lavenderblush'', ''fff0f5''),
    (''lawngreen'', ''7cfc00''), (''lemonchiffon'', ''fffacd''), (''lightblue'', ''add8e6''),
    (''lightcoral'', ''f08080''), (''lightcyan'', ''e0ffff''),
    (''lightgoldenrodyellow'', ''fafad2''), (''lightgrey'', ''d3d3d3''),
    (''lightgreen'', ''90ee90''), (''lightpink'', ''ffb6c1''), (''lightsalmon'', ''ffa07a''),
    (''lightseagreen'', ''20b2aa''), (''lightskyblue'', ''87cefa''),
    (''lightslateblue'', ''8470ff''), (''lightslategray'', ''778899''),
    (''lightsteelblue'', ''b0c4de''), (''lightyellow'', ''ffffe0''), (''lime'', ''00ff00''),
    (''limegreen'', ''32cd32''), (''linen'', ''faf0e6''), (''magenta'', ''ff00ff''),
    (''maroon'', ''800000''), (''mediumaquamarine'', ''66cdaa''), (''mediumblue'', ''0000cd''),
    (''mediumorchid'', ''ba55d3''), (''mediumpurple'', ''9370d8''),
    (''mediumseagreen'', ''3cb371''), (''mediumslateblue'', ''7b68ee''),
    (''mediumspringgreen'', ''00fa9a''), (''mediumturquoise'', ''48d1cc''),
    (''mediumvioletred'', ''c71585''), (''midnightblue'', ''191970''), (''mintcream'', ''f5fffa''),
    (''mistyrose'', ''ffe4e1''), (''moccasin'', ''ffe4b5''), (''navajowhite'', ''ffdead''),
    (''navy'', ''000080''), (''oldlace'', ''fdf5e6''), (''olive'', ''808000''),
    (''olivedrab'', ''6b8e23''), (''orange'', ''ffa500''), (''orangered'', ''ff4500''),
    (''orchid'', ''da70d6''), (''palegoldenrod'', ''eee8aa''), (''palegreen'', ''98fb98''),
    (''paleturquoise'', ''afeeee''), (''palevioletred'', ''d87093''), (''papayawhip'', ''ffefd5''),
    (''peachpuff'', ''ffdab9''), (''peru'', ''cd853f''), (''pink'', ''ffc0cb''),
    (''plum'', ''dda0dd''), (''powderblue'', ''b0e0e6''), (''purple'', ''800080''),
    (''red'', ''ff0000''), (''rosybrown'', ''bc8f8f''), (''royalblue'', ''4169e1''),
    (''saddlebrown'', ''8b4513''), (''salmon'', ''fa8072''), (''sandybrown'', ''f4a460''),
    (''seagreen'', ''2e8b57''), (''seashell'', ''fff5ee''), (''sienna'', ''a0522d''),
    (''silver'', ''c0c0c0''), (''skyblue'', ''87ceeb''), (''slateblue'', ''6a5acd''),
    (''slategray'', ''708090''), (''snow'', ''fffafa''), (''springgreen'', ''00ff7f''),
    (''steelblue'', ''4682b4''), (''tan'', ''d2b48c''), (''teal'', ''008080''),
    (''thistle'', ''d8bfd8''), (''tomato'', ''ff6347''), (''turquoise'', ''40e0d0''),
    (''violet'', ''ee82ee''), (''violetred'', ''d02090''), (''wheat'', ''f5deb3''),
    (''white'', ''ffffff''), (''whitesmoke'', ''f5f5f5''), (''yellow'', ''ffff00''),
    (''yellowgreen'', ''9acd32'')]"

text \<open>The loop over all names: it goes on after a name has been replaced.\<close>

definition named_color :: "string \<Rightarrow> string" where
  "named_color s = foldl (\<lambda>t (key, hex). if t = key then hex else t) s simple_colors"

section \<open>The three forms\<close>

type_synonym channels = "jsnum \<times> jsnum \<times> jsnum"

text \<open>\<open>(\d{1,3}),\s*\<close>: one to three digits, the comma and white space; what follows.\<close>

definition scan_channel :: "string \<Rightarrow> (string \<times> string) option" where
  "scan_channel s = (let ds = takeWhile is_digit s; r = dropWhile is_digit s in
     if 1 \<le> length ds \<and> length ds \<le> 3 then Some (ds, r) else None)"

definition after_comma :: "string \<Rightarrow> string option" where
  "after_comma s = (case s of c # t \<Rightarrow> if c = CHR '','' then Some (dropWhile is_ws t) else None | [] \<Rightarrow> None)"

definition rgb_form :: "string \<Rightarrow> channels option" where
  "rgb_form s =
     (if take 4 s = ''rgb('' then
       (case scan_channel (drop 4 s) of None \<Rightarrow> None | Some (r, s1) \<Rightarrow>
       (case after_comma s1 of None \<Rightarrow> None | Some s2 \<Rightarrow>
       (case scan_channel s2 of None \<Rightarrow> None | Some (g, s3) \<Rightarrow>
       (case after_comma s3 of None \<Rightarrow> None | Some s4 \<Rightarrow>
       (case scan_channel s4 of None \<Rightarrow> None | Some (b, s5) \<Rightarrow>
         if s5 = '')'' then Some (parse_int 0 r, parse_int 0 g, parse_int 0 b) else None)))))
      else None)"

definition hex6_form :: "string \<Rightarrow> channels option" where
  "hex6_form s =
     (if length s = 6 \<and> list_all is_word s
      then Some (parse_int 16 (substr s 0 2), parse_int 16 (substr s 2 2), parse_int 16 (substr s 4 2))
      else None)"

definition hex3_form :: "string \<Rightarrow> channels option" where
  "hex3_form s =
     (if length s = 3 \<and> list_all is_word s
      then Some (parse_int 16 [s ! 0, s ! 0], parse_int 16 [s ! 1, s ! 1], parse_int 16 [s ! 2, s ! 2])
      else None)"

section \<open>The colour\<close>

record rgb_color =
  color_ok :: bool
  color_r :: jsnum
  color_g :: jsnum
  color_b :: jsnum

definition unset_color :: rgb_color where
  "unset_color = \<lparr>color_ok = False, color_r = NaN, color_g = NaN, color_b = NaN\<rparr>"

definition try_form :: "string \<Rightarrow> rgb_color \<Rightarrow> (string \<Rightarrow> channels option) \<Rightarrow> rgb_color" where
  "try_form s c form = (case form s of
     Some (r, g, b) \<Rightarrow> \<lparr>color_ok = True, color_r = r, color_g = g, color_b = b\<rparr> | None \<Rightarrow> c)"

definition clean_channel :: "jsnum \<Rightarrow> jsnum" where
  "clean_channel x = (if num_lt x (num_of_int 0) \<or> x = NaN then num_of_int 0
     else if num_lt (num_of_int 255) x then num_of_int 255 else x)"

definition color_text :: "string \<Rightarrow> string" where
  "color_text s = named_color (lower_case (filter (\<lambda>c. c \<noteq> CHR '' '')
     (if take 1 s = ''#'' then substr s 1 6 else s)))"

definition RGBColor :: "string \<Rightarrow> rgb_color" where
  "RGBColor s = (let t = color_text s;
     c = foldl (try_form t) unset_color [rgb_form, hex6_form, hex3_form] in
     c\<lparr>color_r := clean_channel (color_r c), color_g := clean_channel (color_g c),
       color_b := clean_channel (color_b c)\<rparr>)"

definition toRGB :: "rgb_color \<Rightarrow> string" where
  "toRGB c = ''rgb('' @ num_to_string (color_r c) @ '', '' @ num_to_string (color_g c) @ '', '' @
     num_to_string (color_b c) @ '')''"

text \<open>\<open>toString(16)\<close> of a channel, which is a whole number, with a zero in front of one digit.\<close>

definition hex_channel :: "jsnum \<Rightarrow> string" where
  "hex_channel x = (let h = int_to_string 16 \<lfloor>rat_of x\<rfloor> in if length h = 1 then ''0'' @ h else h)"

definition toHex :: "rgb_color \<Rightarrow> string" where
  "toHex c = ''#'' @ hex_channel (color_r c) @ hex_channel (color_g c) @ hex_channel (color_b c)"

text \<open>The examples of the help: the style and the text of each item of the list.\<close>

definition help_examples :: "string list" where
  "help_examples = [''rgb(123, 234, 45)'', ''rgb(255,234,245)'', ''#00ff00'', ''336699'', ''#fb0'', ''f0f''] @
     map fst simple_colors"

definition help_item :: "string \<Rightarrow> string \<times> string" where
  "help_item example = (let c = RGBColor example in
     (''margin: 3px; border: 1px solid black; background:'' @ toHex c @ ''; color:'' @ toHex c,
      '' '' @ example @ '' -> '' @ toRGB c @ '' -> '' @ toHex c))"

definition getHelpXML :: "(string \<times> string) list" where
  "getHelpXML = map help_item help_examples"

section \<open>Channels are whole numbers from 0 to 255\<close>

definition of_channels :: "bool \<Rightarrow> nat \<Rightarrow> nat \<Rightarrow> nat \<Rightarrow> rgb_color" where
  "of_channels known r g b = \<lparr>color_ok = known, color_r = num_of_int (int r), color_g = num_of_int (int g),
     color_b = num_of_int (int b)\<rparr>"

lemma digits_value_less: "b \<le> 36 \<Longrightarrow> digits_value b s < 36 ^ length s"
proof (induction s rule: rev_induct)
  case Nil
  then show ?case by (simp add: digits_value_def)
next
  case (snoc c s)
  have d: "(case digit_val c of Some d \<Rightarrow> d | None \<Rightarrow> 0) \<le> 35" by (auto simp: digit_val_def)
  have "digits_value b s * b \<le> (36 ^ length s - 1) * 36" using snoc by (intro mult_mono) auto
  then show ?case using d snoc by (simp add: digits_value_append diff_mult_distrib)
qed

definition digit_like :: "jsnum \<Rightarrow> bool" where
  "digit_like x \<longleftrightarrow> x = NaN \<or> (\<exists>n::nat. x = num_of_int (int n))"

lemma parse_int_unsigned:
  assumes "length s \<le> 3" "b = 0 \<or> b = 16" "\<not> fst (scan_sign (trim_left s))"
  shows "digit_like (parse_int b s)"
proof -
  define t where "t = snd (scan_sign (trim_left s))"
  define hex where "hex = ((b = 0 \<or> b = 16) \<and> has_hex_prefix t)"
  define base where "base = (if hex then 16 else if b = 0 then 10 else b)"
  define ds where "ds = takeWhile (is_digit_in base) (if hex then drop 2 t else t)"
  have t: "length t \<le> 3"
    using assms(1) length_dropWhile_le [of is_ws s]
    by (auto simp: t_def scan_sign_def trim_left_def split: list.splits)
  have "length ds \<le> length t"
    using length_takeWhile_le [of "is_digit_in base" t] length_takeWhile_le [of "is_digit_in base" "drop 2 t"]
    by (auto simp: ds_def)
  then have len: "length ds \<le> 3" using t by simp
  have "base \<le> 36" using assms(2) by (auto simp: base_def)
  then have "digits_value base ds < 36 ^ length ds" by (rule digits_value_less)
  also have "\<dots> \<le> 36 ^ 3" using len by (intro power_increasing) auto
  finally have "to_double False (of_nat (digits_value base ds)) = Fin (of_nat (digits_value base ds))"
    using to_double_of_int [of "int (digits_value base ds)"] by simp
  moreover have "scan_sign (trim_left s) = (False, t)"
    using assms(3) by (cases "scan_sign (trim_left s)") (auto simp: t_def)
  ultimately have "parse_int b s = (if ds = [] then NaN else Fin (of_nat (digits_value base ds)))"
    by (simp add: parse_int_def hex_def [symmetric] base_def [symmetric] ds_def [symmetric])
  then show ?thesis by (auto simp: digit_like_def)
qed

lemma word_unsigned: "list_all is_word s \<Longrightarrow> \<not> fst (scan_sign (trim_left s))"
proof -
  assume "list_all is_word s"
  moreover have "\<not> is_word (CHR ''-'')" by (simp add: is_word_def is_digit_def code_def)
  ultimately have "CHR ''-'' \<notin> set (dropWhile is_ws s)"
    by (auto simp: list_all_iff dest: set_dropWhileD)
  then show ?thesis by (auto simp: scan_sign_def trim_left_def split: list.splits)
qed

lemma digits_word: "list_all is_digit s \<Longrightarrow> list_all is_word s"
  by (auto simp: list_all_iff is_word_def)

lemma list_all_take: "list_all P s \<Longrightarrow> list_all P (take n s)"
  by (auto simp: list_all_iff dest: in_set_takeD)

lemma list_all_drop: "list_all P s \<Longrightarrow> list_all P (drop n s)"
  by (auto simp: list_all_iff dest: in_set_dropD)

lemma scan_channel_like: "scan_channel s = Some (ds, r) \<Longrightarrow> digit_like (parse_int 0 ds)"
  by (rule parse_int_unsigned)
    (auto simp: scan_channel_def Let_def list_all_iff intro!: word_unsigned digits_word
      split: if_splits dest: set_takeWhileD)

definition channels_like :: "channels \<Rightarrow> bool" where
  "channels_like c \<longleftrightarrow> (case c of (r, g, b) \<Rightarrow> digit_like r \<and> digit_like g \<and> digit_like b)"

lemma form_channels:
  "rgb_form s = Some c \<Longrightarrow> channels_like c"
  "hex6_form s = Some c \<Longrightarrow> channels_like c"
  "hex3_form s = Some c \<Longrightarrow> channels_like c"
proof -
  assume c: "rgb_form s = Some c"
  then obtain r1 s1 g1 s2 s3 b1 s4 s5 where "scan_channel (drop 4 s) = Some (r1, s1)"
      "scan_channel s2 = Some (g1, s3)" "scan_channel s4 = Some (b1, s5)"
      "c = (parse_int 0 r1, parse_int 0 g1, parse_int 0 b1)"
    by (auto simp: rgb_form_def split: if_splits option.splits)
  then show "channels_like c" by (simp add: channels_like_def scan_channel_like)
next
  show "hex6_form s = Some c \<Longrightarrow> channels_like c"
    by (auto simp: hex6_form_def channels_like_def substr_def list_all_take list_all_drop
        intro!: parse_int_unsigned word_unsigned split: if_splits)
next
  assume c: "hex3_form s = Some c"
  then have s: "length s = 3" "list_all is_word s" by (auto simp: hex3_form_def split: if_splits)
  then have "is_word (s ! i)" if "i < 3" for i using that by (auto simp: list_all_length)
  then have "digit_like (parse_int 16 [s ! i, s ! i])" if "i < 3" for i
    using that by (intro parse_int_unsigned word_unsigned) auto
  then show "channels_like c" using c s by (auto simp: hex3_form_def channels_like_def)
qed

lemma clean_channel_like: "digit_like x \<Longrightarrow> \<exists>n \<le> 255. clean_channel x = num_of_int (int n)"
proof -
  assume "digit_like x"
  then consider "x = NaN" | n where "x = num_of_int (int n)" by (auto simp: digit_like_def)
  then show ?thesis
  proof cases
    case 1
    then show ?thesis by (intro exI [of _ 0]) (simp add: clean_channel_def)
  next
    case 2
    then have "clean_channel x = num_of_int (int (min n 255))"
      using num_lt_int [of "int n" 0] num_lt_int [of 255 "int n"] by (auto simp: clean_channel_def)
    then show ?thesis by (intro exI [of _ "min n 255"]) simp
  qed
qed

text \<open>What every text leaves, and that a text without a colour leaves black.\<close>

lemma RGBColor_channels:
  obtains r g b where "r \<le> 255" "g \<le> 255" "b \<le> 255"
    and "RGBColor s = of_channels (color_ok (RGBColor s)) r g b"
    and "color_ok (RGBColor s) \<or> r = 0 \<and> g = 0 \<and> b = 0"
proof -
  define c where "c = foldl (try_form (color_text s)) unset_color [rgb_form, hex6_form, hex3_form]"
  have c: "channels_like (color_r c, color_g c, color_b c) \<and> (color_ok c \<or> c = unset_color)"
    unfolding c_def
    by (auto simp: try_form_def unset_color_def channels_like_def digit_like_def split: option.splits
        dest!: form_channels)
  then have like: "digit_like (color_r c)" "digit_like (color_g c)" "digit_like (color_b c)"
    by (simp_all add: channels_like_def)
  obtain r where r: "r \<le> 255" "clean_channel (color_r c) = num_of_int (int r)"
    using clean_channel_like [OF like(1)] by blast
  obtain g where g: "g \<le> 255" "clean_channel (color_g c) = num_of_int (int g)"
    using clean_channel_like [OF like(2)] by blast
  obtain b where b: "b \<le> 255" "clean_channel (color_b c) = num_of_int (int b)"
    using clean_channel_like [OF like(3)] by blast
  note n = r g b
  have d: "RGBColor s = c\<lparr>color_r := clean_channel (color_r c), color_g := clean_channel (color_g c),
      color_b := clean_channel (color_b c)\<rparr>"
    by (simp only: RGBColor_def c_def Let_def)
  then have k: "color_ok (RGBColor s) = color_ok c" by simp
  have eq: "RGBColor s = of_channels (color_ok (RGBColor s)) r g b"
    using n by (simp add: k) (simp add: d of_channels_def)
  have black: "color_ok (RGBColor s) \<or> r = 0 \<and> g = 0 \<and> b = 0"
    using c n by (auto simp: k unset_color_def clean_channel_def)
  show thesis by (rule that [OF n(1) n(3) n(5) eq black])
qed

section \<open>The hexadecimal form reads back\<close>

lemma hex_channel_hex2: "n \<le> 255 \<Longrightarrow> hex_channel (num_of_int (int n)) = hex2 n"
proof -
  assume n: "n \<le> 255"
  have z: "digit_char 0 = CHR ''0''"
    using digit_char_code [of 0] by (intro iffD1 [OF code_inject]) (simp add: code_def)
  show ?thesis
  proof (cases "n < 16")
    case True
    then have "nat_digits 16 n = [digit_char n]" by (simp add: nat_digits.simps)
    then show ?thesis using True by (simp add: hex_channel_def int_to_string_def hex2_def z)
  next
    case False
    have "nat_digits 16 n = nat_digits 16 (n div 16) @ [digit_char (n mod 16)]"
      using False by (subst nat_digits.simps) simp
    moreover have "nat_digits 16 (n div 16) = [digit_char (n div 16)]"
      using n by (subst nat_digits.simps) auto
    ultimately have "nat_digits 16 n = hex2 n" by (simp add: hex2_def)
    then show ?thesis by (simp add: hex_channel_def int_to_string_def) (simp add: hex2_def)
  qed
qed

lemma toHex_channels:
  "r \<le> 255 \<Longrightarrow> g \<le> 255 \<Longrightarrow> b \<le> 255 \<Longrightarrow> toHex (of_channels k r g b) = hex_colour r g b"
  by (simp add: toHex_def of_channels_def hex_channel_hex2 [unfolded of_int_of_nat_eq] hex_colour_def)

definition hex_letter :: "char \<Rightarrow> bool" where
  "hex_letter c \<longleftrightarrow> (\<exists>d < 16. c = digit_char d)"

lemma hex_letter_props:
  assumes "hex_letter c"
  shows "is_word c" "c \<noteq> CHR '' ''" "lower_char c = c" "c \<notin> set ''ghijklmnopqrstuvwxyz''"
proof -
  obtain d where d: "d < 16" "c = digit_char d" using assms by (auto simp: hex_letter_def)
  then have c: "code c = (if d < 10 then 48 + d else 87 + d)" by (simp add: digit_char_code)
  then show "is_word c" "lower_char c = c"
    using d by (auto simp: is_word_def is_digit_def lower_char_def split: if_splits)
  have ne: "c \<noteq> x" if "code x \<notin> {48..57} \<union> {97..102}" for x
    using that c d by (auto split: if_splits)
  show "c \<noteq> CHR '' ''" by (rule ne) (simp add: code_def)
  have "\<forall>x \<in> set ''ghijklmnopqrstuvwxyz''. code x \<notin> {48..57} \<union> {97..102}" by (simp add: code_def)
  then show "c \<notin> set ''ghijklmnopqrstuvwxyz''" using ne by blast
qed

lemma names_not_hex: "list_all (\<lambda>(key, _). list_ex (\<lambda>c. c \<in> set ''ghijklmnopqrstuvwxyz'') key) simple_colors"
  by code_simp

lemma foldl_no_name:
  "list_all (\<lambda>(key, _). key \<noteq> s) ps \<Longrightarrow> foldl (\<lambda>t (key, hex). if t = key then hex else t) s ps = s"
  by (induction ps) auto

lemma named_color_hex: "list_all hex_letter s \<Longrightarrow> named_color s = s"
  unfolding named_color_def
  by (rule foldl_no_name)
    (use names_not_hex in \<open>fastforce simp: list_all_iff list_ex_iff dest: hex_letter_props(4)\<close>)

lemma hex2_letters: "n \<le> 255 \<Longrightarrow> list_all hex_letter (hex2 n)"
  by (auto simp: hex2_def hex_letter_def intro: exI [of _ "n div 16"] exI [of _ "n mod 16"])

lemma RGBColor_hex_colour:
  assumes "r \<le> 255" "g \<le> 255" "b \<le> 255"
  shows "RGBColor (hex_colour r g b) = of_channels True r g b"
proof -
  define s where "s = hex2 r @ hex2 g @ hex2 b"
  have letters: "list_all hex_letter s" using assms by (simp add: s_def hex2_letters)
  have len: "length s = 6" by (simp add: s_def hex2_def)
  have "filter (\<lambda>c. c \<noteq> CHR '' '') s = s" "lower_case s = s"
    using letters by (auto simp: filter_id_iff_all list_all_iff hex_letter_props lower_case_def
        intro!: map_idI)
  then have shown: "color_text (hex_colour r g b) = s"
    using len named_color_hex [OF letters] by (simp add: color_text_def hex_colour_def substr_def s_def [symmetric])
  have word: "list_all is_word s" using letters by (auto simp: list_all_iff hex_letter_props)
  have "CHR ''('' \<notin> set s"
    using word by (auto simp: list_all_iff is_word_def is_digit_def code_def dest!: bspec)
  then have "take 4 s \<noteq> ''rgb(''" by (auto dest!: arg_cong [of _ _ set] in_set_takeD)
  then have rgb: "rgb_form s = None" by (simp add: rgb_form_def)
  have h6: "hex6_form s = Some (parse_int 16 (hex2 r), parse_int 16 (hex2 g), parse_int 16 (hex2 b))"
    using word by (simp add: hex6_form_def s_def) (simp add: hex2_def substr_def)
  have h3: "hex3_form s = None" using len by (simp add: hex3_form_def)
  have cl: "clean_channel (num_of_int (int n)) = num_of_int (int n)" if "n \<le> 255" for n
    using that num_lt_int [of "int n" 0] num_lt_int [of 255 "int n"] by (auto simp: clean_channel_def)
  show ?thesis
    using assms cl by (simp add: RGBColor_def shown Let_def try_form_def rgb h6 h3 parse_int_hex2 of_channels_def)
qed

text \<open>
  C27: reading a colour never fails to leave a colour: for every text the channels are whole
  numbers from 0 to 255, black if the text is in none of the three forms; toHex prints them as
  six hexadecimal digits, and reading that text gives the same channels.
\<close>

theorem RGBColor_reads_back:
  "\<exists>r g b. r \<le> 255 \<and> g \<le> 255 \<and> b \<le> 255 \<and>
     RGBColor s = of_channels (color_ok (RGBColor s)) r g b \<and>
     (color_ok (RGBColor s) \<or> r = 0 \<and> g = 0 \<and> b = 0) \<and>
     toHex (RGBColor s) = hex_colour r g b \<and>
     RGBColor (toHex (RGBColor s)) = of_channels True r g b"
proof (rule RGBColor_channels [of s])
  fix r g b
  assume n: "r \<le> 255" "g \<le> 255" "b \<le> 255"
    and c: "RGBColor s = of_channels (color_ok (RGBColor s)) r g b"
      "color_ok (RGBColor s) \<or> r = 0 \<and> g = 0 \<and> b = 0"
  have "toHex (RGBColor s) = hex_colour r g b" using c(1) toHex_channels [OF n] by metis
  then show ?thesis using n c RGBColor_hex_colour [OF n] by metis
qed

text \<open>A word of six letters that names no colour is taken for hexadecimal digits.\<close>

lemma word_is_color: "RGBColor ''foobar'' = of_channels True 15 0 10"
proof -
  have t: "color_text ''foobar'' = ''foobar''" by code_simp
  have f: "rgb_form ''foobar'' = None" "hex3_form ''foobar'' = None" by code_simp+
  have p: "parse_int 16 ''fo'' = num_of_int 15" "parse_int 16 ''ob'' = NaN" "parse_int 16 ''ar'' = num_of_int 10"
    by (simp_all add: parse_int_def scan_sign_def trim_left_def is_ws_def has_hex_prefix_def is_digit_in_def
        digit_val_def code_def digits_value_def to_double_numeral)
  have w: "hex6_form ''foobar'' = Some (num_of_int 15, NaN, num_of_int 10)"
    using p by (simp add: hex6_form_def substr_def is_word_def is_digit_def code_def)
  show ?thesis
    by (simp add: RGBColor_def t Let_def try_form_def f w clean_channel_def of_channels_def num_lt_def)
qed

end
