(* ===== verification/Canvg_Geometry.thy ===== *)
theory Canvg_Geometry
  imports Canvg_Units
begin

text \<open>
  The geometry of canvg in modules/canvas-tools.src.js: the operations of a canvas as a
  recorded list, points, bounding boxes with the extremes of curves, transformations and
  aspect ratios. A coordinate the code leaves undefined is \<open>NaN\<close> here, which every use of it
  treats in the same way. The lemmas show that a box holds what was added to it, and that a
  printed list of transformations reads back.
\<close>

section \<open>What is drawn\<close>

datatype canvas_op =
    BeginPath
  | MoveTo jsnum jsnum
  | LineTo jsnum jsnum
  | QuadraticCurveTo jsnum jsnum jsnum jsnum
  | BezierCurveTo jsnum jsnum jsnum jsnum jsnum jsnum
  | Arc jsnum jsnum jsnum jsnum jsnum jsval
  | ClosePath
  | Clip
  | Fill
  | Stroke
  | Save
  | Restore
  | CTranslate jsnum jsnum
  | CRotate jsnum
  | CScale jsnum jsnum
  | CTransform "jsnum list"
  | SetStyle string jsval
  | FillText string jsnum jsnum
  | StrokeText string jsnum jsnum
  | DrawImage jsnum jsnum
  | ClearRect jsnum jsnum jsnum jsnum

abbreviation (input) zero :: jsnum where
  "zero \<equiv> num_of_int 0"

abbreviation (input) one :: jsnum where
  "one \<equiv> num_of_int 1"

section \<open>Points\<close>

type_synonym point = "jsnum \<times> jsnum"

definition angleTo :: "math_fns \<Rightarrow> point \<Rightarrow> point \<Rightarrow> jsnum" where
  "angleTo fns p q = m_atan2 fns (js_sub (snd q) (snd p)) (js_sub (fst q) (fst p))"

definition num_at :: "jsnum list \<Rightarrow> nat \<Rightarrow> jsnum" where
  "num_at ns i = (if i < length ns then ns ! i else NaN)"

definition applyTransform :: "point \<Rightarrow> jsnum list \<Rightarrow> point" where
  "applyTransform p v =
     (js_add (js_add (js_mul (fst p) (num_at v 0)) (js_mul (snd p) (num_at v 2))) (num_at v 4),
      js_add (js_add (js_mul (fst p) (num_at v 1)) (js_mul (snd p) (num_at v 3))) (num_at v 5))"

definition CreatePoint :: "string \<Rightarrow> point" where
  "CreatePoint s = (let a = ToNumberArray s in (num_at a 0, num_at a 1))"

fun pair_up :: "jsnum list \<Rightarrow> point list" where
  "pair_up [] = []"
| "pair_up [x] = [(x, NaN)]"
| "pair_up (x # y # ns) = (x, y) # pair_up ns"

definition CreatePath :: "string \<Rightarrow> point list" where
  "CreatePath s = pair_up (ToNumberArray s)"

section \<open>Bounding boxes\<close>

record bounding_box =
  box_x1 :: jsnum
  box_y1 :: jsnum
  box_x2 :: jsnum
  box_y2 :: jsnum

definition no_box :: bounding_box where
  "no_box = \<lparr>box_x1 = NaN, box_y1 = NaN, box_x2 = NaN, box_y2 = NaN\<rparr>"

definition box_width :: "bounding_box \<Rightarrow> jsnum" where
  "box_width bb = js_sub (box_x2 bb) (box_x1 bb)"

definition box_height :: "bounding_box \<Rightarrow> jsnum" where
  "box_height bb = js_sub (box_y2 bb) (box_y1 bb)"

text \<open>One axis of \<open>addPoint\<close>: the two ends after a coordinate, which may be missing.\<close>

definition widen :: "jsnum option \<Rightarrow> jsnum \<times> jsnum \<Rightarrow> jsnum \<times> jsnum" where
  "widen x ends = (case x of None \<Rightarrow> ends
     | Some x \<Rightarrow> (let (lo, hi) = (if fst ends = NaN \<or> snd ends = NaN then (x, x) else ends) in
         (if num_lt x lo then x else lo, if num_lt hi x then x else hi)))"

definition addPoint :: "jsnum option \<Rightarrow> jsnum option \<Rightarrow> bounding_box \<Rightarrow> bounding_box" where
  "addPoint x y bb = (let (x1, x2) = widen x (box_x1 bb, box_x2 bb); (y1, y2) = widen y (box_y1 bb, box_y2 bb) in
     \<lparr>box_x1 = x1, box_y1 = y1, box_x2 = x2, box_y2 = y2\<rparr>)"

definition add_point :: "point \<Rightarrow> bounding_box \<Rightarrow> bounding_box" where
  "add_point p = addPoint (Some (fst p)) (Some (snd p))"

definition addX :: "jsnum \<Rightarrow> bounding_box \<Rightarrow> bounding_box" where
  "addX x = addPoint (Some x) None"

definition addY :: "jsnum \<Rightarrow> bounding_box \<Rightarrow> bounding_box" where
  "addY y = addPoint None (Some y)"

definition addBoundingBox :: "bounding_box \<Rightarrow> bounding_box \<Rightarrow> bounding_box" where
  "addBoundingBox b bb = add_point (box_x2 b, box_y2 b) (add_point (box_x1 b, box_y1 b) bb)"

definition BoundingBox :: "point \<Rightarrow> point \<Rightarrow> bounding_box" where
  "BoundingBox p q = add_point q (add_point p no_box)"

definition isPointInBox :: "bounding_box \<Rightarrow> point \<Rightarrow> bool" where
  "isPointInBox bb p \<longleftrightarrow> num_le (box_x1 bb) (fst p) \<and> num_le (fst p) (box_x2 bb) \<and>
     num_le (box_y1 bb) (snd p) \<and> num_le (snd p) (box_y2 bb)"

subsection \<open>Curves\<close>

text \<open>The curve along one axis at a parameter, and the extremes strictly inside the curve.\<close>

definition bezier_at :: "math_fns \<Rightarrow> jsnum \<Rightarrow> jsnum \<Rightarrow> jsnum \<Rightarrow> jsnum \<Rightarrow> jsnum \<Rightarrow> jsnum" where
  "bezier_at fns p0 p1 p2 p3 t = js_add (js_add (js_add
     (js_mul (m_pow fns (js_sub one t) (num_of_int 3)) p0)
     (js_mul (js_mul (js_mul (num_of_int 3) (m_pow fns (js_sub one t) (num_of_int 2))) t) p1))
     (js_mul (js_mul (js_mul (num_of_int 3) (js_sub one t)) (m_pow fns t (num_of_int 2))) p2))
     (js_mul (m_pow fns t (num_of_int 3)) p3)"

definition inside_unit :: "jsnum \<Rightarrow> bool" where
  "inside_unit t \<longleftrightarrow> num_lt zero t \<and> num_lt t one"

definition bezier_extremes :: "math_fns \<Rightarrow> jsnum \<Rightarrow> jsnum \<Rightarrow> jsnum \<Rightarrow> jsnum \<Rightarrow> jsnum list" where
  "bezier_extremes fns p0 p1 p2 p3 =
     (let b = js_add (js_sub (js_mul (num_of_int 6) p0) (js_mul (num_of_int 12) p1)) (js_mul (num_of_int 6) p2);
          a = js_add (js_sub (js_add (js_mul (num_of_int (- 3)) p0) (js_mul (num_of_int 9) p1))
            (js_mul (num_of_int 9) p2)) (js_mul (num_of_int 3) p3);
          c = js_sub (js_mul (num_of_int 3) p1) (js_mul (num_of_int 3) p0);
          f = bezier_at fns p0 p1 p2 p3 in
      if num_eq a zero then
        (if num_eq b zero then []
         else (let t = js_div (js_neg c) b in if inside_unit t then [f t] else []))
      else
        (let b2ac = js_sub (m_pow fns b (num_of_int 2)) (js_mul (js_mul (num_of_int 4) c) a) in
         if num_lt b2ac zero then []
         else
           (let t1 = js_div (js_add (js_neg b) (m_sqrt fns b2ac)) (js_mul (num_of_int 2) a);
                t2 = js_div (js_sub (js_neg b) (m_sqrt fns b2ac)) (js_mul (num_of_int 2) a) in
            (if inside_unit t1 then [f t1] else []) @ (if inside_unit t2 then [f t2] else []))))"

definition addBezierCurve :: "math_fns \<Rightarrow> point \<Rightarrow> point \<Rightarrow> point \<Rightarrow> point \<Rightarrow> bounding_box \<Rightarrow> bounding_box" where
  "addBezierCurve fns p0 p1 p2 p3 bb =
     fold addY (bezier_extremes fns (snd p0) (snd p1) (snd p2) (snd p3))
       (fold addX (bezier_extremes fns (fst p0) (fst p1) (fst p2) (fst p3))
         (add_point p3 (add_point p0 bb)))"

text \<open>
  The control points are handed on as \<open>cp1x, cp2x, cp1y, cp2y\<close> where \<open>addBezierCurve\<close> takes
  \<open>p1x, p1y, p2x, p2y\<close>.
\<close>

definition addQuadraticCurve :: "math_fns \<Rightarrow> point \<Rightarrow> point \<Rightarrow> point \<Rightarrow> bounding_box \<Rightarrow> bounding_box" where
  "addQuadraticCurve fns p0 p1 p2 bb =
     (let third2 = js_div (num_of_int 2) (num_of_int 3); third = js_div one (num_of_int 3);
          cp1x = js_add (fst p0) (js_mul third2 (js_sub (fst p1) (fst p0)));
          cp1y = js_add (snd p0) (js_mul third2 (js_sub (snd p1) (snd p0)));
          cp2x = js_add cp1x (js_mul third (js_sub (fst p2) (fst p0)));
          cp2y = js_add cp1y (js_mul third (js_sub (snd p2) (snd p0))) in
      addBezierCurve fns p0 (cp1x, cp2x) (cp1y, cp2y) p2 bb)"

section \<open>Transformations\<close>

text \<open>
  \<open>Foreign\<close> is the object that the name \<open>constructor\<close>, inherited from every object, builds: it
  has no method \<open>apply\<close>.
\<close>

datatype transform =
    Translate point
  | Rotate property jsnum jsnum
  | Scale point
  | Matrix "jsnum list"
  | Foreign

definition new_transform :: "math_fns \<Rightarrow> string \<Rightarrow> string \<Rightarrow> transform res" where
  "new_transform fns kind s =
     (if kind = ''translate'' then Inr (Translate (CreatePoint s))
      else if kind = ''rotate'' then (let a = ToNumberArray s in
        Inr (Rotate \<lparr>prop_name = ''angle'', prop_value = Num (num_at a 0)\<rparr> (or_zero (num_at a 1)) (or_zero (num_at a 2))))
      else if kind = ''scale'' then Inr (Scale (CreatePoint s))
      else if kind = ''matrix'' \<or> kind = ''SkewBase'' then Inr (Matrix (ToNumberArray s))
      else if kind = ''skewX'' then
        Inr (Matrix [one, zero, m_tan fns (toRadians \<lparr>prop_name = ''angle'', prop_value = Str s\<rparr>), one, zero, zero])
      else if kind = ''skewY'' then
        Inr (Matrix [one, m_tan fns (toRadians \<lparr>prop_name = ''angle'', prop_value = Str s\<rparr>), zero, one, zero, zero])
      else if kind = ''constructor'' then Inr Foreign
      else Inl TypeError)"

text \<open>\<open>split(/\s(?=[a-z])/)\<close>: at a white space that a small letter follows.\<close>

definition small_letter :: "char \<Rightarrow> bool" where
  "small_letter c \<longleftrightarrow> 97 \<le> code c \<and> code c \<le> 122"

fun split_before_letter :: "string \<Rightarrow> string list" where
  "split_before_letter [] = [[]]"
| "split_before_letter [c] = [[c]]"
| "split_before_letter (c # d # s) =
     (if is_ws c \<and> small_letter d then [] # split_before_letter (d # s)
      else (case split_before_letter (d # s) of [] \<Rightarrow> [[c]] | w # ws \<Rightarrow> (c # w) # ws))"

definition read_transform :: "math_fns \<Rightarrow> string \<Rightarrow> transform res" where
  "read_transform fns data = (case split_char (CHR ''('') data of
     kind # s # _ \<Rightarrow> new_transform fns kind (replace_first s '')'' '''')
   | _ \<Rightarrow> Inl TypeError)"

definition Transform :: "math_fns \<Rightarrow> string \<Rightarrow> transform list res" where
  "Transform fns v = map_res (read_transform fns) (split_before_letter (trim (compressSpaces v)))"

definition apply_transform :: "transform \<Rightarrow> canvas_op list res" where
  "apply_transform t = (case t of
     Translate p \<Rightarrow> Inr [CTranslate (or_zero (fst p)) (or_zero (snd p))]
   | Rotate angle cx cy \<Rightarrow> Inr [CTranslate cx cy, CRotate (toRadians angle), CTranslate (js_neg cx) (js_neg cy)]
   | Scale p \<Rightarrow> Inr [CScale (or_one (fst p)) (if truthy (Num (snd p)) then snd p else or_one (fst p))]
   | Matrix m \<Rightarrow> Inr [CTransform (map (num_at m) [0, 1, 2, 3, 4, 5])]
   | Foreign \<Rightarrow> Inl TypeError)"

definition apply_transforms :: "transform list \<Rightarrow> canvas_op list res" where
  "apply_transforms ts = bind_res (map_res apply_transform ts) (\<lambda>opss. Inr (concat opss))"

text \<open>A rotation reads the point it does not have.\<close>

definition transform_point :: "transform \<Rightarrow> point \<Rightarrow> point res" where
  "transform_point t q = (case t of
     Translate p \<Rightarrow> Inr (applyTransform q [one, zero, zero, one, or_zero (fst p), or_zero (snd p)])
   | Rotate angle cx cy \<Rightarrow> Inl TypeError
   | Scale p \<Rightarrow> Inr (applyTransform q [or_zero (fst p), zero, zero, or_zero (snd p), zero, zero])
   | Matrix m \<Rightarrow> Inr (applyTransform q m)
   | Foreign \<Rightarrow> Inl TypeError)"

definition applyToPoint :: "transform list \<Rightarrow> point \<Rightarrow> point res" where
  "applyToPoint ts p = fold_res (\<lambda>q t. transform_point t q) p ts"

section \<open>Aspect ratio\<close>

text \<open>\<open>replace(/^defer\s/, '')\<close>.\<close>

definition drop_defer :: "string \<Rightarrow> string" where
  "drop_defer s = (if prefix ''defer'' s \<and> (case drop 5 s of c # _ \<Rightarrow> is_ws c | [] \<Rightarrow> False) then drop 6 s else s)"

definition word_or :: "string list \<Rightarrow> nat \<Rightarrow> string \<Rightarrow> string" where
  "word_or ws i d = (if i < length ws \<and> ws ! i \<noteq> '''' then ws ! i else d)"

definition half_gap :: "jsnum \<Rightarrow> jsnum \<Rightarrow> jsnum" where
  "half_gap outer inner = js_sub (js_div outer (num_of_int 2)) (js_div inner (num_of_int 2))"

definition when_op :: "bool \<Rightarrow> canvas_op \<Rightarrow> canvas_op list" where
  "when_op b op = (if b then [op] else [])"

definition AspectRatio ::
  "math_fns \<Rightarrow> units \<Rightarrow> string \<Rightarrow> jsnum \<Rightarrow> jsnum \<Rightarrow> jsnum \<Rightarrow> jsnum \<Rightarrow> jsnum option \<Rightarrow> jsnum option \<Rightarrow> jsval \<Rightarrow> jsval \<Rightarrow>
   canvas_op list res" where
  "AspectRatio fns u aspectRatio width desiredWidth height desiredHeight minX minY refX refY =
     (let ws = split_char (CHR '' '') (drop_defer (compressSpaces aspectRatio));
          align = word_or ws 0 ''xMidYMid''; meetOrSlice = word_or ws 1 ''meet'';
          scaleX = js_div width desiredWidth; scaleY = js_div height desiredHeight;
          scaleMin = math_min scaleX scaleY; scaleMax = math_max scaleX scaleY;
          factor = (if meetOrSlice = ''meet'' then scaleMin else if meetOrSlice = ''slice'' then scaleMax else one);
          scaled = (meetOrSlice = ''meet'' \<or> meetOrSlice = ''slice'');
          dw = (if scaled then js_mul desiredWidth factor else desiredWidth);
          dh = (if scaled then js_mul desiredHeight factor else desiredHeight);
          rx = \<lparr>prop_name = ''refX'', prop_value = refX\<rparr>; ry = \<lparr>prop_name = ''refY'', prop_value = refY\<rparr>;
          by_x = (meetOrSlice = ''meet'' \<and> num_eq scaleMin scaleY \<or> meetOrSlice = ''slice'' \<and> num_eq scaleMax scaleY);
          by_y = (meetOrSlice = ''meet'' \<and> num_eq scaleMin scaleX \<or> meetOrSlice = ''slice'' \<and> num_eq scaleMax scaleX);
          move = [CTranslate (case minX of None \<Rightarrow> zero | Some x \<Rightarrow> js_neg x) (case minY of None \<Rightarrow> zero | Some y \<Rightarrow> js_neg y)];
          scale = (if align = ''none'' then [CScale scaleX scaleY]
            else when_op scaled (CScale factor factor))
      in if hasValue rx \<and> hasValue ry then
           bind_res (toPixels fns u (Str ''x'') rx) (\<lambda>px. bind_res (toPixels fns u (Str ''y'') ry) (\<lambda>py.
             Inr (CTranslate (js_mul (js_neg scaleMin) px) (js_mul (js_neg scaleMin) py) # scale @ move)))
         else Inr (
           when_op (prefix ''xMid'' align \<and> by_x) (CTranslate (half_gap width dw) zero) @
           when_op (suffix ''YMid'' align \<and> by_y) (CTranslate zero (half_gap height dh)) @
           when_op (prefix ''xMax'' align \<and> by_x) (CTranslate (js_sub width dw) zero) @
           when_op (suffix ''YMax'' align \<and> by_y) (CTranslate zero (js_sub height dh)) @
           scale @ move))"

section \<open>A box holds what was added to it\<close>

definition ends_ok :: "jsnum \<times> jsnum \<Rightarrow> bool" where
  "ends_ok e \<longleftrightarrow> fst e = NaN \<and> snd e = NaN \<or> num_le (fst e) (snd e)"

definition between_ends :: "jsnum \<Rightarrow> jsnum \<times> jsnum \<Rightarrow> bool" where
  "between_ends x e \<longleftrightarrow> x = NaN \<or> num_le (fst e) x \<and> num_le x (snd e)"

lemma num_le_refl: "x \<noteq> NaN \<Longrightarrow> num_le x x"
  by (cases x) (simp_all add: num_cmp_defs)

lemma num_le_not_NaN: "num_le x y \<Longrightarrow> x \<noteq> NaN \<and> y \<noteq> NaN"
  by (auto simp: num_cmp_defs)

lemma num_not_lt: "x \<noteq> NaN \<Longrightarrow> y \<noteq> NaN \<Longrightarrow> \<not> num_lt x y \<Longrightarrow> num_le y x"
  using num_trichotomy [of x y] num_eq_sym [of x y] by (auto simp: num_le_def)

lemma num_lt_le: "num_lt x y \<Longrightarrow> num_le x y"
  by (simp add: num_le_def)

lemma widen_None [simp]: "widen None e = e"
  by (simp add: widen_def)

lemma widen_NaN [simp]: "ends_ok e \<Longrightarrow> widen (Some NaN) e = e"
  by (cases e) (auto simp: widen_def ends_ok_def num_lt_def dest: num_le_not_NaN)

lemma widen_ends:
  assumes "ends_ok e"
  shows "ends_ok (widen x e)" and "x = Some v \<Longrightarrow> between_ends v (widen x e)"
    and "between_ends z e \<Longrightarrow> between_ends z (widen x e)"
proof -
  obtain lo hi where e: "e = (lo, hi)" by (cases e)
  have "ends_ok (widen (Some v) e) \<and> between_ends v (widen (Some v) e) \<and>
      (between_ends z e \<longrightarrow> between_ends z (widen (Some v) e))" for v
  proof (cases "v = NaN")
    case True
    then show ?thesis using assms by (simp add: between_ends_def)
  next
    case v: False
    show ?thesis
    proof (cases "lo = NaN")
      case True
      then have "widen (Some v) e = (v, v)" using assms by (simp add: widen_def e)
      then show ?thesis
        using v True by (auto simp: ends_ok_def between_ends_def e num_le_refl dest: num_le_not_NaN)
    next
      case False
      then have le: "num_le lo hi" using assms by (simp add: ends_ok_def e)
      then have n: "lo \<noteq> NaN" "hi \<noteq> NaN" by (auto dest: num_le_not_NaN)
      define a where "a = (if num_lt v lo then v else lo)"
      define b where "b = (if num_lt hi v then v else hi)"
      have w: "widen (Some v) e = (a, b)" using n by (simp add: widen_def e a_def b_def)
      have lo: "num_le a v" "num_le a lo"
        using n v by (auto simp: a_def num_le_refl num_lt_le num_not_lt)
      have hi: "num_le v b" "num_le hi b"
        using n v by (auto simp: b_def num_le_refl num_lt_le num_not_lt)
      show ?thesis
        unfolding w ends_ok_def between_ends_def
        using lo hi num_le_trans [of a lo z] num_le_trans [of z hi b] num_le_trans [of a v b] by (auto simp: e)
    qed
  qed
  then show "ends_ok (widen x e)" and "x = Some v \<Longrightarrow> between_ends v (widen x e)"
    and "between_ends z e \<Longrightarrow> between_ends z (widen x e)"
    using assms by (cases x; simp)+
qed

text \<open>The two axes of a box.\<close>

definition box_ok :: "bounding_box \<Rightarrow> bool" where
  "box_ok bb \<longleftrightarrow> ends_ok (box_x1 bb, box_x2 bb) \<and> ends_ok (box_y1 bb, box_y2 bb)"

definition box_holds :: "bounding_box \<Rightarrow> point \<Rightarrow> bool" where
  "box_holds bb p \<longleftrightarrow> between_ends (fst p) (box_x1 bb, box_x2 bb) \<and> between_ends (snd p) (box_y1 bb, box_y2 bb)"

text \<open>A box after an operation that only widens it.\<close>

definition box_grows :: "bounding_box \<Rightarrow> bounding_box \<Rightarrow> bool" where
  "box_grows bb bb' \<longleftrightarrow> box_ok bb' \<and> (\<forall>p. box_holds bb p \<longrightarrow> box_holds bb' p)"

lemma addPoint_axes:
  "(box_x1 (addPoint x y bb), box_x2 (addPoint x y bb)) = widen x (box_x1 bb, box_x2 bb)"
  "(box_y1 (addPoint x y bb), box_y2 (addPoint x y bb)) = widen y (box_y1 bb, box_y2 bb)"
  by (simp_all add: addPoint_def split: prod.splits)

lemma box_ok_no_box [simp]: "box_ok no_box"
  by (simp add: box_ok_def no_box_def ends_ok_def)

lemma box_grows_refl: "box_ok bb \<Longrightarrow> box_grows bb bb"
  by (simp add: box_grows_def)

lemma box_grows_trans: "box_grows a b \<Longrightarrow> box_grows b c \<Longrightarrow> box_grows a c"
  by (auto simp: box_grows_def)

lemma addPoint_grows: "box_ok bb \<Longrightarrow> box_grows bb (addPoint x y bb)"
  unfolding box_grows_def box_ok_def box_holds_def addPoint_axes by (auto intro: widen_ends)

lemma addPoint_NaN: "box_ok bb \<Longrightarrow> addPoint (Some NaN) y bb = addPoint None y bb"
    "box_ok bb \<Longrightarrow> addPoint x (Some NaN) bb = addPoint x None bb"
  by (simp_all add: addPoint_def box_ok_def)

lemma add_point_holds: "box_ok bb \<Longrightarrow> box_holds (add_point p bb) p"
  unfolding add_point_def box_ok_def box_holds_def addPoint_axes by (auto intro: widen_ends)

lemma fold_grows:
  assumes "\<And>x bb. box_ok bb \<Longrightarrow> box_grows bb (f x bb)" and "box_ok bb"
  shows "box_grows bb (fold f xs bb)"
  using assms(2)
proof (induction xs arbitrary: bb)
  case (Cons x xs)
  then have "box_grows bb (f x bb)" using assms(1) by blast
  moreover have "box_grows (f x bb) (fold f xs (f x bb))"
    using \<open>box_grows bb (f x bb)\<close> by (intro Cons.IH) (simp add: box_grows_def)
  ultimately show ?case by (auto intro: box_grows_trans)
qed (simp add: box_grows_refl)

lemma add_grows:
  assumes "box_ok bb"
  shows "box_grows bb (add_point p bb)" "box_grows bb (addX x bb)" "box_grows bb (addY y bb)"
  unfolding add_point_def addX_def addY_def by (rule addPoint_grows [OF assms])+

lemma addBezierCurve_grows:
  assumes "box_ok bb"
  shows "box_grows bb (addBezierCurve fns p0 p1 p2 p3 bb)"
    and "box_holds (addBezierCurve fns p0 p1 p2 p3 bb) p0" "box_holds (addBezierCurve fns p0 p1 p2 p3 bb) p3"
proof -
  define b0 where "b0 = add_point p0 bb"
  define b3 where "b3 = add_point p3 b0"
  define xs where "xs = bezier_extremes fns (fst p0) (fst p1) (fst p2) (fst p3)"
  define ys where "ys = bezier_extremes fns (snd p0) (snd p1) (snd p2) (snd p3)"
  have g0: "box_grows bb b0" unfolding b0_def by (rule add_grows [OF assms])
  then have ok0: "box_ok b0" by (simp add: box_grows_def)
  then have g3: "box_grows b0 b3" unfolding b3_def by (rule add_grows)
  then have ok3: "box_ok b3" by (simp add: box_grows_def)
  have gx: "box_grows b3 (fold addX xs b3)" by (rule fold_grows [OF add_grows(2) ok3])
  then have "box_ok (fold addX xs b3)" by (simp add: box_grows_def)
  then have "box_grows (fold addX xs b3) (fold addY ys (fold addX xs b3))"
    by (intro fold_grows add_grows(3))
  then have all: "box_grows b3 (addBezierCurve fns p0 p1 p2 p3 bb)"
    using box_grows_trans [OF gx] by (simp add: addBezierCurve_def b0_def b3_def xs_def ys_def)
  have "box_holds b0 p0" "box_holds b3 p3"
    unfolding b0_def b3_def by (rule add_point_holds [OF assms], rule add_point_holds [OF ok0 [unfolded b0_def]])
  then show "box_grows bb (addBezierCurve fns p0 p1 p2 p3 bb)"
    "box_holds (addBezierCurve fns p0 p1 p2 p3 bb) p0" "box_holds (addBezierCurve fns p0 p1 p2 p3 bb) p3"
    using all g0 g3 unfolding box_grows_def by blast+
qed

lemma addQuadraticCurve_grows:
  assumes "box_ok bb"
  shows "box_grows bb (addQuadraticCurve fns p0 p1 p2 bb)"
    and "box_holds (addQuadraticCurve fns p0 p1 p2 bb) p0" "box_holds (addQuadraticCurve fns p0 p1 p2 bb) p2"
  unfolding addQuadraticCurve_def Let_def using addBezierCurve_grows [OF assms] by blast+

lemma addBoundingBox_grows: "box_ok bb \<Longrightarrow> box_grows bb (addBoundingBox b bb)"
  unfolding addBoundingBox_def using add_grows(1) box_grows_trans box_grows_def by metis

lemma BoundingBox_holds: "box_ok (BoundingBox p q)" "box_holds (BoundingBox p q) p" "box_holds (BoundingBox p q) q"
proof -
  have ok: "box_ok (add_point p no_box)" using add_grows(1) [OF box_ok_no_box] by (simp add: box_grows_def)
  show "box_ok (BoundingBox p q)" "box_holds (BoundingBox p q) p" "box_holds (BoundingBox p q) q"
    using add_grows(1) [OF ok, of q] add_point_holds [OF box_ok_no_box, of p] add_point_holds [OF ok, of q]
    unfolding BoundingBox_def box_grows_def by blast+
qed

text \<open>A point of numbers that a box holds is a point in the box.\<close>

lemma box_holds_inside: "box_holds bb p \<Longrightarrow> fst p \<noteq> NaN \<Longrightarrow> snd p \<noteq> NaN \<Longrightarrow> isPointInBox bb p"
  by (simp add: box_holds_def between_ends_def isPointInBox_def)

section \<open>A list of transformations reads back\<close>

definition transform_text :: "string \<times> nat list \<Rightarrow> string" where
  "transform_text t = fst t @ ''('' @ join '','' (map (nat_digits 10) (snd t)) @ '')''"

text \<open>What a transformation with whole arguments means; arguments that are left out are undefined.\<close>

definition meant :: "string \<times> nat list \<Rightarrow> transform" where
  "meant t = (let a = map (\<lambda>n. num_of_int (int n)) (snd t) in
     if fst t = ''translate'' then Translate (num_at a 0, num_at a 1)
     else if fst t = ''rotate'' then
       Rotate \<lparr>prop_name = ''angle'', prop_value = Num (num_at a 0)\<rparr> (or_zero (num_at a 1)) (or_zero (num_at a 2))
     else if fst t = ''scale'' then Scale (num_at a 0, num_at a 1)
     else Matrix a)"

definition whole_transform :: "string \<times> nat list \<Rightarrow> bool" where
  "whole_transform t \<longleftrightarrow> fst t \<in> set [''translate'', ''rotate'', ''scale'', ''matrix''] \<and>
     snd t \<noteq> [] \<and> list_all (\<lambda>n. n \<le> 2 ^ 53) (snd t)"

lemma split_before_word:
  assumes "list_all (\<lambda>c. \<not> is_ws c) w" "small_letter d"
  shows "split_before_letter (w @ CHR '' '' # d # s) = w # split_before_letter (d # s)"
  using assms
proof (induction w)
  case (Cons c w)
  then show ?case by (cases w) auto
qed simp

lemma split_before_last: "list_all (\<lambda>c. \<not> is_ws c) w \<Longrightarrow> split_before_letter w = [w]"
  by (induction w rule: split_before_letter.induct) auto

definition letter_word :: "string \<Rightarrow> bool" where
  "letter_word w \<longleftrightarrow> plain_word w \<and> small_letter (hd w)"

lemma split_before_join: "list_all letter_word ws \<Longrightarrow> ws \<noteq> [] \<Longrightarrow> split_before_letter (join '' '' ws) = ws"
proof (induction "'' ''" ws rule: join.induct)
  case (2 w)
  then show ?case by (simp add: letter_word_def plain_word_def split_before_last)
next
  case (3 w v ws)
  obtain d s where d: "join '' '' (v # ws) = d # s" "small_letter d"
    using "3.prems" by (cases ws; cases v) (auto simp: letter_word_def plain_word_def)
  have "split_before_letter (w @ CHR '' '' # d # s) = w # split_before_letter (d # s)"
    using "3.prems" d(2) by (intro split_before_word) (simp_all add: letter_word_def plain_word_def)
  then show ?case using 3 by (simp add: d(1) [symmetric])
qed simp

lemma index_of_last: "c \<notin> set u \<Longrightarrow> index_of (u @ [c]) [c] = Some (length u)"
  by (induction u) auto

lemma replace_last: "c \<notin> set u \<Longrightarrow> replace_first (u @ [c]) [c] '''' = u"
  by (simp add: replace_first_def index_of_last)

lemma numerals_chars:
  assumes "c \<in> set (join '','' (map (nat_digits 10) ns))"
  shows "is_digit c \<or> c = CHR '',''"
  using set_join_subset [of "'',''" "map (nat_digits 10) ns"] assms by (auto dest: nat_digits_is_digit)

lemma read_whole_transform:
  assumes "whole_transform t"
  shows "read_transform fns (transform_text t) = Inr (meant t)" and "letter_word (transform_text t)"
proof -
  obtain kind ns where t: "t = (kind, ns)" by (cases t)
  define body where "body = join '','' (map (nat_digits 10) ns)"
  have chars: "is_digit c \<or> c = CHR '',''" if "c \<in> set body" for c
    using that numerals_chars by (simp add: body_def)
  then have no: "CHR ''('' \<notin> set body" "CHR '')'' \<notin> set body" "\<forall>c \<in> set body. \<not> is_ws c"
    by (auto simp: is_digit_def is_ws_def code_def dest!: chars)
  have kind: "kind = ''translate'' \<or> kind = ''rotate'' \<or> kind = ''scale'' \<or> kind = ''matrix''"
    using assms by (auto simp: whole_transform_def t)
  then have kc: "CHR ''('' \<notin> set kind" "letter_word kind"
    by (auto simp: letter_word_def plain_word_def is_ws_def small_letter_def code_def)
  have "split_char (CHR ''('') (transform_text t) = [kind, body @ '')'']"
    using kc(1) no(1) by (simp add: transform_text_def t body_def [symmetric] split_char_append split_char_no_sep)
  moreover have "ToNumberArray body = map (\<lambda>n. num_of_int (int n)) ns"
    using assms unfolding body_def by (intro ToNumberArray_numerals) (auto simp: whole_transform_def t list_all_iff)
  ultimately show "read_transform fns (transform_text t) = Inr (meant t)"
    using kind no(2) by (auto simp: read_transform_def replace_last new_transform_def meant_def t CreatePoint_def Let_def)
  have "\<not> is_ws (CHR ''('')" "\<not> is_ws (CHR '')'')" by (simp_all add: is_ws_def code_def)
  then show "letter_word (transform_text t)"
    using kc(2) no(3) by (auto simp: letter_word_def plain_word_def transform_text_def t body_def [symmetric] list_all_iff)
qed

text \<open>
  C25: an attribute that lists translations, rotations, scalings and matrices with whole arguments,
  separated by spaces, is read as exactly those transformations in their order; the arguments
  that a transformation leaves out are undefined.
\<close>

theorem transforms_read_back:
  assumes "list_all whole_transform ts" and "ts \<noteq> []"
  shows "Transform fns (join '' '' (map transform_text ts)) = Inr (map meant ts)"
proof -
  have words: "list_all letter_word (map transform_text ts)"
    using assms(1) by (simp add: list_all_iff read_whole_transform)
  then have "list_all plain_word (map transform_text ts)" by (simp add: list_all_iff letter_word_def)
  then have "split_before_letter (trim (compressSpaces (join '' '' (map transform_text ts)))) = map transform_text ts"
    using words assms(2) by (simp add: compressSpaces_join trim_join split_before_join)
  then show ?thesis
    using assms(1) by (auto simp: Transform_def map_res_Inr_iff list.rel_map list_all_iff read_whole_transform
        intro!: list.rel_refl_strong)
qed

theorem transforms_read_back_witness:
  "Transform flat_math ''translate(30,40) rotate(90) scale(2)'' =
     Inr [Translate (num_of_int 30, num_of_int 40),
       Rotate \<lparr>prop_name = ''angle'', prop_value = Num (num_of_int 90)\<rparr> (num_of_int 0) (num_of_int 0),
       Scale (num_of_int 2, NaN)]"
proof -
  define ts where "ts = [(''translate'', [30, 40]), (''rotate'', [90]), (''scale'', [2 :: nat])]"
  have t: "join '' '' (map transform_text ts) = ''translate(30,40) rotate(90) scale(2)''" unfolding ts_def by code_simp
  have m: "map meant ts = [Translate (num_of_int 30, num_of_int 40),
       Rotate \<lparr>prop_name = ''angle'', prop_value = Num (num_of_int 90)\<rparr> (num_of_int 0) (num_of_int 0),
       Scale (num_of_int 2, NaN)]"
    by (simp add: ts_def meant_def num_at_def or_zero_def)
  have w: "list_all whole_transform ts" "ts \<noteq> []" by (simp_all add: ts_def whole_transform_def)
  show ?thesis by (rule transforms_read_back [OF w, of flat_math, unfolded t m])
qed

end
