(* ===== verification/Canvg_Path.thy ===== *)
theory Canvg_Path
  imports Canvg_Geometry
begin

text \<open>
  The path element of canvg in modules/canvas-tools.src.js: the passes that separate the text of
  a path into tokens, the reader of the tokens, and the loop that draws the path and collects its
  bounding box and its markers. The reader's position is held as the tokens that are left; past
  the end a token is undefined, and its number is \<open>NaN\<close>. The lemmas show that the loop ends for
  every text, that the box holds the end of everything drawn, and that a path of whole
  coordinates is drawn point by point.
\<close>

section \<open>From the text to tokens\<close>

definition is_command :: "char \<Rightarrow> bool" where
  "is_command c \<longleftrightarrow> c \<in> set ''MmZzLlHhVvCcSsQqTtAa''"

text \<open>\<open>replace(/(P)(Q)/g, '$1 $2')\<close> for two character classes.\<close>

fun separate :: "(char \<Rightarrow> bool) \<Rightarrow> (char \<Rightarrow> bool) \<Rightarrow> string \<Rightarrow> string" where
  "separate P Q (c # d # s) =
     (if P c \<and> Q d then c # CHR '' '' # d # separate P Q s else c # separate P Q (d # s))"
| "separate P Q s = s"

text \<open>\<open>replace(/(\.[0-9]*)(\.)/g, '$1 $2')\<close>.\<close>

function separate_points :: "string \<Rightarrow> string" where
  "separate_points [] = []"
| "separate_points (c # s) =
     (let ds = takeWhile is_digit s; r = dropWhile is_digit s in
      if c = CHR ''.'' \<and> take 1 r = ''.'' then c # ds @ '' .'' @ separate_points (drop 1 r)
      else c # separate_points s)"
  by pat_completeness auto
termination
proof (relation "measure length", goal_cases)
  case (2 c s ds r)
  have "length r \<le> length s" using 2 by (simp add: length_dropWhile_le)
  then show ?case by simp
qed auto

text \<open>\<open>(\s+[0-9]+){k}\<close>: what matches and what follows.\<close>

fun scan_numbers :: "nat \<Rightarrow> string \<Rightarrow> (string \<times> string) option" where
  "scan_numbers 0 s = Some ([], s)"
| "scan_numbers (Suc k) s =
     (let ws = takeWhile is_ws s; t = dropWhile is_ws s; ds = takeWhile is_digit t; r = dropWhile is_digit t in
      if ws = [] \<or> ds = [] then None
      else map_option (\<lambda>(m, u). (ws @ ds @ m, u)) (scan_numbers k r))"

definition is_flag :: "char \<Rightarrow> bool" where
  "is_flag c \<longleftrightarrow> c = CHR ''0'' \<or> c = CHR ''1''"

text \<open>\<open>(\s+[0-9]+){3})\s+([01])\s*([01])\<close>: the numbers, the two flags and what follows.\<close>

definition scan_flags :: "string \<Rightarrow> (string \<times> char \<times> char \<times> string) option" where
  "scan_flags s = (case scan_numbers 3 s of None \<Rightarrow> None
     | Some (m, t) \<Rightarrow>
         if takeWhile is_ws t = [] then None
         else (case dropWhile is_ws t of [] \<Rightarrow> None
           | f # u \<Rightarrow> (case dropWhile is_ws u of [] \<Rightarrow> None
             | g # v \<Rightarrow> if is_flag f \<and> is_flag g then Some (m, f, g, v) else None)))"

lemma scan_numbers_length: "scan_numbers k s = Some (m, t) \<Longrightarrow> length t \<le> length s"
proof (induction k arbitrary: s m)
  case (Suc k)
  then obtain m' where "scan_numbers k (dropWhile is_digit (dropWhile is_ws s)) = Some (m', t)"
    by (auto simp: Let_def split: if_splits)
  then have "length t \<le> length (dropWhile is_digit (dropWhile is_ws s))" by (rule Suc.IH)
  then show ?case
    using length_dropWhile_le [of is_digit "dropWhile is_ws s"] length_dropWhile_le [of is_ws s] by linarith
qed simp

lemma scan_flags_length: "scan_flags s = Some (m, f, g, v) \<Longrightarrow> length v < length s"
proof -
  assume "scan_flags s = Some (m, f, g, v)"
  then obtain t f' u where t: "scan_numbers 3 s = Some (m, t)" and u: "dropWhile is_ws t = f' # u"
      and v: "dropWhile is_ws u = g # v"
    by (auto simp: scan_flags_def split: option.splits if_splits list.splits)
  have "length t \<le> length s" using t by (rule scan_numbers_length)
  moreover have "length (f' # u) \<le> length t" using length_dropWhile_le [of is_ws t] by (simp only: u)
  moreover have "length (g # v) \<le> length u" using length_dropWhile_le [of is_ws u] by (simp only: v)
  ultimately show ?thesis by simp
qed

function separate_flags :: "string \<Rightarrow> string" where
  "separate_flags [] = []"
| "separate_flags (c # s) =
     (if c = CHR ''A'' \<or> c = CHR ''a'' then
        (case scan_flags s of None \<Rightarrow> c # separate_flags s
         | Some (m, f, g, v) \<Rightarrow> c # m @ [CHR '' '', f, CHR '' '', g, CHR '' ''] @ separate_flags v)
      else c # separate_flags s)"
  by pat_completeness auto
termination
  by (relation "measure length") (auto dest: scan_flags_length)

definition path_tokens :: "string \<Rightarrow> string list" where
  "path_tokens d0 =
     (let d1 = commas_to_spaces d0;
          d2 = separate is_command is_command (separate is_command is_command d1);
          d3 = separate is_command (\<lambda>c. \<not> is_ws c) d2;
          d4 = separate (\<lambda>c. \<not> is_ws c) is_command d3;
          d5 = separate is_digit (\<lambda>c. c = CHR ''+'' \<or> c = CHR ''-'') d4;
          d6 = separate_flags (separate_points d5)
      in split_char (CHR '' '') (trim (compressSpaces d6)))"

section \<open>The reader of the tokens\<close>

record path_state =
  pp_rest :: "string list"
  pp_command :: string
  pp_previous :: string
  pp_start :: point
  pp_control :: point
  pp_current :: point
  pp_points :: "point list"
  pp_angles :: "jsnum option list"
  pp_box :: bounding_box
  pp_ops :: "canvas_op list"

text \<open>The reader after \<open>reset\<close>, with the box and the operations the loop starts from.\<close>

definition path_reset :: "string list \<Rightarrow> path_state" where
  "path_reset tokens = \<lparr>pp_rest = tokens, pp_command = '''', pp_previous = '''', pp_start = (zero, zero),
     pp_control = (zero, zero), pp_current = (zero, zero), pp_points = [], pp_angles = [],
     pp_box = no_box, pp_ops = [BeginPath]\<rparr>"

definition one_letter :: "string \<Rightarrow> bool" where
  "one_letter w \<longleftrightarrow> length w = 1 \<and>
     (65 \<le> code (hd w) \<and> code (hd w) \<le> 90 \<or> 97 \<le> code (hd w) \<and> code (hd w) \<le> 122)"

definition isCommandOrEnd :: "path_state \<Rightarrow> bool" where
  "isCommandOrEnd st \<longleftrightarrow> (case pp_rest st of [] \<Rightarrow> True | w # _ \<Rightarrow> one_letter w)"

definition isRelativeCommand :: "path_state \<Rightarrow> bool" where
  "isRelativeCommand st \<longleftrightarrow> pp_command st = lower_case (pp_command st)"

definition getScalar :: "path_state \<Rightarrow> jsnum \<times> path_state" where
  "getScalar st = (case pp_rest st of [] \<Rightarrow> (NaN, st) | w # ws \<Rightarrow> (parse_float w, st\<lparr>pp_rest := ws\<rparr>))"

definition nextCommand :: "path_state \<Rightarrow> path_state" where
  "nextCommand st = (case pp_rest st of [] \<Rightarrow> st
     | w # ws \<Rightarrow> st\<lparr>pp_rest := ws, pp_previous := pp_command st, pp_command := w\<rparr>)"

definition makeAbsolute :: "path_state \<Rightarrow> point \<Rightarrow> point" where
  "makeAbsolute st p = (if isRelativeCommand st
     then (js_add (fst (pp_current st)) (fst p), js_add (snd (pp_current st)) (snd p)) else p)"

definition getPoint :: "path_state \<Rightarrow> point \<times> path_state" where
  "getPoint st = (let (x, st1) = getScalar st; (y, st2) = getScalar st1 in (makeAbsolute st2 (x, y), st2))"

definition getAsControlPoint :: "path_state \<Rightarrow> point \<times> path_state" where
  "getAsControlPoint st = (let (p, st1) = getPoint st in (p, st1\<lparr>pp_control := p\<rparr>))"

definition getAsCurrentPoint :: "path_state \<Rightarrow> point \<times> path_state" where
  "getAsCurrentPoint st = (let (p, st1) = getPoint st in (p, st1\<lparr>pp_current := p\<rparr>))"

definition getReflectedControlPoint :: "path_state \<Rightarrow> point" where
  "getReflectedControlPoint st =
     (if lower_case (pp_previous st) \<noteq> ''c'' \<and> lower_case (pp_previous st) \<noteq> ''s'' then pp_current st
      else (js_sub (js_mul (num_of_int 2) (fst (pp_current st))) (fst (pp_control st)),
            js_sub (js_mul (num_of_int 2) (snd (pp_current st))) (snd (pp_control st))))"

definition addMarkerAngle :: "point \<Rightarrow> jsnum option \<Rightarrow> path_state \<Rightarrow> path_state" where
  "addMarkerAngle p a st = st\<lparr>pp_points := pp_points st @ [p], pp_angles := pp_angles st @ [a]\<rparr>"

definition addMarker :: "math_fns \<Rightarrow> point \<Rightarrow> point option \<Rightarrow> point option \<Rightarrow> path_state \<Rightarrow> path_state" where
  "addMarker fns p from priorTo st =
     addMarkerAngle p (map_option (\<lambda>f. angleTo fns f p) from)
       (case priorTo of
          Some q \<Rightarrow>
            if pp_angles st \<noteq> [] \<and> last (pp_angles st) = None
            then st\<lparr>pp_angles := butlast (pp_angles st) @ [Some (angleTo fns (last (pp_points st)) q)]\<rparr>
            else st
        | None \<Rightarrow> st)"

section \<open>The segments\<close>

definition draw :: "canvas_op list \<Rightarrow> bounding_box \<Rightarrow> path_state \<Rightarrow> path_state" where
  "draw ops bb st = st\<lparr>pp_box := bb, pp_ops := pp_ops st @ ops\<rparr>"

definition line_to :: "point \<Rightarrow> path_state \<Rightarrow> path_state" where
  "line_to p st = draw [LineTo (fst p) (snd p)] (add_point p (pp_box st)) st"

definition more_move :: "math_fns \<Rightarrow> path_state \<Rightarrow> path_state" where
  "more_move fns st = (let (p, st1) = getAsCurrentPoint st in
     line_to p (addMarker fns p (Some (pp_start st1)) None st1))"

definition line_segment :: "math_fns \<Rightarrow> path_state \<Rightarrow> path_state" where
  "line_segment fns st = (let c = pp_current st; (p, st1) = getAsCurrentPoint st in
     line_to p (addMarker fns p (Some c) None st1))"

definition to_point :: "math_fns \<Rightarrow> point \<Rightarrow> path_state \<Rightarrow> path_state" where
  "to_point fns p st = line_to p ((addMarker fns p (Some (pp_current st)) None st)\<lparr>pp_current := p\<rparr>)"

definition horizontal :: "math_fns \<Rightarrow> path_state \<Rightarrow> path_state" where
  "horizontal fns st = (let (x, st1) = getScalar st in
     to_point fns (js_add (if isRelativeCommand st then fst (pp_current st) else zero) x, snd (pp_current st1)) st1)"

definition vertical :: "math_fns \<Rightarrow> path_state \<Rightarrow> path_state" where
  "vertical fns st = (let (y, st1) = getScalar st in
     to_point fns (fst (pp_current st), js_add (if isRelativeCommand st then snd (pp_current st) else zero) y) st1)"

text \<open>A cubic curve from its first control point on.\<close>

definition cubic_from :: "math_fns \<Rightarrow> point \<Rightarrow> point \<Rightarrow> path_state \<Rightarrow> path_state" where
  "cubic_from fns cur p1 st =
     (let (cntrl, st1) = getAsControlPoint st; (cp, st2) = getAsCurrentPoint st1 in
      draw [BezierCurveTo (fst p1) (snd p1) (fst cntrl) (snd cntrl) (fst cp) (snd cp)]
        (addBezierCurve fns cur p1 cntrl cp (pp_box st2)) (addMarker fns cp (Some cntrl) (Some p1) st2))"

definition cubic :: "math_fns \<Rightarrow> path_state \<Rightarrow> path_state" where
  "cubic fns st = (let (p1, st1) = getPoint st in cubic_from fns (pp_current st) p1 st1)"

definition smooth_cubic :: "math_fns \<Rightarrow> path_state \<Rightarrow> path_state" where
  "smooth_cubic fns st = cubic_from fns (pp_current st) (getReflectedControlPoint st) st"

text \<open>A quadratic curve from its control point on.\<close>

definition quadratic_from :: "math_fns \<Rightarrow> point \<Rightarrow> point \<Rightarrow> path_state \<Rightarrow> path_state" where
  "quadratic_from fns cur cntrl st =
     (let (cp, st1) = getAsCurrentPoint st in
      draw [QuadraticCurveTo (fst cntrl) (snd cntrl) (fst cp) (snd cp)]
        (addQuadraticCurve fns cur cntrl cp (pp_box st1)) (addMarker fns cp (Some cntrl) (Some cntrl) st1))"

definition quadratic :: "math_fns \<Rightarrow> path_state \<Rightarrow> path_state" where
  "quadratic fns st = (let (cntrl, st1) = getAsControlPoint st in quadratic_from fns (pp_current st) cntrl st1)"

definition smooth_quadratic :: "math_fns \<Rightarrow> path_state \<Rightarrow> path_state" where
  "smooth_quadratic fns st = (let cntrl = getReflectedControlPoint st in
     quadratic_from fns (pp_current st) cntrl (st\<lparr>pp_control := cntrl\<rparr>))"

subsection \<open>Arcs\<close>

definition square :: "math_fns \<Rightarrow> jsnum \<Rightarrow> jsnum" where
  "square fns x = m_pow fns x (num_of_int 2)"

definition half :: "jsnum \<Rightarrow> jsnum" where
  "half x = js_div x (num_of_int 2)"

text \<open>Half the way from the end to the start, turned into the axes of the ellipse.\<close>

definition arc_mid :: "math_fns \<Rightarrow> point \<Rightarrow> point \<Rightarrow> jsnum \<Rightarrow> point" where
  "arc_mid fns cur cp phi = (let dx = js_sub (fst cur) (fst cp); dy = js_sub (snd cur) (snd cp) in
     (js_add (half (js_mul (m_cos fns phi) dx)) (half (js_mul (m_sin fns phi) dy)),
      js_add (half (js_mul (js_neg (m_sin fns phi)) dx)) (half (js_mul (m_cos fns phi) dy))))"

text \<open>Radii that are too small are scaled up.\<close>

definition arc_radii :: "math_fns \<Rightarrow> point \<Rightarrow> jsnum \<times> jsnum \<Rightarrow> jsnum \<times> jsnum" where
  "arc_radii fns mid radii = (let l = js_add (js_div (square fns (fst mid)) (square fns (fst radii)))
       (js_div (square fns (snd mid)) (square fns (snd radii))) in
     if num_lt one l then (js_mul (fst radii) (m_sqrt fns l), js_mul (snd radii) (m_sqrt fns l)) else radii)"

definition arc_sign :: "math_fns \<Rightarrow> point \<Rightarrow> jsnum \<times> jsnum \<Rightarrow> jsnum \<Rightarrow> jsnum \<Rightarrow> jsnum" where
  "arc_sign fns mid radii largeArcFlag sweepFlag =
     (let rx2 = square fns (fst radii); ry2 = square fns (snd radii);
          mx2 = square fns (fst mid); my2 = square fns (snd mid);
          s = js_mul (num_of_int (if num_eq largeArcFlag sweepFlag then - 1 else 1)) (m_sqrt fns (js_div
            (js_sub (js_sub (js_mul rx2 ry2) (js_mul rx2 my2)) (js_mul ry2 mx2))
            (js_add (js_mul rx2 my2) (js_mul ry2 mx2))))
      in if s = NaN then zero else s)"

definition arc_offset :: "jsnum \<Rightarrow> jsnum \<times> jsnum \<Rightarrow> point \<Rightarrow> point" where
  "arc_offset s radii mid =
     (js_div (js_mul (js_mul s (fst radii)) (snd mid)) (snd radii),
      js_div (js_mul (js_mul s (js_neg (snd radii))) (fst mid)) (fst radii))"

definition arc_center :: "math_fns \<Rightarrow> point \<Rightarrow> point \<Rightarrow> jsnum \<Rightarrow> point \<Rightarrow> point" where
  "arc_center fns cur cp phi off =
     (js_sub (js_add (half (js_add (fst cur) (fst cp))) (js_mul (m_cos fns phi) (fst off)))
        (js_mul (m_sin fns phi) (snd off)),
      js_add (js_add (half (js_add (snd cur) (snd cp))) (js_mul (m_sin fns phi) (fst off)))
        (js_mul (m_cos fns phi) (snd off)))"

definition magnitude :: "math_fns \<Rightarrow> point \<Rightarrow> jsnum" where
  "magnitude fns v = m_sqrt fns (js_add (square fns (fst v)) (square fns (snd v)))"

definition ratio :: "math_fns \<Rightarrow> point \<Rightarrow> point \<Rightarrow> jsnum" where
  "ratio fns u v = js_div (js_add (js_mul (fst u) (fst v)) (js_mul (snd u) (snd v)))
     (js_mul (magnitude fns u) (magnitude fns v))"

definition angle_between :: "math_fns \<Rightarrow> point \<Rightarrow> point \<Rightarrow> jsnum" where
  "angle_between fns u v = js_mul
     (num_of_int (if num_lt (js_mul (fst u) (snd v)) (js_mul (snd u) (fst v)) then - 1 else 1))
     (m_acos fns (ratio fns u v))"

definition arc_delta :: "math_fns \<Rightarrow> point \<Rightarrow> point \<Rightarrow> jsnum \<Rightarrow> jsnum" where
  "arc_delta fns u v sweepFlag =
     (let ad0 = angle_between fns u v;
          ad1 = (if num_le (ratio fns u v) (num_of_int (- 1)) then math_pi else ad0);
          ad2 = (if num_le one (ratio fns u v) then zero else ad1);
          turn = js_mul (num_of_int 2) math_pi;
          ad3 = (if num_eq sweepFlag zero \<and> num_lt zero ad2 then js_sub ad2 turn else ad2)
      in if num_eq sweepFlag one \<and> num_lt ad3 zero then js_add ad3 turn else ad3)"

definition arc_ops :: "point \<Rightarrow> jsnum \<Rightarrow> jsnum \<times> jsnum \<Rightarrow> jsnum \<Rightarrow> jsnum \<Rightarrow> jsnum \<Rightarrow> canvas_op list" where
  "arc_ops centp phi radii a1 ad sweepFlag =
     (let rx = fst radii; ry = snd radii; wide = num_lt ry rx;
          r = (if wide then rx else ry); sx = (if wide then one else js_div rx ry);
          sy = (if wide then js_div ry rx else one) in
      [CTranslate (fst centp) (snd centp), CRotate phi, CScale sx sy,
       Arc zero zero r a1 (js_add a1 ad) (Num (js_sub one sweepFlag)),
       CScale (js_div one sx) (js_div one sy), CRotate (js_neg phi),
       CTranslate (js_neg (fst centp)) (js_neg (snd centp))])"

definition arc :: "math_fns \<Rightarrow> path_state \<Rightarrow> path_state" where
  "arc fns st0 =
     (let cur = pp_current st0;
          (rx0, st1) = getScalar st0; (ry0, st2) = getScalar st1; (deg, st3) = getScalar st2;
          phi = js_mul deg (js_div math_pi (num_of_int 180));
          (largeArcFlag, st4) = getScalar st3; (sweepFlag, st5) = getScalar st4;
          (cp, st6) = getAsCurrentPoint st5;
          mid = arc_mid fns cur cp phi; radii = arc_radii fns mid (rx0, ry0);
          off = arc_offset (arc_sign fns mid radii largeArcFlag sweepFlag) radii mid;
          centp = arc_center fns cur cp phi off;
          u = (js_div (js_sub (fst mid) (fst off)) (fst radii), js_div (js_sub (snd mid) (snd off)) (snd radii));
          v = (js_div (js_sub (js_neg (fst mid)) (fst off)) (fst radii),
               js_div (js_sub (js_neg (snd mid)) (snd off)) (snd radii));
          a1 = angle_between fns (one, zero) u;
          ad = arc_delta fns u v sweepFlag;
          halfAngle = half (js_add a1 ad);
          halfWay = (js_sub (fst centp) (js_mul (fst radii) (m_cos fns halfAngle)),
                     js_sub (snd centp) (js_mul (snd radii) (m_sin fns halfAngle)));
          side = half (js_mul (num_of_int (if num_eq sweepFlag zero then 1 else - 1)) math_pi)
      in draw (arc_ops centp phi radii a1 ad sweepFlag) (add_point cp (pp_box st6))
           (addMarkerAngle cp (Some (js_add ad side)) (addMarkerAngle halfWay (Some (js_add halfAngle side)) st6)))"

section \<open>The loop\<close>

definition segment :: "math_fns \<Rightarrow> string \<Rightarrow> path_state \<Rightarrow> path_state" where
  "segment fns upper =
     (if upper = ''M'' then more_move fns
      else if upper = ''L'' then line_segment fns
      else if upper = ''H'' then horizontal fns
      else if upper = ''V'' then vertical fns
      else if upper = ''C'' then cubic fns
      else if upper = ''S'' then smooth_cubic fns
      else if upper = ''Q'' then quadratic fns
      else if upper = ''T'' then smooth_quadratic fns
      else arc fns)"

text \<open>Each segment takes a token if there is one.\<close>

lemma getScalar_rest [simp]: "pp_rest (snd (getScalar st)) = drop 1 (pp_rest st)"
  by (simp add: getScalar_def split: list.splits)

lemma getPoint_rest [simp]: "pp_rest (snd (getPoint st)) = drop 2 (pp_rest st)"
  by (simp add: getPoint_def Let_def case_prod_unfold numeral_2_eq_2)

lemma getAs_rest [simp]:
  "pp_rest (snd (getAsControlPoint st)) = drop 2 (pp_rest st)"
  "pp_rest (snd (getAsCurrentPoint st)) = drop 2 (pp_rest st)"
  by (simp_all add: getAsControlPoint_def getAsCurrentPoint_def Let_def case_prod_unfold)

lemma marker_rest [simp]:
  "pp_rest (addMarkerAngle p a st) = pp_rest st" "pp_rest (addMarker fns p f q st) = pp_rest st"
  "pp_rest (draw ops bb st) = pp_rest st" "pp_rest (line_to p st) = pp_rest st"
  by (simp_all add: addMarkerAngle_def addMarker_def draw_def line_to_def split: option.splits)

text \<open>How many tokens a segment takes.\<close>

definition segment_tokens :: "string \<Rightarrow> nat" where
  "segment_tokens upper =
     (if upper = ''H'' \<or> upper = ''V'' then 1 else if upper = ''C'' then 6
      else if upper = ''S'' \<or> upper = ''Q'' then 4
      else if upper = ''M'' \<or> upper = ''L'' \<or> upper = ''T'' then 2 else 7)"

lemma from_rest [simp]:
  "pp_rest (cubic_from fns c p st) = drop 4 (pp_rest st)"
  "pp_rest (quadratic_from fns c p st) = drop 2 (pp_rest st)"
  by (simp_all add: cubic_from_def quadratic_from_def case_prod_unfold Let_def)

lemma arc_rest: "pp_rest (arc fns st) = drop 7 (pp_rest st)"
  by (simp add: arc_def Let_def case_prod_unfold)

lemma segment_rest: "pp_rest (segment fns upper st) = drop (segment_tokens upper) (pp_rest st)"
  by (simp add: segment_def segment_tokens_def more_move_def line_segment_def horizontal_def vertical_def
      to_point_def cubic_def smooth_cubic_def quadratic_def smooth_quadratic_def arc_rest Let_def
      case_prod_unfold)

function segments :: "math_fns \<Rightarrow> string \<Rightarrow> path_state \<Rightarrow> path_state" where
  "segments fns upper st = (if isCommandOrEnd st then st else segments fns upper (segment fns upper st))"
  by pat_completeness auto
termination
proof (relation "measure (\<lambda>(fns, upper, st). length (pp_rest st))", goal_cases)
  case (2 fns upper st)
  have "0 < segment_tokens upper" by (simp add: segment_tokens_def)
  moreover have "pp_rest st \<noteq> []" using 2 by (auto simp: isCommandOrEnd_def)
  ultimately show ?case by (simp add: segment_rest)
qed simp

declare segments.simps [simp del]

text \<open>One command; a token that is none is passed over.\<close>

definition first_move :: "path_state \<Rightarrow> path_state" where
  "first_move st = (let (p, st1) = getAsCurrentPoint st;
       st2 = draw [MoveTo (fst p) (snd p)] (add_point p (pp_box st1)) (addMarkerAngle p None st1) in
     st2\<lparr>pp_start := pp_current st2\<rparr>)"

definition run_command :: "math_fns \<Rightarrow> path_state \<Rightarrow> path_state" where
  "run_command fns st = (let upper = upper_case (pp_command st) in
     if upper = ''M'' then segments fns upper (first_move st)
     else if upper \<in> set [''L'', ''H'', ''V'', ''C'', ''S'', ''Q'', ''T'', ''A''] then segments fns upper st
     else if upper = ''Z'' then (draw [ClosePath] (pp_box st) st)\<lparr>pp_current := pp_start st\<rparr>
     else st)"

lemma segments_rest: "length (pp_rest (segments fns upper st)) \<le> length (pp_rest st)"
proof (induction fns upper st rule: segments.induct)
  case (1 fns upper st)
  show ?case
  proof (cases "isCommandOrEnd st")
    case True
    then show ?thesis by (simp add: segments.simps)
  next
    case False
    have "length (pp_rest (segments fns upper (segment fns upper st))) \<le> length (pp_rest (segment fns upper st))"
      using "1.IH" False by blast
    then show ?thesis using False by (subst segments.simps) (simp add: segment_rest)
  qed
qed

lemma run_command_rest: "length (pp_rest (run_command fns st)) \<le> length (pp_rest st)"
proof -
  have "length (pp_rest (first_move st)) \<le> length (pp_rest st)"
    by (simp add: first_move_def Let_def case_prod_unfold)
  then show ?thesis
    using segments_rest [of fns "''M''" "first_move st"] segments_rest [of fns _ st]
    by (auto simp: run_command_def Let_def intro: le_trans)
qed

function path_loop :: "math_fns \<Rightarrow> path_state \<Rightarrow> path_state" where
  "path_loop fns st = (if pp_rest st = [] then st else path_loop fns (run_command fns (nextCommand st)))"
  by pat_completeness auto
termination
proof (relation "measure (\<lambda>(fns, st). length (pp_rest st))", goal_cases)
  case (2 fns st)
  then have "length (pp_rest (nextCommand st)) < length (pp_rest st)"
    by (auto simp: nextCommand_def neq_Nil_conv)
  then show ?case using run_command_rest [of fns "nextCommand st"] by simp
qed simp

declare path_loop.simps [simp del]

text \<open>\<open>path\<close>: the reader after the loop, with the operations on the canvas and the box.\<close>

definition path :: "math_fns \<Rightarrow> string \<Rightarrow> path_state" where
  "path fns d = path_loop fns (path_reset (path_tokens d))"

section \<open>Markers\<close>

text \<open>\<open>getMarkerAngles\<close>: a missing angle takes the next one that is there.\<close>

fun next_angle :: "jsnum option list \<Rightarrow> jsnum option" where
  "next_angle [] = None"
| "next_angle (a # as) = (if a = None then next_angle as else a)"

fun getMarkerAngles :: "jsnum option list \<Rightarrow> jsnum option list" where
  "getMarkerAngles [] = []"
| "getMarkerAngles (a # as) = (if a = None then next_angle as else a) # getMarkerAngles as"

definition path_getMarkers :: "path_state \<Rightarrow> (point \<times> jsnum option) list" where
  "path_getMarkers st = zip (pp_points st) (getMarkerAngles (pp_angles st))"

section \<open>The box holds the end of everything drawn\<close>

definition op_held :: "bounding_box \<Rightarrow> canvas_op \<Rightarrow> bool" where
  "op_held bb op = (case op of
     MoveTo x y \<Rightarrow> box_holds bb (x, y)
   | LineTo x y \<Rightarrow> box_holds bb (x, y)
   | QuadraticCurveTo x1 y1 x y \<Rightarrow> box_holds bb (x, y)
   | BezierCurveTo x1 y1 x2 y2 x y \<Rightarrow> box_holds bb (x, y)
   | _ \<Rightarrow> True)"

definition path_inv :: "path_state \<Rightarrow> bool" where
  "path_inv st \<longleftrightarrow> box_ok (pp_box st) \<and> list_all (op_held (pp_box st)) (pp_ops st) \<and>
     length (pp_points st) = length (pp_angles st)"

lemma op_held_grows: "op_held bb op \<Longrightarrow> box_grows bb bb' \<Longrightarrow> op_held bb' op"
  by (cases op) (auto simp: op_held_def box_grows_def)

lemma draw_inv:
  assumes "path_inv st" and "box_grows (pp_box st) bb" and "list_all (op_held bb) ops"
  shows "path_inv (draw ops bb st)"
  using assms op_held_grows by (auto simp: path_inv_def draw_def list_all_iff box_grows_def)

text \<open>Reading tokens and adding markers leave the box and the operations alone.\<close>

definition same_drawing :: "path_state \<Rightarrow> path_state \<Rightarrow> bool" where
  "same_drawing st st' \<longleftrightarrow> pp_box st' = pp_box st \<and> pp_ops st' = pp_ops st \<and>
     (length (pp_points st) = length (pp_angles st) \<longrightarrow> length (pp_points st') = length (pp_angles st'))"

lemma same_drawing_inv: "path_inv st \<Longrightarrow> same_drawing st st' \<Longrightarrow> path_inv st'"
  by (simp add: path_inv_def same_drawing_def)

lemma same_drawing_trans: "same_drawing a b \<Longrightarrow> same_drawing b c \<Longrightarrow> same_drawing a c"
  by (simp add: same_drawing_def)

lemma readers_draw:
  "same_drawing st (snd (getScalar st))" "same_drawing st (snd (getPoint st))"
  "same_drawing st (snd (getAsControlPoint st))" "same_drawing st (snd (getAsCurrentPoint st))"
  "same_drawing st (nextCommand st)"
proof -
  show s: "same_drawing st (snd (getScalar st))" for st
    by (simp add: same_drawing_def getScalar_def split: list.splits)
  have p: "same_drawing st (snd (getPoint st))" for st
    using same_drawing_trans [OF s s] by (simp add: getPoint_def Let_def case_prod_unfold)
  then show "same_drawing st (snd (getPoint st))" .
  show "same_drawing st (snd (getAsControlPoint st))" "same_drawing st (snd (getAsCurrentPoint st))"
    using p [of st] by (simp_all add: getAsControlPoint_def getAsCurrentPoint_def Let_def case_prod_unfold
        same_drawing_def)
  show "same_drawing st (nextCommand st)" by (simp add: nextCommand_def same_drawing_def split: list.splits)
qed

lemma markers_draw: "same_drawing st (addMarkerAngle p a st)" "same_drawing st (addMarker fns p f q st)"
  by (auto simp: same_drawing_def addMarkerAngle_def addMarker_def split: option.splits)

text \<open>Each way of drawing keeps the invariant.\<close>

lemma line_to_inv: "path_inv st \<Longrightarrow> path_inv (line_to p st)"
  unfolding line_to_def
  by (rule draw_inv)
    (auto simp: op_held_def path_inv_def add_grows add_point_holds)

lemma to_point_inv: "path_inv st \<Longrightarrow> path_inv (to_point fns p st)"
  unfolding to_point_def
  using markers_draw(2) [of st fns p "Some (pp_current st)" None]
  by (intro line_to_inv) (simp add: path_inv_def same_drawing_def)

lemma cubic_from_inv:
  assumes "path_inv st"
  shows "path_inv (cubic_from fns cur p1 st)"
proof -
  define cntrl where "cntrl = fst (getAsControlPoint st)"
  define st2 where "st2 = snd (getAsCurrentPoint (snd (getAsControlPoint st)))"
  define cp where "cp = fst (getAsCurrentPoint (snd (getAsControlPoint st)))"
  have d: "cubic_from fns cur p1 st = draw [BezierCurveTo (fst p1) (snd p1) (fst cntrl) (snd cntrl) (fst cp) (snd cp)]
      (addBezierCurve fns cur p1 cntrl cp (pp_box st2)) (addMarker fns cp (Some cntrl) (Some p1) st2)"
    by (simp only: cubic_from_def Let_def case_prod_unfold cntrl_def st2_def cp_def)
  have 2: "path_inv st2"
    using assms same_drawing_inv readers_draw same_drawing_trans unfolding st2_def by metis
  then have 3: "path_inv (addMarker fns cp (Some cntrl) (Some p1) st2)"
    by (rule same_drawing_inv) (rule markers_draw)
  have ok: "box_ok (pp_box st2)" using 2 by (simp add: path_inv_def)
  show ?thesis
    unfolding d using markers_draw(2) [of st2 fns cp "Some cntrl" "Some p1"] addBezierCurve_grows [OF ok]
    by (intro draw_inv [OF 3]) (simp_all add: op_held_def same_drawing_def)
qed

lemma quadratic_from_inv:
  assumes "path_inv st"
  shows "path_inv (quadratic_from fns cur cntrl st)"
proof -
  define st1 where "st1 = snd (getAsCurrentPoint st)"
  define cp where "cp = fst (getAsCurrentPoint st)"
  have d: "quadratic_from fns cur cntrl st = draw [QuadraticCurveTo (fst cntrl) (snd cntrl) (fst cp) (snd cp)]
      (addQuadraticCurve fns cur cntrl cp (pp_box st1)) (addMarker fns cp (Some cntrl) (Some cntrl) st1)"
    by (simp only: quadratic_from_def Let_def case_prod_unfold st1_def cp_def)
  have 1: "path_inv st1" using assms same_drawing_inv readers_draw unfolding st1_def by metis
  then have 2: "path_inv (addMarker fns cp (Some cntrl) (Some cntrl) st1)"
    by (rule same_drawing_inv) (rule markers_draw)
  have ok: "box_ok (pp_box st1)" using 1 by (simp add: path_inv_def)
  show ?thesis
    unfolding d using markers_draw(2) [of st1 fns cp "Some cntrl" "Some cntrl"] addQuadraticCurve_grows [OF ok]
    by (intro draw_inv [OF 2]) (simp_all add: op_held_def same_drawing_def)
qed

lemma inv_reads:
  assumes "path_inv st"
  shows "path_inv (snd (getScalar st))" "path_inv (snd (getPoint st))" "path_inv (snd (getAsControlPoint st))"
    "path_inv (snd (getAsCurrentPoint st))" "path_inv (nextCommand st)" "path_inv (addMarkerAngle p a st)"
    "path_inv (addMarker fns p f q st)" "path_inv (st\<lparr>pp_control := c\<rparr>)" "path_inv (st\<lparr>pp_current := c\<rparr>)"
    "path_inv (st\<lparr>pp_start := c\<rparr>)"
proof -
  note inv = same_drawing_inv [OF assms]
  show "path_inv (snd (getScalar st))" "path_inv (snd (getPoint st))" "path_inv (snd (getAsControlPoint st))"
    "path_inv (snd (getAsCurrentPoint st))" "path_inv (nextCommand st)"
    by (rule inv [OF readers_draw(1)] inv [OF readers_draw(2)] inv [OF readers_draw(3)]
        inv [OF readers_draw(4)] inv [OF readers_draw(5)])+
  show "path_inv (addMarkerAngle p a st)" "path_inv (addMarker fns p f q st)"
    by (rule inv [OF markers_draw(1)] inv [OF markers_draw(2)])+
  show "path_inv (st\<lparr>pp_control := c\<rparr>)" "path_inv (st\<lparr>pp_current := c\<rparr>)" "path_inv (st\<lparr>pp_start := c\<rparr>)"
    using assms by (simp_all add: path_inv_def)
qed

lemma arc_inv: "path_inv st \<Longrightarrow> path_inv (arc fns st)"
  unfolding arc_def Let_def case_prod_unfold
proof (rule draw_inv, goal_cases)
  case 1
  then show ?case by (intro inv_reads)
next
  case 2
  define st6 where "st6 = snd (getAsCurrentPoint (snd (getScalar (snd (getScalar (snd (getScalar
    (snd (getScalar (snd (getScalar st)))))))))))"
  have "path_inv st6" unfolding st6_def using 2 by (intro inv_reads)
  then have "box_ok (pp_box st6)" by (simp add: path_inv_def)
  then show ?case using add_grows by (simp add: st6_def addMarkerAngle_def)
next
  case 3
  then show ?case by (simp add: arc_ops_def Let_def op_held_def)
qed

lemma segment_inv: "path_inv st \<Longrightarrow> path_inv (segment fns upper st)"
  by (auto simp: segment_def more_move_def line_segment_def horizontal_def vertical_def cubic_def
      smooth_cubic_def quadratic_def smooth_quadratic_def Let_def case_prod_unfold
      intro!: line_to_inv to_point_inv cubic_from_inv quadratic_from_inv arc_inv inv_reads)

lemma segments_inv: "path_inv st \<Longrightarrow> path_inv (segments fns upper st)"
proof (induction fns upper st rule: segments.induct)
  case (1 fns upper st)
  then show ?case by (subst segments.simps) (auto intro: segment_inv)
qed

lemma first_move_inv: "path_inv st \<Longrightarrow> path_inv (first_move st)"
  unfolding first_move_def Let_def case_prod_unfold
proof (intro inv_reads(10) draw_inv, goal_cases)
  case 2
  then have "box_ok (pp_box (snd (getAsCurrentPoint st)))"
    using inv_reads(4) by (simp add: path_inv_def)
  then show ?case using add_grows by (simp add: addMarkerAngle_def)
next
  case 3
  then have "box_ok (pp_box (snd (getAsCurrentPoint st)))"
    using inv_reads(4) by (simp add: path_inv_def)
  then show ?case by (simp add: op_held_def add_point_holds)
qed (intro inv_reads)

lemma close_inv: "path_inv st \<Longrightarrow> path_inv (draw [ClosePath] (pp_box st) st)"
  by (rule draw_inv) (simp_all add: path_inv_def op_held_def box_grows_refl)

lemma run_command_inv: "path_inv st \<Longrightarrow> path_inv (run_command fns st)"
  by (auto simp: run_command_def Let_def intro!: segments_inv first_move_inv inv_reads close_inv)

lemma path_loop_inv: "path_inv st \<Longrightarrow> path_inv (path_loop fns st)"
proof (induction fns st rule: path_loop.induct)
  case (1 fns st)
  then show ?case by (subst path_loop.simps) (auto intro: run_command_inv inv_reads)
qed

lemma path_reset_inv: "path_inv (path_reset tokens)"
  by (simp add: path_inv_def path_reset_def op_held_def)


section \<open>Paths of whole coordinates\<close>

text \<open>The passes over the text leave words of digits and single commands as they are.\<close>

fun no_pair :: "(char \<Rightarrow> bool) \<Rightarrow> (char \<Rightarrow> bool) \<Rightarrow> string \<Rightarrow> bool" where
  "no_pair P Q (c # d # s) \<longleftrightarrow> \<not> (P c \<and> Q d) \<and> no_pair P Q (d # s)"
| "no_pair P Q s \<longleftrightarrow> True"

lemma separate_id: "no_pair P Q s \<Longrightarrow> separate P Q s = s"
  by (induction P Q s rule: separate.induct) auto

lemma no_pair_space:
  assumes "no_pair P Q w" "no_pair P Q s" "\<not> P (CHR '' '')" "\<not> Q (CHR '' '')"
  shows "no_pair P Q (w @ CHR '' '' # s)"
  using assms
proof (induction w)
  case Nil
  then show ?case by (cases s) auto
next
  case (Cons c w)
  then show ?case by (cases w) auto
qed

lemma no_pair_join:
  assumes "list_all (no_pair P Q) ws" "\<not> P (CHR '' '')" "\<not> Q (CHR '' '')"
  shows "no_pair P Q (join '' '' ws)"
  using assms(1)
proof (induction "'' ''" ws rule: join.induct)
  case (3 w v ws)
  then have "no_pair P Q (w @ CHR '' '' # join '' '' (v # ws))"
    using assms(2,3) by (intro no_pair_space) simp_all
  then show ?case by simp
qed simp_all

lemma no_pair_left: "list_all (\<lambda>c. \<not> P c) s \<Longrightarrow> no_pair P Q s"
  by (induction s rule: induct_list012) auto

lemma no_pair_right: "list_all (\<lambda>c. \<not> Q c) s \<Longrightarrow> no_pair P Q s"
  by (induction s rule: induct_list012) auto

lemma separate_points_id: "CHR ''.'' \<notin> set s \<Longrightarrow> separate_points s = s"
  by (induction s rule: separate_points.induct) auto

lemma separate_flags_id: "CHR ''A'' \<notin> set s \<Longrightarrow> CHR ''a'' \<notin> set s \<Longrightarrow> separate_flags s = s"
  by (induction s rule: separate_flags.induct) auto

text \<open>A token of such a path: a command that is no arc, or a numeral.\<close>

definition path_word :: "string \<Rightarrow> bool" where
  "path_word w \<longleftrightarrow> w \<in> set [''M'', ''L'', ''Z''] \<or> (\<exists>n. w = nat_digits 10 n)"

lemma digit_chars:
  assumes "is_digit c"
  shows "\<not> is_command c" "c \<noteq> CHR ''+''" "c \<noteq> CHR ''-''" "c \<noteq> CHR '',''" "c \<noteq> CHR ''.''" "c \<noteq> CHR ''A''" "c \<noteq> CHR ''a''"
proof -
  have ne: "c \<noteq> x" if "\<not> is_digit x" for x using assms that by auto
  have "\<not> is_digit x" if "is_command x" for x using that by (auto simp: is_command_def is_digit_def code_def)
  then show "\<not> is_command c" using ne by blast
  show "c \<noteq> CHR ''+''" "c \<noteq> CHR ''-''" "c \<noteq> CHR '',''" "c \<noteq> CHR ''.''" "c \<noteq> CHR ''A''" "c \<noteq> CHR ''a''"
    by (rule ne; simp add: is_digit_def code_def)+
qed

lemma path_word_pairs:
  assumes "path_word w"
  shows "plain_word w" "no_pair is_command Q w" "no_pair (\<lambda>c. \<not> is_ws c) is_command w"
    "no_pair is_digit (\<lambda>c. c = CHR ''+'' \<or> c = CHR ''-'') w" "CHR '','' \<notin> set w" "CHR ''.'' \<notin> set w"
    "CHR ''A'' \<notin> set w" "CHR ''a'' \<notin> set w"
proof -
  consider "w \<in> set [''M'', ''L'', ''Z'']" | n where "w = nat_digits 10 n" using assms by (auto simp: path_word_def)
  then have "plain_word w \<and> no_pair is_command Q w \<and> no_pair (\<lambda>c. \<not> is_ws c) is_command w \<and>
    no_pair is_digit (\<lambda>c. c = CHR ''+'' \<or> c = CHR ''-'') w \<and>
    CHR '','' \<notin> set w \<and> CHR ''.'' \<notin> set w \<and> CHR ''A'' \<notin> set w \<and> CHR ''a'' \<notin> set w"
  proof cases
    case 1
    then show ?thesis by (auto simp: plain_word_def is_ws_def code_def)
  next
    case 2
    then have d: "is_digit c" if "c \<in> set w" for c using that nat_digits_is_digit by simp
    have "CHR '','' \<notin> set w \<and> CHR ''.'' \<notin> set w \<and> CHR ''A'' \<notin> set w \<and> CHR ''a'' \<notin> set w"
      using digit_chars(4-7) [OF d] by blast
    moreover have "no_pair is_command Q w"
      using digit_chars(1) [OF d] by (intro no_pair_left) (simp add: list_all_iff)
    moreover have "no_pair (\<lambda>c. \<not> is_ws c) is_command w" "no_pair is_digit (\<lambda>c. c = CHR ''+'' \<or> c = CHR ''-'') w"
      using digit_chars(1-3) [OF d] by (intro no_pair_right; auto simp: list_all_iff)+
    ultimately show ?thesis using numeral_plain(1) [of n] 2 by simp
  qed
  then show "plain_word w" "no_pair is_command Q w" "no_pair (\<lambda>c. \<not> is_ws c) is_command w"
    "no_pair is_digit (\<lambda>c. c = CHR ''+'' \<or> c = CHR ''-'') w" "CHR '','' \<notin> set w" "CHR ''.'' \<notin> set w"
    "CHR ''A'' \<notin> set w" "CHR ''a'' \<notin> set w" by blast+
qed

lemma path_tokens_words:
  assumes "list_all path_word ws" "ws \<noteq> []"
  shows "path_tokens (join '' '' ws) = ws"
proof -
  define s where "s = join '' '' ws"
  have sp: "\<not> is_command (CHR '' '')" "\<not> is_digit (CHR '' '')"
    by (simp_all add: is_command_def is_digit_def code_def)
  have chars: "c = CHR '' '' \<or> (\<exists>w \<in> set ws. c \<in> set w)" if "c \<in> set s" for c
    using that set_join_subset [of "'' ''" ws] by (auto simp: s_def)
  have w: "path_word w" if "w \<in> set ws" for w using that assms(1) by (simp add: list_all_iff)
  have no: "CHR '','' \<notin> set s" "CHR ''.'' \<notin> set s" "CHR ''A'' \<notin> set s" "CHR ''a'' \<notin> set s"
    using chars path_word_pairs(5-8) [OF w] by fastforce+
  have pairs: "no_pair is_command Q s" if "\<not> Q (CHR '' '')" for Q
    unfolding s_def using that sp w by (intro no_pair_join) (auto simp: list_all_iff path_word_pairs)
  have pairs2: "no_pair (\<lambda>c. \<not> is_ws c) is_command s"
    "no_pair is_digit (\<lambda>c. c = CHR ''+'' \<or> c = CHR ''-'') s"
    unfolding s_def using sp w by (intro no_pair_join; simp add: list_all_iff path_word_pairs)+
  have "commas_to_spaces s = s" using no(1) by (auto simp: commas_to_spaces_def intro!: map_idI)
  then have "path_tokens s = split_char (CHR '' '') (trim (compressSpaces s))"
    using no sp by (simp add: path_tokens_def Let_def separate_id pairs pairs2 separate_points_id separate_flags_id)
  also have "\<dots> = ws"
    unfolding s_def using assms w by (intro words_read) (simp_all add: list_all_iff path_word_pairs)
  finally show ?thesis by (simp add: s_def)
qed

section \<open>Drawing them\<close>

definition whole_point :: "nat \<times> nat \<Rightarrow> point" where
  "whole_point p = (num_of_int (int (fst p)), num_of_int (int (snd p)))"

definition small_point :: "nat \<times> nat \<Rightarrow> bool" where
  "small_point p \<longleftrightarrow> fst p \<le> 2 ^ 53 \<and> snd p \<le> 2 ^ 53"

definition point_words :: "string \<Rightarrow> nat \<times> nat \<Rightarrow> string list" where
  "point_words cmd p = [cmd, nat_digits 10 (fst p), nat_digits 10 (snd p)]"

lemma numeral_no_letter: "\<not> one_letter (nat_digits 10 n)"
proof
  assume "one_letter (nat_digits 10 n)"
  moreover have "is_digit (hd (nat_digits 10 n))"
    by (rule nat_digits_is_digit [of _ n]) simp
  ultimately show False by (auto simp: one_letter_def is_digit_def)
qed

text \<open>The tokens after a segment end it.\<close>

definition segment_ends :: "string list \<Rightarrow> bool" where
  "segment_ends ws \<longleftrightarrow> (case ws of [] \<Rightarrow> True | w # _ \<Rightarrow> one_letter w)"

lemma segments_end: "segment_ends (pp_rest st) \<Longrightarrow> segments fns upper st = st"
  by (subst segments.simps) (simp add: isCommandOrEnd_def segment_ends_def)

lemma read_point:
  assumes "pp_rest st = nat_digits 10 (fst p) # nat_digits 10 (snd p) # ws" "small_point p"
    and "\<not> isRelativeCommand st"
  shows "getAsCurrentPoint st = (whole_point p, st\<lparr>pp_rest := ws, pp_current := whole_point p\<rparr>)"
  using assms by (simp add: getAsCurrentPoint_def getPoint_def getScalar_def makeAbsolute_def isRelativeCommand_def
      read_nat_digits small_point_def whole_point_def)

lemma lower_commands: "lower_case ''L'' = ''l''" "lower_case ''M'' = ''m''" "lower_case ''Z'' = ''z''"
    "upper_case ''L'' = ''L''" "upper_case ''M'' = ''M''" "upper_case ''Z'' = ''Z''"
  by code_simp+

lemma run_line:
  fixes fns :: math_fns
  assumes "pp_rest st = point_words ''L'' p @ ws" "small_point p" "segment_ends ws"
  defines "st' \<equiv> run_command fns (nextCommand st)"
  shows "pp_rest st' = ws" "pp_ops st' = pp_ops st @ [LineTo (fst (whole_point p)) (snd (whole_point p))]"
    "pp_box st' = add_point (whole_point p) (pp_box st)"
proof -
  define s0 where "s0 = st\<lparr>pp_rest := nat_digits 10 (fst p) # nat_digits 10 (snd p) # ws,
      pp_previous := pp_command st, pp_command := ''L''\<rparr>"
  have n: "nextCommand st = s0" using assms(1) by (simp add: nextCommand_def point_words_def s0_def)
  have r: "pp_rest s0 = nat_digits 10 (fst p) # nat_digits 10 (snd p) # ws" "\<not> isRelativeCommand s0"
    by (simp_all add: s0_def isRelativeCommand_def lower_commands)
  define s1 where "s1 = line_to (whole_point p) (addMarker fns (whole_point p) (Some (pp_current s0)) None
      (s0\<lparr>pp_rest := ws, pp_current := whole_point p\<rparr>))"
  have seg: "segment fns ''L'' s0 = s1"
    using read_point [OF r(1) assms(2) r(2)] by (simp add: segment_def line_segment_def s1_def Let_def)
  have s1: "pp_rest s1 = ws" by (simp add: s1_def)
  have "st' = segments fns ''L'' s0"
    by (simp add: st'_def n run_command_def Let_def) (simp add: s0_def lower_commands)
  also have "\<dots> = segments fns ''L'' s1"
    using r(1) seg by (subst segments.simps) (simp add: isCommandOrEnd_def numeral_no_letter)
  also have "\<dots> = s1" using assms(3) by (simp add: segments_end s1)
  finally have "st' = s1" .
  then show "pp_rest st' = ws" "pp_ops st' = pp_ops st @ [LineTo (fst (whole_point p)) (snd (whole_point p))]"
    "pp_box st' = add_point (whole_point p) (pp_box st)"
    by (simp_all add: s1_def line_to_def draw_def addMarker_def addMarkerAngle_def s0_def)
qed

lemma run_move:
  fixes fns :: math_fns
  assumes "pp_rest st = point_words ''M'' p @ ws" "small_point p" "segment_ends ws"
  defines "st' \<equiv> run_command fns (nextCommand st)"
  shows "pp_rest st' = ws" "pp_ops st' = pp_ops st @ [MoveTo (fst (whole_point p)) (snd (whole_point p))]"
    "pp_box st' = add_point (whole_point p) (pp_box st)"
proof -
  define s0 where "s0 = st\<lparr>pp_rest := nat_digits 10 (fst p) # nat_digits 10 (snd p) # ws,
      pp_previous := pp_command st, pp_command := ''M''\<rparr>"
  have n: "nextCommand st = s0" using assms(1) by (simp add: nextCommand_def point_words_def s0_def)
  have r: "pp_rest s0 = nat_digits 10 (fst p) # nat_digits 10 (snd p) # ws" "\<not> isRelativeCommand s0"
    by (simp_all add: s0_def isRelativeCommand_def lower_commands)
  have f: "pp_rest (first_move s0) = ws"
    "pp_ops (first_move s0) = pp_ops st @ [MoveTo (fst (whole_point p)) (snd (whole_point p))]"
    "pp_box (first_move s0) = add_point (whole_point p) (pp_box st)"
    using read_point [OF r(1) assms(2) r(2)]
    by (simp_all add: first_move_def draw_def addMarkerAngle_def s0_def)
  have "st' = segments fns ''M'' (first_move s0)"
    by (simp add: st'_def n run_command_def Let_def) (simp add: s0_def lower_commands)
  also have "\<dots> = first_move s0" using assms(3) by (simp add: segments_end f)
  finally show "pp_rest st' = ws" "pp_ops st' = pp_ops st @ [MoveTo (fst (whole_point p)) (snd (whole_point p))]"
    "pp_box st' = add_point (whole_point p) (pp_box st)" by (simp_all add: f)
qed

text \<open>The words of a polyline, closing or open, and what it draws.\<close>

definition line_op :: "nat \<times> nat \<Rightarrow> canvas_op" where
  "line_op p = LineTo (fst (whole_point p)) (snd (whole_point p))"

definition rest_words :: "(nat \<times> nat) list \<Rightarrow> bool \<Rightarrow> string list" where
  "rest_words ps closing = concat (map (point_words ''L'') ps) @ (if closing then [''Z''] else [])"

definition polyline_text :: "(nat \<times> nat) list \<Rightarrow> bool \<Rightarrow> string" where
  "polyline_text ps closing = join '' '' (point_words ''M'' (hd ps) @ rest_words (tl ps) closing)"

lemma rest_words_end: "segment_ends (rest_words ps closing)"
  by (cases ps) (auto simp: rest_words_def segment_ends_def point_words_def one_letter_def code_def)

lemma path_loop_end: "pp_rest st = [] \<Longrightarrow> path_loop fns st = st"
  by (subst path_loop.simps) simp

lemma loop_lines:
  assumes "pp_rest st = rest_words ps closing" "list_all small_point ps"
  shows "pp_ops (path_loop fns st) = pp_ops st @ map line_op ps @ (if closing then [ClosePath] else [])"
    and "pp_box (path_loop fns st) = fold add_point (map whole_point ps) (pp_box st)"
proof -
  have "pp_ops (path_loop fns st) = pp_ops st @ map line_op ps @ (if closing then [ClosePath] else []) \<and>
     pp_box (path_loop fns st) = fold add_point (map whole_point ps) (pp_box st)"
    using assms
  proof (induction ps arbitrary: st)
    case Nil
    then show ?case
      by (cases closing) (simp_all add: rest_words_def path_loop_end path_loop.simps [of fns st]
        nextCommand_def run_command_def Let_def lower_commands draw_def)
  next
    case (Cons p ps)
    define st' where "st' = run_command fns (nextCommand st)"
    have ws: "pp_rest st = point_words ''L'' p @ rest_words ps closing"
      using Cons.prems(1) by (simp add: rest_words_def)
    have p: "small_point p" "list_all small_point ps" using Cons.prems(2) by simp_all
    note line = run_line [OF ws p(1) rest_words_end, where fns = fns, folded st'_def]
    have "pp_rest st \<noteq> []" using ws by (simp add: point_words_def)
    then have "path_loop fns st = path_loop fns st'" by (subst path_loop.simps) (simp add: st'_def)
    then show ?case using Cons.IH [OF line(1) p(2)] line by (simp add: line_op_def)
  qed
  then show "pp_ops (path_loop fns st) = pp_ops st @ map line_op ps @ (if closing then [ClosePath] else [])"
    and "pp_box (path_loop fns st) = fold add_point (map whole_point ps) (pp_box st)" by blast+
qed

text \<open>
  C23: a path of whole coordinates, written as the chart writes it with M, L and Z and spaces, is
  drawn point by point: one move to the first point, a line to each other point, and a closing
  when it ends in Z. Its box is the box of its points.
\<close>

theorem path_draws_points:
  fixes fns :: math_fns and closing :: bool
  assumes "list_all small_point ps" and "ps \<noteq> []"
  defines "st \<equiv> path fns (polyline_text ps closing)"
  shows "pp_ops st = [BeginPath, MoveTo (fst (whole_point (hd ps))) (snd (whole_point (hd ps)))] @
      map line_op (tl ps) @ (if closing then [ClosePath] else []) \<and>
    pp_box st = fold add_point (map whole_point ps) no_box"
proof -
  obtain p qs where ps: "ps = p # qs" using assms(2) by (cases ps) auto
  define ws where "ws = point_words ''M'' p @ rest_words qs closing"
  have "path_word ''M''" "path_word ''L''" "path_word ''Z''" "path_word (nat_digits 10 n)" for n
    by (auto simp: path_word_def)
  then have "list_all path_word ws"
    by (auto simp: ws_def point_words_def rest_words_def list_all_iff)
  then have tokens: "path_tokens (polyline_text ps closing) = ws"
    using path_tokens_words [of ws] by (simp add: polyline_text_def ps ws_def point_words_def)
  have small: "small_point p" "list_all small_point qs" using assms(1) by (simp_all add: ps)
  have rest: "pp_rest (path_reset ws) = point_words ''M'' p @ rest_words qs closing"
    by (simp add: path_reset_def ws_def)
  define st1 where "st1 = run_command fns (nextCommand (path_reset ws))"
  note move = run_move [OF rest small(1) rest_words_end, where fns = fns, folded st1_def]
  have "st = path_loop fns st1"
    unfolding st_def path_def tokens st1_def by (subst path_loop.simps) (simp add: rest point_words_def)
  then show ?thesis
    using loop_lines [OF move(1) small(2), of fns] move by (simp add: ps path_reset_def)
qed

theorem path_draws_points_witness:
  "pp_ops (path flat_math ''M 10 20 L 30 5 Z'') =
     [BeginPath, MoveTo (num_of_int 10) (num_of_int 20), LineTo (num_of_int 30) (num_of_int 5), ClosePath] \<and>
   pp_box (path flat_math ''M 10 20 L 30 5 Z'') =
     \<lparr>box_x1 = num_of_int 10, box_y1 = num_of_int 5, box_x2 = num_of_int 30, box_y2 = num_of_int 20\<rparr>"
proof -
  define ps where "ps = [(10, 20), (30 :: nat, 5 :: nat)]"
  have t: "polyline_text ps True = ''M 10 20 L 30 5 Z''" unfolding ps_def by code_simp
  have ok: "list_all small_point ps" "ps \<noteq> []" by (simp_all add: ps_def small_point_def)
  show ?thesis
    using path_draws_points [OF ok, of flat_math True] unfolding t
    by (simp add: ps_def whole_point_def line_op_def add_point_def addPoint_def widen_def no_box_def)
qed

end
