(* ===== verification/Canvg_Store.thy ===== *)
theory Canvg_Store
  imports Canvg_Shapes
begin

text \<open>
  The elements of canvg in modules/canvas-tools.src.js and what they share. Elements and
  properties are objects that several places hold: a rule of a style sheet puts the same property
  object into every element it applies to, and an animation writes into the object it finds. The
  model holds them at addresses of a store. This theory has the store, the lookup of attributes
  and styles, and the reader of style sheets.
\<close>

section \<open>Elements and the store\<close>

type_synonym address = nat
type_synonym names = "(string \<times> address) list"

record animation =
  anim_duration :: jsnum
  anim_begin :: jsnum
  anim_maxDuration :: jsnum
  anim_initialValue :: jsval
  anim_removed :: bool

text \<open>A character of a font: the glyph itself, and the glyphs of its forms.\<close>

record glyph_entry =
  entry_glyph :: "address option"
  entry_forms :: names

record svg_font_data =
  horizAdvX :: jsnum
  isRTL :: bool
  isArabic :: bool
  fontFace :: "address option"
  missingGlyph :: "address option"
  glyphs :: "(string \<times> glyph_entry) list"

text \<open>What the constructor of a class adds to an element.\<close>

datatype element_data =
    NoData
  | PathData "string list"
  | PointsData "point list"
  | GradientData jsval "address list"
  | StopData jsnum jsval
  | AnimateData animation
  | FontData svg_font_data
  | FontFaceData jsval jsval jsnum
  | GlyphData "string list" jsnum jsval jsval
  | TextData jsval
  | LinkData bool jsval

record svg_element =
  el_type :: string
  el_class :: string
  el_attributes :: names
  el_styles :: names
  el_children :: "address list"
  el_parent :: "address option"
  el_data :: element_data

record svg_state =
  st_props :: "property list"
  st_elements :: "svg_element list"
  st_Definitions :: names
  st_Styles :: "(string \<times> names) list"
  st_Animations :: "address list"
  st_Images :: "address list"
  st_log :: "string list"

definition empty_state :: svg_state where
  "empty_state = \<lparr>st_props = [], st_elements = [], st_Definitions = [], st_Styles = [], st_Animations = [],
     st_Images = [], st_log = []\<rparr>"

definition blank_element :: "string \<Rightarrow> svg_element" where
  "blank_element cls = \<lparr>el_type = '''', el_class = cls, el_attributes = [], el_styles = [], el_children = [],
     el_parent = None, el_data = NoData\<rparr>"

definition new_prop :: "string \<Rightarrow> jsval \<Rightarrow> svg_state \<Rightarrow> address \<times> svg_state" where
  "new_prop name v s = (length (st_props s), s\<lparr>st_props := st_props s @ [\<lparr>prop_name = name, prop_value = v\<rparr>]\<rparr>)"

definition new_element :: "svg_element \<Rightarrow> svg_state \<Rightarrow> address \<times> svg_state" where
  "new_element e s = (length (st_elements s), s\<lparr>st_elements := st_elements s @ [e]\<rparr>)"

definition update_element :: "address \<Rightarrow> (svg_element \<Rightarrow> svg_element) \<Rightarrow> svg_state \<Rightarrow> svg_state" where
  "update_element a f s = s\<lparr>st_elements := (st_elements s)[a := f (st_elements s ! a)]\<rparr>"

text \<open>Assigning to the field \<open>value\<close> of a property object.\<close>

definition set_value :: "address \<Rightarrow> jsval \<Rightarrow> svg_state \<Rightarrow> svg_state" where
  "set_value p v s = s\<lparr>st_props := (st_props s)[p := (st_props s ! p)\<lparr>prop_value := v\<rparr>]\<rparr>"

definition fresh_prop :: "string \<Rightarrow> property" where
  "fresh_prop name = \<lparr>prop_name = name, prop_value = Str ''''\<rparr>"

definition prop_or_fresh :: "svg_state \<Rightarrow> string \<Rightarrow> address option \<Rightarrow> property" where
  "prop_or_fresh s name p = (case p of Some i \<Rightarrow> st_props s ! i | None \<Rightarrow> fresh_prop name)"

section \<open>Attributes and styles\<close>

definition own_attribute :: "svg_state \<Rightarrow> address \<Rightarrow> string \<Rightarrow> address option" where
  "own_attribute s a name = map_of (el_attributes (st_elements s ! a)) name"

definition attribute :: "svg_state \<Rightarrow> address \<Rightarrow> string \<Rightarrow> property" where
  "attribute s a name = prop_or_fresh s name (own_attribute s a name)"

definition put_attribute :: "string \<Rightarrow> address \<Rightarrow> svg_element \<Rightarrow> svg_element" where
  "put_attribute name p e = e\<lparr>el_attributes := put_prop name p (el_attributes e)\<rparr>"

definition put_style :: "string \<Rightarrow> address \<Rightarrow> svg_element \<Rightarrow> svg_element" where
  "put_style name p e = e\<lparr>el_styles := put_prop name p (el_styles e)\<rparr>"

text \<open>\<open>attribute(name, true)\<close>.\<close>

definition attribute_create :: "address \<Rightarrow> string \<Rightarrow> svg_state \<Rightarrow> address \<times> svg_state" where
  "attribute_create a name s = (case own_attribute s a name of
     Some p \<Rightarrow> (p, s)
   | None \<Rightarrow> (let (p, s1) = new_prop name (Str '''') s in (p, update_element a (put_attribute name p) s1)))"

text \<open>
  The property object that \<open>style(name)\<close> finds: the element's own style, its attribute of that
  name if it has a value, or what the parent finds, if that has a value. A parent is older than
  its children, so its address is smaller.
\<close>

function style_at :: "svg_state \<Rightarrow> address \<Rightarrow> string \<Rightarrow> address option" where
  "style_at s a name = (case map_of (el_styles (st_elements s ! a)) name of
     Some p \<Rightarrow> Some p
   | None \<Rightarrow>
      if hasValue (attribute s a name) then own_attribute s a name
      else (case el_parent (st_elements s ! a) of
          Some q \<Rightarrow>
            if q < a then
              (case style_at s q name of
                 Some p \<Rightarrow> if hasValue (st_props s ! p) then Some p else None
               | None \<Rightarrow> None)
            else None
        | None \<Rightarrow> None))"
  by pat_completeness auto
termination
  by (relation "measure (\<lambda>(s, a, name). a)") auto

declare style_at.simps [simp del]

definition style :: "svg_state \<Rightarrow> address \<Rightarrow> string \<Rightarrow> property" where
  "style s a name = prop_or_fresh s name (style_at s a name)"

text \<open>\<open>style(name, true)\<close>.\<close>

definition style_create :: "address \<Rightarrow> string \<Rightarrow> svg_state \<Rightarrow> address \<times> svg_state" where
  "style_create a name s = (case style_at s a name of
     Some p \<Rightarrow> (p, s)
   | None \<Rightarrow> (let (p, s1) = new_prop name (Str '''') s in (p, update_element a (put_style name p) s1)))"

definition getDefinition :: "svg_state \<Rightarrow> property \<Rightarrow> address option res" where
  "getDefinition s p = (case prop_value p of
     Str v \<Rightarrow> Inr (map_of (st_Definitions s) (definition_name v))
   | _ \<Rightarrow> Inl TypeError)"

section \<open>Style sheets\<close>

text \<open>
  The comments \<open>/* ... */\<close>, up to the first end, and the lines whose first characters after white
  space are two slashes. \<open>^\<close> stands at the start and after a line terminator.
\<close>

definition line_end :: "char \<Rightarrow> bool" where
  "line_end c \<longleftrightarrow> code c = 10 \<or> code c = 13"

text \<open>What follows the end of a comment, if it ends.\<close>

fun after_comment :: "string \<Rightarrow> string option" where
  "after_comment (c # d # s) = (if c = CHR ''*'' \<and> d = CHR ''/'' then Some s else after_comment (d # s))"
| "after_comment s = None"

lemma after_comment_length: "after_comment s = Some t \<Longrightarrow> length t < length s"
  by (induction s rule: after_comment.induct) (auto split: if_splits)

function strip_comments :: "bool \<Rightarrow> string \<Rightarrow> string" where
  "strip_comments start [] = []"
| "strip_comments start (c # s) =
     (case (if prefix ''/*'' (c # s) then after_comment (drop 1 s) else None) of
        Some t \<Rightarrow> strip_comments False t
      | None \<Rightarrow>
         if start \<and> prefix ''//'' (dropWhile is_ws (c # s))
         then strip_comments False (dropWhile (\<lambda>d. \<not> line_end d) (drop 2 (dropWhile is_ws (c # s))))
         else c # strip_comments (line_end c) s)"
  by pat_completeness auto
termination
proof (relation "measure (\<lambda>(b, s). length s)")
  fix start :: bool and c s t
  assume "(if prefix ''/*'' (c # s) then after_comment (drop 1 s) else None) = Some t"
  then have "length t < length (drop 1 s)" by (auto dest: after_comment_length split: if_splits)
  then show "((False, t), start, c # s) \<in> measure (\<lambda>(b, s). length s)" by simp
next
  fix start and c s
  assume "start \<and> prefix ''//'' (dropWhile is_ws (c # s))"
  then have "dropWhile is_ws (c # s) \<noteq> []" by (metis list.distinct(1) prefix_Nil)
  define u where "u = dropWhile is_ws (c # s)"
  have "length (dropWhile (\<lambda>d. \<not> line_end d) (drop 2 u)) \<le> length (drop 2 u)" by (rule length_dropWhile_le)
  moreover have "u \<noteq> []" using \<open>dropWhile is_ws (c # s) \<noteq> []\<close> unfolding u_def .
  moreover have "length u \<le> length (c # s)" unfolding u_def by (rule length_dropWhile_le)
  ultimately show "((False, dropWhile (\<lambda>d. \<not> line_end d) (drop 2 (dropWhile is_ws (c # s)))), start, c # s)
      \<in> measure (\<lambda>(b, s). length s)"
    by (cases u) (auto simp: u_def)
qed auto

text \<open>
  One declaration: the name is what precedes the colon. A declaration without a colon has the
  name \<open>substr(0, -1)\<close>, which is empty, and the whole text as its value.
\<close>

definition css_declaration :: "string \<Rightarrow> string \<times> string" where
  "css_declaration d = (case index_of d '':'' of
     Some i \<Rightarrow> (trim (take i d), trim (drop (i + 1) d))
   | None \<Rightarrow> ('''', trim d))"

definition put_declaration :: "names \<times> svg_state \<Rightarrow> string \<Rightarrow> names \<times> svg_state" where
  "put_declaration acc d = (case acc of (ps, s) \<Rightarrow>
     (let (name, v) = css_declaration d; (p, s1) = new_prop name (Str v) s in (put_prop name p ps, s1)))"

text \<open>
  A rule for one selector. What a \<open>@font-face\<close> loads from the server is the platform's.
\<close>

definition css_selector :: "(names \<Rightarrow> svg_state \<Rightarrow> svg_state res) \<Rightarrow> string list \<Rightarrow> svg_state \<Rightarrow> string \<Rightarrow> svg_state res" where
  "css_selector load_fonts decls s sel = (let cls = trim sel in
     if cls = '''' then Inr s
     else (let (ps, s1) = foldl put_declaration ([], s) decls;
               s2 = s1\<lparr>st_Styles := put_prop cls ps (st_Styles s1)\<rparr> in
       if cls = ''@font-face'' then load_fonts ps s2 else Inr s2))"

definition css_rule :: "(names \<Rightarrow> svg_state \<Rightarrow> svg_state res) \<Rightarrow> svg_state \<Rightarrow> string \<Rightarrow> svg_state res" where
  "css_rule load_fonts s def =
     (if trim def = '''' then Inr s
      else (case split_char (CHR ''{'') def of
          sels # body # _ \<Rightarrow>
            fold_res (css_selector load_fonts (split_char (CHR '';'') body)) s (split_char (CHR '','') sels)
        | _ \<Rightarrow> Inl TypeError))"

definition read_css :: "(names \<Rightarrow> svg_state \<Rightarrow> svg_state res) \<Rightarrow> string \<Rightarrow> svg_state \<Rightarrow> svg_state res" where
  "read_css load_fonts css s =
     fold_res (css_rule load_fonts) s (split_char (CHR ''}'') (compressSpaces (strip_comments True css)))"

end
