(* ===== verification/Canvg_Elements.thy ===== *)
theory Canvg_Elements
  imports Canvg_Store
begin

text \<open>
  From nodes to elements in canvg, modules/canvas-tools.src.js: the constructors of the element
  classes and the factory. A constructor builds the children first, then the attributes, then
  the styles from rules for the tag, for the classes and from the element itself, and registers
  the element under its id. What a font face loads from the server is a parameter, and so is the
  document. The lemmas show that construction keeps the store well-formed, and where the style of
  an element comes from.
\<close>

section \<open>Nodes\<close>

text \<open>A node of the document: an element, a text, or another node with its value.\<close>

datatype node =
    Elem string "(string \<times> string) list" "node list"
  | Text string
  | Other string

definition node_value :: "node \<Rightarrow> jsval" where
  "node_value n = (case n of Elem _ _ _ \<Rightarrow> Null | Text t \<Rightarrow> Str t | Other t \<Rightarrow> Str t)"

definition known_classes :: "string list" where
  "known_classes = [''ElementBase'', ''RenderedElementBase'', ''PathElementBase'', ''svg'', ''rect'', ''circle'',
     ''ellipse'', ''line'', ''polyline'', ''polygon'', ''path'', ''pattern'', ''marker'', ''defs'', ''GradientBase'',
     ''linearGradient'', ''radialGradient'', ''stop'', ''AnimateBase'', ''animate'', ''animateColor'',
     ''animateTransform'', ''font'', ''fontface'', ''missingglyph'', ''glyph'', ''text'', ''TextElementBase'', ''tspan'',
     ''tref'', ''a'', ''image'', ''g'', ''symbol'', ''style'', ''use'', ''mask'', ''clipPath'', ''filter'',
     ''feGaussianBlur'', ''title'', ''desc'', ''MISSING'']"

text \<open>Without the name space and the dashes; a name no class has is \<open>MISSING\<close>.\<close>

definition class_name :: "string \<Rightarrow> string" where
  "class_name nodeName = (let pre = takeWhile (\<lambda>c. c \<noteq> CHR '':'') nodeName;
       rest = dropWhile (\<lambda>c. c \<noteq> CHR '':'') nodeName;
       cls = filter (\<lambda>c. c \<noteq> CHR ''-'') (if pre \<noteq> [] \<and> rest \<noteq> [] then drop 1 rest else nodeName) in
     if cls \<in> set known_classes then cls else ''MISSING'')"

section \<open>The base of all elements\<close>

definition add_attribute :: "address \<Rightarrow> svg_state \<Rightarrow> string \<times> string \<Rightarrow> svg_state" where
  "add_attribute a s nv = (let (p, s1) = new_prop (fst nv) (Str (snd nv)) s in
     update_element a (put_attribute (fst nv) p) s1)"

text \<open>The properties of a rule are put into the element as they are, without a copy.\<close>

definition add_rule :: "address \<Rightarrow> svg_state \<Rightarrow> string \<Rightarrow> svg_state" where
  "add_rule a s sel = (case map_of (st_Styles s) sel of None \<Rightarrow> s
     | Some ps \<Rightarrow> foldl (\<lambda>t (name, p). update_element a (put_style name p) t) s ps)"

definition add_class_rules :: "string \<Rightarrow> address \<Rightarrow> svg_state \<Rightarrow> string \<Rightarrow> svg_state" where
  "add_class_rules nodeName a s cls = add_rule a (add_rule a s (''.'' @ cls)) (nodeName @ ''.'' @ cls)"

text \<open>One declaration of the attribute \<open>style\<close>; without a colon there is no value to trim.\<close>

definition add_inline :: "address \<Rightarrow> svg_state \<Rightarrow> string \<Rightarrow> svg_state res" where
  "add_inline a s decl =
     (if trim decl = '''' then Inr s
      else (case split_char (CHR '':'') decl of
          name # v # _ \<Rightarrow> (let (p, s1) = new_prop (trim name) (Str (trim v)) s in
            Inr (update_element a (put_style (trim name) p) s1))
        | _ \<Rightarrow> Inl TypeError))"

definition text_value :: "svg_state \<Rightarrow> address \<Rightarrow> string \<Rightarrow> string" where
  "text_value s a name = to_str (prop_value (attribute s a name))"

definition register_id :: "address \<Rightarrow> svg_state \<Rightarrow> svg_state" where
  "register_id a s = (let v = text_value s a ''id'' in
     if hasValue (attribute s a ''id'') \<and> map_of (st_Definitions s) v = None
     then s\<lparr>st_Definitions := put_prop v a (st_Definitions s)\<rparr> else s)"

definition base_init :: "string \<Rightarrow> (string \<times> string) list \<Rightarrow> address \<Rightarrow> svg_state \<Rightarrow> svg_state res" where
  "base_init nodeName attrs a s =
     (let s1 = foldl (add_attribute a) s attrs;
          s2 = add_rule a s1 nodeName;
          s3 = (if hasValue (attribute s2 a ''class'')
            then foldl (add_class_rules nodeName a) s2 (split_char (CHR '' '') (compressSpaces (text_value s2 a ''class'')))
            else s2) in
      bind_res (if hasValue (attribute s3 a ''style'')
          then fold_res (add_inline a) s3 (split_char (CHR '';'') (text_value s3 a ''style'')) else Inr s3)
        (\<lambda>s4. Inr (register_id a s4)))"

definition addChild :: "address \<Rightarrow> address \<Rightarrow> svg_state \<Rightarrow> svg_state" where
  "addChild a child s = update_element a (\<lambda>e. e\<lparr>el_children := el_children e @ [child]\<rparr>)
     (update_element child (\<lambda>e. e\<lparr>el_parent := Some a\<rparr>) s)"

section \<open>What the classes add\<close>

definition set_data :: "address \<Rightarrow> element_data \<Rightarrow> svg_state \<Rightarrow> svg_state" where
  "set_data a d s = update_element a (\<lambda>e. e\<lparr>el_data := d\<rparr>) s"

definition stop_data :: "svg_state \<Rightarrow> address \<Rightarrow> element_data res" where
  "stop_data s a =
     (let stopColor = style s a ''stop-color''; opacity = style s a ''stop-opacity'' in
      bind_res (if hasValue opacity then addOpacity stopColor (to_str (prop_value opacity)) else Inr stopColor)
        (\<lambda>c. Inr (StopData (numValue (attribute s a ''offset'')) (prop_value c))))"

definition animate_data :: "svg_state \<Rightarrow> address \<Rightarrow> animation" where
  "animate_data s a = (let begin_ms = toMilliseconds (attribute s a ''begin'') in
     \<lparr>anim_duration = zero, anim_begin = begin_ms,
      anim_maxDuration = js_add begin_ms (toMilliseconds (attribute s a ''dur'')),
      anim_initialValue = Null, anim_removed = False\<rparr>)"

definition no_entry :: glyph_entry where
  "no_entry = \<lparr>entry_glyph = None, entry_forms = []\<rparr>"

definition put_glyph :: "string \<Rightarrow> string \<Rightarrow> address \<Rightarrow> svg_font_data \<Rightarrow> svg_font_data" where
  "put_glyph unicode form g f =
     (if form \<noteq> '''' then
        (let en = (case map_of (glyphs f) unicode of Some en \<Rightarrow> en | None \<Rightarrow> no_entry) in
         f\<lparr>isRTL := True, isArabic := True,
           glyphs := put_prop unicode (en\<lparr>entry_forms := put_prop form g (entry_forms en)\<rparr>) (glyphs f)\<rparr>)
      else f\<lparr>glyphs := put_prop unicode \<lparr>entry_glyph = Some g, entry_forms = []\<rparr> (glyphs f)\<rparr>)"

definition font_child :: "address \<Rightarrow> svg_font_data \<times> svg_state \<Rightarrow> address \<Rightarrow> svg_font_data \<times> svg_state" where
  "font_child a acc c = (case acc of (f, s) \<Rightarrow> (let kind = el_type (st_elements s ! c) in
     if kind = ''font-face'' then
       (let family = style s c ''font-family'' in
        (f\<lparr>fontFace := Some c\<rparr>,
         if hasValue family then s\<lparr>st_Definitions := put_prop (to_str (prop_value family)) a (st_Definitions s)\<rparr> else s))
     else if kind = ''missing-glyph'' then (f\<lparr>missingGlyph := Some c\<rparr>, s)
     else if kind = ''glyph'' then
       (case el_data (st_elements s ! c) of
          GlyphData _ _ unicode form \<Rightarrow> (put_glyph (to_str unicode) (to_str form) c f, s)
        | _ \<Rightarrow> (f, s))
     else (f, s)))"

definition font_init :: "address \<Rightarrow> svg_state \<Rightarrow> svg_state" where
  "font_init a s = (let f0 = \<lparr>horizAdvX = numValue (attribute s a ''horiz-adv-x''), isRTL = False, isArabic = False,
       fontFace = None, missingGlyph = None, glyphs = []\<rparr>;
       (f, s1) = foldl (font_child a) (f0, s) (el_children (st_elements s ! a)) in
     set_data a (FontData f) s1)"

definition nth_value :: "node list \<Rightarrow> nat \<Rightarrow> string" where
  "nth_value kids i = to_str (node_value (kids ! i))"

definition style_init ::
  "(names \<Rightarrow> svg_state \<Rightarrow> svg_state res) \<Rightarrow> node list \<Rightarrow> svg_state \<Rightarrow> svg_state res" where
  "style_init load_fonts kids s =
     (if kids = [] then Inl TypeError
      else read_css load_fonts (nth_value kids 0 @ (if 1 < length kids then nth_value kids 1 else '''')) s)"

definition is_text_node :: "node \<Rightarrow> bool" where
  "is_text_node n = (case n of Text _ \<Rightarrow> True | _ \<Rightarrow> False)"

definition a_data :: "node list \<Rightarrow> element_data res" where
  "a_data kids = (let hasText = list_all is_text_node kids in
     if hasText then (if kids = [] then Inl TypeError else Inr (LinkData True (node_value (hd kids))))
     else Inr (LinkData False (Str '''')))"

definition polyline_init :: "address \<Rightarrow> svg_state \<Rightarrow> svg_state" where
  "polyline_init a s = set_data a (PointsData (CreatePath (text_value s a ''points''))) s"

definition gradient_init :: "address \<Rightarrow> svg_state \<Rightarrow> svg_state" where
  "gradient_init a s = set_data a (GradientData (valueOrDefault (attribute s a ''gradientUnits'') (Str ''objectBoundingBox''))
     (el_children (st_elements s ! a))) s"

definition animate_init :: "address \<Rightarrow> svg_state \<Rightarrow> svg_state" where
  "animate_init a s = set_data a (AnimateData (animate_data s a)) (s\<lparr>st_Animations := st_Animations s @ [a]\<rparr>)"

definition fontface_init :: "address \<Rightarrow> svg_state \<Rightarrow> svg_state" where
  "fontface_init a s = set_data a (FontFaceData (prop_value (attribute s a ''ascent'')) (prop_value (attribute s a ''descent''))
     (numValue (attribute s a ''units-per-em''))) s"

definition glyph_init :: "address \<Rightarrow> svg_state \<Rightarrow> svg_state" where
  "glyph_init a s = set_data a (GlyphData (path_tokens (text_value s a ''d'')) (numValue (attribute s a ''horiz-adv-x''))
     (prop_value (attribute s a ''unicode'')) (prop_value (attribute s a ''arabic-form''))) s"

definition tspan_init :: "node list \<Rightarrow> address \<Rightarrow> svg_state \<Rightarrow> svg_state" where
  "tspan_init kids a s = set_data a (TextData (case kids of [] \<Rightarrow> Undefined | k # _ \<Rightarrow> node_value k)) s"

definition image_init :: "address \<Rightarrow> svg_state \<Rightarrow> svg_state" where
  "image_init a s = s\<lparr>st_Images := st_Images s @ [a]\<rparr>"

lemmas class_inits = polyline_init_def gradient_init_def animate_init_def fontface_init_def glyph_init_def tspan_init_def image_init_def

definition class_init ::
  "(names \<Rightarrow> svg_state \<Rightarrow> svg_state res) \<Rightarrow> string \<Rightarrow> node list \<Rightarrow> address \<Rightarrow> svg_state \<Rightarrow> svg_state res" where
  "class_init load_fonts cls kids a s =
     (if cls = ''polyline'' \<or> cls = ''polygon'' then Inr (polyline_init a s)
      else if cls = ''path'' then Inr (set_data a (PathData (path_tokens (text_value s a ''d''))) s)
      else if cls \<in> set [''GradientBase'', ''linearGradient'', ''radialGradient''] then
        Inr (gradient_init a s)
      else if cls = ''stop'' then bind_res (stop_data s a) (\<lambda>d. Inr (set_data a d s))
      else if cls \<in> set [''AnimateBase'', ''animate'', ''animateColor'', ''animateTransform''] then
        Inr (animate_init a s)
      else if cls = ''font'' then Inr (font_init a s)
      else if cls = ''fontface'' then
        Inr (fontface_init a s)
      else if cls = ''missingglyph'' then
        Inr (set_data a (GlyphData (path_tokens (text_value s a ''d'')) zero Undefined Undefined) s)
      else if cls = ''glyph'' then
        Inr (glyph_init a s)
      else if cls = ''tspan'' then Inr (tspan_init kids a s)
      else if cls = ''a'' then bind_res (a_data kids) (\<lambda>d. Inr (set_data a d s))
      else if cls = ''image'' then Inr (image_init a s)
      else if cls = ''style'' then style_init load_fonts kids s
      else Inr s)"

section \<open>The factory\<close>

definition set_type :: "address \<Rightarrow> string \<Rightarrow> svg_state \<Rightarrow> svg_state" where
  "set_type a nodeName s = update_element a (\<lambda>e. e\<lparr>el_type := nodeName\<rparr>) s"

definition missing_message :: "string \<Rightarrow> string" where
  "missing_message nodeName = ''ERROR: Element '' @ [char_of (39 :: nat)] @ nodeName @ [char_of (39 :: nat)] @ '' not yet implemented.''"

text \<open>
  \<open>CreateElement\<close> on an element node, and the tspan that the text element makes of a text node.
  The children of a text element are built twice: by the base, which takes the element nodes, and
  again together with the text nodes after the list of children has been emptied.
\<close>

fun CreateElement :: "(names \<Rightarrow> svg_state \<Rightarrow> svg_state res) \<Rightarrow> node \<Rightarrow> svg_state \<Rightarrow> (address \<times> svg_state) res"
  and create_children :: "(names \<Rightarrow> svg_state \<Rightarrow> svg_state res) \<Rightarrow> bool \<Rightarrow> address \<Rightarrow> node list \<Rightarrow> svg_state \<Rightarrow> svg_state res"
where
  "CreateElement load_fonts (Elem nodeName attrs kids) s =
     (let cls = class_name nodeName; (a, s0) = new_element (blank_element cls) s in
      if cls = ''title'' \<or> cls = ''desc'' then Inr (a, set_type a nodeName s0)
      else if cls = ''MISSING'' then Inr (a, set_type a nodeName (s0\<lparr>st_log := st_log s0 @ [missing_message nodeName]\<rparr>))
      else bind_res (create_children load_fonts False a kids s0) (\<lambda>s1.
        bind_res (base_init nodeName attrs a s1) (\<lambda>s2.
        bind_res (if cls = ''text''
            then create_children load_fonts True a kids (update_element a (\<lambda>e. e\<lparr>el_children := []\<rparr>) s2)
            else Inr s2) (\<lambda>s3.
        bind_res (class_init load_fonts cls kids a s3) (\<lambda>s4. Inr (a, set_type a nodeName s4))))))"
| "CreateElement load_fonts (Text t) s =
     Inr (new_element ((blank_element ''tspan'')\<lparr>el_data := TextData (Str t)\<rparr>) s)"
| "CreateElement load_fonts (Other t) s = Inl TypeError"
| "create_children load_fonts texts a [] s = Inr s"
| "create_children load_fonts texts a (k # ks) s =
     (case k of
        Elem _ _ _ \<Rightarrow> bind_res (CreateElement load_fonts k s) (\<lambda>(c, s1).
          create_children load_fonts texts a ks (addChild a c s1))
      | Text _ \<Rightarrow>
          if texts then bind_res (CreateElement load_fonts k s) (\<lambda>(c, s1).
            create_children load_fonts texts a ks (addChild a c s1))
          else create_children load_fonts texts a ks s
      | Other _ \<Rightarrow> create_children load_fonts texts a ks s)"

text \<open>The root element of a document, in a state as \<open>init\<close> leaves it.\<close>

definition create_root :: "(names \<Rightarrow> svg_state \<Rightarrow> svg_state res) \<Rightarrow> node \<Rightarrow> (address \<times> svg_state) res" where
  "create_root load_fonts n = CreateElement load_fonts n empty_state"

section \<open>Construction keeps the store well-formed\<close>

text \<open>
  Every property and every child of an element is in the store, children are younger than their
  element and parents older; the tables of the document hold addresses of the store.
\<close>

definition names_ok :: "svg_state \<Rightarrow> names \<Rightarrow> bool" where
  "names_ok s ns \<longleftrightarrow> list_all (\<lambda>(_, p). p < length (st_props s)) ns"

definition element_ok :: "svg_state \<Rightarrow> address \<Rightarrow> svg_element \<Rightarrow> bool" where
  "element_ok s a e \<longleftrightarrow> names_ok s (el_attributes e) \<and> names_ok s (el_styles e) \<and>
     list_all (\<lambda>c. a < c \<and> c < length (st_elements s)) (el_children e) \<and>
     (case el_parent e of None \<Rightarrow> True | Some q \<Rightarrow> q < a)"

definition store_ok :: "svg_state \<Rightarrow> bool" where
  "store_ok s \<longleftrightarrow> (\<forall>a < length (st_elements s). element_ok s a (st_elements s ! a)) \<and>
     list_all (\<lambda>(_, ns). names_ok s ns) (st_Styles s) \<and>
     list_all (\<lambda>(_, a). a < length (st_elements s)) (st_Definitions s) \<and>
     list_all (\<lambda>a. a < length (st_elements s)) (st_Animations s @ st_Images s)"

definition grown :: "svg_state \<Rightarrow> svg_state \<Rightarrow> bool" where
  "grown s t \<longleftrightarrow> length (st_props s) \<le> length (st_props t) \<and> length (st_elements s) \<le> length (st_elements t)"

text \<open>What every step of a construction does to a well-formed store.\<close>

definition step_ok :: "svg_state \<Rightarrow> svg_state \<Rightarrow> bool" where
  "step_ok s t \<longleftrightarrow> (store_ok s \<longrightarrow> store_ok t) \<and> grown s t"

named_theorems store_steps \<open>steps that keep the store well-formed\<close>

lemma step_ok_refl: "step_ok s s"
  by (simp add: step_ok_def grown_def)

lemma step_ok_trans: "step_ok s t \<Longrightarrow> step_ok t u \<Longrightarrow> step_ok s u"
  by (auto simp: step_ok_def grown_def)

lemma names_ok_grown: "names_ok s ns \<Longrightarrow> grown s t \<Longrightarrow> names_ok t ns"
  by (auto simp: names_ok_def grown_def list_all_iff)

lemma element_ok_grown: "element_ok s a e \<Longrightarrow> grown s t \<Longrightarrow> element_ok t a e"
  using names_ok_grown [of s _ t] by (auto simp: element_ok_def list_all_iff grown_def)

lemma put_prop_all: "list_all (\<lambda>(_, v). P v) ps \<Longrightarrow> P v \<Longrightarrow> list_all (\<lambda>(_, v). P v) (put_prop k v ps)"
  by (induction k v ps rule: put_prop.induct) auto

lemma names_ok_put: "names_ok s ns \<Longrightarrow> p < length (st_props s) \<Longrightarrow> names_ok s (put_prop name p ns)"
  unfolding names_ok_def by (rule put_prop_all)

lemma names_ok_map_of: "names_ok s ns \<Longrightarrow> map_of ns name = Some p \<Longrightarrow> p < length (st_props s)"
  by (auto simp: names_ok_def list_all_iff dest!: map_of_SomeD)

lemma store_ok_element: "store_ok s \<Longrightarrow> a < length (st_elements s) \<Longrightarrow> element_ok s a (st_elements s ! a)"
  by (simp add: store_ok_def)

lemma new_prop_ok: "step_ok s (snd (new_prop name v s))" "fst (new_prop name v s) < length (st_props (snd (new_prop name v s)))"
proof -
  have g: "grown s (snd (new_prop name v s))" by (simp add: grown_def new_prop_def)
  have same: "st_elements (snd (new_prop name v s)) = st_elements s" "st_Styles (snd (new_prop name v s)) = st_Styles s"
      "st_Definitions (snd (new_prop name v s)) = st_Definitions s"
      "st_Animations (snd (new_prop name v s)) = st_Animations s" "st_Images (snd (new_prop name v s)) = st_Images s"
    by (simp_all add: new_prop_def)
  show "step_ok s (snd (new_prop name v s))"
    using g element_ok_grown [OF _ g] names_ok_grown [OF _ g]
    by (auto simp: step_ok_def store_ok_def same list_all_iff)
  show "fst (new_prop name v s) < length (st_props (snd (new_prop name v s)))" by (simp add: new_prop_def)
qed

lemma update_element_ok:
  assumes "a < length (st_elements s) \<Longrightarrow> store_ok s \<Longrightarrow> element_ok s a (f (st_elements s ! a))"
  shows "step_ok s (update_element a f s)"
proof (cases "a < length (st_elements s)")
  case True
  have g: "grown s (update_element a f s)" "grown (update_element a f s) s" by (simp_all add: grown_def update_element_def)
  have "store_ok (update_element a f s)" if ok: "store_ok s"
  proof -
    have e: "element_ok s b (st_elements (update_element a f s) ! b)" if "b < length (st_elements s)" for b
      using that True assms ok store_ok_element [OF ok that] by (cases "b = a") (simp_all add: update_element_def)
    then have "\<forall>b < length (st_elements (update_element a f s)).
        element_ok (update_element a f s) b (st_elements (update_element a f s) ! b)"
      using element_ok_grown [OF _ g(1)] by (simp add: update_element_def)
    then show ?thesis
      using ok names_ok_grown [OF _ g(1)] by (auto simp: store_ok_def list_all_iff) (auto simp: update_element_def)
  qed
  then show ?thesis using g(1) by (simp add: step_ok_def)
next
  case False
  then show ?thesis by (simp add: update_element_def step_ok_refl list_update_beyond)
qed

lemma put_attribute_ok:
  "(store_ok s \<Longrightarrow> p < length (st_props s)) \<Longrightarrow> step_ok s (update_element a (put_attribute name p) s)"
  by (rule update_element_ok) (auto simp: put_attribute_def element_ok_def names_ok_put dest: store_ok_element)

lemma put_style_ok:
  "(store_ok s \<Longrightarrow> p < length (st_props s)) \<Longrightarrow> step_ok s (update_element a (put_style name p) s)"
  by (rule update_element_ok) (auto simp: put_style_def element_ok_def names_ok_put dest: store_ok_element)

lemma foldl_ok: "(\<And>s x. step_ok s (f s x)) \<Longrightarrow> step_ok s (foldl f s xs)"
  by (induction xs arbitrary: s) (auto intro: step_ok_refl step_ok_trans)

lemma fold_res_ok: "fold_res f s xs = Inr t \<Longrightarrow> (\<And>s x t. f s x = Inr t \<Longrightarrow> step_ok s t) \<Longrightarrow> step_ok s t"
  by (rule fold_res_invariant [where P = "step_ok s"]) (auto intro: step_ok_refl step_ok_trans)

lemma add_attribute_ok [store_steps]: "step_ok s (add_attribute a s nv)"
  unfolding add_attribute_def Let_def case_prod_unfold
  by (rule step_ok_trans [OF new_prop_ok(1) put_attribute_ok]) (rule new_prop_ok(2))

lemma add_rule_ok [store_steps]: "step_ok s (add_rule a s sel)"
proof (cases "map_of (st_Styles s) sel")
  case (Some ps)
  have "step_ok s t \<and> (\<forall>p. p < length (st_props s) \<longrightarrow> p < length (st_props t)) \<Longrightarrow> list_all (\<lambda>(_, p). store_ok s \<longrightarrow> p < length (st_props s)) ps \<Longrightarrow>
      step_ok s (foldl (\<lambda>t (name, p). update_element a (put_style name p) t) t ps)" for t ps
  proof (induction ps arbitrary: t)
    case (Cons np ps)
    obtain name p where np: "np = (name, p)" by (cases np)
    define t' where "t' = update_element a (put_style name p) t"
    have same: "st_props t' = st_props t" by (simp add: t'_def update_element_def)
    have "step_ok s t'"
    proof (cases "store_ok s")
      case True
      then have "step_ok t t'" unfolding t'_def using Cons.prems np by (intro put_style_ok) auto
      then show ?thesis using Cons.prems(1) step_ok_trans by blast
    next
      case False
      then show ?thesis using Cons.prems(1) by (auto simp: step_ok_def grown_def t'_def update_element_def)
    qed
    then show ?case using Cons same np by (simp add: t'_def [symmetric])
  qed simp
  moreover have "list_all (\<lambda>(_, p). store_ok s \<longrightarrow> p < length (st_props s)) ps"
    using Some by (auto simp: store_ok_def list_all_iff names_ok_def dest!: map_of_SomeD)
  ultimately show ?thesis using Some step_ok_refl by (simp add: add_rule_def)
qed (simp add: add_rule_def step_ok_refl)

lemma add_class_rules_ok [store_steps]: "step_ok s (add_class_rules nodeName a s cls)"
  unfolding add_class_rules_def by (rule step_ok_trans [OF add_rule_ok add_rule_ok])

lemma add_inline_ok [store_steps]: "add_inline a s decl = Inr t \<Longrightarrow> step_ok s t"
  by (auto simp: add_inline_def Let_def case_prod_unfold split: if_splits list.splits
      intro!: step_ok_refl step_ok_trans [OF new_prop_ok(1) put_style_ok] new_prop_ok(2))

lemma register_id_ok [store_steps]: "a < length (st_elements s) \<Longrightarrow> step_ok s (register_id a s)"
  by (auto simp: register_id_def Let_def step_ok_def store_ok_def grown_def element_ok_def names_ok_def
      intro!: put_prop_all split: if_splits)

lemma base_init_ok [store_steps]:
  assumes "base_init nodeName attrs a s = Inr t" and "a < length (st_elements s)"
  shows "step_ok s t"
proof -
  define s1 where "s1 = foldl (add_attribute a) s attrs"
  define s2 where "s2 = add_rule a s1 nodeName"
  define s3 where "s3 = (if hasValue (attribute s2 a ''class'')
            then foldl (add_class_rules nodeName a) s2 (split_char (CHR '' '') (compressSpaces (text_value s2 a ''class'')))
            else s2)"
  obtain s4 where s4: "(if hasValue (attribute s3 a ''style'')
          then fold_res (add_inline a) s3 (split_char (CHR '';'') (text_value s3 a ''style'')) else Inr s3) = Inr s4"
      and t: "t = register_id a s4"
    using assms(1) unfolding base_init_def Let_def bind_res_Inr_iff s1_def [symmetric] s2_def [symmetric]
      s3_def [symmetric] by auto
  have 1: "step_ok s s1" unfolding s1_def by (rule foldl_ok) (rule store_steps)
  have 2: "step_ok s1 s2" unfolding s2_def by (rule store_steps)
  have 3: "step_ok s2 s3" unfolding s3_def by (auto intro: step_ok_refl foldl_ok store_steps)
  have 4: "step_ok s3 s4" using s4 fold_res_ok [OF _ add_inline_ok] step_ok_refl by (auto split: if_splits)
  have all: "step_ok s s4" using 1 2 3 4 step_ok_trans by blast
  then have "a < length (st_elements s4)" using assms(2) by (simp add: step_ok_def grown_def)
  then show ?thesis unfolding t using all store_steps step_ok_trans by blast
qed

lemma addChild_ok [store_steps]:
  assumes "a < c" "c < length (st_elements s)"
  shows "step_ok s (addChild a c s)"
proof -
  define s1 where "s1 = update_element c (\<lambda>e. e\<lparr>el_parent := Some a\<rparr>) s"
  have "step_ok s s1"
    unfolding s1_def using assms by (intro update_element_ok) (auto simp: element_ok_def dest: store_ok_element)
  moreover have "length (st_elements s1) = length (st_elements s)" by (simp add: s1_def update_element_def)
  then have "step_ok s1 (update_element a (\<lambda>e. e\<lparr>el_children := el_children e @ [c]\<rparr>) s1)"
    using assms store_ok_element [of s1 a] by (intro update_element_ok) (simp add: element_ok_def)
  ultimately show ?thesis unfolding addChild_def s1_def [symmetric] by (rule step_ok_trans)
qed

lemma set_data_ok [store_steps]: "step_ok s (set_data a d s)"
  unfolding set_data_def by (rule update_element_ok) (auto simp: element_ok_def dest: store_ok_element)

lemma set_type_ok [store_steps]: "step_ok s (set_type a name s)"
  unfolding set_type_def by (rule update_element_ok) (auto simp: element_ok_def dest: store_ok_element)

lemma clear_children_ok [store_steps]: "step_ok s (update_element a (\<lambda>e. e\<lparr>el_children := []\<rparr>) s)"
  by (rule update_element_ok) (auto simp: element_ok_def dest: store_ok_element)

lemma new_element_ok [store_steps]:
  assumes "el_attributes e = []" "el_styles e = []" "el_children e = []" "el_parent e = None"
  shows "step_ok s (snd (new_element e s))"
proof -
  define t where "t = snd (new_element e s)"
  have g: "grown s t" by (simp add: grown_def t_def new_element_def)
  have "element_ok t a (st_elements t ! a)" if ok: "store_ok s" and "a < length (st_elements t)" for a
  proof (cases "a < length (st_elements s)")
    case True
    then have "st_elements t ! a = st_elements s ! a" by (simp add: t_def new_element_def nth_append)
    then show ?thesis using element_ok_grown [OF store_ok_element [OF ok True] g] by simp
  next
    case False
    then have "st_elements t ! a = e" using that by (auto simp: t_def new_element_def nth_append)
    then show ?thesis using assms by (simp add: element_ok_def names_ok_def)
  qed
  moreover have "list_all (\<lambda>(_, ns). names_ok t ns) (st_Styles t)" if "store_ok s"
    using that names_ok_grown [OF _ g] by (auto simp: store_ok_def t_def new_element_def list_all_iff)
  moreover have "list_all (\<lambda>(_, a). a < length (st_elements t)) (st_Definitions t)" if "store_ok s"
    using that by (auto simp: store_ok_def t_def new_element_def list_all_iff)
  moreover have "list_all (\<lambda>a. a < length (st_elements t)) (st_Animations t @ st_Images t)" if "store_ok s"
    using that by (auto simp: store_ok_def t_def new_element_def list_all_iff intro: less_SucI)
  ultimately show ?thesis using g by (auto simp: step_ok_def store_ok_def t_def)
qed

lemma put_declaration_ok:
  "names_ok s ps \<Longrightarrow> put_declaration (ps, s) d = (ps', t) \<Longrightarrow> step_ok s t \<and> names_ok t ps'"
proof -
  assume ps: "names_ok s ps" and d: "put_declaration (ps, s) d = (ps', t)"
  define name v where "name = fst (css_declaration d)" and "v = snd (css_declaration d)"
  have t: "t = snd (new_prop name (Str v) s)" "ps' = put_prop name (fst (new_prop name (Str v) s)) ps"
    using d by (auto simp: put_declaration_def Let_def case_prod_unfold name_def v_def)
  have "step_ok s t" unfolding t by (rule new_prop_ok)
  moreover from this have "names_ok t ps" using ps by (auto simp: step_ok_def intro: names_ok_grown)
  ultimately show ?thesis
    using names_ok_put [of t ps "fst (new_prop name (Str v) s)" name] new_prop_ok(2) [of name "Str v" s]
    by (simp add: t)
qed

lemma declarations_ok:
  "names_ok s ps \<Longrightarrow> foldl put_declaration (ps, s) ds = (ps', t) \<Longrightarrow> step_ok s t \<and> names_ok t ps'"
proof (induction ds arbitrary: ps s)
  case (Cons d ds)
  obtain ps1 s1 where 1: "put_declaration (ps, s) d = (ps1, s1)" by (cases "put_declaration (ps, s) d")
  have ok: "step_ok s s1" "names_ok s1 ps1" using put_declaration_ok [OF Cons.prems(1) 1] by auto
  have "step_ok s1 t \<and> names_ok t ps'" using Cons.prems(2) 1 by (intro Cons.IH [OF ok(2)]) simp
  then show ?case using ok(1) step_ok_trans by blast
qed (simp add: step_ok_refl)

text \<open>What the platform loads for a font face keeps the store well-formed too.\<close>

definition fonts_ok :: "(names \<Rightarrow> svg_state \<Rightarrow> svg_state res) \<Rightarrow> bool" where
  "fonts_ok load_fonts \<longleftrightarrow> (\<forall>ps s t. load_fonts ps s = Inr t \<longrightarrow> step_ok s t)"

lemma css_selector_ok:
  assumes "fonts_ok load_fonts" and "css_selector load_fonts decls s sel = Inr t"
  shows "step_ok s t"
proof (cases "trim sel = ''''")
  case True
  then show ?thesis using assms(2) by (simp add: css_selector_def step_ok_refl)
next
  case False
  obtain ps s1 where 1: "foldl put_declaration ([], s) decls = (ps, s1)"
    by (cases "foldl put_declaration ([], s) decls")
  have ok: "step_ok s s1" "names_ok s1 ps" using declarations_ok [OF _ 1] by (simp_all add: names_ok_def)
  define s2 where "s2 = s1\<lparr>st_Styles := put_prop (trim sel) ps (st_Styles s1)\<rparr>"
  have "step_ok s1 s2"
    unfolding s2_def using ok(2)
    by (auto simp: step_ok_def store_ok_def grown_def element_ok_def names_ok_def intro!: put_prop_all)
  moreover have "step_ok s2 t"
    using assms False 1 by (auto simp: css_selector_def Let_def fonts_ok_def s2_def step_ok_refl split: if_splits)
  ultimately show ?thesis using ok(1) step_ok_trans by blast
qed

lemma css_rule_ok: "fonts_ok load_fonts \<Longrightarrow> css_rule load_fonts s def = Inr t \<Longrightarrow> step_ok s t"
  by (auto simp: css_rule_def step_ok_refl split: if_splits list.splits
      dest!: fold_res_ok intro: css_selector_ok)

lemma read_css_ok: "fonts_ok load_fonts \<Longrightarrow> read_css load_fonts css s = Inr t \<Longrightarrow> step_ok s t"
  unfolding read_css_def by (erule fold_res_ok) (rule css_rule_ok)

lemma font_child_ok: "a < length (st_elements s) \<Longrightarrow> font_child a (f, s) c = (f', t) \<Longrightarrow>
    step_ok s t \<and> a < length (st_elements t)"
  by (auto simp: font_child_def Let_def step_ok_def store_ok_def grown_def element_ok_def names_ok_def
      intro!: put_prop_all split: if_splits element_data.splits)

lemma font_init_ok: "a < length (st_elements s) \<Longrightarrow> step_ok s (font_init a s)"
proof -
  assume a: "a < length (st_elements s)"
  have "foldl (font_child a) (f, s) cs = (f', t) \<Longrightarrow> a < length (st_elements s) \<Longrightarrow> step_ok s t" for f f' s t cs
  proof (induction cs arbitrary: f s)
    case (Cons c cs)
    obtain f1 s1 where 1: "font_child a (f, s) c = (f1, s1)" by (cases "font_child a (f, s) c")
    then show ?case using Cons font_child_ok [OF Cons.prems(2) 1] step_ok_trans by auto
  qed (simp add: step_ok_refl)
  moreover obtain f' t where f: "foldl (font_child a) (\<lparr>horizAdvX = numValue (attribute s a ''horiz-adv-x''), isRTL = False,
      isArabic = False, fontFace = None, missingGlyph = None, glyphs = []\<rparr>, s) (el_children (st_elements s ! a)) = (f', t)"
    by fastforce
  ultimately have "step_ok s t" using a by blast
  then show ?thesis using step_ok_trans [OF _ set_data_ok] f by (simp add: font_init_def)
qed

lemma style_init_ok: "fonts_ok load_fonts \<Longrightarrow> style_init load_fonts kids s = Inr t \<Longrightarrow> step_ok s t"
  by (auto simp: style_init_def split: if_splits intro: read_css_ok)

text \<open>The branches of a chain of conditions that ends in a value.\<close>

lemma if_ok_E: "(if b then Inr x else r) = Inr t \<Longrightarrow> (x = t \<Longrightarrow> P) \<Longrightarrow> (r = Inr t \<Longrightarrow> P) \<Longrightarrow> P"
  by (simp split: if_splits)

lemma if_bind_E:
  "(if b then bind_res m (\<lambda>d. Inr (f d)) else r) = Inr t \<Longrightarrow> (\<And>d. f d = t \<Longrightarrow> P) \<Longrightarrow> (r = Inr t \<Longrightarrow> P) \<Longrightarrow> P"
  by (auto simp: bind_res_Inr_iff split: if_splits)

lemma if_res_E: "(if b then m else Inr x) = Inr t \<Longrightarrow> (m = Inr t \<Longrightarrow> P) \<Longrightarrow> (x = t \<Longrightarrow> P) \<Longrightarrow> P"
  by (simp split: if_splits)

lemma class_init_ok:
  assumes "fonts_ok load_fonts" "class_init load_fonts cls kids a s = Inr t" "a < length (st_elements s)"
  shows "step_ok s t"
proof -
  have lists: "step_ok s (s\<lparr>st_Animations := st_Animations s @ [a]\<rparr>)" "step_ok s (s\<lparr>st_Images := st_Images s @ [a]\<rparr>)"
    using assms(3) by (auto simp: step_ok_def store_ok_def grown_def element_ok_def names_ok_def)
  note steps = lists set_data_ok font_init_ok [OF assms(3)] step_ok_refl step_ok_trans [OF lists(1) set_data_ok]
  from assms(2) show ?thesis
    unfolding class_init_def class_inits
    by (elim if_ok_E if_bind_E if_res_E)
      (simp_all only: sum.inject, (erule subst, rule steps | erule style_init_ok [OF assms(1)])+)
qed

text \<open>The factory gives the next free address, and children come after their element.\<close>

lemma create_ok:
  "fonts_ok load_fonts \<Longrightarrow> CreateElement load_fonts n s = Inr (a, t) \<Longrightarrow>
     step_ok s t \<and> a = length (st_elements s) \<and> a < length (st_elements t)"
  "fonts_ok load_fonts \<Longrightarrow> create_children load_fonts texts b ks s = Inr t \<Longrightarrow> b < length (st_elements s) \<Longrightarrow> step_ok s t"
proof (induction load_fonts n s and load_fonts texts b ks s arbitrary: a t and t
    rule: CreateElement_create_children.induct)
  case (1 load_fonts nodeName attrs kids s)
  define cls where "cls = class_name nodeName"
  define s0 where "s0 = snd (new_element (blank_element cls) s)"
  define b where "b = length (st_elements s)"
  have n: "new_element (blank_element cls) s = (b, s0)" by (simp add: s0_def b_def new_element_def)
  have 0: "step_ok s s0" unfolding s0_def by (rule new_element_ok) (simp_all add: blank_element_def)
  have b0: "b < length (st_elements s0)" by (simp add: s0_def b_def new_element_def)
  have log: "step_ok u (u\<lparr>st_log := l\<rparr>)" for u l
    by (auto simp: step_ok_def store_ok_def grown_def element_ok_def names_ok_def)
  have finish: "step_ok s t \<and> a = length (st_elements s) \<and> a < length (st_elements t)"
    if "step_ok s0 u" "t = set_type b nodeName u" "a = b" for u
  proof -
    have "step_ok s0 t" using that step_ok_trans [OF _ set_type_ok] by blast
    then show ?thesis
      using 0 b0 that(3) step_ok_trans [OF 0] by (auto simp: b_def step_ok_def grown_def)
  qed
  consider "cls = ''title'' \<or> cls = ''desc''" | "cls = ''MISSING''" "cls \<noteq> ''title''" "cls \<noteq> ''desc''"
    | "cls \<noteq> ''title''" "cls \<noteq> ''desc''" "cls \<noteq> ''MISSING''" by blast
  then show ?case
  proof cases
    case 1
    then have "t = set_type b nodeName s0" "a = b"
      using "1.prems"(2) n by (auto simp: cls_def [symmetric])
    then show ?thesis by (rule finish [OF step_ok_refl])
  next
    case 2
    then have "t = set_type b nodeName (s0\<lparr>st_log := st_log s0 @ [missing_message nodeName]\<rparr>)" "a = b"
      using "1.prems"(2) n by (auto simp: cls_def [symmetric])
    then show ?thesis by (rule finish [OF log])
  next
    case 3
    obtain s1 s2 s3 s4 where s1: "create_children load_fonts False b kids s0 = Inr s1"
      and s2: "base_init nodeName attrs b s1 = Inr s2"
      and s3: "(if cls = ''text''
          then create_children load_fonts True b kids (update_element b (\<lambda>e. e\<lparr>el_children := []\<rparr>) s2)
          else Inr s2) = Inr s3"
      and s4: "class_init load_fonts cls kids b s3 = Inr s4" and t: "t = set_type b nodeName s4" "a = b"
      using "1.prems"(2) 3 n by (auto simp: cls_def [symmetric] bind_res_Inr_iff simp del: create_children.simps)
    have longer: "b < length (st_elements v)" if "step_ok s0 v" for v using that b0 by (auto simp: step_ok_def grown_def)
    have ok1: "step_ok s0 s1" using "1.IH"(1) [of cls "(b, s0)" b s0 s1] s1 b0 3 n "1.prems"(1) by (simp add: cls_def)
    have ok2: "step_ok s0 s2" using step_ok_trans [OF ok1 base_init_ok [OF s2 longer [OF ok1]]] .
    define v where "v = update_element b (\<lambda>e. e\<lparr>el_children := []\<rparr>) s2"
    have okv: "step_ok s0 v" unfolding v_def by (rule step_ok_trans [OF ok2 clear_children_ok])
    have ok3: "step_ok s0 s3"
    proof (cases "cls = ''text''")
      case True
      have "step_ok v s3"
        using "1.IH"(2) [of cls "(b, s0)" b s0 s1 s2 s3] s1 s2 s3 True 3 n longer [OF okv] "1.prems"(1)
        by (simp add: cls_def v_def)
      then show ?thesis using okv step_ok_trans by blast
    next
      case False
      then show ?thesis using s3 ok2 by simp
    qed
    have "step_ok s0 s4" using step_ok_trans [OF ok3 class_init_ok [OF "1.prems"(1) s4 longer [OF ok3]]] .
    then show ?thesis using t by (rule finish)
  qed
next
  case (2 load_fonts u s)
  define e where "e = (blank_element ''tspan'')\<lparr>el_data := TextData (Str u)\<rparr>"
  have "step_ok s (snd (new_element e s))" by (rule new_element_ok) (simp_all add: e_def blank_element_def)
  then show ?case using "2.prems" by (auto simp: e_def [symmetric] new_element_def)
next
  case (3 load_fonts u s)
  then show ?case by simp
next
  case (4 load_fonts texts b s)
  then show ?case by (simp add: step_ok_refl)
next
  case (5 load_fonts texts b k ks s)
  have add: "step_ok s t" if "CreateElement load_fonts k s = Inr (c, s1)"
      "create_children load_fonts texts b ks (addChild b c s1) = Inr t"
      "step_ok s s1 \<and> c = length (st_elements s) \<and> c < length (st_elements s1)"
      "\<And>t. create_children load_fonts texts b ks (addChild b c s1) = Inr t \<Longrightarrow> b < length (st_elements (addChild b c s1)) \<Longrightarrow>
        step_ok (addChild b c s1) t" for c s1
  proof -
    have "b < c" using that(3) "5.prems"(3) by simp
    then have ok: "step_ok s (addChild b c s1)" using that(3) step_ok_trans [OF _ addChild_ok] by blast
    then have "b < length (st_elements (addChild b c s1))" using "5.prems"(3) by (auto simp: step_ok_def grown_def)
    then show ?thesis using that(2,4) ok step_ok_trans by blast
  qed
  show ?case
  proof (cases k)
    case (Elem nodeName attrs kids)
    then obtain c s1 where c: "CreateElement load_fonts k s = Inr (c, s1)"
        "create_children load_fonts texts b ks (addChild b c s1) = Inr t"
      using "5.prems"(2) by (auto simp: bind_res_Inr_iff simp del: CreateElement.simps)
    show ?thesis
      by (rule add [OF c]) (use 5 c Elem in \<open>auto simp del: CreateElement.simps\<close>)
  next
    case (Text u)
    show ?thesis
    proof (cases texts)
      case True
      then obtain c s1 where c: "CreateElement load_fonts k s = Inr (c, s1)"
          "create_children load_fonts texts b ks (addChild b c s1) = Inr t"
        using "5.prems"(2) Text by (auto simp: bind_res_Inr_iff simp del: CreateElement.simps)
      show ?thesis
        by (rule add [OF c]) (use 5 c Text True in \<open>auto simp del: CreateElement.simps\<close>)
    next
      case False
      then show ?thesis using 5 Text by simp
    qed
  next
    case (Other u)
    then show ?thesis using 5 by simp
  qed
qed


subsection \<open>A document\<close>

definition sample_document :: node where
  "sample_document = Elem ''svg'' []
     [Elem ''style'' [] [Text ''.wide { fill: blue }''],
      Elem ''rect'' [(''class'', ''wide'')] [], Elem ''rect'' [(''class'', ''wide'')] []]"

definition no_fonts :: "names \<Rightarrow> svg_state \<Rightarrow> svg_state res" where
  "no_fonts ps s = Inr s"

lemma no_fonts_ok: "fonts_ok no_fonts"
  by (simp add: fonts_ok_def no_fonts_def step_ok_refl)

lemma bind_res_weak_cong: "m = m' \<Longrightarrow> bind_res m f = bind_res m' f"
  by simp

lemma sample_css: "read_css no_fonts ''.wide { fill: blue }'' s =
    Inr (s\<lparr>st_props := st_props s @ [\<lparr>prop_name = ''fill'', prop_value = Str ''blue''\<rparr>],
      st_Styles := put_prop ''.wide'' [(''fill'', length (st_props s))] (st_Styles s)\<rparr>)"
  by (simp add: read_css_def css_rule_def css_selector_def put_declaration_def css_declaration_def trim_def
      is_ws_def line_end_def code_def no_fonts_def new_prop_def Let_def cong: bind_res_weak_cong)

lemma sample_names:
  "class_name ''svg'' = ''svg''" "class_name ''style'' = ''style''" "class_name ''rect'' = ''rect''"
  by code_simp+

lemma sample_init:
  "class_init load_fonts ''svg'' kids a s = Inr s" "class_init load_fonts ''rect'' kids a s = Inr s"
  "class_init load_fonts ''style'' kids a s = style_init load_fonts kids s"
  by (simp_all add: class_init_def)

lemmas creation_defs = create_root_def new_element_def new_prop_def base_init_def
  add_attribute_def add_rule_def add_class_rules_def attribute_def own_attribute_def prop_or_fresh_def fresh_prop_def
  hasValue_def is_nullish_def register_id_def text_value_def set_type_def addChild_def
  update_element_def put_attribute_def put_style_def blank_element_def empty_state_def style_init_def nth_value_def
  node_value_def key_before_def is_array_index_def is_digit_def is_ws_def code_def Let_def

definition sample_rect :: "address \<Rightarrow> svg_element" where
  "sample_rect p = \<lparr>el_type = ''rect'', el_class = ''rect'', el_attributes = [(''class'', p)],
     el_styles = [(''fill'', 0)], el_children = [], el_parent = Some 0, el_data = NoData\<rparr>"

definition sample_state :: svg_state where
  "sample_state = \<lparr>
     st_props = [\<lparr>prop_name = ''fill'', prop_value = Str ''blue''\<rparr>,
       \<lparr>prop_name = ''class'', prop_value = Str ''wide''\<rparr>, \<lparr>prop_name = ''class'', prop_value = Str ''wide''\<rparr>],
     st_elements =
       [(blank_element ''svg'')\<lparr>el_type := ''svg'', el_children := [1, 2, 3]\<rparr>,
        (blank_element ''style'')\<lparr>el_type := ''style'', el_parent := Some 0\<rparr>, sample_rect 1, sample_rect 2],
     st_Definitions = [], st_Styles = [(''.wide'', [(''fill'', 0)])], st_Animations = [], st_Images = [], st_log = []\<rparr>"

lemma sample_rect_created:
  assumes "map_of (st_Styles s) ''.wide'' = Some [(''fill'', 0)]" "map_of (st_Styles s) ''rect'' = None"
    "map_of (st_Styles s) ''rect.wide'' = None"
  shows "CreateElement no_fonts (Elem ''rect'' [(''class'', ''wide'')] []) s =
    Inr (length (st_elements s), s\<lparr>st_props := st_props s @ [\<lparr>prop_name = ''class'', prop_value = Str ''wide''\<rparr>],
      st_elements := st_elements s @ [(sample_rect (length (st_props s)))\<lparr>el_parent := None\<rparr>]\<rparr>)"
  using assms by (simp add: sample_names sample_init creation_defs sample_rect_def cong: bind_res_weak_cong)

lemma sample_style_created:
  assumes "map_of (st_Styles s) ''style'' = None"
  shows "CreateElement no_fonts (Elem ''style'' [] [Text ''.wide { fill: blue }'']) s =
    Inr (length (st_elements s), s\<lparr>st_props := st_props s @ [\<lparr>prop_name = ''fill'', prop_value = Str ''blue''\<rparr>],
      st_Styles := put_prop ''.wide'' [(''fill'', length (st_props s))] (st_Styles s),
      st_elements := st_elements s @ [(blank_element ''style'')\<lparr>el_type := ''style''\<rparr>]\<rparr>)"
  using assms by (simp add: sample_names sample_init sample_css creation_defs cong: bind_res_weak_cong)

lemma sample_svg_created:
  "CreateElement no_fonts (Elem ''svg'' [] kids) s =
     (let a = length (st_elements s) in
      bind_res (create_children no_fonts False a kids (s\<lparr>st_elements := st_elements s @ [blank_element ''svg'']\<rparr>))
        (\<lambda>s1. bind_res (base_init ''svg'' [] a s1) (\<lambda>s2. Inr (a, set_type a ''svg'' s2))))"
  by (simp add: sample_names sample_init new_element_def Let_def)

lemma sample_children_created:
  "create_children no_fonts False 0 [Elem ''style'' [] [Text ''.wide { fill: blue }''],
      Elem ''rect'' [(''class'', ''wide'')] [], Elem ''rect'' [(''class'', ''wide'')] []]
      (empty_state\<lparr>st_elements := [blank_element ''svg'']\<rparr>) =
    Inr (sample_state\<lparr>st_elements := (st_elements sample_state)[0 := (blank_element ''svg'')\<lparr>el_children := [1, 2, 3]\<rparr>]\<rparr>)"
  by (simp add: sample_style_created sample_rect_created addChild_def update_element_def empty_state_def
      sample_state_def del: CreateElement.simps)
    (simp add: sample_rect_def blank_element_def numeral_3_eq_3)

lemma sample_svg_init:
  defines "s \<equiv> sample_state\<lparr>st_elements := (st_elements sample_state)[0 := (blank_element ''svg'')\<lparr>el_children := [1, 2, 3]\<rparr>]\<rparr>"
  shows "base_init ''svg'' [] 0 s = Inr s" and "set_type 0 ''svg'' s = sample_state"
proof -
  have none: "attribute s 0 name = fresh_prop name" for name
    by (simp add: s_def sample_state_def blank_element_def attribute_def own_attribute_def prop_or_fresh_def)
  have "map_of (st_Styles s) ''svg'' = None" by (simp add: s_def sample_state_def)
  then have "add_rule 0 s ''svg'' = s" by (simp add: add_rule_def)
  then show "base_init ''svg'' [] 0 s = Inr s"
    by (simp add: base_init_def none fresh_prop_def hasValue_def register_id_def)
  show "set_type 0 ''svg'' s = sample_state"
    by (simp add: s_def sample_state_def set_type_def update_element_def)
qed

lemma sample_created: "create_root no_fonts sample_document = Inr (0, sample_state)"
  using sample_children_created sample_svg_init
  by (simp add: create_root_def sample_document_def sample_svg_created Let_def empty_state_def
      del: CreateElement.simps create_children.simps)


section \<open>Which rule wins\<close>

text \<open>The selectors that apply to an element, in the order in which its rules are put into it.\<close>

definition selectors :: "string \<Rightarrow> string list \<Rightarrow> string list" where
  "selectors nodeName classes = nodeName # concat (map (\<lambda>cls. [''.'' @ cls, nodeName @ ''.'' @ cls]) classes)"

definition rule_of :: "svg_state \<Rightarrow> string \<Rightarrow> string \<Rightarrow> address option" where
  "rule_of s sel name = (case map_of (st_Styles s) sel of Some ps \<Rightarrow> map_of ps name | None \<Rightarrow> None)"

text \<open>The last of the selectors that has a declaration of the name.\<close>

fun winning :: "svg_state \<Rightarrow> string list \<Rightarrow> string \<Rightarrow> address option" where
  "winning s [] name = None"
| "winning s (sel # sels) name = (case winning s sels name of Some p \<Rightarrow> Some p | None \<Rightarrow> rule_of s sel name)"

definition classes_of :: "svg_state \<Rightarrow> address \<Rightarrow> string list" where
  "classes_of s a = (if hasValue (attribute s a ''class'')
     then split_char (CHR '' '') (compressSpaces (text_value s a ''class'')) else [])"

definition rules_distinct :: "svg_state \<Rightarrow> bool" where
  "rules_distinct s \<longleftrightarrow> list_all (\<lambda>(_, ps). distinct (map fst ps)) (st_Styles s)"

definition styles_of :: "svg_state \<Rightarrow> address \<Rightarrow> string \<Rightarrow> address option" where
  "styles_of s a = map_of (el_styles (st_elements s ! a))"

text \<open>What the base of an element leaves alone while it adds styles to the element.\<close>

definition same_attributes :: "address \<Rightarrow> svg_state \<Rightarrow> svg_state \<Rightarrow> bool" where
  "same_attributes a s t \<longleftrightarrow> st_props t = st_props s \<and> st_Styles t = st_Styles s \<and>
     length (st_elements t) = length (st_elements s) \<and>
     el_attributes (st_elements t ! a) = el_attributes (st_elements s ! a)"

lemma same_attributes_reads:
  "same_attributes a s t \<Longrightarrow> attribute t a name = attribute s a name"
  "same_attributes a s t \<Longrightarrow> classes_of t a = classes_of s a"
  "same_attributes a s t \<Longrightarrow> winning t sels name = winning s sels name"
proof -
  show at: "same_attributes a s t \<Longrightarrow> attribute t a name = attribute s a name" for name
    by (simp add: same_attributes_def attribute_def own_attribute_def prop_or_fresh_def split: option.splits)
  show "classes_of t a = classes_of s a" if "same_attributes a s t"
    by (simp add: classes_of_def text_value_def at [OF that])
  show "winning t sels name = winning s sels name" if "same_attributes a s t"
  proof -
    have "rule_of t = rule_of s" using that by (simp add: rule_of_def same_attributes_def fun_eq_iff)
    then show ?thesis by (induction sels) (simp_all split: option.splits)
  qed
qed

lemma same_attributes_trans: "same_attributes a s t \<Longrightarrow> same_attributes a t u \<Longrightarrow> same_attributes a s u"
  by (simp add: same_attributes_def)

lemma put_styles_fold:
  assumes "a < length (st_elements s)" "distinct (map fst ps)"
  defines "t \<equiv> foldl (\<lambda>t (name, p). update_element a (put_style name p) t) s ps"
  shows "same_attributes a s t \<and> styles_of t a = styles_of s a ++ map_of ps"
  unfolding t_def using assms(1,2)
proof (induction ps arbitrary: s)
  case Nil
  then show ?case by (simp add: same_attributes_def)
next
  case (Cons np ps)
  obtain name p where np: "np = (name, p)" by (cases np)
  define s1 where "s1 = update_element a (put_style name p) s"
  have 1: "same_attributes a s s1" "styles_of s1 a = (styles_of s a)(name \<mapsto> p)"
    using Cons.prems(1) by (simp_all add: s1_def same_attributes_def update_element_def put_style_def styles_of_def map_of_put_prop)
  define u where "u = foldl (\<lambda>t (name, p). update_element a (put_style name p) t) s1 ps"
  have 2: "same_attributes a s1 u \<and> styles_of u a = styles_of s1 a ++ map_of ps"
    unfolding u_def using Cons.prems 1(1) by (intro Cons.IH) (simp_all add: same_attributes_def)
  have "name \<notin> dom (map_of ps)" using Cons.prems(2) by (simp add: np dom_map_of_conv_image_fst)
  then have "(styles_of s a)(name \<mapsto> p) ++ map_of ps = styles_of s a ++ map_of (np # ps)"
    by (auto simp: np fun_eq_iff map_add_def split: option.splits)
  then have "same_attributes a s u \<and> styles_of u a = styles_of s a ++ map_of (np # ps)"
    using 1(2) 2 same_attributes_trans [OF 1(1)] by metis
  then show ?case by (simp only: u_def s1_def np foldl_Cons prod.case)
qed

lemma add_rule_styles:
  assumes "a < length (st_elements s)" "rules_distinct s"
  shows "same_attributes a s (add_rule a s sel)"
    and "styles_of (add_rule a s sel) a = styles_of s a ++ rule_of s sel"
proof -
  have "same_attributes a s (add_rule a s sel) \<and> styles_of (add_rule a s sel) a = styles_of s a ++ rule_of s sel"
  proof (cases "map_of (st_Styles s) sel")
    case None
    then show ?thesis by (auto simp: add_rule_def same_attributes_def rule_of_def map_add_def)
  next
    case (Some ps)
    then have "distinct (map fst ps)" using assms(2) by (auto simp: rules_distinct_def list_all_iff dest: map_of_SomeD)
    moreover have "rule_of s sel = map_of ps" using Some by (simp add: rule_of_def fun_eq_iff)
    ultimately show ?thesis using put_styles_fold [OF assms(1)] Some by (simp add: add_rule_def)
  qed
  then show "same_attributes a s (add_rule a s sel)"
    and "styles_of (add_rule a s sel) a = styles_of s a ++ rule_of s sel" by blast+
qed

lemma add_rules_styles:
  assumes "a < length (st_elements s)" "rules_distinct s"
  shows "same_attributes a s (foldl (add_rule a) s sels) \<and>
     styles_of (foldl (add_rule a) s sels) a = styles_of s a ++ winning s sels"
  using assms
proof (induction sels arbitrary: s)
  case Nil
  then show ?case by (simp add: same_attributes_def map_add_def)
next
  case (Cons sel sels)
  define s1 where "s1 = add_rule a s sel"
  note 1 = add_rule_styles [OF Cons.prems, of sel, folded s1_def]
  have "a < length (st_elements s1)" "rules_distinct s1"
    using 1(1) Cons.prems by (simp_all add: same_attributes_def rules_distinct_def)
  then have "same_attributes a s1 (foldl (add_rule a) s1 sels) \<and>
     styles_of (foldl (add_rule a) s1 sels) a = styles_of s1 a ++ winning s1 sels" by (rule Cons.IH)
  moreover have "winning s1 sels = winning s sels" using 1(1) same_attributes_reads(3) by blast
  moreover have "(styles_of s a ++ rule_of s sel) ++ winning s sels = styles_of s a ++ winning s (sel # sels)"
    by (auto simp: fun_eq_iff map_add_def split: option.splits)
  ultimately have "same_attributes a s (foldl (add_rule a) s1 sels) \<and>
     styles_of (foldl (add_rule a) s1 sels) a = styles_of s a ++ winning s (sel # sels)"
    using 1 same_attributes_trans by metis
  then show ?case by (simp only: s1_def foldl_Cons)
qed

lemma class_rules_as_selectors:
  "foldl (add_class_rules nodeName a) (add_rule a s nodeName) classes = foldl (add_rule a) s (selectors nodeName classes)"
proof -
  have "foldl (add_class_rules nodeName a) t classes =
      foldl (add_rule a) t (concat (map (\<lambda>cls. [''.'' @ cls, nodeName @ ''.'' @ cls]) classes))" for t
    by (induction classes arbitrary: t) (simp_all add: add_class_rules_def)
  then show ?thesis by (simp add: selectors_def)
qed

lemma add_attribute_styles:
  "st_Styles (add_attribute a s nv) = st_Styles s" "length (st_elements (add_attribute a s nv)) = length (st_elements s)"
  "styles_of (add_attribute a s nv) b = styles_of s b"
proof -
  show "st_Styles (add_attribute a s nv) = st_Styles s" "length (st_elements (add_attribute a s nv)) = length (st_elements s)"
    by (simp_all add: add_attribute_def new_prop_def update_element_def)
  show "styles_of (add_attribute a s nv) b = styles_of s b"
    by (cases "a < length (st_elements s)"; cases "b = a")
      (simp_all add: add_attribute_def new_prop_def update_element_def put_attribute_def styles_of_def list_update_beyond)
qed

lemma add_attributes_styles:
  "st_Styles (foldl (add_attribute a) s nvs) = st_Styles s"
  "length (st_elements (foldl (add_attribute a) s nvs)) = length (st_elements s)"
  "styles_of (foldl (add_attribute a) s nvs) b = styles_of s b"
  by (induction nvs arbitrary: s) (simp_all add: add_attribute_styles)

lemma add_attributes_other:
  assumes "name \<notin> fst ` set nvs" "a < length (st_elements s)"
  shows "own_attribute (foldl (add_attribute a) s nvs) a name = own_attribute s a name"
  using assms
proof (induction nvs arbitrary: s)
  case (Cons nv nvs)
  have "own_attribute (add_attribute a s nv) a name = own_attribute s a name"
    using Cons.prems by (simp add: add_attribute_def new_prop_def update_element_def put_attribute_def own_attribute_def map_of_put_prop)
  then show ?case using Cons by (simp add: add_attribute_styles)
qed simp


lemma sample_styled:
  defines "s \<equiv> \<lparr>st_props = [\<lparr>prop_name = ''fill'', prop_value = Str ''blue''\<rparr>, \<lparr>prop_name = ''fill'', prop_value = Str ''red''\<rparr>],
     st_elements = [blank_element ''rect''], st_Definitions = [],
     st_Styles = [(''rect'', [(''fill'', 1)]), (''.wide'', [(''fill'', 0)])], st_Animations = [], st_Images = [], st_log = []\<rparr>"
  shows "\<exists>t. base_init ''rect'' [(''class'', ''wide'')] 0 s = Inr t \<and> classes_of t 0 = [''wide'']"
  by (simp add: s_def creation_defs classes_of_def cong: bind_res_weak_cong)


end
