(* ===== verification/Canvg_Animation.thy ===== *)
theory Canvg_Animation
  imports Canvg_Elements
begin

text \<open>
  The animations of canvg, modules/canvas-tools.src.js: an animate element writes into a property
  of its parent on every frame, from its begin to its end, and then puts the first value back or
  leaves the last. The lemmas show what one frame does to an animated attribute, that an
  animation ends, and that a style set by a rule is animated for all elements under the rule.
\<close>

section \<open>One frame\<close>

text \<open>The property object that is animated; an animation that is the root has no parent.\<close>

definition getProperty :: "address \<Rightarrow> svg_state \<Rightarrow> (address \<times> svg_state) res" where
  "getProperty a s = (case el_parent (st_elements s ! a) of
     None \<Rightarrow> Inl TypeError
   | Some q \<Rightarrow>
       (let name = text_value s a ''attributeName'' in
        if prop_value (attribute s a ''attributeType'') = Str ''CSS'' then Inr (style_create q name s)
        else Inr (attribute_create q name s)))"

definition progress :: "animation \<Rightarrow> jsnum" where
  "progress an = js_div (js_sub (anim_duration an) (anim_begin an)) (js_sub (anim_maxDuration an) (anim_begin an))"

definition tween :: "jsnum \<Rightarrow> jsnum \<Rightarrow> jsnum \<Rightarrow> jsnum" where
  "tween v w share = js_add v (js_mul (js_sub w v) share)"

definition parse_decimal :: "jsnum \<Rightarrow> string" where
  "parse_decimal x = num_to_string (parse_int 10 (num_to_string x))"

definition tween_color :: "rgb_color \<Rightarrow> rgb_color \<Rightarrow> jsnum \<Rightarrow> string" where
  "tween_color c d share = ''rgb('' @ parse_decimal (tween (color_r c) (color_r d) share) @ '','' @
     parse_decimal (tween (color_g c) (color_g d) share) @ '','' @
     parse_decimal (tween (color_b c) (color_b d) share) @ '')''"

text \<open>The value of the class: a number, a colour, or the empty text of the base class.\<close>

definition read_color :: "property \<Rightarrow> rgb_color res" where
  "read_color p = (case prop_value p of Str t \<Rightarrow> Inr (RGBColor t) | _ \<Rightarrow> Inl TypeError)"

definition calcValue :: "svg_state \<Rightarrow> address \<Rightarrow> animation \<Rightarrow> jsval res" where
  "calcValue s a an = (let cls = el_class (st_elements s ! a) in
     if cls = ''animate'' \<or> cls = ''animateTransform'' then
       Inr (Num (tween (numValue (attribute s a ''from'')) (numValue (attribute s a ''to'')) (progress an)))
     else if cls = ''animateColor'' then
       bind_res (read_color (attribute s a ''from'')) (\<lambda>c. bind_res (read_color (attribute s a ''to'')) (\<lambda>d.
         Inr (if color_ok c \<and> color_ok d then Str (tween_color c d (progress an)) else prop_value (attribute s a ''from''))))
     else Inr (Str ''''))"

definition past_end :: "animation \<Rightarrow> bool" where
  "past_end an \<longleftrightarrow> num_lt (anim_maxDuration an) (anim_duration an)"

definition new_value :: "svg_state \<Rightarrow> address \<Rightarrow> animation \<Rightarrow> jsval res" where
  "new_value s a an = bind_res (calcValue s a an) (\<lambda>v.
     Inr (if hasValue (attribute s a ''type'') then Str (text_value s a ''type'' @ ''('' @ to_str v @ '')'') else v))"

definition write_property :: "jsval \<Rightarrow> address \<Rightarrow> svg_state \<Rightarrow> svg_state res" where
  "write_property v a s = bind_res (getProperty a s) (\<lambda>(p, s1). Inr (set_value p v s1))"

text \<open>The first part of \<open>update\<close>: the value to go back to is read on the first frame.\<close>

definition read_initial :: "address \<Rightarrow> animation \<Rightarrow> svg_state \<Rightarrow> (animation \<times> svg_state) res" where
  "read_initial a an s = (if is_nullish (anim_initialValue an)
     then bind_res (getProperty a s) (\<lambda>(p, s1). Inr (an\<lparr>anim_initialValue := prop_value (st_props s1 ! p)\<rparr>, s1))
     else Inr (an, s))"

text \<open>The last part: the time goes on, and the property is written once the begin has passed.\<close>

definition move_on :: "jsnum \<Rightarrow> address \<Rightarrow> animation \<Rightarrow> svg_state \<Rightarrow> (bool \<times> svg_state) res" where
  "move_on delta a an s = (let an1 = an\<lparr>anim_duration := js_add (anim_duration an) delta\<rparr>;
       s1 = set_data a (AnimateData an1) s in
     if num_lt (anim_begin an1) (anim_duration an1)
     then bind_res (new_value s1 a an1) (\<lambda>v. bind_res (write_property v a s1) (\<lambda>s2. Inr (True, s2)))
     else Inr (False, s1))"

definition update_animation :: "jsnum \<Rightarrow> address \<Rightarrow> svg_state \<Rightarrow> (bool \<times> svg_state) res" where
  "update_animation delta a s = (case el_data (st_elements s ! a) of
     AnimateData an0 \<Rightarrow> bind_res (read_initial a an0 s) (\<lambda>(an, s1).
       if \<not> past_end an then move_on delta a an s1
       else if prop_value (attribute s1 a ''repeatCount'') = Str ''indefinite'' then
         move_on delta a (an\<lparr>anim_duration := zero\<rparr>) s1
       else if valueOrDefault (attribute s1 a ''fill'') (Str ''remove'') = Str ''remove'' \<and> \<not> anim_removed an then
         bind_res (write_property (anim_initialValue an) a (set_data a (AnimateData (an\<lparr>anim_removed := True\<rparr>)) s1))
           (\<lambda>s2. Inr (True, s2))
       else Inr (False, set_data a (AnimateData an) s1))
   | _ \<Rightarrow> Inl TypeError)"

definition FRAMERATE :: jsnum where
  "FRAMERATE = num_of_int 30"

definition frame_time :: jsnum where
  "frame_time = js_div (num_of_int 1000) FRAMERATE"

text \<open>The animations of one frame, in the order of the document.\<close>

definition run_animations :: "svg_state \<Rightarrow> (bool \<times> svg_state) res" where
  "run_animations s = fold_res (\<lambda>(needed, t) a.
       bind_res (update_animation frame_time a t) (\<lambda>(updated, t1). Inr (needed \<or> updated, t1)))
     (False, s) (st_Animations s)"

section \<open>An animated attribute\<close>

text \<open>An animation of an attribute that its parent has, and that is not one of its own.\<close>

definition animates :: "svg_state \<Rightarrow> address \<Rightarrow> address \<Rightarrow> address \<Rightarrow> bool" where
  "animates s a q p \<longleftrightarrow> a < length (st_elements s) \<and> p < length (st_props s) \<and> q \<noteq> a \<and>
     el_parent (st_elements s ! a) = Some q \<and> prop_value (attribute s a ''attributeType'') \<noteq> Str ''CSS'' \<and>
     own_attribute s q (text_value s a ''attributeName'') = Some p \<and> p \<notin> snd ` set (el_attributes (st_elements s ! a))"

definition animated :: "svg_state \<Rightarrow> address \<Rightarrow> address \<Rightarrow> animation \<Rightarrow> jsval \<Rightarrow> svg_state" where
  "animated s a p an v = set_value p v (set_data a (AnimateData an) s)"

named_theorems animated_facts

lemma animated_attribute [animated_facts]:
  assumes "animates s a q p"
  shows "attribute (animated s a p an v) a name = attribute s a name"
proof -
  have own: "own_attribute (animated s a p an v) a name = own_attribute s a name"
    using assms by (simp add: animates_def own_attribute_def animated_def set_value_def set_data_def update_element_def)
  have "i \<noteq> p" if "own_attribute s a name = Some i" for i
    using assms map_of_SomeD [of "el_attributes (st_elements s ! a)" name i] that
    by (force simp: animates_def own_attribute_def)
  then show ?thesis
    using own by (auto simp: attribute_def prop_or_fresh_def animated_def set_value_def set_data_def update_element_def
        split: option.splits)
qed

lemma animated_reads [animated_facts]:
  assumes "animates s a q p"
  shows "text_value (animated s a p an v) a name = text_value s a name"
    and "el_data (st_elements (animated s a p an v) ! a) = AnimateData an"
    and "el_class (st_elements (animated s a p an v) ! a) = el_class (st_elements s ! a)"
    and "prop_value (st_props (animated s a p an v) ! p) = v"
    and "set_value p w (animated s a p an v) = animated s a p an w"
    and "set_data a (AnimateData an') (animated s a p an v) = animated s a p an' v"
    and "getProperty a (animated s a p an v) = Inr (p, animated s a p an v)"
proof -
  have a: "a < length (st_elements s)" "p < length (st_props s)" using assms by (simp_all add: animates_def)
  note defs = animated_def set_value_def set_data_def update_element_def
  show reads: "text_value (animated s a p an v) a name = text_value s a name" for name
    by (simp add: text_value_def animated_attribute [OF assms])
  show "el_data (st_elements (animated s a p an v) ! a) = AnimateData an"
    "el_class (st_elements (animated s a p an v) ! a) = el_class (st_elements s ! a)"
    "prop_value (st_props (animated s a p an v) ! p) = v"
    "set_value p w (animated s a p an v) = animated s a p an w"
    "set_data a (AnimateData an') (animated s a p an v) = animated s a p an' v"
    using a by (simp_all add: defs)
  have "el_parent (st_elements (animated s a p an v) ! a) = Some q" using assms a by (simp add: defs animates_def)
  moreover have "own_attribute (animated s a p an v) q name = own_attribute s q name" for name
    using assms by (simp add: defs own_attribute_def animates_def)
  ultimately show "getProperty a (animated s a p an v) = Inr (p, animated s a p an v)"
    using assms by (simp add: getProperty_def reads animated_attribute [OF assms] attribute_create_def animates_def)
qed

lemma animated_write [animated_facts]:
  "animates s a q p \<Longrightarrow> write_property w a (animated s a p an v) = Inr (animated s a p an w)"
  by (simp add: write_property_def animated_facts)

text \<open>The value to go back to, and the animation as the rest of \<open>update\<close> finds it.\<close>

definition noted :: "animation \<Rightarrow> jsval \<Rightarrow> animation" where
  "noted an v = (if is_nullish (anim_initialValue an) then an\<lparr>anim_initialValue := v\<rparr> else an)"

lemma animated_initial [animated_facts]:
  "animates s a q p \<Longrightarrow> read_initial a an (animated s a p an v) = Inr (noted an v, animated s a p an v)"
  by (simp add: read_initial_def noted_def animated_facts)

definition colours_ok :: "svg_state \<Rightarrow> address \<Rightarrow> bool" where
  "colours_ok s a \<longleftrightarrow> (el_class (st_elements s ! a) = ''animateColor'' \<longrightarrow>
     (\<exists>v w. prop_value (attribute s a ''from'') = Str v \<and> prop_value (attribute s a ''to'') = Str w))"

lemma animated_value: "animates s a q p \<Longrightarrow> colours_ok s a \<Longrightarrow> \<exists>w. new_value (animated s a p an v) a an' = Inr w"
  by (auto simp: new_value_def calcValue_def animated_facts colours_ok_def read_color_def Let_def)

lemma animated_moves:
  fixes an :: animation and delta :: jsnum
  assumes "animates s a q p" "colours_ok s a"
  defines "an1 \<equiv> an\<lparr>anim_duration := js_add (anim_duration an) delta\<rparr>"
  shows "\<exists>b w. move_on delta a an (animated s a p an0 v) = Inr (b, animated s a p an1 w)"
proof (cases "num_lt (anim_begin an1) (anim_duration an1)")
  case True
  obtain w where "new_value (animated s a p an1 v) a an1 = Inr w" using animated_value [OF assms(1,2)] by blast
  then show ?thesis using True assms(1) by (auto simp: move_on_def Let_def an1_def animated_facts)
next
  case False
  then show ?thesis using assms(1) by (auto simp: move_on_def Let_def an1_def animated_facts)
qed

section \<open>An animation ends\<close>

definition removes :: "svg_state \<Rightarrow> address \<Rightarrow> bool" where
  "removes s a \<longleftrightarrow> prop_value (attribute s a ''repeatCount'') \<noteq> Str ''indefinite'' \<and>
     valueOrDefault (attribute s a ''fill'') (Str ''remove'') = Str ''remove''"

lemma animated_update:
  assumes "animates s a q p" "colours_ok s a"
  shows "\<not> past_end (noted an v) \<Longrightarrow> \<exists>b w. update_animation delta a (animated s a p an v) =
      Inr (b, animated s a p ((noted an v)\<lparr>anim_duration := js_add (anim_duration an) delta\<rparr>) w)"
    and "past_end (noted an v) \<Longrightarrow> removes s a \<Longrightarrow> \<not> anim_removed an \<Longrightarrow>
      update_animation delta a (animated s a p an v) =
        Inr (True, animated s a p ((noted an v)\<lparr>anim_removed := True\<rparr>) (anim_initialValue (noted an v)))"
    and "past_end (noted an v) \<Longrightarrow> removes s a \<Longrightarrow> anim_removed an \<Longrightarrow>
      update_animation delta a (animated s a p an v) = Inr (False, animated s a p (noted an v) v)"
proof -
  have d: "anim_duration (noted an v) = anim_duration an" "anim_removed (noted an v) = anim_removed an"
    by (simp_all add: noted_def)
  note facts = animated_attribute [OF assms(1)] animated_reads [OF assms(1)] animated_write [OF assms(1)]
    animated_initial [OF assms(1)]
  show "\<exists>b w. update_animation delta a (animated s a p an v) =
      Inr (b, animated s a p ((noted an v)\<lparr>anim_duration := js_add (anim_duration an) delta\<rparr>) w)" if "\<not> past_end (noted an v)"
    using that animated_moves [OF assms, where an = "noted an v" and delta = delta and an0 = an and v = v] by (simp add: update_animation_def facts d)
  show "update_animation delta a (animated s a p an v) =
        Inr (True, animated s a p ((noted an v)\<lparr>anim_removed := True\<rparr>) (anim_initialValue (noted an v)))"
    if "past_end (noted an v)" "removes s a" "\<not> anim_removed an"
    using that by (simp add: update_animation_def facts d removes_def)
  show "update_animation delta a (animated s a p an v) = Inr (False, animated s a p (noted an v) v)"
    if "past_end (noted an v)" "removes s a" "anim_removed an"
    using that by (simp add: update_animation_def facts d removes_def)
qed

fun frames :: "nat \<Rightarrow> jsnum \<Rightarrow> address \<Rightarrow> svg_state \<Rightarrow> svg_state res" where
  "frames 0 delta a s = Inr s"
| "frames (Suc n) delta a s = bind_res (frames n delta a s) (\<lambda>t. bind_res (update_animation delta a t) (\<lambda>(_, u). Inr u))"

text \<open>After \<open>k\<close> frames an animation is over, or its time is \<open>k\<close> milliseconds at least.\<close>

definition over :: "jsval \<Rightarrow> animation \<Rightarrow> jsval \<Rightarrow> bool" where
  "over v0 an v \<longleftrightarrow> anim_removed an \<and> past_end an \<and> v = v0"

definition running :: "nat \<Rightarrow> animation \<Rightarrow> bool" where
  "running k an \<longleftrightarrow> \<not> anim_removed an \<and> is_finite (anim_duration an) \<and> of_nat k \<le> rat_of (anim_duration an)"

lemma num_lt_rat: "is_finite x \<Longrightarrow> is_finite y \<Longrightarrow> num_lt x y \<longleftrightarrow> rat_of x < rat_of y"
  by (cases x; cases y) (simp_all add: num_lt_def)

lemma rounded_ge_nat:
  assumes "of_nat k \<le> q" "k \<le> 2 ^ 53"
  shows "of_nat k \<le> rounded q"
proof -
  have "rounded (of_int (int k)) = of_int (int k)" using assms(2) by (intro rounded_of_int) simp
  then show ?thesis using rounded_mono [OF assms(1)] by simp
qed

lemma time_goes_on:
  assumes "is_finite t" "is_finite delta" and "of_nat k \<le> rat_of t" "1 \<le> rat_of delta"
    and "rat_of t \<le> 2 ^ 50" "rat_of delta \<le> 2 ^ 50" "k \<le> 2 ^ 50"
  shows "is_finite (js_add t delta) \<and> of_nat (Suc k) \<le> rat_of (js_add t delta)"
proof -
  have "\<bar>rat_of t + rat_of delta\<bar> \<le> 2 ^ 51" using assms by simp
  then have r: "is_finite (js_add t delta) \<and> rat_of (js_add t delta) = rounded (rat_of t + rat_of delta)"
    using js_add_rounded [OF assms(1,2), of 51] by simp
  have "of_nat (Suc k) \<le> rat_of t + rat_of delta" using assms(3,4) by simp
  moreover have "Suc k \<le> 2 ^ 53" using assms(7) by simp
  ultimately have "of_nat (Suc k) \<le> rounded (rat_of t + rat_of delta)" by (rule rounded_ge_nat)
  then show ?thesis using r by simp
qed

lemma frame_invariant:
  assumes "animates s a q p" "colours_ok s a" "removes s a"
    and "is_finite delta" "1 \<le> rat_of delta" "rat_of delta \<le> 2 ^ 50"
    and "is_finite (anim_maxDuration an)" "rat_of (anim_maxDuration an) \<le> 2 ^ 50"
    and v0: "anim_initialValue (noted an v) = v0" "\<not> is_nullish v0" and "k \<le> 2 ^ 50"
    and cs: "over v0 an v \<or> running k an"
  shows "\<exists>b an' w. update_animation delta a (animated s a p an v) = Inr (b, animated s a p an' w) \<and>
    anim_maxDuration an' = anim_maxDuration an \<and> anim_initialValue an' = v0 \<and>
    (over v0 an' w \<or> running (Suc k) an') \<and> (past_end an \<longrightarrow> over v0 an' w)"
proof -
  have d: "anim_duration (noted an v) = anim_duration an" "anim_removed (noted an v) = anim_removed an"
    "anim_maxDuration (noted an v) = anim_maxDuration an" "past_end (noted an v) = past_end an"
    by (simp_all add: noted_def past_end_def)
  consider (ended) "past_end an" "anim_removed an" "v = v0" | (final) "past_end an" "\<not> anim_removed an"
    | (tick) "\<not> past_end an" "running k an"
    using cs by (auto simp: over_def running_def)
  then show ?thesis
  proof cases
    case ended
    have "update_animation delta a (animated s a p an v) = Inr (False, animated s a p (noted an v) v)"
      using animated_update(3) [OF assms(1,2), of an v] assms(3) d ended by simp
    moreover have "over v0 (noted an v) v" using ended d by (simp add: over_def)
    ultimately show ?thesis using d(3) v0 by blast
  next
    case final
    define an' where "an' = (noted an v)\<lparr>anim_removed := True\<rparr>"
    have "update_animation delta a (animated s a p an v) = Inr (True, animated s a p an' v0)"
      using animated_update(2) [OF assms(1,2), of an v] assms(3) d final v0 by (simp add: an'_def)
    moreover have "over v0 an' v0" "anim_maxDuration an' = anim_maxDuration an" "anim_initialValue an' = v0"
      using final d v0 by (simp_all add: over_def an'_def past_end_def)
    ultimately show ?thesis by blast
  next
    case tick
    then have "rat_of (anim_duration an) \<le> 2 ^ 50"
      using assms(7,8) num_lt_rat by (auto simp: past_end_def running_def)
    then have t: "is_finite (js_add (anim_duration an) delta)"
        "of_nat (Suc k) \<le> rat_of (js_add (anim_duration an) delta)"
      using time_goes_on assms(4-6,11) tick(2) by (auto simp: running_def simp del: of_nat_Suc)
    define an' where "an' = (noted an v)\<lparr>anim_duration := js_add (anim_duration an) delta\<rparr>"
    obtain b w where "update_animation delta a (animated s a p an v) = Inr (b, animated s a p an' w)"
      using animated_update(1) [OF assms(1,2), of an v delta] tick(1) d by (auto simp: an'_def)
    moreover have "running (Suc k) an'" "anim_maxDuration an' = anim_maxDuration an" "anim_initialValue an' = v0"
      using t tick d v0 by (simp_all add: running_def an'_def)
    ultimately show ?thesis using tick(1) by blast
  qed
qed

lemma frames_invariant:
  assumes "animates s a q p" "colours_ok s a" "removes s a"
    and "is_finite delta" "1 \<le> rat_of delta" "rat_of delta \<le> 2 ^ 50"
    and "is_finite (anim_maxDuration an)" "rat_of (anim_maxDuration an) \<le> 2 ^ 50"
    and "anim_initialValue (noted an v0) = v0" "\<not> is_nullish v0"
    and "anim_duration an = zero" "\<not> anim_removed an" and "k \<le> 2 ^ 50"
  shows "\<exists>an' v. frames k delta a (animated s a p an v0) = Inr (animated s a p an' v) \<and>
    anim_maxDuration an' = anim_maxDuration an \<and> anim_initialValue (noted an' v) = v0 \<and> (over v0 an' v \<or> running k an')"
  using assms(13)
proof (induction k)
  case 0
  then show ?case using assms by (auto simp: running_def intro!: exI [of _ an])
next
  case (Suc k)
  then obtain an1 v where 1: "frames k delta a (animated s a p an v0) = Inr (animated s a p an1 v)"
      "anim_maxDuration an1 = anim_maxDuration an" "anim_initialValue (noted an1 v) = v0" "over v0 an1 v \<or> running k an1"
    by auto
  obtain b an' w where "update_animation delta a (animated s a p an1 v) = Inr (b, animated s a p an' w)"
      "anim_maxDuration an' = anim_maxDuration an1" "anim_initialValue an' = v0" "over v0 an' w \<or> running (Suc k) an'"
    using frame_invariant [OF assms(1-6) _ _ 1(3) assms(10) _ 1(4)] assms(7,8) 1(2) Suc.prems by auto
  then show ?case using 1 assms(10) by (auto simp: noted_def)
qed

text \<open>
  C22: an animation ends. An animation of an attribute of its parent, with an end, that is not
  repeated and whose fill is remove, runs for any number of frames without throwing; after the
  frames that its length in milliseconds has, and two more, the attribute has the value it had
  before, and every later frame changes nothing and asks for no drawing. Frames are a millisecond
  long at least.
\<close>

theorem animation_ends:
  fixes an :: animation
  assumes "animates s a q p" "colours_ok s a" "removes s a"
    and "is_finite delta" "1 \<le> rat_of delta" "rat_of delta \<le> 2 ^ 50"
    and "is_finite (anim_maxDuration an)" "rat_of (anim_maxDuration an) \<le> of_nat n" "n < 2 ^ 50"
    and "el_data (st_elements s ! a) = AnimateData an" "an = animate_data s a"
    and "prop_value (st_props s ! p) = v0" "\<not> is_nullish v0"
  shows "\<exists>t. frames (n + 2) delta a s = Inr t \<and> prop_value (st_props t ! p) = v0 \<and>
    (\<forall>later. update_animation later a t = Inr (False, t))"
proof -
  have s: "animated s a p an v0 = s"
    using assms(1,10,12)
    by (auto simp: animated_def set_value_def set_data_def update_element_def animates_def list_update_same_conv
        intro!: svg_state.equality)
  have an: "anim_initialValue (noted an v0) = v0" "anim_duration an = zero" "\<not> anim_removed an"
    using assms(11) by (simp_all add: animate_data_def noted_def is_nullish_def Let_def)
  have max: "rat_of (anim_maxDuration an) \<le> 2 ^ 50"
  proof -
    have "(of_nat n :: rat) \<le> of_nat (2 ^ 50)" using assms(9) by (simp only: of_nat_le_iff)
    then show ?thesis using assms(8) by simp
  qed
  have k: "Suc n \<le> 2 ^ 50" using assms(9) by simp
  obtain an1 v where 1: "frames (Suc n) delta a s = Inr (animated s a p an1 v)"
      "anim_maxDuration an1 = anim_maxDuration an" "anim_initialValue (noted an1 v) = v0" "over v0 an1 v \<or> running (Suc n) an1"
    using frames_invariant [OF assms(1-7) max an(1) assms(13) an(2,3) k] unfolding s by blast
  have "of_nat n < (of_nat (Suc n) :: rat)" by simp
  then have "past_end an1"
    using 1 assms(7,8) num_lt_rat by (auto simp: past_end_def over_def running_def)
  then obtain b an2 w where 2: "update_animation delta a (animated s a p an1 v) = Inr (b, animated s a p an2 w)"
      "anim_initialValue an2 = v0" "over v0 an2 w"
    using frame_invariant [OF assms(1-6) _ _ 1(3) assms(13) k 1(4)] 1(2) assms(7) max by auto
  have "noted an2 w = an2" using 2(2) assms(13) by (simp add: noted_def)
  then have "update_animation later a (animated s a p an2 w) = Inr (False, animated s a p an2 w)" for later
    using animated_update(3) [OF assms(1,2), of an2 w later] 2(3) assms(3) by (simp add: over_def)
  moreover have "frames (n + 2) delta a s = Inr (animated s a p an2 w)" using 1(1) 2(1) by simp
  moreover have "prop_value (st_props (animated s a p an2 w) ! p) = v0"
    using animated_reads(4) [OF assms(1)] 2(3) by (simp add: over_def)
  ultimately show ?thesis by blast
qed

lemma frame_time_bounds: "is_finite frame_time \<and> 33 \<le> rat_of frame_time \<and> rat_of frame_time \<le> 34"
proof -
  have "rounded (of_int 33) = of_int 33" "rounded (of_int 34) = of_int 34" by (intro rounded_of_int; simp)+
  then have "33 \<le> rounded (1000 / 30) \<and> rounded (1000 / 30) \<le> 34"
    using rounded_between [of 33 34 "1000 / 30"] by simp
  then show ?thesis using js_div_rounded [of "num_of_int 1000" "num_of_int 30" 10] by (simp add: frame_time_def FRAMERATE_def)
qed

text \<open>A rectangle whose x runs from 0 to 10 within five milliseconds.\<close>

definition sample_animation :: svg_state where
  "sample_animation = \<lparr>
     st_props = [\<lparr>prop_name = ''x'', prop_value = Str ''3''\<rparr>, \<lparr>prop_name = ''attributeName'', prop_value = Str ''x''\<rparr>,
       \<lparr>prop_name = ''from'', prop_value = Str ''0''\<rparr>, \<lparr>prop_name = ''to'', prop_value = Str ''10''\<rparr>,
       \<lparr>prop_name = ''dur'', prop_value = Str ''5''\<rparr>],
     st_elements =
       [(blank_element ''rect'')\<lparr>el_attributes := [(''x'', 0)], el_children := [1]\<rparr>,
        (blank_element ''animate'')\<lparr>el_parent := Some 0,
          el_attributes := [(''attributeName'', 1), (''from'', 2), (''to'', 3), (''dur'', 4)],
          el_data := AnimateData \<lparr>anim_duration = zero, anim_begin = zero, anim_maxDuration = num_of_int 5,
            anim_initialValue = Null, anim_removed = False\<rparr>\<rparr>],
     st_Definitions = [], st_Styles = [], st_Animations = [1], st_Images = [], st_log = []\<rparr>"

lemma sample_animation_attribute:
  "attribute sample_animation (Suc 0) ''attributeName'' = \<lparr>prop_name = ''attributeName'', prop_value = Str ''x''\<rparr>"
  "attribute sample_animation (Suc 0) ''dur'' = \<lparr>prop_name = ''dur'', prop_value = Str ''5''\<rparr>"
  "name \<notin> {''attributeName'', ''from'', ''to'', ''dur''} \<Longrightarrow> attribute sample_animation (Suc 0) name = fresh_prop name"
  by (auto simp: attribute_def own_attribute_def prop_or_fresh_def sample_animation_def blank_element_def)

lemma sample_times:
  "toMilliseconds \<lparr>prop_name = ''dur'', prop_value = Str ''5''\<rparr> = num_of_int 5"
  "toMilliseconds (fresh_prop ''begin'') = zero"
proof -
  have "nat_digits 10 5 = ''5''" "suffix ''s'' ''5'' = False" "suffix ''ms'' ''5'' = False" "suffix ''%'' ''5'' = False"
    by code_simp+
  then show "toMilliseconds \<lparr>prop_name = ''dur'', prop_value = Str ''5''\<rparr> = num_of_int 5"
    using read_nat_digits(1) [of 5] by (simp add: toMilliseconds_def numValue_def hasValue_def is_nullish_def Let_def)
  show "toMilliseconds (fresh_prop ''begin'') = zero" by (simp add: toMilliseconds_def fresh_prop_def hasValue_def)
qed

theorem animation_ends_witness:
  "\<exists>t. frames 7 frame_time 1 sample_animation = Inr t \<and> prop_value (st_props t ! 0) = Str ''3''"
proof -
  define an where "an = \<lparr>anim_duration = zero, anim_begin = zero, anim_maxDuration = num_of_int 5,
      anim_initialValue = Null, anim_removed = False\<rparr>"
  have "text_value sample_animation 1 ''attributeName'' = ''x''"
    "prop_value (attribute sample_animation 1 ''attributeType'') = Str ''''"
    by (simp_all add: text_value_def sample_animation_attribute fresh_prop_def)
  then have "animates sample_animation 1 0 0"
    unfolding animates_def by (simp add: sample_animation_def own_attribute_def blank_element_def)
  moreover have "colours_ok sample_animation 1" by (simp add: colours_ok_def sample_animation_def blank_element_def)
  moreover have "removes sample_animation 1"
    by (simp add: removes_def sample_animation_attribute fresh_prop_def valueOrDefault_def hasValue_def)
  moreover have "is_finite frame_time" "1 \<le> rat_of frame_time" "rat_of frame_time \<le> 2 ^ 50"
    using frame_time_bounds by auto
  moreover have "is_finite (anim_maxDuration an)" "rat_of (anim_maxDuration an) \<le> of_nat 5" by (simp_all add: an_def)
  moreover have "el_data (st_elements sample_animation ! 1) = AnimateData an"
    by (simp add: sample_animation_def an_def)
  moreover have "an = animate_data sample_animation 1"
    using js_add_int [of 0 5] by (simp add: an_def animate_data_def sample_animation_attribute sample_times Let_def)
  moreover have "prop_value (st_props sample_animation ! 0) = Str ''3''" by (simp add: sample_animation_def)
  ultimately have "\<exists>t. frames (5 + 2) frame_time 1 sample_animation = Inr t \<and> prop_value (st_props t ! 0) = Str ''3'' \<and>
      (\<forall>later. update_animation later 1 t = Inr (False, t))"
    by (intro animation_ends) (simp_all add: is_nullish_def)
  then show ?thesis by auto
qed

section \<open>Animating a shared style\<close>

text \<open>
  In the document with two rectangles under one rule, a CSS animation of the fill of one writes
  into the property object of the rule, and the other rectangle changes with it.
\<close>

lemma shared_style_animated:
  "style_create 2 ''fill'' sample_state = (0, sample_state) \<and>
   style (set_value 0 (Str v) sample_state) 3 ''fill'' = \<lparr>prop_name = ''fill'', prop_value = Str v\<rparr>"
  by (simp add: style_create_def style_def style_at.simps prop_or_fresh_def sample_state_def sample_rect_def set_value_def
      eval_nat_numeral)

end
