(* ===== verification/Canvg_Canvas.thy ===== *)
theory Canvg_Canvas
  imports Canvg_Animation
begin

text \<open>
  What canvg draws on, modules/canvas-tools.src.js: canvases with their drawing state and the
  states that \<open>save\<close> has put aside, the mouse events that wait for the next frame, and the outline
  and the box of an element. The platform decides what a canvas does with a font or a colour it
  is given, how wide a text is and whether a point is in the current path; these are parameters.
\<close>

section \<open>Canvases\<close>

datatype paint =
    Color jsval
  | LinearGradient jsnum jsnum jsnum jsnum "(jsnum \<times> jsval) list"
  | RadialGradient jsnum jsnum jsnum jsnum jsnum jsnum "(jsnum \<times> jsval) list"
  | CanvasPattern nat string

datatype draw_op =
    Op canvas_op
  | SetFill paint
  | SetStroke paint
  | FillRect jsnum jsnum jsnum jsnum
  | DrawCanvas nat "jsnum list"
  | BlurImage jsnum jsnum jsnum

record drawing =
  dr_font :: string
  dr_lineWidth :: jsnum
  dr_fill :: paint
  dr_stroke :: paint

record canvas =
  cv_now :: drawing
  cv_saved :: "drawing list"
  cv_log :: "draw_op list"
  cv_width :: jsnum
  cv_height :: jsnum

text \<open>
  The platform: the value a canvas reads back after a font, a line width or a paint has been
  assigned to it (the first argument is the value before), the drawing state of a new canvas,
  the points in the path drawn so far, the width of a text, the size of an image, and the stops a
  gradient takes.
\<close>

record platform =
  pf_math :: math_fns
  pf_font :: "string \<Rightarrow> string \<Rightarrow> string"
  pf_lineWidth :: "jsnum \<Rightarrow> jsnum \<Rightarrow> jsnum"
  pf_paint :: "paint \<Rightarrow> paint \<Rightarrow> paint"
  pf_fresh :: drawing
  pf_inPath :: "draw_op list \<Rightarrow> jsnum \<Rightarrow> jsnum \<Rightarrow> bool"
  pf_measure :: "string \<Rightarrow> string \<Rightarrow> jsnum"
  pf_image :: "address \<Rightarrow> jsnum \<times> jsnum"
  pf_stop :: "jsnum \<times> jsval \<Rightarrow> bool"

section \<open>The scene\<close>

text \<open>A mouse event that waits for the next frame, and the elements hit so far.\<close>

datatype mouse_kind = Click | Move

record mouse_event =
  ev_kind :: mouse_kind
  ev_x :: jsnum
  ev_y :: jsnum

record scene =
  sc_svg :: svg_state
  sc_views :: view_ports
  sc_canvases :: "canvas list"
  sc_texts :: "(address \<times> point) list"
  sc_events :: "mouse_event list"
  sc_hits :: "(nat \<times> address) list"

text \<open>Lengths depend on the font of the first canvas, \<open>svg.ctx\<close>, and on the view ports.\<close>

definition scene_units :: "scene \<Rightarrow> units" where
  "scene_units sc = \<lparr>ctx_font = dr_font (cv_now (sc_canvases sc ! 0)), viewPorts = sc_views sc\<rparr>"

definition update_canvas :: "nat \<Rightarrow> (canvas \<Rightarrow> canvas) \<Rightarrow> scene \<Rightarrow> scene" where
  "update_canvas c f sc = sc\<lparr>sc_canvases := (sc_canvases sc)[c := f (sc_canvases sc ! c)]\<rparr>"

definition emit :: "nat \<Rightarrow> draw_op list \<Rightarrow> scene \<Rightarrow> scene" where
  "emit c ops = update_canvas c (\<lambda>cv. cv\<lparr>cv_log := cv_log cv @ ops\<rparr>)"

definition emit_ops :: "nat \<Rightarrow> canvas_op list \<Rightarrow> scene \<Rightarrow> scene" where
  "emit_ops c ops = emit c (map Op ops)"

definition set_drawing :: "nat \<Rightarrow> (drawing \<Rightarrow> drawing) \<Rightarrow> scene \<Rightarrow> scene" where
  "set_drawing c f = update_canvas c (\<lambda>cv. cv\<lparr>cv_now := f (cv_now cv)\<rparr>)"

definition now :: "nat \<Rightarrow> scene \<Rightarrow> drawing" where
  "now c sc = cv_now (sc_canvases sc ! c)"

definition canvas_save :: "nat \<Rightarrow> scene \<Rightarrow> scene" where
  "canvas_save c sc = update_canvas c (\<lambda>cv. cv\<lparr>cv_saved := cv_now cv # cv_saved cv\<rparr>) (emit_ops c [Save] sc)"

text \<open>\<open>restore\<close> with nothing saved does nothing.\<close>

definition canvas_restore :: "nat \<Rightarrow> scene \<Rightarrow> scene" where
  "canvas_restore c sc = update_canvas c (\<lambda>cv. case cv_saved cv of [] \<Rightarrow> cv
       | d # ds \<Rightarrow> cv\<lparr>cv_now := d, cv_saved := ds\<rparr>) (emit_ops c [Restore] sc)"

definition assign_fill :: "platform \<Rightarrow> nat \<Rightarrow> paint \<Rightarrow> scene \<Rightarrow> scene" where
  "assign_fill pf c p sc = set_drawing c (\<lambda>d. d\<lparr>dr_fill := pf_paint pf (dr_fill d) p\<rparr>) (emit c [SetFill p] sc)"

definition assign_stroke :: "platform \<Rightarrow> nat \<Rightarrow> paint \<Rightarrow> scene \<Rightarrow> scene" where
  "assign_stroke pf c p sc = set_drawing c (\<lambda>d. d\<lparr>dr_stroke := pf_paint pf (dr_stroke d) p\<rparr>) (emit c [SetStroke p] sc)"

definition assign_lineWidth :: "platform \<Rightarrow> nat \<Rightarrow> jsnum \<Rightarrow> scene \<Rightarrow> scene" where
  "assign_lineWidth pf c w sc = set_drawing c (\<lambda>d. d\<lparr>dr_lineWidth := pf_lineWidth pf (dr_lineWidth d) w\<rparr>)
     (emit_ops c [SetStyle ''lineWidth'' (Num w)] sc)"

definition assign_font :: "platform \<Rightarrow> nat \<Rightarrow> string \<Rightarrow> scene \<Rightarrow> scene" where
  "assign_font pf c f sc = set_drawing c (\<lambda>d. d\<lparr>dr_font := pf_font pf (dr_font d) f\<rparr>)
     (emit_ops c [SetStyle ''font'' (Str f)] sc)"

text \<open>\<open>document.createElement('canvas')\<close> with its width and height.\<close>

definition new_canvas :: "platform \<Rightarrow> jsnum \<Rightarrow> jsnum \<Rightarrow> scene \<Rightarrow> nat \<times> scene" where
  "new_canvas pf w h sc = (length (sc_canvases sc),
     sc\<lparr>sc_canvases := sc_canvases sc @ [\<lparr>cv_now = pf_fresh pf, cv_saved = [], cv_log = [], cv_width = w, cv_height = h\<rparr>]\<rparr>)"

section \<open>Elements as the drawing reads them\<close>

definition element :: "scene \<Rightarrow> address \<Rightarrow> svg_element" where
  "element sc a = (if a < length (st_elements (sc_svg sc)) then st_elements (sc_svg sc) ! a else blank_element '''')"

definition attr :: "scene \<Rightarrow> address \<Rightarrow> attributes" where
  "attr sc a = attribute (sc_svg sc) a"

definition style_of :: "scene \<Rightarrow> address \<Rightarrow> string \<Rightarrow> property" where
  "style_of sc a = style (sc_svg sc) a"

definition on_svg :: "(svg_state \<Rightarrow> svg_state) \<Rightarrow> scene \<Rightarrow> scene" where
  "on_svg f sc = sc\<lparr>sc_svg := f (sc_svg sc)\<rparr>"

definition pixels :: "platform \<Rightarrow> jsval \<Rightarrow> property \<Rightarrow> scene \<Rightarrow> jsnum res" where
  "pixels pf view p sc = toPixels (pf_math pf) (scene_units sc) view p"

definition attr_x :: "platform \<Rightarrow> address \<Rightarrow> string \<Rightarrow> scene \<Rightarrow> jsnum res" where
  "attr_x pf a name sc = pixels pf (Str ''x'') (attr sc a name) sc"

definition attr_y :: "platform \<Rightarrow> address \<Rightarrow> string \<Rightarrow> scene \<Rightarrow> jsnum res" where
  "attr_y pf a name sc = pixels pf (Str ''y'') (attr sc a name) sc"

text \<open>Reading a value that has to be a text.\<close>

definition value_text :: "property \<Rightarrow> string res" where
  "value_text p = (case prop_value p of Str v \<Rightarrow> Inr v | _ \<Rightarrow> Inl TypeError)"

definition is_url :: "property \<Rightarrow> bool res" where
  "is_url p = bind_res (value_text p) (\<lambda>v. Inr (isUrl v))"

definition definition_of :: "scene \<Rightarrow> property \<Rightarrow> address option res" where
  "definition_of sc p = getDefinition (sc_svg sc) p"

text \<open>The two ends of a text, \<open>x\<close> and \<open>y\<close>, that its parent sets before drawing it.\<close>

definition text_at :: "scene \<Rightarrow> address \<Rightarrow> point" where
  "text_at sc a = (case map_of (sc_texts sc) a of Some p \<Rightarrow> p | None \<Rightarrow> (NaN, NaN))"

definition put_text :: "address \<Rightarrow> point \<Rightarrow> scene \<Rightarrow> scene" where
  "put_text a p sc = sc\<lparr>sc_texts := (a, p) # sc_texts sc\<rparr>"

text \<open>An element made while drawing, with its attributes and its children.\<close>

definition temp_element :: "string \<Rightarrow> (string \<times> jsval) list \<Rightarrow> address list \<Rightarrow> scene \<Rightarrow> address \<times> scene" where
  "temp_element cls attrs kids sc =
     (let (e, s0) = new_element (blank_element cls) (sc_svg sc);
          s1 = foldl (\<lambda>t (name, v). let (p, t1) = new_prop name v t in update_element e (put_attribute name p) t1) s0 attrs in
      (e, sc\<lparr>sc_svg := update_element e (\<lambda>x. x\<lparr>el_children := kids\<rparr>) s1\<rparr>))"

section \<open>The classes\<close>

definition outline_classes :: "string list" where
  "outline_classes = [''rect'', ''circle'', ''ellipse'', ''line'', ''polyline'', ''polygon'', ''path'',
     ''missingglyph'', ''glyph'', ''PathElementBase'']"

definition text_classes :: "string list" where
  "text_classes = [''tspan'', ''tref'', ''a'', ''TextElementBase'']"

definition rendered_classes :: "string list" where
  "rendered_classes = outline_classes @ text_classes @
     [''svg'', ''text'', ''image'', ''g'', ''symbol'', ''use'', ''RenderedElementBase'']"

definition gradient_classes :: "string list" where
  "gradient_classes = [''linearGradient'', ''radialGradient'', ''GradientBase'']"

definition class_of :: "scene \<Rightarrow> address \<Rightarrow> string" where
  "class_of sc a = el_class (element sc a)"

section \<open>Outlines and boxes\<close>

definition read_path :: "platform \<Rightarrow> string list \<Rightarrow> path_state" where
  "read_path pf tokens = path_loop (pf_math pf) (path_reset tokens)"

definition path_outline :: "path_state \<Rightarrow> outline" where
  "path_outline st = (pp_ops st, pp_box st)"

definition outline_of :: "platform \<Rightarrow> address \<Rightarrow> scene \<Rightarrow> outline res" where
  "outline_of pf a sc =
     (let cls = class_of sc a; fns = pf_math pf; u = scene_units sc in
      if cls = ''rect'' then rect_path fns u (attr sc a)
      else if cls = ''circle'' then circle_path fns u (attr sc a)
      else if cls = ''ellipse'' then ellipse_path fns u (attr sc a)
      else if cls = ''line'' then line_path fns u (attr sc a)
      else (case el_data (element sc a) of
          PointsData ps \<Rightarrow> Inr (if cls = ''polygon'' then polygon_path ps else polyline_path ps)
        | PathData tokens \<Rightarrow> Inr (path_outline (read_path pf tokens))
        | GlyphData tokens _ _ _ \<Rightarrow> Inr (path_outline (read_path pf tokens))
        | _ \<Rightarrow> Inr ([BeginPath], no_box)))"

text \<open>The points that get markers; shapes without any have none.\<close>

definition markers_of :: "platform \<Rightarrow> address \<Rightarrow> scene \<Rightarrow> (point \<times> jsnum option) list option res" where
  "markers_of pf a sc =
     (if class_of sc a = ''line'' then bind_res (line_getMarkers (pf_math pf) (scene_units sc) (attr sc a)) (\<lambda>ms. Inr (Some ms))
      else (case el_data (element sc a) of
          PointsData ps \<Rightarrow> bind_res (polyline_getMarkers (pf_math pf) ps) (\<lambda>ms. Inr (Some ms))
        | PathData tokens \<Rightarrow> Inr (Some (path_getMarkers (read_path pf tokens)))
        | GlyphData tokens _ _ _ \<Rightarrow> Inr (Some (path_getMarkers (read_path pf tokens)))
        | _ \<Rightarrow> Inr None))"

text \<open>
  \<open>getBoundingBox\<close>: of an outline its box, of a group the box around those of its children; other
  elements have no such method. The first argument is the depth of the stack.
\<close>

fun getBoundingBox :: "nat \<Rightarrow> platform \<Rightarrow> address \<Rightarrow> scene \<Rightarrow> bounding_box res" where
  "getBoundingBox 0 pf a sc = Inl RangeError"
| "getBoundingBox (Suc n) pf a sc =
     (if class_of sc a \<in> set outline_classes then bind_res (outline_of pf a sc) (\<lambda>(_, bb). Inr bb)
      else if class_of sc a = ''g'' then
        fold_res (\<lambda>bb child. bind_res (getBoundingBox n pf child sc) (\<lambda>b. Inr (addBoundingBox b bb))) no_box
          (el_children (element sc a))
      else Inl TypeError)"

section \<open>The mouse\<close>

definition mouse_event_at :: "mouse_kind \<Rightarrow> jsnum \<Rightarrow> jsnum \<Rightarrow> scene \<Rightarrow> scene" where
  "mouse_event_at k x y sc = sc\<lparr>sc_events := sc_events sc @ [\<lparr>ev_kind = k, ev_x = x, ev_y = y\<rparr>]\<rparr>"

definition mouse_onclick :: "jsnum \<Rightarrow> jsnum \<Rightarrow> scene \<Rightarrow> scene" where
  "mouse_onclick = mouse_event_at Click"

definition mouse_onmousemove :: "jsnum \<Rightarrow> jsnum \<Rightarrow> scene \<Rightarrow> scene" where
  "mouse_onmousemove = mouse_event_at Move"

definition hasEvents :: "scene \<Rightarrow> bool" where
  "hasEvents sc \<longleftrightarrow> sc_events sc \<noteq> []"

text \<open>The element that an event hits is the last one drawn under it.\<close>

definition record_hits :: "(mouse_event \<Rightarrow> bool) \<Rightarrow> address \<Rightarrow> scene \<Rightarrow> scene" where
  "record_hits hit a sc = sc\<lparr>sc_hits :=
     map (\<lambda>i. (i, a)) (filter (\<lambda>i. hit (sc_events sc ! i)) [0..<length (sc_events sc)]) @ sc_hits sc\<rparr>"

definition checkPath :: "platform \<Rightarrow> address \<Rightarrow> nat \<Rightarrow> scene \<Rightarrow> scene" where
  "checkPath pf a c sc = record_hits (\<lambda>e. pf_inPath pf (cv_log (sc_canvases sc ! c)) (ev_x e) (ev_y e)) a sc"

definition checkBoundingBox :: "bounding_box \<Rightarrow> address \<Rightarrow> scene \<Rightarrow> scene" where
  "checkBoundingBox bb a sc = record_hits (\<lambda>e. isPointInBox bb (ev_x e, ev_y e)) a sc"

text \<open>What the handlers of a link do: they open its target, or change the cursor.\<close>

datatype page_effect = Cursor string | OpenWindow jsval

definition handler :: "svg_state \<Rightarrow> mouse_kind \<Rightarrow> address \<Rightarrow> page_effect list" where
  "handler s k a = (if el_class (st_elements s ! a) = ''a''
     then (case k of Click \<Rightarrow> [OpenWindow (prop_value (attribute s a ''xlink:href''))] | Move \<Rightarrow> [Cursor ''pointer''])
     else [])"

text \<open>An event runs on the element and then on its ancestors, which are older than it.\<close>

function bubble :: "svg_state \<Rightarrow> mouse_kind \<Rightarrow> address \<Rightarrow> page_effect list" where
  "bubble s k a = handler s k a @ (case el_parent (st_elements s ! a) of
     None \<Rightarrow> [] | Some q \<Rightarrow> if q < a then bubble s k q else [])"
  by pat_completeness auto
termination by (relation "measure (\<lambda>(s, k, a). a)") auto

declare bubble.simps [simp del]

definition run_event :: "scene \<Rightarrow> nat \<Rightarrow> page_effect list" where
  "run_event sc i = (case map_of (sc_hits sc) i of None \<Rightarrow> []
     | Some a \<Rightarrow> bubble (sc_svg sc) (ev_kind (sc_events sc ! i)) a)"

definition runEvents :: "scene \<Rightarrow> page_effect list \<times> scene" where
  "runEvents sc = (Cursor '''' # concat (map (run_event sc) [0..<length (sc_events sc)]),
     sc\<lparr>sc_events := [], sc_hits := []\<rparr>)"

end
