(* ===== verification/Canvg_Context.thy ===== *)
theory Canvg_Context
  imports Canvg_Canvas
begin

text \<open>
  The state that an element gives the canvas before it is drawn, in modules/canvas-tools.src.js:
  fill, stroke, font, transformation, clip and opacity, gradients and patterns, and the view
  ports of svg and symbol elements. Drawing an element while another gets its paint or its clip
  is the parameter \<open>r\<close>: it draws the element at an address on a canvas, a marker with its point
  and angle, and the theory Canvg_Render closes the recursion.
\<close>

type_synonym renderer_fn = "address \<Rightarrow> nat \<Rightarrow> (point \<times> jsnum option) option \<Rightarrow> scene \<Rightarrow> scene res"

section \<open>Drawing an outline\<close>

text \<open>\<open>use.getDefinition\<close> writes the size of the use element into the element it shows.\<close>

definition copy_size :: "address \<Rightarrow> string \<Rightarrow> address option \<Rightarrow> scene \<Rightarrow> scene res" where
  "copy_size a name target sc = (if \<not> hasValue (attr sc a name) then Inr sc
     else (case target of None \<Rightarrow> Inl TypeError
       | Some e \<Rightarrow> Inr (on_svg (\<lambda>s. let (p, t) = attribute_create e name s in
           set_value p (prop_value (attribute s a name)) t) sc)))"

definition use_getDefinition :: "address \<Rightarrow> scene \<Rightarrow> (address option \<times> scene) res" where
  "use_getDefinition a sc = bind_res (definition_of sc (attr sc a ''xlink:href'')) (\<lambda>target.
     bind_res (copy_size a ''width'' target sc) (\<lambda>sc1.
     bind_res (copy_size a ''height'' target sc1) (\<lambda>sc2. Inr (target, sc2))))"

definition has_path :: "scene \<Rightarrow> address \<Rightarrow> bool" where
  "has_path sc a \<longleftrightarrow> class_of sc a \<in> set (''use'' # outline_classes)"

text \<open>\<open>path(ctx)\<close>; a use element draws the outline of what it shows. The number is the depth of the stack.\<close>

fun draw_path :: "nat \<Rightarrow> platform \<Rightarrow> address \<Rightarrow> nat \<Rightarrow> scene \<Rightarrow> scene res" where
  "draw_path 0 pf a c sc = Inl RangeError"
| "draw_path (Suc n) pf a c sc =
     (if class_of sc a = ''use'' then
        bind_res (use_getDefinition a sc) (\<lambda>(target, sc1).
          case target of None \<Rightarrow> Inr sc1
          | Some e \<Rightarrow> if has_path sc1 e then draw_path n pf e c sc1 else Inl TypeError)
      else bind_res (outline_of pf a sc) (\<lambda>(ops, _). Inr (emit_ops c ops sc)))"

definition when_some :: "('p \<Rightarrow> scene \<Rightarrow> scene) \<Rightarrow> 'p option \<times> scene \<Rightarrow> scene" where
  "when_some f ps = (case ps of (None, sc) \<Rightarrow> sc | (Some p, sc) \<Rightarrow> f p sc)"

section \<open>Gradients and patterns\<close>

text \<open>A length of a gradient: a share of the box of the element, or a length of its own.\<close>

definition share_or_pixels ::
  "platform \<Rightarrow> bool \<Rightarrow> jsnum \<Rightarrow> jsnum \<Rightarrow> jsval \<Rightarrow> property \<Rightarrow> scene \<Rightarrow> jsnum res" where
  "share_or_pixels pf shares start len view p sc =
     (if shares then Inr (js_add start (js_mul len (numValue p))) else pixels pf view p sc)"

text \<open>The canvas takes finite coordinates only.\<close>

definition finite_all :: "jsnum list \<Rightarrow> bool" where
  "finite_all xs \<longleftrightarrow> list_all is_finite xs"

definition linear_getGradient :: "platform \<Rightarrow> bool \<Rightarrow> address \<Rightarrow> bounding_box \<Rightarrow> scene \<Rightarrow> paint res" where
  "linear_getGradient pf shares g bb sc =
     (let across = (\<lambda>name. share_or_pixels pf shares (box_x1 bb) (box_width bb) (Str ''x'') (attr sc g name) sc);
          down = (\<lambda>name. share_or_pixels pf shares (box_y1 bb) (box_height bb) (Str ''y'') (attr sc g name) sc) in
      bind_res (across ''x1'') (\<lambda>x1. bind_res (down ''y1'') (\<lambda>y1.
      bind_res (across ''x2'') (\<lambda>x2. bind_res (down ''y2'') (\<lambda>y2.
        if finite_all [x1, y1, x2, y2] then Inr (LinearGradient x1 y1 x2 y2 []) else Inl TypeError)))))"

definition radial_getGradient :: "platform \<Rightarrow> bool \<Rightarrow> address \<Rightarrow> bounding_box \<Rightarrow> scene \<Rightarrow> paint res" where
  "radial_getGradient pf shares g bb sc =
     (let across = (\<lambda>name. share_or_pixels pf shares (box_x1 bb) (box_width bb) (Str ''x'') (attr sc g name) sc);
          down = (\<lambda>name. share_or_pixels pf shares (box_y1 bb) (box_height bb) (Str ''y'') (attr sc g name) sc);
          mean = js_div (js_add (box_width bb) (box_height bb)) (num_of_int 2) in
      bind_res (across ''cx'') (\<lambda>cx. bind_res (down ''cy'') (\<lambda>cy.
      bind_res (if hasValue (attr sc g ''fx'') then across ''fx'' else Inr cx) (\<lambda>fx.
      bind_res (if hasValue (attr sc g ''fy'') then down ''fy'' else Inr cy) (\<lambda>fy.
      bind_res (if shares then Inr (js_mul mean (numValue (attr sc g ''r'')))
          else pixels pf Undefined (attr sc g ''r'') sc) (\<lambda>r.
        if finite_all [fx, fy, cx, cy, r] then Inr (RadialGradient fx fy zero cx cy r []) else Inl TypeError))))))"

text \<open>The offset and colour of a stop; a child that is no stop has neither.\<close>

definition stop_of :: "scene \<Rightarrow> address \<Rightarrow> jsnum \<times> jsval" where
  "stop_of sc a = (case el_data (element sc a) of StopData offset color \<Rightarrow> (offset, color) | _ \<Rightarrow> (NaN, Undefined))"

definition stops_of :: "scene \<Rightarrow> address option \<Rightarrow> (jsnum \<times> jsval) list res" where
  "stops_of sc container = (case container of None \<Rightarrow> Inl TypeError
     | Some k \<Rightarrow> (case el_data (element sc k) of
         GradientData _ stops \<Rightarrow> Inr (map (stop_of sc) stops) | _ \<Rightarrow> Inl TypeError))"

definition add_stops :: "platform \<Rightarrow> (jsnum \<times> jsval) list \<Rightarrow> paint \<Rightarrow> paint res" where
  "add_stops pf stops g = (if \<not> list_all (pf_stop pf) stops then Inl TypeError
     else (case g of
         LinearGradient x1 y1 x2 y2 _ \<Rightarrow> Inr (LinearGradient x1 y1 x2 y2 stops)
       | RadialGradient fx fy r0 cx cy r _ \<Rightarrow> Inr (RadialGradient fx fy r0 cx cy r stops)
       | _ \<Rightarrow> Inl TypeError))"

definition MAX_VIRTUAL_PIXELS :: jsnum where
  "MAX_VIRTUAL_PIXELS = num_of_int 30000"

text \<open>A gradient with a transformation is drawn on a canvas of its own, which becomes a pattern.\<close>

definition transformed_gradient ::
  "platform \<Rightarrow> renderer_fn \<Rightarrow> address \<Rightarrow> paint option \<Rightarrow> scene \<Rightarrow> (paint \<times> scene) res" where
  "transformed_gradient pf r g p sc = (case sc_views sc of [] \<Rightarrow> Inl TypeError
     | port # _ \<Rightarrow>
       (let corner = Num (js_div (js_neg MAX_VIRTUAL_PIXELS) (num_of_int 3)); far = Num MAX_VIRTUAL_PIXELS;
            (rect, sc1) = temp_element ''rect'' [(''x'', corner), (''y'', corner), (''width'', far), (''height'', far)] [] sc;
            (group, sc2) = temp_element ''g'' [(''transform'', prop_value (attr sc g ''gradientTransform''))] [rect] sc1;
            (e, sc3) = temp_element ''svg'' [(''x'', Num zero), (''y'', Num zero), (''width'', Num (fst port)),
              (''height'', Num (snd port))] [group] sc2;
            (k, sc4) = new_canvas pf (fst port) (snd port) sc3 in
        bind_res (r e k None (when_some (assign_fill pf k) (p, sc4))) (\<lambda>sc5. Inr (CanvasPattern k ''no-repeat'', sc5))))"

text \<open>The base class of gradients makes none, and has nothing to add stops to.\<close>

definition getGradient :: "nat \<Rightarrow> platform \<Rightarrow> address \<Rightarrow> address \<Rightarrow> scene \<Rightarrow> paint option res" where
  "getGradient n pf g a sc =
     (let shares = (case el_data (element sc g) of GradientData gu _ \<Rightarrow> gu = Str ''objectBoundingBox'' | _ \<Rightarrow> False) in
      if class_of sc g = ''GradientBase'' then Inr None
      else bind_res (getBoundingBox n pf a sc) (\<lambda>bb.
        bind_res ((if class_of sc g = ''linearGradient'' then linear_getGradient else radial_getGradient) pf shares g bb sc)
          (\<lambda>p. Inr (Some p))))"

definition createGradient ::
  "nat \<Rightarrow> platform \<Rightarrow> renderer_fn \<Rightarrow> address \<Rightarrow> address \<Rightarrow> scene \<Rightarrow> (paint option \<times> scene) res" where
  "createGradient n pf r g a sc =
     bind_res (if hasValue (attr sc g ''xlink:href'') then definition_of sc (attr sc g ''xlink:href'') else Inr (Some g)) (\<lambda>container.
     bind_res (getGradient n pf g a sc) (\<lambda>p0.
     bind_res (stops_of sc container) (\<lambda>stops.
     bind_res (case p0 of Some q \<Rightarrow> bind_res (add_stops pf stops q) (\<lambda>p. Inr (Some p))
         | None \<Rightarrow> if stops = [] then Inr None else Inl TypeError) (\<lambda>p.
       if hasValue (attr sc g ''gradientTransform'')
       then bind_res (transformed_gradient pf r g p sc) (\<lambda>(q, sc1). Inr (Some q, sc1)) else Inr (p, sc)))))"

definition createPattern :: "platform \<Rightarrow> renderer_fn \<Rightarrow> address \<Rightarrow> scene \<Rightarrow> (paint \<times> scene) res" where
  "createPattern pf r g sc =
     (let value = (\<lambda>name. (name, prop_value (attr sc g name)));
          (e, sc1) = temp_element ''svg'' (map value [''viewBox'', ''x'', ''y'', ''width'', ''height'']) (el_children (element sc g)) sc in
      bind_res (attr_x pf g ''width'' sc1) (\<lambda>w. bind_res (attr_y pf g ''height'' sc1) (\<lambda>h.
        let (k, sc2) = new_canvas pf w h sc1 in
        bind_res (r e k None sc2) (\<lambda>sc3. Inr (CanvasPattern k ''repeat'', sc3)))))"

definition getFillStyle :: "nat \<Rightarrow> platform \<Rightarrow> renderer_fn \<Rightarrow> property \<Rightarrow> address \<Rightarrow> scene \<Rightarrow> (paint option \<times> scene) res" where
  "getFillStyle n pf r p a sc = bind_res (definition_of sc p) (\<lambda>def. case def of
       None \<Rightarrow> Inr (None, sc)
     | Some g \<Rightarrow>
         if class_of sc g \<in> set gradient_classes then createGradient n pf r g a sc
         else if class_of sc g = ''pattern'' then bind_res (createPattern pf r g sc) (\<lambda>(q, sc1). Inr (Some q, sc1))
         else Inr (None, sc))"

section \<open>The base of rendered elements\<close>

definition plain_paint :: "property \<Rightarrow> property \<Rightarrow> paint res" where
  "plain_paint p opacity =
     bind_res (if hasValue opacity
         then addOpacity p (if loose_eq (prop_value opacity) (Str '''') then '''' else to_str (prop_value opacity)) else Inr p) (\<lambda>q.
       Inr (Color (if prop_value q = Str ''none'' then Str ''rgba(0,0,0,0)'' else prop_value q)))"

text \<open>The paint of a style, if it sets one: by a gradient or pattern, or as a colour with its opacity.\<close>

definition style_paint ::
  "nat \<Rightarrow> platform \<Rightarrow> renderer_fn \<Rightarrow> string \<Rightarrow> string \<Rightarrow> address \<Rightarrow> scene \<Rightarrow> (paint option \<times> scene) res" where
  "style_paint n pf r name opacity a sc =
     (let p = style_of sc a name in
      bind_res (is_url p) (\<lambda>url.
        if url then getFillStyle n pf r p a sc
        else if hasValue p then bind_res (plain_paint p (style_of sc a opacity)) (\<lambda>q. Inr (Some q, sc))
        else Inr (None, sc)))"

definition set_style_op :: "nat \<Rightarrow> address \<Rightarrow> string \<Rightarrow> string \<Rightarrow> scene \<Rightarrow> scene" where
  "set_style_op c a name field sc = (let p = style_of sc a name in
     if hasValue p then emit_ops c [SetStyle field (prop_value p)] sc else sc)"

definition stroke_width :: "platform \<Rightarrow> address \<Rightarrow> nat \<Rightarrow> scene \<Rightarrow> scene res" where
  "stroke_width pf a c sc = (if hasValue (style_of sc a ''stroke-width'')
     then bind_res (pixels pf Undefined (style_of sc a ''stroke-width'') sc) (\<lambda>w. Inr (assign_lineWidth pf c w sc))
     else Inr sc)"

definition set_font :: "platform \<Rightarrow> address \<Rightarrow> nat \<Rightarrow> scene \<Rightarrow> scene res" where
  "set_font pf a c sc =
     (let word = (\<lambda>name. let v = prop_value (style_of sc a name) in if truthy v then to_str v else '''') in
      bind_res (if hasValue (style_of sc a ''font-size'')
          then bind_res (pixels pf Undefined (style_of sc a ''font-size'') sc) (\<lambda>n. Inr (num_to_string n @ ''px''))
          else Inr '''') (\<lambda>font_size.
        Inr (assign_font pf c (font_toString (CreateFont (word ''font-style'') (word ''font-variant'') (word ''font-weight'')
          font_size (word ''font-family'') (ctx_font (scene_units sc)))) sc)))"

definition set_transform :: "platform \<Rightarrow> address \<Rightarrow> nat \<Rightarrow> scene \<Rightarrow> scene res" where
  "set_transform pf a c sc = (let p = attr sc a ''transform'' in
     if hasValue p then bind_res (value_text p) (\<lambda>v. bind_res (Transform (pf_math pf) v) (\<lambda>ts.
       bind_res (apply_transforms ts) (\<lambda>ops. Inr (emit_ops c ops sc))))
     else Inr sc)"

text \<open>\<open>apply(ctx)\<close> of a clip path: the outline of each child that has one becomes a clip.\<close>

definition clip_apply :: "nat \<Rightarrow> platform \<Rightarrow> address \<Rightarrow> nat \<Rightarrow> scene \<Rightarrow> scene res" where
  "clip_apply n pf k c sc = fold_res (\<lambda>t child.
       if has_path t child then bind_res (draw_path n pf child c t) (\<lambda>t1. Inr (emit_ops c [Clip] t1)) else Inr t)
     sc (el_children (element sc k))"

definition set_clip :: "nat \<Rightarrow> platform \<Rightarrow> address \<Rightarrow> nat \<Rightarrow> scene \<Rightarrow> scene res" where
  "set_clip n pf a c sc = (let p = attr sc a ''clip-path'' in
     if hasValue p then bind_res (definition_of sc p) (\<lambda>def. case def of
         None \<Rightarrow> Inr sc
       | Some k \<Rightarrow> if class_of sc k = ''clipPath'' then clip_apply n pf k c sc else Inl TypeError)
     else Inr sc)"

definition set_opacity :: "address \<Rightarrow> nat \<Rightarrow> scene \<Rightarrow> scene" where
  "set_opacity a c sc = (let p = style_of sc a ''opacity'' in
     if hasValue p then emit_ops c [SetStyle ''globalAlpha'' (Num (numValue p))] sc else sc)"

definition rendered_setContext :: "nat \<Rightarrow> platform \<Rightarrow> renderer_fn \<Rightarrow> address \<Rightarrow> nat \<Rightarrow> scene \<Rightarrow> scene res" where
  "rendered_setContext n pf r a c sc =
     bind_res (style_paint n pf r ''fill'' ''fill-opacity'' a sc) (\<lambda>(fill, t1).
     bind_res (style_paint n pf r ''stroke'' ''stroke-opacity'' a (when_some (assign_fill pf c) (fill, t1))) (\<lambda>(stroke, t2).
     bind_res (stroke_width pf a c (when_some (assign_stroke pf c) (stroke, t2))) (\<lambda>s1.
     let s2 = set_style_op c a ''stroke-linecap'' ''lineCap'' s1;
         s3 = set_style_op c a ''stroke-linejoin'' ''lineJoin'' s2;
         s4 = set_style_op c a ''stroke-miterlimit'' ''miterLimit'' s3 in
     bind_res (set_font pf a c s4) (\<lambda>s5. bind_res (set_transform pf a c s5) (\<lambda>s6.
     bind_res (set_clip n pf a c s6) (\<lambda>s7. Inr (set_opacity a c s7)))))))"

section \<open>The view port of an svg element and of a symbol\<close>

definition nth_number :: "jsnum list \<Rightarrow> nat \<Rightarrow> jsnum" where
  "nth_number = num_at"

text \<open>\<open>minX == null\<close> for a view box that is too short.\<close>

definition nth_optional :: "jsnum list \<Rightarrow> nat \<Rightarrow> jsnum option" where
  "nth_optional ns i = (if i < length ns then Some (ns ! i) else None)"

definition push_view :: "jsnum \<Rightarrow> jsnum \<Rightarrow> scene \<Rightarrow> scene" where
  "push_view w h sc = sc\<lparr>sc_views := SetCurrent w h (sc_views sc)\<rparr>"

definition pop_view :: "scene \<Rightarrow> scene" where
  "pop_view sc = sc\<lparr>sc_views := RemoveCurrent (sc_views sc)\<rparr>"

definition initial_strokes :: "platform \<Rightarrow> nat \<Rightarrow> scene \<Rightarrow> scene" where
  "initial_strokes pf c sc = emit_ops c [SetStyle ''lineCap'' (Str ''butt''), SetStyle ''lineJoin'' (Str ''miter''),
     SetStyle ''miterLimit'' (Num (num_of_int 4))] (assign_stroke pf c (Color (Str ''rgba(0,0,0,0)'')) sc)"

definition svg_offset :: "platform \<Rightarrow> address \<Rightarrow> nat \<Rightarrow> scene \<Rightarrow> scene res" where
  "svg_offset pf a c sc =
     (if hasValue (attr sc a ''x'') \<and> hasValue (attr sc a ''y'') then
        bind_res (attr_x pf a ''x'' sc) (\<lambda>x. bind_res (attr_y pf a ''y'' sc) (\<lambda>y. Inr (emit_ops c [CTranslate x y] sc)))
      else Inr sc)"

text \<open>An inner svg element with a size clips to it; the root keeps the current size.\<close>

definition svg_size :: "platform \<Rightarrow> bool \<Rightarrow> address \<Rightarrow> nat \<Rightarrow> scene \<Rightarrow> ((jsnum \<times> jsnum) \<times> scene) res" where
  "svg_size pf is_root a c sc = bind_res (Current (sc_views sc)) (\<lambda>size.
     if \<not> is_root \<and> hasValue (attr sc a ''width'') \<and> hasValue (attr sc a ''height'') then
       bind_res (attr_x pf a ''width'' sc) (\<lambda>w. bind_res (attr_y pf a ''height'' sc) (\<lambda>h.
       bind_res (if hasValue (attr sc a ''refX'') \<and> hasValue (attr sc a ''refY'') then
           bind_res (attr_x pf a ''refX'' sc) (\<lambda>x. bind_res (attr_y pf a ''refY'' sc) (\<lambda>y. Inr (js_neg x, js_neg y)))
         else Inr (zero, zero)) (\<lambda>(x, y).
         Inr ((w, h), emit_ops c [BeginPath, MoveTo x y, LineTo w y, LineTo w h, LineTo x h, ClosePath, Clip] sc))))
     else Inr (size, sc))"

definition svg_viewBox :: "platform \<Rightarrow> address \<Rightarrow> nat \<Rightarrow> scene \<Rightarrow> scene res" where
  "svg_viewBox pf a c sc = (let p = attr sc a ''viewBox'' in
     if hasValue p then
       bind_res (value_text p) (\<lambda>v. bind_res (value_text (attr sc a ''preserveAspectRatio'')) (\<lambda>ratio.
       bind_res (Current (sc_views sc)) (\<lambda>(w, h).
       let vb = ToNumberArray v in
       bind_res (AspectRatio (pf_math pf) (scene_units sc) ratio w (nth_number vb 2) h (nth_number vb 3)
           (nth_optional vb 0) (nth_optional vb 1) (prop_value (attr sc a ''refX'')) (prop_value (attr sc a ''refY''))) (\<lambda>ops.
         Inr (push_view (nth_number vb 2) (nth_number vb 3) (pop_view (emit_ops c ops sc)))))))
     else Inr sc)"

definition svg_setContext :: "nat \<Rightarrow> platform \<Rightarrow> renderer_fn \<Rightarrow> bool \<Rightarrow> address \<Rightarrow> nat \<Rightarrow> scene \<Rightarrow> scene res" where
  "svg_setContext n pf r is_root a c sc =
     bind_res (rendered_setContext n pf r a c (initial_strokes pf c sc)) (\<lambda>s1.
     bind_res (svg_offset pf a c s1) (\<lambda>s2.
     bind_res (svg_size pf is_root a c s2) (\<lambda>((w, h), s3).
     svg_viewBox pf a c (push_view w h s3))))"

definition symbol_setContext :: "nat \<Rightarrow> platform \<Rightarrow> renderer_fn \<Rightarrow> address \<Rightarrow> nat \<Rightarrow> scene \<Rightarrow> scene res" where
  "symbol_setContext n pf r a c sc = bind_res (rendered_setContext n pf r a c sc) (\<lambda>s1.
     let p = attr s1 a ''viewBox'' in
     if hasValue p then
       bind_res (value_text p) (\<lambda>v. bind_res (value_text (attr s1 a ''preserveAspectRatio'')) (\<lambda>ratio.
       bind_res (attr_x pf a ''width'' s1) (\<lambda>w. bind_res (attr_y pf a ''height'' s1) (\<lambda>h.
       let vb = ToNumberArray v in
       bind_res (AspectRatio (pf_math pf) (scene_units s1) ratio w (nth_number vb 2) h (nth_number vb 3)
           (nth_optional vb 0) (nth_optional vb 1) Undefined Undefined) (\<lambda>ops.
         Inr (push_view (nth_number vb 2) (nth_number vb 3) (emit_ops c ops s1)))))))
     else Inr s1)"

definition use_setContext :: "nat \<Rightarrow> platform \<Rightarrow> renderer_fn \<Rightarrow> address \<Rightarrow> nat \<Rightarrow> scene \<Rightarrow> scene res" where
  "use_setContext n pf r a c sc = bind_res (rendered_setContext n pf r a c sc) (\<lambda>s1.
     bind_res (if hasValue (attr s1 a ''x'') then bind_res (attr_x pf a ''x'' s1) (\<lambda>x. Inr (emit_ops c [CTranslate x zero] s1))
       else Inr s1) (\<lambda>s2.
     if hasValue (attr s2 a ''y'') then bind_res (attr_y pf a ''y'' s2) (\<lambda>y. Inr (emit_ops c [CTranslate zero y] s2))
     else Inr s2))"

definition text_setContext :: "nat \<Rightarrow> platform \<Rightarrow> renderer_fn \<Rightarrow> address \<Rightarrow> nat \<Rightarrow> scene \<Rightarrow> scene res" where
  "text_setContext n pf r a c sc = bind_res (rendered_setContext n pf r a c sc) (\<lambda>s1.
     Inr (set_style_op c a ''alignment-baseline'' ''textBaseline'' (set_style_op c a ''dominant-baseline'' ''textBaseline'' s1)))"

text \<open>The root is the first element of the store.\<close>

definition setContext :: "nat \<Rightarrow> platform \<Rightarrow> renderer_fn \<Rightarrow> address \<Rightarrow> nat \<Rightarrow> scene \<Rightarrow> scene res" where
  "setContext n pf r a c sc =
     (let cls = class_of sc a in
      if cls = ''svg'' then svg_setContext n pf r (a = 0) a c sc
      else if cls = ''symbol'' then symbol_setContext n pf r a c sc
      else if cls = ''use'' then use_setContext n pf r a c sc
      else if cls = ''text'' then text_setContext n pf r a c sc
      else if cls \<in> set rendered_classes then rendered_setContext n pf r a c sc
      else Inr sc)"

text \<open>The method of the class: a svg element leaves its view port.\<close>

definition clearContext :: "string \<Rightarrow> scene \<Rightarrow> scene" where
  "clearContext cls sc = (if cls = ''svg'' then pop_view sc else sc)"

end
