(* ===== verification/Canvg_Text.thy ===== *)
theory Canvg_Text
  imports Canvg_Context
begin

text \<open>
  Text in canvg, modules/canvas-tools.src.js: the glyphs of a font given in the document, the
  width of a text, its drawing letter by letter or by the canvas, and the places that a text
  element gives its parts.
\<close>

section \<open>Glyphs\<close>

definition char_is :: "string \<Rightarrow> int \<Rightarrow> char \<Rightarrow> bool" where
  "char_is s i ch \<longleftrightarrow> 0 \<le> i \<and> i < int (length s) \<and> s ! nat i = ch"

definition blank_at :: "string \<Rightarrow> int \<Rightarrow> bool" where
  "blank_at s i \<longleftrightarrow> char_is s i (CHR '' '')"

definition arabic_form :: "string \<Rightarrow> int \<Rightarrow> string" where
  "arabic_form s i = (let n = int (length s) in
     if 0 < i \<and> \<not> blank_at s (i - 1) \<and> (i = n - 1 \<or> blank_at s (i + 1)) then ''initial''
     else if 0 < i \<and> \<not> blank_at s (i - 1) \<and> i < n - 2 \<and> \<not> blank_at s (i + 1) then ''medial''
     else if (i = 0 \<or> blank_at s (i - 1)) \<and> i < n - 2 \<and> \<not> blank_at s (i + 1) then ''terminal''
     else ''isolated'')"

definition getGlyph :: "svg_font_data \<Rightarrow> string \<Rightarrow> nat \<Rightarrow> address option" where
  "getGlyph f s i = (let entry = map_of (glyphs f) [s ! i];
       found = (if isArabic f
         then (case entry of None \<Rightarrow> None
           | Some en \<Rightarrow> (case map_of (entry_forms en) (arabic_form s (int i)) of
               Some g \<Rightarrow> Some g | None \<Rightarrow> entry_glyph en))
         else (case entry of None \<Rightarrow> None | Some en \<Rightarrow> entry_glyph en)) in
     case found of Some g \<Rightarrow> Some g | None \<Rightarrow> missingGlyph f)"

section \<open>The width of a text\<close>

text \<open>\<open>getText\<close>: of tspan and a the text, of tref that of the first child of what it refers to.\<close>

fun getText :: "nat \<Rightarrow> scene \<Rightarrow> address \<Rightarrow> jsval res" where
  "getText 0 sc a = Inl RangeError"
| "getText (Suc n) sc a =
     (if class_of sc a = ''tspan'' \<or> class_of sc a = ''a'' then
        Inr (case el_data (element sc a) of TextData t \<Rightarrow> t | LinkData _ t \<Rightarrow> t | _ \<Rightarrow> Undefined)
      else if class_of sc a = ''tref'' then
        bind_res (definition_of sc (attr sc a ''xlink:href'')) (\<lambda>target. case target of
            None \<Rightarrow> Inr Undefined
          | Some e \<Rightarrow> (case el_children (element sc e) of
              k # _ \<Rightarrow> if class_of sc k \<in> set text_classes then getText n sc k else Inl TypeError
            | [] \<Rightarrow> Inl TypeError))
      else if class_of sc a = ''TextElementBase'' then Inr Undefined
      else Inl TypeError)"

definition text_string :: "nat \<Rightarrow> scene \<Rightarrow> address \<Rightarrow> string res" where
  "text_string n sc a = bind_res (getText n sc a) (\<lambda>v. case v of Str t \<Rightarrow> Inr t | _ \<Rightarrow> Inl TypeError)"

text \<open>The parent of a text; one without a parent throws.\<close>

definition parent_of :: "scene \<Rightarrow> address \<Rightarrow> address res" where
  "parent_of sc a = (case el_parent (element sc a) of None \<Rightarrow> Inl TypeError | Some q \<Rightarrow> Inr q)"

definition custom_font :: "scene \<Rightarrow> address \<Rightarrow> address option res" where
  "custom_font sc a = bind_res (parent_of sc a) (\<lambda>q. definition_of sc (style_of sc q ''font-family''))"

definition string_num :: "string option \<Rightarrow> jsnum" where
  "string_num s = (case s of Some t \<Rightarrow> to_number t | None \<Rightarrow> NaN)"

definition font_size_of :: "scene \<Rightarrow> address \<Rightarrow> jsnum" where
  "font_size_of sc q = numValueOrDefault (style_of sc q ''font-size'')
     (string_num (fontSize (font_Parse (ctx_font (scene_units sc)))))"

text \<open>What a font says of a text: the letters in the order of drawing, its face and its advances.\<close>

definition ordered_text :: "svg_font_data \<Rightarrow> string \<Rightarrow> string" where
  "ordered_text f s = (if isRTL f then rev s else s)"

definition unitsPerEm :: "scene \<Rightarrow> svg_font_data \<Rightarrow> jsnum res" where
  "unitsPerEm sc f = (case fontFace f of None \<Rightarrow> Inl TypeError
     | Some k \<Rightarrow> (case el_data (element sc k) of FontFaceData _ _ upm \<Rightarrow> Inr upm | _ \<Rightarrow> Inr NaN))"

definition glyph_advance :: "scene \<Rightarrow> svg_font_data \<Rightarrow> address \<Rightarrow> jsnum" where
  "glyph_advance sc f g = (let x = (case el_data (element sc g) of GlyphData _ adv _ _ \<Rightarrow> adv | _ \<Rightarrow> NaN) in
     if truthy (Num x) then x else horizAdvX f)"

definition add_dx :: "jsnum list \<Rightarrow> nat \<Rightarrow> jsnum \<Rightarrow> jsnum" where
  "add_dx dx i x = (if i < length dx \<and> dx ! i \<noteq> NaN then js_add x (dx ! i) else x)"

definition parent_dx :: "scene \<Rightarrow> address \<Rightarrow> jsnum list res" where
  "parent_dx sc a = bind_res (parent_of sc a) (\<lambda>q. bind_res (value_text (attr sc q ''dx'')) (\<lambda>v. Inr (ToNumberArray v)))"

definition measure_glyph :: "scene \<Rightarrow> svg_font_data \<Rightarrow> jsnum \<Rightarrow> string \<Rightarrow> jsnum list \<Rightarrow> jsnum \<Rightarrow> nat \<Rightarrow> jsnum res" where
  "measure_glyph sc f sz s dx m i = (case getGlyph f s i of None \<Rightarrow> Inl TypeError
     | Some g \<Rightarrow> bind_res (unitsPerEm sc f) (\<lambda>upm.
         Inr (add_dx dx i (js_add m (js_div (js_mul (glyph_advance sc f g) sz) upm)))))"

text \<open>A definition that is no font has no glyphs to read.\<close>

definition font_data :: "scene \<Rightarrow> address \<Rightarrow> svg_font_data option" where
  "font_data sc k = (case el_data (element sc k) of FontData f \<Rightarrow> Some f | _ \<Rightarrow> None)"

text \<open>The canvas measures a text in the font of the element.\<close>

definition measure_canvas :: "nat \<Rightarrow> platform \<Rightarrow> renderer_fn \<Rightarrow> address \<Rightarrow> nat \<Rightarrow> string \<Rightarrow> scene \<Rightarrow> (jsnum \<times> scene) res" where
  "measure_canvas n pf r a c t sc = bind_res (rendered_setContext n pf r a c (canvas_save c sc)) (\<lambda>sc1.
     Inr (pf_measure pf (dr_font (now c sc1)) t, canvas_restore c sc1))"

definition measureText :: "nat \<Rightarrow> platform \<Rightarrow> renderer_fn \<Rightarrow> address \<Rightarrow> nat \<Rightarrow> scene \<Rightarrow> (jsnum \<times> scene) res" where
  "measureText n pf r a c sc = bind_res (custom_font sc a) (\<lambda>font. case font of
       Some k \<Rightarrow>
         bind_res (parent_of sc a) (\<lambda>q. bind_res (text_string n sc a) (\<lambda>t. bind_res (parent_dx sc a) (\<lambda>dx.
           case font_data sc k of
             None \<Rightarrow> if t = '''' then Inr (zero, sc) else Inl TypeError
           | Some f \<Rightarrow> bind_res (fold_res (measure_glyph sc f (font_size_of sc q) (ordered_text f t) dx) zero
               [0..<length t]) (\<lambda>m. Inr (m, sc)))))
     | None \<Rightarrow>
         bind_res (text_string n sc a) (\<lambda>t. measure_canvas n pf r a c (compressSpaces t) sc))"

section \<open>Drawing a text\<close>

definition slant :: "bool \<Rightarrow> jsnum \<Rightarrow> canvas_op list" where
  "slant italic by = when_op italic (CTransform [one, zero, by, one, zero, zero])"

definition draw_glyph ::
  "platform \<Rightarrow> renderer_fn \<Rightarrow> svg_font_data \<Rightarrow> jsnum \<Rightarrow> bool \<Rightarrow> string \<Rightarrow> jsnum list \<Rightarrow> address \<Rightarrow> nat \<Rightarrow> scene \<Rightarrow> nat \<Rightarrow>
   scene res" where
  "draw_glyph pf r f sz italic s dx a c sc i =
     (let glyph = getGlyph f s i; (x, y) = text_at sc a; lw = dr_lineWidth (now c sc) in
      bind_res (unitsPerEm sc f) (\<lambda>upm. let scale = js_div sz upm;
        sc1 = emit_ops c [CTranslate x y, CScale scale (js_neg scale)] sc;
        sc2 = emit_ops c (slant italic (literal (4 / 10))) (assign_lineWidth pf c (js_div (js_mul lw upm) sz) sc1) in
      case glyph of None \<Rightarrow> Inl TypeError
      | Some g \<Rightarrow> bind_res (r g c None sc2) (\<lambda>sc3.
          let sc4 = assign_lineWidth pf c lw (emit_ops c (slant italic (js_neg (literal (4 / 10)))) sc3);
              sc5 = emit_ops c [CScale (js_div one scale) (js_div (js_neg one) scale),
                CTranslate (js_neg x) (js_neg y)] sc4 in
          Inr (put_text a (add_dx dx i (js_add x (js_div (js_mul sz (glyph_advance sc f g)) upm)), y) sc5))))"

definition is_blank_paint :: "paint \<Rightarrow> bool" where
  "is_blank_paint p \<longleftrightarrow> p = Color (Str '''')"

definition default_style :: "scene \<Rightarrow> string option" where
  "default_style sc = fontStyle (font_Parse (ctx_font (scene_units sc)))"

definition italic_of :: "scene \<Rightarrow> address \<Rightarrow> bool" where
  "italic_of sc q \<longleftrightarrow> valueOrDefault (style_of sc q ''font-style'')
     (case default_style sc of Some v \<Rightarrow> Str v | None \<Rightarrow> Undefined) = Str ''italic''"

definition text_renderChildren :: "nat \<Rightarrow> platform \<Rightarrow> renderer_fn \<Rightarrow> address \<Rightarrow> nat \<Rightarrow> scene \<Rightarrow> scene res" where
  "text_renderChildren n pf r a c sc = bind_res (custom_font sc a) (\<lambda>font. case font of
       Some k \<Rightarrow>
         bind_res (parent_of sc a) (\<lambda>q. bind_res (text_string n sc a) (\<lambda>t. bind_res (parent_dx sc a) (\<lambda>dx.
           case font_data sc k of
             None \<Rightarrow> if t = '''' then Inr sc else Inl TypeError
           | Some f \<Rightarrow> fold_res (draw_glyph pf r f (font_size_of sc q) (italic_of sc q) (ordered_text f t) dx a c) sc
               [0..<length t])))
     | None \<Rightarrow>
         (let (x, y) = text_at sc a in
          bind_res (if is_blank_paint (dr_stroke (now c sc)) then Inr sc
            else bind_res (text_string n sc a) (\<lambda>t. Inr (emit_ops c [StrokeText (compressSpaces t) x y] sc))) (\<lambda>sc1.
          if is_blank_paint (dr_fill (now c sc1)) then Inr sc1
          else bind_res (text_string n sc1 a) (\<lambda>t. Inr (emit_ops c [FillText (compressSpaces t) x y] sc1)))))"

section \<open>The parts of a text element\<close>

text \<open>The width of the parts that follow without an x of their own.\<close>

fun group_length ::
  "nat \<Rightarrow> platform \<Rightarrow> renderer_fn \<Rightarrow> nat \<Rightarrow> jsnum \<Rightarrow> address list \<Rightarrow> scene \<Rightarrow> (jsnum \<times> scene) res" where
  "group_length n pf r c len [] sc = Inr (len, sc)"
| "group_length n pf r c len (k # ks) sc =
     (if hasValue (attr sc k ''x'') then Inr (len, sc)
      else if class_of sc k \<notin> set text_classes then Inl TypeError
      else bind_res (measureText n pf r k c sc) (\<lambda>(w, sc1). group_length n pf r c (js_add len w) ks sc1))"

definition anchored ::
  "nat \<Rightarrow> platform \<Rightarrow> renderer_fn \<Rightarrow> nat \<Rightarrow> jsval \<Rightarrow> bool \<Rightarrow> jsnum \<Rightarrow> jsnum \<Rightarrow> address \<Rightarrow> address list \<Rightarrow> scene \<Rightarrow>
   (jsnum \<times> scene) res" where
  "anchored n pf r c anchor first x len k ks sc =
     (if anchor \<noteq> Str ''start'' \<and> (first \<or> hasValue (attr sc k ''x'')) then
        bind_res (group_length n pf r c len ks sc) (\<lambda>(total, sc1).
          Inr (js_sub x (if anchor = Str ''end'' then total else js_div total (num_of_int 2)), sc1))
      else Inr (x, sc))"

text \<open>The place of a part on one axis: its own, or where the last one ended, moved by its shift.\<close>

definition part_start :: "platform \<Rightarrow> jsval \<Rightarrow> string \<Rightarrow> string \<Rightarrow> address \<Rightarrow> jsnum \<Rightarrow> scene \<Rightarrow> jsnum res" where
  "part_start pf view name shift k x sc =
     (if hasValue (attr sc k name) then pixels pf view (attr sc k name) sc
      else if hasValue (attr sc k shift) then bind_res (pixels pf view (attr sc k shift) sc) (\<lambda>d. Inr (js_add x d))
      else Inr x)"

fun draw_parts ::
  "nat \<Rightarrow> platform \<Rightarrow> renderer_fn \<Rightarrow> nat \<Rightarrow> jsval \<Rightarrow> bool \<Rightarrow> jsnum \<Rightarrow> jsnum \<Rightarrow> address list \<Rightarrow> scene \<Rightarrow> scene res" where
  "draw_parts n pf r c anchor first x y [] sc = Inr sc"
| "draw_parts n pf r c anchor first x y (k # ks) sc =
     bind_res (part_start pf (Str ''x'') ''x'' ''dx'' k x sc) (\<lambda>x0.
     if class_of sc k \<notin> set text_classes then Inl TypeError
     else bind_res (measureText n pf r k c sc) (\<lambda>(len, sc1).
     bind_res (anchored n pf r c anchor first x0 len k ks sc1) (\<lambda>(x1, sc2).
     bind_res (part_start pf (Str ''y'') ''y'' ''dy'' k y sc2) (\<lambda>y1.
     bind_res (r k c None (put_text k (x1, y1) sc2)) (\<lambda>sc3.
       draw_parts n pf r c anchor False (js_add x1 len) y1 ks sc3)))))"

definition textelement_renderChildren :: "nat \<Rightarrow> platform \<Rightarrow> renderer_fn \<Rightarrow> address \<Rightarrow> nat \<Rightarrow> scene \<Rightarrow> scene res" where
  "textelement_renderChildren n pf r a c sc =
     (let anchor = valueOrDefault (style_of sc a ''text-anchor'') (Str ''start'') in
      bind_res (attr_x pf a ''x'' sc) (\<lambda>x. bind_res (attr_y pf a ''y'' sc) (\<lambda>y.
        draw_parts n pf r c anchor True x y (el_children (element sc a)) sc)))"

end
