(* ===== verification/Canvg_Render.thy ===== *)
theory Canvg_Render
  imports Canvg_Text
begin

text \<open>
  Drawing the elements of canvg, modules/canvas-tools.src.js: what each class draws, masks and
  filters, which draw an element on a canvas of its own, markers, and the recursion over the
  document. An element can refer to itself through a use, a marker or a pattern, so the depth of
  the stack is a parameter; a full stack throws a RangeError.
\<close>

section \<open>Outlines with markers\<close>

definition draw_markers ::
  "renderer_fn \<Rightarrow> address \<Rightarrow> nat \<Rightarrow> string \<Rightarrow> (point \<times> jsnum option) list res \<Rightarrow> scene \<Rightarrow> scene res" where
  "draw_markers r a c name ms sc = (let p = style_of sc a name in
     bind_res (is_url p) (\<lambda>url. if \<not> url then Inr sc
       else bind_res (definition_of sc p) (\<lambda>marker. bind_res ms (\<lambda>ps. case marker of
           Some k \<Rightarrow> fold_res (\<lambda>t q. r k c (Some q) t) sc ps
         | None \<Rightarrow> if ps = [] then Inr sc else Inl TypeError))))"

definition first_marker :: "'m list \<Rightarrow> 'm list res" where
  "first_marker ms = (if ms = [] then Inl TypeError else Inr [hd ms])"

definition last_marker :: "'m list \<Rightarrow> 'm list res" where
  "last_marker ms = (if ms = [] then Inl TypeError else Inr [last ms])"

definition path_renderChildren :: "nat \<Rightarrow> platform \<Rightarrow> renderer_fn \<Rightarrow> address \<Rightarrow> nat \<Rightarrow> scene \<Rightarrow> scene res" where
  "path_renderChildren n pf r a c sc =
     bind_res (draw_path n pf a c sc) (\<lambda>s0.
     let s1 = checkPath pf a c s0;
         s2 = (if is_blank_paint (dr_fill (now c s1)) then s1 else emit_ops c [Fill] s1);
         s3 = (if is_blank_paint (dr_stroke (now c s2)) then s2 else emit_ops c [Stroke] s2) in
     bind_res (markers_of pf a s3) (\<lambda>markers. case markers of None \<Rightarrow> Inr s3
       | Some ms \<Rightarrow>
           bind_res (draw_markers r a c ''marker-start'' (first_marker ms) s3) (\<lambda>s4.
           bind_res (draw_markers r a c ''marker-mid'' (Inr (butlast (tl ms))) s4) (\<lambda>s5.
           draw_markers r a c ''marker-end'' (last_marker ms) s5))))"

text \<open>A marker is drawn at its point, turned and scaled, and the canvas is turned back afterwards.\<close>

definition marker_units :: "scene \<Rightarrow> address \<Rightarrow> bool" where
  "marker_units sc a \<longleftrightarrow> valueOrDefault (attr sc a ''markerUnits'') (Str ''strokeWidth'') = Str ''strokeWidth''"

definition marker_turns :: "scene \<Rightarrow> address \<Rightarrow> bool" where
  "marker_turns sc a \<longleftrightarrow> valueOrDefault (attr sc a ''orient'') (Str ''auto'') = Str ''auto''"

definition marker_render ::
  "renderer_fn \<Rightarrow> address \<Rightarrow> nat \<Rightarrow> point \<Rightarrow> jsnum option \<Rightarrow> scene \<Rightarrow> scene res" where
  "marker_render r a c p angle sc =
     (let turn = (case angle of Some x \<Rightarrow> x | None \<Rightarrow> zero); w = dr_lineWidth (now c sc);
          s1 = emit_ops c (CTranslate (fst p) (snd p) # when_op (marker_turns sc a) (CRotate turn) @
            when_op (marker_units sc a) (CScale w w)) sc;
          s2 = canvas_save c s1;
          value = (\<lambda>(name, from). (name, prop_value (attr sc a from)));
          (e, s3) = temp_element ''svg''
            (map value [(''viewBox'', ''viewBox''), (''refX'', ''refX''), (''refY'', ''refY''), (''width'', ''markerWidth''),
               (''height'', ''markerHeight'')] @
             [(''fill'', valueOrDefault (attr sc a ''fill'') (Str ''black'')),
              (''stroke'', valueOrDefault (attr sc a ''stroke'') (Str ''none''))])
            (el_children (element sc a)) s2 in
      bind_res (r e c None s3) (\<lambda>s4. let s5 = canvas_restore c s4; v = dr_lineWidth (now c s5) in
        Inr (emit_ops c (when_op (marker_units s5 a) (CScale (js_div one v) (js_div one v)) @
          when_op (marker_turns s5 a) (CRotate (js_neg turn)) @ [CTranslate (js_neg (fst p)) (js_neg (snd p))]) s5)))"

section \<open>Masks and filters\<close>

definition renderChildren_of :: "renderer_fn \<Rightarrow> nat \<Rightarrow> address list \<Rightarrow> scene \<Rightarrow> scene res" where
  "renderChildren_of r c kids sc = fold_res (\<lambda>t k. r k c None t) sc kids"

text \<open>Assigning to the value of the property that \<open>attribute(name)\<close> finds; a new one is lost.\<close>

definition write_attr :: "address \<Rightarrow> string \<Rightarrow> jsval \<Rightarrow> scene \<Rightarrow> scene" where
  "write_attr a name v sc = (case own_attribute (sc_svg sc) a name of
     Some p \<Rightarrow> on_svg (set_value p v) sc | None \<Rightarrow> sc)"

definition write_style :: "address \<Rightarrow> string \<Rightarrow> jsval \<Rightarrow> scene \<Rightarrow> scene" where
  "write_style a name v sc = (case style_at (sc_svg sc) a name of
     Some p \<Rightarrow> on_svg (set_value p v) sc | None \<Rightarrow> sc)"

definition create_style :: "address \<Rightarrow> string \<Rightarrow> jsval \<Rightarrow> scene \<Rightarrow> scene" where
  "create_style a name v = on_svg (\<lambda>s. let (p, t) = style_create a name s in set_value p v t)"

text \<open>The element is drawn on one canvas without its mask, the mask on another, and both are put together.\<close>

definition mask_apply :: "platform \<Rightarrow> renderer_fn \<Rightarrow> address \<Rightarrow> nat \<Rightarrow> address \<Rightarrow> scene \<Rightarrow> scene res" where
  "mask_apply pf r m c a sc =
     bind_res (attr_x pf m ''x'' sc) (\<lambda>x. bind_res (attr_y pf m ''y'' sc) (\<lambda>y.
     bind_res (attr_x pf m ''width'' sc) (\<lambda>width. bind_res (attr_y pf m ''height'' sc) (\<lambda>height.
     let w = js_add x width; h = js_add y height; old = prop_value (attr sc a ''mask'');
         (km, s1) = new_canvas pf w h (write_attr a ''mask'' (Str '''') sc) in
     bind_res (renderChildren_of r km (el_children (element s1 m)) s1) (\<lambda>s2.
     let (k, s3) = new_canvas pf w h s2 in
     bind_res (r a k None s3) (\<lambda>s4.
     let s5 = assign_fill pf k (CanvasPattern km ''no-repeat'')
           (emit_ops k [SetStyle ''globalCompositeOperation'' (Str ''destination-in'')] s4);
         s6 = assign_fill pf c (CanvasPattern k ''no-repeat'') (emit k [FillRect zero zero w h] s5) in
     Inr (write_attr a ''mask'' old (emit c [FillRect zero zero w h] s6))))))))"

definition blank_num :: "jsnum \<Rightarrow> bool" where
  "blank_num x \<longleftrightarrow> num_eq x zero"

text \<open>\<open>apply\<close> of a child of a filter: a blur, or a clip path that makes no use of its arguments.\<close>

definition filter_child :: "nat \<Rightarrow> platform \<Rightarrow> nat \<Rightarrow> jsnum \<Rightarrow> jsnum \<Rightarrow> scene \<Rightarrow> address \<Rightarrow> scene res" where
  "filter_child n pf k w h sc child =
     (if class_of sc child = ''feGaussianBlur''
      then Inr (emit k [BlurImage w h (numValue (attr sc child ''stdDeviation''))] sc)
      else if class_of sc child = ''clipPath'' then clip_apply n pf child k sc
      else Inl TypeError)"

definition filter_apply :: "nat \<Rightarrow> platform \<Rightarrow> renderer_fn \<Rightarrow> address \<Rightarrow> nat \<Rightarrow> address \<Rightarrow> scene \<Rightarrow> scene res" where
  "filter_apply n pf r f c a sc =
     bind_res (getBoundingBox n pf a sc) (\<lambda>bb.
     bind_res (attr_x pf f ''x'' sc) (\<lambda>x0. bind_res (attr_y pf f ''y'' sc) (\<lambda>y0.
     bind_res (attr_x pf f ''width'' sc) (\<lambda>w0. bind_res (attr_y pf f ''height'' sc) (\<lambda>h0.
     let (x, y) = (if blank_num x0 \<or> blank_num y0 then (box_x1 bb, box_y1 bb) else (x0, y0));
         (width, height) = (if blank_num w0 \<or> blank_num h0 then (box_width bb, box_height bb) else (w0, h0));
         old = prop_value (style_of sc a ''filter'');
         px = js_mul (literal (2 / 10)) width; py = js_mul (literal (2 / 10)) height;
         w = js_add width (js_mul (num_of_int 2) px); h = js_add height (js_mul (num_of_int 2) py);
         (k, s1) = new_canvas pf w h (write_style a ''filter'' (Str '''') sc) in
     bind_res (r a k None (emit_ops k [CTranslate (js_add (js_neg x) px) (js_add (js_neg y) py)] s1)) (\<lambda>s2.
     bind_res (fold_res (filter_child n pf k w h) s2 (el_children (element s2 f))) (\<lambda>s3.
     Inr (create_style a ''filter'' old
       (emit c [DrawCanvas k [zero, zero, w, h, js_sub x px, js_sub y py, w, h]] s3)))))))))"

text \<open>What the definition that mask or filter refers to does with the element.\<close>

definition apply_definition :: "nat \<Rightarrow> platform \<Rightarrow> renderer_fn \<Rightarrow> address option \<Rightarrow> nat \<Rightarrow> address \<Rightarrow> scene \<Rightarrow> scene res" where
  "apply_definition n pf r def c a sc = (case def of None \<Rightarrow> Inr sc
     | Some d \<Rightarrow>
        (if class_of sc d = ''mask'' then mask_apply pf r d c a sc
         else if class_of sc d = ''filter'' then filter_apply n pf r d c a sc
         else if class_of sc d = ''clipPath'' then clip_apply n pf d c sc
         else Inl TypeError))"

section \<open>Use, link, image and the base\<close>

definition use_renderChildren :: "renderer_fn \<Rightarrow> address \<Rightarrow> nat \<Rightarrow> scene \<Rightarrow> scene res" where
  "use_renderChildren r a c sc = bind_res (use_getDefinition a sc) (\<lambda>(target, sc1).
     case target of None \<Rightarrow> Inr sc1 | Some e \<Rightarrow> r e c None sc1)"

definition link_box :: "nat \<Rightarrow> platform \<Rightarrow> renderer_fn \<Rightarrow> address \<Rightarrow> nat \<Rightarrow> scene \<Rightarrow> scene res" where
  "link_box n pf r a c sc =
     (let size_text = (case fontSize (font_Parse (ctx_font (scene_units sc))) of Some v \<Rightarrow> Str v | None \<Rightarrow> Undefined);
          (x, y) = text_at sc a in
      bind_res (pixels pf (Str ''y'') \<lparr>prop_name = ''fontSize'', prop_value = size_text\<rparr> sc) (\<lambda>font_height.
      bind_res (measureText n pf r a c sc) (\<lambda>(w, sc1).
        Inr (checkBoundingBox (BoundingBox (x, js_sub y font_height) (js_add x w, y)) a sc1))))"

definition set_parent :: "address \<Rightarrow> address \<Rightarrow> scene \<Rightarrow> scene" where
  "set_parent q e = on_svg (update_element e (\<lambda>x. x\<lparr>el_parent := Some q\<rparr>))"

definition link_renderChildren :: "nat \<Rightarrow> platform \<Rightarrow> renderer_fn \<Rightarrow> address \<Rightarrow> nat \<Rightarrow> scene \<Rightarrow> scene res" where
  "link_renderChildren n pf r a c sc =
     (if (case el_data (element sc a) of LinkData hasText _ \<Rightarrow> hasText | _ \<Rightarrow> False) then
        bind_res (text_renderChildren n pf r a c sc) (\<lambda>sc1. link_box n pf r a c sc1)
      else (let (g, sc1) = temp_element ''g'' [] (el_children (element sc a)) sc in r g c None (set_parent a g sc1)))"

definition image_renderChildren :: "platform \<Rightarrow> address \<Rightarrow> nat \<Rightarrow> scene \<Rightarrow> scene res" where
  "image_renderChildren pf a c sc =
     bind_res (attr_x pf a ''x'' sc) (\<lambda>x. bind_res (attr_y pf a ''y'' sc) (\<lambda>y.
     bind_res (attr_x pf a ''width'' sc) (\<lambda>width. bind_res (attr_y pf a ''height'' sc) (\<lambda>height.
     if blank_num width \<or> blank_num height then Inr sc
     else (let s1 = emit_ops c [CTranslate x y] (canvas_save c sc) in
       bind_res (value_text (attr s1 a ''preserveAspectRatio'')) (\<lambda>ratio.
       bind_res (AspectRatio (pf_math pf) (scene_units s1) ratio width (fst (pf_image pf a)) height (snd (pf_image pf a))
           (Some zero) (Some zero) Undefined Undefined) (\<lambda>ops.
         Inr (canvas_restore c (emit_ops c [DrawImage zero zero] (emit_ops c ops s1)))))))))) "

definition renderChildren :: "nat \<Rightarrow> platform \<Rightarrow> renderer_fn \<Rightarrow> address \<Rightarrow> nat \<Rightarrow> scene \<Rightarrow> scene res" where
  "renderChildren n pf r a c sc =
     (let cls = class_of sc a in
      if cls \<in> set outline_classes then path_renderChildren n pf r a c sc
      else if cls = ''text'' then textelement_renderChildren n pf r a c sc
      else if cls = ''a'' then link_renderChildren n pf r a c sc
      else if cls \<in> set text_classes then text_renderChildren n pf r a c sc
      else if cls = ''image'' then image_renderChildren pf a c sc
      else if cls = ''use'' then use_renderChildren r a c sc
      else renderChildren_of r c (el_children (element sc a)) sc)"

definition render_content :: "nat \<Rightarrow> platform \<Rightarrow> renderer_fn \<Rightarrow> address \<Rightarrow> nat \<Rightarrow> scene \<Rightarrow> scene res" where
  "render_content n pf r a c sc =
     (if hasValue (attr sc a ''mask'') then
        bind_res (definition_of sc (attr sc a ''mask'')) (\<lambda>def. apply_definition n pf r def c a sc)
      else if hasValue (style_of sc a ''filter'') then
        bind_res (definition_of sc (style_of sc a ''filter'')) (\<lambda>def. apply_definition n pf r def c a sc)
      else renderChildren n pf r a c sc)"

definition base_render :: "nat \<Rightarrow> platform \<Rightarrow> renderer_fn \<Rightarrow> address \<Rightarrow> nat \<Rightarrow> scene \<Rightarrow> scene res" where
  "base_render n pf r a c sc =
     (if prop_value (style_of sc a ''display'') = Str ''none'' \<or> prop_value (attr sc a ''visibility'') = Str ''hidden''
      then Inr sc
      else bind_res (setContext n pf r a c (canvas_save c sc)) (\<lambda>s1.
        bind_res (render_content n pf r a c s1) (\<lambda>s2. Inr (canvas_restore c (clearContext (class_of sc a) s2)))))"

definition silent_classes :: "string list" where
  "silent_classes = [''defs'', ''mask'', ''clipPath'', ''filter'']"

definition render_step ::
  "nat \<Rightarrow> platform \<Rightarrow> renderer_fn \<Rightarrow> address \<Rightarrow> nat \<Rightarrow> (point \<times> jsnum option) option \<Rightarrow> scene \<Rightarrow> scene res" where
  "render_step n pf r a c mark sc =
     (if class_of sc a \<in> set silent_classes then Inr sc
      else if class_of sc a = ''marker'' then
        (case mark of None \<Rightarrow> Inl TypeError | Some (p, angle) \<Rightarrow> marker_render r a c p angle sc)
      else base_render n pf r a c sc)"

fun render :: "nat \<Rightarrow> platform \<Rightarrow> renderer_fn" where
  "render 0 pf a c mark sc = Inl RangeError"
| "render (Suc n) pf a c mark sc = render_step n pf (render n pf) a c mark sc"

end
