(* ===== verification/Canvg_Balance.thy ===== *)
theory Canvg_Balance
  imports Canvg_Render
begin

text \<open>
  Drawing is balanced: whatever the document refers to and however deep, every canvas is left in
  the drawing state it had, with the same states put aside, and the view ports are those from
  before when the document has no symbol.
\<close>

section \<open>Drawing leaves the canvases as they were\<close>

text \<open>
  What a step of drawing may do: append to the logs of the canvases and make new ones; the states
  put aside stay, and so do the current ones outside of \<open>C\<close>. The classes of the elements stay, and
  as long as there is no symbol among them the view ports.
\<close>

definition symbol_free :: "scene \<Rightarrow> bool" where
  "symbol_free sc \<longleftrightarrow> ''symbol'' \<notin> el_class ` set (st_elements (sc_svg sc))"

definition kept :: "nat set \<Rightarrow> canvas list \<Rightarrow> canvas list \<Rightarrow> bool" where
  "kept C cs cs' \<longleftrightarrow> length cs \<le> length cs' \<and> (\<forall>i < length cs. cv_saved (cs' ! i) = cv_saved (cs ! i) \<and>
     prefix (cv_log (cs ! i)) (cv_log (cs' ! i)) \<and> (i \<notin> C \<longrightarrow> cv_now (cs' ! i) = cv_now (cs ! i)))"

definition step :: "nat set \<Rightarrow> scene \<Rightarrow> scene \<Rightarrow> bool" where
  "step C sc sc' \<longleftrightarrow> kept C (sc_canvases sc) (sc_canvases sc') \<and>
     (symbol_free sc \<longrightarrow> symbol_free sc' \<and> sc_views sc' = sc_views sc)"

named_theorems draw_steps

lemma kept_refl: "kept C cs cs"
  by (simp add: kept_def)

lemma kept_trans: "kept C cs ds \<Longrightarrow> kept D ds es \<Longrightarrow> (\<And>i. i \<in> D \<Longrightarrow> i < length cs \<Longrightarrow> i \<in> C) \<Longrightarrow> kept C cs es"
  unfolding kept_def by (auto intro: prefix_order.trans) (metis order_less_le_trans prefix_order.trans)+

lemma step_refl [draw_steps]: "step C sc sc"
  by (simp add: step_def kept_refl)

lemma step_trans: "step C sc t \<Longrightarrow> step C t u \<Longrightarrow> step C sc u"
  by (auto simp: step_def intro: kept_trans)

lemma step_mono: "step {} sc t \<Longrightarrow> step C sc t"
  by (auto simp: step_def kept_def)

text \<open>What holds of the value, if there is one.\<close>

definition after :: "'a res \<Rightarrow> ('a \<Rightarrow> bool) \<Rightarrow> bool" where
  "after m Q \<longleftrightarrow> (\<forall>x. m = Inr x \<longrightarrow> Q x)"

lemma after_Inr: "Q x \<Longrightarrow> after (Inr x) Q"
  by (simp add: after_def)

lemma after_Inl: "after (Inl e) Q"
  by (simp add: after_def)

lemma after_if [draw_steps]: "(b \<Longrightarrow> after m Q) \<Longrightarrow> (\<not> b \<Longrightarrow> after m' Q) \<Longrightarrow> after (if b then m else m') Q"
  by simp

lemma after_option [draw_steps]:
  "(x = None \<Longrightarrow> after m Q) \<Longrightarrow> (\<And>y. x = Some y \<Longrightarrow> after (f y) Q) \<Longrightarrow> after (case x of None \<Rightarrow> m | Some y \<Rightarrow> f y) Q"
  by (cases x) auto

lemma after_list [draw_steps]:
  "(xs = [] \<Longrightarrow> after m Q) \<Longrightarrow> (\<And>y ys. xs = y # ys \<Longrightarrow> after (f y ys) Q) \<Longrightarrow> after (case xs of [] \<Rightarrow> m | y # ys \<Rightarrow> f y ys) Q"
  by (cases xs) auto

lemma after_bind: "after m P \<Longrightarrow> (\<And>x. P x \<Longrightarrow> after (f x) Q) \<Longrightarrow> after (bind_res m f) Q"
  by (auto simp: after_def bind_res_Inr_iff)

lemma after_value: "(\<And>x. after (f x) Q) \<Longrightarrow> after (bind_res m f) Q"
  by (auto simp: after_def bind_res_Inr_iff)

lemma after_fold [draw_steps]:
  assumes "step C sc s" and "\<And>t x. step C sc t \<Longrightarrow> after (f t x) (step C sc)"
  shows "after (fold_res f s xs) (step C sc)"
  unfolding after_def
proof (intro allI impI)
  fix t
  assume "fold_res f s xs = Inr t"
  then show "step C sc t"
    by (rule fold_res_invariant) (use assms in \<open>auto simp: after_def\<close>)
qed

text \<open>A step whose value is a scene, one whose value has a scene as its second part, and other values.\<close>

abbreviation then_step :: "nat set \<Rightarrow> scene \<Rightarrow> 'x \<times> scene \<Rightarrow> bool" where
  "then_step C sc p \<equiv> step C sc (snd p)"

lemmas bind_scene [draw_steps] =
  after_bind [where P = "step C sc" and Q = "step C sc" for C sc]
  after_bind [where P = "step C sc" and Q = "then_step C sc" for C sc]

lemma bind_pair [draw_steps]:
  fixes m :: "('x \<times> scene) res"
  shows "after m (then_step C sc) \<Longrightarrow> (\<And>x t. step C sc t \<Longrightarrow> after (g x t) (step C sc)) \<Longrightarrow>
      after (bind_res m (\<lambda>(x, t). g x t)) (step C sc)"
    and "after m (then_step C sc) \<Longrightarrow> (\<And>x t. step C sc t \<Longrightarrow> after (h x t) (then_step C sc)) \<Longrightarrow>
      after (bind_res m (\<lambda>(x, t). h x t)) (then_step C sc)"
  by (auto simp: after_def bind_res_Inr_iff)

lemma let_scene [draw_steps]:
  fixes s :: scene
  shows "step C sc s \<Longrightarrow> (\<And>t. step C sc t \<Longrightarrow> after (f t) (step C sc)) \<Longrightarrow> after (Let s f) (step C sc)"
    and "step C sc s \<Longrightarrow> (\<And>t. step C sc t \<Longrightarrow> after (g t) (then_step C sc)) \<Longrightarrow> after (Let s g) (then_step C sc)"
  by (simp_all add: Let_def)

lemma let_value: "(\<And>x. after (f x) Q) \<Longrightarrow> after (Let v f) Q"
  by (simp add: Let_def)

lemmas let_values [draw_steps] = let_value [where 'a = jsnum] let_value [where 'a = jsval] let_value [where 'a = string]
  let_value [where 'a = property] let_value [where 'a = bool] let_value [where 'a = "jsnum list"]
  let_value [where 'a = "string \<Rightarrow> string"] let_value [where 'a = "string \<Rightarrow> string \<times> jsval"]
  let_value [where 'a = "string \<times> string \<Rightarrow> string \<times> jsval"] let_value [where 'a = "address option"]

lemma let_point [draw_steps]: "(\<And>x y. after (g x y) Q) \<Longrightarrow> after (Let (p :: point) (\<lambda>(x, y). g x y)) Q"
  by (cases p) simp

lemmas bind_value [draw_steps] =
  after_value [where 'a = jsnum] after_value [where 'a = string] after_value [where 'a = bool]
  after_value [where 'a = jsval] after_value [where 'a = "address option"] after_value [where 'a = address]
  after_value [where 'a = property] after_value [where 'a = paint] after_value [where 'a = "paint option"]
  after_value [where 'a = bounding_box] after_value [where 'a = outline] after_value [where 'a = point]
  after_value [where 'a = "transform list"] after_value [where 'a = "canvas_op list"]
  after_value [where 'a = "jsnum list"] after_value [where 'a = "(jsnum \<times> jsval) list"]
  after_value [where 'a = "(point \<times> jsnum option) list"] after_value [where 'a = "(point \<times> jsnum option) list option"]

lemma after_parts [draw_steps]: "(\<And>x y. after (g x y) Q) \<Longrightarrow> after (case p of (x, y) \<Rightarrow> g x y) Q"
  by (cases p) simp

lemma step_let [draw_steps]: "(\<And>x. step C sc (f x)) \<Longrightarrow> step C sc (Let (v :: property) f)"
  by (simp add: Let_def)

section \<open>The operations on canvases\<close>

lemma nth_update: "i < length xs \<Longrightarrow> xs[c := x] ! i = (if i = c then x else xs ! i)"
  by (cases "i = c") simp_all

lemma update_log_step:
  assumes "step C sc s" "\<And>cv. cv_now (f cv) = cv_now cv" "\<And>cv. cv_saved (f cv) = cv_saved cv"
    "\<And>cv. prefix (cv_log cv) (cv_log (f cv))"
  shows "step C sc (update_canvas c f s)"
proof -
  have "kept {} (sc_canvases s) (sc_canvases (update_canvas c f s))"
    unfolding kept_def update_canvas_def
    by (auto simp: nth_update assms(2-4))
  then show ?thesis
    using assms(1) by (auto simp: step_def symbol_free_def update_canvas_def intro: kept_trans)
qed

lemma emit_step [draw_steps]: "step C sc s \<Longrightarrow> step C sc (emit c ops s)"
  unfolding emit_def by (rule update_log_step) simp_all

lemma emit_ops_step [draw_steps]: "step C sc s \<Longrightarrow> step C sc (emit_ops c ops s)"
  unfolding emit_ops_def by (rule emit_step)

lemma set_drawing_step [draw_steps]:
  assumes "step C sc s" "c \<in> C \<or> length (sc_canvases sc) \<le> c"
  shows "step C sc (set_drawing c f s)"
proof -
  have "kept {c} (sc_canvases s) (sc_canvases (set_drawing c f s))"
    unfolding kept_def set_drawing_def update_canvas_def by (auto simp: nth_update)
  then have "kept C (sc_canvases sc) (sc_canvases (set_drawing c f s))"
    using assms by (auto simp: step_def intro: kept_trans)
  then show ?thesis using assms(1) by (simp add: step_def symbol_free_def set_drawing_def update_canvas_def)
qed

lemma assign_steps [draw_steps]:
  assumes "step C sc s" "c \<in> C \<or> length (sc_canvases sc) \<le> c"
  shows "step C sc (assign_fill pf c p s)" "step C sc (assign_stroke pf c p s)"
    "step C sc (assign_lineWidth pf c w s)" "step C sc (assign_font pf c f s)"
  unfolding assign_fill_def assign_stroke_def assign_lineWidth_def assign_font_def
  using assms by (intro draw_steps; simp)+

lemma new_canvas_step [draw_steps]: "step C sc s \<Longrightarrow> step C sc (snd (new_canvas pf w h s))"
proof -
  assume "step C sc s"
  moreover have "kept {} (sc_canvases s) (sc_canvases (snd (new_canvas pf w h s)))"
    by (auto simp: kept_def new_canvas_def nth_append)
  ultimately show ?thesis by (auto simp: step_def symbol_free_def new_canvas_def intro: kept_trans)
qed

text \<open>A canvas that has just been made is none of those from before.\<close>

lemma let_canvas [draw_steps]:
  assumes "step C sc s" and "\<And>k t. step C sc t \<Longrightarrow> k \<in> C \<or> length (sc_canvases sc) \<le> k \<Longrightarrow> after (g k t) Q"
  shows "after (let (k, t) = new_canvas pf w h s in g k t) Q"
proof -
  have "length (sc_canvases sc) \<le> fst (new_canvas pf w h s)" using assms(1) by (simp add: step_def kept_def new_canvas_def)
  then show ?thesis using assms(2) new_canvas_step [OF assms(1)] by (auto simp: Let_def case_prod_unfold)
qed

lemma save_restore:
  assumes "step {c} (canvas_save c sc) s"
  shows "step {} sc (canvas_restore c s)"
proof -
  define cs where "cs = sc_canvases sc"
  define ds where "ds = sc_canvases s"
  have len: "length cs \<le> length ds" using assms by (simp add: step_def kept_def canvas_save_def emit_ops_def emit_def update_canvas_def cs_def ds_def)
  have at: "cv_saved (ds ! i) = (if i = c then [cv_now (cs ! c)] else []) @ cv_saved (cs ! i) \<and> prefix (cv_log (cs ! i)) (cv_log (ds ! i)) \<and>
      (i \<noteq> c \<longrightarrow> cv_now (ds ! i) = cv_now (cs ! i))" if "i < length cs" for i
  proof -
    define bs where "bs = sc_canvases (canvas_save c sc)"
    have "bs ! i = (if i = c then (cs ! c)\<lparr>cv_saved := cv_now (cs ! c) # cv_saved (cs ! c), cv_log := cv_log (cs ! c) @ [Op Save]\<rparr>
        else cs ! i)"
      using that by (auto simp: bs_def cs_def canvas_save_def emit_ops_def emit_def update_canvas_def nth_update)
    moreover have "cv_saved (ds ! i) = cv_saved (bs ! i) \<and> prefix (cv_log (bs ! i)) (cv_log (ds ! i)) \<and>
        (i \<noteq> c \<longrightarrow> cv_now (ds ! i) = cv_now (bs ! i))"
    proof -
      have "i < length bs" using that by (simp add: bs_def cs_def canvas_save_def emit_ops_def emit_def update_canvas_def)
      then show ?thesis using assms unfolding bs_def ds_def by (simp add: step_def kept_def)
    qed
    ultimately show ?thesis by (cases "i = c") (auto intro: append_prefixD)
  qed
  have "kept {} cs (sc_canvases (canvas_restore c s))"
    unfolding kept_def
  proof (intro conjI allI impI)
    show "length cs \<le> length (sc_canvases (canvas_restore c s))"
      using len by (simp add: canvas_restore_def emit_ops_def emit_def update_canvas_def ds_def)
  next
    fix i
    assume i: "i < length cs"
    have j: "i < length ds" using i len by simp
    have "sc_canvases (canvas_restore c s) ! i = (if i = c
        then (case cv_saved (ds ! c) of [] \<Rightarrow> (ds ! c)\<lparr>cv_log := cv_log (ds ! c) @ [Op Restore]\<rparr>
          | d # rest \<Rightarrow> (ds ! c)\<lparr>cv_log := cv_log (ds ! c) @ [Op Restore], cv_now := d, cv_saved := rest\<rparr>)
        else ds ! i)"
      using j by (auto simp: canvas_restore_def emit_ops_def emit_def update_canvas_def ds_def split: list.splits)
    then show "cv_saved (sc_canvases (canvas_restore c s) ! i) = cv_saved (cs ! i)"
      "prefix (cv_log (cs ! i)) (cv_log (sc_canvases (canvas_restore c s) ! i))"
      "cv_now (sc_canvases (canvas_restore c s) ! i) = cv_now (cs ! i)"
      using at [OF i] by (auto intro: prefix_order.trans)
  qed
  then show ?thesis
    using assms by (auto simp: step_def symbol_free_def canvas_save_def canvas_restore_def emit_ops_def emit_def update_canvas_def cs_def)
qed

section \<open>The elements\<close>

definition kinds :: "svg_state \<Rightarrow> string list" where
  "kinds s = map el_class (st_elements s)"

lemma kinds_update: "(\<And>e. el_class (g e) = el_class e) \<Longrightarrow> kinds (update_element a g s) = kinds s"
  by (cases "a < length (st_elements s)") (simp_all add: kinds_def update_element_def map_update list_update_same_conv list_update_beyond)

lemma kinds_svg [simp]:
  "kinds (set_value p v s) = kinds s" "kinds (snd (new_prop name v s)) = kinds s"
  "kinds (update_element a (put_attribute name p) s) = kinds s" "kinds (update_element a (put_style name p) s) = kinds s"
  "kinds (update_element a (\<lambda>x. x\<lparr>el_parent := q\<rparr>) s) = kinds s" "kinds (update_element a (\<lambda>x. x\<lparr>el_children := ks\<rparr>) s) = kinds s"
  "kinds (snd (new_element e s)) = kinds s @ [el_class e]"
proof -
  show "kinds (update_element a (put_attribute name p) s) = kinds s" "kinds (update_element a (put_style name p) s) = kinds s"
    "kinds (update_element a (\<lambda>x. x\<lparr>el_parent := q\<rparr>) s) = kinds s" "kinds (update_element a (\<lambda>x. x\<lparr>el_children := ks\<rparr>) s) = kinds s"
    by (rule kinds_update; simp add: put_attribute_def put_style_def)+
qed (simp_all add: kinds_def set_value_def new_prop_def new_element_def)

lemma kinds_create [simp]:
  "kinds (snd (attribute_create a name s)) = kinds s" "kinds (snd (style_create a name s)) = kinds s"
  by (simp_all add: attribute_create_def style_create_def Let_def case_prod_unfold split: option.splits)

lemma symbol_free_kinds: "symbol_free sc \<longleftrightarrow> ''symbol'' \<notin> set (kinds (sc_svg sc))"
  by (auto simp: symbol_free_def kinds_def)

lemma on_svg_step:
  "step C sc s \<Longrightarrow> set (kinds (f (sc_svg s))) \<subseteq> insert cls (set (kinds (sc_svg s))) \<Longrightarrow> cls \<noteq> ''symbol'' \<Longrightarrow> step C sc (on_svg f s)"
  by (auto simp: step_def symbol_free_kinds on_svg_def)

lemma same_kinds_step: "step C sc s \<Longrightarrow> kinds (f (sc_svg s)) = kinds (sc_svg s) \<Longrightarrow> step C sc (on_svg f s)"
  by (auto simp: step_def symbol_free_kinds on_svg_def)

lemma kinds_attributes:
  "kinds (foldl (\<lambda>t (name, v). let (p, t1) = new_prop name v t in update_element e (put_attribute name p) t1) s nvs) = kinds s"
  by (induction nvs arbitrary: s) (simp_all add: case_prod_unfold Let_def)

lemma temp_element_step [draw_steps]:
  assumes "step C sc s" "cls \<noteq> ''symbol''"
  shows "step C sc (snd (temp_element cls nvs kids s))"
proof -
  define t where "t = sc_svg (snd (temp_element cls nvs kids s))"
  have "kinds t = kinds (sc_svg s) @ [cls]"
    by (simp add: t_def temp_element_def case_prod_unfold Let_def kinds_attributes [unfolded Let_def case_prod_unfold]
        blank_element_def)
  then show ?thesis
    using assms by (auto simp: step_def symbol_free_kinds t_def temp_element_def case_prod_unfold Let_def)
qed

lemma write_steps [draw_steps]:
  assumes "step C sc s"
  shows "step C sc (write_attr a name v s)" "step C sc (write_style a name v s)" "step C sc (create_style a name v s)"
    "step C sc (set_parent q a s)" "step C sc (put_text k p s)" "step C sc (record_hits hit a s)"
    "step C sc (checkPath pf a c s)" "step C sc (checkBoundingBox bb a s)"
proof -
  show "step C sc (record_hits hit a s)" for hit using assms by (simp add: step_def record_hits_def symbol_free_def)
  then show "step C sc (checkPath pf a c s)" "step C sc (checkBoundingBox bb a s)"
    by (simp_all add: checkPath_def checkBoundingBox_def)
  show "step C sc (put_text k p s)" using assms by (simp add: step_def put_text_def symbol_free_def)
  show "step C sc (write_attr a name v s)" "step C sc (write_style a name v s)" "step C sc (create_style a name v s)"
    "step C sc (set_parent q a s)"
    using assms unfolding write_attr_def write_style_def create_style_def set_parent_def
    by (auto intro!: same_kinds_step simp: case_prod_unfold Let_def split: option.splits)
qed

lemma let_temp [draw_steps]:
  assumes "step C sc s" "cls \<noteq> ''symbol''" and "\<And>e t. step C sc t \<Longrightarrow> after (g e t) Q"
  shows "after (let (e, t) = temp_element cls nvs kids s in g e t) Q"
  using assms(3) [OF temp_element_step [OF assms(1,2), of nvs kids]] by (simp add: Let_def case_prod_unfold)

section \<open>Outlines, sizes and words\<close>

text \<open>The steps that draw no other element.\<close>

lemma copy_size_step [draw_steps]: "step C sc s \<Longrightarrow> after (copy_size a name target s) (step C sc)"
  unfolding copy_size_def
  by (auto simp: after_def case_prod_unfold Let_def split: if_splits option.splits intro!: same_kinds_step)

lemma after_result [draw_steps]:
  "step C sc s \<Longrightarrow> after (Inr s) (step C sc)" "step C sc (snd p) \<Longrightarrow> after (Inr p) (then_step C sc)"
  "after (Inl e) Q"
  by (simp_all add: after_def)

lemma pair_step [draw_steps]: "step C sc s \<Longrightarrow> step C sc (snd (x, s))"
  by simp

lemma use_getDefinition_step [draw_steps]: "step C sc s \<Longrightarrow> after (use_getDefinition a s) (then_step C sc)"
  unfolding use_getDefinition_def by (intro draw_steps)

lemma draw_path_step [draw_steps]: "step C sc s \<Longrightarrow> after (draw_path n pf a c s) (step C sc)"
proof (induction n arbitrary: a s)
  case (Suc n)
  show ?case unfolding draw_path.simps by (intro draw_steps Suc.IH) (assumption | rule Suc.prems)+
qed (simp add: after_def)

lemma when_some_step [draw_steps]:
  "step C sc (snd p) \<Longrightarrow> (\<And>q s. step C sc s \<Longrightarrow> step C sc (f q s)) \<Longrightarrow> step C sc (when_some f p)"
  by (cases p) (auto simp: when_some_def split: option.splits)

lemma step_if [draw_steps]: "(b \<Longrightarrow> step C sc s) \<Longrightarrow> (\<not> b \<Longrightarrow> step C sc t) \<Longrightarrow> step C sc (if b then s else t)"
  by simp

lemma set_style_op_step [draw_steps]: "step C sc s \<Longrightarrow> step C sc (set_style_op c a name field s)"
  unfolding set_style_op_def by (intro draw_steps)

lemma set_opacity_step [draw_steps]: "step C sc s \<Longrightarrow> step C sc (set_opacity a c s)"
  unfolding set_opacity_def by (intro draw_steps)

lemma context_steps [draw_steps]:
  assumes s: "step C sc s" and c: "c \<in> C \<or> length (sc_canvases sc) \<le> c"
  shows "after (stroke_width pf a c s) (step C sc)" "after (set_font pf a c s) (step C sc)"
    "after (set_transform pf a c s) (step C sc)" "step C sc (initial_strokes pf c s)"
  unfolding stroke_width_def set_font_def set_transform_def initial_strokes_def
  by (intro draw_steps; (rule s c))+

lemma clip_apply_step [draw_steps]: "step C sc s \<Longrightarrow> after (clip_apply n pf k c s) (step C sc)"
  unfolding clip_apply_def by (intro draw_steps; assumption)

lemma place_steps [draw_steps]:
  assumes s: "step C sc s"
  shows "after (set_clip n pf a c s) (step C sc)" "after (filter_child n pf j w h s child) (step C sc)"
    "after (svg_offset pf a c s) (step C sc)" "after (svg_size pf is_root a c s) (then_step C sc)"
  unfolding set_clip_def filter_child_def svg_offset_def svg_size_def
  by (intro draw_steps; (assumption | rule s))+

text \<open>A canvas that saves its state, draws and restores it is as it was.\<close>

lemma save_step: "step C sc s \<Longrightarrow> step {c} (canvas_save c s) t \<Longrightarrow> step C sc (canvas_restore c t)"
  using save_restore step_mono step_trans by blast

lemma image_step [draw_steps]: "step C sc s \<Longrightarrow> after (image_renderChildren pf a c s) (step C sc)"
  unfolding image_renderChildren_def
  by (auto simp: after_def bind_res_Inr_iff Let_def split: if_splits intro!: save_step emit_ops_step step_refl)

section \<open>Views\<close>

lemma symbol_element: "class_of sc a = ''symbol'' \<Longrightarrow> \<not> symbol_free sc"
  by (cases "a < length (st_elements (sc_svg sc))")
    (simp_all add: class_of_def element_def blank_element_def symbol_free_def, metis image_eqI nth_mem)

lemma push_step: "step C sc s \<Longrightarrow> \<not> symbol_free sc \<Longrightarrow> step C sc (push_view w h s)"
  by (simp add: step_def push_view_def)

lemma pop_push [simp]: "pop_view (push_view w h s) = s"
  by (simp add: pop_view_def push_view_def RemoveCurrent_def SetCurrent_def)

lemma pop_emit [simp]: "pop_view (emit_ops c ops s) = emit_ops c ops (pop_view s)"
  by (simp add: pop_view_def emit_ops_def emit_def update_canvas_def)

lemma pop_step: "step {c} s (pop_view t) \<Longrightarrow> step {} t u \<Longrightarrow> step {c} s (pop_view u)"
  by (auto simp: step_def pop_view_def symbol_free_def intro: kept_trans)

lemma viewBox_step: "step C sc s \<Longrightarrow> after (svg_viewBox pf a c (push_view w h s)) (\<lambda>t. step C sc (pop_view t))"
  unfolding svg_viewBox_def Let_def case_prod_unfold
  by (auto simp: after_def bind_res_Inr_iff split: if_splits intro!: draw_steps)

section \<open>What draws other elements\<close>

locale drawer =
  fixes r :: renderer_fn
  assumes balanced: "after (r a c mark sc) (step {} sc)"
begin

lemma r_step [draw_steps]: "step C sc s \<Longrightarrow> after (r a c mark s) (step C sc)"
  using balanced [of a c mark s] step_trans [OF _ step_mono] by (simp add: after_def)

lemma gradient_drawn [draw_steps]:
  assumes s: "step C sc s"
  shows "after (transformed_gradient pf r g p s) (then_step C sc)" "after (createPattern pf r g s) (then_step C sc)"
proof -
  show "after (transformed_gradient pf r g p s) (then_step C sc)"
    unfolding transformed_gradient_def
    by (intro draw_steps; (assumption | rule s | simp)?)
  show "after (createPattern pf r g s) (then_step C sc)"
    unfolding createPattern_def
    by (intro draw_steps; (assumption | rule s | simp)?)
qed

lemma createGradient_step [draw_steps]: "step C sc s \<Longrightarrow> after (createGradient n pf r g a s) (then_step C sc)"
  unfolding createGradient_def by (intro draw_steps; assumption?)

lemma paint_steps [draw_steps]:
  assumes s: "step C sc s"
  shows "after (getFillStyle n pf r p a s) (then_step C sc)" "after (style_paint n pf r name opacity a s) (then_step C sc)"
proof -
  show g: "after (getFillStyle n pf r p a s) (then_step C sc)" for p
    unfolding getFillStyle_def by (intro draw_steps; (assumption | rule s)?)
  show "after (style_paint n pf r name opacity a s) (then_step C sc)"
    unfolding style_paint_def by (intro draw_steps g; (assumption | rule s)?)
qed

lemma rendered_step [draw_steps]:
  "step C sc s \<Longrightarrow> c \<in> C \<or> length (sc_canvases sc) \<le> c \<Longrightarrow> after (rendered_setContext n pf r a c s) (step C sc)"
  unfolding rendered_setContext_def by (intro draw_steps; assumption?)

text \<open>What an element does to the canvas and the view ports before its content is drawn.\<close>

lemma setContext_step:
  "after (setContext n pf r a c s) (\<lambda>t. step {c} s (clearContext (class_of s a) t))"
proof -
  have svg: "after (svg_setContext n pf r is_root a c s) (\<lambda>t. step {c} s (pop_view t))" for is_root
  proof -
    have 1: "after (rendered_setContext n pf r a c (initial_strokes pf c s)) (step {c} s)"
      by (intro draw_steps; simp)
    have 2: "step {c} s t \<Longrightarrow> after (svg_offset pf a c t) (step {c} s)"
      "step {c} s t \<Longrightarrow> after (svg_size pf is_root a c t) (then_step {c} s)" for t
      by (intro draw_steps; assumption)+
    show ?thesis
      unfolding svg_setContext_def 
      by (rule after_bind [OF 1], rule after_bind [OF 2(1)], assumption, rule after_bind [OF 2(2)], assumption,
        simp add: case_prod_unfold viewBox_step)
  qed
  have symbol: "after (symbol_setContext n pf r a c s) (step {c} s)" if "class_of s a = ''symbol''"
    unfolding symbol_setContext_def using symbol_element [OF that]
    by (intro draw_steps push_step; simp?)
  have use: "after (use_setContext n pf r a c s) (step {c} s)"
    unfolding use_setContext_def by (intro draw_steps; (assumption | simp)?)
  have words: "after (text_setContext n pf r a c s) (step {c} s)"
    unfolding text_setContext_def by (intro draw_steps; (assumption | simp)?)
  have "after (rendered_setContext n pf r a c s) (step {c} s)" by (intro draw_steps) simp
  then show ?thesis
    using svg symbol use words step_refl by (auto simp: setContext_def clearContext_def Let_def after_def)
qed

section \<open>Words, masks, filters and markers\<close>

lemma measure_canvas_step [draw_steps]:
  assumes s: "step C sc s"
  shows "after (measure_canvas n pf r a c t s) (then_step C sc)"
proof -
  have "after (rendered_setContext n pf r a c (canvas_save c s)) (step {c} (canvas_save c s))" by (intro draw_steps) simp
  then show ?thesis using save_step [OF s] by (auto simp: measure_canvas_def after_def bind_res_Inr_iff)
qed

lemma measureText_step [draw_steps]: "step C sc s \<Longrightarrow> after (measureText n pf r a c s) (then_step C sc)"
  unfolding measureText_def by (intro draw_steps; assumption?)

lemma draw_glyph_step [draw_steps]:
  "step C sc s \<Longrightarrow> c \<in> C \<or> length (sc_canvases sc) \<le> c \<Longrightarrow> after (draw_glyph pf r f sz it t dx a c s i) (step C sc)"
  unfolding draw_glyph_def by (intro draw_steps; assumption?)

lemma text_step [draw_steps]:
  "step C sc s \<Longrightarrow> c \<in> C \<or> length (sc_canvases sc) \<le> c \<Longrightarrow> after (text_renderChildren n pf r a c s) (step C sc)"
  unfolding text_renderChildren_def by (intro draw_steps; assumption?)

lemma group_length_step [draw_steps]: "step C sc s \<Longrightarrow> after (group_length n pf r c len ks s) (then_step C sc)"
proof (induction ks arbitrary: len s)
  case (Cons k ks)
  show ?case unfolding group_length.simps by (intro draw_steps Cons.IH) (assumption | rule Cons.prems)+
qed (simp add: after_def)

lemma draw_parts_step [draw_steps]:
  "step C sc s \<Longrightarrow> after (draw_parts n pf r c anchor first x y ks s) (step C sc)"
proof (induction ks arbitrary: first x y s)
  case (Cons k ks)
  have "step C sc t \<Longrightarrow> after (anchored n pf r c anchor first v len k ks t) (then_step C sc)" for v len t
    unfolding anchored_def by (intro draw_steps; assumption?)
  then show ?case unfolding draw_parts.simps by (intro draw_steps Cons.IH; assumption?) (simp_all add: Cons.prems)
qed (simp add: after_def)

lemma textelement_step [draw_steps]: "step C sc s \<Longrightarrow> after (textelement_renderChildren n pf r a c s) (step C sc)"
  unfolding textelement_renderChildren_def by (intro draw_steps; assumption?)

lemma draw_markers_step [draw_steps]: "step C sc s \<Longrightarrow> after (draw_markers r a c name ms s) (step C sc)"
  unfolding draw_markers_def by (intro draw_steps; assumption?)

lemma path_children_step [draw_steps]: "step C sc s \<Longrightarrow> after (path_renderChildren n pf r a c s) (step C sc)"
  unfolding path_renderChildren_def by (intro draw_steps; assumption?)

lemma children_step [draw_steps]: "step C sc s \<Longrightarrow> after (renderChildren_of r c ks s) (step C sc)"
  unfolding renderChildren_of_def by (intro draw_steps; assumption?)

lemma apply_steps [draw_steps]:
  assumes s: "step C sc s" and c: "c \<in> C \<or> length (sc_canvases sc) \<le> c"
  shows "after (mask_apply pf r m c a s) (step C sc)" "after (filter_apply n pf r f c a s) (step C sc)"
    "after (apply_definition n pf r def c a s) (step C sc)"
proof -
  show m: "after (mask_apply pf r m c a s) (step C sc)" for m
    unfolding mask_apply_def by (intro draw_steps; (assumption | rule s c)?)
  show f: "after (filter_apply n pf r f c a s) (step C sc)" for f
    unfolding filter_apply_def by (intro draw_steps; (assumption | rule s c)?)
  show "after (apply_definition n pf r def c a s) (step C sc)"
    unfolding apply_definition_def by (intro draw_steps m f; (assumption | rule s c)?)
qed

lemma other_children_steps [draw_steps]:
  assumes s: "step C sc s" and c: "c \<in> C \<or> length (sc_canvases sc) \<le> c"
  shows "after (use_renderChildren r a c s) (step C sc)" "after (link_renderChildren n pf r a c s) (step C sc)"
proof -
  have box: "step C sc t \<Longrightarrow> after (link_box n pf r a c t) (step C sc)" for t
    unfolding link_box_def by (intro draw_steps; assumption?)
  show "after (link_renderChildren n pf r a c s) (step C sc)"
    unfolding link_renderChildren_def by (intro draw_steps box; (assumption | rule s c | simp)?)
  show "after (use_renderChildren r a c s) (step C sc)"
    unfolding use_renderChildren_def by (intro draw_steps; (assumption | rule s)?)
qed

lemma content_step [draw_steps]:
  assumes s: "step C sc s" and c: "c \<in> C \<or> length (sc_canvases sc) \<le> c"
  shows "after (render_content n pf r a c s) (step C sc)"
proof -
  have kids: "after (renderChildren n pf r a c s) (step C sc)"
    unfolding renderChildren_def by (intro draw_steps; (assumption | rule s c)?)
  show ?thesis unfolding render_content_def by (intro draw_steps kids; (assumption | rule s c)?)
qed

lemma marker_step: "step C sc s \<Longrightarrow> after (marker_render r a c p angle s) (step C sc)"
proof -
  assume s: "step C sc s"
  show ?thesis
    unfolding marker_render_def Let_def case_prod_unfold
    by (rule after_bind [where P = "step {c} (canvas_save c (emit_ops c (CTranslate (fst p) (snd p) #
          when_op (marker_turns s a) (CRotate (case angle of Some x \<Rightarrow> x | None \<Rightarrow> zero)) @
          when_op (marker_units s a) (CScale (dr_lineWidth (now c s)) (dr_lineWidth (now c s)))) s))"])
      (rule draw_steps, rule temp_element_step, rule step_refl, simp, simp add: after_def,
       rule emit_ops_step, erule save_step [rotated], rule emit_ops_step, rule s)
qed

text \<open>One element: what it draws lies between a save and a restore of its own.\<close>

lemma render_step_balanced: "after (render_step n pf r a c mark s) (step {} s)"
proof -
  have "after (base_render n pf r a c s) (step {} s)"
  proof (cases "prop_value (style_of s a ''display'') = Str ''none'' \<or> prop_value (attr s a ''visibility'') = Str ''hidden''")
    case True
    then show ?thesis by (auto simp: base_render_def after_def intro: step_refl)
  next
    case False
    have same: "class_of (canvas_save c s) a = class_of s a"
      by (simp add: class_of_def element_def canvas_save_def emit_ops_def emit_def update_canvas_def)
    have "step {} s (canvas_restore c (clearContext (class_of s a) u))"
      if "setContext n pf r a c (canvas_save c s) = Inr t" "render_content n pf r a c t = Inr u" for t u
    proof -
      have 1: "step {c} (canvas_save c s) (clearContext (class_of s a) t)"
        using setContext_step [of n pf a c "canvas_save c s"] that(1) same by (simp add: after_def)
      have 2: "step {c} t u" using content_step [OF step_refl, of c "{c}" t n pf a] that(2) by (simp add: after_def)
      have "step {c} (canvas_save c s) (clearContext (class_of s a) u)"
        using 1 2 by (auto simp: clearContext_def step_def pop_view_def symbol_free_def split: if_splits intro: kept_trans)
      then show ?thesis by (rule save_restore)
    qed
    then show ?thesis using False by (auto simp: base_render_def after_def bind_res_Inr_iff)
  qed
  then show ?thesis
    using marker_step [OF step_refl] step_refl
    by (auto simp: render_step_def after_def split: option.splits)
qed

end

lemma drawer_render: "drawer (render n pf)"
proof (induction n)
  case 0
  show ?case by unfold_locales (simp add: after_def)
next
  case (Suc n)
  show ?case by unfold_locales (simp add: drawer.render_step_balanced [OF Suc])
qed

interpretation rendering: drawer "render n pf" for n pf
  by (rule drawer_render)


text \<open>A group without attributes, drawn in a view port of 4 by 3.\<close>

definition plain_platform :: platform where
  "plain_platform = \<lparr>pf_math = flat_math, pf_font = (\<lambda>old new. new), pf_lineWidth = (\<lambda>old new. new),
     pf_paint = (\<lambda>old new. new),
     pf_fresh = \<lparr>dr_font = ''10px sans-serif'', dr_lineWidth = one, dr_fill = Color (Str ''#000000''), dr_stroke = Color (Str ''#000000'')\<rparr>,
     pf_inPath = (\<lambda>ops x y. False), pf_measure = (\<lambda>font t. zero), pf_image = (\<lambda>a. (one, one)), pf_stop = (\<lambda>st. True)\<rparr>"

definition sample_scene :: scene where
  "sample_scene = \<lparr>sc_svg = empty_state\<lparr>st_elements := [blank_element ''g'']\<rparr>,
     sc_views = [(num_of_int 4, num_of_int 3)],
     sc_canvases = [\<lparr>cv_now = pf_fresh plain_platform, cv_saved = [], cv_log = [], cv_width = one, cv_height = one\<rparr>],
     sc_texts = [], sc_events = [], sc_hits = []\<rparr>"

definition bare :: "scene \<Rightarrow> bool" where
  "bare sc \<longleftrightarrow> (\<exists>t. sc_svg sc = empty_state\<lparr>st_elements := [(blank_element ''g'')\<lparr>el_type := t\<rparr>]\<rparr>)"

lemma bare_reads:
  assumes "bare sc"
  shows "attr sc 0 name = fresh_prop name" "style_of sc 0 name = fresh_prop name" "class_of sc 0 = ''g''"
    "el_children (element sc 0) = []"
  using assms
  by (auto simp: bare_def attr_def style_of_def style_def style_at.simps attribute_def own_attribute_def prop_or_fresh_def
      hasValue_def fresh_prop_def class_of_def element_def blank_element_def empty_state_def)

lemma bare_canvas [simp]:
  "bare (update_canvas c f sc) \<longleftrightarrow> bare sc" "bare (emit c ops sc) \<longleftrightarrow> bare sc" "bare (emit_ops c cops sc) \<longleftrightarrow> bare sc"
  "bare (set_drawing c g sc) \<longleftrightarrow> bare sc" "bare (assign_font pf c fnt sc) \<longleftrightarrow> bare sc" "bare (canvas_save c sc) \<longleftrightarrow> bare sc"
  by (simp_all add: bare_def update_canvas_def emit_def emit_ops_def set_drawing_def assign_font_def canvas_save_def)

lemma bare_values: "\<not> hasValue (fresh_prop name)" "prop_value (fresh_prop name) = Str ''''" "is_url (fresh_prop name) = Inr False"
  by (simp_all add: fresh_prop_def hasValue_def is_url_def value_text_def isUrl_def)

lemma bare_parts:
  assumes "bare sc"
  shows "style_paint n pf r name opacity 0 sc = Inr (None, sc)" "stroke_width pf 0 c sc = Inr sc"
    "set_style_op c 0 name field sc = sc" "set_transform pf 0 c sc = Inr sc" "set_clip n pf 0 c sc = Inr sc"
    "set_opacity 0 c sc = sc" "\<exists>f. set_font pf 0 c sc = Inr (assign_font pf c f sc)"
  by (simp_all add: style_paint_def stroke_width_def set_style_op_def set_transform_def set_clip_def set_opacity_def
      set_font_def bare_reads [OF assms] bare_values Let_def)
    blast

lemma bare_context:
  assumes "bare sc"
  shows "\<exists>t. rendered_setContext n pf r 0 c sc = Inr t \<and> bare t"
proof -
  obtain f where f: "set_font pf 0 c sc = Inr (assign_font pf c f sc)" using bare_parts(7) [OF assms] by blast
  have "bare (assign_font pf c f sc)" using assms by simp
  then show ?thesis
    by (simp add: rendered_setContext_def bare_parts [OF assms] when_some_def f bare_parts)
qed

lemma bare_drawn:
  assumes "bare sc"
  shows "\<exists>sc'. render 1 pf 0 c None sc = Inr sc'"
proof -
  obtain t where t: "rendered_setContext 0 pf (render 0 pf) 0 c (canvas_save c sc) = Inr t" "bare t"
    using bare_context [of "canvas_save c sc" 0 pf "render 0 pf" c] assms by auto
  then show ?thesis
    using assms by (simp add: render_step_def base_render_def bare_reads silent_classes_def setContext_def rendered_classes_def
        outline_classes_def text_classes_def bare_values render_content_def renderChildren_def renderChildren_of_def Let_def)
qed

lemma bare_sample: "bare sample_scene"
  by (auto simp: bare_def sample_scene_def blank_element_def intro: exI [of _ "[]"])


end
