(* ===== verification/Canvg_Blur.thy ===== *)
theory Canvg_Blur
  imports Canvg_Geometry
begin

text \<open>
  The Gaussian blur of canvg, modules/canvas-tools.src.js: the mask, its normalisation, and the
  convolution of an image with it, first along the rows and then along the columns. An image
  from a canvas is an array of bytes, which clamps what is written into it; the image between the
  two passes is a plain array, which takes any number as an index. The lemmas show when the mask
  is finished, and that the two passes compute the convolution in both directions.
\<close>

section \<open>Arrays of samples\<close>

datatype samples = Bytes "int list" | Cells "jsnum \<Rightarrow> jsnum option"

text \<open>An index is turned into a text; both zeros are the same one.\<close>

definition index_key :: "jsnum \<Rightarrow> jsnum" where
  "index_key n = (if n = NZero then Fin 0 else n)"

definition byte_index :: "nat \<Rightarrow> jsnum \<Rightarrow> nat option" where
  "byte_index len n = (case index_key n of
     Fin q \<Rightarrow> if q = of_int \<lfloor>q\<rfloor> \<and> 0 \<le> q \<and> \<lfloor>q\<rfloor> < int len then Some (nat \<lfloor>q\<rfloor>) else None
   | _ \<Rightarrow> None)"

text \<open>A missing sample is undefined, which is NaN in the sums that it is read for.\<close>

definition read_sample :: "samples \<Rightarrow> jsnum \<Rightarrow> jsnum" where
  "read_sample img n = (case img of
     Bytes bs \<Rightarrow> (case byte_index (length bs) n of Some i \<Rightarrow> num_of_int (bs ! i) | None \<Rightarrow> NaN)
   | Cells m \<Rightarrow> (case m (index_key n) of Some v \<Rightarrow> v | None \<Rightarrow> NaN))"

text \<open>Clamped bytes round to the nearest whole number, ties to even.\<close>

definition clamp_byte :: "jsnum \<Rightarrow> int" where
  "clamp_byte v = (case v of Fin q \<Rightarrow> max 0 (min 255 (rne q)) | PInf \<Rightarrow> 255 | _ \<Rightarrow> 0)"

definition write_sample :: "samples \<Rightarrow> jsnum \<Rightarrow> jsnum \<Rightarrow> samples" where
  "write_sample img n v = (case img of
     Bytes bs \<Rightarrow> (case byte_index (length bs) n of Some i \<Rightarrow> Bytes (bs[i := clamp_byte v]) | None \<Rightarrow> Bytes bs)
   | Cells m \<Rightarrow> Cells (m(index_key n \<mapsto> v)))"

section \<open>The mask\<close>

definition math_ceil :: "jsnum \<Rightarrow> jsnum" where
  "math_ceil x = (case x of
     Fin q \<Rightarrow> if \<lceil>q\<rceil> = 0 \<and> q < 0 then NZero else Fin (of_int \<lceil>q\<rceil>)
   | _ \<Rightarrow> x)"

text \<open>The counter of the loop is a number, and the loop does not end for an infinite \<open>len\<close>.\<close>

definition gauss_entry :: "math_fns \<Rightarrow> jsnum \<Rightarrow> jsnum \<Rightarrow> jsnum" where
  "gauss_entry fns sigma i = m_exp fns (js_mul (js_mul (literal (- 1 / 2)) (js_div i sigma)) (js_div i sigma))"

partial_function (option) gauss_loop :: "math_fns \<Rightarrow> jsnum \<Rightarrow> jsnum \<Rightarrow> jsnum \<Rightarrow> jsnum list \<Rightarrow> jsnum list option" where
  "gauss_loop fns sigma len i ms =
     (if num_lt i len then gauss_loop fns sigma len (js_add i one) (ms @ [gauss_entry fns sigma i]) else Some ms)"

definition gauss_len :: "jsnum \<Rightarrow> jsnum" where
  "gauss_len sigma = js_add (math_ceil (js_mul sigma (num_of_int 4))) one"

definition make_fgauss :: "math_fns \<Rightarrow> jsnum \<Rightarrow> jsnum list option" where
  "make_fgauss fns sigma0 = (let sigma = math_max sigma0 (literal (1 / 100)) in
     gauss_loop fns sigma (gauss_len sigma) zero [])"

text \<open>An entry that an empty mask does not have is undefined.\<close>

definition entry :: "jsnum list \<Rightarrow> nat \<Rightarrow> jsnum" where
  "entry ms i = (case list_at ms i of Some v \<Rightarrow> v | None \<Rightarrow> NaN)"

definition normalize :: "jsnum list \<Rightarrow> jsnum list" where
  "normalize ms =
     (let half = foldl (\<lambda>sum v. js_add sum (math_abs v)) zero (tl ms);
          sum = js_add (js_mul (num_of_int 2) half) (math_abs (entry ms 0)) in
      map (\<lambda>v. js_div v sum) ms)"

section \<open>The convolution\<close>

definition pixel_index :: "jsnum \<Rightarrow> jsnum \<Rightarrow> jsnum \<Rightarrow> jsnum \<Rightarrow> jsnum" where
  "pixel_index x y width rgba =
     js_add (js_add (js_mul (js_mul y width) (num_of_int 4)) (js_mul x (num_of_int 4))) rgba"

definition imGet :: "samples \<Rightarrow> jsnum \<Rightarrow> jsnum \<Rightarrow> jsnum \<Rightarrow> jsnum \<Rightarrow> jsnum \<Rightarrow> jsnum" where
  "imGet img x y width height rgba = read_sample img (pixel_index x y width rgba)"

definition imSet :: "samples \<Rightarrow> jsnum \<Rightarrow> jsnum \<Rightarrow> jsnum \<Rightarrow> jsnum \<Rightarrow> jsnum \<Rightarrow> jsnum \<Rightarrow> samples" where
  "imSet img x y width height rgba v = write_sample img (pixel_index x y width rgba) v"

text \<open>A sample and its weight; a pixel without opacity counts as 255 in every channel.\<close>

definition sample_value :: "(jsnum \<Rightarrow> jsnum \<Rightarrow> jsnum \<Rightarrow> jsnum) \<Rightarrow> jsnum \<Rightarrow> jsnum \<Rightarrow> jsnum \<Rightarrow> jsnum \<times> jsnum" where
  "sample_value get x y rgba =
     (let a = js_div (get x y (num_of_int 3)) (num_of_int 255); clear = num_eq a zero in
      (if clear then num_of_int 255 else get x y rgba, if clear \<or> num_eq rgba (num_of_int 3) then one else a))"

definition pair_term :: "(jsnum \<Rightarrow> jsnum \<Rightarrow> jsnum \<Rightarrow> jsnum) \<Rightarrow> jsnum \<Rightarrow> jsnum \<Rightarrow> jsnum \<Rightarrow> jsnum \<Rightarrow> jsnum \<Rightarrow> jsnum" where
  "pair_term get width x y rgba i =
     (let (v1, w1) = sample_value get (math_max (js_sub x i) zero) y rgba;
          (v2, w2) = sample_value get (math_min (js_add x i) (js_sub width one)) y rgba in
      js_add (js_mul v1 w1) (js_mul v2 w2))"

definition cell_sum :: "(jsnum \<Rightarrow> jsnum \<Rightarrow> jsnum \<Rightarrow> jsnum) \<Rightarrow> jsnum list \<Rightarrow> jsnum \<Rightarrow> jsnum \<Rightarrow> jsnum \<Rightarrow> jsnum \<Rightarrow> jsnum" where
  "cell_sum get ms width x y rgba =
     (let (v, w) = sample_value get x y rgba in
      foldl (\<lambda>sum i. js_add sum (js_mul (ms ! i) (pair_term get width x y rgba (num_of_int (int i)))))
        (js_mul (js_mul (entry ms 0) v) w) [1..<length ms])"

text \<open>The counts of a loop from 0 below a finite number.\<close>

definition counts :: "jsnum \<Rightarrow> jsnum list" where
  "counts n = map (\<lambda>i. num_of_int (int i)) [0..<nat \<lceil>rat_of n\<rceil>]"

definition convolve_even :: "samples \<Rightarrow> samples \<Rightarrow> jsnum list \<Rightarrow> jsnum \<Rightarrow> jsnum \<Rightarrow> samples" where
  "convolve_even src dst ms width height =
     foldl (\<lambda>d y. foldl (\<lambda>d x. foldl (\<lambda>d rgba.
         imSet d y x height width rgba (cell_sum (\<lambda>x y rgba. imGet src x y width height rgba) ms width x y rgba))
       d (counts (num_of_int 4))) d (counts width)) dst (counts height)"

text \<open>
  The image of a canvas is the platform's answer. It refuses a side that is 0 as a whole number,
  as NaN and the infinities are, so the counts of the loops are finite. What comes back is what
  is done to the canvas, or \<open>None\<close> when the loop of the mask does not end.
\<close>

datatype image_op = ClearImage jsnum jsnum | PutImage "int list"

definition whole_side :: "jsnum \<Rightarrow> int" where
  "whole_side n = (if is_finite n then (let q = rat_of n in if q < 0 then - \<lfloor>- q\<rfloor> else \<lfloor>q\<rfloor>) else 0)"

definition getImageData :: "int list res \<Rightarrow> jsnum \<Rightarrow> jsnum \<Rightarrow> int list res" where
  "getImageData answer width height = (if whole_side width = 0 \<or> whole_side height = 0
     then Inl (Thrown ''IndexSizeError'') else answer)"

definition sample_bytes :: "samples \<Rightarrow> int list" where
  "sample_bytes img = (case img of Bytes bs \<Rightarrow> bs | Cells m \<Rightarrow> [])"

definition blur :: "math_fns \<Rightarrow> int list res \<Rightarrow> jsnum \<Rightarrow> jsnum \<Rightarrow> jsnum \<Rightarrow> image_op list option res" where
  "blur fns answer width height sigma = bind_res (getImageData answer width height) (\<lambda>data.
     Inr (map_option (\<lambda>mask0.
       let ms = normalize mask0;
           tmp = convolve_even (Bytes data) (Cells (\<lambda>_. None)) ms width height;
           out = convolve_even tmp (Bytes data) ms height width in
       [ClearImage width height, PutImage (sample_bytes out)]) (make_fgauss fns sigma)))"

section \<open>When the mask is finished\<close>

lemma gauss_loop_counts:
  assumes "0 \<le> k" "k \<le> n" "n \<le> 2 ^ 53"
  shows "gauss_loop fns sigma (num_of_int n) (num_of_int k) ms =
    Some (ms @ map (\<lambda>i. gauss_entry fns sigma (num_of_int i)) [k..n - 1])"
  using assms
proof (induction "nat (n - k)" arbitrary: k ms)
  case 0
  then show ?case by (subst gauss_loop.simps) simp
next
  case (Suc m)
  then have k: "k < n" "\<bar>k + 1\<bar> \<le> 2 ^ 53" by auto
  have next_count: "js_add (num_of_int k) one = num_of_int (k + 1)" using js_add_int [OF k(2)] by simp
  have "m = nat (n - (k + 1))" using Suc by simp
  then have "gauss_loop fns sigma (num_of_int n) (num_of_int (k + 1)) (ms @ [gauss_entry fns sigma (num_of_int k)]) =
      Some ((ms @ [gauss_entry fns sigma (num_of_int k)]) @ map (\<lambda>i. gauss_entry fns sigma (num_of_int i)) [k + 1..n - 1])"
    using Suc.hyps(1) [of "k + 1"] Suc.prems k by simp
  then show ?case
    using k(1) next_count by (subst gauss_loop.simps) (simp add: upto_rec1 [of k])
qed

text \<open>The counter stays where it is at 2 to the 53.\<close>

lemma rounded_stuck: "rounded (2 ^ 53 + 1) = 2 ^ 53"
proof -
  have "ilog2 (2 ^ 53 + 1) = 53" by (rule ilog2_unique) simp_all
  then have "ulp (2 ^ 53 + 1) = 2" by (simp add: ulp_def)
  moreover have "\<lfloor>(2 ^ 53 + 1) / 2 :: rat\<rfloor> = 2 ^ 52" by (rule floor_unique) simp_all
  then have "rne ((2 ^ 53 + 1) / 2) = 2 ^ 52" by (simp add: rne_def Let_def)
  ultimately show ?thesis by (simp add: rounded_def)
qed

lemma count_bounded:
  assumes "0 \<le> k" "k \<le> 2 ^ 53"
  shows "\<exists>m. js_add (num_of_int k) one = num_of_int m \<and> 0 \<le> m \<and> m \<le> 2 ^ 53"
proof (cases "k = 2 ^ 53")
  case True
  have "js_add (num_of_int (2 ^ 53)) one = num_of_int (2 ^ 53)"
    using rounded_stuck pow2_less_overflow [of 53] by (simp add: js_add_def to_double_def Let_def)
  then show ?thesis using True by (intro exI [of _ "2 ^ 53"]) simp
next
  case False
  then show ?thesis using assms js_add_int [of k 1] by (intro exI [of _ "k + 1"]) simp
qed

definition counting :: "jsnum \<Rightarrow> bool" where
  "counting i \<longleftrightarrow> (\<exists>k. i = num_of_int k \<and> 0 \<le> k \<and> k \<le> 2 ^ 53)"

lemma gauss_loop_endless: "gauss_loop fns sigma len i ms = Some r \<Longrightarrow> \<not> (len = PInf \<and> counting i)"
proof (erule gauss_loop.raw_induct [rotated])
  fix loop :: "math_fns \<Rightarrow> jsnum \<Rightarrow> jsnum \<Rightarrow> jsnum \<Rightarrow> jsnum list \<Rightarrow> jsnum list option"
    and fns sigma len i ms r
  assume rest: "\<And>fns sigma len i ms r. loop fns sigma len i ms = Some r \<Longrightarrow> \<not> (len = PInf \<and> counting i)"
    and body: "(if num_lt i len then loop fns sigma len (js_add i one) (ms @ [gauss_entry fns sigma i]) else Some ms) = Some r"
  show "\<not> (len = PInf \<and> counting i)"
  proof
    assume inf: "len = PInf \<and> counting i"
    then have "num_lt i len" "counting (js_add i one)"
      using count_bounded by (auto simp: counting_def num_lt_def)
    then show False using rest body inf by auto
  qed
qed

lemma smallest_sigma: "\<exists>q. literal (1 / 100) = Fin q \<and> 1 / 128 \<le> q \<and> q \<le> 1"
proof -
  have "1 / 128 \<le> rounded (1 / 100) \<and> rounded (1 / 100) \<le> 1"
    by (rule rounded_between) (use rounded_exact [of 1 "- 7"] in \<open>simp_all add: power_int_def power_one_over\<close>)
  moreover have "1 < overflow" using pow2_less_overflow [of 0] by simp
  ultimately show ?thesis by (auto simp: to_double_def Let_def)
qed

lemma gauss_len_counts:
  assumes "1 / 128 \<le> q" "q \<le> 2 ^ 50"
  shows "\<exists>n. gauss_len (Fin q) = num_of_int n \<and> 2 \<le> n \<and> n \<le> 2 ^ 52 + 1"
proof -
  define r where "r = rounded (q * 4)"
  have r: "1 / 32 \<le> r \<and> r \<le> 2 ^ 52"
    unfolding r_def
    by (rule rounded_between) (use assms rounded_exact [of 1 "- 5"] rounded_exact [of 1 52] in \<open>simp_all add: power_int_def power_one_over\<close>)
  have "js_mul (Fin q) (num_of_int 4) = Fin r"
    using js_mul_rounded [of "Fin q" "Fin 4" 52] assms r
    by (cases "js_mul (Fin q) (Fin 4)") (auto simp: r_def)
  moreover have c: "1 \<le> \<lceil>r\<rceil>" "\<lceil>r\<rceil> \<le> 2 ^ 52" using r by (auto simp: ceiling_le_iff)
  ultimately have "gauss_len (Fin q) = js_add (num_of_int \<lceil>r\<rceil>) one"
    by (simp add: gauss_len_def math_ceil_def)
  moreover have "js_add (num_of_int \<lceil>r\<rceil>) one = num_of_int (\<lceil>r\<rceil> + 1)" using js_add_int [of "\<lceil>r\<rceil>" 1] c by simp
  ultimately show ?thesis using c by (intro exI [of _ "\<lceil>r\<rceil> + 1"]) simp
qed

lemma make_fgauss_counts:
  assumes "num_le sigma (Fin (2 ^ 50))"
  shows "\<exists>n \<ge> 2. n \<le> 2 ^ 52 + 1 \<and> make_fgauss fns sigma =
    Some (map (\<lambda>i. gauss_entry fns (math_max sigma (literal (1 / 100))) (num_of_int i)) [0..n - 1])"
proof -
  obtain q0 where q0: "literal (1 / 100) = Fin q0" "1 / 128 \<le> q0" "q0 \<le> 1" using smallest_sigma by auto
  have "\<exists>q. math_max sigma (literal (1 / 100)) = Fin q \<and> 1 / 128 \<le> q \<and> q \<le> 2 ^ 50"
    using q0 assms by (cases sigma) (auto simp: math_max_def num_cmp_defs)
  then obtain q n where q: "math_max sigma (literal (1 / 100)) = Fin q" "gauss_len (Fin q) = num_of_int n"
    "2 \<le> n" "n \<le> 2 ^ 52 + 1"
    using gauss_len_counts by blast
  then show ?thesis
    using gauss_loop_counts [of 0 n fns "Fin q" "[]"] by (intro exI [of _ n]) (simp add: make_fgauss_def)
qed

text \<open>
  C32: the mask of a blur is finished unless the deviation is infinite. For a deviation up to
  \<open>2 ^ 50\<close> it has at least two entries, each the bell curve of the deviation, which counts as
  0.01 when it is less; for NaN the mask is empty; and for Infinity the loop that fills it never
  ends.
\<close>

theorem make_fgauss_ends:
  "make_fgauss fns PInf = None \<and> make_fgauss fns NaN = Some [] \<and>
   (num_le sigma (Fin (2 ^ 50)) \<longrightarrow> (\<exists>n \<ge> 2. make_fgauss fns sigma =
      Some (map (\<lambda>i. gauss_entry fns (math_max sigma (literal (1 / 100))) (num_of_int i)) [0..n - 1])))"
proof (intro conjI impI)
  obtain q0 where q0: "literal (1 / 100) = Fin q0" "1 / 128 \<le> q0" "q0 \<le> 1" using smallest_sigma by auto
  have "gauss_len PInf = PInf" by (simp add: gauss_len_def js_mul_def math_ceil_def js_add_def signed_inf_def)
  then show "make_fgauss fns PInf = None"
    using gauss_loop_endless [of fns PInf PInf zero "[]"] q0
    by (cases "gauss_loop fns PInf PInf zero []") (auto simp: make_fgauss_def math_max_def num_lt_def counting_def intro: exI [of _ 0])
  show "make_fgauss fns NaN = Some []"
    by (simp add: make_fgauss_def math_max_def gauss_len_def js_mul_def math_ceil_def js_add_def gauss_loop.simps num_lt_def)
  assume "num_le sigma (Fin (2 ^ 50))"
  then show "\<exists>n \<ge> 2. make_fgauss fns sigma =
      Some (map (\<lambda>i. gauss_entry fns (math_max sigma (literal (1 / 100))) (num_of_int i)) [0..n - 1])"
    using make_fgauss_counts by blast
qed

theorem make_fgauss_ends_witness:
  "\<exists>n \<ge> 2. make_fgauss flat_math (num_of_int 3) =
     Some (map (\<lambda>i. gauss_entry flat_math (math_max (num_of_int 3) (literal (1 / 100))) (num_of_int i)) [0..n - 1])"
  using make_fgauss_ends [of flat_math "num_of_int 3"] by simp

section \<open>The two passes\<close>

abbreviation num_of_nat :: "nat \<Rightarrow> jsnum" where
  "num_of_nat k \<equiv> Fin (of_nat k)"

lemma js_mul_nat: "m * n \<le> 2 ^ 53 \<Longrightarrow> js_mul (num_of_nat m) (num_of_nat n) = num_of_nat (m * n)"
  using to_double_of_int [of "int (m * n)"] by (simp add: js_mul_def Let_def flip: of_nat_mult)

lemma js_add_nat: "m + n \<le> 2 ^ 53 \<Longrightarrow> js_add (num_of_nat m) (num_of_nat n) = num_of_nat (m + n)"
  using js_add_int [of "int m" "int n"] by (simp add: nat_le_iff)

text \<open>The place of a channel of a pixel, and that two of them never share one.\<close>

definition place :: "nat \<Rightarrow> nat \<Rightarrow> nat \<Rightarrow> nat \<Rightarrow> nat" where
  "place w x y c = (y * w + x) * 4 + c"

lemma place_less:
  assumes "x < w" "y < h" "c < 4"
  shows "place w x y c < 4 * w * h"
proof -
  have "y * w + x < h * w" using assms mult_le_mono1 [of "Suc y" h w] by simp
  then have "(y * w + x + 1) * 4 \<le> h * w * 4" by (intro mult_le_mono1) simp
  then show ?thesis using assms(3) by (simp add: place_def algebra_simps)
qed

lemma place_inject:
  assumes "place w x y c = place w x' y' c'" "x < w" "x' < w" "c < 4" "c' < 4"
  shows "x = x' \<and> y = y' \<and> c = c'"
proof -
  have "c = c'" using arg_cong [OF assms(1), of "\<lambda>n. n mod 4"] assms(4,5)
    by (simp only: place_def mod_mult_self3 mod_less)
  moreover from this have "y * w + x = y' * w + x'" using assms(1) by (simp add: place_def)
  moreover from this have "(y * w + x) mod w = (y' * w + x') mod w" by simp
  then have "x = x'" using assms(2,3)
    by (simp only: mod_mult_self3 mod_less)
  ultimately show ?thesis using assms(2) by simp
qed

lemma pixel_index_place:
  assumes "x < w" "y < h" "c < 4" "4 * w * h \<le> 2 ^ 53"
  shows "pixel_index (num_of_nat x) (num_of_nat y) (num_of_nat w) (num_of_nat c) = num_of_nat (place w x y c)"
proof -
  have le: "place w x y c \<le> 2 ^ 53" using less_le_trans [OF place_less [OF assms(1-3)] assms(4)] by (rule less_imp_le)
  have four: "num_of_int 4 = num_of_nat 4" by simp
  have "y * w * 4 + x * 4 + c = place w x y c" by (simp add: place_def algebra_simps)
  moreover from this le have "y * w \<le> 2 ^ 53" "y * w * 4 \<le> 2 ^ 53" "x * 4 \<le> 2 ^ 53" "y * w * 4 + x * 4 \<le> 2 ^ 53"
    by linarith+
  ultimately show ?thesis using le unfolding pixel_index_def four by (simp only: js_mul_nat js_add_nat)
qed

lemma counts_nat: "counts (num_of_nat n) = map num_of_nat [0..<n]"
  by (simp add: counts_def)

text \<open>A pass as one list of writes.\<close>

lemma foldl_product: "foldl (\<lambda>d y. foldl (\<lambda>d x. f d y x) d xs) d ys = foldl (\<lambda>d (y, x). f d y x) d (List.product ys xs)"
  by (induction ys arbitrary: d) (simp_all add: foldl_map)

definition triples :: "nat \<Rightarrow> nat \<Rightarrow> (nat \<times> nat \<times> nat) list" where
  "triples w h = List.product [0..<h] (List.product [0..<w] [0..<4])"

lemma convolve_writes:
  "convolve_even src dst ms (num_of_nat w) (num_of_nat h) = foldl (\<lambda>d (y, x, c).
     imSet d (num_of_nat y) (num_of_nat x) (num_of_nat h) (num_of_nat w) (num_of_nat c)
       (cell_sum (\<lambda>x y c. imGet src x y (num_of_nat w) (num_of_nat h) c) ms (num_of_nat w) (num_of_nat x) (num_of_nat y) (num_of_nat c)))
     dst (triples w h)"
proof -
  have four: "counts (num_of_int 4) = map num_of_nat [0..<4]" using counts_nat [of 4] by simp
  show ?thesis
    unfolding convolve_even_def four counts_nat triples_def foldl_map
    by (simp only: foldl_product case_prod_unfold fst_conv snd_conv)
qed

lemma byte_index_nat: "n < len \<Longrightarrow> byte_index len (num_of_nat n) = Some n"
  by (simp add: byte_index_def index_key_def)

lemma write_byte: "n < length bs \<Longrightarrow> write_sample (Bytes bs) (num_of_nat n) v = Bytes (bs[n := clamp_byte v])"
  by (simp add: write_sample_def byte_index_nat)

text \<open>Writes to different places are all read back.\<close>

lemma writes_cells:
  fixes place_of :: "'z \<Rightarrow> nat"
  assumes "inj_on place_of (set zs)" "distinct zs" "z \<in> set zs"
  shows "read_sample (foldl (\<lambda>d z. write_sample d (num_of_nat (place_of z)) (v z)) (Cells m) zs) (num_of_nat (place_of z)) = v z"
proof -
  have "\<exists>m'. foldl (\<lambda>d z. write_sample d (num_of_nat (place_of z)) (v z)) (Cells m) zs = Cells m' \<and>
      (\<forall>z \<in> set zs. m' (num_of_nat (place_of z)) = Some (v z))"
    using assms(1,2)
  proof (induction zs rule: rev_induct)
    case (snoc u us)
    then obtain m' where "foldl (\<lambda>d z. write_sample d (num_of_nat (place_of z)) (v z)) (Cells m) us = Cells m'"
      "\<forall>z \<in> set us. m' (num_of_nat (place_of z)) = Some (v z)" by (auto simp: inj_on_insert)
    moreover have "place_of z \<noteq> place_of u" if "z \<in> set us" for z using snoc.prems that by (auto simp: inj_on_def)
    ultimately show ?case by (auto simp: write_sample_def index_key_def)
  qed simp
  then show ?thesis using assms(3) by (auto simp: read_sample_def index_key_def)
qed

lemma writes_bytes:
  fixes place_of :: "'z \<Rightarrow> nat"
  assumes "inj_on place_of (set zs)" "distinct zs" "\<And>z. z \<in> set zs \<Longrightarrow> place_of z < length bs"
  shows "\<exists>out. foldl (\<lambda>d z. write_sample d (num_of_nat (place_of z)) (v z)) (Bytes bs) zs = Bytes out \<and>
    length out = length bs \<and> (\<forall>z \<in> set zs. out ! place_of z = clamp_byte (v z))"
  using assms
proof (induction zs rule: rev_induct)
  case (snoc u us)
  then obtain out where "foldl (\<lambda>d z. write_sample d (num_of_nat (place_of z)) (v z)) (Bytes bs) us = Bytes out"
    "length out = length bs" "\<forall>z \<in> set us. out ! place_of z = clamp_byte (v z)" by (auto simp: inj_on_insert)
  moreover have "place_of u \<noteq> place_of z" if "z \<in> set us" for z using snoc.prems that by (auto simp: inj_on_def)
  moreover have "place_of u < length bs" using snoc.prems(3) by simp
  ultimately show ?case by (auto simp: write_byte)
qed simp

text \<open>At the edges the last pixel of the row counts for the missing ones.\<close>

lemma edge_pixels:
  assumes "x < w" "w + i \<le> 2 ^ 53"
  shows "math_max (js_sub (num_of_nat x) (num_of_nat i)) zero = num_of_nat (x - i)"
    and "math_min (js_add (num_of_nat x) (num_of_nat i)) (js_sub (num_of_nat w) one) = num_of_nat (min (x + i) (w - 1))"
proof -
  have "js_sub (num_of_nat x) (num_of_nat i) = num_of_int (int x - int i)"
    using js_sub_int [of "int x" "int i"] assms by simp
  then show "math_max (js_sub (num_of_nat x) (num_of_nat i)) zero = num_of_nat (x - i)"
    by (cases "x \<le> i") (auto simp: math_max_def num_cmp_defs of_nat_diff)
  have "js_sub (num_of_nat w) one = num_of_nat (w - 1)"
    using js_sub_int [of "int w" 1] assms by (simp add: of_nat_diff)
  moreover have "js_add (num_of_nat x) (num_of_nat i) = num_of_nat (x + i)" using assms by (intro js_add_nat) simp
  ultimately show "math_min (js_add (num_of_nat x) (num_of_nat i)) (js_sub (num_of_nat w) one) = num_of_nat (min (x + i) (w - 1))"
    by (simp add: math_min_def num_cmp_defs min_def flip: of_nat_add)
qed

lemma cell_sum_cong:
  assumes "\<And>x' c'. x' < w \<Longrightarrow> c' < 4 \<Longrightarrow>
      get (num_of_nat x') (num_of_nat y) (num_of_nat c') = get' (num_of_nat x') (num_of_nat y) (num_of_nat c')"
    and "x < w" "c < 4" "w + length ms \<le> 2 ^ 53"
  shows "cell_sum get ms (num_of_nat w) (num_of_nat x) (num_of_nat y) (num_of_nat c) =
    cell_sum get' ms (num_of_nat w) (num_of_nat x) (num_of_nat y) (num_of_nat c)"
proof -
  have sample: "sample_value get (num_of_nat x') (num_of_nat y) (num_of_nat c) =
      sample_value get' (num_of_nat x') (num_of_nat y) (num_of_nat c)" if "x' < w" for x'
    using assms(1) [OF that assms(3)] assms(1) [OF that, of 3] by (simp add: sample_value_def Let_def)
  have pair: "pair_term get (num_of_nat w) (num_of_nat x) (num_of_nat y) (num_of_nat c) (num_of_int (int i)) =
      pair_term get' (num_of_nat w) (num_of_nat x) (num_of_nat y) (num_of_nat c) (num_of_int (int i))" if "i < length ms" for i
  proof -
    have "w + i \<le> 2 ^ 53" "min (x + i) (w - 1) < w" "x - i < w" using that assms(2,4) by auto
    then show ?thesis using edge_pixels [OF assms(2), of i] sample by (simp add: pair_term_def)
  qed
  show ?thesis
    unfolding cell_sum_def sample [OF assms(2)] case_prod_unfold Let_def
    by (intro foldl_cong refl) (use pair in simp)
qed

text \<open>A pixel of the image blurred along the rows, and what blurring the columns makes of it.\<close>

definition row_sum :: "int list \<Rightarrow> jsnum list \<Rightarrow> nat \<Rightarrow> nat \<Rightarrow> jsnum \<Rightarrow> jsnum \<Rightarrow> jsnum \<Rightarrow> jsnum" where
  "row_sum data ms w h x y c =
     cell_sum (\<lambda>x y c. imGet (Bytes data) x y (num_of_nat w) (num_of_nat h) c) ms (num_of_nat w) x y c"

definition blurred_pixel :: "int list \<Rightarrow> jsnum list \<Rightarrow> nat \<Rightarrow> nat \<Rightarrow> nat \<Rightarrow> nat \<Rightarrow> nat \<Rightarrow> int" where
  "blurred_pixel data ms w h x y c = clamp_byte
     (cell_sum (\<lambda>y x c. row_sum data ms w h x y c) ms (num_of_nat h) (num_of_nat y) (num_of_nat x) (num_of_nat c))"

lemma triples_facts:
  "distinct (triples w h)" "set (triples w h) = {(y, x, c). y < h \<and> x < w \<and> c < 4}"
proof -
  show "distinct (triples w h)" by (simp only: triples_def distinct_product distinct_upt)
  show "set (triples w h) = {(y, x, c). y < h \<and> x < w \<and> c < 4}"
    unfolding triples_def List.set_product set_upt atLeast0LessThan
    by (intro set_eqI) (simp only: mem_Times_iff lessThan_iff mem_Collect_eq case_prod_unfold)
qed

lemma triples_inj: "inj_on (\<lambda>(y, x, c). place h y x c) (set (triples w h))"
proof (rule inj_onI)
  fix z z'
  assume z: "z \<in> set (triples w h)" "z' \<in> set (triples w h)"
    and eq: "(case z of (y, x, c) \<Rightarrow> place h y x c) = (case z' of (y, x, c) \<Rightarrow> place h y x c)"
  obtain y x c y' x' c' where zs: "z = (y, x, c)" "z' = (y', x', c')" by (cases z; cases z') auto
  show "z = z'"
    using place_inject [of h y x c y' x' c'] z eq by (simp add: zs triples_facts)
qed

text \<open>The pass from \<open>w\<close> by \<open>h\<close> writes the image with its sides exchanged.\<close>

lemma pass_places:
  assumes "4 * w * h \<le> 2 ^ 53"
  shows "convolve_even src dst ms (num_of_nat w) (num_of_nat h) =
    foldl (\<lambda>d z. write_sample d (num_of_nat (case z of (y, x, c) \<Rightarrow> place h y x c))
      (case z of (y, x, c) \<Rightarrow> cell_sum (\<lambda>x y c. imGet src x y (num_of_nat w) (num_of_nat h) c) ms
         (num_of_nat w) (num_of_nat x) (num_of_nat y) (num_of_nat c))) dst (triples w h)"
proof -
  have "4 * h * w \<le> 2 ^ 53" using assms by (simp add: mult.commute mult.left_commute)
  then show ?thesis
    unfolding convolve_writes
    by (intro foldl_cong refl) (auto simp: triples_facts imSet_def pixel_index_place)
qed

lemma first_pass:
  assumes "4 * w * h \<le> 2 ^ 53" "y < h" "x < w" "c < 4"
  shows "imGet (convolve_even (Bytes data) (Cells m) ms (num_of_nat w) (num_of_nat h))
      (num_of_nat y) (num_of_nat x) (num_of_nat h) (num_of_nat w) (num_of_nat c) =
    row_sum data ms w h (num_of_nat x) (num_of_nat y) (num_of_nat c)"
proof -
  have "4 * h * w \<le> 2 ^ 53" using assms(1) by (simp add: mult.commute mult.left_commute)
  then have i: "pixel_index (num_of_nat y) (num_of_nat x) (num_of_nat h) (num_of_nat c) = num_of_nat (place h y x c)"
    using assms(2-4) by (intro pixel_index_place)
  show ?thesis
    unfolding imGet_def i pass_places [OF assms(1)]
    using writes_cells [OF triples_inj triples_facts(1), of "(y, x, c)" w h] assms(2-4)
    by (simp add: triples_facts row_sum_def imGet_def)
qed

text \<open>
  C31: a blur is two passes. For a picture of \<open>w\<close> by \<open>h\<close> pixels, with the mask finished and all
  counts exact, the canvas is cleared and gets a picture of the same size in which every channel
  of every pixel is the weighted sum along its column of the weighted sums along the rows,
  rounded into a byte: the intermediate picture, which has its sides exchanged, is put back.
\<close>

theorem blur_two_passes:
  assumes "0 < w" "0 < h" "4 * w * h \<le> 2 ^ 53" "length data = 4 * w * h" "make_fgauss fns sigma = Some ms"
    and "w + length ms \<le> 2 ^ 53" "h + length ms \<le> 2 ^ 53"
  shows "\<exists>out. blur fns (Inr data) (num_of_nat w) (num_of_nat h) sigma =
      Inr (Some [ClearImage (num_of_nat w) (num_of_nat h), PutImage out]) \<and> length out = length data \<and>
    (\<forall>x < w. \<forall>y < h. \<forall>c < 4. out ! place w x y c = blurred_pixel data (normalize ms) w h x y c)"
proof -
  define tmp where "tmp = convolve_even (Bytes data) (Cells (\<lambda>_. None)) (normalize ms) (num_of_nat w) (num_of_nat h)"
  have swap: "4 * h * w \<le> 2 ^ 53" using assms(3) by (simp add: mult.commute mult.left_commute)
  have len: "length (normalize ms) = length ms" by (simp add: normalize_def Let_def)
  have fits: "(case z of (y, x, c) \<Rightarrow> place w y x c) < length data" if "z \<in> set (triples h w)" for z
    using that place_less assms(4) by (auto simp: triples_facts)
  obtain out where out: "convolve_even tmp (Bytes data) (normalize ms) (num_of_nat h) (num_of_nat w) = Bytes out"
      "length out = length data"
    and cells: "\<forall>z \<in> set (triples h w). out ! (case z of (y, x, c) \<Rightarrow> place w y x c) = clamp_byte
      (case z of (y, x, c) \<Rightarrow> cell_sum (\<lambda>x y c. imGet tmp x y (num_of_nat h) (num_of_nat w) c) (normalize ms)
         (num_of_nat h) (num_of_nat x) (num_of_nat y) (num_of_nat c))"
    using writes_bytes [OF triples_inj triples_facts(1) fits,
        where v = "\<lambda>z. case z of (y, x, c) \<Rightarrow> cell_sum (\<lambda>x y c. imGet tmp x y (num_of_nat h) (num_of_nat w) c) (normalize ms)
         (num_of_nat h) (num_of_nat x) (num_of_nat y) (num_of_nat c)"]
    unfolding pass_places [OF swap] by blast
  have "out ! place w x y c = blurred_pixel data (normalize ms) w h x y c" if "x < w" "y < h" "c < 4" for x y c
  proof -
    have "out ! place w x y c = clamp_byte (cell_sum (\<lambda>x y c. imGet tmp x y (num_of_nat h) (num_of_nat w) c) (normalize ms)
         (num_of_nat h) (num_of_nat y) (num_of_nat x) (num_of_nat c))"
      using cells that by (auto simp: triples_facts)
    also have "\<dots> = blurred_pixel data (normalize ms) w h x y c"
      unfolding blurred_pixel_def
      by (intro arg_cong [where f = clamp_byte] cell_sum_cong)
        (use that assms(7) in \<open>simp_all add: tmp_def first_pass [OF assms(3)] len\<close>)
    finally show ?thesis .
  qed
  moreover have "whole_side (num_of_nat w) \<noteq> 0" "whole_side (num_of_nat h) \<noteq> 0"
    using assms(1,2) by (simp_all add: whole_side_def Let_def)
  ultimately show ?thesis
    using out assms(5) by (simp add: blur_def getImageData_def Let_def sample_bytes_def tmp_def)
qed

text \<open>A pixel without opacity has no colour, and counts as an opaque white one.\<close>

lemma clear_pixel_counts_white:
  "get x y (num_of_int 3) = zero \<Longrightarrow> sample_value get x y rgba = (num_of_int 255, one)"
  by (simp add: sample_value_def js_div_def num_eq_def)

text \<open>A red pixel beside a green one.\<close>

theorem blur_two_passes_witness:
  "\<exists>ms out. make_fgauss flat_math zero = Some ms \<and>
    blur flat_math (Inr [255, 0, 0, 255, 0, 255, 0, 255]) (num_of_nat 2) (num_of_nat 1) zero =
      Inr (Some [ClearImage (num_of_nat 2) (num_of_nat 1), PutImage out]) \<and>
    (\<forall>x < 2. out ! place 2 x 0 0 = blurred_pixel [255, 0, 0, 255, 0, 255, 0, 255] (normalize ms) 2 1 x 0 0)"
proof -
  obtain ms where ms: "make_fgauss flat_math zero = Some ms" "length ms \<le> 2 ^ 52 + 1"
    using make_fgauss_counts [of zero flat_math] by auto
  have "make_fgauss flat_math zero = Some ms \<Longrightarrow> ?thesis"
    using blur_two_passes [of 2 1 "[255, 0, 0, 255, 0, 255, 0, 255]" flat_math zero ms] ms(2) by auto
  then show ?thesis using ms(1) by simp
qed

end
