(* ===== verification/Canvg_Load.thy ===== *)
theory Canvg_Load
  imports Canvg_Balance Canvg_Blur
begin

text \<open>
  The life of a document that canvg draws, modules/canvas-tools.src.js: \<open>canvg\<close> itself, loading a
  document into a canvas, one drawing of it, the frame that the timer runs, and the mouse on the
  canvas. The lemmas show that a canvas never has two timers and keeps no state of a drawing, that
  a frame draws only when there is something new, and which svg elements \<open>canvg()\<close> replaces.
\<close>

section \<open>The document on a canvas\<close>

record load_opts =
  op_ignoreMouse :: jsval
  op_ignoreAnimation :: jsval
  op_ignoreDimensions :: jsval
  op_ignoreClear :: jsval
  op_offsetX :: jsval
  op_offsetY :: jsval
  op_scaleWidth :: jsval
  op_scaleHeight :: jsval
  op_renderCallback :: bool
  op_forceRedraw :: bool

definition no_opts :: load_opts where
  "no_opts = \<lparr>op_ignoreMouse = Undefined, op_ignoreAnimation = Undefined, op_ignoreDimensions = Undefined,
     op_ignoreClear = Undefined, op_offsetX = Undefined, op_offsetY = Undefined, op_scaleWidth = Undefined,
     op_scaleHeight = Undefined, op_renderCallback = False, op_forceRedraw = False\<rparr>"

text \<open>
  The page around a canvas: the size of the parent if there is one, the size at which the canvas is
  shown, the side a canvas takes when it is given a number, the offsets of the canvas and of the
  parents it is placed in, how far the page is scrolled, and the reading of documents.
\<close>

record page =
  pg_parent :: "(jsnum \<times> jsnum) option"
  pg_client :: "canvas \<Rightarrow> string \<times> string \<Rightarrow> jsnum \<times> jsnum"
  pg_side :: "jsnum \<Rightarrow> jsnum"
  pg_offsets :: "(jsnum \<times> jsnum) list"
  pg_scroll :: "jsnum \<times> jsnum"
  pg_fetch :: "string \<Rightarrow> string res"
  pg_parse :: "string \<Rightarrow> node res"
  pg_fonts :: "names \<Rightarrow> svg_state \<Rightarrow> svg_state res"

datatype load_effect = RenderCallback | MouseEffect page_effect

text \<open>
  The object that a canvas keeps: the scene with the canvas at 0, the sizes in the style of the
  canvas, whether the canvas has mouse handlers, the last timer, and the timers that run.
\<close>

record svg_object =
  so_scene :: scene
  so_opts :: load_opts
  so_isFirstRender :: bool
  so_waiting :: bool
  so_css :: "string \<times> string"
  so_bound :: bool
  so_intervalID :: "nat option"
  so_running :: "nat list"
  so_next :: nat
  so_effects :: "load_effect list"

definition on_scene :: "(scene \<Rightarrow> scene) \<Rightarrow> svg_object \<Rightarrow> svg_object" where
  "on_scene f so = so\<lparr>so_scene := f (so_scene so)\<rparr>"

text \<open>\<open>build\<close>, whose \<open>init\<close> has no canvas yet, on a canvas that has never been drawn on.\<close>

definition build :: "platform \<Rightarrow> jsnum \<Rightarrow> jsnum \<Rightarrow> svg_object" where
  "build pf w h = \<lparr>so_scene = \<lparr>sc_svg = empty_state, sc_views = [],
       sc_canvases = [\<lparr>cv_now = pf_fresh pf, cv_saved = [], cv_log = [], cv_width = w, cv_height = h\<rparr>],
       sc_texts = [], sc_events = [], sc_hits = []\<rparr>,
     so_opts = no_opts, so_isFirstRender = True, so_waiting = True, so_css = ('''', ''''), so_bound = False,
     so_intervalID = None, so_running = [], so_next = 1, so_effects = []\<rparr>"

definition svg_init :: "svg_object \<Rightarrow> svg_object" where
  "svg_init = on_scene (\<lambda>sc. sc\<lparr>sc_svg := empty_state, sc_views := [], sc_texts := [], sc_hits := []\<rparr>)"

definition svg_stop :: "svg_object \<Rightarrow> svg_object" where
  "svg_stop so = (case so_intervalID so of None \<Rightarrow> so | Some i \<Rightarrow> so\<lparr>so_running := remove1 i (so_running so)\<rparr>)"

definition ImagesLoaded :: "(address \<Rightarrow> bool) \<Rightarrow> svg_object \<Rightarrow> bool" where
  "ImagesLoaded loaded so = list_all loaded (st_Images (sc_svg (so_scene so)))"

section \<open>One drawing\<close>

definition is_true :: "jsval \<Rightarrow> bool" where
  "is_true v = loose_eq v (Boolean True)"

definition canvas_at_0 :: "svg_object \<Rightarrow> canvas" where
  "canvas_at_0 so = sc_canvases (so_scene so) ! 0"

text \<open>Giving a canvas a width or a height also empties it and resets how it draws.\<close>

definition reset_canvas :: "platform \<Rightarrow> (canvas \<Rightarrow> canvas) \<Rightarrow> scene \<Rightarrow> scene" where
  "reset_canvas pf f = update_canvas 0 (\<lambda>cv. (f cv)\<lparr>cv_now := pf_fresh pf, cv_saved := [], cv_log := []\<rparr>)"

definition css_pixels :: "jsnum \<Rightarrow> string" where
  "css_pixels x = num_to_string x @ ''px''"

definition take_width :: "platform \<Rightarrow> page \<Rightarrow> svg_object \<Rightarrow> svg_object res" where
  "take_width pf pg so = (let sc = so_scene so; p = style_of sc 0 ''width'' in
     if hasValue p then bind_res (pixels pf (Str ''x'') p sc) (\<lambda>w. let w' = pg_side pg w in
       Inr (on_scene (reset_canvas pf (\<lambda>cv. cv\<lparr>cv_width := w'\<rparr>)) so\<lparr>so_css := (css_pixels w', snd (so_css so))\<rparr>))
     else Inr so)"

definition take_height :: "platform \<Rightarrow> page \<Rightarrow> svg_object \<Rightarrow> svg_object res" where
  "take_height pf pg so = (let sc = so_scene so; p = style_of sc 0 ''height'' in
     if hasValue p then bind_res (pixels pf (Str ''y'') p sc) (\<lambda>h. let h' = pg_side pg h in
       Inr (on_scene (reset_canvas pf (\<lambda>cv. cv\<lparr>cv_height := h'\<rparr>)) so\<lparr>so_css := (fst (so_css so), css_pixels h')\<rparr>))
     else Inr so)"

definition set_dimensions :: "platform \<Rightarrow> page \<Rightarrow> svg_object \<Rightarrow> svg_object res" where
  "set_dimensions pf pg so = (if is_true (op_ignoreDimensions (so_opts so)) then Inr so
     else bind_res (take_width pf pg so) (take_height pf pg))"

text \<open>\<open>clientWidth || width\<close>.\<close>

definition num_or :: "jsnum \<Rightarrow> jsnum \<Rightarrow> jsnum" where
  "num_or x y = (if x = NaN \<or> num_eq x zero then y else x)"

definition shown_size :: "page \<Rightarrow> svg_object \<Rightarrow> jsnum \<times> jsnum" where
  "shown_size pg so = (let cv = canvas_at_0 so; (w, h) = pg_client pg cv (so_css so) in
     (num_or w (cv_width cv), num_or h (cv_height cv)))"

definition create_attr :: "address \<Rightarrow> string \<Rightarrow> jsval \<Rightarrow> scene \<Rightarrow> scene" where
  "create_attr a name v = on_svg (\<lambda>s. let (p, t) = attribute_create a name s in set_value p v t)"

definition offset_root :: "load_opts \<Rightarrow> scene \<Rightarrow> scene" where
  "offset_root ops sc =
     (let s1 = (if is_nullish (op_offsetX ops) then sc else create_attr 0 ''x'' (op_offsetX ops) sc) in
      if is_nullish (op_offsetY ops) then s1 else create_attr 0 ''y'' (op_offsetY ops) s1)"

text \<open>How many of the given pixels the document has for one of the size it is scaled to.\<close>

definition scale_ratio :: "jsnum res \<Rightarrow> property \<Rightarrow> jsval \<Rightarrow> jsnum res" where
  "scale_ratio px p scaled = (if hasValue p then bind_res px (\<lambda>x. Inr (js_div x (to_num scaled))) else Inr one)"

definition scale_root :: "platform \<Rightarrow> load_opts \<Rightarrow> jsnum \<times> jsnum \<Rightarrow> scene \<Rightarrow> scene res" where
  "scale_root pf ops dims sc =
     (if is_nullish (op_scaleWidth ops) \<or> is_nullish (op_scaleHeight ops) then Inr sc
      else bind_res (scale_ratio (attr_x pf 0 ''width'' sc) (attr sc 0 ''width'') (op_scaleWidth ops)) (\<lambda>rx.
        bind_res (scale_ratio (attr_y pf 0 ''height'' sc) (attr sc 0 ''height'') (op_scaleHeight ops)) (\<lambda>ry.
        let s1 = create_attr 0 ''width'' (op_scaleWidth ops) sc;
            s2 = create_attr 0 ''height'' (op_scaleHeight ops) s1;
            s3 = create_attr 0 ''viewBox'' (Str (''0 0 '' @ num_to_string (js_mul (fst dims) rx) @ '' '' @
              num_to_string (js_mul (snd dims) ry))) s2 in
        Inr (create_attr 0 ''preserveAspectRatio'' (Str ''none'') s3))))"

definition set_views :: "(jsnum \<times> jsnum) option \<Rightarrow> scene \<Rightarrow> scene" where
  "set_views parent sc = (let s1 = sc\<lparr>sc_views := []\<rparr> in case parent of None \<Rightarrow> s1 | Some (w, h) \<Rightarrow> push_view w h s1)"

text \<open>The first drawing of a document calls back.\<close>

definition call_back :: "svg_object \<Rightarrow> svg_object" where
  "call_back so = (if so_isFirstRender so
     then so\<lparr>so_isFirstRender := False,
       so_effects := so_effects so @ (if op_renderCallback (so_opts so) then [RenderCallback] else [])\<rparr>
     else so)"

definition draw :: "nat \<Rightarrow> platform \<Rightarrow> page \<Rightarrow> svg_object \<Rightarrow> svg_object res" where
  "draw n pf pg so0 =
     bind_res (set_dimensions pf pg (on_scene (set_views (pg_parent pg)) so0)) (\<lambda>so.
     let (w, h) = shown_size pg so; ops = so_opts so in
     bind_res (scale_root pf ops (w, h) (offset_root ops (push_view w h (so_scene so)))) (\<lambda>s1.
     let s2 = (if is_true (op_ignoreClear ops) then s1 else emit_ops 0 [ClearRect zero zero w h] s1) in
     bind_res (render n pf 0 0 None s2) (\<lambda>s3. Inr (call_back (so\<lparr>so_scene := s3\<rparr>)))))"

section \<open>Frames\<close>

text \<open>
  What a frame finds: the images that have arrived by now and the answer of \<open>forceRedraw\<close>. An
  exception ends the frame, and what it has done until then is not followed.
\<close>

definition animations_of_frame :: "svg_object \<Rightarrow> (bool \<times> svg_object) res" where
  "animations_of_frame so = (if is_true (op_ignoreAnimation (so_opts so)) then Inr (False, so)
     else bind_res (run_animations (sc_svg (so_scene so))) (\<lambda>(updated, s). Inr (updated, on_scene (on_svg (\<lambda>_. s)) so)))"

definition serve_mouse :: "svg_object \<Rightarrow> svg_object" where
  "serve_mouse so = (let (effects, sc) = runEvents (so_scene so) in
     so\<lparr>so_scene := sc, so_effects := so_effects so @ map MouseEffect effects\<rparr>)"

definition frame :: "nat \<Rightarrow> platform \<Rightarrow> page \<Rightarrow> (address \<Rightarrow> bool) \<Rightarrow> bool \<Rightarrow> svg_object \<Rightarrow> svg_object res" where
  "frame n pf pg loaded redraw so0 =
     (let ready = so_waiting so0 \<and> ImagesLoaded loaded so0;
          so = (if ready then so0\<lparr>so_waiting := False\<rparr> else so0);
          mouse = (\<not> is_true (op_ignoreMouse (so_opts so)) \<and> hasEvents (so_scene so)) in
      bind_res (animations_of_frame so) (\<lambda>(updated, so1).
      if ready \<or> mouse \<or> updated \<or> op_forceRedraw (so_opts so1) \<and> redraw
      then bind_res (draw n pf pg so1) (\<lambda>so2. Inr (serve_mouse so2))
      else Inr so1))"

section \<open>Loading\<close>

text \<open>The timer runs every \<open>1000 / FRAMERATE\<close> milliseconds from the end of loading on.\<close>

definition start_interval :: "svg_object \<Rightarrow> svg_object" where
  "start_interval so = so\<lparr>so_intervalID := Some (so_next so), so_running := so_next so # so_running so,
     so_next := so_next so + 1\<rparr>"

definition bind_mouse :: "svg_object \<Rightarrow> svg_object" where
  "bind_mouse so = so\<lparr>so_bound := so_bound so \<or> \<not> is_true (op_ignoreMouse (so_opts so))\<rparr>"

definition loadXmlDoc :: "nat \<Rightarrow> platform \<Rightarrow> page \<Rightarrow> (address \<Rightarrow> bool) \<Rightarrow> node \<Rightarrow> svg_object \<Rightarrow> svg_object res" where
  "loadXmlDoc n pf pg loaded doc so0 =
     (let so1 = bind_mouse (svg_init so0) in
      bind_res (create_root (pg_fonts pg) doc) (\<lambda>(_, s).
      let so2 = on_scene (on_svg (\<lambda>_. s)) so1\<lparr>so_isFirstRender := True, so_waiting := True\<rparr> in
      bind_res (if ImagesLoaded loaded so2 then draw n pf pg (so2\<lparr>so_waiting := False\<rparr>) else Inr so2) (\<lambda>so3.
      Inr (start_interval so3))))"

definition loadXml :: "nat \<Rightarrow> platform \<Rightarrow> page \<Rightarrow> (address \<Rightarrow> bool) \<Rightarrow> string \<Rightarrow> svg_object \<Rightarrow> svg_object res" where
  "loadXml n pf pg loaded xml so = bind_res (pg_parse pg xml) (\<lambda>doc. loadXmlDoc n pf pg loaded doc so)"

definition svg_load :: "nat \<Rightarrow> platform \<Rightarrow> page \<Rightarrow> (address \<Rightarrow> bool) \<Rightarrow> string \<Rightarrow> svg_object \<Rightarrow> svg_object res" where
  "svg_load n pf pg loaded url so = bind_res (pg_fetch pg url) (\<lambda>xml. loadXml n pf pg loaded xml so)"

text \<open>What is drawn: a document, its text, or the address of one. The object of a canvas is reused.\<close>

datatype svg_source = FromDocument node | FromText string

definition canvg :: "nat \<Rightarrow> platform \<Rightarrow> page \<Rightarrow> (address \<Rightarrow> bool) \<Rightarrow> svg_source \<Rightarrow> load_opts \<Rightarrow> svg_object \<Rightarrow> svg_object res" where
  "canvg n pf pg loaded src ops so0 =
     (let so = (svg_stop so0)\<lparr>so_opts := ops\<rparr> in
      case src of FromDocument doc \<Rightarrow> loadXmlDoc n pf pg loaded doc so
      | FromText s \<Rightarrow> if take 1 s = ''<'' then loadXml n pf pg loaded s so else svg_load n pf pg loaded s so)"

definition drawSvg :: "nat \<Rightarrow> platform \<Rightarrow> page \<Rightarrow> (address \<Rightarrow> bool) \<Rightarrow> svg_source \<Rightarrow> jsval \<Rightarrow> jsval \<Rightarrow> jsval \<Rightarrow> jsval \<Rightarrow>
    svg_object \<Rightarrow> svg_object res" where
  "drawSvg n pf pg loaded s dx dy dw dh = canvg n pf pg loaded s
     \<lparr>op_ignoreMouse = Boolean True, op_ignoreAnimation = Boolean True, op_ignoreDimensions = Boolean True,
      op_ignoreClear = Boolean True, op_offsetX = dx, op_offsetY = dy, op_scaleWidth = dw, op_scaleHeight = dh,
      op_renderCallback = False, op_forceRedraw = False\<rparr>"

section \<open>The mouse on the canvas\<close>

definition add_scroll :: "jsnum \<Rightarrow> jsnum \<Rightarrow> jsnum" where
  "add_scroll x s = (if s = NaN \<or> num_eq s zero then x else js_add x s)"

definition mapXY :: "page \<Rightarrow> point \<Rightarrow> point" where
  "mapXY pg p = (let (x, y) = foldl (\<lambda>(x, y) (l, t). (js_sub x l, js_sub y t)) p (pg_offsets pg) in
     (add_scroll x (fst (pg_scroll pg)), add_scroll y (snd (pg_scroll pg))))"

definition canvas_mouse :: "page \<Rightarrow> mouse_kind \<Rightarrow> point \<Rightarrow> svg_object \<Rightarrow> svg_object" where
  "canvas_mouse pg k client so = (if so_bound so
     then (let (x, y) = mapXY pg client in on_scene (mouse_event_at k x y) so) else so)"

section \<open>All svg elements of a page\<close>

text \<open>
  \<open>canvg()\<close> runs through the svg elements of the page. The list is alive: an element that is taken
  out of the page leaves it at once, with those inside of it. An element of the list has a name
  and a depth.
\<close>

type_synonym svg_tag = "string \<times> nat"

definition take_out :: "nat \<Rightarrow> svg_tag list \<Rightarrow> svg_tag list" where
  "take_out i tags = take i tags @ dropWhile (\<lambda>t. snd (tags ! i) < snd t) (drop (Suc i) tags)"

lemma length_take_out: "i < length tags \<Longrightarrow> length (take_out i tags) < length tags"
  using length_dropWhile_le [of "\<lambda>t. snd (tags ! i) < snd t" "drop (Suc i) tags"] by (simp add: take_out_def)

function replace_tags :: "nat \<Rightarrow> svg_tag list \<Rightarrow> svg_tag list \<times> svg_tag list" where
  "replace_tags i tags = (if i < length tags
     then (let (replaced, left) = replace_tags (Suc i) (take_out i tags) in (tags ! i # replaced, left))
     else ([], tags))"
  by pat_completeness auto
termination
  by (relation "measure (\<lambda>(i, tags). length tags)") (auto simp: length_take_out)

declare replace_tags.simps [simp del]

section \<open>Between the frames\<close>

text \<open>What can happen to a canvas: a document is loaded, the timer runs a frame, the mouse is used.\<close>

inductive browsed :: "nat \<Rightarrow> platform \<Rightarrow> page \<Rightarrow> svg_object \<Rightarrow> bool" for n pf pg where
  Start: "browsed n pf pg (build pf w h)"
| Load: "browsed n pf pg so \<Longrightarrow> canvg n pf pg loaded src ops so = Inr so' \<Longrightarrow> browsed n pf pg so'"
| Frame: "browsed n pf pg so \<Longrightarrow> so_running so \<noteq> [] \<Longrightarrow> frame n pf pg loaded redraw so = Inr so' \<Longrightarrow> browsed n pf pg so'"
| Mouse: "browsed n pf pg so \<Longrightarrow> browsed n pf pg (canvas_mouse pg k p so)"

definition clean :: "platform \<Rightarrow> scene \<Rightarrow> bool" where
  "clean pf sc \<longleftrightarrow> sc_canvases sc \<noteq> [] \<and> cv_now (sc_canvases sc ! 0) = pf_fresh pf \<and> cv_saved (sc_canvases sc ! 0) = []"

definition timer_kept :: "svg_object \<Rightarrow> svg_object \<Rightarrow> bool" where
  "timer_kept so so' \<longleftrightarrow> so_intervalID so' = so_intervalID so \<and> so_running so' = so_running so \<and> so_next so' = so_next so"

definition one_timer :: "svg_object \<Rightarrow> bool" where
  "one_timer so \<longleftrightarrow> so_running so = (case so_intervalID so of None \<Rightarrow> [] | Some i \<Rightarrow> [i])"

lemma clean_views [simp]:
  "clean pf (sc\<lparr>sc_views := vs\<rparr>) \<longleftrightarrow> clean pf sc" "clean pf (push_view w h sc) \<longleftrightarrow> clean pf sc"
  "clean pf (set_views p sc) \<longleftrightarrow> clean pf sc"
  by (auto simp: clean_def push_view_def set_views_def Let_def split: option.splits)

lemma clean_svg [simp]: "clean pf (on_svg f sc) \<longleftrightarrow> clean pf sc" "clean pf (create_attr a name v sc) \<longleftrightarrow> clean pf sc"
  by (simp_all add: clean_def on_svg_def create_attr_def)

lemma clean_emit [simp]: "clean pf (emit_ops 0 ops sc) \<longleftrightarrow> clean pf sc"
  by (auto simp: clean_def emit_ops_def emit_def update_canvas_def)

lemma clean_reset: "clean pf sc \<Longrightarrow> clean pf (reset_canvas pf f sc)"
  by (simp add: clean_def reset_canvas_def update_canvas_def)

lemma clean_root:
  "clean pf (offset_root ops sc) \<longleftrightarrow> clean pf sc"
  "scale_root pf ops dims sc = Inr sc' \<Longrightarrow> clean pf sc' \<longleftrightarrow> clean pf sc"
  by (auto simp: offset_root_def scale_root_def bind_res_Inr_iff Let_def split: if_splits)

lemma clean_render: "render n pf a c mark sc = Inr sc' \<Longrightarrow> clean pf sc \<Longrightarrow> clean pf sc'"
  using rendering.balanced [of n pf a c mark sc] by (auto simp: after_def step_def kept_def clean_def)

lemma dimensions_clean:
  assumes "set_dimensions pf pg so = Inr so'" "clean pf (so_scene so)"
  shows "clean pf (so_scene so') \<and> timer_kept so so' \<and> so_effects so' = so_effects so \<and>
    so_isFirstRender so' = so_isFirstRender so \<and> so_opts so' = so_opts so"
  using assms
  by (auto simp: set_dimensions_def take_width_def take_height_def bind_res_Inr_iff Let_def on_scene_def timer_kept_def
      clean_reset split: if_splits)

lemma call_back_facts [simp]:
  "so_scene (call_back so) = so_scene so" "timer_kept so' (call_back so) \<longleftrightarrow> timer_kept so' so"
  "so_opts (call_back so) = so_opts so"
  by (simp_all add: call_back_def timer_kept_def)

lemma timer_kept_updates [simp]:
  "timer_kept so (so'\<lparr>so_scene := sc\<rparr>) \<longleftrightarrow> timer_kept so so'" "timer_kept so (so'\<lparr>so_waiting := w\<rparr>) \<longleftrightarrow> timer_kept so so'"
  "timer_kept (so\<lparr>so_waiting := w\<rparr>) so' \<longleftrightarrow> timer_kept so so'"
  by (simp_all add: timer_kept_def)

lemma draw_clean:
  assumes "draw n pf pg so = Inr so'" "clean pf (so_scene so)"
  shows "clean pf (so_scene so') \<and> timer_kept so so'"
proof -
  obtain so1 s1 s3 where parts: "set_dimensions pf pg (on_scene (set_views (pg_parent pg)) so) = Inr so1"
      "scale_root pf (so_opts so1) (shown_size pg so1) (offset_root (so_opts so1)
         (push_view (fst (shown_size pg so1)) (snd (shown_size pg so1)) (so_scene so1))) = Inr s1"
      "render n pf 0 0 None (if is_true (op_ignoreClear (so_opts so1)) then s1
         else emit_ops 0 [ClearRect zero zero (fst (shown_size pg so1)) (snd (shown_size pg so1))] s1) = Inr s3"
      "so' = call_back (so1\<lparr>so_scene := s3\<rparr>)"
    using assms(1) by (auto simp: draw_def bind_res_Inr_iff Let_def case_prod_unfold)
  have "clean pf (so_scene so1) \<and> timer_kept so so1"
    using dimensions_clean [OF parts(1)] assms(2) by (simp add: on_scene_def timer_kept_def)
  moreover have "clean pf s3"
    using clean_render [OF parts(3)] clean_root(2) [OF parts(2)] calculation by (simp add: clean_root(1))
  ultimately show ?thesis using parts(4) by simp
qed

lemma serve_mouse_clean: "clean pf (so_scene (serve_mouse so)) \<longleftrightarrow> clean pf (so_scene so)" "timer_kept so (serve_mouse so)"
  by (simp_all add: serve_mouse_def runEvents_def clean_def timer_kept_def)

lemma animations_frame:
  assumes "animations_of_frame so = Inr (b, so')"
  shows "\<exists>s. so' = on_scene (on_svg (\<lambda>_. s)) so"
proof (cases "is_true (op_ignoreAnimation (so_opts so))")
  case True
  then have "so' = on_scene (on_svg (\<lambda>_. sc_svg (so_scene so))) so"
    using assms by (simp add: animations_of_frame_def on_scene_def on_svg_def)
  then show ?thesis ..
next
  case False
  then show ?thesis using assms by (auto simp: animations_of_frame_def bind_res_Inr_iff case_prod_unfold)
qed

lemma frame_clean:
  assumes "frame n pf pg loaded redraw so = Inr so'" "clean pf (so_scene so)"
  shows "clean pf (so_scene so') \<and> timer_kept so so'"
proof -
  define so0 where "so0 = (if so_waiting so \<and> ImagesLoaded loaded so then so\<lparr>so_waiting := False\<rparr> else so)"
  obtain b so1 where an: "animations_of_frame so0 = Inr (b, so1)"
    and rest: "so' = so1 \<or> (\<exists>so2. draw n pf pg so1 = Inr so2 \<and> so' = serve_mouse so2)"
    using assms(1) by (auto simp: frame_def Let_def so0_def bind_res_Inr_iff split: if_splits)
  obtain s where "so1 = on_scene (on_svg (\<lambda>_. s)) so0" using animations_frame [OF an] by auto
  then have "clean pf (so_scene so1) \<and> timer_kept so so1"
    using assms(2) by (simp add: so0_def on_scene_def timer_kept_def)
  then show ?thesis
    using rest draw_clean [of n pf pg so1] serve_mouse_clean by (auto simp: timer_kept_def)
qed

lemma load_clean:
  assumes "loadXmlDoc n pf pg loaded doc so = Inr so'" "clean pf (so_scene so)" "so_running so = []"
  shows "clean pf (so_scene so') \<and> one_timer so'"
proof -
  obtain a s where s: "create_root (pg_fonts pg) doc = Inr (a, s)"
    using assms(1) by (auto simp: loadXmlDoc_def bind_res_Inr_iff Let_def)
  define so2 where "so2 = on_scene (on_svg (\<lambda>_. s)) (bind_mouse (svg_init so))\<lparr>so_isFirstRender := True, so_waiting := True\<rparr>"
  have two: "clean pf (so_scene so2) \<and> timer_kept so so2"
    using assms(2) by (simp add: so2_def svg_init_def on_scene_def bind_mouse_def timer_kept_def clean_def on_svg_def)
  have "(if ImagesLoaded loaded so2 then draw n pf pg (so2\<lparr>so_waiting := False\<rparr>) else Inr so2) =
      Inr so3 \<Longrightarrow> clean pf (so_scene so3) \<and> timer_kept so so3" for so3
    using draw_clean [of n pf pg "so2\<lparr>so_waiting := False\<rparr>" so3] two by (auto simp: timer_kept_def split: if_splits)
  then obtain so3 where "clean pf (so_scene so3) \<and> timer_kept so so3" "so' = start_interval so3"
    using assms(1) s unfolding loadXmlDoc_def Let_def so2_def by (auto simp only: bind_res_simps bind_res_Inr_iff prod.case)
  then show ?thesis
    using assms(3) by (simp add: start_interval_def timer_kept_def one_timer_def)
qed

lemma canvg_clean:
  assumes "canvg n pf pg loaded src ops so = Inr so'" "clean pf (so_scene so)" "one_timer so"
  shows "clean pf (so_scene so') \<and> one_timer so'"
proof -
  define so1 where "so1 = (svg_stop so)\<lparr>so_opts := ops\<rparr>"
  have "clean pf (so_scene so1)" "so_running so1 = []"
    using assms(2,3) by (auto simp: so1_def svg_stop_def one_timer_def split: option.splits)
  moreover obtain doc where "loadXmlDoc n pf pg loaded doc so1 = Inr so'"
    using assms(1) by (auto simp: canvg_def Let_def so1_def loadXml_def svg_load_def bind_res_Inr_iff split: svg_source.splits if_splits)
  ultimately show ?thesis by (rule load_clean [rotated])
qed


text \<open>A page without a parent around the canvas, and a document that is one group.\<close>

definition plain_page :: page where
  "plain_page = \<lparr>pg_parent = None, pg_client = (\<lambda>cv css. (cv_width cv, cv_height cv)), pg_side = (\<lambda>x. x), pg_offsets = [],
     pg_scroll = (zero, zero), pg_fetch = (\<lambda>url. Inl (Thrown ''NetworkError'')), pg_parse = (\<lambda>xml. Inr (Elem ''g'' [] [])),
     pg_fonts = no_fonts\<rparr>"

definition loaded_group :: "svg_object res" where
  "loaded_group = canvg 1 plain_platform plain_page (\<lambda>a. True) (FromDocument (Elem ''g'' [] [])) no_opts
     (build plain_platform (num_of_int 4) (num_of_int 3))"

lemma group_root: "create_root load_fonts (Elem ''g'' [] []) =
    Inr (0, empty_state\<lparr>st_elements := [(blank_element ''g'')\<lparr>el_type := ''g''\<rparr>]\<rparr>)"
proof -
  have "class_name ''g'' = ''g''" by code_simp
  then show ?thesis by (simp add: creation_defs class_init_def)
qed

lemma bare_more [simp]:
  "bare (sc\<lparr>sc_views := vs\<rparr>) \<longleftrightarrow> bare sc" "bare (push_view w h sc) \<longleftrightarrow> bare sc"
  by (simp_all add: bare_def push_view_def)

lemma bare_draw:
  assumes "bare (so_scene so)" "so_opts so = no_opts" "pg_parent pg = None"
  shows "\<exists>so'. draw 1 pf pg so = Inr so'"
proof -
  have plain: "is_true Undefined = False" by (simp add: is_true_def loose_eq_def is_nullish_def)
  define so1 where "so1 = on_scene (set_views None) so"
  have b: "bare (so_scene so1)" "so_opts so1 = no_opts" using assms by (simp_all add: so1_def on_scene_def set_views_def)
  have dims: "set_dimensions pf pg so1 = Inr so1"
    using b(2) by (simp add: set_dimensions_def take_width_def take_height_def bare_reads [OF b(1)] bare_values no_opts_def plain Let_def)
  obtain w h where size: "shown_size pg so1 = (w, h)" by (cases "shown_size pg so1")
  define s2 where "s2 = emit_ops 0 [ClearRect zero zero w h] (push_view w h (so_scene so1))"
  have "bare s2" using b(1) by (simp add: s2_def)
  then obtain s3 where "render 1 pf 0 0 None s2 = Inr s3" using bare_drawn by blast
  then show ?thesis
    using dims size b(2) assms(3)
    by (simp add: draw_def so1_def [symmetric] no_opts_def plain scale_root_def offset_root_def is_nullish_def s2_def)
qed

lemma group_loads: "\<exists>so. loaded_group = Inr so \<and> browsed 1 plain_platform plain_page so"
proof -
  define s where "s = empty_state\<lparr>st_elements := [(blank_element ''g'')\<lparr>el_type := ''g''\<rparr>]\<rparr>"
  define so2 where "so2 = on_scene (on_svg (\<lambda>_. s)) (bind_mouse (svg_init ((svg_stop (build plain_platform (num_of_int 4)
    (num_of_int 3)))\<lparr>so_opts := no_opts\<rparr>)))\<lparr>so_isFirstRender := True, so_waiting := True\<rparr>"
  have "bare (so_scene (so2\<lparr>so_waiting := False\<rparr>))" "so_opts (so2\<lparr>so_waiting := False\<rparr>) = no_opts"
    by (auto simp: so2_def bare_def on_scene_def on_svg_def s_def bind_mouse_def svg_init_def svg_stop_def build_def)
  then obtain so3 where d: "draw 1 plain_platform plain_page (so2\<lparr>so_waiting := False\<rparr>) = Inr so3"
    using bare_draw [of "so2\<lparr>so_waiting := False\<rparr>" plain_page plain_platform] by (auto simp: plain_page_def)
  have "ImagesLoaded (\<lambda>a. True) so2" by (simp add: ImagesLoaded_def list_all_iff)
  then have "loaded_group = Inr (start_interval so3)"
    using d by (simp add: loaded_group_def canvg_def loadXmlDoc_def group_root Let_def so2_def s_def)
  then show ?thesis using browsed.Load [OF browsed.Start] by (auto simp: loaded_group_def)
qed


section \<open>When a frame draws\<close>

text \<open>Nothing new: no images that have just arrived, no events, no animations, no forced drawing.\<close>

definition quiet :: "(address \<Rightarrow> bool) \<Rightarrow> bool \<Rightarrow> svg_object \<Rightarrow> bool" where
  "quiet loaded redraw so \<longleftrightarrow> \<not> (so_waiting so \<and> ImagesLoaded loaded so) \<and> \<not> hasEvents (so_scene so) \<and>
     st_Animations (sc_svg (so_scene so)) = [] \<and> \<not> (op_forceRedraw (so_opts so) \<and> redraw)"

lemma quiet_frame: "quiet loaded redraw so \<Longrightarrow> frame n pf pg loaded redraw so = Inr so"
  by (auto simp: quiet_def frame_def Let_def animations_of_frame_def run_animations_def on_scene_def on_svg_def)

lemma draw_effects:
  assumes "draw n pf pg so = Inr so'"
  shows "\<exists>calls. so_effects so' = so_effects so @ calls \<and> set calls \<subseteq> {RenderCallback} \<and>
    (so_isFirstRender so \<or> calls = [])"
proof -
  obtain so1 s3 where "set_dimensions pf pg (on_scene (set_views (pg_parent pg)) so) = Inr so1"
      and so': "so' = call_back (so1\<lparr>so_scene := s3\<rparr>)"
    using assms by (auto simp: draw_def bind_res_Inr_iff Let_def case_prod_unfold)
  then have "so_effects so1 = so_effects so" "so_isFirstRender so1 = so_isFirstRender so"
    by (auto simp: set_dimensions_def take_width_def take_height_def bind_res_Inr_iff Let_def on_scene_def split: if_splits)
  then show ?thesis using so' by (auto simp: call_back_def)
qed


text \<open>A click on the loaded group, and the frame after it.\<close>

definition clicked_group :: svg_object where
  "clicked_group = (build plain_platform one one)\<lparr>so_scene := mouse_onclick one one sample_scene\<rparr>"


section \<open>Which svg elements are replaced\<close>

lemma take_out_flat:
  assumes "\<forall>t \<in> set (ls @ x # rs). snd t = d"
  shows "take_out (length ls) (ls @ x # rs) = ls @ rs"
proof -
  have "dropWhile (\<lambda>t. snd x < snd t) rs = rs" using assms by (cases rs) auto
  then show ?thesis by (simp add: take_out_def nth_append)
qed

lemma nths_two_parities:
  "nths (x # y # zs) {i. even i} = x # nths zs {i. even i}" "nths (x # y # zs) {i. odd i} = y # nths zs {i. odd i}"
  by (simp_all add: nths_Cons)

lemma replace_flat:
  assumes "\<forall>t \<in> set (ls @ rs). snd t = d"
  shows "replace_tags (length ls) (ls @ rs) = (nths rs {i. even i}, ls @ nths rs {i. odd i})"
  using assms
proof (induction rs arbitrary: ls rule: induct_list012)
  case 1
  show ?case by (subst replace_tags.simps) simp
next
  case (2 x)
  have "take_out (length ls) (ls @ [x]) = ls" using take_out_flat [of ls x "[]" d] 2 by simp
  moreover have "replace_tags (Suc (length ls)) ls = ([], ls)" by (subst replace_tags.simps) simp
  ultimately show ?case by (subst replace_tags.simps) (simp add: nths_singleton)
next
  case (3 x y zs)
  have "take_out (length ls) (ls @ x # y # zs) = (ls @ [y]) @ zs" using take_out_flat [of ls x "y # zs" d] 3 by simp
  moreover have "replace_tags (length (ls @ [y])) ((ls @ [y]) @ zs) = (nths zs {i. even i}, (ls @ [y]) @ nths zs {i. odd i})"
    using "3.IH"(1) [of "ls @ [y]"] "3.prems" by simp
  ultimately show ?case by (subst replace_tags.simps) (simp add: nth_append nths_two_parities)
qed

text \<open>
  Called without arguments, \<open>canvg\<close> replaces every other svg element only. Of elements that
  are not inside of each other, the first, the third and so on become canvases, in this order,
  and the others stay, since the list of the elements moves up under the loop.
\<close>

theorem every_other_svg:
  assumes "\<forall>t \<in> set tags. snd t = d"
  shows "replace_tags 0 tags = (nths tags {i. even i}, nths tags {i. odd i})"
  using replace_flat [of "[]" tags d] assms by simp

theorem every_other_svg_witness:
  "replace_tags 0 [(''a'', 0), (''b'', 0), (''c'', 0)] = ([(''a'', 0), (''c'', 0)], [(''b'', 0)])"
  using every_other_svg [of "[(''a'', 0), (''b'', 0), (''c'', 0)]" 0] by (simp add: nths_Cons)

end
