(* ===== verification/Canvg_Renderer.thy ===== *)
theory Canvg_Renderer
  imports Lib_Themes Canvg_Load
begin

text \<open>
  The renderer of Highcharts that draws by canvg, the last part of modules/canvas-tools.src.js: the
  elements it puts beside the canvas, the tooltip that it shows and hides again after three
  seconds, its colours, and its end. The chart and the base renderer are arguments. The lemmas
  show that a tooltip is shown for three seconds from the last call, by one timer.
\<close>

section \<open>Elements of the page\<close>

text \<open>Where an element is: in the container, beside it, or thrown away.\<close>

datatype place_of_element = InContainer | BesideContainer | Discarded

record html_el =
  he_tag :: string
  he_attrs :: props
  he_style :: props
  he_html :: string
  he_place :: place_of_element

text \<open>\<open>css\<close> and \<open>createElement\<close> of Highcharts, for a browser that has a canvas.\<close>

definition css :: "props \<Rightarrow> html_el \<Rightarrow> html_el" where
  "css styles e = e\<lparr>he_style := extend_with (he_style e) styles\<rparr>"

definition createElement :: "string \<Rightarrow> props \<Rightarrow> props \<Rightarrow> place_of_element \<Rightarrow> html_el" where
  "createElement tag attribs styles parent = css styles
     \<lparr>he_tag = tag, he_attrs = extend_with [] attribs, he_style = [], he_html = '''', he_place = parent\<rparr>"

definition discardElement :: "html_el \<Rightarrow> html_el" where
  "discardElement e = e\<lparr>he_place := Discarded\<rparr>"

definition px :: "jsval \<Rightarrow> jsval" where
  "px v = Str (to_str v @ ''px'')"

definition visible :: "html_el \<Rightarrow> bool" where
  "visible e \<longleftrightarrow> get_own (he_style e) ''visibility'' = Str ''visible''"

section \<open>The renderer\<close>

text \<open>
  The timers of the page that hide the tooltip are kept with the time they are due; \<open>ttTimer\<close> is
  the last one, even when it has gone off. The box is the svg node that the base renderer made.
\<close>

record renderer_state =
  rn_canvas :: html_el
  rn_ttLine :: html_el
  rn_ttDiv :: html_el
  rn_hiddenSvg :: html_el
  rn_ttTimer :: "nat option"
  rn_timers :: "(nat \<times> nat) list"
  rn_next :: nat
  rn_now :: nat

record container_el =
  ct_left :: jsval
  ct_top :: jsval
  ct_offsetWidth :: jsnum
  ct_offsetHeight :: jsnum

definition hidden_style :: props where
  "hidden_style = [(''visibility'', Str ''hidden''), (''position'', Str ''absolute'')]"

definition setContainer :: "container_el \<Rightarrow> string \<Rightarrow> nat \<Rightarrow> renderer_state" where
  "setContainer c box start =
     (let sizes = [(''width'', Num (ct_offsetWidth c)), (''height'', Num (ct_offsetHeight c))];
          corner = [(''left'', ct_left c), (''top'', ct_top c)] in
      \<lparr>rn_canvas = createElement ''canvas'' sizes ((''position'', Str ''relative'') # corner) InContainer,
       rn_ttLine = createElement ''div'' [] hidden_style BesideContainer,
       rn_ttDiv = createElement ''div'' [] hidden_style BesideContainer,
       rn_hiddenSvg = (createElement ''div'' sizes ((''visibility'', Str ''hidden'') # corner) BesideContainer)\<lparr>he_html := box\<rparr>,
       rn_ttTimer = None, rn_timers = [], rn_next = 1, rn_now = start\<rparr>)"

text \<open>The style of the tooltip, from the options of the chart. A missing style throws.\<close>

definition own_props :: "jsval \<Rightarrow> props" where
  "own_props v = (case v of Obj ps \<Rightarrow> ps | _ \<Rightarrow> [])"

definition merge_styles :: "jsval \<Rightarrow> props \<Rightarrow> props" where
  "merge_styles first second = merge_props (merge_props [] (own_props first)) second"

definition tooltip_style :: "jsval \<Rightarrow> props res" where
  "tooltip_style opts =
     bind_res (get_prop opts ''borderWidth'') (\<lambda>borderWidth.
     bind_res (get_prop opts ''style'') (\<lambda>style.
     bind_res (get_prop style ''padding'') (\<lambda>padding.
     bind_res (get_prop opts ''backgroundColor'') (\<lambda>background.
     bind_res (get_prop opts ''borderRadius'') (\<lambda>radius.
     bind_res (get_prop opts ''shadow'') (\<lambda>shadow.
     let s1 = merge_styles style [(''padding'', px (Num (parse_int 10 (to_str padding)))), (''background-color'', background),
           (''border-style'', Str ''solid''), (''border-width'', px borderWidth), (''border-radius'', px radius)] in
     Inr (if truthy shadow
       then merge_styles (Obj s1) [(''box-shadow'', Str ''1px 1px 3px gray''), (''-webkit-box-shadow'', Str ''1px 1px 3px gray'')]
       else s1)))))))"

definition configure :: "jsval \<Rightarrow> renderer_state \<Rightarrow> renderer_state res" where
  "configure chart_options rn =
     bind_res (get_prop chart_options ''tooltip'') (\<lambda>opts. bind_res (tooltip_style opts) (\<lambda>style.
     Inr (rn\<lparr>rn_ttDiv := css style (rn_ttDiv rn),
       rn_ttLine := css [(''border-left'', Str ''1px solid darkgray'')] (rn_ttLine rn)\<rparr>)))"

definition create :: "jsval \<Rightarrow> container_el \<Rightarrow> string \<Rightarrow> nat \<Rightarrow> renderer_state res" where
  "create chart_options c box start = configure chart_options (setContainer c box start)"

section \<open>The tooltip\<close>

text \<open>
  What a chart fires with \<open>tooltipRefresh\<close>, and the chart itself: where its container and its plot
  are, and the place that it chooses for a tooltip with the given text at a point.
\<close>

record tooltip_args =
  ta_text :: string
  ta_x :: jsnum
  ta_y :: jsnum
  ta_borderColor :: jsval

record chart_geometry =
  cg_offsetLeft :: jsnum
  cg_offsetTop :: jsnum
  cg_plotTop :: jsnum
  cg_plotHeight :: jsnum
  cg_getPosition :: "html_el \<Rightarrow> jsnum \<Rightarrow> jsnum \<Rightarrow> jsnum \<times> jsnum"

definition show_tooltip :: "chart_geometry \<Rightarrow> tooltip_args \<Rightarrow> renderer_state \<Rightarrow> renderer_state" where
  "show_tooltip g args rn =
     (let d = (rn_ttDiv rn)\<lparr>he_html := ta_text args\<rparr>; (x, y) = cg_getPosition g d (ta_x args) (ta_y args) in
      rn\<lparr>rn_ttDiv := css [(''visibility'', Str ''visible''), (''left'', px (Num x)), (''top'', px (Num y)),
           (''border-color'', ta_borderColor args)] d,
         rn_ttLine := css [(''visibility'', Str ''visible''), (''left'', px (Num (js_add (cg_offsetLeft g) (ta_x args)))),
           (''top'', px (Num (js_add (cg_offsetTop g) (cg_plotTop g)))), (''height'', px (Num (cg_plotHeight g)))] (rn_ttLine rn)\<rparr>)"

definition clear_timer :: "renderer_state \<Rightarrow> renderer_state" where
  "clear_timer rn = (case rn_ttTimer rn of None \<Rightarrow> rn
     | Some i \<Rightarrow> rn\<lparr>rn_timers := filter (\<lambda>(j, due). j \<noteq> i) (rn_timers rn)\<rparr>)"

definition start_timer :: "renderer_state \<Rightarrow> renderer_state" where
  "start_timer rn = rn\<lparr>rn_ttTimer := Some (rn_next rn), rn_timers := (rn_next rn, rn_now rn + 3000) # rn_timers rn,
     rn_next := rn_next rn + 1\<rparr>"

definition tooltipRefresh :: "chart_geometry \<Rightarrow> tooltip_args \<Rightarrow> renderer_state \<Rightarrow> renderer_state" where
  "tooltipRefresh g args rn = start_timer (clear_timer (show_tooltip g args rn))"

definition hide_tooltip :: "renderer_state \<Rightarrow> renderer_state" where
  "hide_tooltip rn = rn\<lparr>rn_ttDiv := css [(''visibility'', Str ''hidden'')] (rn_ttDiv rn),
     rn_ttLine := css [(''visibility'', Str ''hidden'')] (rn_ttLine rn)\<rparr>"

text \<open>A timer goes off once, not before it is due.\<close>

definition timer_goes_off :: "nat \<times> nat \<Rightarrow> renderer_state \<Rightarrow> renderer_state" where
  "timer_goes_off t rn = hide_tooltip (rn\<lparr>rn_timers := remove1 t (rn_timers rn)\<rparr>)"

section \<open>The end, colours and drawing\<close>

text \<open>\<open>destroy\<close>, whose rest is the base renderer's.\<close>

definition destroy :: "renderer_state \<Rightarrow> renderer_state" where
  "destroy rn = (let r1 = clear_timer (rn\<lparr>rn_canvas := discardElement (rn_canvas rn)\<rparr>) in
     r1\<lparr>rn_ttLine := discardElement (rn_ttLine r1), rn_ttDiv := discardElement (rn_ttDiv r1),
       rn_hiddenSvg := discardElement (rn_hiddenSvg r1)\<rparr>)"

text \<open>Of a gradient the last colour is taken.\<close>

definition gradient_end :: "jsval \<Rightarrow> jsval res" where
  "gradient_end color =
     (if \<not> truthy color then Inr color
      else bind_res (get_prop color ''linearGradient'') (\<lambda>g. if \<not> truthy g then Inr color
        else bind_res (get_prop color ''stops'') (\<lambda>stops.
          bind_res (get_prop stops ''length'') (\<lambda>n.
          bind_res (get_prop stops (num_to_string (js_sub (to_num n) one))) (\<lambda>stop.
          get_prop stop ''1'')))))"

definition canvas_color :: "(jsval \<Rightarrow> jsval res) \<Rightarrow> jsval \<Rightarrow> jsval res" where
  "canvas_color base color = bind_res (gradient_end color) base"

definition renderer_draw ::
  "nat \<Rightarrow> platform \<Rightarrow> page \<Rightarrow> (address \<Rightarrow> bool) \<Rightarrow> renderer_state \<Rightarrow> svg_object \<Rightarrow> svg_object res" where
  "renderer_draw n pf pg loaded rn so = canvg n pf pg loaded (FromText (he_html (rn_hiddenSvg rn))) no_opts so"

section \<open>How long a tooltip is shown\<close>

text \<open>
  The life of a renderer with the time of the last call, until it is destroyed. The style of a
  tooltip in the options leaves it hidden. Time passes; a timer may be late.
\<close>

inductive renders :: "renderer_state \<Rightarrow> nat option \<Rightarrow> bool" where
  Created: "create chart_options c box t = Inr rn \<Longrightarrow> \<not> visible (rn_ttDiv rn) \<Longrightarrow> renders rn None"
| Refreshed: "renders rn called \<Longrightarrow> renders (tooltipRefresh g args rn) (Some (rn_now rn))"
| Passed: "renders rn called \<Longrightarrow> renders (rn\<lparr>rn_now := rn_now rn + d\<rparr>) called"
| WentOff: "renders rn called \<Longrightarrow> (i, due) \<in> set (rn_timers rn) \<Longrightarrow> due \<le> rn_now rn \<Longrightarrow>
    renders (timer_goes_off (i, due) rn) called"

lemma get_extend: "get_own (extend_with os styles) k = (case map_of (rev styles) k of None \<Rightarrow> get_own os k | Some v \<Rightarrow> v)"
proof (induction styles rule: rev_induct)
  case (snoc p ps)
  then show ?case by (cases p) (simp add: extend_with_def get_own_put_prop)
qed (simp add: extend_with_def)

lemma visibility_css:
  "visible (css styles e) \<longleftrightarrow> (case map_of (rev styles) ''visibility'' of None \<Rightarrow> visible e | Some v \<Rightarrow> v = Str ''visible'')"
  by (simp add: visible_def css_def get_extend split: option.splits)

lemma shown_visible [simp]:
  "visible (rn_ttDiv (show_tooltip g args rn))" "visible (rn_ttLine (show_tooltip g args rn))"
  "\<not> visible (rn_ttDiv (hide_tooltip rn))" "\<not> visible (rn_ttLine (hide_tooltip rn))"
  by (simp_all add: show_tooltip_def hide_tooltip_def visibility_css Let_def case_prod_unfold)

lemma timers_facts [simp]:
  "rn_timers (hide_tooltip rn) = rn_timers rn" "rn_timers (show_tooltip g args rn) = rn_timers rn"
  "rn_ttTimer (hide_tooltip rn) = rn_ttTimer rn" "rn_ttTimer (show_tooltip g args rn) = rn_ttTimer rn"
  "rn_now (hide_tooltip rn) = rn_now rn" "rn_now (show_tooltip g args rn) = rn_now rn"
  "rn_next (hide_tooltip rn) = rn_next rn" "rn_next (show_tooltip g args rn) = rn_next rn"
  by (simp_all add: show_tooltip_def hide_tooltip_def Let_def case_prod_unfold)

text \<open>At most one timer, the last one started, which is due three seconds after the last call.\<close>

definition timer_of :: "renderer_state \<Rightarrow> nat option \<Rightarrow> bool" where
  "timer_of rn called \<longleftrightarrow> (case called of
     None \<Rightarrow> rn_timers rn = []
   | Some t \<Rightarrow> rn_timers rn = [] \<and> t + 3000 \<le> rn_now rn \<or> (\<exists>i. rn_timers rn = [(i, t + 3000)] \<and> rn_ttTimer rn = Some i))"

definition shown_with_timer :: "renderer_state \<Rightarrow> bool" where
  "shown_with_timer rn \<longleftrightarrow> (visible (rn_ttDiv rn) \<longleftrightarrow> rn_timers rn \<noteq> []) \<and> (visible (rn_ttLine rn) \<longleftrightarrow> rn_timers rn \<noteq> [])"

lemma clear_timer_empty: "timer_of rn called \<Longrightarrow> rn_timers (clear_timer rn) = []"
  by (auto simp: timer_of_def clear_timer_def split: option.splits)

lemma clear_timer_rest [simp]:
  "rn_ttDiv (clear_timer rn) = rn_ttDiv rn" "rn_ttLine (clear_timer rn) = rn_ttLine rn" "rn_now (clear_timer rn) = rn_now rn"
  by (simp_all add: clear_timer_def split: option.split)

lemma refresh_timer: "timer_of rn called \<Longrightarrow> timer_of (tooltipRefresh g args rn) (Some (rn_now rn)) \<and>
    shown_with_timer (tooltipRefresh g args rn)"
proof -
  assume "timer_of rn called"
  then have "timer_of (show_tooltip g args rn) called" by (cases called) (simp_all add: timer_of_def)
  then have "rn_timers (clear_timer (show_tooltip g args rn)) = []" by (rule clear_timer_empty)
  then show ?thesis by (simp add: tooltipRefresh_def start_timer_def timer_of_def shown_with_timer_def)
qed

lemma created_hidden: "create chart_options c box t = Inr rn \<Longrightarrow> rn_timers rn = [] \<and> \<not> visible (rn_ttLine rn)"
  by (auto simp: create_def configure_def bind_res_Inr_iff setContainer_def createElement_def visibility_css hidden_style_def Let_def)

lemma renders_timer: "renders rn called \<Longrightarrow> timer_of rn called \<and> shown_with_timer rn"
proof (induction rule: renders.induct)
  case (Created chart_options c box t rn)
  then show ?case using created_hidden by (auto simp: timer_of_def shown_with_timer_def)
next
  case (Refreshed rn called g args)
  then show ?case using refresh_timer by blast
next
  case (Passed rn called d)
  then show ?case by (auto simp: timer_of_def shown_with_timer_def split: option.splits)
next
  case (WentOff rn called i due)
  then obtain t where "called = Some t" "rn_timers rn = [(i, due)]" "due = t + 3000"
    by (auto simp: timer_of_def split: option.splits)
  then show ?case
    using WentOff.hyps(3) by (simp add: timer_of_def shown_with_timer_def timer_goes_off_def)
qed

text \<open>
  C30: a tooltip is shown for three seconds. However often the chart calls, at most one timer waits
  to hide the tooltip and its line; they are seen exactly while it waits, for at least three
  seconds from the last call; the timer is due when these are over, and when the renderer is
  destroyed there is none left to run on what has been thrown away.
\<close>

theorem tooltip_three_seconds:
  assumes "renders rn called"
  shows "length (rn_timers rn) \<le> 1 \<and> (visible (rn_ttDiv rn) \<longleftrightarrow> rn_timers rn \<noteq> []) \<and>
    (visible (rn_ttLine rn) \<longleftrightarrow> rn_timers rn \<noteq> []) \<and>
    (\<forall>t. called = Some t \<and> rn_now rn < t + 3000 \<longrightarrow> visible (rn_ttDiv rn)) \<and>
    (\<forall>i due. (i, due) \<in> set (rn_timers rn) \<longrightarrow> called \<noteq> None \<and> due = the called + 3000) \<and>
    rn_timers (destroy rn) = []"
proof -
  have inv: "timer_of rn called" "shown_with_timer rn" using renders_timer [OF assms] by auto
  then have "timer_of (rn\<lparr>rn_canvas := discardElement (rn_canvas rn)\<rparr>) called"
    by (cases called) (simp_all add: timer_of_def)
  then have "rn_timers (destroy rn) = []" using clear_timer_empty by (simp add: destroy_def Let_def)
  then show ?thesis
    using inv by (auto simp: timer_of_def shown_with_timer_def split: option.splits)
qed

text \<open>A chart that calls once.\<close>

definition sample_tooltip :: jsval where
  "sample_tooltip = Obj [(''tooltip'', Obj [(''style'', Obj [(''padding'', Str ''8px'')])])]"

definition sample_container :: container_el where
  "sample_container = \<lparr>ct_left = Str ''0px'', ct_top = Str ''0px'', ct_offsetWidth = num_of_int 600, ct_offsetHeight = num_of_int 400\<rparr>"

definition sample_call :: "renderer_state \<Rightarrow> renderer_state" where
  "sample_call = tooltipRefresh \<lparr>cg_offsetLeft = zero, cg_offsetTop = zero, cg_plotTop = one, cg_plotHeight = num_of_int 300,
     cg_getPosition = (\<lambda>d x y. (x, y))\<rparr> \<lparr>ta_text = ''a'', ta_x = one, ta_y = one, ta_borderColor = Str ''red''\<rparr>"

theorem tooltip_three_seconds_witness:
  "\<exists>rn. create sample_tooltip sample_container '''' 0 = Inr rn \<and> visible (rn_ttDiv (sample_call rn))"
proof -
  obtain style where style: "tooltip_style (Obj [(''style'', Obj [(''padding'', Str ''8px'')])]) = Inr style"
    and hidden: "map_of (rev style) ''visibility'' = None"
  proof
    show "tooltip_style (Obj [(''style'', Obj [(''padding'', Str ''8px'')])]) =
        Inr (merge_styles (Obj [(''padding'', Str ''8px'')]) [(''padding'', px (Num (parse_int 10 ''8px''))),
          (''background-color'', Undefined), (''border-style'', Str ''solid''), (''border-width'', px Undefined),
          (''border-radius'', px Undefined)])"
      by (simp add: tooltip_style_def truthy_def)
  qed (simp add: merge_styles_def own_props_def px_def key_before_def is_array_index_def is_digit_def code_def)
  define rn where "rn = (let r = setContainer sample_container '''' 0 in r\<lparr>rn_ttDiv := css style (rn_ttDiv r),
    rn_ttLine := css [(''border-left'', Str ''1px solid darkgray'')] (rn_ttLine r)\<rparr>)"
  have create: "create sample_tooltip sample_container '''' 0 = Inr rn"
    using style by (simp add: create_def configure_def sample_tooltip_def rn_def Let_def)
  have "\<not> visible (rn_ttDiv rn)"
    using hidden by (simp add: rn_def Let_def visibility_css setContainer_def createElement_def hidden_style_def)
  then have "renders (sample_call rn) (Some (rn_now rn))"
    unfolding sample_call_def using renders.Created [OF create] by (intro renders.Refreshed)
  moreover have "rn_now (sample_call rn) < rn_now rn + 3000"
    by (simp add: sample_call_def tooltipRefresh_def start_timer_def)
  ultimately show ?thesis using create tooltip_three_seconds by blast
qed

end
