(* ===== verification/Lib_Export_Print.thy ===== *)
theory Lib_Export_Print
  imports Prelude
begin

text \<open>
  Printing a chart of Highcharts, \<open>print\<close> of modules/exporting.src.js: everything in the body of the
  page is hidden, the chart is moved into the body, the page is printed, and a second later the
  chart is moved back and everything is shown again. Nodes of the page are numbers. The lemmas
  show when the page is afterwards what it was before.
\<close>

section \<open>The nodes of the page\<close>

record page_nodes =
  nd_children :: "nat \<Rightarrow> nat list"
  nd_parent :: "nat \<Rightarrow> nat option"
  nd_element :: "nat \<Rightarrow> bool"
  nd_display :: "nat \<Rightarrow> string"

definition body_node :: nat where
  "body_node = 0"

text \<open>\<open>appendChild\<close> takes the node out of the place where it is.\<close>

definition take_from_parent :: "nat \<Rightarrow> page_nodes \<Rightarrow> page_nodes" where
  "take_from_parent c d = (case nd_parent d c of None \<Rightarrow> d
     | Some q \<Rightarrow> d\<lparr>nd_children := (nd_children d)(q := remove1 c (nd_children d q))\<rparr>)"

definition appendChild :: "nat \<Rightarrow> nat \<Rightarrow> page_nodes \<Rightarrow> page_nodes" where
  "appendChild p c d0 = (let d = take_from_parent c d0 in
     d\<lparr>nd_children := (nd_children d)(p := nd_children d p @ [c]), nd_parent := (nd_parent d)(c := Some p)\<rparr>)"

text \<open>Assigning to \<open>style.display\<close>; what is not a text is not taken.\<close>

definition set_display :: "nat \<Rightarrow> string option \<Rightarrow> page_nodes \<Rightarrow> page_nodes" where
  "set_display c v d = (case v of None \<Rightarrow> d | Some t \<Rightarrow> d\<lparr>nd_display := (nd_display d)(c := t)\<rparr>)"

section \<open>Printing\<close>

datatype print_effect = FocusWindow | PrintWindow

record printing =
  pr_nodes :: page_nodes
  pr_isPrinting :: bool
  pr_origDisplay :: "string option list"
  pr_origParent :: "nat option"
  pr_effects :: "print_effect list"

definition saved_display :: "page_nodes \<Rightarrow> nat \<Rightarrow> string option" where
  "saved_display d c = (if nd_element d c then Some (nd_display d c) else None)"

definition hide_children :: "page_nodes \<Rightarrow> page_nodes" where
  "hide_children d = foldl (\<lambda>t c. if nd_element t c then set_display c (Some ''none'') t else t) d (nd_children d body_node)"

definition print_chart :: "nat \<Rightarrow> printing \<Rightarrow> printing" where
  "print_chart container pr =
     (if pr_isPrinting pr then pr
      else (let d = pr_nodes pr in
        pr\<lparr>pr_isPrinting := True, pr_origDisplay := map (saved_display d) (nd_children d body_node),
          pr_origParent := nd_parent d container, pr_nodes := appendChild body_node container (hide_children d),
          pr_effects := pr_effects pr @ [FocusWindow, PrintWindow]\<rparr>))"

text \<open>The list of the children is alive: it is the one after the chart has been moved back.\<close>

definition show_children :: "string option list \<Rightarrow> page_nodes \<Rightarrow> page_nodes" where
  "show_children displays d = foldl (\<lambda>t (i, c). if nd_element t c
       then set_display c (if i < length displays then displays ! i else None) t else t)
     d (enumerate 0 (nd_children d body_node))"

text \<open>What the timer does; a chart that was in no parent cannot be moved back.\<close>

definition after_print :: "nat \<Rightarrow> printing \<Rightarrow> printing res" where
  "after_print container pr = (case pr_origParent pr of None \<Rightarrow> Inl TypeError
     | Some p \<Rightarrow> Inr (pr\<lparr>pr_nodes := show_children (pr_origDisplay pr) (appendChild p container (pr_nodes pr)),
         pr_isPrinting := False\<rparr>))"

section \<open>Hiding and showing\<close>

lemma set_display_facts [simp]:
  "nd_children (set_display c v d) = nd_children d" "nd_parent (set_display c v d) = nd_parent d"
  "nd_element (set_display c v d) = nd_element d"
  by (simp_all add: set_display_def split: option.split)

lemma hide_loop:
  "foldl (\<lambda>t c. if nd_element t c then set_display c (Some v) t else t) d cs =
    d\<lparr>nd_display := \<lambda>c. if c \<in> set cs \<and> nd_element d c then v else nd_display d c\<rparr>"
  by (induction cs arbitrary: d) (auto simp: set_display_def fun_eq_iff)

lemma hide_children_eq: "hide_children d =
    d\<lparr>nd_display := \<lambda>c. if c \<in> set (nd_children d body_node) \<and> nd_element d c then ''none'' else nd_display d c\<rparr>"
  unfolding hide_children_def by (rule hide_loop)

lemma show_children_keeps: "nd_children (show_children displays d) = nd_children d"
proof -
  have "nd_children (foldl (\<lambda>t (i, c). if nd_element t c then set_display c (f i) t else t) d xs) = nd_children d"
    for f and xs :: "(nat \<times> nat) list"
    by (induction xs arbitrary: d) auto
  from this [of "\<lambda>i. if i < length displays then displays ! i else None"] show ?thesis by (simp add: show_children_def)
qed

lemma show_loop:
  assumes "distinct cs" "length displays = n + length cs"
  shows "foldl (\<lambda>t (i, c). if nd_element t c then set_display c (if i < length displays then displays ! i else None) t else t)
      d (enumerate n cs) =
    d\<lparr>nd_display := \<lambda>c. case map_of (zip cs (drop n displays)) c of
        Some (Some v) \<Rightarrow> if nd_element d c then v else nd_display d c | _ \<Rightarrow> nd_display d c\<rparr>"
  using assms
proof (induction cs arbitrary: d n)
  case (Cons c cs)
  define t where "t = (if nd_element d c then set_display c (displays ! n) d else d)"
  have n: "n < length displays" "drop n displays = displays ! n # drop (Suc n) displays"
    using Cons.prems by (simp_all add: Cons_nth_drop_Suc)
  have notin: "map_of (zip cs (drop (Suc n) displays)) c = None"
    using Cons.prems by (auto simp: map_of_eq_None_iff dest: set_zip_leftD)
  have el: "nd_element t = nd_element d" by (simp add: t_def)
  have at: "nd_display t b = (if b = c \<and> nd_element d c then (case displays ! n of None \<Rightarrow> nd_display d c | Some v \<Rightarrow> v)
      else nd_display d b)" for b
    by (simp add: t_def set_display_def split: option.split)
  have rest: "t\<lparr>nd_display := f\<rparr> = d\<lparr>nd_display := f\<rparr>" for f
    by (simp add: t_def set_display_def split: option.split)
  have "foldl (\<lambda>t (i, c). if nd_element t c then set_display c (if i < length displays then displays ! i else None) t else t)
      t (enumerate (Suc n) cs) = t\<lparr>nd_display := \<lambda>b. case map_of (zip cs (drop (Suc n) displays)) b of
        Some (Some v) \<Rightarrow> if nd_element t b then v else nd_display t b | _ \<Rightarrow> nd_display t b\<rparr>"
    using Cons.prems by (intro Cons.IH) simp_all
  moreover have "(case map_of (zip cs (drop (Suc n) displays)) b of
        Some (Some v) \<Rightarrow> if nd_element t b then v else nd_display t b | _ \<Rightarrow> nd_display t b) =
      (case map_of (zip (c # cs) (drop n displays)) b of
        Some (Some v) \<Rightarrow> if nd_element d b then v else nd_display d b | _ \<Rightarrow> nd_display d b)" for b
    by (cases "b = c") (auto simp: n(2) notin el at split: option.split)
  moreover have "foldl (\<lambda>t (i, c). if nd_element t c then set_display c (if i < length displays then displays ! i else None) t else t)
      d (enumerate n (c # cs)) = foldl (\<lambda>t (i, c). if nd_element t c
        then set_display c (if i < length displays then displays ! i else None) t else t) t (enumerate (Suc n) cs)"
    by (simp add: n(1) t_def)
  ultimately show ?case by (simp only: rest)
qed simp

lemma show_hidden:
  assumes "distinct (nd_children d body_node)"
  shows "show_children (map (saved_display d) (nd_children d body_node)) (hide_children d) = d"
proof -
  have "map_of (zip cs (map f cs)) c = (if c \<in> set cs then Some (f c) else None)" for cs :: "nat list" and f :: "nat \<Rightarrow> string option" and c
    by (simp add: map_of_zip_map)
  then show ?thesis
    using show_loop [OF assms, of "map (saved_display d) (nd_children d body_node)" 0 "hide_children d"]
    by (simp add: show_children_def hide_children_eq saved_display_def fun_eq_iff split: option.splits)
qed

text \<open>The chart is taken into the body and back to the end of its place.\<close>

lemma moved_back:
  assumes "nd_parent d c = Some p" "p \<noteq> body_node" "nd_children d p = cs @ [c]" "c \<notin> set cs" "c \<notin> set (nd_children d body_node)"
  shows "appendChild p c (appendChild body_node c d) = d"
  using assms by (simp add: appendChild_def take_from_parent_def Let_def fun_upd_idem remove1_append fun_upd_twist)

text \<open>
  C33: printing leaves the page as it was. For a chart that is the last one in its place, and this
  not the body itself: while the page is printed every element of the body is hidden and the chart
  is behind them with its own display, a second call changes nothing, and when the timer has run
  all nodes are where they were and are displayed as they were.
\<close>

theorem print_restores:
  assumes "\<not> pr_isPrinting pr" and "nd_parent (pr_nodes pr) c = Some p" and "p \<noteq> body_node"
    and "nd_children (pr_nodes pr) p = cs @ [c]" and "c \<notin> set cs"
    and "c \<notin> set (nd_children (pr_nodes pr) body_node)" and "distinct (nd_children (pr_nodes pr) body_node)"
  shows "(\<forall>b \<in> set (nd_children (pr_nodes pr) body_node). nd_element (pr_nodes pr) b \<longrightarrow>
      nd_display (pr_nodes (print_chart c pr)) b = ''none'') \<and>
    nd_children (pr_nodes (print_chart c pr)) body_node = nd_children (pr_nodes pr) body_node @ [c] \<and>
    nd_display (pr_nodes (print_chart c pr)) c = nd_display (pr_nodes pr) c \<and>
    print_chart c (print_chart c pr) = print_chart c pr \<and>
    (\<exists>pr'. after_print c (print_chart c pr) = Inr pr' \<and> pr_nodes pr' = pr_nodes pr \<and> \<not> pr_isPrinting pr')"
proof -
  define d where "d = pr_nodes pr"
  have hidden: "nd_parent (hide_children d) = nd_parent d" "nd_children (hide_children d) = nd_children d"
    by (simp_all add: hide_children_eq)
  have "appendChild p c (appendChild body_node c (hide_children d)) = hide_children d"
    by (rule moved_back [where cs = cs]) (use assms [folded d_def] in \<open>simp_all add: hidden\<close>)
  then have "show_children (map (saved_display d) (nd_children d body_node))
      (appendChild p c (appendChild body_node c (hide_children d))) = d"
    using show_hidden assms(7) by (simp add: d_def)
  then have "\<exists>pr'. after_print c (print_chart c pr) = Inr pr' \<and> pr_nodes pr' = pr_nodes pr \<and> \<not> pr_isPrinting pr'"
    using assms(1,2) by (simp add: after_print_def print_chart_def Let_def d_def)
  then show ?thesis
    using assms by (simp add: print_chart_def Let_def appendChild_def take_from_parent_def hide_children_eq)
qed

text \<open>A page with a heading and a place for a chart.\<close>

definition sample_page :: printing where
  "sample_page = \<lparr>pr_nodes = \<lparr>nd_children = (\<lambda>n. if n = 0 then [1, 2] else if n = 2 then [3] else []),
       nd_parent = (\<lambda>n. if n = 3 then Some 2 else if n = 0 then None else Some 0), nd_element = (\<lambda>n. True),
       nd_display = (\<lambda>n. if n = 1 then ''inline'' else ''block'')\<rparr>,
     pr_isPrinting = False, pr_origDisplay = [], pr_origParent = None, pr_effects = []\<rparr>"

theorem print_restores_witness:
  "nd_display (pr_nodes (print_chart 3 sample_page)) 1 = ''none'' \<and>
   (\<exists>pr'. after_print 3 (print_chart 3 sample_page) = Inr pr' \<and> pr_nodes pr' = pr_nodes sample_page)"
  using print_restores [of sample_page 3 2 "[]"] by (auto simp: sample_page_def body_node_def)

text \<open>A chart that is not the last one in its place is moved behind the others.\<close>

lemma print_moves_chart:
  "\<not> pr_isPrinting pr \<Longrightarrow> nd_parent (pr_nodes pr) c = Some p \<Longrightarrow> p \<noteq> body_node \<Longrightarrow> distinct (nd_children (pr_nodes pr) p) \<Longrightarrow>
    after_print c (print_chart c pr) = Inr pr' \<Longrightarrow>
    nd_children (pr_nodes pr') p = remove1 c (nd_children (pr_nodes pr) p) @ [c]"
  by (auto simp: after_print_def print_chart_def Let_def show_children_keeps appendChild_def take_from_parent_def hide_children_eq)

end
