(* ===== verification/Lib_Export_Svg.thy ===== *)
theory Lib_Export_Svg
  imports Lib_Themes
begin

text \<open>
  The export of a chart of Highcharts, modules/exporting.src.js: the options of the copy that is
  drawn for the export, the cleaning of its SVG text by a chain of replacements, and the form that
  is sent to the server. What the copy looks like and how many axes it has is the platform's. The
  lemmas show that replacing ends, what it does before and at a match, and what is left of the
  text.
\<close>

section \<open>Replacing\<close>

text \<open>
  \<open>replace\<close> with a global expression. A matcher looks for the expression at the start of a text,
  and gives what takes its place and the text behind the match, which is never empty here.
\<close>

type_synonym matcher = "string \<Rightarrow> (string \<times> string) option"

function gsub :: "matcher \<Rightarrow> string \<Rightarrow> string" where
  "gsub m [] = []"
| "gsub m (c # s) = (case m (c # s) of
     Some (r, rest) \<Rightarrow> if length rest \<le> length s then r @ gsub m rest else c # gsub m s
   | None \<Rightarrow> c # gsub m s)"
  by pat_completeness auto
termination
  by (relation "measure (\<lambda>(m, s). length s)") auto

text \<open>\<open>replace\<close> with an expression that is not global.\<close>

fun sub_first :: "matcher \<Rightarrow> string \<Rightarrow> string" where
  "sub_first m [] = []"
| "sub_first m (c # s) = (case m (c # s) of Some (r, rest) \<Rightarrow> r @ rest | None \<Rightarrow> c # sub_first m s)"

text \<open>A literal, and a character class with a plus, from which nothing has to be given back here.\<close>

definition after_literal :: "string \<Rightarrow> string \<Rightarrow> string option" where
  "after_literal p s = (if prefix p s then Some (drop (length p) s) else None)"

definition class_plus :: "(char \<Rightarrow> bool) \<Rightarrow> string \<Rightarrow> (string \<times> string) option" where
  "class_plus P s = (if takeWhile P s = [] then None else Some (takeWhile P s, dropWhile P s))"

definition literal_by :: "string \<Rightarrow> string \<Rightarrow> matcher" where
  "literal_by p r s = map_option (\<lambda>rest. (r, rest)) (after_literal p s)"

text \<open>A literal, a class with a plus, and a literal; the function is given what the class took.\<close>

definition bracketed :: "string \<Rightarrow> (char \<Rightarrow> bool) \<Rightarrow> string \<Rightarrow> (string \<Rightarrow> string) \<Rightarrow> matcher" where
  "bracketed p P q f s =
     Option.bind (after_literal p s) (\<lambda>s1. Option.bind (class_plus P s1) (\<lambda>(x, s2).
     map_option (\<lambda>rest. (f x, rest)) (after_literal q s2)))"

definition not_quote :: "char \<Rightarrow> bool" where
  "not_quote c \<longleftrightarrow> c \<noteq> CHR 0x22"

definition no_value_end :: "char \<Rightarrow> bool" where
  "no_value_end c \<longleftrightarrow> c \<noteq> CHR 0x22 \<and> c \<noteq> CHR '' ''"

definition no_tag_end :: "char \<Rightarrow> bool" where
  "no_tag_end c \<longleftrightarrow> no_value_end c \<and> c \<noteq> CHR ''>''"

abbreviation quote :: string where
  "quote \<equiv> [CHR 0x22]"

section \<open>The cleaning of the text\<close>

definition drop_attribute :: "string \<Rightarrow> string \<Rightarrow> string" where
  "drop_attribute name = gsub (bracketed (name @ ''='' @ quote) not_quote quote (\<lambda>_. ''''))"

definition drop_jquery :: "string \<Rightarrow> string" where
  "drop_jquery = gsub (\<lambda>s. Option.bind (after_literal ''jQuery'' s) (\<lambda>s1. Option.bind (class_plus is_digit s1) (\<lambda>(_, s2).
     bracketed (''='' @ quote) not_quote quote (\<lambda>_. '''') s2)))"

definition local_urls :: "string \<Rightarrow> string" where
  "local_urls = gsub (bracketed ''url('' (\<lambda>c. c \<noteq> CHR ''#'') ''#'' (\<lambda>_. ''url(#''))"

definition xlink_namespace :: "string \<Rightarrow> string" where
  "xlink_namespace = sub_first (literal_by ''<svg '' (''<svg xmlns:xlink='' @ quote @ ''http://www.w3.org/1999/xlink'' @ quote @ '' ''))"

definition xlink_hrefs :: "string \<Rightarrow> string" where
  "xlink_hrefs = gsub (literal_by '' href='' '' xlink:href='')"

definition first_newline :: "string \<Rightarrow> string" where
  "first_newline = sub_first (literal_by [CHR 0x0A] '' '')"

text \<open>What comes behind the end of the svg element, up to the end of the text on the same line.\<close>

definition line_break :: "char \<Rightarrow> bool" where
  "line_break c \<longleftrightarrow> c = CHR 0x0A \<or> c = CHR 0x0D"

definition cut_html :: "string \<Rightarrow> string" where
  "cut_html = sub_first (\<lambda>s. Option.bind (after_literal ''</svg>'' s) (\<lambda>rest.
     if list_all (\<lambda>c. \<not> line_break c) rest then Some (''</svg>'', []) else None))"

text \<open>A colour with opacity as the value of \<open>fill\<close> or \<open>stroke\<close>.\<close>

definition rgb_char :: "char \<Rightarrow> bool" where
  "rgb_char c \<longleftrightarrow> c = CHR '' '' \<or> is_digit c"

definition alpha_char :: "char \<Rightarrow> bool" where
  "alpha_char c \<longleftrightarrow> rgb_char c \<or> c = CHR ''.''"

definition rgba_of :: "string \<Rightarrow> matcher" where
  "rgba_of name s =
     Option.bind (after_literal (name @ ''='' @ quote @ ''rgba('') s) (\<lambda>s1.
     Option.bind (class_plus rgb_char s1) (\<lambda>(r, s2). Option.bind (after_literal '','' s2) (\<lambda>s3.
     Option.bind (class_plus rgb_char s3) (\<lambda>(g, s4). Option.bind (after_literal '','' s4) (\<lambda>s5.
     Option.bind (class_plus rgb_char s5) (\<lambda>(b, s6). Option.bind (after_literal '','' s6) (\<lambda>s7.
     Option.bind (class_plus alpha_char s7) (\<lambda>(a, s8).
     map_option (\<lambda>rest. (name @ ''='' @ quote @ ''rgb('' @ r @ '','' @ g @ '','' @ b @ '')'' @ quote @ '' '' @
       name @ ''-opacity='' @ quote @ a @ quote, rest)) (after_literal ('')'' @ quote) s8)))))))))"

definition rgba_match :: matcher where
  "rgba_match s = (case rgba_of ''fill'' s of Some x \<Rightarrow> Some x | None \<Rightarrow> rgba_of ''stroke'' s)"

definition split_rgba :: "string \<Rightarrow> string" where
  "split_rgba = gsub rgba_match"

definition entities :: "string \<Rightarrow> string" where
  "entities s = gsub (literal_by ''&shy;'' [CHR 0xAD]) (gsub (literal_by ''&nbsp;'' [CHR 0xA0]) s)"

definition in_quotes :: "string \<Rightarrow> (char \<Rightarrow> bool) \<Rightarrow> string \<Rightarrow> string" where
  "in_quotes name P = gsub (bracketed (name @ ''='') P '''' (\<lambda>x. name @ ''='' @ quote @ x @ quote))"

definition vml_names :: "string \<Rightarrow> string" where
  "vml_names = gsub (\<lambda>s. case literal_by '':path'' ''path'' s of Some x \<Rightarrow> Some x | None \<Rightarrow> literal_by '':rect'' ''rect'' s)"

definition lower_styles :: "string \<Rightarrow> string" where
  "lower_styles = gsub (bracketed (''style='' @ quote) not_quote quote (\<lambda>x. lower_case (''style='' @ quote @ x @ quote)))"

definition ie_fixes :: "string \<Rightarrow> string" where
  "ie_fixes s =
     (let s1 = gsub (literal_by ''<IMG '' ''<image '') s;
          s2 = in_quotes ''width'' no_value_end (in_quotes ''height'' no_value_end s1);
          s3 = gsub (bracketed (''hc-svg-href='' @ quote) not_quote (quote @ ''>'') (\<lambda>x. ''xlink:href='' @ quote @ x @ quote @ ''/>'')) s2;
          s4 = in_quotes ''class'' no_tag_end (in_quotes ''id'' no_tag_end s3);
          s5 = gsub (literal_by '' transform '' '' '') s4 in
      lower_styles (vml_names s5))"

definition ie9_urls :: "string \<Rightarrow> string" where
  "ie9_urls = gsub (bracketed ''url(#highcharts-'' is_digit ''&quot;'' (\<lambda>x. ''url(#highcharts-'' @ x))"

definition plain_quotes :: "string \<Rightarrow> string" where
  "plain_quotes = gsub (literal_by ''&quot;'' [CHR 0x27])"

definition sanitize :: "string \<Rightarrow> string" where
  "sanitize svg =
     (let s1 = drop_attribute ''symbolName'' (drop_attribute ''isShadow'' (drop_attribute ''zIndex'' svg));
          s2 = xlink_hrefs (xlink_namespace (local_urls (drop_jquery s1)));
          s3 = split_rgba (cut_html (first_newline s2)) in
      plain_quotes (ie9_urls (ie_fixes (entities s3))))"

section \<open>The copy of the chart\<close>

text \<open>
  A chart as the export reads it: its options, its series with their options and whether they are
  seen, its size, the width and height in the style of its place, and what the user has zoomed its
  axes to. The platform draws the copy.
\<close>

record chart_view =
  cw_options :: props
  cw_series :: "(props \<times> jsval) list"
  cw_size :: "jsnum \<times> jsnum"
  cw_css :: "string \<times> string"
  cw_xAxis :: "(jsval \<times> jsval) list"
  cw_yAxis :: "(jsval \<times> jsval) list"

type_synonym extremes_call = "string \<times> nat \<times> jsval \<times> jsval"

record export_platform =
  ep_html :: "props \<Rightarrow> extremes_call list \<Rightarrow> string"
  ep_axes :: "props \<Rightarrow> string \<Rightarrow> nat"

definition or_else :: "jsval \<Rightarrow> jsval \<Rightarrow> jsval" where
  "or_else v w = (if truthy v then v else w)"

text \<open>
  The options under \<open>exporting\<close> and \<open>chart\<close> are objects or missing. The width or height that is exported: asked for, of the options, of the
  style, or a number.
\<close>

definition css_size :: "string \<Rightarrow> jsval" where
  "css_size s = (if suffix ''px'' s then Num (parse_int 10 s) else Boolean False)"

definition source_size :: "jsval \<Rightarrow> jsval \<Rightarrow> string \<Rightarrow> int \<Rightarrow> jsval" where
  "source_size asked own s fallback = or_else (or_else (or_else asked own) (css_size s)) (int_val fallback)"

definition sandbox :: jsval where
  "sandbox = Obj [(''nodeType'', int_val 1)]"

definition exported_series :: "(props \<times> jsval) list \<Rightarrow> jsval list" where
  "exported_series ss = map Obj (filter (\<lambda>os. \<not> truthy (get_own os ''isInternal''))
     (map (\<lambda>(os, visible). merge2 os [(''animation'', Boolean False), (''enableMouseTracking'', Boolean False),
        (''showCheckbox'', Boolean False), (''visible'', visible)]) ss))"

definition own_object :: "jsval \<Rightarrow> props res" where
  "own_object v = (case v of Obj ps \<Rightarrow> Inr ps | _ \<Rightarrow> Inl TypeError)"

definition copy_options :: "chart_view \<Rightarrow> props \<Rightarrow> props res" where
  "copy_options ch additional =
     (let os = merge2 (cw_options ch) additional in
      bind_res (own_object (get_own os ''exporting'')) (\<lambda>exporting.
      bind_res (own_object (get_own os ''chart'')) (\<lambda>chart.
      let width = source_size (get_own exporting ''sourceWidth'') (get_own chart ''width'') (fst (cw_css ch)) 600;
          height = source_size (get_own exporting ''sourceHeight'') (get_own chart ''height'') (snd (cw_css ch)) 400;
          chart' = extend_with chart [(''animation'', Boolean False), (''renderTo'', sandbox), (''forExport'', Boolean True),
            (''width'', width), (''height'', height)] in
      Inr (put_prop ''series'' (Arr (exported_series (cw_series ch)))
        (put_prop ''exporting'' (Obj (put_prop ''enabled'' (Boolean False) exporting)) (put_prop ''chart'' (Obj chart') os))))))"

text \<open>The zoom of the axes that the copy has too.\<close>

definition zoom_calls :: "string \<Rightarrow> nat \<Rightarrow> (jsval \<times> jsval) list \<Rightarrow> extremes_call list" where
  "zoom_calls axisType n axes = map (\<lambda>i. (axisType, i, axes ! i))
     (filter (\<lambda>i. i < n \<and> axes ! i \<noteq> (Undefined, Undefined)) [0..<length axes])"

definition getSVG :: "export_platform \<Rightarrow> chart_view \<Rightarrow> props \<Rightarrow> string res" where
  "getSVG ep ch additional = bind_res (copy_options ch additional) (\<lambda>os.
     Inr (sanitize (ep_html ep os (zoom_calls ''xAxis'' (ep_axes ep os ''xAxis'') (cw_xAxis ch) @
       zoom_calls ''yAxis'' (ep_axes ep os ''yAxis'') (cw_yAxis ch)))))"

section \<open>The form\<close>

text \<open>A form with its attributes and its hidden fields, which is sent and thrown away.\<close>

record form =
  fm_attrs :: props
  fm_fields :: "(string \<times> jsval) list"

definition post :: "jsval \<Rightarrow> props \<Rightarrow> props \<Rightarrow> form" where
  "post url sent formAttributes = \<lparr>fm_attrs = merge2 [(''method'', Str ''post''), (''action'', url),
     (''enctype'', Str ''multipart/form-data'')] formAttributes, fm_fields = sent\<rparr>"

definition exportChart :: "export_platform \<Rightarrow> chart_view \<Rightarrow> props \<Rightarrow> props \<Rightarrow> form res" where
  "exportChart ep ch ask chartOptions =
     bind_res (own_object (get_own (cw_options ch) ''exporting'')) (\<lambda>exporting.
     let size = [(''exporting'', Obj [(''sourceWidth'', or_else (get_own ask ''sourceWidth'') (get_own exporting ''sourceWidth'')),
            (''sourceHeight'', or_else (get_own ask ''sourceHeight'') (get_own exporting ''sourceHeight''))])];
         additional = merge_props (merge_props (merge2 [(''chart'', Obj [(''borderRadius'', int_val 0)])]
           (props_or_empty (get_own exporting ''chartOptions''))) chartOptions) size in
     bind_res (getSVG ep ch additional) (\<lambda>svg.
     let os = merge2 exporting ask in
     Inr (post (get_own os ''url'')
       [(''filename'', or_else (get_own os ''filename'') (Str ''chart'')), (''type'', get_own os ''type''),
        (''width'', or_else (get_own os ''width'') (int_val 0)), (''scale'', or_else (get_own os ''scale'') (int_val 2)),
        (''svg'', Str svg)] (props_or_empty (get_own os ''formAttributes'')))))"

section \<open>What replacing does\<close>

lemma gsub_match: "m (c # s) = Some (r, rest) \<Longrightarrow> length rest \<le> length s \<Longrightarrow> gsub m (c # s) = r @ gsub m rest"
  by simp

text \<open>Up to the first place where the expression is found, the text stays.\<close>

lemma gsub_before:
  assumes "\<And>x y. u = x @ y \<Longrightarrow> y \<noteq> [] \<Longrightarrow> m (y @ v) = None"
  shows "gsub m (u @ v) = u @ gsub m v"
  using assms
proof (induction u)
  case (Cons c u)
  have "m ((c # u) @ v) = None" using Cons.prems [of "[]" "c # u"] by simp
  moreover have "m (y @ v) = None" if "u = x @ y" "y \<noteq> []" for x y using Cons.prems [of "c # x" y] that by simp
  ultimately show ?case using Cons.IH by simp
qed simp

lemma literal_by_facts:
  "literal_by p r s = Some (r', rest) \<longleftrightarrow> r' = r \<and> s = p @ rest" "literal_by p r s = None \<longleftrightarrow> \<not> prefix p s"
  by (auto simp: literal_by_def after_literal_def prefix_def)

lemma after_literal_facts [simp]:
  "after_literal p (p @ s) = Some s" "after_literal p s = Some t \<longleftrightarrow> s = p @ t"
  by (auto simp: after_literal_def prefix_def)

lemma class_plus_facts:
  assumes "x \<noteq> []" "list_all P x" "s \<noteq> [] \<longrightarrow> \<not> P (hd s)"
  shows "class_plus P (x @ s) = Some (x, s)"
proof -
  have "takeWhile P (x @ s) = x" "dropWhile P (x @ s) = s"
    using assms(2,3) by (cases s; simp add: list_all_iff)+
  then show ?thesis using assms(1) by (simp add: class_plus_def)
qed

text \<open>A literal that is replaced by one character, not one of its own, is not left in the text.\<close>

lemma gsub_literal:
  "prefix p (c # s) \<Longrightarrow> p \<noteq> [] \<Longrightarrow> gsub (literal_by p r) (c # s) = r @ gsub (literal_by p r) (drop (length p) (c # s))"
  "\<not> prefix p (c # s) \<Longrightarrow> gsub (literal_by p r) (c # s) = c # gsub (literal_by p r) s"
  by (cases p; auto simp: literal_by_def after_literal_def)+

lemma gsub_keeps_prefix: "d \<notin> set w \<Longrightarrow> p \<noteq> [] \<Longrightarrow> prefix w (gsub (literal_by p [d]) s) \<Longrightarrow> prefix w s"
proof (induction s arbitrary: w)
  case (Cons c s)
  then show ?case
    by (cases "prefix p (c # s)"; cases w) (auto simp: gsub_literal simp del: gsub.simps)
qed simp

lemma literal_gone:
  assumes "d \<notin> set p" "p \<noteq> []"
  shows "\<not> sublist p (gsub (literal_by p [d]) s)"
proof (induction "length s" arbitrary: s rule: less_induct)
  case less
  have no_start: "\<not> prefix p (d # t)" for t using assms by (cases p) auto
  show ?case
  proof (cases s)
    case Nil
    then show ?thesis using assms(2) by simp
  next
    case (Cons c t)
    show ?thesis
    proof (cases "prefix p (c # t)")
      case True
      then have "\<not> sublist p (gsub (literal_by p [d]) (drop (length p) (c # t)))"
        using less assms(2) Cons by simp
      then show ?thesis
        using True Cons no_start assms(2) by (simp add: gsub_literal sublist_Cons_right del: gsub.simps drop_Cons)
    next
      case False
      moreover have "prefix p (c # t)" if "prefix p (c # gsub (literal_by p [d]) t)"
        using that gsub_keeps_prefix [of d "tl p" p t] assms by (cases p) auto
      ultimately show ?thesis using less Cons by (auto simp: gsub_literal sublist_Cons_right simp del: gsub.simps)
    qed
  qed
qed

text \<open>No entity of a quotation mark is left in an exported text.\<close>

theorem sanitize_no_entity: "\<not> sublist ''&quot;'' (sanitize svg)"
  unfolding sanitize_def Let_def plain_quotes_def by (rule literal_gone) simp_all

section \<open>Colours with opacity\<close>

definition channel :: "string \<Rightarrow> bool" where
  "channel x \<longleftrightarrow> x \<noteq> [] \<and> list_all rgb_char x"

definition rgba_attribute :: "string \<Rightarrow> string \<Rightarrow> string \<Rightarrow> string \<Rightarrow> string \<Rightarrow> string" where
  "rgba_attribute name r g b a = name @ ''='' @ quote @ ''rgba('' @ r @ '','' @ g @ '','' @ b @ '','' @ a @ '')'' @ quote"

definition rgb_attributes :: "string \<Rightarrow> string \<Rightarrow> string \<Rightarrow> string \<Rightarrow> string \<Rightarrow> string" where
  "rgb_attributes name r g b a = name @ ''='' @ quote @ ''rgb('' @ r @ '','' @ g @ '','' @ b @ '')'' @ quote @ '' '' @
     name @ ''-opacity='' @ quote @ a @ quote"

lemma rgba_of_attribute:
  assumes "channel r" "channel g" "channel b" "a \<noteq> []" "list_all alpha_char a"
  shows "rgba_of name (rgba_attribute name r g b a @ v) = Some (rgb_attributes name r g b a, v)"
proof -
  have sep: "\<not> rgb_char (CHR '','')" "\<not> alpha_char (CHR '')'')"
    by (simp_all add: rgb_char_def alpha_char_def is_digit_def code_def)
  have c: "class_plus rgb_char (x @ CHR '','' # s) = Some (x, CHR '','' # s)" if "channel x" for x s
    using that sep by (intro class_plus_facts) (simp_all add: channel_def)
  have a: "class_plus alpha_char (a @ CHR '')'' # s) = Some (a, CHR '')'' # s)" for s
    using assms(4,5) sep by (intro class_plus_facts) simp_all
  have start: "after_literal (name @ ''='' @ quote @ ''rgba('') (rgba_attribute name r g b a @ v) =
      Some (r @ CHR '','' # g @ CHR '','' # b @ CHR '','' # a @ CHR '')'' # quote @ v)"
    by (simp add: rgba_attribute_def)
  have ends: "after_literal '','' (CHR '','' # s) = Some s" "after_literal ('')'' @ quote) (CHR '')'' # quote @ v) = Some v" for s
    by simp_all
  show ?thesis
    unfolding rgba_of_def start bind.bind_lunit prod.case c [OF assms(1)] c [OF assms(2)] c [OF assms(3)] a ends
    by (simp add: rgb_attributes_def)
qed

lemma rgba_of_start: "rgba_of name s = Some x \<Longrightarrow> prefix (name @ ''='' @ quote) s"
  by (auto simp: rgba_of_def prefix_def bind_eq_Some_conv)

lemma rgba_of_None: "\<not> prefix (name @ ''='' @ quote) s \<Longrightarrow> rgba_of name s = None"
  using rgba_of_start by (cases "rgba_of name s") (blast | assumption)+

text \<open>The first quotation mark of a match is the one behind the name and the equals sign.\<close>

lemma no_match_before:
  assumes "list_all not_quote y" "y \<noteq> []" "name \<in> {''fill'', ''stroke''}"
  shows "rgba_match (y @ name @ ''='' @ quote @ w) = None"
proof -
  have plain: "\<forall>c \<in> set (n @ ''=''). not_quote c" if "n \<in> {''fill'', ''stroke''}" for n
    using that by (auto simp: not_quote_def)
  have upto: "takeWhile not_quote (u @ n @ ''='' @ quote @ z) = u @ n @ ''=''"
    if "list_all not_quote u" "n \<in> {''fill'', ''stroke''}" for u n z
    using takeWhile_append2 [of "u @ n @ ''=''" not_quote "quote @ z"] that(1) plain [OF that(2)]
    by (auto simp: list_all_iff not_quote_def)
  have "\<not> prefix (n @ ''='' @ quote) (y @ name @ ''='' @ quote @ w)" if "n \<in> {''fill'', ''stroke''}" for n
  proof
    assume "prefix (n @ ''='' @ quote) (y @ name @ ''='' @ quote @ w)"
    then obtain z where z: "y @ name @ ''='' @ quote @ w = n @ ''='' @ quote @ z" by (auto simp: prefix_def)
    have "y @ name @ ''='' = n @ ''=''" using upto [OF assms(1,3), of w] upto [of "[]" n z] that unfolding z by simp
    then have "y @ name = n" by simp
    then show False
      using assms(2,3) that by (cases y) (auto simp: append_eq_Cons_conv Cons_eq_append_conv)
  qed
  then have "rgba_of n (y @ name @ ''='' @ quote @ w) = None" if "n \<in> {''fill'', ''stroke''}" for n
    using that by (intro rgba_of_None)
  then show ?thesis unfolding rgba_match_def by (simp only: insertI1 insertI2 option.case)
qed



end
