(* ===== verification/Lib_Export_Menu.thy ===== *)
theory Lib_Export_Menu
  imports Lib_Export_Svg Canvg_Renderer
begin

text \<open>
  The buttons and menus of the export in modules/exporting.src.js: the default options, the row of
  buttons at a chart, the menu with its place, its timer and its items, and the end of all of
  them. The width of a button and the size of a menu are the platform's. The lemmas show where the
  buttons stand, that a menu is hidden half a second after the mouse has left it, and when the end
  of a chart throws.
\<close>

section \<open>Default options\<close>

definition export_lang :: props where
  "export_lang = [(''printChart'', Str ''Print chart''), (''downloadPNG'', Str ''Download PNG image''),
     (''downloadJPEG'', Str ''Download JPEG image''), (''downloadPDF'', Str ''Download PDF document''),
     (''downloadSVG'', Str ''Download SVG vector image''), (''contextButtonTitle'', Str ''Chart context menu'')]"

definition navigation_options :: "bool \<Rightarrow> props" where
  "navigation_options isTouchDevice =
     [(''menuStyle'', Obj [(''border'', Str ''1px solid #A0A0A0''), (''background'', Str ''#FFFFFF''), (''padding'', Str ''5px 0'')]),
      (''menuItemStyle'', Obj [(''padding'', Str ''0 10px''), (''background'', Str ''none''), (''color'', Str ''#303030''),
         (''fontSize'', Str (if isTouchDevice then ''14px'' else ''11px''))]),
      (''menuItemHoverStyle'', Obj [(''background'', Str ''#4572A5''), (''color'', Str ''#FFFFFF'')]),
      (''buttonOptions'', Obj [(''symbolFill'', Str ''#E0E0E0''), (''symbolSize'', int_val 14), (''symbolStroke'', Str ''#666''),
         (''symbolStrokeWidth'', int_val 3), (''symbolX'', Num (literal (25 / 2))), (''symbolY'', Num (literal (21 / 2))),
         (''align'', Str ''right''), (''buttonSpacing'', int_val 3), (''height'', int_val 22),
         (''theme'', Obj [(''fill'', Str ''white''), (''stroke'', Str ''none'')]), (''verticalAlign'', Str ''top''),
         (''width'', int_val 24)])]"

text \<open>The functions of the items are known by what they do.\<close>

definition exporting_options :: props where
  "exporting_options =
     [(''type'', Str ''image/png''), (''url'', Str ''http://export.highcharts.com/''),
      (''buttons'', Obj [(''contextButton'', Obj [(''menuClassName'', Str ''highcharts-contextmenu''), (''symbol'', Str ''menu''),
         (''_titleKey'', Str ''contextButtonTitle''),
         (''menuItems'', Arr
            [Obj [(''textKey'', Str ''printChart''), (''onclick'', Func ''print'')], Obj [(''separator'', Boolean True)],
             Obj [(''textKey'', Str ''downloadPNG''), (''onclick'', Func ''exportChart'')],
             Obj [(''textKey'', Str ''downloadJPEG''), (''onclick'', Func ''exportChart image/jpeg'')],
             Obj [(''textKey'', Str ''downloadPDF''), (''onclick'', Func ''exportChart application/pdf'')],
             Obj [(''textKey'', Str ''downloadSVG''), (''onclick'', Func ''exportChart image/svg+xml'')]])])])]"

section \<open>The state of a chart\<close>

text \<open>
  A button has its width, its class of menus, the place it is aligned to, and its symbol; a menu
  keeps its items with what they do, and the timer that is to hide it.
\<close>

record export_button =
  eb_width :: jsnum
  eb_menuClassName :: string
  eb_title :: jsval
  eb_align :: props
  eb_symbol :: "(string \<times> jsnum list) option"
  eb_attr :: props
  eb_state :: nat
  eb_items :: jsval
  eb_onclick :: jsval

record export_menu =
  em_menu :: html_el
  em_inner :: html_el
  em_items :: "(html_el \<times> jsval) list"
  em_button :: nat
  em_hideTimer :: "nat option"

text \<open>
  A chart with its options and its size, its buttons in the order they were made, the menus by the
  name of their class, and the timers that hide a menu. The elements that are to be destroyed are
  counted; there are none before the first button.
\<close>

record export_chart =
  ex_options :: props
  ex_width :: jsnum
  ex_height :: jsnum
  ex_btnCount :: nat
  ex_buttons :: "export_button list"
  ex_svgElements :: "nat option"
  ex_divElements :: nat
  ex_menus :: "(string \<times> export_menu) list"
  ex_menuSize :: "jsnum \<times> jsnum"
  ex_openMenu :: bool
  ex_timers :: "(nat \<times> string) list"
  ex_next :: nat
  ex_calls :: "jsval list"

section \<open>Buttons\<close>

definition pick :: "jsval \<Rightarrow> jsval \<Rightarrow> jsval" where
  "pick v w = (if is_nullish v then w else v)"

definition button_options :: "export_chart \<Rightarrow> props \<Rightarrow> props res" where
  "button_options ch os = bind_res (get_prop (get_own (ex_options ch) ''navigation'') ''buttonOptions'') (\<lambda>def.
     Inr (merge2 (props_or_empty def) os))"

text \<open>The attributes of a button: its theme without the states, with the size of a bare button.\<close>

definition button_attr :: "props \<Rightarrow> props res" where
  "button_attr os = bind_res (own_object (get_own os ''theme'')) (\<lambda>theme.
     let attr = filter (\<lambda>(k, v). k \<noteq> ''states'') theme in
     Inr (if truthy (get_own os ''text'') \<and> truthy (get_own os ''symbol'')
         then put_prop ''paddingLeft'' (pick (get_own attr ''paddingLeft'') (int_val 25)) attr
       else if \<not> truthy (get_own os ''text'')
         then extend_with attr [(''width'', get_own os ''width''), (''height'', get_own os ''height''), (''padding'', int_val 0)]
       else attr))"

definition symbol_of :: "props \<Rightarrow> (string \<times> jsnum list) option" where
  "symbol_of os = (if \<not> truthy (get_own os ''symbol'') then None
     else (let size = to_num (or_else (get_own os ''symbolSize'') (int_val 12)); half = js_div size (num_of_int 2) in
       Some (to_str (get_own os ''symbol''),
         [js_sub (to_num (get_own os ''symbolX'')) half, js_sub (to_num (get_own os ''symbolY'')) half, size, size])))"

text \<open>The offset of the next button, over all buttons of a chart.\<close>

definition next_offset :: "props \<Rightarrow> jsnum \<Rightarrow> jsnum \<Rightarrow> jsnum" where
  "next_offset os width offset = js_add offset (js_mul (js_add width (to_num (get_own os ''buttonSpacing'')))
     (if get_own os ''align'' = Str ''right'' then num_of_int (- 1) else one))"

definition addButton :: "(jsval \<Rightarrow> props \<Rightarrow> jsnum) \<Rightarrow> props \<Rightarrow> jsnum \<times> export_chart \<Rightarrow> (jsnum \<times> export_chart) res" where
  "addButton button_width opts st = (case st of (offset, ch0) \<Rightarrow>
     bind_res (button_options ch0 opts) (\<lambda>os.
     let ch = (case ex_svgElements ch0 of None \<Rightarrow> ch0\<lparr>ex_svgElements := Some 0, ex_divElements := 0\<rparr> | Some _ \<Rightarrow> ch0) in
     if get_own os ''enabled'' = Boolean False then Inr (offset, ch)
     else bind_res (button_attr os) (\<lambda>attr.
       let named = truthy (get_own opts ''menuClassName'');
           name = (if named then to_str (get_own opts ''menuClassName'')
             else ''highcharts-menu-'' @ int_to_string 10 (int (ex_btnCount ch)));
           width = button_width (get_own os ''text'') attr;
           place = extend_with os [(''width'', Num width), (''x'', pick (get_own os ''x'') (Num offset))];
           button = \<lparr>eb_width = width, eb_menuClassName = name,
             eb_title = get_or_undef (get_own (ex_options ch) ''lang'') (to_str (get_own os ''_titleKey'')), eb_align = place, eb_symbol = symbol_of os, eb_attr = attr,
             eb_state = 0, eb_items = get_own os ''menuItems'', eb_onclick = get_own os ''onclick''\<rparr> in
       Inr (next_offset os width offset,
         ch\<lparr>ex_btnCount := ex_btnCount ch + (if named then 0 else 1), ex_buttons := ex_buttons ch @ [button],
           ex_svgElements := map_option (\<lambda>n. n + 2) (ex_svgElements ch)\<rparr>))))"

text \<open>When a chart has been loaded.\<close>

definition add_buttons :: "(jsval \<Rightarrow> props \<Rightarrow> jsnum) \<Rightarrow> export_chart \<Rightarrow> (bool \<times> export_chart) res" where
  "add_buttons button_width ch =
     bind_res (own_object (get_own (ex_options ch) ''exporting'')) (\<lambda>exporting.
     if get_own exporting ''enabled'' = Boolean False then Inr (False, ch)
     else bind_res (fold_res (\<lambda>st (n, os). addButton button_width (props_or_empty os) st) (zero, ch)
         (props_or_empty (get_own exporting ''buttons''))) (\<lambda>(_, ch'). Inr (True, ch')))"

text \<open>The symbol of the menu: three lines.\<close>

definition menu_symbol :: "jsnum \<Rightarrow> jsnum \<Rightarrow> jsnum \<Rightarrow> jsnum \<Rightarrow> (string \<times> jsnum \<times> jsnum) list" where
  "menu_symbol x y width height =
     (let half = literal (1 / 2); top = js_add y (literal (5 / 2));
          middle = js_add (js_add y (js_div height (num_of_int 2))) half;
          bottom = js_sub (js_add y height) (literal (3 / 2)) in
      [(''M'', x, top), (''L'', js_add x width, top), (''M'', x, middle), (''L'', js_add x width, middle),
       (''M'', x, bottom), (''L'', js_add x width, bottom)])"

section \<open>The menu\<close>

definition menu_item :: "props \<Rightarrow> props \<Rightarrow> props \<Rightarrow> html_el \<times> jsval" where
  "menu_item lang itemStyle item =
     (if truthy (get_own item ''separator'') then (createElement ''hr'' [] [] InContainer, Undefined)
      else ((createElement ''div'' [] (extend_with [(''cursor'', Str ''pointer'')] itemStyle) InContainer)
          \<lparr>he_html := to_str (or_else (get_own item ''text'') (get_own lang (to_str (get_own item ''textKey''))))\<rparr>,
        get_own item ''onclick''))"

definition array_items :: "jsval \<Rightarrow> jsval list" where
  "array_items v = (case v of Arr vs \<Rightarrow> vs | _ \<Rightarrow> [])"

definition new_menu :: "export_chart \<Rightarrow> nat \<Rightarrow> string \<Rightarrow> jsval \<Rightarrow> jsnum \<Rightarrow> export_menu" where
  "new_menu ch button className items padding =
     (let nav = props_or_empty (get_own (ex_options ch) ''navigation'');
          shadow = Str ''3px 3px 10px #888'';
          lang = props_or_empty (get_own (ex_options ch) ''lang'');
          plain_style = props_or_empty (get_own nav ''menuItemStyle'') in
      \<lparr>em_menu = createElement ''div'' [(''className'', Str className)] [(''position'', Str ''absolute''), (''zIndex'', int_val 1000),
         (''padding'', px (Num padding))] InContainer,
       em_inner = createElement ''div'' [] (extend_with [(''MozBoxShadow'', shadow), (''WebkitBoxShadow'', shadow), (''boxShadow'', shadow)]
         (props_or_empty (get_own nav ''menuStyle''))) InContainer,
       em_items = map (\<lambda>item. menu_item lang plain_style (props_or_empty item)) (filter truthy (array_items items)),
       em_button = button, em_hideTimer = None\<rparr>)"

definition menu_of :: "string \<Rightarrow> export_chart \<Rightarrow> export_menu option" where
  "menu_of name ch = map_of (ex_menus ch) name"

definition put_menu :: "string \<Rightarrow> export_menu \<Rightarrow> export_chart \<Rightarrow> export_chart" where
  "put_menu name m ch = ch\<lparr>ex_menus := put_prop name m (ex_menus ch)\<rparr>"

text \<open>
  Where a menu is put beside its button: to the left of its right end when it would leave the chart,
  and above it when it would leave the chart below and the button is not at the top.
\<close>

definition menu_place :: "export_chart \<Rightarrow> jsnum \<Rightarrow> jsnum \<Rightarrow> jsnum \<Rightarrow> jsnum \<Rightarrow> bool \<Rightarrow> props" where
  "menu_place ch x y width height high_up =
     (let padding = math_max width height; (mw, mh) = ex_menuSize ch in
      [(''display'', Str ''block''),
       (if num_lt (ex_width ch) (js_add x mw)
        then (''right'', px (Num (js_sub (js_sub (js_sub (ex_width ch) x) width) padding)))
        else (''left'', px (Num (js_sub x padding)))),
       (if num_lt (ex_height ch) (js_add (js_add y height) mh) \<and> \<not> high_up
        then (''bottom'', px (Num (js_sub (js_sub (ex_height ch) y) padding)))
        else (''top'', px (Num (js_sub (js_add y height) padding))))])"

text \<open>
  A menu is made once for a class name; the size of the last menu made is the chart's. The button is
  the one that the menu is shown for.
\<close>

definition at_top_of :: "export_chart \<Rightarrow> nat \<Rightarrow> bool" where
  "at_top_of ch button \<longleftrightarrow> get_own (eb_align (ex_buttons ch ! button)) ''verticalAlign'' = Str ''top''"

definition contextMenu ::
  "(export_menu \<Rightarrow> jsnum \<times> jsnum) \<Rightarrow> nat \<Rightarrow> string \<Rightarrow> jsval \<Rightarrow> jsnum \<Rightarrow> jsnum \<Rightarrow> jsnum \<Rightarrow> jsnum \<Rightarrow> export_chart \<Rightarrow> export_chart" where
  "contextMenu menu_size button name items x y width height ch0 =
     (let ch = (case menu_of name ch0 of Some _ \<Rightarrow> ch0
        | None \<Rightarrow> (let m = new_menu ch0 button name items (math_max width height) in
            (put_menu name m ch0)\<lparr>ex_divElements := ex_divElements ch0 + length (em_items m) + 2, ex_menuSize := menu_size m\<rparr>));
        place = menu_place ch x y width height (at_top_of ch button) in
      case menu_of name ch of None \<Rightarrow> ch
      | Some m \<Rightarrow> (put_menu name (m\<lparr>em_menu := css place (em_menu m)\<rparr>) ch)\<lparr>ex_openMenu := True\<rparr>)"

definition setState :: "nat \<Rightarrow> nat \<Rightarrow> export_chart \<Rightarrow> export_chart" where
  "setState button n ch = ch\<lparr>ex_buttons := (ex_buttons ch)[button := (ex_buttons ch ! button)\<lparr>eb_state := n\<rparr>]\<rparr>"

text \<open>A click on a button: its own function, or its menu at the place where the button is.\<close>

definition button_click :: "(export_menu \<Rightarrow> jsnum \<times> jsnum) \<Rightarrow> nat \<Rightarrow> jsnum \<times> jsnum \<Rightarrow> jsnum \<Rightarrow> export_chart \<Rightarrow> export_chart" where
  "button_click menu_size button corner height ch = (let b = ex_buttons ch ! button in
     if truthy (eb_onclick b) then ch\<lparr>ex_calls := ex_calls ch @ [eb_onclick b]\<rparr>
     else if truthy (eb_items b) then setState button 2
       (contextMenu menu_size button (eb_menuClassName b) (eb_items b) (fst corner) (snd corner) (eb_width b) height ch)
     else ch)"

definition hide_menu :: "string \<Rightarrow> export_chart \<Rightarrow> export_chart" where
  "hide_menu name ch = (case menu_of name ch of None \<Rightarrow> ch
     | Some m \<Rightarrow> setState (em_button m) 0
         ((put_menu name (m\<lparr>em_menu := css [(''display'', Str ''none'')] (em_menu m)\<rparr>) ch)\<lparr>ex_openMenu := False\<rparr>))"

text \<open>The mouse leaves a menu and enters it; the timer hides it half a second later.\<close>

definition menu_mouseleave :: "string \<Rightarrow> export_chart \<Rightarrow> export_chart" where
  "menu_mouseleave name ch = (case menu_of name ch of None \<Rightarrow> ch
     | Some m \<Rightarrow> (put_menu name (m\<lparr>em_hideTimer := Some (ex_next ch)\<rparr>) ch)\<lparr>ex_timers := ex_timers ch @ [(ex_next ch, name)],
         ex_next := ex_next ch + 1\<rparr>)"

definition menu_mouseenter :: "string \<Rightarrow> export_chart \<Rightarrow> export_chart" where
  "menu_mouseenter name ch = (case menu_of name ch of None \<Rightarrow> ch
     | Some m \<Rightarrow> (case em_hideTimer m of None \<Rightarrow> ch
         | Some i \<Rightarrow> ch\<lparr>ex_timers := filter (\<lambda>(j, _). j \<noteq> i) (ex_timers ch)\<rparr>))"

definition hide_timer :: "nat \<times> string \<Rightarrow> export_chart \<Rightarrow> export_chart" where
  "hide_timer t ch = hide_menu (snd t) (ch\<lparr>ex_timers := remove1 t (ex_timers ch)\<rparr>)"

text \<open>A click outside of the menu, and one on an item, which hides the menu before it calls.\<close>

definition document_mouseup :: "string \<Rightarrow> bool \<Rightarrow> export_chart \<Rightarrow> export_chart" where
  "document_mouseup name inside ch = (if inside then ch else hide_menu name ch)"

definition item_click :: "string \<Rightarrow> nat \<Rightarrow> export_chart \<Rightarrow> export_chart" where
  "item_click name i ch = (case menu_of name ch of None \<Rightarrow> ch
     | Some m \<Rightarrow> (case list_at (em_items m) i of None \<Rightarrow> ch
         | Some (_, action) \<Rightarrow> (let ch' = hide_menu name ch in ch'\<lparr>ex_calls := ex_calls ch' @ [action]\<rparr>)))"

text \<open>The mouse over an item and away from it.\<close>

definition item_style :: "string \<Rightarrow> string \<Rightarrow> nat \<Rightarrow> export_chart \<Rightarrow> export_chart" where
  "item_style key name i ch = (case menu_of name ch of None \<Rightarrow> ch
     | Some m \<Rightarrow> (case list_at (em_items m) i of None \<Rightarrow> ch
         | Some (e, a) \<Rightarrow> put_menu name (m\<lparr>em_items := (em_items m)[i :=
             (css (props_or_empty (get_or_undef (get_own (ex_options ch) ''navigation'') key)) e, a)]\<rparr>) ch))"

definition item_mouseover :: "string \<Rightarrow> nat \<Rightarrow> export_chart \<Rightarrow> export_chart" where
  "item_mouseover = item_style ''menuItemHoverStyle''"

definition item_mouseout :: "string \<Rightarrow> nat \<Rightarrow> export_chart \<Rightarrow> export_chart" where
  "item_mouseout = item_style ''menuItemStyle''"

text \<open>The end: the elements are destroyed, but there is no list of them before the first button.\<close>

definition destroyExport :: "export_chart \<Rightarrow> export_chart res" where
  "destroyExport ch = (case ex_svgElements ch of None \<Rightarrow> Inl TypeError
     | Some _ \<Rightarrow> Inr (ch\<lparr>ex_menus := map (\<lambda>(name, m). (name, m\<lparr>em_menu := discardElement (em_menu m),
         em_inner := discardElement (em_inner m), em_items := map (\<lambda>(e, a). (discardElement e, Null)) (em_items m)\<rparr>)) (ex_menus ch),
         ex_buttons := map (\<lambda>b. b\<lparr>eb_onclick := Null\<rparr>) (ex_buttons ch)\<rparr>))"

section \<open>An entry for CSV\<close>

text \<open>
  modules/export-csv.js puts one more entry into the menu, if there is one to put it into, and sends
  the text of the chart to a server.
\<close>

definition csv_item :: "props \<Rightarrow> props" where
  "csv_item lang = [(''text'', or_else (get_own lang ''downloadCSV'') (Str ''Download CSV'')), (''onclick'', Func ''downloadCSV'')]"

definition add_csv_item :: "props \<Rightarrow> jsval \<Rightarrow> jsval res" where
  "add_csv_item lang exporting = (if \<not> truthy exporting then Inr exporting
     else bind_res (get_prop exporting ''buttons'') (\<lambda>buttons. bind_res (get_prop buttons ''contextButton'') (\<lambda>button.
       bind_res (get_prop button ''menuItems'') (\<lambda>items. case items of
         Arr vs \<Rightarrow> Inr (Obj (put_prop ''buttons'' (Obj (put_prop ''contextButton'' (Obj (put_prop ''menuItems''
           (Arr (vs @ [Obj (csv_item lang)])) (props_or_empty button))) (props_or_empty buttons))) (props_or_empty exporting)))
       | _ \<Rightarrow> Inl TypeError))))"

definition post_csv :: "string \<Rightarrow> form" where
  "post_csv text_of_chart = post (Str ''http://www.highcharts.com/studies/csv-export/csv.php'') [(''csv'', Str text_of_chart)] []"

section \<open>The row of buttons\<close>

text \<open>A button that is shown, with a place from the right and none of its own, and its width.\<close>

definition row_button :: "(jsval \<Rightarrow> props \<Rightarrow> jsnum) \<Rightarrow> export_chart \<Rightarrow> int \<Rightarrow> props \<Rightarrow> int \<Rightarrow> bool" where
  "row_button button_width ch spacing opts w \<longleftrightarrow> (\<exists>os attr. button_options ch opts = Inr os \<and> button_attr os = Inr attr \<and>
     get_own os ''enabled'' \<noteq> Boolean False \<and> get_own os ''align'' = Str ''right'' \<and>
     get_own os ''buttonSpacing'' = int_val spacing \<and> is_nullish (get_own os ''x'') \<and>
     button_width (get_own os ''text'') attr = num_of_int w)"

definition button_x :: "export_button \<Rightarrow> jsval" where
  "button_x b = get_own (eb_align b) ''x''"

text \<open>The offsets of a row: each button further to the left by the width of the one before and the space.\<close>

fun offsets :: "int \<Rightarrow> int \<Rightarrow> int list \<Rightarrow> int list" where
  "offsets spacing x [] = []"
| "offsets spacing x (w # ws) = x # offsets spacing (x - (w + spacing)) ws"

lemma js_mul_minus_one: "0 < n \<Longrightarrow> n \<le> 2 ^ 53 \<Longrightarrow> js_mul (num_of_int n) (num_of_int (- 1)) = num_of_int (- n)"
proof -
  assume n: "0 < n" "n \<le> 2 ^ 53"
  have r: "rounded (of_int (- n)) = of_int (- n)" using n by (intro rounded_of_int) simp
  have "of_int n < overflow"
    using n(2) pow2_less_overflow [of 53] order_le_less_trans [of "of_int n" "2 ^ 53 :: rat" overflow] of_int_le_iff [of n "2 ^ 53"]
    by simp
  then have "to_double True (of_int (- n)) = Fin (of_int (- n))"
    using r n(1) by (intro to_double_exact) simp_all
  then show ?thesis using n(1) by (simp add: js_mul_def)
qed

lemma next_offset_right:
  assumes "get_own os ''align'' = Str ''right''" "get_own os ''buttonSpacing'' = int_val spacing"
    and "0 < w + spacing" "w + spacing \<le> 2 ^ 53" "\<bar>x - (w + spacing)\<bar> \<le> 2 ^ 53"
  shows "next_offset os (num_of_int w) (num_of_int x) = num_of_int (x - (w + spacing))"
proof -
  have "js_add (num_of_int w) (to_num (int_val spacing)) = num_of_int (w + spacing)"
    using assms(3,4) js_add_int [of w spacing] by (simp add: to_num_def)
  then have "next_offset os (num_of_int w) (num_of_int x) = js_add (num_of_int x) (num_of_int (- (w + spacing)))"
    using assms(1,2) js_mul_minus_one [OF assms(3,4)] by (simp add: next_offset_def)
  then show ?thesis using js_add_int [of x "- (w + spacing)"] assms(5) by simp
qed

lemma add_row_button:
  assumes "row_button button_width ch spacing opts w" "0 < w + spacing" "w + spacing \<le> 2 ^ 53" "\<bar>x - (w + spacing)\<bar> \<le> 2 ^ 53"
  shows "\<exists>b ch'. addButton button_width opts (num_of_int x, ch) = Inr (num_of_int (x - (w + spacing)), ch') \<and>
    ex_buttons ch' = ex_buttons ch @ [b] \<and> button_x b = int_val x \<and> eb_width b = num_of_int w \<and> ex_options ch' = ex_options ch \<and>
    ex_svgElements ch' \<noteq> None"
proof -
  obtain os attr where os: "button_options ch opts = Inr os" "button_attr os = Inr attr" "get_own os ''enabled'' \<noteq> Boolean False"
    "get_own os ''align'' = Str ''right''" "get_own os ''buttonSpacing'' = int_val spacing" "is_nullish (get_own os ''x'')"
    "button_width (get_own os ''text'') attr = num_of_int w"
    using assms(1) by (auto simp: row_button_def)
  have x: "get_own (extend_with os [(''width'', v), (''x'', u)]) ''x'' = u" for u v
    by (simp add: extend_with_def get_own_put_prop)
  show ?thesis
    using next_offset_right [OF os(4,5) assms(2-4)] os
    by (cases "ex_svgElements ch") (simp_all add: addButton_def button_x_def x pick_def Let_def)
qed

text \<open>
  C39: the buttons of a chart stand side by side. Buttons that are aligned to the right and have no
  place of their own get the offsets of a row: the first is at the edge, and each of the others is
  as far to the left of the one before as that is wide, and the space between them more.
\<close>

theorem buttons_in_row:
  assumes "list_all2 (row_button button_width ch spacing) (map snd bs) ws" and "\<forall>w \<in> set ws. 0 < w + spacing"
    and "\<bar>x\<bar> + sum_list (map (\<lambda>w. w + spacing) ws) \<le> 2 ^ 53"
  shows "\<exists>ch' y. fold_res (\<lambda>st (n, os). addButton button_width os st) (num_of_int x, ch) bs = Inr (y, ch') \<and>
    map button_x (ex_buttons ch') = map button_x (ex_buttons ch) @ map int_val (offsets spacing x ws) \<and>
    map eb_width (ex_buttons ch') = map eb_width (ex_buttons ch) @ map num_of_int ws"
  using assms
proof (induction bs arbitrary: x ws ch)
  case (Cons p bs)
  obtain n opts where p: "p = (n, opts)" by (cases p)
  obtain w vs where ws: "ws = w # vs" "row_button button_width ch spacing opts w"
    "list_all2 (row_button button_width ch spacing) (map snd bs) vs"
    using Cons.prems(1) by (auto simp: p list_all2_Cons1)
  have nonneg: "0 \<le> sum_list (map (\<lambda>w. w + spacing) vs)"
    using Cons.prems(2) by (intro sum_list_nonneg) (auto simp: ws(1) less_imp_le)
  have step: "0 < w + spacing" "w + spacing \<le> 2 ^ 53" "\<bar>x - (w + spacing)\<bar> \<le> 2 ^ 53"
    "\<bar>x - (w + spacing)\<bar> + sum_list (map (\<lambda>w. w + spacing) vs) \<le> 2 ^ 53"
    using Cons.prems(2,3) nonneg by (auto simp: ws(1))
  obtain b ch1 where one: "addButton button_width opts (num_of_int x, ch) = Inr (num_of_int (x - (w + spacing)), ch1)"
    "ex_buttons ch1 = ex_buttons ch @ [b]" "button_x b = int_val x" "eb_width b = num_of_int w" "ex_options ch1 = ex_options ch"
    using add_row_button [OF ws(2) step(1-3)] by auto
  have "row_button button_width ch1 spacing = row_button button_width ch spacing"
    using one(5) by (simp add: row_button_def button_options_def fun_eq_iff)
  then obtain ch' y where "fold_res (\<lambda>st (n, os). addButton button_width os st) (num_of_int (x - (w + spacing)), ch1) bs = Inr (y, ch')"
    "map button_x (ex_buttons ch') = map button_x (ex_buttons ch1) @ map int_val (offsets spacing (x - (w + spacing)) vs)"
    "map eb_width (ex_buttons ch') = map eb_width (ex_buttons ch1) @ map num_of_int vs"
    using Cons.IH [of ch1 vs "x - (w + spacing)"] ws(3) Cons.prems(2) step(4) by (auto simp: ws(1))
  then show ?case using one by (simp add: p ws(1))
qed simp

text \<open>A chart with the default options.\<close>

definition default_chart :: "props \<Rightarrow> export_chart" where
  "default_chart exporting = \<lparr>ex_options = [(''exporting'', Obj exporting), (''lang'', Obj export_lang),
       (''navigation'', Obj (navigation_options False))],
     ex_width = num_of_int 600, ex_height = num_of_int 400, ex_btnCount = 0, ex_buttons = [], ex_svgElements = None,
     ex_divElements = 0, ex_menus = [], ex_menuSize = (zero, zero), ex_openMenu = False, ex_timers = [], ex_next = 1, ex_calls = []\<rparr>"

lemma default_row: "row_button (\<lambda>t a. num_of_int 24) (default_chart exporting) 3 [] 24"
proof -
  define def where "def = props_or_empty (get_own (navigation_options False) ''buttonOptions'')"
  have dist: "distinct (map fst def)" by (simp add: def_def navigation_options_def props_or_empty_def)
  have os: "button_options (default_chart exporting) [] = Inr (merge2 def [])"
    by (simp add: button_options_def default_chart_def def_def)
  have read: "get_own (merge2 def []) k = (case map_of def k of None \<Rightarrow> Undefined | Some v \<Rightarrow> merge_value k Undefined v)" for k
    by (simp add: merge2_def get_own_merge_props [OF dist] split: option.split)
  have "get_own (merge2 def []) ''text'' = Undefined" "get_own (merge2 def []) ''enabled'' = Undefined"
    "get_own (merge2 def []) ''align'' = Str ''right''" "get_own (merge2 def []) ''buttonSpacing'' = int_val 3"
    "get_own (merge2 def []) ''x'' = Undefined" "\<exists>ps. get_own (merge2 def []) ''theme'' = Obj ps"
    unfolding read by (simp_all add: def_def navigation_options_def props_or_empty_def is_node_def)
  then show ?thesis
    using os by (auto simp: row_button_def button_attr_def own_object_def is_nullish_def Let_def)
qed

theorem buttons_in_row_witness:
  "\<exists>ch' y. fold_res (\<lambda>st (n, os). addButton (\<lambda>t a. num_of_int 24) os st) (num_of_int 0, default_chart [])
      [(''first'', []), (''second'', [])] = Inr (y, ch') \<and>
    map button_x (ex_buttons ch') = [int_val 0, int_val (- 27)]"
proof -
  have "list_all2 (row_button (\<lambda>t a. num_of_int 24) (default_chart []) 3) (map snd [(''first'', []), (''second'', [])]) [24, 24]"
    using default_row by simp
  from buttons_in_row [OF this, of 0] show ?thesis by (auto simp: default_chart_def)
qed

section \<open>The mouse and the menu\<close>

text \<open>A menu that is entered again is not hidden by the timer of the time it was left.\<close>

lemma entered_again:
  assumes "menu_of name ch = Some m" "\<forall>(j, n) \<in> set (ex_timers ch). j < ex_next ch"
  shows "ex_timers (menu_mouseenter name (menu_mouseleave name ch)) = ex_timers ch"
proof -
  have "filter (\<lambda>(j, _). j \<noteq> ex_next ch) (ex_timers ch) = ex_timers ch" using assms(2) by (auto intro: filter_True)
  then show ?thesis
    using assms(1) by (simp add: menu_mouseenter_def menu_mouseleave_def menu_of_def put_menu_def map_of_put_prop)
qed

section \<open>The end of a chart\<close>

lemma addButton_elements:
  "addButton button_width opts (x, ch) = Inr (y, ch') \<Longrightarrow> ex_svgElements ch' \<noteq> None"
  by (cases "ex_svgElements ch")
    (auto simp: addButton_def bind_res_Inr_iff Let_def split: if_splits)

lemma buttons_elements:
  "fold_res (\<lambda>st (n, os). addButton button_width (f os) st) st bs = Inr st' \<Longrightarrow>
    ex_svgElements (snd st') = None \<longleftrightarrow> bs = [] \<and> ex_svgElements (snd st) = None"
proof (induction bs arbitrary: st)
  case (Cons b bs)
  obtain n os where b: "b = (n, os)" by (cases b)
  obtain st1 where st1: "addButton button_width (f os) st = Inr st1"
      "fold_res (\<lambda>st (n, os). addButton button_width (f os) st) st1 bs = Inr st'"
    using Cons.prems by (auto simp: b bind_res_Inr_iff)
  have "ex_svgElements (snd st1) \<noteq> None"
    using addButton_elements [of button_width "f os" "fst st" "snd st" "fst st1" "snd st1"] st1(1) by simp
  then show ?case using Cons.IH [OF st1(2)] by simp
qed simp

text \<open>
  C40: the end of a chart throws when it has no buttons. After a chart with the export enabled has
  been loaded, \<open>destroyExport\<close>, which is then bound to its end, throws a TypeError exactly when
  there are no buttons in the options; otherwise everything of the menus is taken off the page.
\<close>

theorem destroy_without_buttons:
  assumes "add_buttons button_width ch = Inr (True, ch')" and "ex_svgElements ch = None"
  shows "(destroyExport ch' = Inl TypeError \<longleftrightarrow>
      props_or_empty (get_own (props_or_empty (get_own (ex_options ch) ''exporting'')) ''buttons'') = []) \<and>
    (\<forall>ch''. destroyExport ch' = Inr ch'' \<longrightarrow> (\<forall>(name, m) \<in> set (ex_menus ch'').
      he_place (em_menu m) = Discarded \<and> he_place (em_inner m) = Discarded \<and>
      (\<forall>(e, action) \<in> set (em_items m). he_place e = Discarded \<and> action = Null)))"
proof -
  obtain exporting x where ex: "own_object (get_own (ex_options ch) ''exporting'') = Inr exporting"
      "fold_res (\<lambda>st (n, os). addButton button_width (props_or_empty os) st) (zero, ch)
        (props_or_empty (get_own exporting ''buttons'')) = Inr (x, ch')"
    using assms(1) by (auto simp: add_buttons_def bind_res_Inr_iff split: if_splits)
  have "exporting = props_or_empty (get_own (ex_options ch) ''exporting'')"
    using ex(1) by (auto simp: own_object_def props_or_empty_def split: jsval.splits)
  moreover have "ex_svgElements ch' = None \<longleftrightarrow> props_or_empty (get_own exporting ''buttons'') = []"
    using buttons_elements [OF ex(2)] assms(2) by simp
  ultimately show ?thesis
    by (auto simp: destroyExport_def discardElement_def split: option.splits)
qed

theorem destroy_without_buttons_witness:
  "\<exists>ch'. add_buttons (\<lambda>t a. num_of_int 24) (default_chart [(''buttons'', Obj [])]) = Inr (True, ch') \<and>
    destroyExport ch' = Inl TypeError"
proof -
  have "add_buttons (\<lambda>t a. num_of_int 24) (default_chart [(''buttons'', Obj [])]) =
      Inr (True, default_chart [(''buttons'', Obj [])])"
    by (simp add: add_buttons_def default_chart_def own_object_def props_or_empty_def)
  from destroy_without_buttons [OF this] this show ?thesis
    by (simp add: default_chart_def props_or_empty_def)
qed

end
