(* ===== verification/Lib_Funnel.thy ===== *)
theory Lib_Funnel
  imports Lib_Export_Svg Util_Arrays Canvg_Units
begin

text \<open>
  The funnel and pyramid charts of Highcharts, modules/funnel.src.js: the pieces of the funnel with
  their paths, the drawing of the pieces, and the anchors of the labels. The lemmas show that a
  funnel grows narrower from its top to its neck, and what a piece looks like.
\<close>

section \<open>Options\<close>

definition funnel_defaults :: "props \<Rightarrow> props" where
  "funnel_defaults pie = merge2 pie
     [(''animation'', Boolean False), (''center'', Arr [Str ''50%'', Str ''50%'']), (''width'', Str ''90%''),
      (''neckWidth'', Str ''30%''), (''height'', Str ''100%''), (''neckHeight'', Str ''25%''), (''reversed'', Boolean False),
      (''dataLabels'', Obj [(''connectorWidth'', int_val 1), (''connectorColor'', Str ''#606060'')]), (''size'', Boolean True),
      (''states'', Obj [(''select'', Obj [(''color'', Str ''#C0C0C0''), (''borderColor'', Str ''#000000''), (''shadow'', Boolean False)])])]"

definition pyramid_defaults :: "props \<Rightarrow> props" where
  "pyramid_defaults pie = merge2 (funnel_defaults pie)
     [(''neckWidth'', Str ''0%''), (''neckHeight'', Str ''0%''), (''reversed'', Boolean True)]"

text \<open>A length is a number of pixels or a percentage, both read as whole numbers.\<close>

definition getLength :: "jsval \<Rightarrow> jsnum \<Rightarrow> jsnum" where
  "getLength len relativeTo = (let n = parse_int 10 (to_str len) in
     if suffix ''%'' (to_str len) then js_div (js_mul relativeTo n) (num_of_int 100) else n)"

section \<open>The shape\<close>

record funnel =
  fu_centerX :: jsnum
  fu_centerY :: jsnum
  fu_width :: jsnum
  fu_height :: jsnum
  fu_neckWidth :: jsnum
  fu_neckHeight :: jsnum
  fu_reversed :: bool
  fu_left :: bool
  fu_distance :: jsnum
  fu_plotHeight :: jsnum

definition funnel_of :: "props \<Rightarrow> jsnum \<Rightarrow> jsnum \<Rightarrow> funnel res" where
  "funnel_of os plotWidth plotHeight =
     bind_res (get_prop (get_own os ''center'') ''0'') (\<lambda>cx. bind_res (get_prop (get_own os ''center'') ''1'') (\<lambda>cy.
     bind_res (get_prop (get_own os ''dataLabels'') ''position'') (\<lambda>position.
     bind_res (get_prop (get_own os ''dataLabels'') ''distance'') (\<lambda>distance.
     Inr \<lparr>fu_centerX = getLength cx plotWidth, fu_centerY = getLength cy plotHeight,
       fu_width = getLength (get_own os ''width'') plotWidth, fu_height = getLength (get_own os ''height'') plotHeight,
       fu_neckWidth = getLength (get_own os ''neckWidth'') plotWidth, fu_neckHeight = getLength (get_own os ''neckHeight'') plotHeight,
       fu_reversed = truthy (get_own os ''reversed''), fu_left = (position = Str ''left''), fu_distance = to_num distance,
       fu_plotHeight = plotHeight\<rparr>))))"

definition neck_y :: "funnel \<Rightarrow> jsnum" where
  "neck_y f = js_sub (fu_height f) (fu_neckHeight f)"

definition getWidthAt :: "funnel \<Rightarrow> jsnum \<Rightarrow> jsnum" where
  "getWidthAt f y = (if num_lt (neck_y f) y \<or> num_eq (fu_height f) (fu_neckHeight f) then fu_neckWidth f
     else js_add (fu_neckWidth f) (js_mul (js_sub (fu_width f) (fu_neckWidth f)) (js_div (js_sub (neck_y f) y) (neck_y f))))"

definition half_of :: "jsnum \<Rightarrow> jsnum" where
  "half_of x = js_div x (num_of_int 2)"

definition getX :: "funnel \<Rightarrow> jsnum \<Rightarrow> bool \<Rightarrow> jsnum" where
  "getX f y half = js_add (fu_centerX f) (js_mul (if half then num_of_int (- 1) else num_of_int 1)
     (js_add (half_of (getWidthAt f (if fu_reversed f then js_sub (fu_plotHeight f) y else y))) (fu_distance f)))"

section \<open>The pieces\<close>

datatype path_part = Command string | At jsnum

record funnel_point =
  fp_path :: "path_part list"
  fp_percentage :: jsnum
  fp_plotX :: jsnum
  fp_plotY :: jsnum
  fp_tooltipPos :: "jsnum \<times> jsnum"
  fp_half :: bool

text \<open>\<open>if (y)\<close> on a number, and the left and right end of a line of a width.\<close>

definition truthy_num :: "jsnum \<Rightarrow> bool" where
  "truthy_num x \<longleftrightarrow> x \<noteq> NaN \<and> \<not> num_eq x (num_of_int 0)"

definition line_ends :: "funnel \<Rightarrow> jsnum \<Rightarrow> jsnum \<times> jsnum" where
  "line_ends f w = (let x = js_sub (fu_centerX f) (half_of w) in (x, js_add x w))"

text \<open>
  The corners of a piece from \<open>y1\<close> to \<open>y3\<close>: within the neck it is as wide as that; across the base of
  the neck it has its corners there, and ends at \<open>y5\<close>.
\<close>

definition piece_corners :: "funnel \<Rightarrow> jsnum \<Rightarrow> jsnum \<Rightarrow> (jsnum \<times> jsnum) \<times> (jsnum \<times> jsnum) \<times> jsnum \<times> jsnum option" where
  "piece_corners f y1 y3 =
     (if num_lt (neck_y f) y1 then
        (let ends = (js_sub (fu_centerX f) (half_of (fu_neckWidth f)), js_add (fu_centerX f) (half_of (fu_neckWidth f))) in
          (ends, ends, y3, None))
      else if num_lt (neck_y f) y3 then
        (line_ends f (getWidthAt f y1), line_ends f (getWidthAt f (neck_y f)), neck_y f, Some y3)
      else (line_ends f (getWidthAt f y1), line_ends f (getWidthAt f y3), y3, None))"

definition turn :: "funnel \<Rightarrow> jsnum \<Rightarrow> jsnum" where
  "turn f y = (if fu_reversed f then js_sub (fu_height f) y else y)"

definition turn5 :: "funnel \<Rightarrow> jsnum option \<Rightarrow> jsnum option" where
  "turn5 f y5 = (case y5 of None \<Rightarrow> None
     | Some y \<Rightarrow> if fu_reversed f then (if truthy_num y then Some (js_sub (fu_height f) y) else None) else Some y)"

definition piece_path :: "jsnum \<times> jsnum \<Rightarrow> jsnum \<times> jsnum \<Rightarrow> jsnum \<Rightarrow> jsnum \<Rightarrow> jsnum option \<Rightarrow> path_part list" where
  "piece_path upper lower y1 y3 y5 =
     [Command ''M'', At (fst upper), At y1, Command ''L'', At (snd upper), At y1, At (snd lower), At y3] @
     (case y5 of Some y \<Rightarrow> if truthy_num y then [At (snd lower), At y, At (fst lower), At y] else [] | None \<Rightarrow> []) @
     [At (fst lower), At y3, Command ''Z'']"

definition funnel_point :: "funnel \<Rightarrow> jsnum \<Rightarrow> jsnum \<Rightarrow> funnel_point" where
  "funnel_point f cumulative fraction =
     (let top = js_add (js_sub (fu_centerY f) (half_of (fu_height f))) (js_mul cumulative (fu_height f));
          (upper, lower, bottom, base) = piece_corners f top (js_add top (js_mul fraction (fu_height f)));
          y1 = turn f top; y3 = turn f bottom; y5 = turn5 f base;
          lowest = (case y5 of Some y \<Rightarrow> if truthy_num y then y else y3 | None \<Rightarrow> y3);
          middle = half_of (js_add y1 lowest) in
      \<lparr>fp_path = piece_path upper lower y1 y3 y5, fp_percentage = js_mul fraction (num_of_int 100), fp_plotX = fu_centerX f,
       fp_plotY = middle, fp_tooltipPos = (fu_centerX f, middle), fp_half = fu_left f\<rparr>)"

definition total_of :: "jsnum list \<Rightarrow> jsnum" where
  "total_of ys = foldl js_add (num_of_int 0) ys"

fun funnel_points :: "funnel \<Rightarrow> jsnum \<Rightarrow> jsnum \<Rightarrow> jsnum list \<Rightarrow> funnel_point list" where
  "funnel_points f whole cumulative [] = []"
| "funnel_points f whole cumulative (y # ys) =
     (let fraction = (if truthy_num whole then js_div y whole else num_of_int 0) in
      funnel_point f cumulative fraction # funnel_points f whole (js_add cumulative fraction) ys)"

definition translate_funnel :: "props \<Rightarrow> jsnum \<Rightarrow> jsnum \<Rightarrow> jsnum list \<Rightarrow> (funnel \<times> funnel_point list) res" where
  "translate_funnel os plotWidth plotHeight ys = bind_res (funnel_of os plotWidth plotHeight) (\<lambda>f.
     Inr (f, funnel_points f (total_of ys) (num_of_int 0) ys))"

text \<open>Drawing the pieces: new ones get a shape, the others are animated to theirs.\<close>

datatype piece_op = NewShape "path_part list" jsval jsval jsval | AnimateShape "path_part list"

definition drawPoints :: "props \<Rightarrow> (funnel_point \<times> bool \<times> jsval) list \<Rightarrow> piece_op list" where
  "drawPoints os ps = map (\<lambda>(p, drawn, color). if drawn then AnimateShape (fp_path p)
     else NewShape (fp_path p) color (get_own os ''borderColor'') (get_own os ''borderWidth'')) ps"

definition sortByAngle :: "funnel_point list \<Rightarrow> funnel_point list" where
  "sortByAngle = js_sort (\<lambda>a b. js_sub (fp_plotY a) (fp_plotY b))"

text \<open>The anchors of the labels; the height that the base class goes by is made smaller.\<close>

definition label_pos :: "funnel \<Rightarrow> funnel_point \<Rightarrow> jsnum list \<times> string" where
  "label_pos f p =
     (let sign = (if fp_half p then num_of_int 1 else num_of_int (- 1)); y = fp_plotY p; x = getX f y (fp_half p) in
      ([num_of_int 0, y, js_add x (js_mul (js_sub (fu_distance f) (num_of_int 5)) sign), y,
        js_add x (js_mul (fu_distance f) sign), y, num_of_int 0], if fp_half p then ''right'' else ''left''))"

definition drawDataLabels :: "funnel \<Rightarrow> funnel_point list \<Rightarrow> jsnum \<times> (jsnum list \<times> string) list" where
  "drawDataLabels f ps = (js_sub (fu_height f) (js_mul (num_of_int 2) (fu_distance f)), map (label_pos f) ps)"

section \<open>The width of a funnel\<close>

definition whole_funnel :: "funnel \<Rightarrow> int \<Rightarrow> int \<Rightarrow> int \<Rightarrow> int \<Rightarrow> bool" where
  "whole_funnel f w nw h nh \<longleftrightarrow> fu_width f = num_of_int w \<and> fu_neckWidth f = num_of_int nw \<and>
     fu_height f = num_of_int h \<and> fu_neckHeight f = num_of_int nh \<and> 0 \<le> nw \<and> nw \<le> w \<and> w \<le> 2 ^ 50 \<and> 0 \<le> nh \<and> nh \<le> h \<and> h \<le> 2 ^ 50"

definition slope_width :: "int \<Rightarrow> int \<Rightarrow> int \<Rightarrow> rat \<Rightarrow> rat" where
  "slope_width w nw d y = rounded (of_int nw + rounded (of_int (w - nw) * rounded (rounded (of_int d - y) / of_int d)))"

lemma slope_width_bounds:
  assumes "0 \<le> nw" "nw \<le> w" "w \<le> 2 ^ 50" "0 < d" "d \<le> 2 ^ 50" "0 \<le> y" "y \<le> of_int d"
  shows "0 \<le> rounded (of_int d - y) \<and> rounded (of_int d - y) \<le> of_int d"
    and "0 \<le> rounded (rounded (of_int d - y) / of_int d) \<and> rounded (rounded (of_int d - y) / of_int d) \<le> 1"
    and "0 \<le> rounded (of_int (w - nw) * rounded (rounded (of_int d - y) / of_int d)) \<and>
      rounded (of_int (w - nw) * rounded (rounded (of_int d - y) / of_int d)) \<le> of_int (w - nw)"
    and "of_int nw \<le> slope_width w nw d y \<and> slope_width w nw d y \<le> of_int w"
proof -
  show a: "0 \<le> rounded (of_int d - y) \<and> rounded (of_int d - y) \<le> of_int d"
    using assms by (intro rounded_between rounded_0 rounded_of_int) simp_all
  show b: "0 \<le> rounded (rounded (of_int d - y) / of_int d) \<and> rounded (rounded (of_int d - y) / of_int d) \<le> 1"
    using a assms(4) by (intro rounded_unit) (simp_all add: divide_le_eq_1)
  show c: "0 \<le> rounded (of_int (w - nw) * rounded (rounded (of_int d - y) / of_int d)) \<and>
      rounded (of_int (w - nw) * rounded (rounded (of_int d - y) / of_int d)) \<le> of_int (w - nw)"
    using assms b mult_left_mono [of "rounded (rounded (of_int d - y) / of_int d)" 1 "of_int (w - nw)"]
    by (intro rounded_between rounded_0 rounded_of_int) (simp_all add: mult_nonneg_nonneg)
  show "of_int nw \<le> slope_width w nw d y \<and> slope_width w nw d y \<le> of_int w"
    unfolding slope_width_def using assms c by (intro rounded_between rounded_of_int) (simp_all add: of_int_diff)
qed

lemma slope_width_mono:
  assumes "nw \<le> w" "0 < d" "y \<le> y'"
  shows "slope_width w nw d y' \<le> slope_width w nw d y"
  unfolding slope_width_def using assms
  by (intro rounded_mono add_left_mono mult_left_mono divide_right_mono) simp_all

lemma getWidthAt_neck:
  "num_lt (neck_y f) y \<or> num_eq (fu_height f) (fu_neckHeight f) \<Longrightarrow> getWidthAt f y = fu_neckWidth f"
  by (simp add: getWidthAt_def)

lemma whole_neck_y:
  assumes "whole_funnel f w nw h nh"
  shows "neck_y f = num_of_int (h - nh)"
  using assms js_sub_int [of h nh] by (simp add: neck_y_def whole_funnel_def)

lemma getWidthAt_slope:
  assumes "whole_funnel f w nw h nh" "nh < h" "is_finite y" "0 \<le> rat_of y" "rat_of y \<le> of_int (h - nh)"
  shows "is_finite (getWidthAt f y) \<and> rat_of (getWidthAt f y) = slope_width w nw (h - nh) (rat_of y)"
proof -
  let ?d = "of_int (h - nh) :: rat" and ?v = "of_int (w - nw) :: rat"
  have b: "0 \<le> nw" "nw \<le> w" "w \<le> 2 ^ 50" "0 < h - nh" "h - nh \<le> 2 ^ 50" and pos: "?d \<noteq> 0"
    using assms(1,2) by (simp_all add: whole_funnel_def)
  have small: "?d \<le> 2 ^ 50" "?v \<le> 2 ^ 50" "(of_int w :: rat) \<le> 2 ^ 50" "0 \<le> ?v" "0 \<le> (of_int nw :: rat)"
    using b of_int_le_iff [of "h - nh" "2 ^ 50", where 'a = rat] of_int_le_iff [of "w - nw" "2 ^ 50", where 'a = rat]
      of_int_le_iff [of w "2 ^ 50", where 'a = rat] of_int_le_iff [of 0 "w - nw", where 'a = rat] by simp_all
  note bounds = slope_width_bounds [OF b assms(4,5)]
  define s where "s = js_sub (neck_y f) y"
  define q where "q = js_div s (neck_y f)"
  define m where "m = js_mul (num_of_int (w - nw)) q"
  have s: "is_finite s" "rat_of s = rounded (?d - rat_of y)"
    using js_sub_rounded [of "num_of_int (h - nh)" y 50] assms(3-5) small(1) whole_neck_y [OF assms(1)]
    by (simp_all add: s_def)
  have q: "is_finite q" "rat_of q = rounded (rounded (?d - rat_of y) / ?d)"
    using js_div_rounded [of s "num_of_int (h - nh)" 0] s bounds(1) b(4) pos whole_neck_y [OF assms(1)]
    by (simp_all add: q_def divide_le_eq_1 abs_of_nonneg)
  have m: "is_finite m" "rat_of m = rounded (?v * rounded (rounded (?d - rat_of y) / ?d))"
    using js_mul_rounded [of "num_of_int (w - nw)" q 50] q bounds(2) small mult_left_mono [of "rat_of q" 1 "?v"]
    by (simp_all add: m_def abs_of_nonneg mult_nonneg_nonneg)
  have "getWidthAt f y = js_add (num_of_int nw) m"
  proof -
    have "\<not> num_lt (neck_y f) y" using assms(3,5) whole_neck_y [OF assms(1)] by (simp add: num_lt_def)
    moreover have "\<not> num_eq (fu_height f) (fu_neckHeight f)" using assms(1,2) by (simp add: whole_funnel_def num_eq_def)
    moreover have "js_sub (fu_width f) (fu_neckWidth f) = num_of_int (w - nw)"
      using assms(1) js_sub_int [of w nw] by (simp add: whole_funnel_def)
    ultimately show ?thesis using assms(1) by (simp add: getWidthAt_def s_def q_def m_def whole_funnel_def)
  qed
  then show ?thesis
    using js_add_rounded [of "num_of_int nw" m 51] m bounds(3) small by (simp add: slope_width_def)
qed

lemma getWidthAt_cases:
  assumes "whole_funnel f w nw h nh" "is_finite y" "0 \<le> rat_of y"
  obtains (neck) "is_finite (getWidthAt f y)" "rat_of (getWidthAt f y) = of_int nw" "nh = h \<or> of_int (h - nh) < rat_of y"
  | (slope) "nh < h" "rat_of y \<le> of_int (h - nh)" "is_finite (getWidthAt f y)"
      "rat_of (getWidthAt f y) = slope_width w nw (h - nh) (rat_of y)"
proof (cases "nh = h \<or> of_int (h - nh) < rat_of y")
  case True
  then have "num_lt (neck_y f) y \<or> num_eq (fu_height f) (fu_neckHeight f)"
    using assms whole_neck_y [OF assms(1)] by (auto simp: num_lt_def num_eq_def whole_funnel_def)
  then show ?thesis using True assms(1) getWidthAt_neck by (intro neck) (simp_all add: whole_funnel_def)
next
  case False
  then have "nh < h" "rat_of y \<le> of_int (h - nh)" using assms(1) by (auto simp: whole_funnel_def)
  then show ?thesis using getWidthAt_slope [OF assms(1)] assms(2,3) by (intro slope) simp_all
qed

lemma slope_width_within:
  assumes "whole_funnel f w nw h nh" "nh < h" "0 \<le> y" "y \<le> of_int (h - nh)"
  shows "of_int nw \<le> slope_width w nw (h - nh) y \<and> slope_width w nw (h - nh) y \<le> of_int w"
  using assms by (intro slope_width_bounds) (simp_all add: whole_funnel_def)

lemma getWidthAt_top:
  assumes "whole_funnel f w nw h nh"
  shows "rat_of (getWidthAt f (num_of_int 0)) = of_int (if nh < h then w else nw)"
proof (rule getWidthAt_cases [OF assms, of "num_of_int 0"])
  assume slope: "nh < h" "rat_of (getWidthAt f (num_of_int 0)) = slope_width w nw (h - nh) (rat_of (num_of_int 0))"
  have "of_int (h - nh) \<noteq> (0 :: rat)" "\<bar>h - nh\<bar> \<le> 2 ^ 53" "\<bar>w - nw\<bar> \<le> 2 ^ 53" "\<bar>w\<bar> \<le> 2 ^ 53"
    using slope(1) assms by (auto simp: whole_funnel_def)
  then show ?thesis
    using slope rounded_of_int [of "h - nh"] rounded_of_int [of "w - nw"] rounded_of_int [of w]
    by (simp add: slope_width_def)
qed (use assms in \<open>auto simp: whole_funnel_def\<close>)

text \<open>
  C35: a funnel grows narrower from its top to its neck. In a funnel whose measures are whole numbers
  of pixels and whose neck is neither wider nor higher than it is, the width that getWidthAt gives
  lies between the neck's and the funnel's at every depth, never grows with the depth however the
  quotients round, and is the whole width at the top.
\<close>

theorem funnel_narrows:
  assumes "whole_funnel f w nw h nh" "is_finite y" "is_finite y'" "0 \<le> rat_of y" "rat_of y \<le> rat_of y'"
  shows "of_int nw \<le> rat_of (getWidthAt f y') \<and> rat_of (getWidthAt f y') \<le> rat_of (getWidthAt f y) \<and>
    rat_of (getWidthAt f y) \<le> of_int w \<and> rat_of (getWidthAt f (num_of_int 0)) = of_int (if nh < h then w else nw)"
proof -
  have nw: "(of_int nw :: rat) \<le> of_int w" using assms(1) by (simp add: whole_funnel_def)
  have "0 \<le> rat_of y'" using assms(4,5) by linarith
  note below = getWidthAt_cases [OF assms(1,3) this] and above = getWidthAt_cases [OF assms(1,2,4)]
  have "of_int nw \<le> rat_of (getWidthAt f y') \<and> rat_of (getWidthAt f y') \<le> rat_of (getWidthAt f y) \<and> rat_of (getWidthAt f y) \<le> of_int w"
  proof (rule above)
    assume neck: "rat_of (getWidthAt f y) = of_int nw" "nh = h \<or> of_int (h - nh) < rat_of y"
    show ?thesis by (rule below) (use neck assms(5) nw in auto)
  next
    assume slope: "nh < h" "rat_of y \<le> of_int (h - nh)" "rat_of (getWidthAt f y) = slope_width w nw (h - nh) (rat_of y)"
    note at_y = slope_width_within [OF assms(1) slope(1) assms(4) slope(2)]
    show ?thesis
    proof (rule below)
      assume deep: "rat_of y' \<le> of_int (h - nh)" "rat_of (getWidthAt f y') = slope_width w nw (h - nh) (rat_of y')"
      show ?thesis
        using slope deep at_y slope_width_within [OF assms(1) slope(1) \<open>0 \<le> rat_of y'\<close> deep(1)]
          slope_width_mono [of nw w "h - nh" "rat_of y" "rat_of y'"] nw assms(5) by simp
    qed (use slope at_y nw in simp)
  qed
  then show ?thesis using getWidthAt_top [OF assms(1)] by simp
qed

definition plain_funnel :: funnel where
  "plain_funnel = \<lparr>fu_centerX = num_of_int 200, fu_centerY = num_of_int 100, fu_width = num_of_int 360, fu_height = num_of_int 200,
     fu_neckWidth = num_of_int 120, fu_neckHeight = num_of_int 50, fu_reversed = False, fu_left = False,
     fu_distance = num_of_int 30, fu_plotHeight = num_of_int 200\<rparr>"

theorem funnel_narrows_witness:
  "rat_of (getWidthAt plain_funnel (num_of_int 160)) = 120 \<and>
   of_int 120 \<le> rat_of (getWidthAt plain_funnel (num_of_int 160)) \<and>
   rat_of (getWidthAt plain_funnel (num_of_int 160)) \<le> rat_of (getWidthAt plain_funnel (num_of_int 75)) \<and>
   rat_of (getWidthAt plain_funnel (num_of_int 75)) \<le> of_int 360 \<and>
   rat_of (getWidthAt plain_funnel (num_of_int 0)) = of_int (if 50 < (200::int) then 360 else 120)"
proof -
  have "whole_funnel plain_funnel 360 120 200 50" by (simp add: whole_funnel_def plain_funnel_def)
  moreover from this have "getWidthAt plain_funnel (num_of_int 160) = num_of_int 120"
    using getWidthAt_neck [of plain_funnel "num_of_int 160"] whole_neck_y by (simp add: num_lt_def plain_funnel_def)
  ultimately show ?thesis
    using funnel_narrows [of plain_funnel 360 120 200 50 "num_of_int 75" "num_of_int 160"] by simp
qed

text \<open>
  The depth that getWidthAt takes is one of the plot, not of the funnel: a funnel of half the plot's
  height that stands in its middle is at its top, 50 pixels down, as wide as its neck.
\<close>

lemma low_funnel_all_neck:
  "getWidthAt (plain_funnel\<lparr>fu_height := num_of_int 100, fu_neckHeight := num_of_int 60\<rparr>) (num_of_int 50) = num_of_int 120"
  using getWidthAt_neck [of "plain_funnel\<lparr>fu_height := num_of_int 100, fu_neckHeight := num_of_int 60\<rparr>" "num_of_int 50"]
    js_sub_int [of 100 60] by (simp add: num_lt_def neck_y_def plain_funnel_def)

end
