(* ===== verification/Lib_No_Data.thy ===== *)
theory Lib_No_Data
  imports Lib_Themes
begin

text \<open>
  The label of a chart without data, modules/no-data-to-display.src.js: its options, when a series
  and a chart have data, and the label that is put up and taken down after every load and redraw.
  The lemmas show that there is one label on the page exactly when no series shows data.
\<close>

section \<open>Options\<close>

definition no_data_lang :: "props \<Rightarrow> props" where
  "no_data_lang lang = extend_with lang [(''noData'', Str ''No data to display'')]"

definition no_data_options :: props where
  "no_data_options =
     [(''position'', Obj [(''x'', int_val 0), (''y'', int_val 0), (''align'', Str ''center''), (''verticalAlign'', Str ''middle'')]),
      (''attr'', Obj []),
      (''style'', Obj [(''fontWeight'', Str ''bold''), (''fontSize'', Str ''12px''), (''color'', Str ''#60606a'')])]"

section \<open>Whether there is data\<close>

text \<open>
  A series is told by its type and by what of it the checks read: its points and the bounds of its
  values. The checks for pies, gauges and waterfalls stand on the prototypes of those types, and
  the types that are derived from them inherit them.
\<close>

datatype data_series = DataSeries (ds_type: string) (ds_points: "jsval list") (ds_min: jsval) (ds_max: jsval) (ds_internal: jsval)

definition hasDataPie :: "data_series \<Rightarrow> bool" where
  "hasDataPie s \<longleftrightarrow> ds_points s \<noteq> []"

definition counted_types :: "string list" where
  "counted_types = [''pie'', ''funnel'', ''pyramid'', ''gauge'', ''solidgauge'', ''waterfall'']"

definition hasData :: "data_series \<Rightarrow> bool" where
  "hasData s = (if ds_type s \<in> set counted_types then hasDataPie s
     else ds_max s \<noteq> Undefined \<and> ds_min s \<noteq> Undefined)"

fun any_from_end :: "('a \<Rightarrow> bool) \<Rightarrow> 'a list \<Rightarrow> nat \<Rightarrow> bool" where
  "any_from_end p xs 0 = False"
| "any_from_end p xs (Suc i) = (if p (xs ! i) then True else any_from_end p xs i)"

definition chart_hasData :: "data_series list \<Rightarrow> bool" where
  "chart_hasData ss = any_from_end (\<lambda>s. hasData s \<and> \<not> truthy (ds_internal s)) ss (length ss)"

section \<open>The label\<close>

text \<open>
  The labels that stand on the page, each under a number with its text and the options it was made
  with, and the one that the chart holds.
\<close>

record no_data_label =
  nl_text :: jsval
  nl_attr :: jsval
  nl_style :: jsval
  nl_align :: jsval

record no_data_chart =
  nd_lang :: props
  nd_options :: props
  nd_series :: "data_series list"
  nd_label :: "nat option"
  nd_page :: "(nat \<times> no_data_label) list"
  nd_next :: nat

text \<open>\<open>bbox\<close> is the box of the label, as the renderer measures it.\<close>

definition new_label :: "(jsval \<Rightarrow> props) \<Rightarrow> no_data_chart \<Rightarrow> jsval \<Rightarrow> no_data_label" where
  "new_label bbox c s = (let words = (if truthy s then s else get_own (nd_lang c) ''noData''); os = nd_options c in
     \<lparr>nl_text = words, nl_attr = get_own os ''attr'', nl_style = get_own os ''style'',
      nl_align = Obj (extend_with (bbox words) (case get_own os ''position'' of Obj ps \<Rightarrow> ps | _ \<Rightarrow> []))\<rparr>)"

definition showNoData :: "(jsval \<Rightarrow> props) \<Rightarrow> jsval \<Rightarrow> no_data_chart \<Rightarrow> no_data_chart" where
  "showNoData bbox s c = (case nd_label c of
     Some _ \<Rightarrow> c
   | None \<Rightarrow> c\<lparr>nd_label := Some (nd_next c), nd_page := nd_page c @ [(nd_next c, new_label bbox c s)], nd_next := nd_next c + 1\<rparr>)"

definition hideNoData :: "no_data_chart \<Rightarrow> no_data_chart" where
  "hideNoData c = (case nd_label c of
     None \<Rightarrow> c
   | Some i \<Rightarrow> c\<lparr>nd_label := None, nd_page := filter (\<lambda>l. fst l \<noteq> i) (nd_page c)\<rparr>)"

definition handleNoData :: "(jsval \<Rightarrow> props) \<Rightarrow> no_data_chart \<Rightarrow> no_data_chart" where
  "handleNoData bbox c = (if chart_hasData (nd_series c) then hideNoData c else showNoData bbox Undefined c)"

text \<open>
  What happens to a chart: the load and the redraws, with the series as they are then, fire the
  listener; a program can show and hide the label itself.
\<close>

datatype no_data_event = Redrawn "data_series list" | Show jsval | Hide

fun no_data_step :: "(jsval \<Rightarrow> props) \<Rightarrow> no_data_chart \<Rightarrow> no_data_event \<Rightarrow> no_data_chart" where
  "no_data_step bbox c (Redrawn ss) = handleNoData bbox (c\<lparr>nd_series := ss\<rparr>)"
| "no_data_step bbox c (Show s) = showNoData bbox s c"
| "no_data_step bbox c Hide = hideNoData c"

definition fresh_chart :: "props \<Rightarrow> props \<Rightarrow> no_data_chart" where
  "fresh_chart lang os = \<lparr>nd_lang = lang, nd_options = os, nd_series = [], nd_label = None, nd_page = [], nd_next = 0\<rparr>"

section \<open>One label, and only without data\<close>

definition one_label :: "no_data_chart \<Rightarrow> bool" where
  "one_label c \<longleftrightarrow> map fst (nd_page c) = (case nd_label c of None \<Rightarrow> [] | Some i \<Rightarrow> [i])"

lemma any_from_end_iff: "n \<le> length xs \<Longrightarrow> any_from_end p xs n \<longleftrightarrow> (\<exists>x \<in> set (take n xs). p x)"
  by (induction n) (auto simp: take_Suc_conv_app_nth)

lemma chart_hasData_iff: "chart_hasData ss \<longleftrightarrow> (\<exists>s \<in> set ss. hasData s \<and> \<not> truthy (ds_internal s))"
  by (simp add: chart_hasData_def any_from_end_iff)

lemma one_label_hide: "one_label c \<Longrightarrow> one_label (hideNoData c) \<and> nd_label (hideNoData c) = None"
  by (cases "nd_label c") (auto simp: one_label_def hideNoData_def filter_empty_conv)

lemma one_label_show: "one_label c \<Longrightarrow> one_label (showNoData bbox s c) \<and> nd_label (showNoData bbox s c) \<noteq> None"
  by (cases "nd_label c") (simp_all add: one_label_def showNoData_def)

lemma one_label_length:
  assumes "one_label c"
  shows "length (nd_page c) = (if nd_label c = None then 0 else 1)"
proof -
  have "length (nd_page c) = length (map fst (nd_page c))" by simp
  also have "\<dots> = (if nd_label c = None then 0 else 1)"
    using assms unfolding one_label_def by (simp split: option.splits)
  finally show ?thesis .
qed

lemma one_label_step: "one_label c \<Longrightarrow> one_label (no_data_step bbox c e)"
proof (cases e)
  case (Redrawn ss)
  moreover assume "one_label c"
  then have "one_label (c\<lparr>nd_series := ss\<rparr>)" by (simp add: one_label_def)
  ultimately show ?thesis by (simp add: handleNoData_def one_label_hide one_label_show)
qed (simp_all add: one_label_hide one_label_show)

lemma one_label_run: "one_label c \<Longrightarrow> one_label (foldl (no_data_step bbox) c es)"
  by (induction es arbitrary: c) (simp_all add: one_label_step)

text \<open>
  C36: after every load and redraw, whatever happened to the chart before, the message that there is
  no data stands on the page exactly when no series of the chart shows data, internal ones apart,
  and it stands there once.
\<close>

theorem message_without_data:
  "length (nd_page (foldl (no_data_step bbox) (fresh_chart lang os) (es @ [Redrawn ss]))) =
     (if \<exists>s \<in> set ss. hasData s \<and> \<not> truthy (ds_internal s) then 0 else 1)"
proof -
  define c where "c = foldl (no_data_step bbox) (fresh_chart lang os) es"
  have "one_label c" unfolding c_def by (rule one_label_run) (simp add: one_label_def fresh_chart_def)
  then have "one_label (c\<lparr>nd_series := ss\<rparr>)" by (simp add: one_label_def)
  note labels = one_label_hide [OF this] one_label_show [OF this, of bbox Undefined]
  then show ?thesis
    using one_label_length by (auto simp: c_def [symmetric] handleNoData_def chart_hasData_iff)
qed

text \<open>A message of one's own is not shown while another stands.\<close>

lemma show_keeps_message: "nd_label c = Some i \<Longrightarrow> showNoData bbox s c = c"
  by (simp add: showNoData_def)

end
