(* ===== verification/Lib_Heatmap.thy ===== *)
theory Lib_Heatmap
  imports Lib_Color_Axis Lib_Themes Canvg_Units
begin

text \<open>
  Heat maps, modules/heatmap.src.js, without their colours (\<open>Lib_Color_Axis\<close>), and the arcs of
  modules/solid-gauge.src.js: the options of the colour axis and its place in the legend, its
  crosshair, the items of the legend, outlined texts, and the cells of a heat map. What the core of
  the library does is an argument. The lemmas show that the cells of neighbouring columns share an
  edge and that the marker of the axis stays at the axis.
\<close>

section \<open>The colour axis\<close>

definition color_axis_defaults :: props where
  "color_axis_defaults =
     [(''lineWidth'', int_val 0), (''gridLineWidth'', int_val 1), (''tickPixelInterval'', int_val 72),
      (''startOnTick'', Boolean True), (''endOnTick'', Boolean True), (''offset'', int_val 0),
      (''marker'', Obj [(''animation'', Obj [(''duration'', int_val 50)]), (''color'', Str ''gray''), (''width'', Num (to_double False (1 / 100)))]),
      (''labels'', Obj [(''overflow'', Str ''justify'')]), (''minColor'', Str ''#EFEFFF''), (''maxColor'', Str ''#003875''),
      (''tickLength'', int_val 5)]"

definition legend_horizontal :: "jsval \<Rightarrow> bool" where
  "legend_horizontal legend_layout \<longleftrightarrow> legend_layout \<noteq> Str ''vertical''"

definition color_axis_options :: "bool \<Rightarrow> props \<Rightarrow> props" where
  "color_axis_options horiz userOptions = merge_all [color_axis_defaults,
     [(''side'', int_val (if horiz then 2 else 1)), (''reversed'', Boolean (\<not> horiz))], userOptions,
     [(''isX'', Boolean horiz), (''opposite'', Boolean (\<not> horiz)), (''showEmpty'', Boolean False), (''title'', Null), (''isColor'', Boolean True)]]"

text \<open>The options as the base class sets them, and the crosshair of the axis.\<close>

definition axis_setOptions :: "(props \<Rightarrow> props) \<Rightarrow> props \<Rightarrow> props \<times> string" where
  "axis_setOptions base userOptions = (let os = base userOptions in
     (put_prop ''crosshair'' (get_own os ''marker'') os, ''colorAxis''))"

text \<open>A rectangle is given by x, y, width and height.\<close>

record axis_size =
  as_left :: jsnum
  as_top :: jsnum
  as_width :: jsnum
  as_height :: jsnum
  as_right :: jsnum
  as_bottom :: jsnum
  as_len :: jsnum
  as_pos :: jsnum

definition setAxisSize :: "jsnum \<times> jsnum \<Rightarrow> bool \<Rightarrow> (jsnum \<times> jsnum \<times> jsnum \<times> jsnum) option \<Rightarrow> axis_size \<Rightarrow> axis_size" where
  "setAxisSize chart_size horiz symbol ax = (case symbol of None \<Rightarrow> ax
     | Some (x, y, width, height) \<Rightarrow>
         \<lparr>as_left = x, as_top = y, as_width = width, as_height = height,
          as_right = js_sub (js_sub (fst chart_size) x) width, as_bottom = js_sub (js_sub (snd chart_size) y) height,
          as_len = (if horiz then width else height), as_pos = (if horiz then x else y)\<rparr>)"

text \<open>
  The groups of the axis by the group they are in. Inside the legend the axis takes no space at its
  side of the chart.
\<close>

record axis_groups =
  ag_axis :: "nat option"
  ag_grid :: "nat option"
  ag_label :: "nat option"
  ag_added :: bool

definition getOffset ::
  "(jsnum list \<times> axis_groups \<Rightarrow> jsnum list \<times> axis_groups) \<Rightarrow> nat \<Rightarrow> nat option \<Rightarrow> jsnum list \<times> axis_groups \<Rightarrow> jsnum list \<times> axis_groups" where
  "getOffset base side legendGroup st = (case legendGroup of None \<Rightarrow> st
     | Some grp \<Rightarrow> (case base st of (offsets, g) \<Rightarrow>
         (offsets[side := fst st ! side],
          if ag_axis g = None then \<lparr>ag_axis = Some grp, ag_grid = Some grp, ag_label = Some grp, ag_added = True\<rparr> else g)))"

definition getSeriesExtremes :: "(jsval \<times> jsval) list \<Rightarrow> jsval \<times> jsval \<Rightarrow> jsval \<times> jsval" where
  "getSeriesExtremes series_values extremes = (case series_values of [] \<Rightarrow> extremes | v # _ \<Rightarrow> v)"

section \<open>The marker of the axis\<close>

text \<open>
  The crosshair is drawn by the base class at the coordinates of the point, which stand for the
  place on the axis while it does so. A crosshair that stood before is coloured again.
\<close>

record cross_point =
  cp_value :: jsnum
  cp_plotX :: jsnum
  cp_plotY :: jsnum

record crosshair =
  ch_fill :: jsval
  ch_in_labels :: bool

definition crosshair_pos :: "axis_size \<Rightarrow> jsnum \<Rightarrow> jsnum" where
  "crosshair_pos ax x = (if num_lt x (as_pos ax) then js_sub (as_pos ax) (num_of_int 2)
     else if num_lt (js_add (as_pos ax) (as_len ax)) x then js_add (js_add (as_pos ax) (as_len ax)) (num_of_int 2)
     else x)"

definition drawCrosshair ::
  "(jsnum \<Rightarrow> jsnum) \<Rightarrow> (cross_point \<Rightarrow> crosshair option \<Rightarrow> crosshair option) \<Rightarrow> axis_size \<Rightarrow> jsval \<Rightarrow> cross_point option \<Rightarrow> crosshair option \<Rightarrow>
     cross_point option \<times> crosshair option" where
  "drawCrosshair to_pixels base ax color point cross = (case point of None \<Rightarrow> (None, cross)
     | Some p \<Rightarrow>
         (let x = crosshair_pos ax (to_pixels (cp_value p));
              drawn = base (p\<lparr>cp_plotX := x, cp_plotY := js_sub (as_len ax) x\<rparr>) cross in
          (Some p, if cross = None then drawn
            else map_option (\<lambda>c. c\<lparr>ch_fill := color, ch_in_labels := True\<rparr>) drawn)))"

definition truthy_pos :: "jsnum \<Rightarrow> bool" where
  "truthy_pos x \<longleftrightarrow> truthy (Num x)"

definition getPlotLinePath :: "jsval list \<Rightarrow> bool \<Rightarrow> axis_size \<Rightarrow> jsnum \<Rightarrow> jsval list" where
  "getPlotLinePath base_path horiz ax pos =
     (if \<not> truthy_pos pos then base_path
      else if horiz then
        [Str ''M'', Num (js_sub pos (num_of_int 4)), Num (js_sub (as_top ax) (num_of_int 6)),
         Str ''L'', Num (js_add pos (num_of_int 4)), Num (js_sub (as_top ax) (num_of_int 6)), Num pos, Num (as_top ax), Str ''Z'']
      else
        [Str ''M'', Num (as_left ax), Num pos, Str ''L'', Num (js_sub (as_left ax) (num_of_int 6)), Num (js_add pos (num_of_int 6)),
         Num (js_sub (as_left ax) (num_of_int 6)), Num (js_sub pos (num_of_int 6)), Str ''Z''])"

section \<open>The axis in the chart and in the legend\<close>

text \<open>
  After the options of the axis have changed, its series are drawn anew and an item in the legend is
  coloured with the new gradient; \<open>base\<close> gives the options after the update.
\<close>

record axis_view =
  av_options :: axis_options
  av_dirty :: "bool list"
  av_legendItem :: bool
  av_legendColor :: "((jsnum \<times> jsnum \<times> jsnum \<times> jsnum) \<times> (jsnum \<times> string) list) option"

definition update_axis :: "(axis_view \<Rightarrow> axis_view) \<Rightarrow> bool \<Rightarrow> axis_view \<Rightarrow> axis_view" where
  "update_axis base horiz av0 = (let av = base (av0\<lparr>av_dirty := map (\<lambda>_. True) (av_dirty av0)\<rparr>) in
     if av_legendItem av then av\<lparr>av_legendColor := Some (legend_gradient horiz (av_options av))\<rparr> else av)"

text \<open>A step of an animated fill or stroke.\<close>

definition anim_setter :: "string \<Rightarrow> string \<Rightarrow> jsnum \<Rightarrow> string" where
  "anim_setter start_color end_color pos = tweenColors (color_rgba start_color) (color_rgba end_color) pos"

definition getAxes :: "(props \<Rightarrow> 'a) \<Rightarrow> jsval \<Rightarrow> 'a list" where
  "getAxes new_axis colorAxisOptions = (if truthy colorAxisOptions then [new_axis (props_or_empty colorAxisOptions)] else [])"

text \<open>
  The items of the legend: the classes or the axis itself, and the items the core of the library
  finds among the series, those of the axis being hidden.
\<close>

datatype legend_entry = AxisEntry | ClassEntry legend_item | SeriesEntry nat

record legend_series =
  ls_number :: nat
  ls_on_axis :: bool
  ls_showInLegend :: jsval

definition hide_series :: "legend_series \<Rightarrow> legend_series" where
  "hide_series s = (if ls_on_axis s then s\<lparr>ls_showInLegend := Boolean False\<rparr> else s)"

definition getAllItems ::
  "(legend_series list \<Rightarrow> nat list) \<Rightarrow> (jsnum \<Rightarrow> string) \<Rightarrow> string \<Rightarrow> data_class list option option \<Rightarrow> legend_series list \<Rightarrow>
     legend_entry list \<times> legend_series list" where
  "getAllItems base fmt valueSuffix axis ss = (case axis of None \<Rightarrow> (map SeriesEntry (base ss), ss)
     | Some classes \<Rightarrow> (let ss' = map hide_series ss in
         ((case classes of Some dcs \<Rightarrow> map ClassEntry (legend_items fmt valueSuffix dcs) | None \<Rightarrow> [AxisEntry]) @
            map SeriesEntry (base ss'), ss')))"

section \<open>Outlined texts\<close>

text \<open>
  A text element with its attributes and its children, spans and others, all with their attributes
  and what they hold. An attribute that is missing is read as \<open>null\<close>; what is set is a text.
\<close>

record text_child =
  tc_tag :: string
  tc_attrs :: "(string \<times> string) list"
  tc_content :: string

record text_element =
  te_attrs :: "(string \<times> string) list"
  te_children :: "text_child list"

definition set_attr :: "string \<Rightarrow> string \<Rightarrow> text_child \<Rightarrow> text_child" where
  "set_attr k v c = c\<lparr>tc_attrs := put_prop k v (tc_attrs c)\<rparr>"

definition attr_text :: "string option \<Rightarrow> string" where
  "attr_text v = (case v of None \<Rightarrow> ''null'' | Some t \<Rightarrow> t)"

text \<open>The first span gets the place of the element; every span is copied with the stroke.\<close>

definition place_span :: "text_element \<Rightarrow> text_child \<Rightarrow> text_child" where
  "place_span e c = (let c' = set_attr ''x'' (attr_text (map_of (te_attrs e) ''x'')) c in
     case map_of (te_attrs e) ''y'' of None \<Rightarrow> c' | Some y \<Rightarrow> set_attr ''y'' y c')"

definition stroked :: "string list \<Rightarrow> text_child \<Rightarrow> text_child" where
  "stroked words c = set_attr ''stroke-linejoin'' ''round''
     (set_attr ''stroke-width'' (words ! 0)
       (set_attr ''stroke'' (if 1 < length words then words ! 1 else ''undefined'') c))"

fun place_first :: "text_element \<Rightarrow> text_child list \<Rightarrow> text_child list" where
  "place_first e [] = []"
| "place_first e (c # cs) = (if tc_tag c = ''tspan'' then place_span e c # cs else c # place_first e cs)"

definition applyTextStroke :: "string \<Rightarrow> text_element \<Rightarrow> text_element" where
  "applyTextStroke textStroke e = (let words = split_char (CHR '' '') textStroke; cs = place_first e (te_children e) in
     e\<lparr>te_children := map (stroked words) (filter (\<lambda>c. tc_tag c = ''tspan'') cs) @ cs\<rparr>)"

definition buildText :: "(text_element \<Rightarrow> text_element) \<Rightarrow> jsval \<Rightarrow> text_element \<Rightarrow> text_element" where
  "buildText base textStroke e = (if truthy textStroke then applyTextStroke (to_str textStroke) (base e) else base e)"

section \<open>The cells of a heat map\<close>

definition heatmap_defaults :: "props \<Rightarrow> props" where
  "heatmap_defaults scatter = merge_all [scatter,
     [(''animation'', Boolean False), (''borderWidth'', int_val 0), (''nullColor'', Str ''#F8F8F8''),
      (''dataLabels'', Obj [(''formatter'', Func ''formatter''), (''verticalAlign'', Str ''middle''), (''crop'', Boolean False),
        (''overflow'', Boolean False),
        (''style'', Obj [(''color'', Str ''white''), (''fontWeight'', Str ''bold''), (''HcTextStroke'', Str ''1px rgba(0,0,0,0.5)'')])]),
      (''marker'', Null), (''tooltip'', Obj [(''pointFormat'', Str ''{point.x}, {point.y}: {point.value}<br/>'')]),
      (''states'', Obj [(''normal'', Obj [(''animation'', Boolean True)]), (''hover'', Obj [(''brightness'', Num (to_double False (1 / 5)))])])]]"

text \<open>
  A size that is not given is \<open>NaN\<close>. The axes are given by the length of the x axis and what
  \<open>translate\<close> makes of a value on either axis.
\<close>

record heat_series =
  hs_colsize :: jsnum
  hs_rowsize :: jsnum
  hs_len :: jsnum
  hs_xAxis :: "jsnum \<Rightarrow> jsnum"
  hs_yAxis :: "jsnum \<Rightarrow> jsnum"
  hs_nullColor :: "string option"
  hs_color :: "string option"
  hs_colorAxis :: "color_axis option"
  hs_hasRendered :: bool

record heat_point =
  hp_x :: jsnum
  hp_y :: jsnum
  hp_color :: color_point
  hp_own_color :: "string option"
  hp_plot :: "jsnum \<times> jsnum"
  hp_rect :: "jsnum \<times> jsnum \<times> jsnum \<times> jsnum"
  hp_fill :: "string option"

definition heat_init :: "heat_series \<Rightarrow> jsnum \<times> jsnum" where
  "heat_init hs = (or_one (hs_colsize hs), or_one (hs_rowsize hs))"

definition x_edge :: "heat_series \<Rightarrow> jsnum \<Rightarrow> jsnum" where
  "x_edge hs v = math_round (js_sub (hs_len hs) (hs_xAxis hs v))"

definition y_edge :: "heat_series \<Rightarrow> jsnum \<Rightarrow> jsnum" where
  "y_edge hs v = math_round (hs_yAxis hs v)"

definition pad_of :: "jsnum \<Rightarrow> jsnum" where
  "pad_of s = js_div (or_one s) (num_of_int 2)"

definition place_cell :: "heat_series \<Rightarrow> heat_point \<Rightarrow> heat_point" where
  "place_cell hs p =
     (let xPad = pad_of (hs_colsize hs); yPad = pad_of (hs_rowsize hs);
          x1 = x_edge hs (js_sub (hp_x p) xPad); x2 = x_edge hs (js_add (hp_x p) xPad);
          y1 = y_edge hs (js_sub (hp_y p) yPad); y2 = y_edge hs (js_add (hp_y p) yPad) in
      p\<lparr>hp_plot := (js_div (js_add x1 x2) (num_of_int 2), js_div (js_add y1 y2) (num_of_int 2)),
        hp_rect := (math_min x1 x2, math_min y1 y2, math_abs (js_sub x2 x1), math_abs (js_sub y2 y1))\<rparr>)"

definition color_cell :: "heat_series \<Rightarrow> heat_point \<Rightarrow> heat_point res" where
  "color_cell hs p = bind_res (translate_point (hs_nullColor hs) (hs_color hs) (hs_colorAxis hs) (hp_color p)) (\<lambda>c.
     Inr (p\<lparr>hp_color := c, hp_fill := if hs_hasRendered hs then own_or (hp_own_color p) (point_color c) else hp_fill p\<rparr>))"

definition translate_heatmap :: "heat_series \<Rightarrow> heat_point list \<Rightarrow> heat_point list res" where
  "translate_heatmap hs ps = map_res (color_cell hs) (map (place_cell hs) ps)"

text \<open>The extremes of the values and of the y data, by the base class.\<close>

definition heat_getExtremes :: "('a \<Rightarrow> jsval \<times> jsval) \<Rightarrow> 'a \<Rightarrow> 'a \<Rightarrow> (jsval \<times> jsval) \<times> (jsval \<times> jsval)" where
  "heat_getExtremes base valueData yData = (base valueData, base yData)"

section \<open>The arcs of a gauge\<close>

text \<open>
  The axis of a gauge with its centre and the size of it, its angles in radians, and the angle that a
  value is translated to; a width or radius is a number or a text.
\<close>

record gauge_axis =
  gx_center :: "jsnum \<times> jsnum \<times> jsnum"
  gx_start :: jsnum
  gx_end :: jsnum
  gx_translate :: "jsnum \<Rightarrow> jsnum"
  gx_colors :: color_axis

record gauge_arc =
  ga_x :: jsnum
  ga_y :: jsnum
  ga_r :: jsnum
  ga_innerR :: jsnum
  ga_start :: jsnum
  ga_end :: jsnum

definition gauge_radius :: "gauge_axis \<Rightarrow> jsval \<Rightarrow> int \<Rightarrow> jsnum" where
  "gauge_radius gx v fallback = (case gx_center gx of (_, _, across) \<Rightarrow>
     js_div (js_mul (parse_int 10 (to_str (if is_nullish v then int_val fallback else v))) across) (num_of_int 200))"

definition gauge_rotation :: "gauge_axis \<Rightarrow> jsval \<Rightarrow> jsnum \<Rightarrow> jsnum" where
  "gauge_rotation gx wrap y =
     (let rotation = js_add (gx_start gx) (gx_translate gx y);
          kept = (if wrap = Boolean False then math_max (gx_start gx) (math_min (gx_end gx) rotation) else rotation) in
      js_div (js_mul kept (num_of_int 180)) math_pi)"

definition arc_of :: "gauge_axis \<Rightarrow> props \<Rightarrow> jsnum \<Rightarrow> gauge_arc" where
  "arc_of gx os y =
     (let angle1 = js_div (gauge_rotation gx (get_own os ''wrap'') y) (js_div (num_of_int 180) math_pi); angle2 = gx_start gx;
          minAngle = math_min angle1 angle2; maxAngle = math_max angle1 angle2;
          turn = js_mul (num_of_int 2) math_pi in
      \<lparr>ga_x = fst (gx_center gx), ga_y = fst (snd (gx_center gx)), ga_r = gauge_radius gx (get_own os ''radius'') 100,
       ga_innerR = gauge_radius gx (get_own os ''innerRadius'') 60, ga_start = minAngle,
       ga_end = (if num_lt turn (js_sub maxAngle minAngle) then js_add minAngle turn else maxAngle)\<rparr>)"

text \<open>
  Drawing a point: a new arc, or the arc that stands turned, with its colour from the old one to the
  new one where the new one is a colour.
\<close>

datatype gauge_op =
    NewArc gauge_arc jsval jsval "string option"
  | TurnArc gauge_arc "string option" "string option" "string option"

definition or_value :: "jsval \<Rightarrow> jsval \<Rightarrow> jsval" where
  "or_value v w = (if truthy v then v else w)"

definition draw_gauge_point :: "gauge_axis \<Rightarrow> props \<Rightarrow> jsnum \<times> bool \<times> string option \<Rightarrow> (string option \<times> gauge_op) res" where
  "draw_gauge_point gx os pt = (case pt of (y, drawn, color) \<Rightarrow>
     bind_res (gauge_toColor (gx_colors gx) y) (\<lambda>(toColor, _).
     let changed = toColor \<noteq> Some ''none''; color' = (if changed then toColor else color); arc = arc_of gx os y in
     Inr (color', if drawn then TurnArc arc color' (if changed then color else None) toColor
       else NewArc arc (or_value (get_own os ''borderColor'') (Str ''none'')) (or_value (get_own os ''borderWidth'') (int_val 0)) color')))"

definition gauge_drawPoints :: "gauge_axis \<Rightarrow> props \<Rightarrow> (jsnum \<times> bool \<times> string option) list \<Rightarrow> (string option \<times> gauge_op) list res" where
  "gauge_drawPoints gx os = map_res (draw_gauge_point gx os)"

definition gauge_defaults :: "props \<Rightarrow> props" where
  "gauge_defaults gauge = merge_all [gauge, [(''colorByPoint'', Boolean True)]]"

section \<open>The marker stays at the axis\<close>

lemma crosshair_pos_near:
  assumes "as_pos ax = num_of_int p" "as_len ax = num_of_int l" "x = num_of_int v" "0 \<le> p" "0 \<le> l" "p + l \<le> 2 ^ 50"
  obtains m where "crosshair_pos ax x = num_of_int m" "p - 2 \<le> m" "m \<le> p + l + 2"
proof -
  have "crosshair_pos ax x = num_of_int (if v < p then p - 2 else if p + l < v then p + l + 2 else v)"
    using assms js_add_int [of p l] js_add_int [of "p + l" 2] js_sub_int [of p 2]
    unfolding crosshair_pos_def assms(1-3) by (simp del: of_int_diff of_int_add of_int_numeral add: num_lt_int)
  moreover have "p - 2 \<le> (if v < p then p - 2 else if p + l < v then p + l + 2 else v)"
      "(if v < p then p - 2 else if p + l < v then p + l + 2 else v) \<le> p + l + 2"
    using assms(5) by simp_all
  ultimately show ?thesis by (rule that)
qed

section \<open>Cells side by side\<close>

lemma half_value:
  assumes "\<bar>m\<bar> \<le> 2 ^ 53"
  shows "to_double False (of_int m / 2) = Fin (of_int m / 2)"
proof (cases "m = 0")
  case False
  have "rounded (of_int m / 2) = (of_int m / 2 :: rat)"
    using rounded_exact [of m "- 1"] assms by (simp add: power_int_minus field_simps)
  moreover have "\<bar>of_int m / 2 :: rat\<bar> < overflow"
  proof -
    have "\<bar>of_int m :: rat\<bar> \<le> of_int (2 ^ 53)" using assms by (simp only: of_int_abs [symmetric] of_int_le_iff)
    then have "\<bar>of_int m / 2 :: rat\<bar> \<le> 2 ^ 53" by (simp add: abs_le_iff)
    then show ?thesis using pow2_less_overflow [of 53] by simp
  qed
  ultimately show ?thesis using False by (intro to_double_exact) simp_all
qed simp

lemma pad_of_int:
  assumes "0 < c" "c \<le> 2 ^ 50"
  shows "pad_of (num_of_int c) = Fin (of_int c / 2)"
  using assms half_value [of c] js_div_nonneg [of "of_int c" 2] by (simp add: pad_of_def or_one_def)

lemma edges_of_column:
  assumes "\<bar>n\<bar> \<le> 2 ^ 51" "0 < c" "c \<le> 2 ^ 50"
  shows "js_add (num_of_int n) (Fin (of_int c / 2)) = Fin (of_int (2 * n + c) / 2)"
    and "js_sub (num_of_int n) (Fin (of_int c / 2)) = Fin (of_int (2 * n - c) / 2)"
proof -
  have eq: "of_int n + of_int c / 2 = (of_int (2 * n + c) / 2 :: rat)" "of_int n + - (of_int c / 2) = (of_int (2 * n - c) / 2 :: rat)"
    by (simp_all add: field_simps)
  have b: "\<bar>2 * n + c\<bar> \<le> 2 ^ 53" "\<bar>2 * n - c\<bar> \<le> 2 ^ 53" using assms by simp_all
  have "js_add (num_of_int n) (Fin (of_int c / 2)) = to_double False (of_int n + of_int c / 2)" by (simp add: js_add_def)
  then show "js_add (num_of_int n) (Fin (of_int c / 2)) = Fin (of_int (2 * n + c) / 2)"
    using half_value [OF b(1)] by (simp only: eq(1))
  have "js_sub (num_of_int n) (Fin (of_int c / 2)) = to_double False (of_int n + - (of_int c / 2))"
    using assms(2) by (simp add: js_sub_def js_neg_def js_add_def)
  then show "js_sub (num_of_int n) (Fin (of_int c / 2)) = Fin (of_int (2 * n - c) / 2)"
    using half_value [OF b(2)] by (simp only: eq(2))
qed

lemma rect_of_edges:
  assumes "a \<le> b" "\<bar>a\<bar> \<le> 2 ^ 51" "\<bar>b\<bar> \<le> 2 ^ 51"
  shows "math_min (num_of_int a) (num_of_int b) = num_of_int a"
    and "math_abs (js_sub (num_of_int b) (num_of_int a)) = num_of_int (b - a)"
proof -
  show "math_min (num_of_int a) (num_of_int b) = num_of_int a"
    using assms(1) by (auto simp: math_min_def num_lt_def)
  have "js_sub (num_of_int b) (num_of_int a) = num_of_int (b - a)" using assms by (intro js_sub_int) simp
  then show "math_abs (js_sub (num_of_int b) (num_of_int a)) = num_of_int (b - a)"
    using assms(1) by (simp add: math_abs_def del: of_int_diff)
qed

text \<open>
  C37: the cells of neighbouring columns touch. In a heat map whose columns are a whole number wide,
  wherever the x axis puts the three edges of two neighbouring cells of a row, rounded to pixels from
  left to right, the second cell begins where the first one ends: there is neither a gap nor an
  overlap between them, and they have the same top and height.
\<close>

theorem heat_cells_touch:
  assumes size: "hs_colsize hs = num_of_int c" "0 < c" "c \<le> 2 ^ 50" "\<bar>n\<bar> \<le> 2 ^ 50"
    and points: "hp_x p = num_of_int n" "hp_x q = num_of_int (n + c)" "hp_y q = hp_y p"
    and edges: "map (\<lambda>m. x_edge hs (Fin (of_int m / 2))) [2 * n - c, 2 * n + c, 2 * n + 3 * c] = map num_of_int [l, m, r]"
    and order: "l \<le> m" "m \<le> r" "- (2 ^ 51) \<le> l" "r \<le> 2 ^ 51"
  shows "\<exists>y h. hp_rect (place_cell hs p) = (num_of_int l, y, num_of_int (m - l), h) \<and>
    hp_rect (place_cell hs q) = (num_of_int (l + (m - l)), y, num_of_int (r - m), h)"
proof -
  have b: "\<bar>l\<bar> \<le> 2 ^ 51" "\<bar>m\<bar> \<le> 2 ^ 51" "\<bar>r\<bar> \<le> 2 ^ 51" using order by simp_all
  have next_col: "2 * (n + c) + c = 2 * n + 3 * c" "2 * (n + c) - c = 2 * n + c" by simp_all
  have e: "x_edge hs (js_sub (hp_x p) (pad_of (hs_colsize hs))) = num_of_int l"
      "x_edge hs (js_add (hp_x p) (pad_of (hs_colsize hs))) = num_of_int m"
      "x_edge hs (js_sub (hp_x q) (pad_of (hs_colsize hs))) = num_of_int m"
      "x_edge hs (js_add (hp_x q) (pad_of (hs_colsize hs))) = num_of_int r"
    using edges edges_of_column [of n c] edges_of_column [of "n + c" c] size points(1,2)
    unfolding next_col by (simp_all add: pad_of_int)
  show ?thesis
    using rect_of_edges [OF order(1) b(1,2)] rect_of_edges [OF order(2) b(2,3)] points(3)
    by (simp add: place_cell_def Let_def e)
qed

definition sample_heat :: heat_series where
  "sample_heat = \<lparr>hs_colsize = num_of_int 1, hs_rowsize = NaN, hs_len = num_of_int 100,
     hs_xAxis = (\<lambda>v. num_of_int (100 - \<lfloor>20 * rat_of v\<rfloor>)), hs_yAxis = (\<lambda>v. num_of_int \<lfloor>20 * rat_of v\<rfloor>),
     hs_nullColor = None, hs_color = None, hs_colorAxis = None, hs_hasRendered = False\<rparr>"

definition sample_cell :: "int \<Rightarrow> heat_point" where
  "sample_cell n = \<lparr>hp_x = num_of_int n, hp_y = num_of_int 1,
     hp_color = \<lparr>point_value = NoValue, point_color = None, point_class = None, point_visible = True\<rparr>, hp_own_color = None,
     hp_plot = (NaN, NaN), hp_rect = (NaN, NaN, NaN, NaN), hp_fill = None\<rparr>"

theorem heat_cells_touch_witness:
  "\<exists>y h. hp_rect (place_cell sample_heat (sample_cell 1)) = (num_of_int 10, y, num_of_int (30 - 10), h) \<and>
    hp_rect (place_cell sample_heat (sample_cell 2)) = (num_of_int (10 + (30 - 10)), y, num_of_int (50 - 30), h)"
proof (rule heat_cells_touch [where c = 1 and n = 1])
  have "x_edge sample_heat (Fin (1 / 2)) = num_of_int 10" "x_edge sample_heat (Fin (3 / 2)) = num_of_int 30"
      "x_edge sample_heat (Fin (5 / 2)) = num_of_int 50"
    using js_sub_int [of 100 90] js_sub_int [of 100 70] js_sub_int [of 100 50] math_round_int [of 10] math_round_int [of 30] math_round_int [of 50]
    by (simp_all add: x_edge_def sample_heat_def)
  then show "map (\<lambda>m. x_edge sample_heat (Fin (of_int m / 2))) [2 * 1 - 1, 2 * 1 + 1, 2 * 1 + 3 * 1] = map num_of_int [10, 30, 50]"
    by simp
qed (simp_all add: sample_heat_def sample_cell_def)

end
