(* ===== verification/Lib_Drilldown_Draw.thy ===== *)
theory Lib_Drilldown_Draw
  imports Lib_Drilldown Lib_Color_Axis Lib_Themes Canvg_Units
begin

text \<open>
  What modules/drilldown.src.js does to the picture of a chart when a user drills down and up
  (\<open>Lib_Drilldown\<close> has the levels): the animations of columns and pies, the button that leads back,
  and the styles of labels, points and ticks. What happens to an element of the picture is recorded;
  the lemmas show that nothing of a series that comes back stays hidden.
\<close>

section \<open>Elements\<close>

definition drilldown_defaults :: props where
  "drilldown_defaults = (let clickable = Obj [(''cursor'', Str ''pointer''), (''color'', Str ''#0d233a''), (''fontWeight'', Str ''bold''),
       (''textDecoration'', Str ''underline'')] in
     [(''activeAxisLabelStyle'', clickable), (''activeDataLabelStyle'', clickable),
      (''animation'', Obj [(''duration'', int_val 500)]),
      (''drillUpButton'', Obj [(''position'', Obj [(''align'', Str ''right''), (''x'', int_val (- 10)), (''y'', int_val 10)])])])"

text \<open>
  A point has its shape, its label and its connector, or some of them; \<open>TurnTo\<close> is an animation with
  its options and the two colours it goes between, if any.
\<close>

datatype part = Graphic | DataLabel | Connector

datatype element_op =
    Hide
  | Show
  | SetAttr props
  | SetCss props
  | OnClick
  | TurnTo props jsval "(jsnum list \<times> jsnum list) option"
  | Vanish

type_synonym element_ops = "(nat \<times> part \<times> element_op) list"

record drawn_point =
  dp_color :: string
  dp_graphic :: bool
  dp_label :: bool
  dp_connector :: bool
  dp_shapeArgs :: props
  dp_drilldown :: bool

text \<open>\<open>fadeIn\<close> of an element, whose opacity may be another one in maps.\<close>

definition fadeIn :: "jsval \<Rightarrow> jsval \<Rightarrow> element_op list" where
  "fadeIn newOpacity animation =
     [SetAttr [(''opacity'', Num (to_double False (1 / 10))), (''visibility'', Str ''inherit'')],
      TurnTo [(''opacity'', if is_nullish newOpacity then int_val 1 else newOpacity)]
        (if truthy animation then animation else Obj [(''duration'', int_val 250)]) None]"

definition on_part :: "nat \<Rightarrow> part \<Rightarrow> element_op list \<Rightarrow> element_ops" where
  "on_part i part ops = map (\<lambda>op. (i, part, op)) ops"

text \<open>Points whose shape is missing cannot be asked to do anything.\<close>

definition parts_of :: "drawn_point \<Rightarrow> part list" where
  "parts_of p = Graphic # (if dp_label p then [DataLabel] else []) @ (if dp_connector p then [Connector] else [])"

definition all_parts :: "element_op list \<Rightarrow> nat \<times> drawn_point \<Rightarrow> element_ops res" where
  "all_parts ops ip = (case ip of (i, p) \<Rightarrow>
     if \<not> dp_graphic p then Inl TypeError
     else Inr (concat (map (\<lambda>part. on_part i part ops) (parts_of p))))"

section \<open>Columns\<close>

text \<open>
  Coming back to a series: it is hidden, and shown again after a while, the point that was drilled
  into at once and the others faded in.
\<close>

definition hide_points :: "drawn_point list \<Rightarrow> element_ops res" where
  "hide_points ps = bind_res (map_res (all_parts [Hide]) (enumerate 0 ps)) (\<lambda>dss. Inr (concat dss))"

definition show_ops :: "nat option \<Rightarrow> nat \<Rightarrow> element_op list" where
  "show_ops pointIndex i = (if Some i = pointIndex then [Show] else fadeIn Undefined Undefined)"

definition show_points :: "nat option \<Rightarrow> drawn_point list \<Rightarrow> element_ops res" where
  "show_points pointIndex ps = bind_res (map_res (\<lambda>ip. all_parts (show_ops pointIndex (fst ip)) ip) (enumerate 0 ps))
     (\<lambda>dss. Inr (concat dss))"

definition drillup_delay :: "jsval \<Rightarrow> jsnum res" where
  "drillup_delay animation = bind_res (get_prop animation ''duration'') (\<lambda>d.
     Inr (math_max (js_sub (to_num d) (num_of_int 50)) (num_of_int 0)))"

definition animateDrillupTo :: "jsval \<Rightarrow> bool \<Rightarrow> drawn_point list \<Rightarrow> (element_ops \<times> jsnum option) res" where
  "animateDrillupTo animation init ps = (if init then Inr ([], None)
     else bind_res (hide_points ps) (\<lambda>ds. bind_res (drillup_delay animation) (\<lambda>wait. Inr (ds, Some wait))))"

text \<open>
  Going down: the columns start from the shape of the point that was drilled into. The last level
  whose lower series this is, or the last one of all, has the shape; its x is moved for good.
\<close>

definition level_of :: "nat \<Rightarrow> (nat \<times> props) list \<Rightarrow> nat" where
  "level_of own lvs = (case filter (\<lambda>i. fst (lvs ! i) = own) [0..<length lvs] of [] \<Rightarrow> length lvs - 1 | is \<Rightarrow> List.last is)"

definition move_x :: "jsnum \<Rightarrow> props \<Rightarrow> props" where
  "move_x by_x shape = put_prop ''x'' (Num (js_add (to_num (get_own shape ''x'')) by_x)) shape"

definition column_from :: "props \<Rightarrow> jsval \<Rightarrow> nat \<times> drawn_point \<Rightarrow> element_ops" where
  "column_from shape animation ip = (case ip of (i, p) \<Rightarrow>
     (if dp_graphic p then on_part i Graphic [SetAttr shape, TurnTo (dp_shapeArgs p) animation None] else []) @
     (if dp_label p then on_part i DataLabel (fadeIn Undefined animation) else []))"

definition animateDrilldown ::
  "jsval \<Rightarrow> nat \<Rightarrow> jsnum \<times> jsnum \<Rightarrow> bool \<Rightarrow> drawn_point list \<Rightarrow> (nat \<times> props) list \<Rightarrow> ((nat \<times> props) list \<times> element_ops) res" where
  "animateDrilldown animation own pos init ps lvs =
     (if lvs = [] then Inl TypeError
      else if init then Inr (lvs, [])
      else (let k = level_of own lvs; shape = move_x (js_sub (fst pos) (snd pos)) (snd (lvs ! k)) in
        Inr (lvs[k := (fst (lvs ! k), shape)], concat (map (column_from shape animation) (enumerate 0 ps)))))"

text \<open>
  Leaving a series: its shapes go to the point above it and vanish, and with the first of them the
  group they were in.
\<close>

definition color_span :: "string \<Rightarrow> string \<Rightarrow> (jsnum list \<times> jsnum list) option" where
  "color_span start_color end_color = (let a = color_rgba start_color; b = color_rgba end_color in
     if length a = 4 \<and> length b = 4 then Some (a, b) else None)"

record leaving =
  le_drawing :: element_ops
  le_group :: bool
  le_destroyed :: nat
  le_quiet :: "string list"

definition complete_leaving :: "nat \<Rightarrow> leaving \<Rightarrow> leaving" where
  "complete_leaving i st = st\<lparr>le_drawing := le_drawing st @ [(i, Graphic, Vanish)], le_group := False,
     le_destroyed := le_destroyed st + (if le_group st then 1 else 0)\<rparr>"

definition leave_point :: "jsval \<Rightarrow> props \<Rightarrow> string \<Rightarrow> leaving \<Rightarrow> nat \<times> drawn_point \<Rightarrow> leaving" where
  "leave_point animation shape level_color st ip = (case ip of (i, p) \<Rightarrow>
     if \<not> dp_graphic p then st
     else if truthy animation then
       st\<lparr>le_drawing := le_drawing st @ [(i, Graphic, TurnTo shape animation (color_span (dp_color p) level_color))]\<rparr>
     else complete_leaving i (st\<lparr>le_drawing := le_drawing st @ [(i, Graphic, SetAttr shape)]\<rparr>))"

definition animateDrillupFrom :: "jsval \<Rightarrow> props \<Rightarrow> string \<Rightarrow> (string \<times> bool) list \<Rightarrow> bool \<Rightarrow> drawn_point list \<Rightarrow> leaving" where
  "animateDrillupFrom animation shape level_color trackerGroups grouped ps =
     foldl (leave_point animation shape level_color)
       \<lparr>le_drawing = [], le_group = grouped, le_destroyed = 0, le_quiet = map fst (filter snd trackerGroups)\<rparr> (enumerate 0 ps)"

section \<open>Pies\<close>

text \<open>The slices start as equal parts of the slice that was drilled into.\<close>

definition slice_from :: "props \<Rightarrow> string \<Rightarrow> jsval \<Rightarrow> nat \<Rightarrow> nat \<times> drawn_point \<Rightarrow> element_ops res" where
  "slice_from shape level_color animation n ip = (case ip of (i, p) \<Rightarrow>
     if \<not> dp_graphic p then Inl TypeError
     else (let begin_angle = to_num (get_own shape ''start''); angle = js_sub (to_num (get_own shape ''end'')) begin_angle;
           startAngle = js_div angle (num_of_int (int n));
           place = (\<lambda>k. Num (js_add begin_angle (js_mul (num_of_int (int k)) startAngle))) in
       Inr (on_part i Graphic [SetAttr (merge_all [shape, [(''start'', place i), (''end'', place (i + 1))]]),
         if truthy animation then TurnTo (dp_shapeArgs p) animation (color_span level_color (dp_color p)) else SetAttr (dp_shapeArgs p)])))"

definition pie_animateDrilldown :: "jsval \<Rightarrow> bool \<Rightarrow> drawn_point list \<Rightarrow> (props \<times> string) list \<Rightarrow> element_ops res" where
  "pie_animateDrilldown animation init ps lvs =
     (if lvs = [] then Inl TypeError else if init then Inr []
      else (case List.last lvs of (shape, level_color) \<Rightarrow>
        bind_res (map_res (slice_from shape level_color animation (length ps)) (enumerate 0 ps)) (\<lambda>dss. Inr (concat dss))))"

text \<open>One step of an animation between two colours.\<close>

definition color_step :: "(jsnum list \<times> jsnum list) option \<Rightarrow> string \<Rightarrow> jsnum \<Rightarrow> element_op list" where
  "color_step colors animated pos = (case colors of None \<Rightarrow> []
     | Some (a, b) \<Rightarrow> if animated = ''start'' then [SetAttr [(''fill'', Str (dd_tweenColors a b pos))]] else [])"

section \<open>The button back\<close>

record drill_button =
  db_text :: "string option"
  db_attr :: jsval
  db_hover :: jsval
  db_select :: jsval
  db_shown :: props
  db_align :: jsval
  db_relative :: jsval
  db_aligned :: nat

definition and_get :: "jsval \<Rightarrow> string \<Rightarrow> jsval" where
  "and_get v k = (if truthy v then get_or_undef v k else v)"

definition showDrillUpButton :: "props \<Rightarrow> string option \<Rightarrow> drill_button option \<Rightarrow> drill_button res" where
  "showDrillUpButton buttonOptions backText button = (case button of
     None \<Rightarrow> (let attr = get_own buttonOptions ''theme''; states = and_get attr ''states'';
         relativeTo = get_own buttonOptions ''relativeTo'' in
       bind_res (get_prop (get_own buttonOptions ''position'') ''align'') (\<lambda>align.
       Inr \<lparr>db_text = backText, db_attr = attr, db_hover = and_get states ''hover'', db_select = and_get states ''select'',
         db_shown = [(''align'', align), (''zIndex'', int_val 9)], db_align = get_own buttonOptions ''position'',
         db_relative = (if truthy relativeTo then relativeTo else Str ''plotBox''), db_aligned = 1\<rparr>))
   | Some b \<Rightarrow> Inr (b\<lparr>db_text := backText, db_aligned := db_aligned b + 1\<rparr>))"

section \<open>Ticks, labels and points that can be clicked\<close>

text \<open>
  A label of a tick keeps the style it had before it could be clicked, and the points it leads to.
\<close>

record tick_label =
  tk_styles :: props
  tk_basicStyles :: "props option"
  tk_marked :: bool
  tk_ddPoints :: "nat list option"

definition mark_tick :: "props \<Rightarrow> nat \<Rightarrow> tick_label \<Rightarrow> tick_label" where
  "mark_tick activeStyle pt tk = tk\<lparr>
     tk_basicStyles := Some (case tk_basicStyles tk of None \<Rightarrow> merge_all [tk_styles tk] | Some b \<Rightarrow> b),
     tk_marked := True, tk_styles := extend_with (tk_styles tk) activeStyle,
     tk_ddPoints := Some ((case tk_ddPoints tk of None \<Rightarrow> [] | Some pts \<Rightarrow> pts) @ [pt])\<rparr>"

definition init_point :: "props \<Rightarrow> bool \<Rightarrow> nat \<Rightarrow> tick_label option \<Rightarrow> bool \<times> tick_label option" where
  "init_point activeStyle drilldown pt tick =
     (if drilldown then (True, map_option (mark_tick activeStyle pt) tick)
      else (False, map_option (\<lambda>tk. case tk_basicStyles tk of None \<Rightarrow> tk
        | Some b \<Rightarrow> tk\<lparr>tk_styles := extend_with [] b\<rparr>) tick))"

definition label_marks :: "props \<Rightarrow> nat \<times> drawn_point \<Rightarrow> element_ops" where
  "label_marks style ip = (case ip of (i, p) \<Rightarrow> if dp_drilldown p \<and> dp_label p
     then on_part i DataLabel [SetAttr [(''class'', Str ''highcharts-drilldown-data-label'')], SetCss style, OnClick] else [])"

definition dd_drawDataLabels :: "element_ops \<Rightarrow> props \<Rightarrow> drawn_point list \<Rightarrow> element_ops" where
  "dd_drawDataLabels base style ps = base @ concat (map (label_marks style) (enumerate 0 ps))"

definition tracker_marks :: "nat \<times> drawn_point \<Rightarrow> element_ops" where
  "tracker_marks ip = (case ip of (i, p) \<Rightarrow> if dp_drilldown p \<and> dp_graphic p
     then on_part i Graphic [SetAttr [(''class'', Str ''highcharts-drilldown-point'')], SetCss [(''cursor'', Str ''pointer'')]] else [])"

definition drawTracker :: "element_ops \<Rightarrow> drawn_point list \<Rightarrow> element_ops" where
  "drawTracker base ps = base @ concat (map tracker_marks (enumerate 0 ps))"

section \<open>Nothing stays hidden\<close>

definition op_shows :: "element_op \<Rightarrow> bool \<Rightarrow> bool" where
  "op_shows op v = (case op of Hide \<Rightarrow> False | Show \<Rightarrow> True | Vanish \<Rightarrow> False
     | SetAttr a \<Rightarrow> (get_own a ''visibility'' = Str ''inherit'' \<or> v) | _ \<Rightarrow> v)"

definition seen_after :: "element_ops \<Rightarrow> nat \<times> part \<Rightarrow> bool \<Rightarrow> bool" where
  "seen_after ds k v = foldl (\<lambda>v (i, part, op). if (i, part) = k then op_shows op v else v) v ds"

lemma seen_after_simps [simp]:
  "seen_after [] k v = v"
  "seen_after (ds @ es) k v = seen_after es k (seen_after ds k v)"
  "seen_after ((i, part, op) # ds) k v = seen_after ds k (if (i, part) = k then op_shows op v else v)"
  by (simp_all add: seen_after_def)

lemma seen_other: "k \<noteq> (i, part) \<Longrightarrow> seen_after (on_part i part ops) k v = v"
  by (induction ops) (auto simp: on_part_def)

lemma seen_own: "seen_after (on_part i part ops) (i, part) v = foldl (\<lambda>v op. op_shows op v) v ops"
  by (induction ops arbitrary: v) (simp_all add: on_part_def)

lemma seen_parts:
  "part \<in> set (parts_of p) \<Longrightarrow>
    seen_after (concat (map (\<lambda>part. on_part i part ops) (parts_of p))) (i, part) v = foldl (\<lambda>v op. op_shows op v) v ops"
  by (auto simp: parts_of_def seen_own seen_other split: if_splits)

lemma seen_other_parts: "j \<noteq> i \<Longrightarrow> seen_after (concat (map (\<lambda>part. on_part i part ops) ps)) (j, part) v = v"
  by (induction ps arbitrary: v) (simp_all add: seen_other)

definition point_ops :: "(nat \<Rightarrow> element_op list) \<Rightarrow> nat \<times> drawn_point \<Rightarrow> element_ops" where
  "point_ops f ip = concat (map (\<lambda>part. on_part (fst ip) part (f (fst ip))) (parts_of (snd ip)))"

lemma seen_point_ops:
  "part \<in> set (parts_of p) \<Longrightarrow> seen_after (point_ops f (i, p)) (i, part) v = foldl (\<lambda>v op. op_shows op v) v (f i)"
  "j \<noteq> i \<Longrightarrow> seen_after (point_ops f (i, p)) (j, part) v = v"
  by (simp_all add: point_ops_def seen_parts seen_other_parts)

lemma map_res_all_parts:
  "map_res (\<lambda>ip. all_parts (f (fst ip)) ip) (enumerate n ps) =
    (if \<forall>p \<in> set ps. dp_graphic p then Inr (map (point_ops f) (enumerate n ps)) else Inl TypeError)"
  by (induction ps arbitrary: n) (auto simp: all_parts_def point_ops_def)

lemma seen_series:
  assumes "n \<le> i" "i < n + length ps" "part \<in> set (parts_of (ps ! (i - n)))"
  shows "seen_after (concat (map (point_ops f) (enumerate n ps))) (i, part) v = foldl (\<lambda>v op. op_shows op v) v (f i)"
  using assms
proof (induction ps arbitrary: n v)
  case (Cons p ps)
  have later: "seen_after (concat (map (point_ops f) (enumerate (Suc i) qs))) (i, part) w = w" for qs w
  proof -
    have "seen_after (concat (map (point_ops f) (enumerate m qs))) (i, part) w = w" if "i < m" for m
      using that by (induction qs arbitrary: m w) (simp_all add: seen_point_ops)
    then show ?thesis by simp
  qed
  show ?case
  proof (cases "i = n")
    case True
    then show ?thesis using Cons.prems(3) later by (simp add: seen_point_ops)
  next
    case False
    then have "(p # ps) ! (i - n) = ps ! (i - Suc n)" using Cons.prems(1) by (simp add: nth_Cons')
    then show ?thesis using False Cons.prems Cons.IH [of "Suc n"] by (simp add: seen_point_ops)
  qed
qed simp

text \<open>
  C38: a series that is drilled up to comes back whole. When \<open>animateDrillupTo\<close> has hidden its points,
  every part of every point is hidden; when the time is over, the points are shown without an error,
  every part of every point is seen again, and the parts of the point that was drilled into are seen
  at once, without fading in.
\<close>

theorem series_comes_back:
  assumes "animateDrillupTo animation False ps = Inr (hidden, wait)"
    and "i < length ps" "part \<in> set (parts_of (ps ! i))"
  shows "\<not> seen_after hidden (i, part) v \<and> (\<exists>again. show_points pointIndex ps = Inr again \<and>
    seen_after (hidden @ again) (i, part) v \<and>
    (Some i = pointIndex \<longrightarrow> (\<forall>op. (i, part, op) \<in> set again \<longrightarrow> op = Show)))"
proof -
  have shapes: "\<forall>p \<in> set ps. dp_graphic p" and hidden: "hidden = concat (map (point_ops (\<lambda>_. [Hide])) (enumerate 0 ps))"
    using assms(1) map_res_all_parts [of "\<lambda>_. [Hide]" 0 ps]
    by (auto simp: animateDrillupTo_def hide_points_def bind_res_Inr_iff split: if_splits)
  let ?again = "concat (map (point_ops (show_ops pointIndex)) (enumerate 0 ps))"
  have "show_points pointIndex ps = Inr ?again"
    using shapes map_res_all_parts [of "show_ops pointIndex" 0 ps] by (simp add: show_points_def)
  moreover have "\<not> seen_after hidden (i, part) v" "seen_after ?again (i, part) w" for w
    using seen_series [of 0 i ps part] assms(2,3) unfolding hidden by (simp_all add: op_shows_def show_ops_def fadeIn_def get_own_def)
  moreover have "op = Show" if "Some i = pointIndex" "(i, part, op) \<in> set ?again" for op
    using that by (auto simp: point_ops_def on_part_def show_ops_def in_set_enumerate_eq)
  ultimately show ?thesis by auto
qed

definition sample_points :: "drawn_point list" where
  "sample_points = replicate 2 \<lparr>dp_color = ''#fff'', dp_graphic = True, dp_label = True, dp_connector = False, dp_shapeArgs = [],
     dp_drilldown = True\<rparr>"

theorem series_comes_back_witness:
  "\<exists>hidden wait. animateDrillupTo (Obj [(''duration'', int_val 500)]) False sample_points = Inr (hidden, wait) \<and>
    \<not> seen_after hidden (1, DataLabel) True \<and> (\<exists>again. show_points (Some 1) sample_points = Inr again \<and>
      seen_after (hidden @ again) (1, DataLabel) True \<and>
      (Some 1 = Some (1::nat) \<longrightarrow> (\<forall>op. (1, DataLabel, op) \<in> set again \<longrightarrow> op = Show)))"
proof -
  obtain hidden wait where run: "animateDrillupTo (Obj [(''duration'', int_val 500)]) False sample_points = Inr (hidden, wait)"
    using map_res_all_parts [of "\<lambda>_. [Hide]" 0 sample_points]
    by (simp add: animateDrillupTo_def hide_points_def drillup_delay_def sample_points_def)
  moreover have "1 < length sample_points" "DataLabel \<in> set (parts_of (sample_points ! 1))"
    by (simp_all add: sample_points_def parts_of_def)
  ultimately show ?thesis using series_comes_back [OF run, of 1 DataLabel True "Some 1"] by blast
qed

text \<open>
  A group that several animations end in is destroyed once; if no point has a shape, never. The place
  that a column came from is moved at every way down.
\<close>

lemma group_destroyed_once:
  "le_destroyed (fold complete_leaving js st) + (if le_group (fold complete_leaving js st) then 1 else 0) =
    le_destroyed st + (if le_group st then 1 else 0)"
  by (induction js arbitrary: st) (simp_all add: complete_leaving_def)

lemma level_of_less: "lvs \<noteq> [] \<Longrightarrow> level_of own lvs < length lvs"
proof (cases "filter (\<lambda>i. fst (lvs ! i) = own) [0..<length lvs]")
  case (Cons a js)
  then have "level_of own lvs \<in> set (filter (\<lambda>i. fst (lvs ! i) = own) [0..<length lvs])"
    using last_in_set [of "a # js"] by (simp add: level_of_def)
  then show ?thesis by simp
qed (simp add: level_of_def)

lemma drilldown_moves_level:
  "lvs \<noteq> [] \<Longrightarrow> animateDrilldown animation own (old_pos, pos) False ps lvs = Inr (lvs', ds) \<Longrightarrow>
    snd (lvs' ! level_of own lvs) = move_x (js_sub old_pos pos) (snd (lvs ! level_of own lvs))"
  using level_of_less [of lvs own] by (auto simp: animateDrilldown_def Let_def)

end
