(* ===== verification/Spec2Isabelle.thy ===== *)
theory Spec2Isabelle
  imports Action Main_Page Lib_Themes Lib_Alphanum Lib_Export_Csv Lib_Data_Chart Lib_Json_Text
    Lib_Legend_Drag Lib_Color_Axis Lib_Drilldown_Stack Canvg_Renderer Lib_Export_Print
    Lib_Export_Menu Lib_Funnel Lib_No_Data Lib_Heatmap Lib_Drilldown_Draw
begin

text \<open>
  The evaluation dashboard of Shabdiz: the JavaScript under
  src/evaluation/src/site/resources/analysis/scripts, called scripts below, with its libraries
  under scripts/lib and the Highcharts modules under scripts/lib/highcharts-4.0.1, called hc.

  The program. The dashboard is one page. main.js configures the module loader, fills a sidebar
  of metrics and seven filters from a table of scenarios, and starts the query. query.js holds
  what the user has selected, writes it to the hash of the page's address and reads it back, and
  picks the scenarios that match. action.js has the handlers behind the links, boxes and radio
  buttons; they change the query and call update, which publishes the matches in the shared scope
  of scope.js. renderer in scope.js reads the CSV results of the matching scenarios, builds the
  options of one chart out of a theme of metric_themes.js, which extends theme.js by the deep
  merge of jQuery, and hands them to Highcharts. util.js has the conversions and the methods on
  arrays and strings that all of them use. Of the libraries, the development models those whose
  source is here in readable form: the natural sort (lib/alphanum.js), JSON (lib/json.js), and of
  Highcharts the data module, the export to CSV, the draggable legend, the colour axes, the
  drilldown, the exporting, funnels, the label without data, the themes, and canvg, which draws an
  SVG document on a canvas.

  Conventions. A JavaScript number is a double: a finite one is held as the rational it denotes
  and every operation rounds to the nearest double, with both zeros, the infinities and NaN
  (JS_Number, JS_Math). A string is a list of code units (JS_String). A value is a tree, an object
  the list of its properties in the order the language enumerates them (JS_Value). An expression
  that can throw has a result in the sum type res, the exception on the left, and bind_res puts
  such expressions in sequence (Prelude). State is a record that an operation takes and returns
  updated; what is done to the page, or drawn, is a recorded list of operations in order. Objects
  that several places hold, and whose identity matters, live in stores under numbers: the options
  and series of a drilldown, and the elements and properties of canvg. The server, the CSV parser,
  the template engine, the charting library, the canvas and the functions of Math that the
  language does not pin down are the platform: arguments of the definitions that use them.

  The theories and the code.
    Prelude, JS_Number, JS_Math, JS_String, JS_Value: the language.
    Util_Alphanum, Util_Arrays, Util_Text, Util_Convert: util.js, in the order of the file.
    JQuery_Extend: $.extend of lib/jquery-1.11.0.js in its deep form.
    Themes: theme.js and metric_themes.js. Lib_Themes: hc/themes and Highcharts.setOptions.
    Scope: scope.js, the state and renderer with its three kinds of chart.
    Query: query.js, one definition per method; fields of the record query are the properties of
      the object. Action: action.js, and the page as a step relation whose steps are a click on a
      metric, a box, a data type, and a reload. Main_Page: main.js, the start and the resize timer.
    Lib_Alphanum: lib/alphanum.js. Lib_Json: lib/json.js; Lib_Json_Text: a grammar of JSON texts.
    Lib_Data_Tables, Lib_Data_Types, Lib_Data_Series, Lib_Data_Chart: hc/modules/data.src.js, from
      the input to columns, the types of cells, the series, and the whole run on a chart.
    Lib_Export_Csv: hc/modules/export-csv.js, but for its entry in the menu (Lib_Export_Menu).
    Lib_Export_Svg, Lib_Export_Print, Lib_Export_Menu: hc/modules/exporting.src.js, the SVG text of a
      chart and the form it is sent in, the printing, and the buttons and menus.
    Lib_Funnel: hc/modules/funnel.src.js. Lib_No_Data: hc/modules/no-data-to-display.src.js.
    Lib_Legend_Drag: hc/modules/draggable-legend-box.js with Element.align of highcharts.js.
    Lib_Color_Axis: the colours of hc/modules/heatmap.src.js and
      hc/modules/solid-gauge.src.js; Lib_Heatmap: the rest of both, axis, cells and arcs.
    Lib_Drilldown: hc/modules/drilldown.src.js with addSeries, remove and getColor of
      highcharts.js. Lib_Drilldown_Stack: the levels as a stack. Lib_Drilldown_Draw: the animations,
      the button and the labels.
    Canvg_Color to Canvg_Balance: hc/modules/canvas-tools.src.js. Canvg_Color is RGBColor;
      Canvg_Units the properties, lengths, times, angles and fonts; Canvg_Geometry points, boxes
      and transformations; Canvg_Path the path element and its reader; Canvg_Shapes the other
      shapes; Canvg_Store the elements at addresses, their attributes and styles, and the style
      sheets; Canvg_Elements the constructors and the factory; Canvg_Animation the animations;
      Canvg_Canvas the canvases and the mouse; Canvg_Context what an element sets before it is
      drawn; Canvg_Text words and glyphs; Canvg_Render the drawing of every class;
      Canvg_Blur the blur of filters; Canvg_Load the loader, its timer and the whole life of a
      document; Canvg_Renderer the renderer of Highcharts that draws by canvg.

  The interfaces. Each is a locale, with its laws discharged on the definitions of the code.
    key_store (JS_Value): a map from keys to values with its keys in order; the properties of an
      object. Groups, CSV records and merged options rest on it.
    layering (JQuery_Extend, Lib_Themes): options laid over options; the deep merge of jQuery and
      the merge of Highcharts are two instances.
    comparison (Util_Arrays): a comparator consistent with a key, for the sort of the language;
      instance sortBy on labelled rows.
    field_codec (Query): the writing and reading of a list with a separator; the positions of one
      property and the properties of a query are two instances, one on top of the other.
    undo_stack (Lib_Drilldown_Stack): steps that push and a step back that pops; instance the
      clicks and drillUp.
    drawer (Canvg_Balance): a function that draws an element and leaves the canvases as they were;
      instance render at every depth of the stack.

  What the lemmas show. Of the page: invariants of the reachable states (the hash is the encoding
  of the query, a box is checked exactly when its value is selected), that a reload restores the
  query, what matches returns and when it throws, and that every kind of chart is drawn. Of the
  helpers: partitions, orders, permutations and bounds of grouping, sorting, hashing and colours.
  Of the libraries: round trips of JSON, CSV, queries, fonts, transformations and colours; that the
  loop of series ends and CSV tables become the series they describe; that drilling down is a push
  on a stack and comes back to the same chart; that theme and options are merged without losing a
  default; that the colour of a value lies between its stops; that printing leaves the page as it
  was, that export buttons stand in a row, that a funnel narrows to its neck, that the cells of a
  heat map touch, that a series drilled up to comes back whole, and that the message of a chart
  without data stands exactly when there is none. Of canvg: documents give well-formed stores, the
  cascade of rules, paths drawn through their points within their box, animations that end, and
  drawing that leaves every canvas in the state it was in.

  Bounds and fuel. Numerals are exact up to 2^53, and the theorems on whole numbers say so. The
  dragged legend is about whole pixels up to 2^40, gradients about numbers up to 2^1000, so that
  no rounding step overflows. JSON.stringify takes the depth of the stack, and its theorem is for
  values nested less deeply. The drawing of canvg takes the depth of the stack too, since a
  document can refer to itself; a full stack is a RangeError as in the language, and the theorem
  on drawing holds for every depth. The reader of paths, the style sheets, the rows of CSV and the
  loop of series have their own termination proofs and need no fuel.

  Not modelled. Listeners and links between series of a drilldown; the core of Highcharts but for
  merge, extend, setOptions, colours, the alignment of boxes and the adding and removing of series,
  and the minified copies of the modules, which are the same code again; minified third-party
  libraries (bootstrap, jStat, markup.js, Papa Parse, require.js, jQuery but for extend), whose
  results are arguments; the page and its styles; and the Java part of the repository, the framework
  whose results the page shows. Names that every object inherits, such as constructor, are modelled
  for the grouping of arrays, where they make it throw, and not for the tables of canvg. Characters
  from 256 on do not occur in the model's strings.
\<close>

end
